(* ===== verification/Prelude.thy ===== *)
theory Prelude
  imports Main "HOL-Library.Sublist"
begin

text \<open>
  What every component of the model shares: Go's string helpers as far as the program uses
  them, tables as lists of rows, and database transactions as functions that thread a state
  and a schedule of statement failures.
\<close>

named_theorems tx_run \<open>evaluation of transactions in a world without pending faults\<close>
named_theorems tx_always \<open>properties that survive errors inside a transaction\<close>
named_theorems tx_runs \<open>success of transactions in a world without pending faults\<close>
named_theorems tx_wp \<open>weakest preconditions of the transaction primitives\<close>

section \<open>Time and durations\<close>

text \<open>A time is a count of nanoseconds since the epoch, as Go's \<^verbatim>\<open>time.Time\<close> and
  \<^verbatim>\<open>time.Duration\<close> count them. A nullable \<^verbatim>\<open>*time.Time\<close> is an option.\<close>

type_synonym time = int

definition second :: int where "second = 1000000000"
definition minute :: int where "minute = 60 * second"
definition hour :: int where "hour = 60 * minute"

lemma duration_pos [simp]: "0 < second" "0 < minute" "0 < hour"
  by (simp_all add: second_def minute_def hour_def)

section \<open>Strings\<close>

text \<open>Go strings are byte strings; \<open>length\<close> counts bytes as \<^verbatim>\<open>len\<close> does.
  \<open>go_spaces\<close> lists the UTF-8 encodings of the runes of \<^verbatim>\<open>unicode.IsSpace\<close>.\<close>

definition go_spaces :: "string list" where
  "go_spaces =
     [[CHR 0x09], [CHR 0x0A], [CHR 0x0B], [CHR 0x0C], [CHR 0x0D], [CHR 0x20],
      [CHR 0xC2, CHR 0x85], [CHR 0xC2, CHR 0xA0], [CHR 0xE1, CHR 0x9A, CHR 0x80],
      [CHR 0xE2, CHR 0x80, CHR 0x80], [CHR 0xE2, CHR 0x80, CHR 0x81],
      [CHR 0xE2, CHR 0x80, CHR 0x82], [CHR 0xE2, CHR 0x80, CHR 0x83],
      [CHR 0xE2, CHR 0x80, CHR 0x84], [CHR 0xE2, CHR 0x80, CHR 0x85],
      [CHR 0xE2, CHR 0x80, CHR 0x86], [CHR 0xE2, CHR 0x80, CHR 0x87],
      [CHR 0xE2, CHR 0x80, CHR 0x88], [CHR 0xE2, CHR 0x80, CHR 0x89],
      [CHR 0xE2, CHR 0x80, CHR 0x8A], [CHR 0xE2, CHR 0x80, CHR 0xA8],
      [CHR 0xE2, CHR 0x80, CHR 0xA9], [CHR 0xE2, CHR 0x80, CHR 0xAF],
      [CHR 0xE2, CHR 0x81, CHR 0x9F], [CHR 0xE3, CHR 0x80, CHR 0x80]]"

definition strip_space :: "string list \<Rightarrow> string \<Rightarrow> string option" where
  "strip_space ps s =
     (case find (\<lambda>p. p \<noteq> [] \<and> prefix p s) ps of
        None \<Rightarrow> None
      | Some p \<Rightarrow> Some (drop (length p) s))"

lemma strip_space_shorter: "strip_space ps s = Some t \<Longrightarrow> length t < length s"
  by (auto simp: strip_space_def find_Some_iff prefix_def split: option.splits)

function trim_with :: "string list \<Rightarrow> string \<Rightarrow> string" where
  "trim_with ps s = (case strip_space ps s of None \<Rightarrow> s | Some t \<Rightarrow> trim_with ps t)"
  by pat_completeness auto
termination
  by (relation "measure (\<lambda>(ps, s). length s)") (auto dest: strip_space_shorter)

declare trim_with.simps [simp del]

lemma trim_with_length: "length (trim_with ps s) \<le> length s"
proof (induction ps s rule: trim_with.induct)
  case (1 ps s)
  then show ?case
    by (subst trim_with.simps) (fastforce split: option.splits dest: strip_space_shorter)
qed

lemma trim_with_Nil [simp]: "trim_with ps [] = []"
  using trim_with_length [of ps "[]"] by simp

text \<open>\<^verbatim>\<open>strings.TrimSpace\<close>: leading spaces, then trailing ones (the reversed byte
  patterns on the reversed string).\<close>

definition trimSpace :: "string \<Rightarrow> string" where
  "trimSpace s = rev (trim_with (map rev go_spaces) (rev (trim_with go_spaces s)))"

lemma trimSpace_length: "length (trimSpace s) \<le> length s"
  unfolding trimSpace_def length_rev
  by (rule order_trans [OF trim_with_length]) (simp add: trim_with_length)

lemma trimSpace_Nil [simp]: "trimSpace [] = []"
  by (simp add: trimSpace_def)

text \<open>\<^verbatim>\<open>strings.ToLower\<close> on ASCII and \<^verbatim>\<open>strings.Contains\<close>.\<close>

definition lower_char :: "char \<Rightarrow> char" where
  "lower_char c = (let n = of_char c :: nat
     in if 65 \<le> n \<and> n \<le> 90 then char_of (n + 32) else c)"

definition toLower :: "string \<Rightarrow> string" where
  "toLower s = map lower_char s"

fun contains :: "string \<Rightarrow> string \<Rightarrow> bool" where
  "contains [] sub = (sub = [])"
| "contains (c # s) sub = (prefix sub (c # s) \<or> contains s sub)"

lemma contains_iff_sublist: "contains s sub \<longleftrightarrow> sublist sub s"
  by (induction s) (auto simp: sublist_Cons_right)

text \<open>Decimal numerals, as \<^verbatim>\<open>%d\<close> prints them.\<close>

fun digits :: "nat \<Rightarrow> string" where
  "digits n = (if n < 10 then [char_of (48 + n)] else digits (n div 10) @ [char_of (48 + n mod 10)])"

declare digits.simps [simp del]

definition show_int :: "int \<Rightarrow> string" where
  "show_int i = (if i < 0 then ''-'' @ digits (nat (- i)) else digits (nat i))"

text \<open>Reading a numeral back, and what numerals do not contain.\<close>

definition undigits :: "string \<Rightarrow> nat" where
  "undigits s = foldl (\<lambda>a c. a * 10 + (of_char c - 48)) 0 s"

lemma undigits_digits: "undigits (digits n) = n"
proof (induction n rule: digits.induct)
  case (1 n)
  then show ?case
    by (subst digits.simps) (auto simp: undigits_def)
qed

lemma digits_chars: "c \<in> set (digits n) \<Longrightarrow> 48 \<le> (of_char c :: nat) \<and> (of_char c :: nat) \<le> 57"
proof (induction n arbitrary: c rule: digits.induct)
  case (1 n)
  show ?case
  proof (cases "n < 10")
    case True
    with "1.prems" show ?thesis by (subst (asm) digits.simps) auto
  next
    case False
    from "1.prems" False have "c \<in> set (digits (n div 10)) \<or> c = char_of (48 + n mod 10)"
      by (subst (asm) digits.simps) auto
    then show ?thesis
    proof
      assume "c \<in> set (digits (n div 10))"
      with "1.IH" False show ?thesis by blast
    next
      assume "c = char_of (48 + n mod 10)"
      moreover have "n mod 10 < 10" by simp
      ultimately show ?thesis by simp
    qed
  qed
qed

lemma digits_inj [simp]: "digits m = digits n \<longleftrightarrow> m = n"
  by (metis undigits_digits)

lemma digits_not: "of_char c < (48::nat) \<or> (57::nat) < of_char c \<Longrightarrow> c \<notin> set (digits n)"
  using digits_chars by fastforce

lemma digits_neq_Nil [simp]: "digits n \<noteq> []"
  by (subst digits.simps) simp

lemma digits_no_minus: "digits n \<noteq> CHR ''-'' # s"
proof
  assume "digits n = CHR ''-'' # s"
  then have "CHR ''-'' \<in> set (digits n)" by simp
  moreover have "CHR ''-'' \<notin> set (digits n)" by (rule digits_not) simp
  ultimately show False by simp
qed

lemma show_int_inj: "show_int a = show_int b \<longleftrightarrow> a = b"
  by (auto simp: show_int_def digits_no_minus digits_no_minus [symmetric] split: if_splits)

lemma show_int_not:
  "of_char c < (45::nat) \<or> (57::nat) < of_char c \<Longrightarrow> c \<notin> set (show_int i)"
  using digits_not [of c] by (auto simp: show_int_def)

lemma append_sep_inject:
  "c \<notin> set a \<Longrightarrow> c \<notin> set b \<Longrightarrow> a @ c # x = b @ c # y \<longleftrightarrow> a = b \<and> x = y"
proof (induction a arbitrary: b)
  case Nil
  then show ?case by (cases b) auto
next
  case (Cons d a)
  then show ?case by (cases b) auto
qed

section \<open>Tables\<close>

text \<open>A table is the list of its rows in insertion order. An \<^verbatim>\<open>UPDATE ... WHERE\<close>
  maps the selected rows; \<open>affected\<close> is its \<^verbatim>\<open>RowsAffected\<close>.\<close>

definition update_where :: "('r \<Rightarrow> bool) \<Rightarrow> ('r \<Rightarrow> 'r) \<Rightarrow> 'r list \<Rightarrow> 'r list" where
  "update_where p f rows = map (\<lambda>r. if p r then f r else r) rows"

definition affected :: "('r \<Rightarrow> bool) \<Rightarrow> 'r list \<Rightarrow> nat" where
  "affected p rows = length (filter p rows)"

lemma update_where_simps [simp]:
  "update_where p f [] = []"
  "update_where p f (r # rows) = (if p r then f r else r) # update_where p f rows"
  by (simp_all add: update_where_def)

lemma set_update_where:
  "set (update_where p f rows) = (\<lambda>r. if p r then f r else r) ` set rows"
  by (simp add: update_where_def)

lemma update_whereE:
  assumes "r' \<in> set (update_where p f rows)"
  obtains (new) r where "r \<in> set rows" "p r" "r' = f r"
    | (old) "r' \<in> set rows" "\<not> p r'"
proof -
  from assms obtain r where "r \<in> set rows" "r' = (if p r then f r else r)"
    unfolding set_update_where by blast
  with new old show ?thesis by (cases "p r") simp_all
qed

lemma length_update_where [simp]: "length (update_where p f rows) = length rows"
  by (simp add: update_where_def)

lemma map_update_where:
  "(\<And>r. p r \<Longrightarrow> k (f r) = k r) \<Longrightarrow> map k (update_where p f rows) = map k rows"
  by (simp add: update_where_def)

lemma affected_simps [simp]:
  "affected p [] = 0"
  "affected p (r # rows) = (if p r then Suc (affected p rows) else affected p rows)"
  by (simp_all add: affected_def)

lemma affected_0_iff: "affected p rows = 0 \<longleftrightarrow> (\<forall>r \<in> set rows. \<not> p r)"
  by (auto simp: affected_def filter_empty_conv)

lemma find_distinct_key:
  assumes "distinct (map k rows)" and "r \<in> set rows"
  shows "find (\<lambda>r'. k r' = k r) rows = Some r"
  using assms by (induction rows) auto

lemma find_key_SomeD: "find p rows = Some r \<Longrightarrow> r \<in> set rows \<and> p r"
  by (auto simp: find_Some_iff)

lemma find_update_where:
  assumes "\<And>r. r \<in> set rows \<Longrightarrow> p r \<Longrightarrow> k (f r) = k r"
  shows "find (\<lambda>r. k r = i) (update_where p f rows) =
    map_option (\<lambda>r. if p r then f r else r) (find (\<lambda>r. k r = i) rows)"
  using assms by (induction rows) auto

section \<open>Transactions\<close>

text \<open>
  A database statement either fails because the driver says so, or runs against the tables.
  The failures are scheduled: the head of the list of pending faults belongs to the next
  statement, \<open>Some text\<close> makes it fail with that driver text, \<open>None\<close> (or the end of the list)
  lets it run. A theorem that holds for every list of faults covers every way in which
  statements of the code can fail.
\<close>

datatype 'e txerr =
    RecordNotFound         \<comment> \<open>\<^verbatim>\<open>gorm.ErrRecordNotFound\<close>\<close>
  | DuplicatedKey          \<comment> \<open>a unique index refused the row\<close>
  | DbFault string         \<comment> \<open>any other failure of the driver\<close>
  | App 'e                 \<comment> \<open>an error of the program's own\<close>

type_synonym faults = "string option list"
type_synonym ('d, 'e, 'a) tx = "'d \<times> faults \<Rightarrow> ('e txerr + 'a) \<times> 'd \<times> faults"

definition tx_return :: "'a \<Rightarrow> ('d, 'e, 'a) tx" where
  "tx_return x s = (Inr x, s)"

definition tx_fail :: "'e txerr \<Rightarrow> ('d, 'e, 'a) tx" where
  "tx_fail e s = (Inl e, s)"

definition tx_bind :: "('d, 'e, 'a) tx \<Rightarrow> ('a \<Rightarrow> ('d, 'e, 'b) tx) \<Rightarrow> ('d, 'e, 'b) tx" where
  "tx_bind m f s = (case m s of (Inl e, s') \<Rightarrow> (Inl e, s') | (Inr x, s') \<Rightarrow> f x s')"

text \<open>\<open>if cond { return err }\<close>.\<close>

definition tx_reject :: "bool \<Rightarrow> 'e \<Rightarrow> ('d, 'e, unit) tx" where
  "tx_reject c e = (if c then tx_fail (App e) else tx_return ())"

text \<open>\<open>if err := m(); err != nil { h(err) }\<close> for code that goes on after an error.\<close>

definition tx_catch :: "('d, 'e, 'a) tx \<Rightarrow> ('e txerr \<Rightarrow> ('d, 'e, 'a) tx) \<Rightarrow> ('d, 'e, 'a) tx" where
  "tx_catch m h s = (case m s of (Inl e, s') \<Rightarrow> h e s' | (Inr x, s') \<Rightarrow> (Inr x, s'))"

text \<open>\<open>err := m()\<close> where the program looks at the error, or drops it, and goes on.\<close>

definition tx_try :: "('d, 'e, 'a) tx \<Rightarrow> ('d, 'e, 'e txerr + 'a) tx" where
  "tx_try m s = (case m s of (r, s') \<Rightarrow> (Inr r, s'))"

definition tx_ignore :: "('d, 'e, 'a) tx \<Rightarrow> ('d, 'e, unit) tx" where
  "tx_ignore m = tx_bind (tx_try m) (\<lambda>_. tx_return ())"

text \<open>\<open>if err != nil { _ = h(); return err }\<close>.\<close>

definition tx_onError :: "('d, 'e, 'a) tx \<Rightarrow> ('d, 'e, unit) tx \<Rightarrow> ('d, 'e, 'a) tx" where
  "tx_onError m h = tx_catch m (\<lambda>e. tx_bind (tx_ignore h) (\<lambda>_. tx_fail e))"

text \<open>A read or write of the program's own memory, which cannot fail.\<close>

definition tx_peek :: "('d \<Rightarrow> 'a) \<Rightarrow> ('d, 'e, 'a) tx" where
  "tx_peek f s = (Inr (f (fst s)), s)"

definition tx_poke :: "('d \<Rightarrow> 'd) \<Rightarrow> ('d, 'e, unit) tx" where
  "tx_poke f s = (Inr (), f (fst s), snd s)"

text \<open>One statement. A failing statement leaves the tables as they were.\<close>

definition tx_stmt :: "('d \<Rightarrow> 'e txerr + 'a \<times> 'd) \<Rightarrow> ('d, 'e, 'a) tx" where
  "tx_stmt f s = (case s of (d, fs) \<Rightarrow>
     (case fs of
        Some text # fs' \<Rightarrow> (Inl (DbFault text), d, fs')
      | _ \<Rightarrow> (case f d of
                Inl e \<Rightarrow> (Inl e, d, tl fs)
              | Inr (x, d') \<Rightarrow> (Inr x, d', tl fs))))"

definition tx_select :: "('d \<Rightarrow> 'a) \<Rightarrow> ('d, 'e, 'a) tx" where
  "tx_select f = tx_stmt (\<lambda>d. Inr (f d, d))"

text \<open>Machine integers of 64 bits with a sign: Go wraps around, and \<^verbatim>\<open>SUM\<close> of SQLite fails instead (the
  numbers summed are sizes, so no partial sum exceeds the sum).\<close>

definition fitsInt64 :: "int \<Rightarrow> bool" where
  "fitsInt64 x \<longleftrightarrow> - (2 ^ 63) \<le> x \<and> x < 2 ^ 63"

definition wrap64 :: "int \<Rightarrow> int" where
  "wrap64 x = (x + 2 ^ 63) mod 2 ^ 64 - 2 ^ 63"

lemma wrap64_fits [simp]: "fitsInt64 x \<Longrightarrow> wrap64 x = x"
  by (simp add: fitsInt64_def wrap64_def)

lemma fitsInt64_wrap64: "fitsInt64 (wrap64 x)"
  by (simp add: fitsInt64_def wrap64_def)

text \<open>Below the upper bound a wrapped number is no smaller, above the lower one no larger.\<close>

lemma wrap64_ge: "x < 2 ^ 63 \<Longrightarrow> x \<le> wrap64 x"
  using pos_mod_sign [of "2 ^ 64 :: int" "x + 2 ^ 63"] mod_pos_pos_trivial [of "x + 2 ^ 63" "2 ^ 64 :: int"]
  by (cases "0 \<le> x + 2 ^ 63") (auto simp: wrap64_def)

lemma wrap64_le: "- (2 ^ 63) \<le> x \<Longrightarrow> wrap64 x \<le> x"
  using zmod_le_nonneg_dividend [of "x + 2 ^ 63" "2 ^ 64"] by (simp add: wrap64_def)

definition tx_sum :: "('d \<Rightarrow> int) \<Rightarrow> ('d, 'e, int) tx" where
  "tx_sum f = tx_stmt (\<lambda>d. if fitsInt64 (f d) then Inr (f d, d) else Inl (DbFault ''integer overflow''))"

definition tx_first :: "('d \<Rightarrow> 'a option) \<Rightarrow> ('d, 'e, 'a) tx" where
  "tx_first f = tx_stmt (\<lambda>d. case f d of None \<Rightarrow> Inl RecordNotFound | Some x \<Rightarrow> Inr (x, d))"

definition tx_update :: "('d \<Rightarrow> 'd) \<Rightarrow> ('d, 'e, unit) tx" where
  "tx_update f = tx_stmt (\<lambda>d. Inr ((), f d))"

text \<open>\<^verbatim>\<open>ctx.Err()\<close>: a canceled context is a fault at the check.\<close>

definition tx_check :: "('d, 'e, unit) tx" where
  "tx_check = tx_stmt (\<lambda>d. Inr ((), d))"

fun tx_foreach :: "('x \<Rightarrow> ('d, 'e, unit) tx) \<Rightarrow> 'x list \<Rightarrow> ('d, 'e, unit) tx" where
  "tx_foreach f [] = tx_return ()"
| "tx_foreach f (x # xs) = tx_bind (f x) (\<lambda>_. tx_foreach f xs)"

text \<open>\<^verbatim>\<open>db.Transaction\<close>: an error rolls the tables back; the commit is one more statement that
  may fail.\<close>

definition transaction :: "('d, 'e, 'a) tx \<Rightarrow> ('d, 'e, 'a) tx" where
  "transaction m s =
     (case tx_bind m (\<lambda>x. tx_stmt (\<lambda>d. Inr (x, d))) s of
        (Inl e, _, fs) \<Rightarrow> (Inl e, fst s, fs)
      | (Inr x, d, fs) \<Rightarrow> (Inr x, d, fs))"

subsection \<open>Evaluation without faults\<close>

lemma tx_run_basic [tx_run]:
  "tx_return x s = (Inr x, s)"
  "tx_fail e s = (Inl e, s)"
  "tx_bind m f s = (case m s of (Inl e, s') \<Rightarrow> (Inl e, s') | (Inr x, s') \<Rightarrow> f x s')"
  "tx_reject c a s = (if c then (Inl (App a), s) else (Inr (), s))"
  "tx_catch m2 h s = (case m2 s of (Inl e2, s') \<Rightarrow> h e2 s' | (Inr y, s') \<Rightarrow> (Inr y, s'))"
  by (simp_all add: tx_return_def tx_fail_def tx_bind_def tx_reject_def tx_catch_def)

lemma tx_run_stmt [tx_run]:
  "tx_stmt f (d, []) =
     (case f d of Inl e \<Rightarrow> (Inl e, d, []) | Inr (y, d') \<Rightarrow> (Inr y, d', []))"
  "tx_select g (d, []) = (Inr (g d), d, [])"
  "tx_first p (d, []) =
     (case p d of None \<Rightarrow> (Inl RecordNotFound, d, []) | Some y \<Rightarrow> (Inr y, d, []))"
  "tx_update u (d, []) = (Inr (), u d, [])"
  "tx_sum n (d, []) = (if fitsInt64 (n d) then (Inr (n d), d, []) else (Inl (DbFault ''integer overflow''), d, []))"
  by (simp_all add: tx_stmt_def tx_select_def tx_first_def tx_update_def tx_sum_def
      split: sum.split option.split)

lemma tx_run_transaction [tx_run]:
  "transaction m (d, []) =
     (case m (d, []) of
        (Inl e, d', fs) \<Rightarrow> (Inl e, d, fs)
      | (Inr x, d', fs) \<Rightarrow>
          (case tx_stmt (\<lambda>d. Inr (x, d)) (d', fs) of
             (Inl e, _, fs') \<Rightarrow> (Inl e, d, fs')
           | (Inr y, d'', fs') \<Rightarrow> (Inr y, d'', fs')))"
  by (cases "m (d, [])") (simp add: transaction_def tx_bind_def split: sum.split prod.split)

subsection \<open>Weakest preconditions\<close>

text \<open>\<open>wp m Q d\<close>: whatever faults are pending, if \<open>m\<close> returns normally from tables \<open>d\<close> then \<open>Q\<close>
  holds of its result and of the new tables.\<close>

definition wp :: "('d, 'e, 'a) tx \<Rightarrow> ('a \<Rightarrow> 'd \<Rightarrow> bool) \<Rightarrow> 'd \<Rightarrow> bool" where
  "wp m Q d \<longleftrightarrow> (\<forall>fs x d' fs'. m (d, fs) = (Inr x, d', fs') \<longrightarrow> Q x d')"

lemma wpD: "wp m Q d \<Longrightarrow> m (d, fs) = (Inr x, d', fs') \<Longrightarrow> Q x d'"
  by (auto simp: wp_def)

lemma wp_return [tx_wp]: "Q x d \<Longrightarrow> wp (tx_return x) Q d"
  by (simp add: wp_def tx_return_def)

lemma wp_fail [tx_wp]: "wp (tx_fail e) Q d"
  by (simp add: wp_def tx_fail_def)

lemma wp_bind [tx_wp]: "wp m (\<lambda>x. wp (f x) Q) d \<Longrightarrow> wp (tx_bind m f) Q d"
  by (fastforce simp: wp_def tx_bind_def split: sum.splits prod.splits)

lemma wp_reject [tx_wp]: "(\<not> c \<Longrightarrow> Q () d) \<Longrightarrow> wp (tx_reject c e) Q d"
  by (simp add: wp_def tx_reject_def tx_return_def tx_fail_def)

lemma wp_stmt:
  "(\<And>x d'. f d = Inr (x, d') \<Longrightarrow> Q x d') \<Longrightarrow> wp (tx_stmt f) Q d"
  by (auto simp: wp_def tx_stmt_def split: sum.splits list.splits option.splits)

lemma wp_select [tx_wp]: "Q (f d) d \<Longrightarrow> wp (tx_select f) Q d"
  unfolding tx_select_def by (rule wp_stmt) simp

lemma wp_sum [tx_wp]: "(fitsInt64 (f d) \<Longrightarrow> Q (f d) d) \<Longrightarrow> wp (tx_sum f) Q d"
  unfolding tx_sum_def by (rule wp_stmt) (simp split: if_splits)

lemma wp_first [tx_wp]: "(\<And>x. f d = Some x \<Longrightarrow> Q x d) \<Longrightarrow> wp (tx_first f) Q d"
  unfolding tx_first_def by (rule wp_stmt) (simp split: option.splits)

lemma wp_update [tx_wp]: "Q () (f d) \<Longrightarrow> wp (tx_update f) Q d"
  unfolding tx_update_def by (rule wp_stmt) simp

lemma wp_if [tx_wp]:
  "(c \<Longrightarrow> wp m Q d) \<Longrightarrow> (\<not> c \<Longrightarrow> wp n Q d) \<Longrightarrow> wp (if c then m else n) Q d"
  by simp

lemma wp_mono: "wp m Q d \<Longrightarrow> (\<And>x d'. Q x d' \<Longrightarrow> R x d') \<Longrightarrow> wp m R d"
  by (auto simp: wp_def)

lemma wp_foreach:
  assumes "I d" and "\<And>x d. x \<in> set xs \<Longrightarrow> I d \<Longrightarrow> wp (f x) (\<lambda>_. I) d"
  shows "wp (tx_foreach f xs) (\<lambda>_. I) d"
  using assms
proof (induction xs arbitrary: d)
  case Nil
  then show ?case by (simp add: wp_return)
next
  case (Cons x xs)
  have "wp (f x) (\<lambda>_. I) d"
    using Cons.prems by simp
  then have "wp (f x) (\<lambda>_. wp (tx_foreach f xs) (\<lambda>_. I)) d"
    by (rule wp_mono) (rule Cons.IH, simp_all add: Cons.prems(2))
  then show ?case by (simp add: wp_bind)
qed

text \<open>\<open>always I m\<close>: however \<open>m\<close> ends, it keeps \<open>I\<close>. This is what a program point after a handled
  error can rely on.\<close>

definition always :: "('d \<Rightarrow> bool) \<Rightarrow> ('d, 'e, 'a) tx \<Rightarrow> bool" where
  "always I m \<longleftrightarrow> (\<forall>d fs. I d \<longrightarrow> I (fst (snd (m (d, fs)))))"

lemma always_wp: "always I m \<Longrightarrow> I d \<Longrightarrow> wp m (\<lambda>_. I) d"
  unfolding always_def wp_def by (metis fst_conv snd_conv)

lemma always_return [tx_always]: "always I (tx_return x)"
  by (simp add: always_def tx_return_def)

lemma always_fail [tx_always]: "always I (tx_fail e)"
  by (simp add: always_def tx_fail_def)

lemma always_bind [tx_always]:
  assumes "always I m" and "\<And>x. always I (f x)"
  shows "always I (tx_bind m f)"
  unfolding always_def
proof (intro allI impI)
  fix d fs assume "I d"
  obtain r d' fs' where m: "m (d, fs) = (r, d', fs')" by (cases "m (d, fs)") auto
  with assms(1) \<open>I d\<close> have "I d'" unfolding always_def by (metis fst_conv snd_conv)
  with m assms(2) show "I (fst (snd (tx_bind m f (d, fs))))"
    by (cases r) (simp_all add: tx_bind_def always_def)
qed

lemma always_catch [tx_always]:
  assumes "always I m" and "\<And>e. always I (h e)"
  shows "always I (tx_catch m h)"
  unfolding always_def
proof (intro allI impI)
  fix d fs assume "I d"
  obtain r d' fs' where m: "m (d, fs) = (r, d', fs')" by (cases "m (d, fs)") auto
  with assms(1) \<open>I d\<close> have "I d'" unfolding always_def by (metis fst_conv snd_conv)
  with m assms(2) show "I (fst (snd (tx_catch m h (d, fs))))"
    by (cases r) (simp_all add: tx_catch_def always_def)
qed

lemma always_stmt:
  "(\<And>d x d'. I d \<Longrightarrow> f d = Inr (x, d') \<Longrightarrow> I d') \<Longrightarrow> always I (tx_stmt f)"
  by (auto simp: always_def tx_stmt_def split: list.splits option.splits sum.splits)

lemma always_reject [tx_always]: "always I (tx_reject c e)"
  by (simp add: tx_reject_def always_return always_fail)

lemma always_select [tx_always]: "always I (tx_select f)"
  unfolding tx_select_def by (rule always_stmt) simp

lemma always_sum [tx_always]: "always I (tx_sum f)"
  unfolding tx_sum_def by (rule always_stmt) (simp split: if_splits)

lemma always_first [tx_always]: "always I (tx_first f)"
  unfolding tx_first_def by (rule always_stmt) (simp split: option.splits)

lemma always_update [tx_always]: "(\<And>d. I d \<Longrightarrow> I (f d)) \<Longrightarrow> always I (tx_update f)"
  unfolding tx_update_def by (rule always_stmt) auto

lemma always_if [tx_always]: "always I m \<Longrightarrow> always I n \<Longrightarrow> always I (if c then m else n)"
  by simp

lemma always_try [tx_always]: "always I m \<Longrightarrow> always I (tx_try m)"
  by (simp add: always_def tx_try_def split_beta)

lemma always_ignore [tx_always]: "always I m \<Longrightarrow> always I (tx_ignore m)"
  unfolding tx_ignore_def by (intro tx_always)

lemma always_onError [tx_always]: "always I m \<Longrightarrow> always I h \<Longrightarrow> always I (tx_onError m h)"
  unfolding tx_onError_def by (intro tx_always)

lemma always_peek [tx_always]: "always I (tx_peek f)"
  by (simp add: always_def tx_peek_def)

lemma always_poke [tx_always]: "(\<And>d. I d \<Longrightarrow> I (f d)) \<Longrightarrow> always I (tx_poke f)"
  by (simp add: always_def tx_poke_def)

lemma always_check [tx_always]: "always I tx_check"
  unfolding tx_check_def by (rule always_stmt) auto

lemma always_foreach: "(\<And>x. x \<in> set xs \<Longrightarrow> always I (f x)) \<Longrightarrow> always I (tx_foreach f xs)"
  by (induction xs) (auto intro!: tx_always)
lemma wp_catch:
  assumes "wp m Q d" and "\<And>e. wp (h e) Q d" and "always (\<lambda>d'. d' = d) m \<or>
    (\<forall>fs e d' fs'. m (d, fs) = (Inl e, d', fs') \<longrightarrow> d' = d)"
  shows "wp (tx_catch m h) Q d"
proof -
  have "d' = d" if "m (d, fs) = (Inl e, d', fs')" for fs e d' fs'
    using assms(3) that unfolding always_def by (metis fst_conv snd_conv)
  with assms(1,2) show ?thesis
    by (fastforce simp: wp_def tx_catch_def split: sum.splits prod.splits)
qed

lemma stmt_error_clean: "tx_stmt f (d, fs) = (Inl e, d', fs') \<Longrightarrow> d' = d"
  by (auto simp: tx_stmt_def split: list.splits option.splits sum.splits)

text \<open>A transaction either reports an error and leaves the tables alone, or ends in the
  postcondition.\<close>

lemma transaction_cases:
  assumes "transaction m (d, fs) = (r, d', fs')" and "wp m Q d"
  obtains (rolled_back) e where "r = Inl e" "d' = d"
    | (committed) x where "r = Inr x" "Q x d'"
proof (cases r)
  case (Inl e)
  with assms(1) have "d' = d"
    by (auto simp: transaction_def split: sum.splits prod.splits)
  with Inl rolled_back show ?thesis by blast
next
  case (Inr x)
  with assms(1) obtain fs1 where "m (d, fs) = (Inr x, d', fs1)"
    by (auto simp: transaction_def tx_bind_def tx_stmt_def
        split: sum.splits prod.splits list.splits option.splits)
  with assms(2) have "Q x d'" by (rule wpD)
  with Inr committed show ?thesis by blast
qed

lemma transaction_error_rolls_back:
  "transaction m (d, fs) = (Inl e, d', fs') \<Longrightarrow> d' = d"
  by (auto simp: transaction_def split: sum.splits prod.splits)

lemma transaction_keeps:
  assumes "I d" and "\<And>d. I d \<Longrightarrow> wp m (\<lambda>_. I) d"
  shows "I (fst (snd (transaction m (d, fs))))"
proof -
  obtain r d' fs' where t: "transaction m (d, fs) = (r, d', fs')"
    by (cases "transaction m (d, fs)") auto
  from assms(2) [OF assms(1)] have "wp m (\<lambda>_. I) d" .
  with t show ?thesis by (rule transaction_cases) (auto simp: t assms(1))
qed

lemma always_transaction: "(\<And>d. I d \<Longrightarrow> wp m (\<lambda>_. I) d) \<Longrightarrow> always I (transaction m)"
  unfolding always_def by (auto intro: transaction_keeps)

subsection \<open>Every outcome\<close>

text \<open>\<open>ends m Q d\<close>: whichever statements fail, the result and the state \<open>m\<close> ends in satisfy \<open>Q\<close>.\<close>

named_theorems tx_ends \<open>postconditions over results and errors\<close>

definition ends :: "('d, 'e, 'a) tx \<Rightarrow> ('e txerr + 'a \<Rightarrow> 'd \<Rightarrow> bool) \<Rightarrow> 'd \<Rightarrow> bool" where
  "ends m Q d \<longleftrightarrow> (\<forall>fs. Q (fst (m (d, fs))) (fst (snd (m (d, fs)))))"

lemma endsD: "ends m Q d \<Longrightarrow> m (d, fs) = (r, d', fs') \<Longrightarrow> Q r d'"
  unfolding ends_def by (metis fst_conv snd_conv)

lemma endsI: "(\<And>fs r d' fs'. m (d, fs) = (r, d', fs') \<Longrightarrow> Q r d') \<Longrightarrow> ends m Q d"
  unfolding ends_def by (metis prod.collapse)

lemma ends_mono: "ends m Q d \<Longrightarrow> (\<And>r d'. Q r d' \<Longrightarrow> R r d') \<Longrightarrow> ends m R d"
  by (simp add: ends_def)

lemma ends_return [tx_ends]: "Q (Inr x) d \<Longrightarrow> ends (tx_return x) Q d"
  by (simp add: ends_def tx_return_def)

lemma ends_fail [tx_ends]: "Q (Inl e) d \<Longrightarrow> ends (tx_fail e) Q d"
  by (simp add: ends_def tx_fail_def)

lemma ends_bind_split:
  assumes "ends m (\<lambda>r d'. case r of Inl e \<Rightarrow> Q (Inl e) d' | Inr x \<Rightarrow> ends (f x) Q d') d"
  shows "ends (tx_bind m f) Q d"
proof (rule endsI)
  fix fs r d' fs' assume run: "tx_bind m f (d, fs) = (r, d', fs')"
  obtain r1 d1 fs1 where m: "m (d, fs) = (r1, d1, fs1)" by (cases "m (d, fs)") auto
  with endsD [OF assms m] run show "Q r d'"
    by (cases r1) (auto simp: tx_bind_def dest: endsD)
qed

lemma ends_bind [tx_ends]:
  "ends m (\<lambda>r d'. (\<forall>e. r = Inl e \<longrightarrow> Q (Inl e) d') \<and> (\<forall>x. r = Inr x \<longrightarrow> ends (f x) Q d')) d \<Longrightarrow>
   ends (tx_bind m f) Q d"
  by (rule ends_bind_split) (auto elim!: ends_mono split: sum.splits)

lemma ends_try [tx_ends]: "ends m (\<lambda>r. Q (Inr r)) d \<Longrightarrow> ends (tx_try m) Q d"
  by (simp add: ends_def tx_try_def split_beta)

lemma ends_ignore [tx_ends]: "ends m (\<lambda>_. Q (Inr ())) d \<Longrightarrow> ends (tx_ignore m) Q d"
  unfolding tx_ignore_def
  by (intro ends_bind ends_try) (auto elim!: ends_mono intro: tx_ends)

lemma ends_peek [tx_ends]: "Q (Inr (f d)) d \<Longrightarrow> ends (tx_peek f) Q d"
  by (simp add: ends_def tx_peek_def)

lemma ends_poke [tx_ends]: "Q (Inr ()) (f d) \<Longrightarrow> ends (tx_poke f) Q d"
  by (simp add: ends_def tx_poke_def)

lemma ends_stmt:
  "(\<And>t. Q (Inl (DbFault t)) d) \<Longrightarrow> (\<And>e. f d = Inl e \<Longrightarrow> Q (Inl e) d) \<Longrightarrow>
   (\<And>x d'. f d = Inr (x, d') \<Longrightarrow> Q (Inr x) d') \<Longrightarrow> ends (tx_stmt f) Q d"
  by (auto simp: ends_def tx_stmt_def split: list.splits option.splits sum.splits)

lemma ends_select [tx_ends]:
  "(\<And>t. Q (Inl (DbFault t)) d) \<Longrightarrow> Q (Inr (f d)) d \<Longrightarrow> ends (tx_select f) Q d"
  unfolding tx_select_def by (rule ends_stmt) simp_all

lemma ends_first [tx_ends]:
  "(\<And>t. Q (Inl (DbFault t)) d) \<Longrightarrow> (f d = None \<Longrightarrow> Q (Inl RecordNotFound) d) \<Longrightarrow>
   (\<And>x. f d = Some x \<Longrightarrow> Q (Inr x) d) \<Longrightarrow> ends (tx_first f) Q d"
  unfolding tx_first_def by (rule ends_stmt) (simp_all split: option.splits)

lemma ends_update [tx_ends]:
  "(\<And>t. Q (Inl (DbFault t)) d) \<Longrightarrow> Q (Inr ()) (f d) \<Longrightarrow> ends (tx_update f) Q d"
  unfolding tx_update_def by (rule ends_stmt) simp_all

lemma ends_check [tx_ends]:
  "(\<And>t. Q (Inl (DbFault t)) d) \<Longrightarrow> Q (Inr ()) d \<Longrightarrow> ends tx_check Q d"
  unfolding tx_check_def by (rule ends_stmt) simp_all

lemma ends_reject [tx_ends]:
  "(c \<Longrightarrow> Q (Inl (App e)) d) \<Longrightarrow> (\<not> c \<Longrightarrow> Q (Inr ()) d) \<Longrightarrow> ends (tx_reject c e) Q d"
  by (simp add: ends_def tx_reject_def tx_return_def tx_fail_def)

lemma ends_catch [tx_ends]:
  assumes "ends m (\<lambda>r d'. (\<forall>x. r = Inr x \<longrightarrow> Q (Inr x) d') \<and> (\<forall>e. r = Inl e \<longrightarrow> ends (h e) Q d')) d"
  shows "ends (tx_catch m h) Q d"
proof (rule endsI)
  fix fs r d' fs' assume run: "tx_catch m h (d, fs) = (r, d', fs')"
  obtain r1 d1 fs1 where m: "m (d, fs) = (r1, d1, fs1)" by (cases "m (d, fs)") auto
  with endsD [OF assms m] run show "Q r d'"
    by (cases r1) (auto simp: tx_catch_def dest: endsD)
qed

lemma ends_onError [tx_ends]:
  "ends m (\<lambda>r d'. (\<forall>x. r = Inr x \<longrightarrow> Q (Inr x) d') \<and>
     (\<forall>e. r = Inl e \<longrightarrow> ends h (\<lambda>_. Q (Inl e)) d')) d \<Longrightarrow> ends (tx_onError m h) Q d"
  unfolding tx_onError_def
  by (rule ends_catch) (auto elim!: ends_mono intro!: tx_ends)

lemma ends_if [tx_ends]:
  "(c \<Longrightarrow> ends m Q d) \<Longrightarrow> (\<not> c \<Longrightarrow> ends n Q d) \<Longrightarrow> ends (if c then m else n) Q d"
  by simp

lemma ends_always: "always I m \<Longrightarrow> I d \<Longrightarrow> ends m (\<lambda>_. I) d"
  by (simp add: ends_def always_def)

lemma ends_conj: "ends m P d \<Longrightarrow> ends m Q d \<Longrightarrow> ends m (\<lambda>r d'. P r d' \<and> Q r d') d"
  by (simp add: ends_def)

lemma ends_wp: "ends m (\<lambda>r d'. \<forall>x. r = Inr x \<longrightarrow> Q x d') d \<longleftrightarrow> wp m Q d"
  unfolding ends_def wp_def by (metis prod.collapse fst_conv snd_conv)

subsection \<open>Success without faults\<close>

text \<open>\<open>runs m Q d\<close>: when no fault is pending, \<open>m\<close> does return normally, in \<open>Q\<close>.\<close>

definition runs :: "('d, 'e, 'a) tx \<Rightarrow> ('a \<Rightarrow> 'd \<Rightarrow> bool) \<Rightarrow> 'd \<Rightarrow> bool" where
  "runs m Q d \<longleftrightarrow> (\<exists>x d'. m (d, []) = (Inr x, d', []) \<and> Q x d')"

lemma runs_return [tx_runs]: "Q x d \<Longrightarrow> runs (tx_return x) Q d"
  by (simp add: runs_def tx_run)

lemma runs_bind [tx_runs]: "runs m (\<lambda>x. runs (f x) Q) d \<Longrightarrow> runs (tx_bind m f) Q d"
  by (auto simp: runs_def tx_run)

lemma runs_reject [tx_runs]: "\<not> c \<Longrightarrow> Q () d \<Longrightarrow> runs (tx_reject c e) Q d"
  by (simp add: runs_def tx_run)

lemma runs_stmt: "f d = Inr (x, d') \<Longrightarrow> Q x d' \<Longrightarrow> runs (tx_stmt f) Q d"
  by (simp add: runs_def tx_run)

lemma runs_select [tx_runs]: "Q (f d) d \<Longrightarrow> runs (tx_select f) Q d"
  by (simp add: runs_def tx_run)

lemma runs_first: "f d = Some x \<Longrightarrow> Q x d \<Longrightarrow> runs (tx_first f) Q d"
  by (simp add: runs_def tx_run)

lemma runs_update [tx_runs]: "Q () (f d) \<Longrightarrow> runs (tx_update f) Q d"
  by (simp add: runs_def tx_run)

lemma runs_if [tx_runs]:
  "(c \<Longrightarrow> runs m Q d) \<Longrightarrow> (\<not> c \<Longrightarrow> runs n Q d) \<Longrightarrow> runs (if c then m else n) Q d"
  by simp

lemma runs_mono: "runs m Q d \<Longrightarrow> (\<And>x d'. Q x d' \<Longrightarrow> R x d') \<Longrightarrow> runs m R d"
  by (auto simp: runs_def)

lemma runs_transaction: "runs m Q d \<Longrightarrow> runs (transaction m) Q d"
  by (auto simp: runs_def tx_run)

section \<open>Systems with an invariant\<close>

text \<open>The contract every stateful component is held to: a set of initial states, the steps its
  operations can take, and an invariant of both. A client may rely on the invariant in every
  state that any history of operations leads to.\<close>

locale invariant_system =
  fixes init :: "'s \<Rightarrow> bool"
    and step :: "'s \<Rightarrow> 's \<Rightarrow> bool"
    and inv :: "'s \<Rightarrow> bool"
  assumes init_inv: "init s \<Longrightarrow> inv s"
    and step_inv: "inv s \<Longrightarrow> step s t \<Longrightarrow> inv t"
begin

lemma steps_inv: "step\<^sup>*\<^sup>* s t \<Longrightarrow> inv s \<Longrightarrow> inv t"
  by (induction rule: rtranclp_induct) (auto intro: step_inv)

lemma reachable_inv: "init s \<Longrightarrow> step\<^sup>*\<^sup>* s t \<Longrightarrow> inv t"
  by (blast intro: steps_inv init_inv)

end

end
