(* ===== verification/BgTypes.thy ===== *)
theory BgTypes
  imports Prelude
begin

text \<open>
  The durable data of the background-work runtime, \<^verbatim>\<open>src/background/types.go\<close>: status
  enumerations, the rows of the five tables the runtime reads and writes, and the
  specifications jobs are queued from. Status columns hold only the declared constants, so
  they are enumerations here; queue names, kinds and visibilities are free strings in the code
  and stay strings. \<^verbatim>\<open>UpdatedAt\<close> columns are written by gorm and read by no modelled
  operation; they are left out.
\<close>

section \<open>Statuses\<close>

datatype job_status =
    JobQueued | JobRunning | JobRetryWait | JobPauseRequested | JobPaused
  | JobCancelRequested | JobSucceeded | JobSucceededWithWarnings | JobFailed | JobCanceled

datatype task_status =
    TaskQueued | TaskRunning | TaskRetryWait | TaskCancelRequested
  | TaskSucceeded | TaskFailed | TaskCanceled

datatype attempt_status =
    AttemptRunning | AttemptSucceeded | AttemptFailed | AttemptCanceled | AttemptInterrupted

definition VisibilityUser :: string where "VisibilityUser = ''user''"
definition VisibilityAdmin :: string where "VisibilityAdmin = ''admin''"
definition VisibilitySystem :: string where "VisibilitySystem = ''system''"

definition QueueFFmpeg :: string where "QueueFFmpeg = ''ffmpeg''"
definition QueueNetwork :: string where "QueueNetwork = ''network''"
definition QueueStorage :: string where "QueueStorage = ''storage''"
definition QueueMaintenance :: string where "QueueMaintenance = ''maintenance''"
definition QueueAudit :: string where "QueueAudit = ''audit''"

lemmas visibility_defs = VisibilityUser_def VisibilityAdmin_def VisibilitySystem_def
lemmas queue_defs =
  QueueFFmpeg_def QueueNetwork_def QueueStorage_def QueueMaintenance_def QueueAudit_def

fun terminalJobStatus :: "job_status \<Rightarrow> bool" where
  "terminalJobStatus JobSucceeded = True"
| "terminalJobStatus JobSucceededWithWarnings = True"
| "terminalJobStatus JobFailed = True"
| "terminalJobStatus JobCanceled = True"
| "terminalJobStatus _ = False"

fun terminalTaskStatus :: "task_status \<Rightarrow> bool" where
  "terminalTaskStatus TaskSucceeded = True"
| "terminalTaskStatus TaskFailed = True"
| "terminalTaskStatus TaskCanceled = True"
| "terminalTaskStatus _ = False"

section \<open>Rows\<close>

record job =
  job_ID :: string
  job_Kind :: string
  job_Status :: job_status
  job_Visibility :: string
  job_OwnerID :: "nat option"
  job_OwnerName :: string
  job_SubjectType :: string
  job_SubjectID :: string
  job_IdempotencyKey :: string
  job_Label :: string
  job_Phase :: string
  job_Progress :: int
  job_ResultType :: string
  job_ResultID :: string
  job_ErrorCode :: string
  job_ErrorMessage :: string
  job_Pausable :: bool
  job_PauseRequestedAt :: "time option"
  job_PausedAt :: "time option"
  job_CancelRequestedAt :: "time option"
  job_CanPause :: bool
  job_CanResume :: bool
  job_CanCancel :: bool
  job_StartedAt :: "time option"
  job_FinishedAt :: "time option"
  job_CreatedAt :: time

record task =
  task_ID :: string
  task_JobID :: string
  task_ParentTaskID :: string
  task_Kind :: string
  task_Queue :: string
  task_Status :: task_status
  task_Phase :: string
  task_PayloadVersion :: int
  task_Payload :: string
  task_Result :: string
  task_DedupeKey :: string
  task_Priority :: int
  task_Required :: bool
  task_Weight :: int
  task_Progress :: int
  task_ProgressMessage :: string
  task_AttemptCount :: int
  task_MaxAttempts :: int
  task_RunAfter :: "time option"
  task_HeartbeatAt :: "time option"
  task_ErrorCode :: string
  task_ErrorMessage :: string
  task_CancelRequestedAt :: "time option"
  task_CommitStartedAt :: "time option"
  task_StartedAt :: "time option"
  task_FinishedAt :: "time option"
  task_CreatedAt :: time

record attempt =
  att_ID :: string
  att_TaskID :: string
  att_Number :: int
  att_Status :: attempt_status
  att_Worker :: string
  att_ErrorCode :: string
  att_ErrorMessage :: string
  att_Diagnostics :: string
  att_StartedAt :: time
  att_FinishedAt :: "time option"

record event =
  ev_ID :: nat
  ev_JobID :: string
  ev_TaskID :: string
  ev_Type :: string
  ev_ActorID :: "nat option"
  ev_ActorName :: string
  ev_Message :: string
  ev_Metadata :: string
  ev_CreatedAt :: time

record queue_state =
  qs_Name :: string
  qs_Paused :: bool
  qs_PausedBy :: "nat option"
  qs_PausedAt :: "time option"

record schedule_state =
  ss_Key :: string
  ss_Kind :: string
  ss_Queue :: string
  ss_Enabled :: bool
  ss_LastJobID :: string
  ss_LastStatus :: "job_status option"   \<comment> \<open>\<^verbatim>\<open>""\<close> until a job ran\<close>
  ss_LastError :: string
  ss_LastRunAt :: "time option"
  ss_LastSuccessAt :: "time option"
  ss_NextRunAt :: "time option"

text \<open>The five tables (and the events' auto-increment counter) as one state.\<close>

record bgdb =
  db_jobs :: "job list"
  db_tasks :: "task list"
  db_attempts :: "attempt list"
  db_events :: "event list"
  db_nextEvent :: nat
  db_queues :: "queue_state list"
  db_schedules :: "schedule_state list"

section \<open>Specifications and results\<close>

text \<open>A payload is an arbitrary Go value; the runtime only asks \<^verbatim>\<open>json.Marshal\<close> for its
  encoding, which may fail.\<close>

datatype go_value = GoNil | Encodes string | Unencodable string

fun marshalPayload :: "go_value \<Rightarrow> string + string" where
  "marshalPayload GoNil = Inr ''{}''"
| "marshalPayload (Encodes s) = Inr s"
| "marshalPayload (Unencodable e) = Inl e"

record task_spec =
  ts_Kind :: string
  ts_Queue :: string
  ts_Phase :: string
  ts_PayloadVersion :: int
  ts_Payload :: go_value
  ts_DedupeKey :: string
  ts_Priority :: int
  ts_Required :: bool
  ts_Weight :: int
  ts_MaxAttempts :: int
  ts_RunAfter :: "time option"
  ts_ParentTaskID :: string

record job_spec =
  js_Kind :: string
  js_Visibility :: string
  js_OwnerID :: "nat option"
  js_SubjectType :: string
  js_SubjectID :: string
  js_IdempotencyKey :: string
  js_Label :: string
  js_Pausable :: bool
  js_Tasks :: "task_spec list"

record result =
  res_Value :: go_value
  res_ResultType :: string
  res_ResultID :: string
  res_Phase :: string
  res_Children :: "task_spec list"

record schedule_definition =
  sd_Key :: string
  sd_Kind :: string
  sd_Queue :: string
  sd_Interval :: int
  sd_RunOnStart :: bool
  sd_Build :: job_spec

section \<open>Lookups\<close>

text \<open>\<^verbatim>\<open>tx.First(&row, "id = ?", id)\<close> and \<^verbatim>\<open>tx.Where("job_id = ?", id)\<close>.\<close>

definition jobById :: "string \<Rightarrow> bgdb \<Rightarrow> job option" where
  "jobById i d = find (\<lambda>j. job_ID j = i) (db_jobs d)"

definition taskById :: "string \<Rightarrow> bgdb \<Rightarrow> task option" where
  "taskById i d = find (\<lambda>t. task_ID t = i) (db_tasks d)"

definition tasksOf :: "string \<Rightarrow> bgdb \<Rightarrow> task list" where
  "tasksOf i d = filter (\<lambda>t. task_JobID t = i) (db_tasks d)"

definition updateTasks :: "(task \<Rightarrow> bool) \<Rightarrow> (task \<Rightarrow> task) \<Rightarrow> bgdb \<Rightarrow> bgdb" where
  "updateTasks p f d = d\<lparr>db_tasks := update_where p f (db_tasks d)\<rparr>"

definition updateJobs :: "(job \<Rightarrow> bool) \<Rightarrow> (job \<Rightarrow> job) \<Rightarrow> bgdb \<Rightarrow> bgdb" where
  "updateJobs p f d = d\<lparr>db_jobs := update_where p f (db_jobs d)\<rparr>"

definition updateAttempts :: "(attempt \<Rightarrow> bool) \<Rightarrow> (attempt \<Rightarrow> attempt) \<Rightarrow> bgdb \<Rightarrow> bgdb" where
  "updateAttempts p f d = d\<lparr>db_attempts := update_where p f (db_attempts d)\<rparr>"

text \<open>A task that a worker has, and one whose irreversible commit has begun.\<close>

definition liveTask :: "task \<Rightarrow> bool" where
  "liveTask t \<longleftrightarrow> task_Status t = TaskRunning \<or> task_Status t = TaskCancelRequested"

definition committingTask :: "task \<Rightarrow> bool" where
  "committingTask t \<longleftrightarrow> task_CommitStartedAt t \<noteq> None \<and> liveTask t"

lemma update_fields [simp]:
  "db_tasks (updateTasks p f d) = update_where p f (db_tasks d)"
  "db_jobs (updateTasks p f d) = db_jobs d"
  "db_attempts (updateTasks p f d) = db_attempts d"
  "db_events (updateTasks p f d) = db_events d"
  "db_queues (updateTasks p f d) = db_queues d"
  "db_schedules (updateTasks p f d) = db_schedules d"
  "db_tasks (updateJobs q g d) = db_tasks d"
  "db_jobs (updateJobs q g d) = update_where q g (db_jobs d)"
  "db_attempts (updateJobs q g d) = db_attempts d"
  "db_events (updateJobs q g d) = db_events d"
  "db_queues (updateJobs q g d) = db_queues d"
  "db_schedules (updateJobs q g d) = db_schedules d"
  "db_tasks (updateAttempts r h d) = db_tasks d"
  "db_jobs (updateAttempts r h d) = db_jobs d"
  "db_attempts (updateAttempts r h d) = update_where r h (db_attempts d)"
  "db_events (updateAttempts r h d) = db_events d"
  "db_queues (updateAttempts r h d) = db_queues d"
  "db_schedules (updateAttempts r h d) = db_schedules d"
  by (simp_all add: updateTasks_def updateJobs_def updateAttempts_def)

end
