(* ===== verification/BgErrors.thy ===== *)
theory BgErrors
  imports BgTypes
begin

text \<open>
  The error taxonomy of \<^verbatim>\<open>src/background/errors.go\<close> and the retry policy of
  \<^verbatim>\<open>src/background/runtime.go\<close>: classification of a handler's error, bounded messages, retry
  delays, and the test for a unique-constraint violation. \<^verbatim>\<open>RedactDiagnostic\<close> rewrites texts
  with regular expressions and \<^verbatim>\<open>net/url\<close>; it is the argument \<open>redact\<close> of the definitions
  that use it.
\<close>

section \<open>Errors\<close>

datatype error_class =
    ErrorTransient | ErrorPermanent | ErrorCanceled | ErrorInterrupted | ErrorPaused
  | ErrorDeferred
  | ErrorClassOther string   \<comment> \<open>the class is a string type; any other value\<close>

text \<open>A Go error as far as \<^verbatim>\<open>errors.As\<close>, \<^verbatim>\<open>errors.Is\<close> and \<^verbatim>\<open>Error()\<close> can tell it apart:
  the runtime's own \<^verbatim>\<open>TaskError\<close>, the two sentinels of package \<^verbatim>\<open>context\<close>, a
  \<^verbatim>\<open>net.Error\<close> with its \<^verbatim>\<open>Timeout()\<close> and \<^verbatim>\<open>Temporary()\<close>, a plain text, and a wrapper with
  its rendered text and its cause.\<close>

datatype go_error =
    ETask task_error
  | ECanceled
  | EDeadlineExceeded
  | ENet bool bool string
  | EText string
  | EWrap string go_error
and task_error =
    TaskError (te_Code: string) (te_Public: string) (te_Diagnostic: string)
      (te_Class: error_class) (te_RetryAfter: int) (te_Cause: "go_error option")

text \<open>\<^verbatim>\<open>(*TaskError).Error\<close> and the texts of the other errors.\<close>

fun errorText :: "go_error \<Rightarrow> string" and taskErrorText :: "task_error \<Rightarrow> string" where
  "errorText (ETask e) = taskErrorText e"
| "errorText ECanceled = ''context canceled''"
| "errorText EDeadlineExceeded = ''context deadline exceeded''"
| "errorText (ENet _ _ s) = s"
| "errorText (EText s) = s"
| "errorText (EWrap s _) = s"
| "taskErrorText (TaskError _ public _ _ _ (Some cause)) = public @ '': '' @ errorText cause"
| "taskErrorText (TaskError _ public _ _ _ None) = public"

text \<open>\<^verbatim>\<open>errors.As(err, &taskErr)\<close>: the first \<^verbatim>\<open>TaskError\<close> on the chain.\<close>

fun asTaskError :: "go_error \<Rightarrow> task_error option" where
  "asTaskError (ETask e) = Some e"
| "asTaskError (EWrap _ cause) = asTaskError cause"
| "asTaskError _ = None"

fun isChain :: "(go_error \<Rightarrow> bool) \<Rightarrow> go_error \<Rightarrow> bool" where
  "isChain p (EWrap s cause) = (p (EWrap s cause) \<or> isChain p cause)"
| "isChain p (ETask (TaskError c pub d cl r (Some cause))) =
     (p (ETask (TaskError c pub d cl r (Some cause))) \<or> isChain p cause)"
| "isChain p e = p e"

text \<open>The first network error on the chain, \<^verbatim>\<open>errors.As(err, &netErr)\<close>. The sentinel
  \<^verbatim>\<open>context.DeadlineExceeded\<close> is a \<^verbatim>\<open>net.Error\<close> too, but it is tested for before.\<close>

fun asNetError :: "go_error \<Rightarrow> (bool \<times> bool) option" where
  "asNetError (ENet timeout temporary _) = Some (timeout, temporary)"
| "asNetError (EWrap _ cause) = asNetError cause"
| "asNetError EDeadlineExceeded = Some (True, True)"
| "asNetError (ETask (TaskError _ _ _ _ _ (Some cause))) = asNetError cause"
| "asNetError _ = None"

text \<open>\<^verbatim>\<open>context.Cause(ctx)\<close> of a task's context, once it is canceled.\<close>

datatype cancel_cause = RuntimeStopping | UserCanceled | UserPaused | OtherCause string

definition diagnostic :: "(string \<Rightarrow> string) \<Rightarrow> go_error option \<Rightarrow> string" where
  "diagnostic redact err = (case err of None \<Rightarrow> [] | Some e \<Rightarrow> redact (errorText e))"

definition Permanent :: "(string \<Rightarrow> string) \<Rightarrow> string \<Rightarrow> string \<Rightarrow> go_error option \<Rightarrow> go_error" where
  "Permanent redact code public cause =
     ETask (TaskError code public (diagnostic redact cause) ErrorPermanent 0 cause)"

definition Transient :: "(string \<Rightarrow> string) \<Rightarrow> string \<Rightarrow> string \<Rightarrow> go_error option \<Rightarrow> go_error" where
  "Transient redact code public cause =
     ETask (TaskError code public (diagnostic redact cause) ErrorTransient 0 cause)"

definition Canceled :: "(string \<Rightarrow> string) \<Rightarrow> go_error option \<Rightarrow> go_error" where
  "Canceled redact cause =
     ETask (TaskError ''canceled'' ''Canceled'' (diagnostic redact cause) ErrorCanceled 0 cause)"

definition Interrupted :: "(string \<Rightarrow> string) \<Rightarrow> go_error option \<Rightarrow> go_error" where
  "Interrupted redact cause =
     ETask (TaskError ''interrupted'' ''Interrupted by application shutdown''
       (diagnostic redact cause) ErrorInterrupted 0 cause)"

definition Paused :: "(string \<Rightarrow> string) \<Rightarrow> go_error option \<Rightarrow> go_error" where
  "Paused redact cause =
     ETask (TaskError ''paused'' ''Paused'' (diagnostic redact cause) ErrorPaused 0 cause)"

definition Deferred :: "string \<Rightarrow> string \<Rightarrow> int \<Rightarrow> go_error" where
  "Deferred code public retryAfter =
     ETask (TaskError code public [] ErrorDeferred retryAfter None)"

definition PauseRequested :: "cancel_cause option \<Rightarrow> bool" where
  "PauseRequested cause \<longleftrightarrow> cause = Some UserPaused"

definition classifyError ::
  "(string \<Rightarrow> string) \<Rightarrow> cancel_cause option \<Rightarrow> go_error option \<Rightarrow> task_error option" where
  "classifyError redact cause err =
     (case err of
        None \<Rightarrow> None
      | Some e \<Rightarrow>
          (case asTaskError e of
             Some te \<Rightarrow> Some te
           | None \<Rightarrow> Some
               (if isChain (\<lambda>e. e = ECanceled) e then
                  if cause = Some RuntimeStopping then
                    TaskError ''interrupted'' ''Interrupted by application shutdown''
                      (diagnostic redact err) ErrorInterrupted 0 err
                  else if cause = Some UserPaused then
                    TaskError ''paused'' ''Paused'' (diagnostic redact err) ErrorPaused 0 err
                  else TaskError ''canceled'' ''Canceled'' (diagnostic redact err)
                    ErrorCanceled 0 err
                else if isChain (\<lambda>e. e = EDeadlineExceeded) e then
                  TaskError ''timeout'' ''The operation timed out'' (diagnostic redact err)
                    ErrorTransient 0 err
                else if (case asNetError e of None \<Rightarrow> False
                         | Some (timeout, temporary) \<Rightarrow> timeout \<or> temporary) then
                  TaskError ''network_error'' ''A temporary network error occurred''
                    (diagnostic redact err) ErrorTransient 0 err
                else if contains (toLower (errorText e)) ''database is locked''
                     \<or> contains (toLower (errorText e)) ''database is busy'' then
                  TaskError ''database_busy'' ''The database is temporarily busy''
                    (diagnostic redact err) ErrorTransient 0 err
                else TaskError ''task_failed'' ''The background task failed''
                  (diagnostic redact err) ErrorPermanent 0 err)))"

section \<open>Bounded messages\<close>

definition boundedMessage :: "string \<Rightarrow> nat \<Rightarrow> string" where
  "boundedMessage s limit =
     (let s = trimSpace s
      in if 0 < limit \<and> limit < length s then take limit s else s)"

lemma boundedMessage_length: "0 < limit \<Longrightarrow> length (boundedMessage s limit) \<le> limit"
  by (simp add: boundedMessage_def Let_def)

lemma boundedMessage_Nil [simp]: "boundedMessage [] n = []"
  by (simp add: boundedMessage_def)

section \<open>Retry delays\<close>

definition retryDelay :: "int \<Rightarrow> int \<Rightarrow> int" where
  "retryDelay n requested =
     (if 0 < requested then
        if 15 * minute < requested then 15 * minute else requested
      else if n = 1 then 5 * second
      else if n = 2 then 30 * second
      else 2 * minute)"

lemma retryDelay_bounds: "0 < retryDelay n req" "retryDelay n req \<le> 15 * minute"
  by (simp_all add: retryDelay_def minute_def second_def)

text \<open>\<^verbatim>\<open>delay.Round(time.Second)\<close>, printed as \<^verbatim>\<open>%s\<close> does (retry delays stay below an hour).\<close>

definition showDelay :: "int \<Rightarrow> string" where
  "showDelay d =
     (let s = (d + 500000000) div second
      in if s < 60 then show_int s @ ''s''
         else show_int (s div 60) @ ''m'' @ show_int (s mod 60) @ ''s'')"

section \<open>Unique constraints\<close>

text \<open>\<^verbatim>\<open>for index := range a\<close> visits the first byte of every rune of \<open>a\<close>. The length of
  the rune at the head of a byte string is that of \<^verbatim>\<open>utf8.DecodeRune\<close>: a well-formed
  sequence of two to four bytes, otherwise one byte.\<close>

definition byte :: "char \<Rightarrow> nat" where
  "byte c = of_char c"

definition byteIn :: "string \<Rightarrow> nat \<Rightarrow> nat \<Rightarrow> nat \<Rightarrow> bool" where
  "byteIn s i lo hi \<longleftrightarrow> i < length s \<and> lo \<le> byte (s ! i) \<and> byte (s ! i) \<le> hi"

definition runeLen :: "string \<Rightarrow> nat" where
  "runeLen s =
     (if byteIn s 0 0xC2 0xDF \<and> byteIn s 1 0x80 0xBF then 2
      else if (byteIn s 0 0xE0 0xE0 \<and> byteIn s 1 0xA0 0xBF
            \<or> byteIn s 0 0xE1 0xEC \<and> byteIn s 1 0x80 0xBF
            \<or> byteIn s 0 0xED 0xED \<and> byteIn s 1 0x80 0x9F
            \<or> byteIn s 0 0xEE 0xEF \<and> byteIn s 1 0x80 0xBF)
           \<and> byteIn s 2 0x80 0xBF then 3
      else if (byteIn s 0 0xF0 0xF0 \<and> byteIn s 1 0x90 0xBF
            \<or> byteIn s 0 0xF1 0xF3 \<and> byteIn s 1 0x80 0xBF
            \<or> byteIn s 0 0xF4 0xF4 \<and> byteIn s 1 0x80 0x8F)
           \<and> byteIn s 2 0x80 0xBF \<and> byteIn s 3 0x80 0xBF then 4
      else 1)"

lemma runeLen_pos [simp]: "0 < runeLen s"
  by (simp add: runeLen_def)

lemma runeLen_ascii: "byte c < 128 \<Longrightarrow> runeLen (c # s) = 1"
  by (simp add: runeLen_def byteIn_def)

function foldRunes :: "string \<Rightarrow> string \<Rightarrow> bool" where
  "foldRunes a b =
     (if a = [] then True
      else if lower_char (hd a) = lower_char (hd b)
      then foldRunes (drop (runeLen a) a) (drop (runeLen a) b)
      else False)"
  by pat_completeness auto
termination
  by (relation "measure (\<lambda>(a, b). length a)") auto

declare foldRunes.simps [simp del]

definition equalFoldASCII :: "string \<Rightarrow> string \<Rightarrow> bool" where
  "equalFoldASCII a b \<longleftrightarrow> length a = length b \<and> foldRunes a b"

definition containsFold :: "string \<Rightarrow> string \<Rightarrow> bool" where
  "containsFold value needle \<longleftrightarrow> \<not> length value < length needle \<and>
     list_ex (\<lambda>index. equalFoldASCII (take (length needle) (drop index value)) needle)
       [0 ..< Suc (length value - length needle)]"

definition ascii :: "string \<Rightarrow> bool" where
  "ascii s \<longleftrightarrow> (\<forall>c \<in> set s. byte c < 128)"

lemma byte_lower_char: "byte (lower_char c) < 128 \<longleftrightarrow> byte c < 128"
proof (cases "65 \<le> byte c \<and> byte c \<le> 90")
  case True
  then have "byte (lower_char c) = byte c + 32"
    by (simp add: byte_def lower_char_def Let_def)
  with True show ?thesis by simp
next
  case False
  then have "lower_char c = c"
    by (auto simp: byte_def lower_char_def Let_def)
  then show ?thesis by simp
qed

lemma lower_char_ascii: "lower_char c = lower_char e \<Longrightarrow> byte e < 128 \<Longrightarrow> byte c < 128"
  by (metis byte_lower_char)

text \<open>Against an ASCII needle the rune-wise walk is a byte-wise comparison without case.\<close>

lemma foldRunes_ascii:
  "length a = length b \<Longrightarrow> ascii b \<Longrightarrow> foldRunes a b \<longleftrightarrow> toLower a = toLower b"
proof (induction a arbitrary: b)
  case Nil
  then show ?case by (simp add: foldRunes.simps toLower_def)
next
  case (Cons c a)
  then obtain e b' where b: "b = e # b'" by (cases b) auto
  show ?case
  proof (cases "lower_char c = lower_char e")
    case True
    have "byte e < 128" using Cons.prems b by (simp add: ascii_def)
    with True have "runeLen (c # a) = 1" by (blast intro: runeLen_ascii lower_char_ascii)
    moreover have "foldRunes a b' \<longleftrightarrow> toLower a = toLower b'"
      using Cons.prems b by (intro Cons.IH) (auto simp: ascii_def)
    ultimately show ?thesis
      using True b by (subst foldRunes.simps) (simp add: toLower_def)
  next
    case False
    then show ?thesis using b by (subst foldRunes.simps) (simp add: toLower_def)
  qed
qed

lemma contains_iff_take:
  "contains s sub \<longleftrightarrow> (\<exists>i \<le> length s. take (length sub) (drop i s) = sub)"
proof -
  have "sublist sub s \<longleftrightarrow> (\<exists>i \<le> length s. prefix sub (drop i s))"
  proof
    assume "sublist sub s"
    then obtain ps ss where "s = ps @ sub @ ss" by (auto simp: sublist_def)
    then show "\<exists>i \<le> length s. prefix sub (drop i s)"
      by (intro exI [of _ "length ps"]) simp
  next
    assume "\<exists>i \<le> length s. prefix sub (drop i s)"
    then obtain i ss where "drop i s = sub @ ss" by (auto simp: prefix_def)
    then have "s = take i s @ sub @ ss" by (metis append_take_drop_id)
    then show "sublist sub s" unfolding sublist_def by blast
  qed
  then show ?thesis
    by (metis contains_iff_sublist append_eq_conv_conj prefix_def)
qed

lemma containsFold_ex:
  "containsFold v needle \<longleftrightarrow> length needle \<le> length v \<and>
     (\<exists>i \<le> length v - length needle. equalFoldASCII (take (length needle) (drop i v)) needle)"
  by (auto simp: containsFold_def list_ex_iff less_Suc_eq_le simp del: upt_Suc)

lemma containsFold_iff:
  assumes "ascii needle"
  shows "containsFold v needle \<longleftrightarrow> contains (toLower v) (toLower needle)"
proof -
  let ?n = "length needle"
  have fold: "equalFoldASCII (take ?n (drop i v)) needle \<longleftrightarrow>
      i + ?n \<le> length v \<and> take ?n (drop i (toLower v)) = toLower needle"
    if "i \<le> length v" for i
  proof (cases "i + ?n \<le> length v")
    case True
    then show ?thesis
      using assms by (simp add: equalFoldASCII_def foldRunes_ascii)
        (simp add: toLower_def take_map drop_map)
  next
    case False
    then show ?thesis using that by (auto simp: equalFoldASCII_def)
  qed
  have len: "i + ?n \<le> length v"
    if "i \<le> length v" "take ?n (drop i (toLower v)) = toLower needle" for i
  proof -
    have "length (take ?n (drop i (toLower v))) = ?n"
      using that(2) by (simp add: toLower_def)
    then show ?thesis using that(1) by (auto simp: toLower_def min_def split: if_splits)
  qed
  show ?thesis
  proof
    assume "containsFold v needle"
    then obtain i where "i \<le> length v - ?n" "?n \<le> length v"
        "equalFoldASCII (take ?n (drop i v)) needle"
      by (auto simp: containsFold_ex)
    with fold [of i] show "contains (toLower v) (toLower needle)"
      unfolding contains_iff_take by (intro exI [of _ i]) (auto simp: toLower_def)
  next
    assume "contains (toLower v) (toLower needle)"
    then obtain i where i: "i \<le> length v" "take ?n (drop i (toLower v)) = toLower needle"
      unfolding contains_iff_take by (auto simp: toLower_def)
    with len [OF i] fold [of i] show "containsFold v needle"
      by (auto simp: containsFold_ex intro!: exI [of _ i])
  qed
qed

end
