(* ===== verification/BgStore.thy ===== *)
theory BgStore
  imports BgErrors "HOL-Library.Char_ord" "HOL-Library.List_Lexorder"
    "HOL-Library.Product_Lexorder"
begin

text \<open>
  Creating and reading jobs, \<^verbatim>\<open>src/background/store.go\<close>: validation and idempotent reuse
  of a job specification, insertion of jobs, tasks and events under their unique indexes, the
  owner-scoped detail view, the filtered list, and the capabilities shown for a job.
\<close>

section \<open>Environment and errors\<close>

text \<open>What the runtime calls outside its own code: the redaction of diagnostics, the hex digest
  of SHA-256, the worker's name and the configured capacity of a queue.\<close>

record env =
  env_redact :: "string \<Rightarrow> string"
  env_sha256 :: "string \<Rightarrow> string"
  env_worker :: string
  env_capacity :: "(string \<Rightarrow> int) option"

datatype bg_error =
    ErrIdempotencyConflict
  | ErrConflict
  | ErrCommitStarted
  | BgError string

type_synonym 'a bg_tx = "(bgdb, bg_error, 'a) tx"

fun bgErrorText :: "bg_error \<Rightarrow> string" where
  "bgErrorText ErrIdempotencyConflict =
     ''idempotency key was already used for a different request''"
| "bgErrorText ErrConflict = ''background operation conflicts with its current state''"
| "bgErrorText ErrCommitStarted =
     ''background operation conflicts with its current state: irreversible task commit has started''"
| "bgErrorText (BgError s) = s"

fun txErrorText :: "bg_error txerr \<Rightarrow> string" where
  "txErrorText RecordNotFound = ''record not found''"
| "txErrorText DuplicatedKey = ''UNIQUE constraint failed''"
| "txErrorText (DbFault s) = s"
| "txErrorText (App e) = bgErrorText e"

text \<open>\<^verbatim>\<open>errors.Is(err, ErrConflict)\<close>: \<^verbatim>\<open>ErrCommitStarted\<close> wraps it.\<close>

definition isErrConflict :: "bg_error txerr \<Rightarrow> bool" where
  "isErrConflict e \<longleftrightarrow> e = App ErrConflict \<or> e = App ErrCommitStarted"

definition isUniqueConstraint :: "bg_error txerr \<Rightarrow> bool" where
  "isUniqueConstraint e \<longleftrightarrow>
     e = DuplicatedKey \<or> containsFold (txErrorText e) ''unique constraint''"

section \<open>Events\<close>

definition newEvent ::
  "string \<Rightarrow> string \<Rightarrow> string \<Rightarrow> nat option \<Rightarrow> string \<Rightarrow> string \<Rightarrow> string \<Rightarrow> event" where
  "newEvent jobID taskID typ actorID actorName message metadata =
     \<lparr>ev_ID = 0, ev_JobID = jobID, ev_TaskID = taskID, ev_Type = typ, ev_ActorID = actorID,
      ev_ActorName = actorName, ev_Message = message, ev_Metadata = metadata, ev_CreatedAt = 0\<rparr>"

definition insertEvent :: "event \<Rightarrow> bgdb \<Rightarrow> bgdb" where
  "insertEvent e d =
     d\<lparr>db_events := db_events d @ [e\<lparr>ev_ID := db_nextEvent d\<rparr>],
       db_nextEvent := Suc (db_nextEvent d)\<rparr>"

definition addEvent :: "env \<Rightarrow> time \<Rightarrow> event \<Rightarrow> unit bg_tx" where
  "addEvent env now e =
     tx_update (insertEvent
       (e\<lparr>ev_Message := boundedMessage (ev_Message e) 512,
          ev_Metadata := env_redact env (boundedMessage (ev_Metadata e) 2048),
          ev_CreatedAt := now\<rparr>))"

definition optionalActor :: "nat \<Rightarrow> nat option" where
  "optionalActor i = (if i = 0 then None else Some i)"

lemma insertEvent_fields [simp]:
  "db_jobs (insertEvent e d) = db_jobs d" "db_tasks (insertEvent e d) = db_tasks d"
  "db_attempts (insertEvent e d) = db_attempts d" "db_queues (insertEvent e d) = db_queues d"
  "db_schedules (insertEvent e d) = db_schedules d"
  by (simp_all add: insertEvent_def)

section \<open>Inserting jobs and tasks\<close>

text \<open>\<^verbatim>\<open>tx.Create\<close> under the primary key and the unique indexes that the struct tags declare:
  \<^verbatim>\<open>idx_background_job_idempotency\<close> (non-empty keys only) and
  \<^verbatim>\<open>idx_background_task_dedupe\<close> on job and dedupe key.\<close>

definition insertJob :: "job \<Rightarrow> unit bg_tx" where
  "insertJob j = tx_stmt (\<lambda>d.
     if list_ex (\<lambda>j'. job_ID j' = job_ID j) (db_jobs d)
        \<or> job_IdempotencyKey j \<noteq> [] \<and>
          list_ex (\<lambda>j'. job_IdempotencyKey j' = job_IdempotencyKey j) (db_jobs d)
     then Inl DuplicatedKey
     else Inr ((), d\<lparr>db_jobs := db_jobs d @ [j]\<rparr>))"

definition insertTask :: "task \<Rightarrow> unit bg_tx" where
  "insertTask t = tx_stmt (\<lambda>d.
     if list_ex (\<lambda>t'. task_ID t' = task_ID t) (db_tasks d)
        \<or> list_ex (\<lambda>t'. task_JobID t' = task_JobID t \<and> task_DedupeKey t' = task_DedupeKey t)
            (db_tasks d)
     then Inl DuplicatedKey
     else Inr ((), d\<lparr>db_tasks := db_tasks d @ [t]\<rparr>))"

definition insertAttempt :: "attempt \<Rightarrow> unit bg_tx" where
  "insertAttempt a = tx_stmt (\<lambda>d.
     if list_ex (\<lambda>a'. att_ID a' = att_ID a) (db_attempts d) then Inl DuplicatedKey
     else Inr ((), d\<lparr>db_attempts := db_attempts d @ [a]\<rparr>))"

definition newTask :: "time \<Rightarrow> string \<Rightarrow> string \<Rightarrow> task_spec \<Rightarrow> string \<Rightarrow> task" where
  "newTask now uuid jobID spec payload =
     \<lparr>task_ID = uuid, task_JobID = jobID, task_ParentTaskID = ts_ParentTaskID spec,
      task_Kind = ts_Kind spec, task_Queue = ts_Queue spec, task_Status = TaskQueued,
      task_Phase = ts_Phase spec,
      task_PayloadVersion = (if ts_PayloadVersion spec < 1 then 1 else ts_PayloadVersion spec),
      task_Payload = payload, task_Result = [],
      task_DedupeKey = boundedMessage (ts_DedupeKey spec) 255,
      task_Priority = ts_Priority spec, task_Required = ts_Required spec,
      task_Weight = (if ts_Weight spec < 1 then 1 else ts_Weight spec),
      task_Progress = 0, task_ProgressMessage = [], task_AttemptCount = 0,
      task_MaxAttempts = (if ts_MaxAttempts spec < 1 then 4 else ts_MaxAttempts spec),
      task_RunAfter = ts_RunAfter spec, task_HeartbeatAt = None, task_ErrorCode = [],
      task_ErrorMessage = [], task_CancelRequestedAt = None, task_CommitStartedAt = None,
      task_StartedAt = None, task_FinishedAt = None, task_CreatedAt = now\<rparr>"

definition createTask ::
  "env \<Rightarrow> time \<Rightarrow> string \<Rightarrow> string \<Rightarrow> task_spec \<Rightarrow> task bg_tx" where
  "createTask env now uuid jobID spec =
     (case marshalPayload (ts_Payload spec) of
        Inl e \<Rightarrow> tx_fail (App (BgError (''encode task payload: '' @ e)))
      | Inr payload \<Rightarrow>
          (let t = newTask now uuid jobID spec payload in
           tx_bind (insertTask t) (\<lambda>_.
           tx_bind (addEvent env now
             (newEvent jobID (task_ID t) ''task_created'' None [] ''Task queued'' [])) (\<lambda>_.
           tx_return t))))"

section \<open>Enqueue\<close>

definition validateJobSpec :: "job_spec \<Rightarrow> bg_error option" where
  "validateJobSpec spec =
     (if trimSpace (js_Kind spec) = [] then Some (BgError ''background job kind is required'')
      else if js_Tasks spec = [] then
        Some (BgError ''background job requires at least one task'')
      else if list_ex (\<lambda>t. trimSpace (ts_Kind t) = [] \<or> trimSpace (ts_Queue t) = [])
                (js_Tasks spec) then
        Some (BgError ''background task kind and queue are required'')
      else None)"

definition normalizeIdempotencyKey :: "env \<Rightarrow> string \<Rightarrow> string" where
  "normalizeIdempotencyKey env value =
     (let value = trimSpace value
      in if length value \<le> 255 then value else ''sha256:'' @ env_sha256 env value)"

definition effectiveVisibility :: "job_spec \<Rightarrow> string" where
  "effectiveVisibility spec =
     (if js_Visibility spec = [] then VisibilityUser else js_Visibility spec)"

fun sameTasks :: "task list \<Rightarrow> task_spec list \<Rightarrow> unit bg_tx" where
  "sameTasks (t # tasks) (s # specs) =
     (case marshalPayload (ts_Payload s) of
        Inl e \<Rightarrow> tx_fail (App (BgError e))
      | Inr payload \<Rightarrow>
          if task_Kind t \<noteq> ts_Kind s \<or> task_Queue t \<noteq> ts_Queue s \<or> task_Payload t \<noteq> payload
          then tx_fail (App ErrIdempotencyConflict)
          else sameTasks tasks specs)"
| "sameTasks _ _ = tx_return ()"

definition rootTasks :: "string \<Rightarrow> bgdb \<Rightarrow> task list" where
  "rootTasks jobID d =
     sort_key (\<lambda>t. (task_CreatedAt t, task_ID t))
       (filter (\<lambda>t. task_JobID t = jobID \<and> task_ParentTaskID t = []) (db_tasks d))"

definition validateIdempotentReuse :: "job \<Rightarrow> job_spec \<Rightarrow> unit bg_tx" where
  "validateIdempotentReuse j spec =
     (if job_Kind j \<noteq> js_Kind spec \<or> job_Visibility j \<noteq> effectiveVisibility spec
         \<or> job_Pausable j \<noteq> js_Pausable spec \<or> job_OwnerID j \<noteq> js_OwnerID spec
         \<or> job_SubjectType j \<noteq> boundedMessage (js_SubjectType spec) 64
         \<or> job_SubjectID j \<noteq> boundedMessage (js_SubjectID spec) 128
      then tx_fail (App ErrIdempotencyConflict)
      else tx_bind (tx_select (rootTasks (job_ID j))) (\<lambda>tasks.
           if length tasks \<noteq> length (js_Tasks spec)
           then tx_fail (App ErrIdempotencyConflict)
           else sameTasks tasks (js_Tasks spec)))"

definition newJob :: "env \<Rightarrow> time \<Rightarrow> string \<Rightarrow> job_spec \<Rightarrow> job" where
  "newJob env now uuid spec =
     \<lparr>job_ID = uuid, job_Kind = js_Kind spec, job_Status = JobQueued,
      job_Visibility = effectiveVisibility spec, job_OwnerID = js_OwnerID spec,
      job_OwnerName = [], job_SubjectType = boundedMessage (js_SubjectType spec) 64,
      job_SubjectID = boundedMessage (js_SubjectID spec) 128,
      job_IdempotencyKey = js_IdempotencyKey spec,
      job_Label = boundedMessage (js_Label spec) 255, job_Phase = [], job_Progress = 0,
      job_ResultType = [], job_ResultID = [], job_ErrorCode = [], job_ErrorMessage = [],
      job_Pausable = js_Pausable spec, job_PauseRequestedAt = None, job_PausedAt = None,
      job_CancelRequestedAt = None, job_CanPause = False, job_CanResume = False,
      job_CanCancel = False, job_StartedAt = None, job_FinishedAt = None,
      job_CreatedAt = now\<rparr>"

definition jobByIdempotencyKey :: "string \<Rightarrow> bgdb \<Rightarrow> job option" where
  "jobByIdempotencyKey key d = find (\<lambda>j. job_IdempotencyKey j = key) (db_jobs d)"

text \<open>The loop over the task specifications: the \<open>i\<close>-th task gets the \<open>i\<close>-th fresh UUID, its own
  reading of the clock, and a dedupe key made from kind and index when it has none.\<close>

definition withDedupeKey :: "string \<Rightarrow> task_spec \<Rightarrow> task_spec" where
  "withDedupeKey key spec =
     (if ts_DedupeKey spec = [] then spec\<lparr>ts_DedupeKey := key\<rparr> else spec)"

fun createTasks ::
  "env \<Rightarrow> (nat \<Rightarrow> string) \<Rightarrow> (nat \<Rightarrow> time) \<Rightarrow> string \<Rightarrow> nat \<Rightarrow> task_spec list \<Rightarrow> unit bg_tx" where
  "createTasks env uuids clock jobID i [] = tx_return ()"
| "createTasks env uuids clock jobID i (s # specs) =
     tx_bind (createTask env (clock (Suc i)) (uuids i) jobID
       (withDedupeKey (ts_Kind s @ '':'' @ show_int (int i)) s)) (\<lambda>_.
     createTasks env uuids clock jobID (Suc i) specs)"

definition createJob ::
  "env \<Rightarrow> string \<Rightarrow> (nat \<Rightarrow> string) \<Rightarrow> (nat \<Rightarrow> time) \<Rightarrow> job_spec \<Rightarrow> (job \<times> bool) bg_tx" where
  "createJob env uuid uuids clock spec =
     (let j = newJob env (clock 0) uuid spec in
      tx_bind (tx_catch (tx_bind (insertJob j) (\<lambda>_. tx_return None)) (\<lambda>e.
        if js_IdempotencyKey spec \<noteq> [] \<and> contains (toLower (txErrorText e)) ''unique''
        then tx_bind
          (tx_catch (tx_bind (tx_first (jobByIdempotencyKey (js_IdempotencyKey spec)))
             (\<lambda>existing. tx_return (Some existing))) (\<lambda>_. tx_return None))
          (\<lambda>found. case found of
             Some existing \<Rightarrow> tx_bind (validateIdempotentReuse existing spec)
               (\<lambda>_. tx_return (Some existing))
           | None \<Rightarrow> tx_fail e)
        else tx_fail e)) (\<lambda>reused.
      case reused of
        Some existing \<Rightarrow> tx_return (existing, True)
      | None \<Rightarrow>
          tx_bind (createTasks env uuids clock uuid 0 (js_Tasks spec)) (\<lambda>_.
          tx_bind (addEvent env (clock 0)
            (newEvent uuid [] ''job_created'' None [] ''Background job queued'' [])) (\<lambda>_.
          tx_return (j, False)))))"

definition enqueueBody ::
  "env \<Rightarrow> string \<Rightarrow> (nat \<Rightarrow> string) \<Rightarrow> (nat \<Rightarrow> time) \<Rightarrow> job_spec \<Rightarrow> (job \<times> bool) bg_tx" where
  "enqueueBody env uuid uuids clock spec0 =
     (let spec = spec0\<lparr>js_IdempotencyKey := normalizeIdempotencyKey env (js_IdempotencyKey spec0)\<rparr> in
      if js_IdempotencyKey spec = [] then createJob env uuid uuids clock spec
      else tx_bind
        (tx_catch (tx_bind (tx_first (jobByIdempotencyKey (js_IdempotencyKey spec)))
           (\<lambda>existing. tx_return (Some existing)))
           (\<lambda>e. if e = RecordNotFound then tx_return None else tx_fail e))
        (\<lambda>found. case found of
           Some existing \<Rightarrow> tx_bind (validateIdempotentReuse existing spec)
             (\<lambda>_. tx_return (existing, True))
         | None \<Rightarrow> createJob env uuid uuids clock spec))"

section \<open>Capabilities\<close>

fun cancellableJobStatus :: "job_status \<Rightarrow> bool" where
  "cancellableJobStatus JobQueued = True"
| "cancellableJobStatus JobRunning = True"
| "cancellableJobStatus JobRetryWait = True"
| "cancellableJobStatus JobPauseRequested = True"
| "cancellableJobStatus JobPaused = True"
| "cancellableJobStatus _ = False"

fun pausableJobStatus :: "job_status \<Rightarrow> bool" where
  "pausableJobStatus JobQueued = True"
| "pausableJobStatus JobRunning = True"
| "pausableJobStatus JobRetryWait = True"
| "pausableJobStatus _ = False"

definition populateJobCapabilities :: "job \<Rightarrow> job" where
  "populateJobCapabilities j =
     j\<lparr>job_CanCancel := cancellableJobStatus (job_Status j),
       job_CanPause := job_Pausable j \<and> pausableJobStatus (job_Status j),
       job_CanResume := job_Status j = JobPauseRequested \<or> job_Status j = JobPaused\<rparr>"

definition populateCancellationCapabilities :: "job list \<Rightarrow> job list bg_tx" where
  "populateCancellationCapabilities jobs =
     (let jobs = map populateJobCapabilities jobs;
          jobIDs = map job_ID (filter (\<lambda>j. job_CanCancel j \<or> job_CanPause j) jobs)
      in if jobIDs = [] then tx_return jobs
         else tx_bind (tx_select (\<lambda>d.
           remdups (map task_JobID
             (filter (\<lambda>t. task_JobID t \<in> set jobIDs \<and> committingTask t) (db_tasks d)))))
           (\<lambda>committing. tx_return
             (map (\<lambda>j. if job_ID j \<in> set committing
                       then j\<lparr>job_CanCancel := False, job_CanPause := False\<rparr> else j) jobs)))"

section \<open>Reading jobs\<close>

record job_detail =
  jd_Job :: job
  jd_Tasks :: "(task \<times> attempt list) list"
  jd_Events :: "event list"

definition jobView :: "string \<Rightarrow> nat option \<Rightarrow> bool \<Rightarrow> job_detail bg_tx" where
  "jobView i ownerID admin =
     (case (admin, ownerID) of
        (False, None) \<Rightarrow> tx_fail RecordNotFound
      | _ \<Rightarrow>
        tx_bind (tx_first (\<lambda>d. find (\<lambda>j. job_ID j = i \<and>
            (admin \<or> job_OwnerID j = ownerID \<and> job_Visibility j = VisibilityUser))
            (db_jobs d))) (\<lambda>j.
        tx_bind (tx_select (\<lambda>d. sort_key task_CreatedAt (tasksOf (job_ID j) d))) (\<lambda>tasks.
        tx_bind (tx_select (\<lambda>d. map (\<lambda>t. (t, sort_key att_Number
            (filter (\<lambda>a. att_TaskID a = task_ID t) (db_attempts d)))) tasks)) (\<lambda>withAttempts.
        let j = populateJobCapabilities j;
            j = (if job_CanCancel j \<and> list_ex committingTask tasks
                 then j\<lparr>job_CanCancel := False\<rparr> else j)
        in tx_bind (tx_select (\<lambda>d. sort_key (\<lambda>e. (ev_CreatedAt e, ev_ID e))
              (filter (\<lambda>e. ev_JobID e = job_ID j) (db_events d)))) (\<lambda>events.
           tx_return \<lparr>jd_Job = j, jd_Tasks = withAttempts, jd_Events = events\<rparr>)))))"

text \<open>SQL \<^verbatim>\<open>LIKE\<close> with its wildcards, without case on ASCII.\<close>

fun sqlLike :: "string \<Rightarrow> string \<Rightarrow> bool" where
  "sqlLike [] s = (s = [])"
| "sqlLike (c # p) [] = (c = CHR ''%'' \<and> sqlLike p [])"
| "sqlLike (c # p) (x # s) =
     (if c = CHR ''%'' then sqlLike p (x # s) \<or> sqlLike (c # p) s
      else (c = CHR ''_'' \<or> lower_char c = lower_char x) \<and> sqlLike p s)"

record list_filter =
  lf_OwnerID :: "nat option"
  lf_IncludeSystem :: bool
  lf_Visibility :: string
  lf_Statuses :: "job_status list"
  lf_Kinds :: "string list"
  lf_Queue :: string
  lf_Search :: string
  lf_Limit :: int
  lf_Before :: "time option"
  lf_BeforeID :: string

definition listLimit :: "list_filter \<Rightarrow> nat" where
  "listLimit f = (if lf_Limit f < 1 \<or> 200 < lf_Limit f then 50 else nat (lf_Limit f))"

definition listMatches :: "list_filter \<Rightarrow> bgdb \<Rightarrow> job \<Rightarrow> bool" where
  "listMatches f d j \<longleftrightarrow>
     (case lf_OwnerID f of None \<Rightarrow> True | Some i \<Rightarrow> job_OwnerID j = Some i) \<and>
     (lf_Visibility f = [] \<or> job_Visibility j = lf_Visibility f) \<and>
     (lf_IncludeSystem f \<or> job_Visibility j \<noteq> VisibilitySystem
        \<or> job_Status j \<notin> {JobSucceeded, JobSucceededWithWarnings}) \<and>
     (lf_Statuses f = [] \<or> job_Status j \<in> set (lf_Statuses f)) \<and>
     (lf_Kinds f = [] \<or> job_Kind j \<in> set (lf_Kinds f)) \<and>
     (lf_Queue f = [] \<or>
        list_ex (\<lambda>t. task_JobID t = job_ID j \<and> task_Queue t = lf_Queue f) (db_tasks d)) \<and>
     (lf_Search f = [] \<or>
        (let needle = ''%'' @ toLower (trimSpace (lf_Search f)) @ ''%''
         in sqlLike needle (toLower (job_Label j)) \<or> sqlLike needle (toLower (job_SubjectID j))
            \<or> sqlLike needle (toLower (job_ID j)))) \<and>
     (case lf_Before f of
        None \<Rightarrow> True
      | Some before \<Rightarrow>
          job_CreatedAt j < before \<or>
          lf_BeforeID f \<noteq> [] \<and> job_CreatedAt j = before \<and> job_ID j < lf_BeforeID f)"

definition listJobs :: "(nat \<times> string) list \<Rightarrow> list_filter \<Rightarrow> job list bg_tx" where
  "listJobs users f =
     tx_bind (tx_select (\<lambda>d. take (listLimit f)
       (rev (sort_key (\<lambda>j. (job_CreatedAt j, job_ID j))
         (filter (listMatches f d) (db_jobs d)))))) (\<lambda>jobs.
     if jobs = [] then tx_return []
     else tx_bind (populateCancellationCapabilities jobs) (\<lambda>jobs.
       let ownerIDs = List.map_filter job_OwnerID jobs in
       if ownerIDs = [] then tx_return jobs
       else tx_bind (tx_catch (tx_select (\<lambda>_. filter (\<lambda>u. fst u \<in> set ownerIDs) users))
              (\<lambda>_. tx_return [])) (\<lambda>byID.
         tx_return (map (\<lambda>j. case job_OwnerID j of None \<Rightarrow> j
           | Some i \<Rightarrow> j\<lparr>job_OwnerName := (case map_of (rev byID) i of None \<Rightarrow> [] | Some n \<Rightarrow> n)\<rparr>)
           jobs))))"

record summary =
  sum_Running :: nat
  sum_Waiting :: nat
  sum_Paused :: nat
  sum_Failed24h :: nat
  sum_PausedQueues :: nat

definition summaryView :: "time \<Rightarrow> summary bg_tx" where
  "summaryView now =
     tx_bind (tx_select (\<lambda>d. affected (\<lambda>j. job_Status j = JobRunning) (db_jobs d))) (\<lambda>running.
     tx_bind (tx_select (\<lambda>d. affected (\<lambda>j. job_Status j \<in>
       {JobQueued, JobRetryWait, JobCancelRequested}) (db_jobs d))) (\<lambda>waiting.
     tx_bind (tx_select (\<lambda>d. affected (\<lambda>j. job_Status j \<in> {JobPauseRequested, JobPaused})
       (db_jobs d))) (\<lambda>paused.
     tx_bind (tx_select (\<lambda>d. affected (\<lambda>j. job_Status j = JobFailed \<and>
       (case job_FinishedAt j of None \<Rightarrow> False | Some at \<Rightarrow> now - 24 * hour \<le> at))
       (db_jobs d))) (\<lambda>failed.
     tx_bind (tx_select (\<lambda>d. affected qs_Paused (db_queues d))) (\<lambda>queues.
     tx_return \<lparr>sum_Running = running, sum_Waiting = waiting, sum_Paused = paused,
       sum_Failed24h = failed, sum_PausedQueues = queues\<rparr>)))))"

end
