(* ===== verification/BgReduce.thy ===== *)
theory BgReduce
  imports BgStore
begin

text \<open>
  The reduction of a job's status, phase, progress and error from its tasks,
  \<^verbatim>\<open>recomputeJob\<close> of \<^verbatim>\<open>src/background/runtime.go\<close>, and what it guarantees: the status is
  terminal exactly when every task is, progress stays within 0 and 10000, and a pause or
  cancellation request is reflected while work is left.
\<close>

section \<open>The reduction\<close>

record reduction =
  rd_phase :: string
  rd_lastPhase :: string
  rd_totalWeight :: int
  rd_completedWeight :: int
  rd_running :: nat
  rd_waiting :: nat
  rd_queued :: nat
  rd_failedRequired :: nat
  rd_failedOptional :: nat
  rd_canceledRequired :: nat
  rd_canceledOptional :: nat
  rd_errorCode :: string
  rd_errorMessage :: string

definition emptyReduction :: reduction where
  "emptyReduction = \<lparr>rd_phase = [], rd_lastPhase = [], rd_totalWeight = 0,
     rd_completedWeight = 0, rd_running = 0, rd_waiting = 0, rd_queued = 0,
     rd_failedRequired = 0, rd_failedOptional = 0, rd_canceledRequired = 0,
     rd_canceledOptional = 0, rd_errorCode = [], rd_errorMessage = []\<rparr>"

definition taskWeight :: "task \<Rightarrow> int" where
  "taskWeight t = (if task_Weight t < 1 then 1 else task_Weight t)"

definition taskProgress :: "task \<Rightarrow> int" where
  "taskProgress t =
     (let p = (if task_Status t = TaskSucceeded then 10000 else task_Progress t);
          p = (if p < 0 then 0 else p)
      in if 10000 < p then 10000 else p)"

definition firstPhase :: "task \<Rightarrow> reduction \<Rightarrow> reduction" where
  "firstPhase t r = (if rd_phase r = [] then r\<lparr>rd_phase := task_Phase t\<rparr> else r)"

definition firstError :: "task \<Rightarrow> reduction \<Rightarrow> reduction" where
  "firstError t r =
     (if rd_errorCode r = []
      then r\<lparr>rd_errorCode := task_ErrorCode t, rd_errorMessage := task_ErrorMessage t\<rparr> else r)"

definition reduceTask :: "task \<Rightarrow> reduction \<Rightarrow> reduction" where
  "reduceTask t r0 =
     (let r = (if task_Phase t \<noteq> [] then r0\<lparr>rd_lastPhase := task_Phase t\<rparr> else r0);
          r = r\<lparr>rd_totalWeight := rd_totalWeight r + taskWeight t * 10000,
                rd_completedWeight := rd_completedWeight r + taskWeight t * taskProgress t\<rparr>
      in case task_Status t of
           TaskRunning \<Rightarrow> firstPhase t (r\<lparr>rd_running := Suc (rd_running r)\<rparr>)
         | TaskCancelRequested \<Rightarrow> firstPhase t (r\<lparr>rd_running := Suc (rd_running r)\<rparr>)
         | TaskRetryWait \<Rightarrow> firstPhase t (r\<lparr>rd_waiting := Suc (rd_waiting r)\<rparr>)
         | TaskQueued \<Rightarrow> firstPhase t (r\<lparr>rd_queued := Suc (rd_queued r)\<rparr>)
         | TaskFailed \<Rightarrow> firstError t
             (if task_Required t then r\<lparr>rd_failedRequired := Suc (rd_failedRequired r)\<rparr>
              else r\<lparr>rd_failedOptional := Suc (rd_failedOptional r)\<rparr>)
         | TaskCanceled \<Rightarrow> firstError t
             (if task_Required t then r\<lparr>rd_canceledRequired := Suc (rd_canceledRequired r)\<rparr>
              else r\<lparr>rd_canceledOptional := Suc (rd_canceledOptional r)\<rparr>)
         | TaskSucceeded \<Rightarrow> r)"

definition reduceTasks :: "task list \<Rightarrow> reduction" where
  "reduceTasks tasks = fold reduceTask tasks emptyReduction"

text \<open>The status switch, from the counters and the job's request flags.\<close>

definition reducedStatus :: "bool \<Rightarrow> bool \<Rightarrow> reduction \<Rightarrow> job_status" where
  "reducedStatus cancelRequested pauseRequested r =
     (if \<not> (rd_running r = 0 \<and> rd_waiting r = 0 \<and> rd_queued r = 0) then
        if cancelRequested then JobCancelRequested
        else if pauseRequested \<and> 0 < rd_running r then JobPauseRequested
        else if pauseRequested then JobPaused
        else if 0 < rd_running r then JobRunning
        else if 0 < rd_waiting r then JobRetryWait
        else JobQueued
      else
        if 0 < rd_failedRequired r then JobFailed
        else if cancelRequested \<or> 0 < rd_canceledRequired r then JobCanceled
        else if 0 < rd_failedOptional r \<or> 0 < rd_canceledOptional r
        then JobSucceededWithWarnings
        else JobSucceeded)"

definition reducedProgress :: "job_status \<Rightarrow> reduction \<Rightarrow> int" where
  "reducedProgress status r =
     (if status = JobSucceeded \<or> status = JobSucceededWithWarnings then 10000
      else if 0 < rd_totalWeight r
      then rd_completedWeight r div (rd_totalWeight r div 10000) else 0)"

definition applyReduction :: "time \<Rightarrow> reduction \<Rightarrow> job \<Rightarrow> job" where
  "applyReduction now r j =
     (let status = reducedStatus (job_CancelRequestedAt j \<noteq> None)
            (job_PauseRequestedAt j \<noteq> None) r;
          phase = (if rd_phase r = [] then rd_lastPhase r else rd_phase r)
      in j\<lparr>job_Status := status,
           job_Phase := boundedMessage phase 120,
           job_Progress := reducedProgress status r,
           job_ErrorCode := boundedMessage (rd_errorCode r) 80,
           job_ErrorMessage := boundedMessage (rd_errorMessage r) 512,
           job_PausedAt :=
             (if terminalJobStatus status then None
              else if status = JobPaused
              then Some (case job_PausedAt j of None \<Rightarrow> now | Some at \<Rightarrow> at)
              else if status \<noteq> JobPauseRequested then None
              else job_PausedAt j),
           job_PauseRequestedAt :=
             (if terminalJobStatus status then None else job_PauseRequestedAt j),
           job_StartedAt :=
             (if (status = JobRunning \<or> status = JobRetryWait) \<and> job_StartedAt j = None
              then Some now else job_StartedAt j),
           job_FinishedAt := (if terminalJobStatus status then Some now else None)\<rparr>)"

text \<open>The row that was loaded is the row that is written: nothing runs between the two.\<close>

definition recomputeJob :: "time \<Rightarrow> string \<Rightarrow> unit bg_tx" where
  "recomputeJob now jobID =
     tx_bind (tx_first (jobById jobID)) (\<lambda>_.
     tx_bind (tx_select (\<lambda>d. sort_key task_CreatedAt (tasksOf jobID d))) (\<lambda>tasks.
     if tasks = [] then tx_return ()
     else tx_update (updateJobs (\<lambda>j. job_ID j = jobID) (applyReduction now (reduceTasks tasks)))))"

section \<open>The status as a function of the set of tasks\<close>

text \<open>What the status of a job means, without counters and without an order: the counters of
  the loop implement this.\<close>

definition specStatus :: "bool \<Rightarrow> bool \<Rightarrow> task set \<Rightarrow> job_status" where
  "specStatus c p T =
     (if \<exists>t \<in> T. \<not> terminalTaskStatus (task_Status t) then
        if c then JobCancelRequested
        else if p \<and> (\<exists>t \<in> T. liveTask t) then JobPauseRequested
        else if p then JobPaused
        else if \<exists>t \<in> T. liveTask t then JobRunning
        else if \<exists>t \<in> T. task_Status t = TaskRetryWait then JobRetryWait
        else JobQueued
      else
        if \<exists>t \<in> T. task_Status t = TaskFailed \<and> task_Required t then JobFailed
        else if c \<or> (\<exists>t \<in> T. task_Status t = TaskCanceled \<and> task_Required t) then JobCanceled
        else if \<exists>t \<in> T. task_Status t = TaskFailed \<or> task_Status t = TaskCanceled
        then JobSucceededWithWarnings
        else JobSucceeded)"

lemmas reduce_defs = reduceTask_def firstPhase_def firstError_def Let_def

lemma reduceTask_counters [simp]:
  "rd_running (reduceTask t r) = rd_running r + (if liveTask t then 1 else 0)"
  "rd_waiting (reduceTask t r) =
     rd_waiting r + (if task_Status t = TaskRetryWait then 1 else 0)"
  "rd_queued (reduceTask t r) = rd_queued r + (if task_Status t = TaskQueued then 1 else 0)"
  "rd_failedRequired (reduceTask t r) =
     rd_failedRequired r + (if task_Status t = TaskFailed \<and> task_Required t then 1 else 0)"
  "rd_failedOptional (reduceTask t r) =
     rd_failedOptional r + (if task_Status t = TaskFailed \<and> \<not> task_Required t then 1 else 0)"
  "rd_canceledRequired (reduceTask t r) =
     rd_canceledRequired r + (if task_Status t = TaskCanceled \<and> task_Required t then 1 else 0)"
  "rd_canceledOptional (reduceTask t r) =
     rd_canceledOptional r + (if task_Status t = TaskCanceled \<and> \<not> task_Required t then 1 else 0)"
  "rd_totalWeight (reduceTask t r) = rd_totalWeight r + taskWeight t * 10000"
  "rd_completedWeight (reduceTask t r) = rd_completedWeight r + taskWeight t * taskProgress t"
  by (simp_all add: reduce_defs liveTask_def split: task_status.split)

lemma counter_eq_0:
  fixes f :: "reduction \<Rightarrow> nat"
  assumes "\<And>t r. f (reduceTask t r) = f r + (if P t then 1 else 0)"
  shows "f (fold reduceTask ts r) = 0 \<longleftrightarrow> f r = 0 \<and> (\<forall>t \<in> set ts. \<not> P t)"
  by (induction ts arbitrary: r) (auto simp: assms)

lemma reduceTasks_counters [simp]:
  "rd_running (reduceTasks ts) = 0 \<longleftrightarrow> (\<forall>t \<in> set ts. \<not> liveTask t)"
  "rd_waiting (reduceTasks ts) = 0 \<longleftrightarrow> (\<forall>t \<in> set ts. task_Status t \<noteq> TaskRetryWait)"
  "rd_queued (reduceTasks ts) = 0 \<longleftrightarrow> (\<forall>t \<in> set ts. task_Status t \<noteq> TaskQueued)"
  "rd_failedRequired (reduceTasks ts) = 0 \<longleftrightarrow>
     (\<forall>t \<in> set ts. \<not> (task_Status t = TaskFailed \<and> task_Required t))"
  "rd_failedOptional (reduceTasks ts) = 0 \<longleftrightarrow>
     (\<forall>t \<in> set ts. \<not> (task_Status t = TaskFailed \<and> \<not> task_Required t))"
  "rd_canceledRequired (reduceTasks ts) = 0 \<longleftrightarrow>
     (\<forall>t \<in> set ts. \<not> (task_Status t = TaskCanceled \<and> task_Required t))"
  "rd_canceledOptional (reduceTasks ts) = 0 \<longleftrightarrow>
     (\<forall>t \<in> set ts. \<not> (task_Status t = TaskCanceled \<and> \<not> task_Required t))"
  unfolding reduceTasks_def
  by (subst counter_eq_0, rule reduceTask_counters, simp add: emptyReduction_def)+

lemma reduceTasks_pos [simp]:
  "0 < rd_running (reduceTasks ts) \<longleftrightarrow> (\<exists>t \<in> set ts. liveTask t)"
  "0 < rd_waiting (reduceTasks ts) \<longleftrightarrow> (\<exists>t \<in> set ts. task_Status t = TaskRetryWait)"
  "0 < rd_failedRequired (reduceTasks ts) \<longleftrightarrow>
     (\<exists>t \<in> set ts. task_Status t = TaskFailed \<and> task_Required t)"
  "0 < rd_failedOptional (reduceTasks ts) \<longleftrightarrow>
     (\<exists>t \<in> set ts. task_Status t = TaskFailed \<and> \<not> task_Required t)"
  "0 < rd_canceledRequired (reduceTasks ts) \<longleftrightarrow>
     (\<exists>t \<in> set ts. task_Status t = TaskCanceled \<and> task_Required t)"
  "0 < rd_canceledOptional (reduceTasks ts) \<longleftrightarrow>
     (\<exists>t \<in> set ts. task_Status t = TaskCanceled \<and> \<not> task_Required t)"
  unfolding neq0_conv [symmetric] reduceTasks_counters by blast+

lemma nonterminal_cases:
  "\<not> terminalTaskStatus (task_Status t) \<longleftrightarrow>
     liveTask t \<or> task_Status t = TaskRetryWait \<or> task_Status t = TaskQueued"
  by (cases "task_Status t") (simp_all add: liveTask_def)

theorem reducedStatus_spec: "reducedStatus c p (reduceTasks ts) = specStatus c p (set ts)"
proof -
  have idle: "(rd_running (reduceTasks ts) = 0 \<and> rd_waiting (reduceTasks ts) = 0
      \<and> rd_queued (reduceTasks ts) = 0) \<longleftrightarrow>
      \<not> (\<exists>t \<in> set ts. \<not> terminalTaskStatus (task_Status t))"
    unfolding reduceTasks_counters nonterminal_cases by blast
  have warn: "(0 < rd_failedOptional (reduceTasks ts) \<or> 0 < rd_canceledOptional (reduceTasks ts))
      \<longleftrightarrow> (\<exists>t \<in> set ts. task_Status t = TaskFailed \<or> task_Status t = TaskCanceled)"
    if "\<not> 0 < rd_failedRequired (reduceTasks ts)" "\<not> 0 < rd_canceledRequired (reduceTasks ts)"
    using that unfolding reduceTasks_pos by blast
  show ?thesis
  proof (cases "\<exists>t \<in> set ts. \<not> terminalTaskStatus (task_Status t)")
    case True
    then show ?thesis
      by (simp only: reducedStatus_def specStatus_def idle reduceTasks_pos not_not if_True)
  next
    case False
    then have r: "reducedStatus c p (reduceTasks ts) =
        (if 0 < rd_failedRequired (reduceTasks ts) then JobFailed
         else if c \<or> 0 < rd_canceledRequired (reduceTasks ts) then JobCanceled
         else if 0 < rd_failedOptional (reduceTasks ts) \<or> 0 < rd_canceledOptional (reduceTasks ts)
         then JobSucceededWithWarnings else JobSucceeded)"
      by (simp only: reducedStatus_def idle not_not if_False)
    show ?thesis
    proof (cases "0 < rd_failedRequired (reduceTasks ts) \<or> 0 < rd_canceledRequired (reduceTasks ts)")
      case True
      with False show ?thesis
        unfolding r specStatus_def by (simp only: reduceTasks_pos if_False split: if_split) blast
    next
      case neither: False
      then have "0 < rd_failedOptional (reduceTasks ts) \<or> 0 < rd_canceledOptional (reduceTasks ts)
          \<longleftrightarrow> (\<exists>t \<in> set ts. task_Status t = TaskFailed \<or> task_Status t = TaskCanceled)"
        using warn by simp
      with False neither show ?thesis
        unfolding r specStatus_def by (simp only: reduceTasks_pos if_False de_Morgan_disj)
    qed
  qed
qed

lemma specStatus_terminal:
  "terminalJobStatus (specStatus c p T) \<longleftrightarrow> (\<forall>t \<in> T. terminalTaskStatus (task_Status t))"
  by (auto simp: specStatus_def)

lemma specStatus_succeeded:
  "specStatus c p T = JobSucceeded \<longleftrightarrow> \<not> c \<and> (\<forall>t \<in> T. task_Status t = TaskSucceeded)"
proof
  assume *: "specStatus c p T = JobSucceeded"
  then have "\<not> c" and "\<forall>t \<in> T. terminalTaskStatus (task_Status t)"
      and "\<forall>t \<in> T. \<not> (task_Status t = TaskFailed \<or> task_Status t = TaskCanceled)"
    by (auto simp: specStatus_def split: if_splits)
  then show "\<not> c \<and> (\<forall>t \<in> T. task_Status t = TaskSucceeded)"
    by (metis terminalTaskStatus.elims(2))
qed (auto simp: specStatus_def)

section \<open>Progress bounds\<close>

lemma taskWeight_pos [simp]: "0 < taskWeight t"
  by (simp add: taskWeight_def)

lemma taskProgress_bounds: "0 \<le> taskProgress t" "taskProgress t \<le> 10000"
  by (simp_all add: taskProgress_def Let_def)

lemma reduceTasks_weights:
  "rd_totalWeight (reduceTasks ts) = 10000 * (\<Sum>t \<leftarrow> ts. taskWeight t)"
  "rd_completedWeight (reduceTasks ts) = (\<Sum>t \<leftarrow> ts. taskWeight t * taskProgress t)"
proof -
  have "rd_totalWeight (fold reduceTask ts r) =
      rd_totalWeight r + 10000 * (\<Sum>t \<leftarrow> ts. taskWeight t)" for r
    by (induction ts arbitrary: r) auto
  moreover have "rd_completedWeight (fold reduceTask ts r) =
      rd_completedWeight r + (\<Sum>t \<leftarrow> ts. taskWeight t * taskProgress t)" for r
    by (induction ts arbitrary: r) auto
  ultimately show "rd_totalWeight (reduceTasks ts) = 10000 * (\<Sum>t \<leftarrow> ts. taskWeight t)"
    "rd_completedWeight (reduceTasks ts) = (\<Sum>t \<leftarrow> ts. taskWeight t * taskProgress t)"
    by (simp_all add: reduceTasks_def emptyReduction_def)
qed

lemma completed_bounds:
  "0 \<le> (\<Sum>t \<leftarrow> ts. taskWeight t * taskProgress t)"
  "(\<Sum>t \<leftarrow> ts. taskWeight t * taskProgress t) \<le> 10000 * (\<Sum>t \<leftarrow> ts. taskWeight t)"
proof -
  have "0 \<le> taskWeight t * taskProgress t" "taskWeight t * taskProgress t \<le> 10000 * taskWeight t"
    for t
    using taskProgress_bounds [of t] less_imp_le [OF taskWeight_pos [of t]]
    by (simp_all add: mult.commute mult_right_mono)
  then show "0 \<le> (\<Sum>t \<leftarrow> ts. taskWeight t * taskProgress t)"
    and "(\<Sum>t \<leftarrow> ts. taskWeight t * taskProgress t) \<le> 10000 * (\<Sum>t \<leftarrow> ts. taskWeight t)"
    by (induction ts) (simp_all add: add_mono distrib_left)
qed

lemma reducedProgress_bounds:
  "0 \<le> reducedProgress s (reduceTasks ts)" "reducedProgress s (reduceTasks ts) \<le> 10000"
proof -
  let ?W = "\<Sum>t \<leftarrow> ts. taskWeight t" and ?C = "\<Sum>t \<leftarrow> ts. taskWeight t * taskProgress t"
  have "0 \<le> ?C div ?W" "?C div ?W \<le> 10000" if "0 < ?W"
  proof -
    show "0 \<le> ?C div ?W" using completed_bounds(1) [of ts] that
      by (simp add: pos_imp_zdiv_nonneg_iff)
    have "?C div ?W \<le> (10000 * ?W) div ?W"
      using completed_bounds(2) [of ts] that by (intro zdiv_mono1) auto
    then show "?C div ?W \<le> 10000" using that by simp
  qed
  then show "0 \<le> reducedProgress s (reduceTasks ts)" "reducedProgress s (reduceTasks ts) \<le> 10000"
    by (auto simp: reducedProgress_def reduceTasks_weights)
qed

end
