(* ===== verification/BgRuntime.thy ===== *)
theory BgRuntime
  imports BgReduce
begin

text \<open>
  The worker side of \<^verbatim>\<open>src/background/runtime.go\<close>: the in-memory state of a runtime, claiming
  a task, launching it, reporting progress, the commit fence and the bookkeeping when a handler
  returns. A goroutine that runs a handler is an entry of the table of active tasks, with the
  task and attempt it was launched with; what the handler returns is an argument of
  \<open>completeTask\<close>. The runtime's mutex makes each access to the table atomic.
\<close>

section \<open>State\<close>

record active_task =
  ac_queue :: string
  ac_jobID :: string
  ac_task :: task                          \<comment> \<open>captured by the goroutine\<close>
  ac_attempt :: attempt
  ac_handled :: bool                       \<comment> \<open>a handler was registered at launch\<close>
  ac_cause :: "cancel_cause option"        \<comment> \<open>\<^verbatim>\<open>context.Cause\<close> of its context\<close>
  ac_lastAt :: "time option"               \<comment> \<open>the progress reporter\<close>
  ac_last :: int

record loop_health =
  lh_Name :: string
  lh_Status :: string
  lh_Restarts :: nat
  lh_LastStartAt :: "time option"
  lh_LastError :: string

datatype root_context = NoContext | Live | Done cancel_cause

record runtime =
  rt_db :: bgdb
  rt_faults :: faults
  rt_handlers :: "string list"
  rt_schedules :: "schedule_definition list"
  rt_active :: "(string \<times> active_task) list"
  rt_loops :: "(string \<times> loop_health) list"
  rt_started :: bool
  rt_starting :: bool
  rt_wake :: bool
  rt_root :: root_context

definition runTx :: "'a bg_tx \<Rightarrow> runtime \<Rightarrow> (bg_error txerr + 'a) \<times> runtime" where
  "runTx m r =
     (case transaction m (rt_db r, rt_faults r) of
        (res, d, fs) \<Rightarrow> (res, r\<lparr>rt_db := d, rt_faults := fs\<rparr>))"

text \<open>Statements outside a transaction commit one by one.\<close>

definition runPlain :: "'a bg_tx \<Rightarrow> runtime \<Rightarrow> (bg_error txerr + 'a) \<times> runtime" where
  "runPlain m r =
     (case m (rt_db r, rt_faults r) of
        (res, d, fs) \<Rightarrow> (res, r\<lparr>rt_db := d, rt_faults := fs\<rparr>))"

definition Wake :: "runtime \<Rightarrow> runtime" where
  "Wake r = r\<lparr>rt_wake := True\<rparr>"

text \<open>The map \<^verbatim>\<open>r.active\<close> as an association list with one entry per key.\<close>

definition setActive :: "string \<Rightarrow> active_task \<Rightarrow> runtime \<Rightarrow> runtime" where
  "setActive i a r =
     r\<lparr>rt_active := filter (\<lambda>e. fst e \<noteq> i) (rt_active r) @ [(i, a)]\<rparr>"

definition deleteActive :: "string \<Rightarrow> runtime \<Rightarrow> runtime" where
  "deleteActive i r = r\<lparr>rt_active := filter (\<lambda>e. fst e \<noteq> i) (rt_active r)\<rparr>"

definition activeOf :: "string \<Rightarrow> runtime \<Rightarrow> active_task option" where
  "activeOf i r = map_of (rt_active r) i"

definition updateActive :: "(string \<Rightarrow> active_task \<Rightarrow> active_task) \<Rightarrow> runtime \<Rightarrow> runtime" where
  "updateActive f r = r\<lparr>rt_active := map (\<lambda>(i, a). (i, f i a)) (rt_active r)\<rparr>"

text \<open>\<^verbatim>\<open>cancel(cause)\<close>: the first cause sticks.\<close>

definition cancelWhere ::
  "(string \<Rightarrow> active_task \<Rightarrow> bool) \<Rightarrow> cancel_cause \<Rightarrow> runtime \<Rightarrow> runtime" where
  "cancelWhere p cause = updateActive
     (\<lambda>i a. if p i a \<and> ac_cause a = None then a\<lparr>ac_cause := Some cause\<rparr> else a)"

definition cancelActive :: "cancel_cause \<Rightarrow> runtime \<Rightarrow> runtime" where
  "cancelActive cause = cancelWhere (\<lambda>_ _. True) cause"

definition activeCount :: "string \<Rightarrow> runtime \<Rightarrow> nat" where
  "activeCount queue r = affected (\<lambda>e. ac_queue (snd e) = queue) (rt_active r)"

definition capacity :: "env \<Rightarrow> string \<Rightarrow> int" where
  "capacity env queue =
     (let fallback = (if queue = QueueStorage then 2 else 1)
      in case env_capacity env of
           None \<Rightarrow> fallback
         | Some f \<Rightarrow> if 0 < f queue then f queue else fallback)"

definition newRuntime :: "bgdb \<Rightarrow> runtime" where
  "newRuntime d = \<lparr>rt_db = d, rt_faults = [], rt_handlers = [], rt_schedules = [],
     rt_active = [], rt_loops = [], rt_started = False, rt_starting = False, rt_wake = False,
     rt_root = NoContext\<rparr>"

definition Register :: "string \<Rightarrow> bool \<Rightarrow> runtime \<Rightarrow> bg_error option \<times> runtime" where
  "Register kind present r =
     (if kind = [] \<or> \<not> present
      then (Some (BgError ''background handler kind and function are required''), r)
      else if kind \<in> set (rt_handlers r)
      then (Some (BgError (''background handler '' @ kind @ '' already registered'')), r)
      else (None, r\<lparr>rt_handlers := rt_handlers r @ [kind]\<rparr>))"

section \<open>Enqueue\<close>

definition Enqueue ::
  "env \<Rightarrow> string \<Rightarrow> (nat \<Rightarrow> string) \<Rightarrow> (nat \<Rightarrow> time) \<Rightarrow> job_spec \<Rightarrow> runtime
    \<Rightarrow> (bg_error txerr + job \<times> bool) \<times> runtime" where
  "Enqueue env uuid uuids clock spec r =
     (case validateJobSpec spec of
        Some e \<Rightarrow> (Inl (App e), r)
      | None \<Rightarrow>
          (case runTx (enqueueBody env uuid uuids clock spec) r of
             (Inl e, r) \<Rightarrow> (Inl e, r)
           | (Inr (j, reused), r) \<Rightarrow>
               (case runPlain (populateCancellationCapabilities [j]) r of
                  (Inl e, r) \<Rightarrow> (Inl e, r)
                | (Inr jobs, r) \<Rightarrow> (Inr (hd jobs, reused), Wake r))))"

section \<open>Claiming\<close>

definition truncDiv :: "int \<Rightarrow> int \<Rightarrow> int" where
  "truncDiv a b = sgn a * sgn b * (\<bar>a\<bar> div \<bar>b\<bar>)"

text \<open>Whole minutes between the row's creation and \<^verbatim>\<open>CURRENT_TIMESTAMP\<close> (which has a resolution
  of one second), as \<^verbatim>\<open>CAST(... * 1440 AS INTEGER)\<close> truncates them.\<close>

definition ageMinutes :: "time \<Rightarrow> task \<Rightarrow> int" where
  "ageMinutes now t = truncDiv (now div second * second - task_CreatedAt t) minute"

definition claimOrder :: "time \<Rightarrow> task \<Rightarrow> int \<times> int \<times> string" where
  "claimOrder now t = (- (task_Priority t + ageMinutes now t), task_CreatedAt t, task_ID t)"

definition dispatchableJob :: "bgdb \<Rightarrow> string \<Rightarrow> bool" where
  "dispatchableJob d i \<longleftrightarrow>
     list_ex (\<lambda>j. job_ID j = i \<and> job_PauseRequestedAt j = None
       \<and> job_CancelRequestedAt j = None) (db_jobs d)"

definition waitingTask :: "task \<Rightarrow> bool" where
  "waitingTask t \<longleftrightarrow> task_Status t = TaskQueued \<or> task_Status t = TaskRetryWait"

definition claimable :: "time \<Rightarrow> string \<Rightarrow> bgdb \<Rightarrow> task \<Rightarrow> bool" where
  "claimable now queue d t \<longleftrightarrow>
     task_Queue t = queue \<and> waitingTask t \<and>
     (case task_RunAfter t of None \<Rightarrow> True | Some at \<Rightarrow> at \<le> now) \<and>
     dispatchableJob d (task_JobID t)"

definition nextTask :: "time \<Rightarrow> string \<Rightarrow> bgdb \<Rightarrow> task option" where
  "nextTask now queue d =
     (case sort_key (claimOrder now) (filter (claimable now queue d) (db_tasks d)) of
        [] \<Rightarrow> None | t # _ \<Rightarrow> Some t)"

definition startRow :: "time \<Rightarrow> task \<Rightarrow> task" where
  "startRow now t = t\<lparr>task_Status := TaskRunning,
     task_AttemptCount := task_AttemptCount t + 1,
     task_StartedAt := (case task_StartedAt t of None \<Rightarrow> Some now | Some at \<Rightarrow> Some at),
     task_HeartbeatAt := Some now, task_RunAfter := None, task_CommitStartedAt := None,
     task_ErrorCode := [], task_ErrorMessage := [], task_FinishedAt := None\<rparr>"

text \<open>The conditional update, with \<^verbatim>\<open>RowsAffected\<close>.\<close>

definition claimRow :: "time \<Rightarrow> string \<Rightarrow> nat bg_tx" where
  "claimRow now i = tx_stmt (\<lambda>d.
     let p = (\<lambda>t. task_ID t = i \<and> waitingTask t \<and> dispatchableJob d (task_JobID t))
     in Inr (affected p (db_tasks d), updateTasks p (startRow now) d))"

definition claimBody :: "env \<Rightarrow> time \<Rightarrow> string \<Rightarrow> string \<Rightarrow> (task \<times> attempt) bg_tx" where
  "claimBody env now uuid queue =
     tx_bind (tx_first (nextTask now queue)) (\<lambda>t.
     tx_bind (claimRow now (task_ID t)) (\<lambda>n.
     if n \<noteq> 1 then tx_fail RecordNotFound
     else
       let t' = t\<lparr>task_Status := TaskRunning, task_AttemptCount := task_AttemptCount t + 1,
                  task_StartedAt := Some now\<rparr>;
           a = \<lparr>att_ID = uuid, att_TaskID = task_ID t, att_Number = task_AttemptCount t',
                att_Status = AttemptRunning, att_Worker = env_worker env, att_ErrorCode = [],
                att_ErrorMessage = [], att_Diagnostics = [], att_StartedAt = now,
                att_FinishedAt = None\<rparr>
       in tx_bind (insertAttempt a) (\<lambda>_.
          tx_bind (tx_first (jobById (task_JobID t))) (\<lambda>_.
          tx_bind (recomputeJob now (task_JobID t)) (\<lambda>_.
          tx_bind (addEvent env now (newEvent (task_JobID t) (task_ID t) ''task_started'' None []
            (''Attempt '' @ show_int (att_Number a) @ '' started'') [])) (\<lambda>_.
          tx_return (t', a)))))))"

definition claim ::
  "env \<Rightarrow> time \<Rightarrow> string \<Rightarrow> string \<Rightarrow> runtime
    \<Rightarrow> (bg_error txerr + (task \<times> attempt) option) \<times> runtime" where
  "claim env now uuid queue r =
     (case runTx (claimBody env now uuid queue) r of
        (Inl e, r') \<Rightarrow> (if e = RecordNotFound then Inr None else Inl e, r')
      | (Inr ta, r') \<Rightarrow> (Inr (Some ta), r'))"

section \<open>Launching\<close>

text \<open>The entry \<^verbatim>\<open>launch\<close> makes; its context is a child of the root context.\<close>

definition launch :: "task \<Rightarrow> attempt \<Rightarrow> runtime \<Rightarrow> runtime" where
  "launch t a r =
     setActive (task_ID t)
       \<lparr>ac_queue = task_Queue t, ac_jobID = task_JobID t, ac_task = t, ac_attempt = a,
        ac_handled = (task_Kind t \<in> set (rt_handlers r)),
        ac_cause = (case rt_root r of Done c \<Rightarrow> Some c | _ \<Rightarrow> None),
        ac_lastAt = None, ac_last = task_Progress t\<rparr> r"

definition queuePaused :: "string \<Rightarrow> bool bg_tx" where
  "queuePaused queue =
     tx_bind (tx_first (\<lambda>d. find (\<lambda>q. qs_Name q = queue) (db_queues d))) (\<lambda>q.
     tx_return (qs_Paused q))"

fun dispatchQueue ::
  "nat \<Rightarrow> env \<Rightarrow> (nat \<Rightarrow> time) \<Rightarrow> (nat \<Rightarrow> string) \<Rightarrow> string \<Rightarrow> runtime \<Rightarrow> runtime" where
  "dispatchQueue 0 env clock uuids queue r = r"
| "dispatchQueue (Suc n) env clock uuids queue r =
     (case claim env (clock n) (uuids n) queue r of
        (Inl e, r) \<Rightarrow> r
      | (Inr None, r) \<Rightarrow> r
      | (Inr (Some (t, a)), r) \<Rightarrow> dispatchQueue n env clock uuids queue (launch t a r))"

definition rootAlive :: "runtime \<Rightarrow> bool" where
  "rootAlive r \<longleftrightarrow> rt_root r = Live"

definition dispatchOne ::
  "env \<Rightarrow> (nat \<Rightarrow> time) \<Rightarrow> (nat \<Rightarrow> string) \<Rightarrow> string \<Rightarrow> runtime \<Rightarrow> runtime" where
  "dispatchOne env clock uuids queue r =
     (case runPlain (queuePaused queue) r of
        (Inl e, r) \<Rightarrow> r
      | (Inr paused, r) \<Rightarrow>
          if \<not> rootAlive r \<or> paused then r
          else dispatchQueue (nat (capacity env queue - int (activeCount queue r)))
                 env clock uuids queue r)"

definition allQueues :: "string list" where
  "allQueues = [QueueFFmpeg, QueueNetwork, QueueStorage, QueueMaintenance, QueueAudit]"

definition dispatchAvailable ::
  "env \<Rightarrow> (string \<Rightarrow> nat \<Rightarrow> time) \<Rightarrow> (string \<Rightarrow> nat \<Rightarrow> string) \<Rightarrow> runtime \<Rightarrow> runtime" where
  "dispatchAvailable env clock uuids r =
     fold (\<lambda>queue. dispatchOne env (clock queue) (uuids queue) queue) allQueues r"

section \<open>Finishing\<close>

record finish_outcome =
  fo_attempt :: attempt_status
  fo_row :: "task \<Rightarrow> task"
  fo_event :: string
  fo_message :: string

definition extendBudget :: "task \<Rightarrow> task" where
  "extendBudget t = t\<lparr>task_MaxAttempts := task_MaxAttempts t + 1\<rparr>"

text \<open>The switch over the error's class. \<open>base\<close> is the update every failure makes.\<close>

definition failureOutcome ::
  "time \<Rightarrow> attempt \<Rightarrow> task \<Rightarrow> task_error \<Rightarrow> string \<Rightarrow> string \<Rightarrow> finish_outcome" where
  "failureOutcome now a current te code public =
     (let base = (\<lambda>t. t\<lparr>task_Progress := task_Progress current, task_HeartbeatAt := None,
            task_FinishedAt := Some now, task_ErrorCode := code, task_ErrorMessage := public\<rparr>);
          requeue = (\<lambda>t. extendBudget ((base t)\<lparr>task_Status := TaskQueued, task_RunAfter := None,
            task_FinishedAt := None, task_CancelRequestedAt := None\<rparr>));
          delay = retryDelay (task_AttemptCount current) (te_RetryAfter te);
          wait = (\<lambda>t. (base t)\<lparr>task_Status := TaskRetryWait, task_RunAfter := Some (now + delay),
            task_FinishedAt := None\<rparr>);
          number = show_int (att_Number a)
      in case te_Class te of
           ErrorPaused \<Rightarrow> \<lparr>fo_attempt = AttemptInterrupted, fo_row = requeue,
             fo_event = ''task_paused'', fo_message = ''Task paused at a safe checkpoint''\<rparr>
         | ErrorInterrupted \<Rightarrow> \<lparr>fo_attempt = AttemptInterrupted, fo_row = requeue,
             fo_event = ''task_interrupted'',
             fo_message = ''Task interrupted and queued again''\<rparr>
         | ErrorDeferred \<Rightarrow> \<lparr>fo_attempt = AttemptInterrupted,
             fo_row = (\<lambda>t. extendBudget (wait t)), fo_event = ''task_deferred'',
             fo_message = ''Task deferred for '' @ showDelay delay\<rparr>
         | ErrorCanceled \<Rightarrow> \<lparr>fo_attempt = AttemptCanceled,
             fo_row = (\<lambda>t. (base t)\<lparr>task_Status := TaskCanceled\<rparr>),
             fo_event = ''task_canceled'', fo_message = ''Task canceled''\<rparr>
         | ErrorTransient \<Rightarrow>
             if task_AttemptCount current < task_MaxAttempts current
             then \<lparr>fo_attempt = AttemptFailed, fo_row = wait,
               fo_event = ''task_retry_scheduled'',
               fo_message = ''Attempt '' @ number @ '' failed; retry scheduled in '' @ showDelay delay\<rparr>
             else \<lparr>fo_attempt = AttemptFailed,
               fo_row = (\<lambda>t. (base t)\<lparr>task_Status := TaskFailed\<rparr>), fo_event = ''task_failed'',
               fo_message = ''Attempt '' @ number @ '' failed; automatic retries exhausted''\<rparr>
         | _ \<Rightarrow> \<lparr>fo_attempt = AttemptFailed,
             fo_row = (\<lambda>t. (base t)\<lparr>task_Status := TaskFailed\<rparr>), fo_event = ''task_failed'',
             fo_message = ''Attempt '' @ number @ '' failed''\<rparr>)"

definition orDefault :: "string \<Rightarrow> string \<Rightarrow> string" where
  "orDefault s d = (if s = [] then d else s)"

definition successRow :: "time \<Rightarrow> string option \<Rightarrow> result \<Rightarrow> task \<Rightarrow> task" where
  "successRow now encoded res t = t\<lparr>task_Status := TaskSucceeded, task_Progress := 10000,
     task_HeartbeatAt := None, task_FinishedAt := Some now, task_ErrorCode := [],
     task_ErrorMessage := [],
     task_Result := (case encoded of None \<Rightarrow> task_Result t | Some s \<Rightarrow> s),
     task_Phase := (if res_Phase res \<noteq> [] then boundedMessage (res_Phase res) 120
       else task_Phase t)\<rparr>"

definition encodeResult :: "result \<Rightarrow> string option bg_tx" where
  "encodeResult res =
     (if res_Value res = GoNil then tx_return None
      else case marshalPayload (res_Value res) of
             Inl e \<Rightarrow> tx_fail (App (BgError e))
           | Inr s \<Rightarrow> tx_return (Some s))"

fun createChildren ::
  "env \<Rightarrow> time \<Rightarrow> (nat \<Rightarrow> string) \<Rightarrow> task \<Rightarrow> nat \<Rightarrow> task_spec list \<Rightarrow> unit bg_tx" where
  "createChildren env now uuids t i [] = tx_return ()"
| "createChildren env now uuids t i (c # children) =
     tx_bind (tx_catch
       (tx_bind (createTask env now (uuids i) (task_JobID t)
         (withDedupeKey (task_ID t @ '':'' @ ts_Kind c @ '':'' @ show_int (int i))
            (c\<lparr>ts_ParentTaskID := task_ID t\<rparr>))) (\<lambda>_. tx_return ()))
       (\<lambda>e. if isUniqueConstraint e then tx_return () else tx_fail e)) (\<lambda>_.
     createChildren env now uuids t (Suc i) children)"

definition setResult :: "result \<Rightarrow> job \<Rightarrow> job" where
  "setResult res j =
     j\<lparr>job_ResultType := (if res_ResultType res \<noteq> [] then boundedMessage (res_ResultType res) 64
         else job_ResultType j),
       job_ResultID := (if res_ResultID res \<noteq> [] then boundedMessage (res_ResultID res) 128
         else job_ResultID j)\<rparr>"

definition finishAttempt ::
  "time \<Rightarrow> attempt \<Rightarrow> attempt_status \<Rightarrow> (string \<times> string \<times> string) option \<Rightarrow> unit bg_tx" where
  "finishAttempt now a status err =
     tx_update (updateAttempts (\<lambda>a'. att_ID a' = att_ID a) (\<lambda>a'.
       let a' = a'\<lparr>att_Status := status, att_FinishedAt := Some now\<rparr>
       in case err of None \<Rightarrow> a'
          | Some (code, public, diagnostics) \<Rightarrow> a'\<lparr>att_ErrorCode := code,
              att_ErrorMessage := public, att_Diagnostics := diagnostics\<rparr>))"

definition finishFailure ::
  "env \<Rightarrow> time \<Rightarrow> task \<Rightarrow> attempt \<Rightarrow> task \<Rightarrow> task_error \<Rightarrow> unit bg_tx" where
  "finishFailure env now t a current te =
     (let code = orDefault (boundedMessage (te_Code te) 80) ''task_failed'';
          public = orDefault (boundedMessage (te_Public te) 512) ''The background task failed'';
          outcome = failureOutcome now a current te code public;
          diagnostics = env_redact env (te_Diagnostic te)
      in tx_bind (finishAttempt now a (fo_attempt outcome) (Some (code, public, diagnostics))) (\<lambda>_.
         tx_bind (tx_update (updateTasks (\<lambda>t'. task_ID t' = task_ID t) (fo_row outcome))) (\<lambda>_.
         tx_bind (addEvent env now (newEvent (task_JobID t) (task_ID t) (fo_event outcome) None []
           (fo_message outcome)
           (if fo_attempt outcome = AttemptFailed then diagnostics else []))) (\<lambda>_.
         tx_bind (tx_first (jobById (task_JobID t))) (\<lambda>_.
         recomputeJob now (task_JobID t))))))"

definition finishSuccess ::
  "env \<Rightarrow> time \<Rightarrow> (nat \<Rightarrow> string) \<Rightarrow> task \<Rightarrow> attempt \<Rightarrow> result \<Rightarrow> unit bg_tx" where
  "finishSuccess env now uuids t a res =
     tx_bind (encodeResult res) (\<lambda>encoded.
     tx_bind (finishAttempt now a AttemptSucceeded None) (\<lambda>_.
     tx_bind (tx_update (updateTasks (\<lambda>t'. task_ID t' = task_ID t)
       (successRow now encoded res))) (\<lambda>_.
     tx_bind (createChildren env now uuids t 0 (res_Children res)) (\<lambda>_.
     tx_bind (addEvent env now (newEvent (task_JobID t) (task_ID t) ''task_succeeded'' None []
       ''Task completed'' [])) (\<lambda>_.
     tx_bind (tx_first (jobById (task_JobID t))) (\<lambda>j.
     tx_bind (if job_ResultType (setResult res j) \<noteq> [] \<or> job_ResultID (setResult res j) \<noteq> []
              then tx_update (updateJobs (\<lambda>j'. job_ID j' = task_JobID t) (setResult res))
              else tx_return ()) (\<lambda>_.
     recomputeJob now (task_JobID t))))))))"

text \<open>A cancellation that came before the commit fence wins over success and pause.\<close>

definition effectiveError :: "task \<Rightarrow> task_error option \<Rightarrow> task_error option" where
  "effectiveError current te =
     (if (te = None \<or> map_option te_Class te = Some ErrorPaused)
         \<and> task_Status current = TaskCancelRequested \<and> task_CommitStartedAt current = None
      then Some (TaskError ''canceled'' ''Canceled'' [] ErrorCanceled 0
        (Some (EText ''background job canceled'')))
      else te)"

definition finishBody ::
  "env \<Rightarrow> time \<Rightarrow> (nat \<Rightarrow> string) \<Rightarrow> task \<Rightarrow> attempt \<Rightarrow> result \<Rightarrow> task_error option \<Rightarrow> unit bg_tx" where
  "finishBody env now uuids t a res te0 =
     tx_bind (tx_first (taskById (task_ID t))) (\<lambda>current.
     if \<not> liveTask current then tx_return ()
     else case effectiveError current te0 of
            Some te \<Rightarrow> finishFailure env now t a current te
          | None \<Rightarrow> finishSuccess env now uuids t a res)"

text \<open>Up to five tries, each with its own clock reading and identifiers.\<close>

fun finishWithRetry ::
  "nat \<Rightarrow> env \<Rightarrow> (nat \<Rightarrow> time) \<Rightarrow> (nat \<Rightarrow> nat \<Rightarrow> string) \<Rightarrow> task \<Rightarrow> attempt \<Rightarrow> result
    \<Rightarrow> task_error option \<Rightarrow> runtime \<Rightarrow> bg_error txerr option \<times> runtime" where
  "finishWithRetry 0 env clock uuids t a res te r = (None, r)"
| "finishWithRetry (Suc n) env clock uuids t a res te r =
     (case runTx (finishBody env (clock n) (uuids n) t a res te) r of
        (Inr _, r) \<Rightarrow> (None, r)
      | (Inl e, r) \<Rightarrow>
          if n = 0 then (Some e, r)
          else finishWithRetry n env clock uuids t a res te r)"

datatype handler_outcome =
    Returned result "go_error option"
  | Panicked string

definition emptyResult :: result where
  "emptyResult = \<lparr>res_Value = GoNil, res_ResultType = [], res_ResultID = [], res_Phase = [],
     res_Children = []\<rparr>"

definition runHandler ::
  "env \<Rightarrow> bool \<Rightarrow> task \<Rightarrow> handler_outcome \<Rightarrow> result \<times> go_error option" where
  "runHandler env handled t outcome =
     (if \<not> handled
      then (emptyResult, Some (Permanent (env_redact env) ''handler_missing''
             ''No handler is registered for this task''
             (Some (EText (''missing handler '' @ task_Kind t)))))
      else case outcome of
             Returned res err \<Rightarrow> (res, err)
           | Panicked text \<Rightarrow> (emptyResult, Some (ETask (TaskError ''worker_panic''
               ''The worker encountered an internal error'' (env_redact env text)
               ErrorTransient 0 None))))"

text \<open>The end of a task's goroutine: classify, persist, leave the active table, wake the
  dispatcher.\<close>

definition completeTask ::
  "env \<Rightarrow> (nat \<Rightarrow> time) \<Rightarrow> (nat \<Rightarrow> nat \<Rightarrow> string) \<Rightarrow> string \<Rightarrow> handler_outcome \<Rightarrow> runtime
    \<Rightarrow> runtime" where
  "completeTask env clock uuids i outcome r =
     (case activeOf i r of
        None \<Rightarrow> r
      | Some ac \<Rightarrow>
          (case runHandler env (ac_handled ac) (ac_task ac) outcome of
             (res, err) \<Rightarrow>
               (case finishWithRetry 5 env clock uuids (ac_task ac) (ac_attempt ac) res
                       (classifyError (env_redact env) (ac_cause ac) err) r of
                  (_, r) \<Rightarrow> Wake (deleteActive i r))))"

section \<open>Progress and the commit fence\<close>

definition reportRow :: "time \<Rightarrow> string \<Rightarrow> int \<Rightarrow> string \<Rightarrow> nat bg_tx" where
  "reportRow now i value message = tx_stmt (\<lambda>d.
     let p = (\<lambda>t. task_ID t = i \<and> liveTask t)
     in Inr (affected p (db_tasks d), updateTasks p (\<lambda>t. t\<lparr>task_Progress := value,
          task_ProgressMessage := boundedMessage message 255,
          task_HeartbeatAt := Some now\<rparr>) d))"

definition reportBody :: "time \<Rightarrow> string \<Rightarrow> int \<Rightarrow> string \<Rightarrow> unit bg_tx" where
  "reportBody now i value message =
     tx_bind (reportRow now i value message) (\<lambda>n.
     if n = 0 then tx_return ()
     else tx_bind (tx_first (taskById i)) (\<lambda>t.
          tx_bind (tx_first (jobById (task_JobID t))) (\<lambda>_.
          recomputeJob now (task_JobID t))))"

definition clampReported :: "int \<Rightarrow> int" where
  "clampReported v = (let v = (if v < 0 then 0 else v) in if 9999 < v then 9999 else v)"

text \<open>\<open>scaled\<close> is \<^verbatim>\<open>int(progress * 10000)\<close>. A canceled context fails the transaction before its
  first statement.\<close>

definition ReportProgress :: "time \<Rightarrow> string \<Rightarrow> int \<Rightarrow> string \<Rightarrow> runtime \<Rightarrow> runtime" where
  "ReportProgress now i scaled message r =
     (case activeOf i r of
        None \<Rightarrow> r
      | Some ac \<Rightarrow>
          let value = clampReported scaled in
          if (case ac_lastAt ac of None \<Rightarrow> False
              | Some at \<Rightarrow> now - at < 500000000) \<and> value - ac_last ac < 100
          then r
          else let r = updateActive (\<lambda>k a. if k = i
                     then a\<lparr>ac_lastAt := Some now, ac_last := value\<rparr> else a) r
               in if ac_cause ac \<noteq> None then r
                  else snd (runTx (reportBody now i value message) r))"

definition commitRow :: "time \<Rightarrow> string \<Rightarrow> string \<Rightarrow> nat bg_tx" where
  "commitRow now i phase = tx_stmt (\<lambda>d.
     let p = (\<lambda>t. task_ID t = i \<and> task_Status t = TaskRunning \<and> task_CancelRequestedAt t = None)
     in Inr (affected p (db_tasks d), updateTasks p (\<lambda>t. t\<lparr>task_Phase := boundedMessage phase 120,
          task_CommitStartedAt := Some now\<rparr>) d))"

definition commitBody :: "time \<Rightarrow> string \<Rightarrow> string \<Rightarrow> unit bg_tx" where
  "commitBody now i phase =
     tx_bind (tx_first (taskById i)) (\<lambda>t.
     tx_bind (tx_reject (task_Status t \<noteq> TaskRunning) ErrConflict) (\<lambda>_.
     tx_bind (tx_first (jobById (task_JobID t))) (\<lambda>j.
     tx_bind (tx_reject (job_CancelRequestedAt j \<noteq> None \<or> job_PauseRequestedAt j \<noteq> None)
       ErrConflict) (\<lambda>_.
     tx_bind (commitRow now i phase) (\<lambda>n.
     tx_bind (tx_reject (n \<noteq> 1) ErrConflict) (\<lambda>_.
     recomputeJob now (task_JobID t)))))))"

text \<open>The context argument: absent, one without a reporter (with its \<^verbatim>\<open>Err()\<close>), or that of an
  active task.\<close>

datatype ctx = NilCtx | PlainCtx bool | TaskCtx string

definition BeginCommit :: "time \<Rightarrow> ctx \<Rightarrow> string \<Rightarrow> runtime \<Rightarrow> bool \<times> runtime" where
  "BeginCommit now c phase r =
     (if trimSpace phase = [] then (False, r)
      else case c of
             NilCtx \<Rightarrow> (True, r)
           | PlainCtx failed \<Rightarrow> (\<not> failed, r)
           | TaskCtx i \<Rightarrow>
               (case activeOf i r of
                  None \<Rightarrow> (False, r)
                | Some ac \<Rightarrow>
                    if ac_cause ac \<noteq> None then (False, r)
                    else (case runTx (commitBody now i phase) r of
                            (Inl _, r) \<Rightarrow> (False, r)
                          | (Inr _, r) \<Rightarrow> (True, r))))"

end
