(* ===== verification/BgControl.thy ===== *)
theory BgControl
  imports BgRuntime
begin

text \<open>
  The operator side of \<^verbatim>\<open>src/background/runtime.go\<close>: pausing, resuming, releasing, canceling
  and retrying jobs and tasks, recovery after a restart and of stale workers, the heartbeat,
  and retention. Each operation is its transaction followed by what it does to the running
  workers.
\<close>

section \<open>Pause, resume, run now\<close>

definition countCommitting :: "string \<Rightarrow> nat bg_tx" where
  "countCommitting jobID =
     tx_select (\<lambda>d. affected (\<lambda>t. task_JobID t = jobID \<and> committingTask t) (db_tasks d))"

definition updateJob :: "string \<Rightarrow> (job \<Rightarrow> job) \<Rightarrow> unit bg_tx" where
  "updateJob jobID f = tx_update (updateJobs (\<lambda>j. job_ID j = jobID) f)"

definition pauseBody :: "env \<Rightarrow> time \<Rightarrow> string \<Rightarrow> nat \<Rightarrow> string \<Rightarrow> unit bg_tx" where
  "pauseBody env now jobID actorID actorName =
     tx_bind (tx_first (jobById jobID)) (\<lambda>j.
     tx_bind (tx_reject (\<not> job_Pausable j \<or> \<not> pausableJobStatus (job_Status j)
       \<or> job_PauseRequestedAt j \<noteq> None \<or> job_CancelRequestedAt j \<noteq> None) ErrConflict) (\<lambda>_.
     tx_bind (countCommitting jobID) (\<lambda>committing.
     tx_bind (tx_reject (0 < committing) ErrCommitStarted) (\<lambda>_.
     tx_bind (updateJob jobID (\<lambda>j. j\<lparr>job_PauseRequestedAt := Some now, job_PausedAt := None\<rparr>)) (\<lambda>_.
     tx_bind (addEvent env now (newEvent jobID [] ''job_pause_requested'' (optionalActor actorID)
       actorName ''Pause requested'' [])) (\<lambda>_.
     recomputeJob now jobID))))))"

definition PauseJob ::
  "env \<Rightarrow> time \<Rightarrow> string \<Rightarrow> nat \<Rightarrow> string \<Rightarrow> runtime \<Rightarrow> bg_error txerr option \<times> runtime" where
  "PauseJob env now jobID actorID actorName r =
     (case runTx (pauseBody env now jobID actorID actorName) r of
        (Inl e, r) \<Rightarrow> (Some e, r)
      | (Inr _, r) \<Rightarrow> (None, cancelWhere (\<lambda>_ a. ac_jobID a = jobID) UserPaused r))"

definition resumeBody :: "env \<Rightarrow> time \<Rightarrow> string \<Rightarrow> nat \<Rightarrow> string \<Rightarrow> unit bg_tx" where
  "resumeBody env now jobID actorID actorName =
     tx_bind (tx_first (jobById jobID)) (\<lambda>j.
     tx_bind (tx_reject (job_Status j \<noteq> JobPauseRequested \<and> job_Status j \<noteq> JobPaused)
       ErrConflict) (\<lambda>_.
     tx_bind (updateJob jobID (\<lambda>j. j\<lparr>job_PauseRequestedAt := None, job_PausedAt := None\<rparr>)) (\<lambda>_.
     tx_bind (addEvent env now (newEvent jobID [] ''job_resumed'' (optionalActor actorID) actorName
       ''Job resumed'' [])) (\<lambda>_.
     recomputeJob now jobID))))"

definition wakeOnSuccess ::
  "(bg_error txerr + 'a) \<times> runtime \<Rightarrow> bg_error txerr option \<times> runtime" where
  "wakeOnSuccess res = (case res of (Inl e, r) \<Rightarrow> (Some e, r) | (Inr _, r) \<Rightarrow> (None, Wake r))"

definition ResumeJob ::
  "env \<Rightarrow> time \<Rightarrow> string \<Rightarrow> nat \<Rightarrow> string \<Rightarrow> runtime \<Rightarrow> bg_error txerr option \<times> runtime" where
  "ResumeJob env now jobID actorID actorName r =
     wakeOnSuccess (runTx (resumeBody env now jobID actorID actorName) r)"

text \<open>An update together with its \<^verbatim>\<open>RowsAffected\<close>.\<close>

definition updateTasksCount :: "(task \<Rightarrow> bool) \<Rightarrow> (task \<Rightarrow> task) \<Rightarrow> nat bg_tx" where
  "updateTasksCount p f = tx_stmt (\<lambda>d. Inr (affected p (db_tasks d), updateTasks p f d))"

definition runNowBody :: "env \<Rightarrow> time \<Rightarrow> string \<Rightarrow> nat \<Rightarrow> string \<Rightarrow> unit bg_tx" where
  "runNowBody env now jobID actorID actorName =
     tx_bind (tx_first (jobById jobID)) (\<lambda>j.
     tx_bind (tx_reject (job_Status j \<noteq> JobQueued \<or> job_PauseRequestedAt j \<noteq> None
       \<or> job_CancelRequestedAt j \<noteq> None) ErrConflict) (\<lambda>_.
     tx_bind (updateTasksCount (\<lambda>t. task_JobID t = jobID \<and> task_Status t = TaskQueued \<and>
         (case task_RunAfter t of None \<Rightarrow> False | Some at \<Rightarrow> now < at))
       (\<lambda>t. t\<lparr>task_RunAfter := None\<rparr>)) (\<lambda>n.
     tx_bind (tx_reject (n = 0) ErrConflict) (\<lambda>_.
     tx_bind (addEvent env now (newEvent jobID [] ''job_run_requested'' (optionalActor actorID)
       actorName ''Scheduled wait skipped; job released for immediate execution'' [])) (\<lambda>_.
     recomputeJob now jobID)))))"

definition RunJobNow ::
  "env \<Rightarrow> time \<Rightarrow> string \<Rightarrow> nat \<Rightarrow> string \<Rightarrow> runtime \<Rightarrow> bg_error txerr option \<times> runtime" where
  "RunJobNow env now jobID actorID actorName r =
     wakeOnSuccess (runTx (runNowBody env now jobID actorID actorName) r)"

section \<open>Cancel\<close>

definition cancelJobBody :: "env \<Rightarrow> time \<Rightarrow> string \<Rightarrow> nat \<Rightarrow> string \<Rightarrow> unit bg_tx" where
  "cancelJobBody env now jobID actorID actorName =
     tx_bind (tx_first (jobById jobID)) (\<lambda>j.
     tx_bind (tx_reject (terminalJobStatus (job_Status j)) ErrConflict) (\<lambda>_.
     tx_bind (countCommitting jobID) (\<lambda>committing.
     tx_bind (tx_reject (0 < committing) ErrCommitStarted) (\<lambda>_.
     tx_bind (updateJob jobID (\<lambda>j. j\<lparr>job_Status := JobCancelRequested,
       job_CancelRequestedAt := Some now, job_PauseRequestedAt := None, job_PausedAt := None\<rparr>)) (\<lambda>_.
     tx_bind (tx_update (updateTasks (\<lambda>t. task_JobID t = jobID \<and> waitingTask t)
       (\<lambda>t. t\<lparr>task_Status := TaskCanceled, task_FinishedAt := Some now,
         task_ErrorCode := ''canceled'', task_ErrorMessage := ''Canceled before execution''\<rparr>))) (\<lambda>_.
     tx_bind (tx_update (updateTasks (\<lambda>t. task_JobID t = jobID \<and> task_Status t = TaskRunning)
       (\<lambda>t. t\<lparr>task_Status := TaskCancelRequested, task_CancelRequestedAt := Some now\<rparr>))) (\<lambda>_.
     tx_bind (addEvent env now (newEvent jobID [] ''job_cancel_requested'' (optionalActor actorID)
       actorName ''Cancellation requested'' [])) (\<lambda>_.
     recomputeJob now jobID))))))))"

definition CancelJob ::
  "env \<Rightarrow> time \<Rightarrow> string \<Rightarrow> nat \<Rightarrow> string \<Rightarrow> runtime \<Rightarrow> bg_error txerr option \<times> runtime" where
  "CancelJob env now jobID actorID actorName r =
     (case runTx (cancelJobBody env now jobID actorID actorName) r of
        (Inl e, r) \<Rightarrow> (Some e, r)
      | (Inr _, r) \<Rightarrow>
          (case runPlain (tx_select (\<lambda>d. map task_ID (filter (\<lambda>t. task_JobID t = jobID
                    \<and> task_Status t = TaskCancelRequested) (db_tasks d)))) r of
             (Inl e, r) \<Rightarrow> (Some e, r)
           | (Inr ids, r) \<Rightarrow> (None, cancelWhere (\<lambda>i _. i \<in> set ids) UserCanceled r)))"

definition cancelTaskBody :: "env \<Rightarrow> time \<Rightarrow> string \<Rightarrow> nat \<Rightarrow> string \<Rightarrow> unit bg_tx" where
  "cancelTaskBody env now taskID actorID actorName =
     tx_bind (tx_first (taskById taskID)) (\<lambda>t.
     tx_bind (tx_reject (terminalTaskStatus (task_Status t)) ErrConflict) (\<lambda>_.
     tx_bind (tx_reject (task_CommitStartedAt t \<noteq> None) ErrCommitStarted) (\<lambda>_.
     tx_bind (tx_update (updateTasks (\<lambda>t'. task_ID t' = taskID)
       (if liveTask t
        then (\<lambda>t. t\<lparr>task_Status := TaskCancelRequested, task_CancelRequestedAt := Some now\<rparr>)
        else (\<lambda>t. t\<lparr>task_Status := TaskCanceled, task_FinishedAt := Some now,
          task_ErrorCode := ''canceled'',
          task_ErrorMessage := ''Canceled by administrator''\<rparr>)))) (\<lambda>_.
     tx_bind (addEvent env now (newEvent (task_JobID t) taskID ''task_cancel_requested''
       (optionalActor actorID) actorName ''Task cancellation requested'' [])) (\<lambda>_.
     tx_bind (tx_first (jobById (task_JobID t))) (\<lambda>_.
     recomputeJob now (task_JobID t)))))))"

definition CancelTask ::
  "env \<Rightarrow> time \<Rightarrow> string \<Rightarrow> nat \<Rightarrow> string \<Rightarrow> runtime \<Rightarrow> bg_error txerr option \<times> runtime" where
  "CancelTask env now taskID actorID actorName r =
     (case runTx (cancelTaskBody env now taskID actorID actorName) r of
        (Inl e, r) \<Rightarrow> (Some e, r)
      | (Inr _, r) \<Rightarrow> (None, cancelWhere (\<lambda>i _. i = taskID) UserCanceled r))"

text \<open>\<^verbatim>\<open>CancelKinds\<close>: the distinct jobs of the live tasks whose kind has one of the prefixes
  (a \<^verbatim>\<open>LIKE\<close> pattern), each canceled unless that conflicts with its state.\<close>

fun cancelJobs ::
  "env \<Rightarrow> (nat \<Rightarrow> time) \<Rightarrow> nat \<Rightarrow> string \<Rightarrow> string \<Rightarrow> string list \<Rightarrow> runtime
    \<Rightarrow> bg_error txerr option \<times> runtime" where
  "cancelJobs env clock actorID actorName reason [] r = (None, r)"
| "cancelJobs env clock actorID actorName reason (i # ids) r =
     (case CancelJob env (clock (length ids)) i actorID actorName r of
        (err, r) \<Rightarrow>
          if (case err of None \<Rightarrow> False | Some e \<Rightarrow> \<not> isErrConflict e) then (err, r)
          else (case (if reason = [] then (Inr (), r)
                      else runPlain (addEvent env (clock (length ids)) (newEvent i []
                        ''feature_disabled'' (optionalActor actorID) actorName
                        (boundedMessage reason 512) [])) r) of
                  (Inl e, r) \<Rightarrow> (Some e, r)
                | (Inr _, r) \<Rightarrow> cancelJobs env clock actorID actorName reason ids r))"

definition CancelKinds ::
  "env \<Rightarrow> (nat \<Rightarrow> time) \<Rightarrow> string list \<Rightarrow> nat \<Rightarrow> string \<Rightarrow> string \<Rightarrow> runtime
    \<Rightarrow> bg_error txerr option \<times> runtime" where
  "CancelKinds env clock kindPrefixes actorID actorName reason r =
     (if kindPrefixes = [] then (None, r)
      else case runPlain (tx_select (\<lambda>d. remdups (map task_JobID
                (filter (\<lambda>t. \<not> terminalTaskStatus (task_Status t) \<and>
                   list_ex (\<lambda>p. sqlLike (p @ ''%'') (task_Kind t)) kindPrefixes)
                 (db_tasks d))))) r of
             (Inl e, r) \<Rightarrow> (Some e, r)
           | (Inr ids, r) \<Rightarrow> cancelJobs env clock actorID actorName reason ids r)"

section \<open>Retry\<close>

definition retryRow :: "task \<Rightarrow> task" where
  "retryRow t = t\<lparr>task_Status := TaskQueued, task_RunAfter := None, task_FinishedAt := None,
     task_CancelRequestedAt := None, task_ErrorCode := [], task_ErrorMessage := [],
     task_CommitStartedAt := None, task_Progress := 0, task_ProgressMessage := [],
     task_MaxAttempts := task_AttemptCount t + 4\<rparr>"

definition retryableTask :: "task \<Rightarrow> bool" where
  "retryableTask t \<longleftrightarrow> task_Status t = TaskFailed \<or> task_Status t = TaskCanceled"

definition retryJobBody :: "env \<Rightarrow> time \<Rightarrow> string \<Rightarrow> nat \<Rightarrow> string \<Rightarrow> unit bg_tx" where
  "retryJobBody env now jobID actorID actorName =
     tx_bind (tx_first (jobById jobID)) (\<lambda>j.
     tx_bind (tx_reject (job_Status j \<noteq> JobFailed \<and> job_Status j \<noteq> JobCanceled
       \<and> job_Status j \<noteq> JobSucceededWithWarnings) ErrConflict) (\<lambda>_.
     tx_bind (updateTasksCount (\<lambda>t. task_JobID t = jobID \<and> retryableTask t) retryRow) (\<lambda>n.
     tx_bind (tx_reject (n = 0) ErrConflict) (\<lambda>_.
     tx_bind (updateJob jobID (\<lambda>j. j\<lparr>job_Status := JobQueued, job_FinishedAt := None,
       job_CancelRequestedAt := None, job_PauseRequestedAt := None, job_PausedAt := None,
       job_ErrorCode := [], job_ErrorMessage := []\<rparr>)) (\<lambda>_.
     tx_bind (addEvent env now (newEvent jobID [] ''job_retried'' (optionalActor actorID) actorName
       ''Job queued for manual retry'' [])) (\<lambda>_.
     recomputeJob now jobID))))))"

definition RetryJob ::
  "env \<Rightarrow> time \<Rightarrow> string \<Rightarrow> nat \<Rightarrow> string \<Rightarrow> runtime \<Rightarrow> bg_error txerr option \<times> runtime" where
  "RetryJob env now jobID actorID actorName r =
     (case runTx (retryJobBody env now jobID actorID actorName) r of
        (Inl e, r) \<Rightarrow> (Some e, r) | (Inr _, r) \<Rightarrow> (None, r))"

definition retryTaskBody :: "env \<Rightarrow> time \<Rightarrow> string \<Rightarrow> nat \<Rightarrow> string \<Rightarrow> unit bg_tx" where
  "retryTaskBody env now taskID actorID actorName =
     tx_bind (tx_first (taskById taskID)) (\<lambda>t.
     tx_bind (tx_reject (\<not> retryableTask t) ErrConflict) (\<lambda>_.
     tx_bind (tx_update (updateTasks (\<lambda>t'. task_ID t' = taskID) retryRow)) (\<lambda>_.
     tx_bind (addEvent env now (newEvent (task_JobID t) taskID ''task_retried''
       (optionalActor actorID) actorName ''Task queued for manual retry'' [])) (\<lambda>_.
     tx_bind (tx_first (jobById (task_JobID t))) (\<lambda>_.
     tx_bind (updateJob (task_JobID t) (\<lambda>j. j\<lparr>job_FinishedAt := None,
       job_CancelRequestedAt := None\<rparr>)) (\<lambda>_.
     recomputeJob now (task_JobID t)))))))"

definition RetryTask ::
  "env \<Rightarrow> time \<Rightarrow> string \<Rightarrow> nat \<Rightarrow> string \<Rightarrow> runtime \<Rightarrow> bg_error txerr option \<times> runtime" where
  "RetryTask env now taskID actorID actorName r =
     wakeOnSuccess (runTx (retryTaskBody env now taskID actorID actorName) r)"

section \<open>Recovery\<close>

definition recoverableJob :: "job_status \<Rightarrow> bool" where
  "recoverableJob s \<longleftrightarrow> s \<in> {JobRunning, JobRetryWait, JobPauseRequested, JobPaused,
     JobCancelRequested}"

definition recoverBody :: "env \<Rightarrow> time \<Rightarrow> unit bg_tx" where
  "recoverBody env now =
     tx_bind (tx_update (updateAttempts (\<lambda>a. att_Status a = AttemptRunning)
       (\<lambda>a. a\<lparr>att_Status := AttemptInterrupted, att_ErrorCode := ''worker_interrupted'',
         att_ErrorMessage := ''The worker stopped before the attempt completed'',
         att_FinishedAt := Some now\<rparr>))) (\<lambda>_.
     tx_bind (tx_update (updateTasks committingTask
       (\<lambda>t. t\<lparr>task_Status := TaskFailed, task_ErrorCode := ''commit_interrupted'',
         task_ErrorMessage :=
           ''The worker stopped after irreversible work began; review before retrying'',
         task_FinishedAt := Some now, task_HeartbeatAt := None\<rparr>))) (\<lambda>_.
     tx_bind (tx_update (updateTasks
       (\<lambda>t. task_Status t = TaskCancelRequested \<and> task_CommitStartedAt t = None)
       (\<lambda>t. t\<lparr>task_Status := TaskCanceled, task_ErrorCode := ''canceled'',
         task_ErrorMessage := ''Canceled before application restart'',
         task_FinishedAt := Some now, task_HeartbeatAt := None\<rparr>))) (\<lambda>_.
     tx_bind (tx_update (updateTasks
       (\<lambda>t. task_Status t = TaskRunning \<and> task_CommitStartedAt t = None)
       (\<lambda>t. extendBudget (t\<lparr>task_Status := TaskQueued, task_RunAfter := None,
         task_HeartbeatAt := None, task_ErrorCode := ''worker_interrupted'',
         task_ErrorMessage := ''Interrupted by application restart; queued again'',
         task_CancelRequestedAt := None\<rparr>)))) (\<lambda>_.
     tx_bind (tx_select (\<lambda>d. map job_ID (filter (\<lambda>j. recoverableJob (job_Status j)) (db_jobs d)))) (\<lambda>ids.
     tx_foreach (\<lambda>i. tx_bind (recomputeJob now i) (\<lambda>_.
       addEvent env now (newEvent i [] ''job_recovered'' None []
         ''Recovered after application restart'' []))) ids)))))"

definition Recover :: "env \<Rightarrow> time \<Rightarrow> runtime \<Rightarrow> bg_error txerr option \<times> runtime" where
  "Recover env now r =
     (case runTx (recoverBody env now) r of
        (Inl e, r) \<Rightarrow> (Some e, r) | (Inr _, r) \<Rightarrow> (None, r))"

definition staleHeartbeat :: "time \<Rightarrow> task \<Rightarrow> bool" where
  "staleHeartbeat before t \<longleftrightarrow>
     (case task_HeartbeatAt t of None \<Rightarrow> True | Some at \<Rightarrow> at < before)"

record stale_outcome =
  so_attempt :: attempt_status
  so_status :: task_status
  so_code :: string
  so_message :: string
  so_finished :: bool

definition staleOutcome :: "task \<Rightarrow> stale_outcome" where
  "staleOutcome t =
     (if task_CommitStartedAt t \<noteq> None then
        \<lparr>so_attempt = AttemptInterrupted, so_status = TaskFailed, so_code = ''commit_interrupted'',
         so_message = ''The worker stopped after irreversible work began; review before retrying'',
         so_finished = True\<rparr>
      else if task_Status t = TaskCancelRequested then
        \<lparr>so_attempt = AttemptCanceled, so_status = TaskCanceled, so_code = ''canceled'',
         so_message = ''Cancellation completed after the worker heartbeat expired'',
         so_finished = True\<rparr>
      else
        \<lparr>so_attempt = AttemptInterrupted, so_status = TaskQueued, so_code = ''worker_stale'',
         so_message = ''Worker heartbeat expired; queued again'', so_finished = False\<rparr>)"

definition staleRow :: "time \<Rightarrow> stale_outcome \<Rightarrow> task \<Rightarrow> task" where
  "staleRow now so t =
     (let t = t\<lparr>task_Status := so_status so, task_RunAfter := None, task_HeartbeatAt := None,
            task_FinishedAt := (if so_finished so then Some now else None),
            task_CancelRequestedAt := None, task_ErrorCode := so_code so,
            task_ErrorMessage := so_message so\<rparr>
      in if so_status so = TaskQueued then extendBudget t else t)"

text \<open>The loop over the candidates; it returns the jobs to recompute.\<close>

fun staleTasks :: "env \<Rightarrow> time \<Rightarrow> time \<Rightarrow> string list \<Rightarrow> task list \<Rightarrow> string list bg_tx" where
  "staleTasks env now before active [] = tx_return []"
| "staleTasks env now before active (t # ts) =
     (if task_ID t \<in> set active then staleTasks env now before active ts
      else let so = staleOutcome t in
        tx_bind (updateTasksCount (\<lambda>t'. task_ID t' = task_ID t \<and> task_Status t' = task_Status t
            \<and> staleHeartbeat before t') (staleRow now so)) (\<lambda>n.
        if n = 0 then staleTasks env now before active ts
        else
          tx_bind (tx_update (updateAttempts
            (\<lambda>a. att_TaskID a = task_ID t \<and> att_Status a = AttemptRunning)
            (\<lambda>a. a\<lparr>att_Status := so_attempt so, att_ErrorCode := so_code so,
              att_ErrorMessage := so_message so, att_FinishedAt := Some now\<rparr>))) (\<lambda>_.
          tx_bind (addEvent env now (newEvent (task_JobID t) (task_ID t) ''task_recovered'' None []
            (so_message so) [])) (\<lambda>_.
          tx_bind (staleTasks env now before active ts) (\<lambda>jobs.
          tx_return (List.insert (task_JobID t) jobs))))))"

definition staleBody :: "env \<Rightarrow> time \<Rightarrow> time \<Rightarrow> string list \<Rightarrow> unit bg_tx" where
  "staleBody env now before active =
     tx_bind (tx_select (\<lambda>d. sort_key (\<lambda>t. (task_CreatedAt t, task_ID t))
       (filter (\<lambda>t. liveTask t \<and> staleHeartbeat before t) (db_tasks d)))) (\<lambda>candidates.
     tx_bind (staleTasks env now before active candidates) (\<lambda>jobs.
     tx_foreach (\<lambda>i. tx_bind (tx_first (jobById i)) (\<lambda>_. recomputeJob now i)) jobs))"

definition recoverStaleTasks ::
  "env \<Rightarrow> time \<Rightarrow> time \<Rightarrow> runtime \<Rightarrow> bg_error txerr option \<times> runtime" where
  "recoverStaleTasks env now before r =
     (case runTx (staleBody env now before (map fst (rt_active r))) r of
        (Inl e, r) \<Rightarrow> (Some e, r) | (Inr _, r) \<Rightarrow> (None, r))"

text \<open>One tick of the heartbeat loop.\<close>

definition heartbeatTick :: "env \<Rightarrow> time \<Rightarrow> time \<Rightarrow> runtime \<Rightarrow> runtime" where
  "heartbeatTick env tick now r =
     (let ids = map fst (rt_active r);
          r = (if ids = [] then r
               else snd (runPlain (tx_update (updateTasks (\<lambda>t. task_ID t \<in> set ids \<and> liveTask t)
                 (\<lambda>t. t\<lparr>task_HeartbeatAt := Some tick\<rparr>))) r))
      in snd (recoverStaleTasks env now (tick - 30 * second) r))"

section \<open>Retention\<close>

definition retainable :: "time \<Rightarrow> time \<Rightarrow> job \<Rightarrow> bool" where
  "retainable before auditBefore j \<longleftrightarrow>
     terminalJobStatus (job_Status j) \<and>
     (case job_FinishedAt j of
        None \<Rightarrow> False
      | Some at \<Rightarrow> at < before \<or>
          job_Kind j = ''audit.record'' \<and>
          job_Status j \<in> {JobSucceeded, JobSucceededWithWarnings} \<and> at < auditBefore)"

definition retainBody :: "string list \<Rightarrow> unit bg_tx" where
  "retainBody jobs =
     tx_bind (tx_select (\<lambda>d. map task_ID (filter (\<lambda>t. task_JobID t \<in> set jobs) (db_tasks d)))) (\<lambda>taskIDs.
     tx_bind (if taskIDs = [] then tx_return ()
       else tx_update (\<lambda>d. d\<lparr>db_attempts :=
         filter (\<lambda>a. att_TaskID a \<notin> set taskIDs) (db_attempts d)\<rparr>)) (\<lambda>_.
     tx_bind (tx_update (\<lambda>d. d\<lparr>db_events := filter (\<lambda>e. ev_JobID e \<notin> set jobs) (db_events d)\<rparr>)) (\<lambda>_.
     tx_bind (tx_update (\<lambda>d. d\<lparr>db_tasks := filter (\<lambda>t. task_JobID t \<notin> set jobs) (db_tasks d)\<rparr>)) (\<lambda>_.
     tx_update (\<lambda>d. d\<lparr>db_jobs := filter (\<lambda>j. job_ID j \<notin> set jobs) (db_jobs d)\<rparr>)))))"

definition Retain ::
  "time \<Rightarrow> time \<Rightarrow> runtime \<Rightarrow> (nat \<times> bg_error txerr option) \<times> runtime" where
  "Retain now before r =
     (case runPlain (tx_select (\<lambda>d. map job_ID
             (filter (retainable before (now - 24 * hour)) (db_jobs d)))) r of
        (Inl e, r) \<Rightarrow> ((0, Some e), r)
      | (Inr jobs, r) \<Rightarrow>
          if jobs = [] then ((0, None), r)
          else (case runTx (retainBody jobs) r of
                  (Inl e, r) \<Rightarrow> ((length jobs, Some e), r)
                | (Inr _, r) \<Rightarrow> ((length jobs, None), r)))"

end
