(* ===== verification/BgSchedule.thy ===== *)
theory BgSchedule
  imports BgControl
begin

text \<open>
  Queues, schedules and the life cycle of a runtime, \<^verbatim>\<open>src/background/runtime.go\<close>: start-up
  with recovery, the supervised loops and their health, the periodic schedules, pausing a
  queue, the queue summaries, and stopping. Map iterations of the code run in the order of the
  association list; the theorems about them hold for every order of the list.
\<close>

section \<open>Start and stop\<close>

fun ensureQueueRows :: "string list \<Rightarrow> unit bg_tx" where
  "ensureQueueRows [] = tx_return ()"
| "ensureQueueRows (q # qs) =
     tx_bind (tx_update (\<lambda>d.
       if list_ex (\<lambda>s. qs_Name s = q) (db_queues d) then d
       else d\<lparr>db_queues := db_queues d @
         [\<lparr>qs_Name = q, qs_Paused = False, qs_PausedBy = None, qs_PausedAt = None\<rparr>]\<rparr>)) (\<lambda>_.
     ensureQueueRows qs)"

definition ensureQueues :: "unit bg_tx" where
  "ensureQueues = ensureQueueRows allQueues"

definition newSchedule :: "time \<Rightarrow> schedule_definition \<Rightarrow> schedule_state" where
  "newSchedule now s = \<lparr>ss_Key = sd_Key s, ss_Kind = sd_Kind s, ss_Queue = sd_Queue s,
     ss_Enabled = True, ss_LastJobID = [], ss_LastStatus = None, ss_LastError = [],
     ss_LastRunAt = None, ss_LastSuccessAt = None,
     ss_NextRunAt = Some (if sd_RunOnStart s then now else now + sd_Interval s)\<rparr>"

fun ensureSchedules :: "time \<Rightarrow> schedule_definition list \<Rightarrow> unit bg_tx" where
  "ensureSchedules now [] = tx_return ()"
| "ensureSchedules now (s # ss) =
     tx_bind (tx_update (\<lambda>d.
       if list_ex (\<lambda>st. ss_Key st = sd_Key s) (db_schedules d) then d
       else d\<lparr>db_schedules := db_schedules d @ [newSchedule now s]\<rparr>)) (\<lambda>_.
     ensureSchedules now ss)"

definition RegisterSchedule ::
  "schedule_definition \<Rightarrow> bool \<Rightarrow> runtime \<Rightarrow> bg_error option \<times> runtime" where
  "RegisterSchedule s hasBuild r =
     (if sd_Key s = [] \<or> sd_Kind s = [] \<or> sd_Queue s = [] \<or> sd_Interval s \<le> 0 \<or> \<not> hasBuild
      then (Some (BgError
        ''background schedule key, kind, queue, interval, and builder are required''), r)
      else if list_ex (\<lambda>s'. sd_Key s' = sd_Key s) (rt_schedules r)
      then (Some (BgError (''background schedule '' @ sd_Key s @ '' already registered'')), r)
      else (None, r\<lparr>rt_schedules := rt_schedules r @ [s]\<rparr>))"

definition startFailed :: "runtime \<Rightarrow> runtime" where
  "startFailed r = r\<lparr>rt_root := NoContext, rt_starting := False, rt_started := False\<rparr>"

text \<open>\<open>hasDB\<close>: the runtime was made with a database. A parent context that is already done makes
  the root context done.\<close>

definition Start ::
  "env \<Rightarrow> time \<Rightarrow> bool \<Rightarrow> cancel_cause option \<Rightarrow> runtime
    \<Rightarrow> bg_error txerr option \<times> runtime" where
  "Start env now hasDB parentCause r =
     (if \<not> hasDB then
        (Some (App (BgError ''background runtime database is unavailable'')), r)
      else if rt_started r then (None, r)
      else if rt_starting r then
        (Some (App (BgError ''background runtime is already starting'')), r)
      else
        let r = r\<lparr>rt_root := (case parentCause of None \<Rightarrow> Live | Some c \<Rightarrow> Done c),
                  rt_starting := True\<rparr>
        in case runPlain ensureQueues r of
             (Inl e, r) \<Rightarrow> (Some e, startFailed r)
           | (Inr _, r) \<Rightarrow>
               (case Recover env now r of
                  (Some e, r) \<Rightarrow> (Some e, startFailed r)
                | (None, r) \<Rightarrow>
                    (case runPlain (ensureSchedules now (rt_schedules r)) r of
                       (Inl e, r) \<Rightarrow> (Some e, startFailed r)
                     | (Inr _, r) \<Rightarrow>
                         (None, Wake (r\<lparr>rt_started := True, rt_starting := False\<rparr>)))))"

text \<open>Canceling the root context cancels the context of every worker with the same cause.\<close>

definition stopRoot :: "runtime \<Rightarrow> runtime" where
  "stopRoot r =
     (case rt_root r of
        NoContext \<Rightarrow> r
      | Done _ \<Rightarrow> r
      | Live \<Rightarrow> cancelActive RuntimeStopping (r\<lparr>rt_root := Done RuntimeStopping\<rparr>))"

section \<open>Supervised loops\<close>

definition setLoop :: "string \<Rightarrow> (loop_health \<Rightarrow> loop_health) \<Rightarrow> runtime \<Rightarrow> runtime" where
  "setLoop name f r =
     (let h = (case map_of (rt_loops r) name of
           None \<Rightarrow> \<lparr>lh_Name = [], lh_Status = [], lh_Restarts = 0, lh_LastStartAt = None,
             lh_LastError = []\<rparr>
         | Some h \<Rightarrow> h)
      in r\<lparr>rt_loops := filter (\<lambda>e. fst e \<noteq> name) (rt_loops r) @ [(name, f h)]\<rparr>)"

definition loopStarts :: "time \<Rightarrow> string \<Rightarrow> runtime \<Rightarrow> runtime" where
  "loopStarts now name =
     setLoop name (\<lambda>h. h\<lparr>lh_Name := name, lh_Status := ''running'', lh_LastStartAt := Some now\<rparr>)"

text \<open>What follows a return of the loop function: \<open>panic\<close> is the text of a recovered panic. The
  loop is over when the root context is, and is restarted otherwise.\<close>

definition loopReturns :: "env \<Rightarrow> string \<Rightarrow> string option \<Rightarrow> runtime \<Rightarrow> bool \<times> runtime" where
  "loopReturns env name panic r =
     (if \<not> rootAlive r then (False, setLoop name (\<lambda>h. h\<lparr>lh_Status := ''stopped''\<rparr>) r)
      else
        let failure = (case panic of None \<Rightarrow> ''runtime loop stopped unexpectedly'' | Some s \<Rightarrow> s)
        in (True, setLoop name (\<lambda>h. h\<lparr>lh_Status := ''degraded'',
              lh_Restarts := Suc (lh_Restarts h), lh_LastError := env_redact env failure\<rparr>) r))"

definition Health :: "runtime \<Rightarrow> string \<times> loop_health list" where
  "Health r =
     ((if rt_starting r then ''starting''
       else if rt_started r \<and> rootAlive r then
         if list_ex (\<lambda>e. lh_Status (snd e) \<noteq> ''running'') (rt_loops r) then ''degraded''
         else ''running''
       else ''stopped''),
      sort_key lh_Name (map snd (rt_loops r)))"

section \<open>Schedules\<close>

definition dueSchedule :: "time \<Rightarrow> string \<Rightarrow> schedule_state \<Rightarrow> bool" where
  "dueSchedule now key st \<longleftrightarrow>
     ss_Key st = key \<and> ss_Enabled st \<and>
     (case ss_NextRunAt st of None \<Rightarrow> True | Some at \<Rightarrow> at \<le> now)"

definition updateSchedules ::
  "(schedule_state \<Rightarrow> bool) \<Rightarrow> (schedule_state \<Rightarrow> schedule_state) \<Rightarrow> nat bg_tx" where
  "updateSchedules p f = tx_stmt (\<lambda>d.
     Inr (affected p (db_schedules d), d\<lparr>db_schedules := update_where p f (db_schedules d)\<rparr>))"

definition claimSchedule :: "time \<Rightarrow> schedule_definition \<Rightarrow> nat bg_tx" where
  "claimSchedule now s =
     tx_bind (tx_first (\<lambda>d. find (dueSchedule now (sd_Key s)) (db_schedules d))) (\<lambda>_.
     updateSchedules (dueSchedule now (sd_Key s))
       (\<lambda>st. st\<lparr>ss_NextRunAt := Some (now + sd_Interval s), ss_LastRunAt := Some now\<rparr>))"

definition scheduleSpec :: "string \<Rightarrow> schedule_definition \<Rightarrow> job_spec" where
  "scheduleSpec key s =
     (sd_Build s)\<lparr>js_Visibility := VisibilitySystem, js_IdempotencyKey := key\<rparr>"

definition scheduleKey :: "time \<Rightarrow> schedule_definition \<Rightarrow> string" where
  "scheduleKey now s =
     ''schedule:'' @ sd_Key s @ '':'' @ show_int (truncDiv now (sd_Interval s))"

text \<open>One schedule of \<^verbatim>\<open>runDueSchedules\<close>; failed bookkeeping updates are logged and ignored.\<close>

definition runSchedule ::
  "env \<Rightarrow> time \<Rightarrow> string \<Rightarrow> (nat \<Rightarrow> string) \<Rightarrow> (nat \<Rightarrow> time) \<Rightarrow> schedule_definition
    \<Rightarrow> runtime \<Rightarrow> runtime" where
  "runSchedule env now uuid uuids clock s r =
     (case runPlain (claimSchedule now s) r of
        (Inl _, r) \<Rightarrow> r
      | (Inr n, r) \<Rightarrow>
          if n \<noteq> 1 then r
          else case Enqueue env uuid uuids clock (scheduleSpec (scheduleKey now s) s) r of
                 (Inl e, r) \<Rightarrow> snd (runPlain (updateSchedules (\<lambda>st. ss_Key st = sd_Key s)
                    (\<lambda>st. st\<lparr>ss_LastStatus := Some JobFailed,
                      ss_LastError := boundedMessage (txErrorText e) 512\<rparr>)) r)
               | (Inr (j, _), r) \<Rightarrow> snd (runPlain (updateSchedules (\<lambda>st. ss_Key st = sd_Key s)
                    (\<lambda>st. st\<lparr>ss_LastJobID := job_ID j, ss_LastStatus := Some (job_Status j),
                      ss_LastError := []\<rparr>)) r))"

definition runDueSchedules ::
  "env \<Rightarrow> time \<Rightarrow> (string \<Rightarrow> string) \<Rightarrow> (string \<Rightarrow> nat \<Rightarrow> string) \<Rightarrow> (string \<Rightarrow> nat \<Rightarrow> time)
    \<Rightarrow> runtime \<Rightarrow> runtime" where
  "runDueSchedules env now uuid uuids clock r =
     fold (\<lambda>s. runSchedule env now (uuid (sd_Key s)) (uuids (sd_Key s)) (clock (sd_Key s)) s)
       (rt_schedules r) r"

definition refreshRow :: "job \<Rightarrow> schedule_state \<Rightarrow> schedule_state" where
  "refreshRow j st = st\<lparr>ss_LastStatus := Some (job_Status j), ss_LastError := job_ErrorMessage j,
     ss_LastSuccessAt := (if job_Status j \<in> {JobSucceeded, JobSucceededWithWarnings}
       then job_FinishedAt j else ss_LastSuccessAt st)\<rparr>"

fun refreshStates :: "schedule_state list \<Rightarrow> runtime \<Rightarrow> runtime" where
  "refreshStates [] r = r"
| "refreshStates (st # sts) r =
     (case runPlain (tx_first (jobById (ss_LastJobID st))) r of
        (Inl _, r) \<Rightarrow> refreshStates sts r
      | (Inr j, r) \<Rightarrow> refreshStates sts
          (snd (runPlain (updateSchedules (\<lambda>s. ss_Key s = ss_Key st) (refreshRow j)) r)))"

definition refreshScheduleOutcomes :: "runtime \<Rightarrow> runtime" where
  "refreshScheduleOutcomes r =
     (case runPlain (tx_select (\<lambda>d. filter (\<lambda>st. ss_LastJobID st \<noteq> []) (db_schedules d))) r of
        (Inl _, r) \<Rightarrow> r
      | (Inr sts, r) \<Rightarrow> refreshStates sts r)"

definition RunSchedule ::
  "env \<Rightarrow> time \<Rightarrow> string \<Rightarrow> string \<Rightarrow> (nat \<Rightarrow> string) \<Rightarrow> (nat \<Rightarrow> time) \<Rightarrow> string \<Rightarrow> nat \<Rightarrow> string
    \<Rightarrow> runtime \<Rightarrow> (bg_error txerr + job) \<times> runtime" where
  "RunSchedule env now manualUUID uuid uuids clock key actorID actorName r =
     (case find (\<lambda>s. sd_Key s = key) (rt_schedules r) of
        None \<Rightarrow> (Inl RecordNotFound, r)
      | Some s \<Rightarrow>
          (case Enqueue env uuid uuids clock
                  (scheduleSpec (''schedule-manual:'' @ key @ '':'' @ manualUUID) s) r of
             (Inl e, r) \<Rightarrow> (Inl e, r)
           | (Inr (j, _), r) \<Rightarrow>
               let r = snd (runPlain (updateSchedules (\<lambda>st. ss_Key st = key)
                     (\<lambda>st. st\<lparr>ss_LastJobID := job_ID j, ss_LastStatus := Some (job_Status j),
                       ss_LastRunAt := Some now\<rparr>)) r);
                   r = snd (runPlain (addEvent env now (newEvent (job_ID j) []
                     ''schedule_run_requested'' (optionalActor actorID) actorName
                     ''Schedule run requested'' [])) r)
               in (Inr j, r)))"

section \<open>Queues\<close>

definition SetQueuePaused ::
  "time \<Rightarrow> string \<Rightarrow> bool \<Rightarrow> nat \<Rightarrow> runtime \<Rightarrow> bg_error txerr option \<times> runtime" where
  "SetQueuePaused now queue paused actorID r =
     (case runPlain (tx_stmt (\<lambda>d. Inr (affected (\<lambda>q. qs_Name q = queue) (db_queues d),
             d\<lparr>db_queues := update_where (\<lambda>q. qs_Name q = queue)
               (\<lambda>q. q\<lparr>qs_Paused := paused,
                 qs_PausedBy := (if paused then Some actorID else None),
                 qs_PausedAt := (if paused then Some now else None)\<rparr>) (db_queues d)\<rparr>))) r of
        (Inl e, r) \<Rightarrow> (Some e, r)
      | (Inr n, r) \<Rightarrow>
          if n \<noteq> 1 then (Some RecordNotFound, r)
          else (None, if paused then r else Wake r))"

record queue_summary =
  qsm_State :: queue_state
  qsm_Capacity :: int
  qsm_Active :: nat
  qsm_Waiting :: nat
  qsm_OldestAt :: "time option"

definition queueBacklog :: "string \<Rightarrow> bgdb \<Rightarrow> task list" where
  "queueBacklog queue d =
     filter (\<lambda>t. task_Queue t = queue \<and> waitingTask t \<and> dispatchableJob d (task_JobID t))
       (db_tasks d)"

fun summarizeQueues :: "env \<Rightarrow> runtime \<Rightarrow> queue_state list \<Rightarrow> queue_summary list bg_tx" where
  "summarizeQueues env r [] = tx_return []"
| "summarizeQueues env r (q # qs) =
     tx_bind (tx_select (\<lambda>d. length (queueBacklog (qs_Name q) d))) (\<lambda>waiting.
     tx_bind (tx_catch (tx_bind (tx_first (\<lambda>d.
         case sort_key (\<lambda>t. (task_CreatedAt t, task_ID t)) (queueBacklog (qs_Name q) d) of
           [] \<Rightarrow> None | t # _ \<Rightarrow> Some t)) (\<lambda>t. tx_return (Some (task_CreatedAt t))))
       (\<lambda>_. tx_return None)) (\<lambda>oldest.
     tx_bind (summarizeQueues env r qs) (\<lambda>rest.
     tx_return (\<lparr>qsm_State = q, qsm_Capacity = capacity env (qs_Name q),
       qsm_Active = activeCount (qs_Name q) r, qsm_Waiting = waiting,
       qsm_OldestAt = oldest\<rparr> # rest))))"

definition QueueSummaries :: "env \<Rightarrow> runtime \<Rightarrow> (bg_error txerr + queue_summary list) \<times> runtime" where
  "QueueSummaries env r =
     runPlain (tx_bind (tx_select (\<lambda>d. sort_key qs_Name (db_queues d)))
       (summarizeQueues env r)) r"

end
