(* ===== verification/BgInvariant.thy ===== *)
theory BgInvariant
  imports BgSchedule
begin

text \<open>
  The well-formedness of the background tables: identifiers are unique, every task has its job,
  a task whose cancellation was requested has not begun its commit, a task that waits for a
  worker has attempts left, and every job's status,
  progress and finish time are what its tasks say. Every transaction of the runtime keeps it.
  The second argument of the invariant names tasks that must stay live because a worker of this
  process runs them; it is what makes the invariant strong enough for the runtime's own state.
\<close>

section \<open>The invariant\<close>

definition taskSet :: "string \<Rightarrow> task list \<Rightarrow> task set" where
  "taskSet i tasks = {t \<in> set tasks. task_JobID t = i}"

definition jobOK :: "task set \<Rightarrow> job \<Rightarrow> bool" where
  "jobOK T j \<longleftrightarrow>
     T \<noteq> {} \<and>
     job_Status j = specStatus (job_CancelRequestedAt j \<noteq> None) (job_PauseRequestedAt j \<noteq> None) T \<and>
     (job_FinishedAt j \<noteq> None \<longleftrightarrow> terminalJobStatus (job_Status j)) \<and>
     (terminalJobStatus (job_Status j) \<longrightarrow> job_PauseRequestedAt j = None \<and> job_PausedAt j = None) \<and>
     0 \<le> job_Progress j \<and> job_Progress j \<le> 10000 \<and>
     (job_Status j \<in> {JobSucceeded, JobSucceededWithWarnings} \<longrightarrow> job_Progress j = 10000)"

definition taskOK :: "task \<Rightarrow> bool" where
  "taskOK t \<longleftrightarrow>
     (task_Status t = TaskCancelRequested \<longrightarrow> task_CommitStartedAt t = None) \<and>
     0 \<le> task_AttemptCount t \<and>
     (liveTask t \<longrightarrow> task_AttemptCount t \<le> task_MaxAttempts t) \<and>
     (waitingTask t \<longrightarrow> task_AttemptCount t < task_MaxAttempts t)"

type_synonym claims = "(string \<times> string \<times> string) set"

definition claimedLive :: "claims \<Rightarrow> task list \<Rightarrow> bool" where
  "claimedLive L tasks \<longleftrightarrow> (\<forall>(i, j, q) \<in> L. \<exists>t \<in> set tasks.
     task_ID t = i \<and> task_JobID t = j \<and> task_Queue t = q \<and> liveTask t)"

text \<open>\<open>S\<close> holds the jobs whose row is being recomputed.\<close>

definition tablesOK :: "claims \<Rightarrow> string set \<Rightarrow> job list \<Rightarrow> task list \<Rightarrow> bool" where
  "tablesOK L S jobs tasks \<longleftrightarrow>
     distinct (map job_ID jobs) \<and> distinct (map task_ID tasks) \<and>
     task_JobID ` set tasks \<subseteq> job_ID ` set jobs \<and>
     (\<forall>t \<in> set tasks. taskOK t) \<and>
     (\<forall>j \<in> set jobs. job_ID j \<notin> S \<longrightarrow> jobOK (taskSet (job_ID j) tasks) j) \<and>
     claimedLive L tasks"

definition dbInv :: "claims \<Rightarrow> bgdb \<Rightarrow> bool" where
  "dbInv L d \<longleftrightarrow> tablesOK L {} (db_jobs d) (db_tasks d)"

definition touched :: "claims \<Rightarrow> string \<Rightarrow> bgdb \<Rightarrow> bool" where
  "touched L i d \<longleftrightarrow> tablesOK L {i} (db_jobs d) (db_tasks d) \<and> taskSet i (db_tasks d) \<noteq> {}"

section \<open>Consequences\<close>

lemma jobByIdD: "jobById i d = Some j \<Longrightarrow> j \<in> set (db_jobs d) \<and> job_ID j = i"
  unfolding jobById_def by (rule find_key_SomeD)

lemma taskByIdD: "taskById i d = Some t \<Longrightarrow> t \<in> set (db_tasks d) \<and> task_ID t = i"
  unfolding taskById_def by (rule find_key_SomeD)

lemma dbInv_task_unique:
  "dbInv L d \<Longrightarrow> t \<in> set (db_tasks d) \<Longrightarrow> t' \<in> set (db_tasks d) \<Longrightarrow> task_ID t = task_ID t'
    \<Longrightarrow> t = t'"
  by (auto simp: dbInv_def tablesOK_def distinct_map inj_on_def)

lemma dbInv_job_unique:
  "dbInv L d \<Longrightarrow> j \<in> set (db_jobs d) \<Longrightarrow> j' \<in> set (db_jobs d) \<Longrightarrow> job_ID j = job_ID j'
    \<Longrightarrow> j = j'"
  by (auto simp: dbInv_def tablesOK_def distinct_map inj_on_def)

lemma dbInv_jobOK:
  "dbInv L d \<Longrightarrow> j \<in> set (db_jobs d) \<Longrightarrow> jobOK (taskSet (job_ID j) (db_tasks d)) j"
  by (simp add: dbInv_def tablesOK_def)

lemma dbInv_taskById:
  "dbInv L d \<Longrightarrow> t \<in> set (db_tasks d) \<Longrightarrow> taskById (task_ID t) d = Some t"
  unfolding taskById_def by (rule find_distinct_key) (auto simp: dbInv_def tablesOK_def)

lemma dbInv_jobById:
  "dbInv L d \<Longrightarrow> j \<in> set (db_jobs d) \<Longrightarrow> jobById (job_ID j) d = Some j"
  unfolding jobById_def by (rule find_distinct_key) (auto simp: dbInv_def tablesOK_def)

lemma dbInv_terminal:
  assumes "dbInv L d" "j \<in> set (db_jobs d)" "terminalJobStatus (job_Status j)"
    "t \<in> set (db_tasks d)" "task_JobID t = job_ID j"
  shows "terminalTaskStatus (task_Status t)"
  using dbInv_jobOK [OF assms(1,2)] assms(3-5)
  by (auto simp: jobOK_def specStatus_terminal taskSet_def)

lemma terminal_not_live: "terminalTaskStatus (task_Status t) \<Longrightarrow> \<not> liveTask t"
  by (auto simp: liveTask_def)

lemma waiting_not_live: "waitingTask t \<Longrightarrow> \<not> liveTask t"
  by (auto simp: liveTask_def waitingTask_def)

lemma retryable_not_live: "retryableTask t \<Longrightarrow> \<not> liveTask t"
  by (auto simp: liveTask_def retryableTask_def)

lemma claimed_liveD:
  assumes "distinct (map task_ID tasks)" "claimedLive L tasks" "t \<in> set tasks"
    "task_ID t \<in> fst ` L"
  shows "liveTask t"
proof -
  obtain j q where "(task_ID t, j, q) \<in> L" using assms(4) by auto
  with assms(2) obtain t' where "t' \<in> set tasks" "task_ID t' = task_ID t" "liveTask t'"
    by (fastforce simp: claimedLive_def)
  with assms(1,3) show ?thesis by (metis distinct_map inj_onD)
qed

lemma tablesOK_mono: "tablesOK L S jobs tasks \<Longrightarrow> S \<subseteq> S' \<Longrightarrow> tablesOK L S' jobs tasks"
  by (auto simp: tablesOK_def)

lemma tablesOK_claims: "tablesOK L S jobs tasks \<Longrightarrow> L' \<subseteq> L \<Longrightarrow> tablesOK L' S jobs tasks"
  by (auto simp: tablesOK_def claimedLive_def)

lemma dbInv_claims: "dbInv L d \<Longrightarrow> L' \<subseteq> L \<Longrightarrow> dbInv L' d"
  unfolding dbInv_def by (rule tablesOK_claims)

section \<open>Table updates\<close>

text \<open>What an update of task rows must respect.\<close>

definition rowOK :: "claims \<Rightarrow> (task \<Rightarrow> task) \<Rightarrow> task \<Rightarrow> bool" where
  "rowOK L f t \<longleftrightarrow>
     task_ID (f t) = task_ID t \<and> task_JobID (f t) = task_JobID t \<and>
     task_Queue (f t) = task_Queue t \<and> (taskOK t \<longrightarrow> taskOK (f t)) \<and>
     (task_ID t \<in> fst ` L \<longrightarrow> liveTask t \<longrightarrow> liveTask (f t))"

lemma taskSet_update_other:
  assumes "\<And>t. t \<in> set tasks \<Longrightarrow> p t \<Longrightarrow> task_JobID (f t) = task_JobID t"
    and "\<And>t. t \<in> set tasks \<Longrightarrow> p t \<Longrightarrow> task_JobID t \<noteq> i"
  shows "taskSet i (update_where p f tasks) = taskSet i tasks"
  using assms by (fastforce simp: taskSet_def set_update_where)

lemma taskSet_update:
  assumes "\<And>t. t \<in> set tasks \<Longrightarrow> p t \<Longrightarrow> task_JobID (f t) = task_JobID t"
  shows "taskSet i (update_where p f tasks) = (\<lambda>t. if p t then f t else t) ` taskSet i tasks"
proof -
  have "filter (\<lambda>t. task_JobID t = i) (update_where p f tasks) =
      map (\<lambda>t. if p t then f t else t) (filter (\<lambda>t. task_JobID t = i) tasks)"
    using assms by (induction tasks) auto
  then show ?thesis
    unfolding taskSet_def set_filter [symmetric] by simp
qed

lemma map_update_where_on:
  "(\<And>r. r \<in> set rows \<Longrightarrow> p r \<Longrightarrow> k (f r) = k r) \<Longrightarrow> map k (update_where p f rows) = map k rows"
  by (induction rows) auto

lemma claimedLive_update:
  assumes ok: "\<And>t. t \<in> set tasks \<Longrightarrow> p t \<Longrightarrow> rowOK L f t" and "claimedLive L tasks"
  shows "claimedLive L (update_where p f tasks)"
  unfolding claimedLive_def
proof (intro ballI, clarify)
  fix i j q assume L: "(i, j, q) \<in> L"
  with assms(2) obtain t where t: "t \<in> set tasks" "task_ID t = i" "task_JobID t = j"
      "task_Queue t = q" "liveTask t"
    by (fastforce simp: claimedLive_def)
  moreover from L t(2) have "task_ID t \<in> fst ` L" by force
  ultimately show "\<exists>t' \<in> set (update_where p f tasks).
      task_ID t' = i \<and> task_JobID t' = j \<and> task_Queue t' = q \<and> liveTask t'"
    using ok [of t] unfolding set_update_where
    by (intro bexI [of _ "if p t then f t else t"]) (auto simp: rowOK_def)
qed

lemma tablesOK_update_tasks:
  assumes inv: "tablesOK L S jobs tasks"
    and ok: "\<And>t. t \<in> set tasks \<Longrightarrow> p t \<Longrightarrow> rowOK L f t"
    and S: "\<And>t. t \<in> set tasks \<Longrightarrow> p t \<Longrightarrow> task_JobID t \<in> S"
  shows "tablesOK L S jobs (update_where p f tasks)"
proof -
  have ids: "map task_ID (update_where p f tasks) = map task_ID tasks"
    by (rule map_update_where_on) (use ok in \<open>auto simp: rowOK_def\<close>)
  have other: "taskSet i (update_where p f tasks) = taskSet i tasks" if "i \<notin> S" for i
    by (rule taskSet_update_other) (use ok S that in \<open>auto simp: rowOK_def\<close>)
  have fk: "task_JobID t \<in> job_ID ` set jobs" and fence: "taskOK t"
    if "t \<in> set (update_where p f tasks)" for t
  proof -
    from that obtain u where u: "u \<in> set tasks" "t = (if p u then f u else u)"
      by (auto simp: set_update_where)
    then have "task_JobID t = task_JobID u" "taskOK u \<longrightarrow> taskOK t"
      using ok [of u] by (auto simp: rowOK_def)
    with inv u(1) show "task_JobID t \<in> job_ID ` set jobs" "taskOK t"
      by (auto simp: tablesOK_def)
  qed
  have "claimedLive L (update_where p f tasks)"
    by (rule claimedLive_update) (use ok inv in \<open>auto simp: tablesOK_def\<close>)
  then show ?thesis
    using inv fk fence by (simp add: tablesOK_def ids other image_subset_iff)
qed

lemma tablesOK_update_jobs:
  assumes inv: "tablesOK L S jobs tasks"
    and f: "\<And>j. j \<in> set jobs \<Longrightarrow> p j \<Longrightarrow> job_ID (f j) = job_ID j \<and> job_ID j \<in> S"
  shows "tablesOK L S (update_where p f jobs) tasks"
proof -
  have ids: "map job_ID (update_where p f jobs) = map job_ID jobs"
    by (rule map_update_where_on) (use f in auto)
  have idset: "job_ID ` set (update_where p f jobs) = job_ID ` set jobs"
    by (metis ids list.set_map)
  have ok: "\<forall>j \<in> set (update_where p f jobs). job_ID j \<notin> S \<longrightarrow>
      jobOK (taskSet (job_ID j) tasks) j"
    using inv f by (fastforce simp: tablesOK_def set_update_where)
  show ?thesis using inv ok by (simp add: tablesOK_def ids idset)
qed

lemma touchedI:
  "dbInv L d \<Longrightarrow> t \<in> set (db_tasks d) \<Longrightarrow> task_JobID t = i \<Longrightarrow> touched L i d"
  by (auto simp: touched_def dbInv_def taskSet_def intro: tablesOK_mono)

lemma touchedI_job: "dbInv L d \<Longrightarrow> jobById i d = Some j \<Longrightarrow> touched L i d"
  using dbInv_jobOK [of L d j] jobByIdD [of i d j]
  by (auto simp: touched_def dbInv_def jobOK_def intro: tablesOK_mono)

lemma touched_tasks:
  assumes "touched L i d" and "\<And>t. t \<in> set (db_tasks d) \<Longrightarrow> p t \<Longrightarrow> rowOK L f t"
    and "\<And>t. t \<in> set (db_tasks d) \<Longrightarrow> p t \<Longrightarrow> task_JobID t = i"
  shows "touched L i (updateTasks p f d)"
proof -
  have "taskSet i (update_where p f (db_tasks d)) \<noteq> {}"
    using assms(1,2) by (subst taskSet_update) (auto simp: touched_def rowOK_def)
  then show ?thesis using assms by (auto simp: touched_def intro!: tablesOK_update_tasks)
qed

lemma touched_jobs:
  "touched L i d \<Longrightarrow> (\<And>j. job_ID (f j) = job_ID j)
    \<Longrightarrow> touched L i (updateJobs (\<lambda>j. job_ID j = i) f d)"
  by (auto simp: touched_def intro!: tablesOK_update_jobs)

lemma inv_insertEvent [simp]:
  "dbInv L (insertEvent e d) = dbInv L d" "touched L i (insertEvent e d) = touched L i d"
  by (simp_all add: dbInv_def touched_def)

lemma inv_updateAttempts [simp]:
  "dbInv L (updateAttempts p f d) = dbInv L d"
  "touched L i (updateAttempts p f d) = touched L i d"
  by (simp_all add: dbInv_def touched_def)

section \<open>Recomputation restores the invariant\<close>

lemma applyReduction_ID [simp]:
  "job_ID (applyReduction now r j) = job_ID j"
  "job_CancelRequestedAt (applyReduction now r j) = job_CancelRequestedAt j"
  by (simp_all add: applyReduction_def Let_def)

lemma applyReduction_status:
  "job_Status (applyReduction now (reduceTasks ts) j) =
     specStatus (job_CancelRequestedAt j \<noteq> None) (job_PauseRequestedAt j \<noteq> None) (set ts)"
  by (simp add: applyReduction_def Let_def reducedStatus_spec)

lemma specStatus_terminal_pause:
  "terminalJobStatus (specStatus c p T) \<Longrightarrow> specStatus c p T = specStatus c p' T"
  by (auto simp: specStatus_def split: if_splits)

lemma applyReduction_jobOK:
  assumes "ts \<noteq> []"
  shows "jobOK (set ts) (applyReduction now (reduceTasks ts) j)"
proof -
  let ?s = "specStatus (job_CancelRequestedAt j \<noteq> None) (job_PauseRequestedAt j \<noteq> None) (set ts)"
  have "?s = specStatus (job_CancelRequestedAt j \<noteq> None) False (set ts)"
    if "terminalJobStatus ?s"
    using that by (rule specStatus_terminal_pause)
  then show ?thesis
    using assms reducedProgress_bounds [of ?s ts]
    by (auto simp: jobOK_def applyReduction_def Let_def reducedStatus_spec reducedProgress_def)
qed

lemma wp_recompute_in:
  assumes inv: "tablesOK L S (db_jobs d) (db_tasks d)" and T: "taskSet i (db_tasks d) \<noteq> {}"
    and Q: "\<And>d'. tablesOK L (S - {i}) (db_jobs d') (db_tasks d') \<Longrightarrow>
      db_tasks d' = db_tasks d \<Longrightarrow> Q () d'"
  shows "wp (recomputeJob now i) Q d"
proof -
  let ?ts = "sort_key task_CreatedAt (tasksOf i d)"
  have set: "set ?ts = taskSet i (db_tasks d)"
    by (auto simp: tasksOf_def taskSet_def)
  with T have ne: "?ts \<noteq> []" by (metis empty_set)
  let ?d = "updateJobs (\<lambda>j. job_ID j = i) (applyReduction now (reduceTasks ?ts)) d"
  have "tablesOK L (insert i S) (db_jobs ?d) (db_tasks ?d)"
    unfolding update_fields
    by (rule tablesOK_update_jobs) (use tablesOK_mono [OF inv] in auto)
  moreover have "jobOK (taskSet i (db_tasks d)) j"
    if "j \<in> set (db_jobs ?d)" "job_ID j = i" for j
  proof -
    from that obtain k where "j = applyReduction now (reduceTasks ?ts) k"
      by (auto simp: set_update_where)
    then show ?thesis using applyReduction_jobOK [OF ne, of now k] by (simp only: set)
  qed
  ultimately have "tablesOK L (S - {i}) (db_jobs ?d) (db_tasks ?d)"
    by (auto simp: tablesOK_def)
  with Q [of ?d] ne show ?thesis
    unfolding recomputeJob_def by (intro tx_wp) auto
qed

lemma wp_recompute:
  assumes "touched L i d" and "\<And>d'. dbInv L d' \<Longrightarrow> Q () d'"
  shows "wp (recomputeJob now i) Q d"
  by (rule wp_recompute_in [where S = "{i}" and L = L])
    (use assms in \<open>auto simp: touched_def dbInv_def\<close>)

lemma wp_addEvent [tx_wp]:
  "(\<And>e. Q () (insertEvent e d)) \<Longrightarrow> wp (addEvent env now e) Q d"
  unfolding addEvent_def by (intro tx_wp) simp

end
