(* ===== verification/BgOps.thy ===== *)
theory BgOps
  imports BgInvariant
begin

text \<open>Every transaction of the runtime keeps the table invariant, one lemma per operation; last the records a
  worker writes when it finishes: the row of a failed, deferred, interrupted or successful task is well formed again.\<close>

lemma rowOK_simple:
  assumes "task_ID (f t) = task_ID t" "task_JobID (f t) = task_JobID t"
    "task_Queue (f t) = task_Queue t"
    "task_Status (f t) = task_Status t" "task_CommitStartedAt (f t) = task_CommitStartedAt t"
    "task_AttemptCount (f t) = task_AttemptCount t" "task_MaxAttempts (f t) = task_MaxAttempts t"
  shows "rowOK L f t"
  using assms by (simp add: rowOK_def taskOK_def liveTask_def waitingTask_def)

lemma wp_pauseBody:
  assumes "dbInv L d" shows "wp (pauseBody env now i a n) (\<lambda>_. dbInv L) d"
  unfolding pauseBody_def countCommitting_def updateJob_def 
  by (intro tx_wp wp_recompute) (auto intro!: touched_jobs dest: touchedI_job [OF assms])

lemma wp_resumeBody:
  assumes "dbInv L d" shows "wp (resumeBody env now i a n) (\<lambda>_. dbInv L) d"
  unfolding resumeBody_def updateJob_def 
  by (intro tx_wp wp_recompute) (auto intro!: touched_jobs dest: touchedI_job [OF assms])

lemma wp_updateTasksCount [tx_wp]:
  "Q (affected p (db_tasks d)) (updateTasks p f d) \<Longrightarrow> wp (updateTasksCount p f) Q d"
  unfolding updateTasksCount_def by (rule wp_stmt) simp

lemma wp_runNowBody:
  assumes "dbInv L d" shows "wp (runNowBody env now i a n) (\<lambda>_. dbInv L) d"
  unfolding runNowBody_def 
  by (intro tx_wp wp_recompute)
    (auto intro!: touched_tasks rowOK_simple dest: touchedI_job [OF assms])

lemma wp_cancelJobBody:
  assumes "dbInv L d" shows "wp (cancelJobBody env now i a n) (\<lambda>_. dbInv L) d"
proof -
  have "touched L i (updateTasks (\<lambda>t. task_JobID t = i \<and> task_Status t = TaskRunning)
      (\<lambda>t. t\<lparr>task_Status := TaskCancelRequested, task_CancelRequestedAt := Some now\<rparr>)
      (updateTasks (\<lambda>t. task_JobID t = i \<and> waitingTask t)
        (\<lambda>t. t\<lparr>task_Status := TaskCanceled, task_FinishedAt := Some now,
          task_ErrorCode := ''canceled'', task_ErrorMessage := ''Canceled before execution''\<rparr>)
        (updateJobs (\<lambda>j. job_ID j = i) (\<lambda>j. j\<lparr>job_Status := JobCancelRequested,
          job_CancelRequestedAt := Some now, job_PauseRequestedAt := None,
          job_PausedAt := None\<rparr>) d)))" (is "touched L i (updateTasks ?p2 ?f2 (updateTasks ?p1 ?f1 (updateJobs ?q ?g d)))")
    if j: "jobById i d = Some j" and none: "affected (\<lambda>t. task_JobID t = i \<and> committingTask t) (db_tasks d) = 0"
    for j
  proof (rule touched_tasks [OF touched_tasks [OF touched_jobs [OF touchedI_job [OF assms j]]]])
    fix t assume t: "t \<in> set (db_tasks (updateJobs ?q ?g d))" "?p1 t"
    then have "\<not> liveTask t" by (auto dest: waiting_not_live)
    then show "rowOK L ?f1 t" using t
      by (simp add: rowOK_def taskOK_def liveTask_def waitingTask_def)
  next
    fix t assume t: "t \<in> set (db_tasks (updateTasks ?p1 ?f1 (updateJobs ?q ?g d)))" and p2: "?p2 t"
    have "t \<in> set (db_tasks d)"
      using t unfolding update_fields by (rule update_whereE) (use p2 in auto)
    with none p2 have "task_CommitStartedAt t = None"
      by (auto simp: affected_0_iff committingTask_def liveTask_def)
    then show "rowOK L ?f2 t"
      using p2 by (simp add: rowOK_def taskOK_def liveTask_def waitingTask_def)
  qed auto
  then show ?thesis
    unfolding cancelJobBody_def countCommitting_def updateJob_def
    by (intro tx_wp wp_recompute) (simp_all)
qed

text \<open>An update of the one task with a given identifier.\<close>

lemma touched_row:
  assumes inv: "dbInv L d" and t: "taskById i d = Some t"
    and p: "\<And>t'. p t' \<Longrightarrow> task_ID t' = i" and ok: "p t \<Longrightarrow> rowOK L f t"
  shows "touched L (task_JobID t) (updateTasks p f d)"
proof -
  from t have t': "t \<in> set (db_tasks d)" "task_ID t = i" by (auto dest: taskByIdD)
  then have same: "u = t" if "u \<in> set (db_tasks d)" "task_ID u = i" for u
    using dbInv_task_unique [OF inv that(1) t'(1)] that(2) by simp
  show ?thesis
    using touchedI [OF inv t'(1) refl] by (rule touched_tasks) (auto dest: p same intro: ok)
qed

lemmas touched_task = touched_row [where p = "\<lambda>t'. task_ID t' = i" for i]

lemma rowOK_not_live:
  assumes "task_ID (f t) = task_ID t" "task_JobID (f t) = task_JobID t"
    "task_Queue (f t) = task_Queue t" "\<not> liveTask t" "taskOK t \<Longrightarrow> taskOK (f t)"
  shows "rowOK L f t"
  using assms by (simp add: rowOK_def)

lemma wp_cancelTaskBody:
  assumes "dbInv L d" shows "wp (cancelTaskBody env now i a n) (\<lambda>_. dbInv L) d"
  unfolding cancelTaskBody_def
  by (intro tx_wp wp_recompute)
    (auto intro!: touched_task [OF assms] simp: rowOK_def taskOK_def liveTask_def waitingTask_def)

lemma retryRow_OK: "retryableTask t \<Longrightarrow> rowOK L retryRow t"
  by (rule rowOK_not_live) (auto simp: retryRow_def retryableTask_def taskOK_def liveTask_def)

lemma wp_retryJobBody:
  assumes "dbInv L d" shows "wp (retryJobBody env now i a n) (\<lambda>_. dbInv L) d"
  unfolding retryJobBody_def updateJob_def
  by (intro tx_wp wp_recompute)
   (auto intro!: touched_jobs touched_tasks retryRow_OK dest: touchedI_job [OF assms])

lemma wp_retryTaskBody:
  assumes "dbInv L d" shows "wp (retryTaskBody env now i a n) (\<lambda>_. dbInv L) d"
  unfolding retryTaskBody_def updateJob_def
  by (intro tx_wp wp_recompute)
   (auto intro!: touched_jobs touched_task [OF assms] retryRow_OK)

lemma wp_insertAttempt [tx_wp]:
  "(\<And>as. Q () (d\<lparr>db_attempts := as\<rparr>)) \<Longrightarrow> wp (insertAttempt a) Q d"
  unfolding insertAttempt_def by (rule wp_stmt) (auto split: if_splits)

lemma inv_attempts [simp]:
  "dbInv L (d\<lparr>db_attempts := as\<rparr>) = dbInv L d"
  "touched L i (d\<lparr>db_attempts := as\<rparr>) = touched L i d"
  by (simp_all add: dbInv_def touched_def)

lemma nextTaskD: "nextTask now q d = Some t \<Longrightarrow> t \<in> set (db_tasks d) \<and> claimable now q d t"
proof -
  assume "nextTask now q d = Some t"
  then obtain ts where
    "sort_key (claimOrder now) (filter (claimable now q d) (db_tasks d)) = t # ts"
    by (auto simp: nextTask_def split: list.splits)
  then have "t \<in> set (sort_key (claimOrder now) (filter (claimable now q d) (db_tasks d)))"
    by (metis list.set_intros(1))
  then show ?thesis by simp
qed

lemma wp_claimRow [tx_wp]:
  "Q (affected (\<lambda>t. task_ID t = i \<and> waitingTask t \<and> dispatchableJob d (task_JobID t)) (db_tasks d))
     (updateTasks (\<lambda>t. task_ID t = i \<and> waitingTask t \<and> dispatchableJob d (task_JobID t))
       (startRow now) d) \<Longrightarrow> wp (claimRow now i) Q d"
  unfolding claimRow_def by (rule wp_stmt) (auto simp: Let_def)

lemma startRow_simps [simp]:
  "task_ID (startRow now t) = task_ID t" "task_JobID (startRow now t) = task_JobID t"
  "task_Queue (startRow now t) = task_Queue t" "task_Status (startRow now t) = TaskRunning"
  "task_CommitStartedAt (startRow now t) = None"
  by (simp_all add: startRow_def)

lemma startRow_OK: "taskOK t \<Longrightarrow> waitingTask t \<Longrightarrow> taskOK (startRow now t)"
  by (auto simp: taskOK_def startRow_def waitingTask_def)

lemma touched_claim:
  "touched L i d \<Longrightarrow> t \<in> set (db_tasks d) \<Longrightarrow> liveTask t \<Longrightarrow>
    touched (insert (task_ID t, task_JobID t, task_Queue t) L) i d"
  by (auto simp: touched_def tablesOK_def claimedLive_def)

lemma touched_startRow:
  assumes inv: "dbInv L d" and t: "t \<in> set (db_tasks d)" and p: "p t"
    and "\<And>t'. p t' \<Longrightarrow> task_ID t' = task_ID t" and wait: "waitingTask t"
  shows "touched (insert (task_ID t, task_JobID t, task_Queue t) L) (task_JobID t)
    (updateTasks p (startRow now) d)" (is "touched _ _ ?d")
proof -
  have "touched L (task_JobID t) ?d"
    using inv dbInv_taskById [OF inv t] assms(4)
    by (rule touched_row) (auto intro!: rowOK_not_live startRow_OK simp: wait waiting_not_live [OF wait])
  moreover have "startRow now t \<in> set (db_tasks ?d)"
    using t p by (auto simp: set_update_where)
  ultimately have "touched (insert (task_ID (startRow now t), task_JobID (startRow now t),
      task_Queue (startRow now t)) L) (task_JobID t) ?d"
    by (rule touched_claim) (simp add: liveTask_def)
  then show ?thesis by simp
qed

text \<open>A claim adds a live task.\<close>

lemma wp_claimBody:
  assumes inv: "dbInv L d"
  shows "wp (claimBody env now uuid q) (\<lambda>(t, a). dbInv
    (insert (task_ID t, task_JobID t, task_Queue t) L)) d"
proof -
  have touched: "touched (insert (task_ID t, task_JobID t, task_Queue t) L) (task_JobID t)
      (updateTasks (\<lambda>t'. task_ID t' = task_ID t \<and> waitingTask t'
          \<and> dispatchableJob d (task_JobID t')) (startRow now) d)"
    if "nextTask now q d = Some t" for t
    using nextTaskD [OF that] by (intro touched_startRow [OF inv]) (auto simp: claimable_def)
  show ?thesis
    unfolding claimBody_def Let_def
    by (intro tx_wp wp_recompute [where L = "insert (task_ID t, task_JobID t, task_Queue t) L" for t])
      (auto simp: Let_def dest: touched)
qed

lemma wp_reportRow [tx_wp]:
  "Q (affected (\<lambda>t. task_ID t = i \<and> liveTask t) (db_tasks d))
     (updateTasks (\<lambda>t. task_ID t = i \<and> liveTask t) (\<lambda>t. t\<lparr>task_Progress := v,
        task_ProgressMessage := boundedMessage m 255, task_HeartbeatAt := Some now\<rparr>) d)
    \<Longrightarrow> wp (reportRow now i v m) Q d"
  unfolding reportRow_def by (rule wp_stmt) (auto simp: Let_def)

lemma touched_byId:
  assumes inv: "dbInv L d" and p: "\<And>t. p t \<Longrightarrow> task_ID t = i" and ok: "\<And>t. p t \<Longrightarrow> rowOK L f t"
    and t: "taskById i (updateTasks p f d) = Some t"
  shows "touched L (task_JobID t) (updateTasks p f d)"
proof -
  have "task_ID (f u) = task_ID u" if "p u" for u
    using ok [OF that] by (simp add: rowOK_def)
  then have "taskById i (updateTasks p f d) =
      map_option (\<lambda>u. if p u then f u else u) (taskById i d)"
    unfolding taskById_def update_fields by (intro find_update_where)
  with t obtain u where u: "taskById i d = Some u" "t = (if p u then f u else u)"
    by (cases "taskById i d") auto
  have "task_JobID t = task_JobID u"
    using u(2) ok [of u] by (simp add: rowOK_def)
  with touched_row [OF inv u(1), of p f, OF p ok] show ?thesis by simp
qed

lemma wp_reportBody:
  assumes "dbInv L d" shows "wp (reportBody now i v m) (\<lambda>_. dbInv L) d"
proof -
  have same: "dbInv L (updateTasks p f d)"
    if "affected p (db_tasks d) = 0" for p f
    using that assms by (simp add: dbInv_def affected_0_iff update_where_def cong: map_cong)
  show ?thesis
    unfolding reportBody_def
    by (intro tx_wp wp_recompute) (auto intro!: same touched_byId [OF assms] rowOK_simple)
qed

lemma wp_commitRow [tx_wp]:
  "Q (affected (\<lambda>t. task_ID t = i \<and> task_Status t = TaskRunning
       \<and> task_CancelRequestedAt t = None) (db_tasks d))
     (updateTasks (\<lambda>t. task_ID t = i \<and> task_Status t = TaskRunning
         \<and> task_CancelRequestedAt t = None)
       (\<lambda>t. t\<lparr>task_Phase := boundedMessage phase 120, task_CommitStartedAt := Some now\<rparr>) d)
    \<Longrightarrow> wp (commitRow now i phase) Q d"
  unfolding commitRow_def by (rule wp_stmt) (auto simp: Let_def)

lemma wp_commitBody:
  assumes "dbInv L d" shows "wp (commitBody now i p) (\<lambda>_. dbInv L) d"
  unfolding commitBody_def
  by (intro tx_wp wp_recompute)
    (auto simp: Let_def rowOK_def taskOK_def liveTask_def waitingTask_def intro!: touched_row [OF assms])

lemma wp_always_bind:
  "always I m \<Longrightarrow> I d \<Longrightarrow> (\<And>x d'. I d' \<Longrightarrow> wp (f x) Q d') \<Longrightarrow> wp (tx_bind m f) Q d"
  by (rule wp_bind, rule wp_mono [OF always_wp])

section \<open>Finishing a task\<close>

lemma failureOutcome_row:
  "rowOK L (fo_row (failureOutcome now a t te code pub)) t"
  if "task_ID t \<notin> fst ` L" "liveTask t"
  using that
  by (simp add: failureOutcome_def rowOK_def taskOK_def extendBudget_def Let_def waitingTask_def
      liveTask_def split: error_class.split)

lemma successRow_OK: "task_ID t \<notin> fst ` L \<Longrightarrow> rowOK L (successRow now s res) t"
  by (simp add: successRow_def rowOK_def taskOK_def liveTask_def waitingTask_def)

lemma newTask_simps [simp]:
  "task_ID (newTask now u i s p) = u" "task_JobID (newTask now u i s p) = i"
  "task_Status (newTask now u i s p) = TaskQueued"
  "task_CommitStartedAt (newTask now u i s p) = None" "taskOK (newTask now u i s p)"
  by (simp_all add: newTask_def taskOK_def liveTask_def)

lemma touched_insertTask:
  assumes "touched L i d" and "task_JobID t = i" "taskOK t"
    and "\<not> list_ex (\<lambda>t'. task_ID t' = task_ID t) (db_tasks d)"
  shows "touched L i (d\<lparr>db_tasks := db_tasks d @ [t]\<rparr>)"
proof -
  have other: "taskSet k (db_tasks d @ [t]) = taskSet k (db_tasks d)" if "k \<noteq> i" for k
    using assms(2) that by (auto simp: taskSet_def)
  have "i \<in> job_ID ` set (db_jobs d)"
    using assms(1) by (auto simp: touched_def tablesOK_def taskSet_def)
  moreover have "claimedLive L (db_tasks d @ [t])"
    using assms(1) by (fastforce simp: touched_def tablesOK_def claimedLive_def)
  moreover have "taskSet i (db_tasks d @ [t]) \<noteq> {}"
    using assms(2) by (auto simp: taskSet_def)
  ultimately show ?thesis
    using assms by (simp add: touched_def tablesOK_def other list_ex_iff image_iff) metis
qed

lemma touched_fields:
  "db_jobs d' = db_jobs d \<Longrightarrow> db_tasks d' = db_tasks d \<Longrightarrow> touched L i d' = touched L i d"
  by (simp add: touched_def)

lemma inv_updateTasks_attempts [simp]:
  "touched L i (updateTasks p f (updateAttempts q g d)) = touched L i (updateTasks p f d)"
  by (simp add: touched_def)

lemma always_addEvent [tx_always]:
  "(\<And>e d. I d \<Longrightarrow> I (insertEvent e d)) \<Longrightarrow> always I (addEvent env now e)"
  unfolding addEvent_def by (rule always_update)

lemma always_createTask: "always (touched L i) (createTask env now u i s)"
  by (auto simp: createTask_def insertTask_def Let_def split: sum.split if_splits
      intro!: tx_always always_stmt touched_insertTask)

lemma always_createChildren:
  "task_JobID t = i \<Longrightarrow> always (touched L i) (createChildren env now uuids t n cs)"
  by (induction cs arbitrary: n) (auto intro!: tx_always always_createTask)

lemma claim_row:
  assumes inv: "dbInv L d" and L: "(i, j, q) \<in> L" and t: "taskById i d = Some t"
  shows "task_JobID t = j" "task_Queue t = q" "liveTask t"
    "i \<notin> fst ` (L - {(i, j, q)})"
proof -
  have row: "\<exists>t' \<in> set (db_tasks d). task_ID t' = i \<and> task_JobID t' = j' \<and> task_Queue t' = q'
      \<and> liveTask t'" if "(i, j', q') \<in> L" for j' q'
    using inv that by (fastforce simp: dbInv_def tablesOK_def claimedLive_def)
  have uniq: "t' = t" if "t' \<in> set (db_tasks d)" "task_ID t' = i" for t'
    using dbInv_task_unique [OF inv that(1)] taskByIdD [OF t] that(2) by simp
  from row [OF L] uniq show own: "task_JobID t = j" "task_Queue t = q" "liveTask t" by auto
  show "i \<notin> fst ` (L - {(i, j, q)})"
  proof
    assume "i \<in> fst ` (L - {(i, j, q)})"
    then obtain j' q' where L': "(i, j', q') \<in> L" and ne: "(j', q') \<noteq> (j, q)" by force
    from row [OF L'] uniq have "task_JobID t = j'" "task_Queue t = q'" by auto
    with own ne show False by simp
  qed
qed

lemma wp_encodeResult [tx_wp]: "(\<And>s. Q s d) \<Longrightarrow> wp (encodeResult res) Q d"
  unfolding encodeResult_def by (auto intro!: tx_wp split: sum.split)

lemma wp_finishBody:
  assumes inv: "dbInv L d" and L: "(task_ID t, task_JobID t, q) \<in> L"
  shows "wp (finishBody env now uuids t a res te)
    (\<lambda>_. dbInv (L - {(task_ID t, task_JobID t, q)})) d"
proof -
  let ?L = "L - {(task_ID t, task_JobID t, q)}"
  have inv': "dbInv ?L d" using inv by (rule dbInv_claims) blast
  have row: "touched ?L (task_JobID t) (updateTasks (\<lambda>t'. task_ID t' = task_ID t) f d)"
    if "taskById (task_ID t) d = Some c" and "rowOK ?L f c" for c f
    using touched_task [OF inv' that(1)] that(2) claim_row(1) [OF inv L that(1)] by auto
  have out: "task_ID c \<notin> fst ` ?L" "liveTask c" if "taskById (task_ID t) d = Some c" for c
    using claim_row(3,4) [OF inv L that] taskByIdD [OF that] by simp_all
  have failure: "wp (finishFailure env now t a c te') (\<lambda>_. dbInv ?L) d"
    if "taskById (task_ID t) d = Some c" for c te'
    unfolding finishFailure_def finishAttempt_def Let_def
    by (intro tx_wp wp_recompute)
      (auto simp: row [OF that failureOutcome_row [OF out [OF that]]])
  have success: "wp (finishSuccess env now uuids t a res) (\<lambda>_. dbInv ?L) d"
    if "taskById (task_ID t) d = Some c" for c
    unfolding finishSuccess_def finishAttempt_def
    by (intro tx_wp wp_always_bind [OF always_createChildren [OF refl]] wp_recompute)
      (auto simp: row [OF that successRow_OK [OF out(1) [OF that]]] setResult_def
        intro!: touched_jobs)
  show ?thesis
    unfolding finishBody_def
    by (intro tx_wp) (auto intro!: failure success tx_wp split: option.split dest: claim_row(3) [OF inv L])
qed

end
