(* ===== verification/BgEnqueue.thy ===== *)
theory BgEnqueue
  imports BgOps
begin

text \<open>Enqueuing keeps the table invariant: a request under a known idempotency key returns the stored job, any
  other creates a job whose identifier is fresh together with its tasks and events.\<close>

section \<open>Enqueue\<close>

lemma always_sameTasks: "always I (sameTasks ts ss)"
  by (induction ts ss rule: sameTasks.induct) (auto intro!: tx_always split: sum.split)

lemma always_reuse: "always I (validateIdempotentReuse j spec)"
  unfolding validateIdempotentReuse_def by (intro tx_always always_sameTasks)

lemma wp_reuse: "Q () d \<Longrightarrow> wp (validateIdempotentReuse j spec) Q d"
  by (rule wp_mono [OF always_wp [OF always_reuse [where I = "\<lambda>d'. d' = d"]]]) auto

lemma wp_tryFirst [tx_wp]:
  "Q None d \<Longrightarrow> (\<And>x. f d = Some x \<Longrightarrow> Q (Some x) d) \<Longrightarrow>
    wp (tx_catch (tx_bind (tx_first f) (\<lambda>x. tx_return (Some x))) (\<lambda>_. tx_return None)) Q d"
  by (auto simp: wp_def tx_catch_def tx_bind_def tx_first_def tx_stmt_def tx_return_def
      split: option.splits list.splits sum.splits)

lemma wp_lookup [tx_wp]:
  "(f d = None \<Longrightarrow> Q None d) \<Longrightarrow> (\<And>x. f d = Some x \<Longrightarrow> Q (Some x) d) \<Longrightarrow>
    wp (tx_catch (tx_bind (tx_first f) (\<lambda>x. tx_return (Some x)))
      (\<lambda>e. if e = RecordNotFound then tx_return None else tx_fail e)) Q d"
  by (auto simp: wp_def tx_catch_def tx_bind_def tx_first_def tx_stmt_def tx_return_def tx_fail_def
      split: option.splits list.splits sum.splits)

text \<open>The tables while a new job has its row and not yet all its tasks.\<close>

definition fresh :: "claims \<Rightarrow> string \<Rightarrow> bgdb \<Rightarrow> bool" where
  "fresh L i d \<longleftrightarrow>
     tablesOK L {i} (db_jobs d) (db_tasks d) \<and> i \<in> job_ID ` set (db_jobs d) \<and>
     (\<forall>j \<in> set (db_jobs d). job_ID j = i \<longrightarrow> job_Status j = JobQueued \<and> job_Progress j = 0 \<and>
        job_FinishedAt j = None \<and> job_CancelRequestedAt j = None \<and>
        job_PauseRequestedAt j = None) \<and>
     (\<forall>t \<in> taskSet i (db_tasks d). task_Status t = TaskQueued)"

lemma fresh_insertTask:
  assumes "fresh L i d" and "task_JobID t = i" "task_Status t = TaskQueued" "taskOK t"
    and new: "\<not> list_ex (\<lambda>t'. task_ID t' = task_ID t) (db_tasks d)"
  shows "fresh L i (d\<lparr>db_tasks := db_tasks d @ [t]\<rparr>)"
proof -
  have other: "taskSet k (db_tasks d @ [t]) = taskSet k (db_tasks d)" if "k \<noteq> i" for k
    using assms(2) that by (auto simp: taskSet_def)
  have own: "taskSet i (db_tasks d @ [t]) = insert t (taskSet i (db_tasks d))"
    using assms(2) by (auto simp: taskSet_def)
  have "claimedLive L (db_tasks d @ [t])"
    using assms(1) by (fastforce simp: fresh_def tablesOK_def claimedLive_def)
  moreover have "task_ID t \<notin> task_ID ` set (db_tasks d)"
    using new by (force simp: list_ex_iff)
  ultimately show ?thesis
    using assms(1-4) by (simp add: fresh_def tablesOK_def other own)
qed

lemma fresh_insertEvent [simp]: "fresh L i (insertEvent e d) = fresh L i d"
  by (simp add: fresh_def)

lemma wp_createTask_fresh:
  assumes "fresh L i d"
  shows "wp (createTask env now u i s)
    (\<lambda>_ d'. fresh L i d' \<and> taskSet i (db_tasks d') \<noteq> {}) d"
proof -
  have "wp (insertTask (newTask now u i s p))
      (\<lambda>_ d'. fresh L i d' \<and> taskSet i (db_tasks d') \<noteq> {}) d" for p
    unfolding insertTask_def
    by (rule wp_stmt)
      (auto split: if_splits intro!: fresh_insertTask [OF assms] simp: taskSet_def)
  then have "wp (insertTask (newTask now u i s p)) (\<lambda>_. wp (tx_bind (addEvent env now e)
      (\<lambda>_. tx_return (newTask now u i s p)))
      (\<lambda>_ d'. fresh L i d' \<and> taskSet i (db_tasks d') \<noteq> {})) d" for p e
    by (rule wp_mono) (intro tx_wp, auto)
  then show ?thesis
    by (auto simp: createTask_def Let_def intro!: wp_bind wp_fail split: sum.split)
qed

lemma wp_createTasks_fresh:
  assumes "fresh L i d" "taskSet i (db_tasks d) \<noteq> {} \<or> specs \<noteq> []"
  shows "wp (createTasks env uuids clock i n specs)
    (\<lambda>_ d'. fresh L i d' \<and> taskSet i (db_tasks d') \<noteq> {}) d"
  using assms
proof (induction specs arbitrary: d n)
  case Nil
  then show ?case by (simp add: wp_return)
next
  case (Cons s specs)
  show ?case
    by (auto intro!: wp_bind wp_mono [OF wp_createTask_fresh [OF Cons.prems(1)]] Cons.IH)
qed

lemma fresh_inv: "fresh L i d \<Longrightarrow> taskSet i (db_tasks d) \<noteq> {} \<Longrightarrow> dbInv L d"
proof -
  assume f: "fresh L i d" and T: "taskSet i (db_tasks d) \<noteq> {}"
  have "specStatus False False (taskSet i (db_tasks d)) = JobQueued"
    using f T by (auto simp: specStatus_def fresh_def liveTask_def)
  with f T have "jobOK (taskSet i (db_tasks d)) j" if "j \<in> set (db_jobs d)" "job_ID j = i" for j
    using that by (simp add: jobOK_def fresh_def)
  with f show ?thesis unfolding dbInv_def fresh_def tablesOK_def by auto
qed

lemma newJob_ID [simp]: "job_ID (newJob env now u spec) = u"
  by (simp add: newJob_def)

lemma newJob_fresh:
  assumes inv: "dbInv L d" and new: "\<not> list_ex (\<lambda>j. job_ID j = u) (db_jobs d)"
  shows "fresh L u (d\<lparr>db_jobs := db_jobs d @ [newJob env now u spec]\<rparr>)"
proof -
  have new': "j \<in> set (db_jobs d) \<Longrightarrow> job_ID j \<noteq> u" for j
    using new by (auto simp: list_ex_iff)
  have fk: "task_JobID t \<noteq> u" if "t \<in> set (db_tasks d)" for t
    using inv that new' by (force simp: dbInv_def tablesOK_def)
  then have "taskSet u (db_tasks d) = {}"
    by (auto simp: taskSet_def)
  moreover have "u \<notin> job_ID ` set (db_jobs d)"
    using new' by auto
  moreover have "task_JobID ` set (db_tasks d) \<subseteq> insert u (job_ID ` set (db_jobs d))"
    using inv by (auto simp: dbInv_def tablesOK_def)
  ultimately show ?thesis
    using inv new'
    by (simp add: fresh_def dbInv_def tablesOK_def) (auto simp: newJob_def)
qed

lemma insertJob_error: "tx_bind (insertJob j) (\<lambda>_. tx_return x) (d, fs) = (Inl e, d', fs') \<Longrightarrow> d' = d"
  by (auto simp: insertJob_def tx_bind_def tx_return_def dest: stmt_error_clean split: sum.splits prod.splits)

lemma wp_createJob:
  assumes inv: "dbInv L d" and specs: "js_Tasks spec \<noteq> []"
  shows "wp (createJob env u uuids clock spec) (\<lambda>_. dbInv L) d"
proof -
  let ?Q = "\<lambda>reused d'. case reused of Some _ \<Rightarrow> dbInv L d' | None \<Rightarrow> fresh L u d'"
  have insert: "wp (tx_bind (insertJob (newJob env (clock 0) u spec)) (\<lambda>_. tx_return None)) ?Q d"
    unfolding insertJob_def
    by (intro wp_bind wp_stmt)
      (auto split: if_splits intro!: wp_return newJob_fresh [OF inv])
  have handler: "wp (if c then tx_bind
          (tx_catch (tx_bind (tx_first f) (\<lambda>existing. tx_return (Some existing))) (\<lambda>_. tx_return None))
          (\<lambda>found. case found of
             Some existing \<Rightarrow> tx_bind (validateIdempotentReuse existing spec)
               (\<lambda>_. tx_return (Some existing))
           | None \<Rightarrow> tx_fail e)
        else tx_fail e) ?Q d" for c f e
    by (intro wp_if wp_fail wp_bind wp_tryFirst) (auto intro!: tx_wp wp_reuse inv)
  have rest: "wp (case reused of
        Some existing \<Rightarrow> tx_return (existing, True)
      | None \<Rightarrow>
          tx_bind (createTasks env uuids clock u 0 (js_Tasks spec)) (\<lambda>_.
          tx_bind (addEvent env (clock 0) ev) (\<lambda>_.
          tx_return (j, False)))) (\<lambda>_. dbInv L) d'" if "?Q reused d'" for reused d' ev j
    using that specs
    by (auto split: option.splits intro!: tx_wp wp_mono [OF wp_createTasks_fresh] fresh_inv)
  show ?thesis
    unfolding createJob_def Let_def
    by (rule wp_bind, rule wp_mono [OF wp_catch [OF insert handler]])
      (rule disjI2, intro allI impI, erule insertJob_error, erule rest)
qed

lemma wp_enqueueBody:
  assumes inv: "dbInv L d" and specs: "js_Tasks spec \<noteq> []"
  shows "wp (enqueueBody env u uuids clock spec) (\<lambda>_. dbInv L) d"
  unfolding enqueueBody_def Let_def
  by (intro wp_if wp_bind wp_lookup wp_createJob inv)
    (auto simp: specs intro!: wp_createJob inv wp_bind wp_return wp_reuse)

lemma validateJobSpec_tasks: "validateJobSpec spec = None \<Longrightarrow> js_Tasks spec \<noteq> []"
  by (auto simp: validateJobSpec_def split: if_splits)

end
