(* ===== verification/BgRecover.thy ===== *)
theory BgRecover
  imports BgEnqueue
begin

text \<open>Recovery keeps the table invariant: the restart of a process, the takeover of the tasks of a worker whose
  heartbeat stopped, and the deletion of finished jobs.\<close>

section \<open>Recovery\<close>

lemma dbInv_task_job:
  assumes "dbInv L d" "t \<in> set (db_tasks d)"
  obtains j where "j \<in> set (db_jobs d)" "job_ID j = task_JobID t"
proof -
  from assms(1) have "task_JobID ` set (db_tasks d) \<subseteq> job_ID ` set (db_jobs d)"
    by (simp add: dbInv_def tablesOK_def)
  with assms(2) have "task_JobID t \<in> job_ID ` set (db_jobs d)" by blast
  then show ?thesis using that by (metis imageE)
qed

lemma live_recoverable:
  assumes "jobOK T j" "t \<in> T" "liveTask t"
  shows "recoverableJob (job_Status j)"
proof -
  have "\<exists>t \<in> T. \<not> terminalTaskStatus (task_Status t)" and "\<exists>t \<in> T. liveTask t"
    using assms(2,3) terminal_not_live by blast+
  then have "recoverableJob (specStatus c p T)" for c p
    by (simp add: specStatus_def recoverableJob_def)
  with assms(1) show ?thesis by (simp add: jobOK_def)
qed

text \<open>The tables while rows of the jobs in \<open>S\<close> are out of date, and how a list of recomputations
  brings them up to date.\<close>

definition stale_in :: "claims \<Rightarrow> string set \<Rightarrow> bgdb \<Rightarrow> bool" where
  "stale_in L S d \<longleftrightarrow> tablesOK L S (db_jobs d) (db_tasks d)"

lemma stale_in_simps [simp]:
  "stale_in L {} d = dbInv L d"
  "stale_in L S (insertEvent e d) = stale_in L S d"
  "stale_in L S (updateAttempts p f d) = stale_in L S d"
  by (simp_all add: stale_in_def dbInv_def)

lemma stale_in_update:
  assumes "stale_in L S d" and "\<And>t. t \<in> set (db_tasks d) \<Longrightarrow> p t \<Longrightarrow> rowOK L f t \<and> task_JobID t \<in> S"
  shows "stale_in L S (updateTasks p f d)"
  using assms unfolding stale_in_def by (auto intro!: tablesOK_update_tasks)

lemma wp_recompute_stale:
  assumes "stale_in L S d" "i \<in> task_JobID ` set (db_tasks d)"
    and "\<And>d'. stale_in L (S - {i}) d' \<Longrightarrow> db_tasks d' = db_tasks d \<Longrightarrow> Q () d'"
  shows "wp (recomputeJob now i) Q d"
  by (rule wp_recompute_in) (use assms in \<open>auto simp: stale_in_def taskSet_def\<close>)

lemma wp_recompute_all:
  assumes "stale_in L S d" "S \<subseteq> set ids" "set ids \<subseteq> task_JobID ` set (db_tasks d)"
    and body: "\<And>i d Q. wp (recomputeJob now i) (\<lambda>_ d'. Q () d' \<and> (\<forall>e. Q () (insertEvent e d'))) d
      \<Longrightarrow> wp (f i) Q d"
  shows "wp (tx_foreach f ids) (\<lambda>_ d'. dbInv L d' \<and> db_tasks d' = db_tasks d) d"
  using assms(1-3)
proof (induction ids arbitrary: S d)
  case Nil
  then show ?case by (simp add: wp_return)
next
  case (Cons i ids)
  have rest: "wp (tx_foreach f ids) (\<lambda>_ d''. dbInv L d'' \<and> db_tasks d'' = db_tasks d) d'"
    if "stale_in L (S - {i}) d'" "db_tasks d' = db_tasks d" for d'
    using Cons.IH [OF that(1)] Cons.prems(2,3) that(2) by auto
  show ?case
    unfolding tx_foreach.simps
    by (intro wp_bind body wp_recompute_stale [OF Cons.prems(1)] conjI allI rest)
      (use Cons.prems(3) in auto)
qed

lemma live_update:
  assumes "t \<in> set (db_tasks (updateTasks p f d))" "liveTask t" "\<And>u. \<not> liveTask (f u)"
  shows "t \<in> set (db_tasks d) \<and> \<not> p t"
  using assms(1) unfolding update_fields by (rule update_whereE) (use assms(2,3) in auto)

lemma updateTasks_none: "affected p (db_tasks d) = 0 \<Longrightarrow> updateTasks p f d = d"
  by (simp add: affected_0_iff updateTasks_def update_where_def map_idI)

lemma taskJobs_update [simp]:
  assumes "\<And>t. task_JobID (f t) = task_JobID t"
  shows "task_JobID ` set (update_where p f ts) = task_JobID ` set ts"
  using map_update_where [of p task_JobID f ts] assms by (metis list.set_map)

lemma wp_recoverBody:
  assumes inv: "dbInv {} d"
  shows "wp (recoverBody env now)
    (\<lambda>_ d'. dbInv {} d' \<and> (\<forall>t \<in> set (db_tasks d'). \<not> liveTask t)) d"
proof -
  let ?S = "task_JobID ` {t \<in> set (db_tasks d). liveTask t}"
  let ?p1 = committingTask and ?f1 = "\<lambda>t. t\<lparr>task_Status := TaskFailed,
         task_ErrorCode := ''commit_interrupted'', task_ErrorMessage :=
           ''The worker stopped after irreversible work began; review before retrying'',
         task_FinishedAt := Some now, task_HeartbeatAt := None\<rparr>"
  let ?p2 = "\<lambda>t. task_Status t = TaskCancelRequested \<and> task_CommitStartedAt t = None"
    and ?f2 = "\<lambda>t. t\<lparr>task_Status := TaskCanceled, task_ErrorCode := ''canceled'',
         task_ErrorMessage := ''Canceled before application restart'',
         task_FinishedAt := Some now, task_HeartbeatAt := None\<rparr>"
  let ?p3 = "\<lambda>t. task_Status t = TaskRunning \<and> task_CommitStartedAt t = None"
    and ?f3 = "\<lambda>t. extendBudget (t\<lparr>task_Status := TaskQueued, task_RunAfter := None,
         task_HeartbeatAt := None, task_ErrorCode := ''worker_interrupted'',
         task_ErrorMessage := ''Interrupted by application restart; queued again'',
         task_CancelRequestedAt := None\<rparr>)"
  have dead: "\<not> liveTask (?f1 u)" "\<not> liveTask (?f2 u)" "\<not> liveTask (?f3 u)" for u
    by (simp_all add: liveTask_def extendBudget_def)
  have row: "rowOK {} ?f1 u" "rowOK {} ?f2 u" "liveTask u \<Longrightarrow> rowOK {} ?f3 u" for u
    by (simp_all add: rowOK_def taskOK_def extendBudget_def liveTask_def waitingTask_def)
  have jobs: "task_JobID (?f1 u) = task_JobID u" "task_JobID (?f2 u) = task_JobID u"
      "task_JobID (?f3 u) = task_JobID u" for u
    by (simp_all add: extendBudget_def)
  define d0 where "d0 = updateAttempts (\<lambda>a. att_Status a = AttemptRunning)
       (\<lambda>a. a\<lparr>att_Status := AttemptInterrupted, att_ErrorCode := ''worker_interrupted'',
         att_ErrorMessage := ''The worker stopped before the attempt completed'',
         att_FinishedAt := Some now\<rparr>) d"
  define d1 where "d1 = updateTasks ?p1 ?f1 d0"
  define d2 where "d2 = updateTasks ?p2 ?f2 d1"
  define d3 where "d3 = updateTasks ?p3 ?f3 d2"
  have l1: "t \<in> set (db_tasks d) \<and> \<not> ?p1 t" if "t \<in> set (db_tasks d1)" "liveTask t" for t
    using live_update [OF that [unfolded d1_def] dead(1)] by (simp add: d0_def)
  have l2: "t \<in> set (db_tasks d1) \<and> \<not> ?p2 t" if "t \<in> set (db_tasks d2)" "liveTask t" for t
    by (rule live_update [OF that [unfolded d2_def] dead(2)])
  have l3: "t \<in> set (db_tasks d2) \<and> \<not> ?p3 t" if "t \<in> set (db_tasks d3)" "liveTask t" for t
    by (rule live_update [OF that [unfolded d3_def] dead(3)])
  have S: "task_JobID t \<in> ?S" if "t \<in> set (db_tasks d)" "liveTask t" for t
    using that by blast
  have "stale_in {} ?S d0"
    using inv by (auto simp: d0_def stale_in_def dbInv_def intro: tablesOK_mono)
  then have "stale_in {} ?S d1"
    unfolding d1_def by (rule stale_in_update) (simp add: d0_def row S committingTask_def)
  then have "stale_in {} ?S d2"
    unfolding d2_def
  proof (rule stale_in_update)
    fix t assume "t \<in> set (db_tasks d1)" "?p2 t"
    then have "t \<in> set (db_tasks d)" "liveTask t" using l1 by (simp_all add: liveTask_def)
    then show "rowOK {} ?f2 t \<and> task_JobID t \<in> ?S" by (intro conjI row S)
  qed
  then have s3: "stale_in {} ?S d3"
    unfolding d3_def
  proof (rule stale_in_update)
    fix t assume "t \<in> set (db_tasks d2)" "?p3 t"
    then have "t \<in> set (db_tasks d)" "liveTask t" using l1 l2 by (simp_all add: liveTask_def)
    then show "rowOK {} ?f3 t \<and> task_JobID t \<in> ?S" by (intro conjI row S)
  qed
  have none: "\<not> liveTask t" if t: "t \<in> set (db_tasks d3)" for t
  proof
    assume l: "liveTask t"
    with t have "t \<in> set (db_tasks d2)" "\<not> ?p3 t" using l3 by blast+
    moreover from this l have "t \<in> set (db_tasks d1)" "\<not> ?p2 t" using l2 by blast+
    moreover from this l have "\<not> ?p1 t" using l1 by blast
    ultimately show False using l by (auto simp: liveTask_def committingTask_def)
  qed
  have jobsd: "task_JobID ` set (db_tasks d3) = task_JobID ` set (db_tasks d)"
      "db_jobs d3 = db_jobs d"
    by (simp_all add: d3_def d2_def d1_def d0_def jobs)
  let ?ids = "map job_ID (filter (\<lambda>j. recoverableJob (job_Status j)) (db_jobs d))"
  have sub1: "?S \<subseteq> set ?ids"
  proof
    fix i assume "i \<in> ?S"
    then obtain t where t: "t \<in> set (db_tasks d)" "liveTask t" "task_JobID t = i" by blast
    moreover obtain j where j: "j \<in> set (db_jobs d)" "job_ID j = i"
      using dbInv_task_job [OF inv t(1)] t(3) by metis
    ultimately have "recoverableJob (job_Status j)"
      by (intro live_recoverable [OF dbInv_jobOK [OF inv j(1)], of t]) (auto simp: taskSet_def)
    with j show "i \<in> set ?ids" by auto
  qed
  have sub2: "set ?ids \<subseteq> task_JobID ` set (db_tasks d)"
  proof
    fix i assume "i \<in> set ?ids"
    then obtain j where "j \<in> set (db_jobs d)" "i = job_ID j" by auto
    then have "taskSet i (db_tasks d) \<noteq> {}"
      using dbInv_jobOK [OF inv, of j] by (simp add: jobOK_def)
    then show "i \<in> task_JobID ` set (db_tasks d)"
      by (auto simp: taskSet_def)
  qed
  show ?thesis
    unfolding recoverBody_def
    by (intro tx_wp, fold d0_def, fold d1_def, fold d2_def, fold d3_def,
        rule wp_mono [OF wp_recompute_all [OF s3, where now = now]])
      (use sub1 sub2 in \<open>auto intro!: wp_bind wp_addEvent simp: jobsd none elim!: wp_mono\<close>)
qed

section \<open>Stale workers\<close>

definition taskKeys :: "bgdb \<Rightarrow> (string \<times> string) list" where
  "taskKeys d = map (\<lambda>t. (task_ID t, task_JobID t)) (db_tasks d)"

lemma staleRow_OK: "task_ID t \<notin> fst ` L \<Longrightarrow> liveTask t \<Longrightarrow> rowOK L (staleRow now (staleOutcome u)) t"
  by (auto simp: staleRow_def staleOutcome_def rowOK_def taskOK_def extendBudget_def Let_def
      liveTask_def waitingTask_def)

lemma taskKeys_simps [simp]:
  "taskKeys (insertEvent e d) = taskKeys d" "taskKeys (updateAttempts p f d) = taskKeys d"
  by (simp_all add: taskKeys_def)

lemma taskKeys_update:
  "(\<And>t. task_ID (f t) = task_ID t \<and> task_JobID (f t) = task_JobID t) \<Longrightarrow>
    taskKeys (updateTasks p f d) = taskKeys d"
  unfolding taskKeys_def update_fields by (rule map_update_where) auto

lemma staleRow_simps [simp]:
  "task_ID (staleRow now so t) = task_ID t" "task_JobID (staleRow now so t) = task_JobID t"
  by (simp_all add: staleRow_def extendBudget_def Let_def)

lemma taskKeys_unique:
  assumes "stale_in L S d" "(i, j) \<in> set (taskKeys d)" "t \<in> set (db_tasks d)" "task_ID t = i"
  shows "task_JobID t = j"
proof -
  obtain t' where "t' \<in> set (db_tasks d)" "task_ID t' = i" "task_JobID t' = j"
    using assms(2) by (auto simp: taskKeys_def)
  with assms(1,3,4) show ?thesis
    by (metis (no_types, lifting) distinct_map inj_onD stale_in_def tablesOK_def)
qed

lemma wp_staleTasks:
  assumes "stale_in L S d" "taskKeys d = keys"
    and "\<forall>t \<in> set ts. (task_ID t, task_JobID t) \<in> set keys \<and> task_JobID t \<in> K
      \<and> liveTask t"
    and L: "fst ` L \<subseteq> set active"
  shows "wp (staleTasks env now before active ts)
    (\<lambda>jobs d'. stale_in L (S \<union> set jobs) d' \<and> taskKeys d' = keys \<and> set jobs \<subseteq> K) d"
  using assms(1-3)
proof (induction ts arbitrary: S d)
  case Nil
  then show ?case by (simp add: wp_return)
next
  case (Cons t ts)
  show ?case
  proof (cases "task_ID t \<in> set active")
    case True
    with Cons show ?thesis by simp
  next
    case False
    let ?p = "\<lambda>t'. task_ID t' = task_ID t \<and> task_Status t' = task_Status t \<and> staleHeartbeat before t'"
    let ?d = "updateTasks ?p (staleRow now (staleOutcome t)) d"
    have keys: "taskKeys ?d = keys"
      unfolding Cons.prems(2) [symmetric] by (rule taskKeys_update) simp
    have row: "rowOK L (staleRow now (staleOutcome t)) u"
      if "task_ID u = task_ID t" "task_Status u = task_Status t" for u
      by (rule staleRow_OK) (use that False L Cons.prems(3) in \<open>auto simp: liveTask_def\<close>)
    have st: "stale_in L (insert (task_JobID t) S) ?d"
      by (rule stale_in_update)
        (use Cons.prems row taskKeys_unique [OF Cons.prems(1)] in
          \<open>auto simp: stale_in_def intro: tablesOK_mono\<close>)
    have same: "?d = d" if "affected ?p (db_tasks d) = 0"
      using that by (rule updateTasks_none)
    have rest: "wp (staleTasks env now before active ts)
        (\<lambda>jobs. wp (tx_return (List.insert (task_JobID t) jobs))
          (\<lambda>jobs d'. stale_in L (S \<union> set jobs) d' \<and> taskKeys d' = keys \<and> set jobs \<subseteq> K)) d'"
      if "stale_in L (insert (task_JobID t) S) d'" "taskKeys d' = keys" for d'
      by (rule wp_mono [OF Cons.IH [OF that]]) (use Cons.prems(3) in \<open>auto intro!: wp_return\<close>)
    show ?thesis
      using False same Cons.IH [OF Cons.prems(1,2)] Cons.prems(3)
      by (auto simp: Let_def st keys intro!: tx_wp rest)
  qed
qed

lemma wp_staleBody:
  assumes inv: "dbInv L d" and L: "fst ` L \<subseteq> set active"
  shows "wp (staleBody env now before active) (\<lambda>_. dbInv L) d"
proof -
  have all: "wp (tx_foreach (\<lambda>i. tx_bind (tx_first (jobById i)) (\<lambda>_. recomputeJob now i)) jobs)
      (\<lambda>_. dbInv L) d'" 
    if "stale_in L (set jobs) d'" "set jobs \<subseteq> snd ` set (taskKeys d')" for jobs d'
    by (rule wp_mono [OF wp_recompute_all [OF that(1) order_refl, where now = now]])
      (use that(2) in \<open>auto simp: taskKeys_def image_image intro!: wp_bind wp_first elim!: wp_mono\<close>)
  have keys: "(task_ID t, task_JobID t) \<in> set (taskKeys d)"
      "task_JobID t \<in> snd ` set (taskKeys d)" if "t \<in> set (db_tasks d)" for t
    using that by (force simp: taskKeys_def)+
  show ?thesis
    unfolding staleBody_def
    by (intro wp_bind wp_select wp_mono [OF wp_staleTasks [OF _ refl _ L, where S = "{}" and K = "snd ` set (taskKeys d)"]])
      (use inv in \<open>auto simp: keys intro!: all\<close>)
qed

section \<open>Retention\<close>

lemma wp_retainBody:
  assumes inv: "dbInv L d"
    and terminal: "\<And>j. j \<in> set (db_jobs d) \<Longrightarrow> job_ID j \<in> set jobs \<Longrightarrow> terminalJobStatus (job_Status j)"
  shows "wp (retainBody jobs) (\<lambda>_. dbInv L) d"
proof -
  let ?T = "filter (\<lambda>t. task_JobID t \<notin> set jobs) (db_tasks d)"
  let ?J = "filter (\<lambda>j. job_ID j \<notin> set jobs) (db_jobs d)"
  have sub: "taskSet i ?T = taskSet i (db_tasks d)" if "i \<notin> set jobs" for i
    using that by (auto simp: taskSet_def)
  have live: "task_JobID t \<notin> set jobs" if t: "t \<in> set (db_tasks d)" "liveTask t" for t
  proof
    assume "task_JobID t \<in> set jobs"
    moreover obtain j where "j \<in> set (db_jobs d)" "job_ID j = task_JobID t"
      using dbInv_task_job [OF inv t(1)] by blast
    ultimately show False
      using dbInv_terminal [OF inv _ terminal t(1)] t(2) terminal_not_live by metis
  qed
  have "claimedLive L ?T"
    using inv live by (fastforce simp: dbInv_def tablesOK_def claimedLive_def)
  moreover have "task_JobID ` set ?T \<subseteq> job_ID ` set ?J"
    using inv by (force simp: dbInv_def tablesOK_def)
  ultimately have "tablesOK L {} ?J ?T"
    using inv by (simp add: dbInv_def tablesOK_def sub distinct_map_filter)
  then show ?thesis
    unfolding retainBody_def by (intro tx_wp) (simp_all add: dbInv_def)
qed

end
