(* ===== verification/BgSystem.thy ===== *)
theory BgSystem
  imports BgRecover
begin

text \<open>
  The background runtime as a system: a state is a runtime, a step is one of its operations with
  any arguments, clock readings, identifiers and pending database faults, and the invariant ties
  the table of running workers to the tables of the database.
\<close>

section \<open>The invariant of a runtime\<close>

definition claimsOf :: "(string \<times> active_task) list \<Rightarrow> claims" where
  "claimsOf act = (\<lambda>(i, a). (i, ac_jobID a, ac_queue a)) ` set act"

definition entryOK :: "string \<times> active_task \<Rightarrow> bool" where
  "entryOK e \<longleftrightarrow> task_ID (ac_task (snd e)) = fst e \<and>
     task_JobID (ac_task (snd e)) = ac_jobID (snd e) \<and>
     task_Queue (ac_task (snd e)) = ac_queue (snd e)"

definition rtInv :: "env \<Rightarrow> runtime \<Rightarrow> bool" where
  "rtInv env r \<longleftrightarrow>
     dbInv (claimsOf (rt_active r)) (rt_db r) \<and>
     distinct (map fst (rt_active r)) \<and>
     (\<forall>e \<in> set (rt_active r). entryOK e) \<and>
     (rt_active r \<noteq> [] \<longrightarrow> rt_started r) \<and>
     (\<forall>q. int (activeCount q r) \<le> capacity env q)"

lemma capacity_pos: "0 < capacity env q"
  by (simp add: capacity_def Let_def split: option.split)

lemma rtInv_dbD: "rtInv env r \<Longrightarrow> dbInv (claimsOf (rt_active r)) (rt_db r)"
  by (simp add: rtInv_def)

text \<open>A runtime with the same workers.\<close>

lemma rtInv_same:
  assumes "rtInv env r" and "rt_active r' = rt_active r" "rt_started r \<longrightarrow> rt_started r'"
    and "dbInv (claimsOf (rt_active r)) (rt_db r')"
  shows "rtInv env r'"
  using assms by (simp add: rtInv_def activeCount_def)

lemma runTx_fields [simp]:
  "rt_active (snd (runTx m r)) = rt_active r" "rt_started (snd (runTx m r)) = rt_started r"
  "rt_schedules (snd (runTx m r)) = rt_schedules r" "rt_root (snd (runTx m r)) = rt_root r"
  by (simp_all add: runTx_def split: prod.split)

lemma runPlain_fields [simp]:
  "rt_active (snd (runPlain m r)) = rt_active r" "rt_started (snd (runPlain m r)) = rt_started r"
  "rt_schedules (snd (runPlain m r)) = rt_schedules r" "rt_root (snd (runPlain m r)) = rt_root r"
  by (simp_all add: runPlain_def split: prod.split)

lemma runTx_cases:
  assumes "runTx m r = (res, r')" and "wp m Q (rt_db r)"
  obtains (error) e where "res = Inl e" "rt_db r' = rt_db r"
    | (ok) x where "res = Inr x" "Q x (rt_db r')"
proof -
  obtain d fs where t: "transaction m (rt_db r, rt_faults r) = (res, d, fs)" and "rt_db r' = d"
    using assms(1) by (auto simp: runTx_def split: prod.splits)
  with transaction_cases [OF t assms(2)] error ok show ?thesis by metis
qed

lemma runTx_ok:
  assumes "runTx m r = (Inr x, r')" "wp m Q (rt_db r)" shows "Q x (rt_db r')"
  using assms by (rule runTx_cases) simp_all

lemma runTx_runs:
  assumes "rt_faults r = []" "runs m Q (rt_db r)"
  obtains x r' where "runTx m r = (Inr x, r')" "Q x (rt_db r')" "rt_faults r' = []"
    "r' = r\<lparr>rt_db := rt_db r'\<rparr>"
  using runs_transaction [OF assms(2)] that by (auto simp: runs_def runTx_def assms(1))

lemma runTx_inv:
  assumes "runTx m r = (res, r')" and "rtInv env r"
    and "\<And>L. dbInv L (rt_db r) \<Longrightarrow> wp m (\<lambda>_. dbInv L) (rt_db r)"
  shows "rtInv env r'"
proof -
  note inv = rtInv_dbD [OF assms(2)]
  have "dbInv (claimsOf (rt_active r)) (rt_db r')"
    using runTx_cases [OF assms(1) assms(3) [OF inv]] inv by metis
  moreover have "rt_active r' = rt_active r" "rt_started r' = rt_started r"
    using runTx_fields(1,2) [of m r] by (simp_all add: assms(1))
  ultimately show ?thesis using assms(2) by (auto intro: rtInv_same)
qed

lemma runPlain_inv:
  assumes "runPlain m r = (res, r')" and "rtInv env r" and "\<And>L. always (dbInv L) m"
  shows "rtInv env r'"
proof -
  have "rt_db r' = fst (snd (m (rt_db r, rt_faults r)))"
    using assms(1) by (auto simp: runPlain_def split: prod.splits)
  then have "dbInv (claimsOf (rt_active r)) (rt_db r')"
    using assms(3) rtInv_dbD [OF assms(2)] by (simp add: always_def)
  moreover have "rt_active r' = rt_active r" "rt_started r' = rt_started r"
    using runPlain_fields(1,2) [of m r] by (simp_all add: assms(1))
  ultimately show ?thesis using assms(2) by (auto intro: rtInv_same)
qed

lemma rtInv_fields [simp]:
  "rtInv env (r\<lparr>rt_handlers := hs\<rparr>) = rtInv env r"
  "rtInv env (r\<lparr>rt_schedules := ss\<rparr>) = rtInv env r"
  "rtInv env (r\<lparr>rt_loops := ls\<rparr>) = rtInv env r"
  "rtInv env (r\<lparr>rt_faults := fs\<rparr>) = rtInv env r"
  "rtInv env (r\<lparr>rt_starting := b\<rparr>) = rtInv env r"
  "rtInv env (r\<lparr>rt_root := ctx\<rparr>) = rtInv env r"
  by (simp_all add: rtInv_def activeCount_def)

lemma rtInv_Wake [simp]: "rtInv env (Wake r) = rtInv env r"
  by (simp add: rtInv_def Wake_def activeCount_def)

text \<open>Changing what the workers' contexts and reporters hold.\<close>

lemma rtInv_updateActive:
  assumes inv: "rtInv env r"
    and f: "\<And>i a. ac_task (f i a) = ac_task a \<and> ac_jobID (f i a) = ac_jobID a
      \<and> ac_queue (f i a) = ac_queue a"
  shows "rtInv env (updateActive f r)"
proof -
  let ?m = "map (\<lambda>(i, a). (i, f i a))"
  have "claimsOf (?m act) = claimsOf act" and "map fst (?m act) = map fst act"
      and "affected (\<lambda>e. ac_queue (snd e) = q) (?m act) = affected (\<lambda>e. ac_queue (snd e) = q) act"
      and "(\<forall>e \<in> set (?m act). entryOK e) = (\<forall>e \<in> set act. entryOK e)" for act q
    by (induction act) (auto simp: f claimsOf_def entryOK_def)
  with inv show ?thesis
    by (simp add: rtInv_def updateActive_def activeCount_def del: map_map list.set_map)
qed

lemma rtInv_cancelWhere [intro]: "rtInv env r \<Longrightarrow> rtInv env (cancelWhere p c r)"
  unfolding cancelWhere_def by (rule rtInv_updateActive) simp_all

section \<open>Launching and finishing workers\<close>

lemma claimsOf_delete:
  assumes "distinct (map fst act)" "map_of act i = Some a"
  shows "claimsOf (filter (\<lambda>e. fst e \<noteq> i) act) = claimsOf act - {(i, ac_jobID a, ac_queue a)}"
proof -
  have "(i, b) \<in> set act \<longleftrightarrow> b = a" for b
    using assms by (metis Some_eq_map_of_iff option.inject)
  then show ?thesis by (fastforce simp: claimsOf_def)
qed

lemma affected_filter_le: "affected p (filter q xs) \<le> affected p xs"
  by (induction xs) auto

lemma rtInv_deleteActive:
  assumes "rtInv env r" "activeOf i r = Some a"
    and "rt_active r' = rt_active r" "rt_started r' = rt_started r"
    and "dbInv (claimsOf (rt_active r) - {(i, ac_jobID a, ac_queue a)}) (rt_db r')"
  shows "rtInv env (deleteActive i r')"
proof -
  have "int (activeCount q (deleteActive i r')) \<le> capacity env q" for q
  proof -
    have "activeCount q (deleteActive i r') \<le> activeCount q r"
      by (simp add: activeCount_def deleteActive_def assms(3) affected_filter_le)
    also have "int \<dots> \<le> capacity env q" using assms(1) by (simp add: rtInv_def)
    finally show ?thesis by simp
  qed
  moreover have "claimsOf (rt_active (deleteActive i r')) =
      claimsOf (rt_active r) - {(i, ac_jobID a, ac_queue a)}"
    using claimsOf_delete [of "rt_active r" i a] assms(1-3)
    by (simp add: deleteActive_def activeOf_def rtInv_def)
  ultimately show ?thesis
    using assms by (auto simp: rtInv_def deleteActive_def distinct_map_filter)
qed

lemma finishWithRetry_db:
  assumes "finishWithRetry n env clock uuids t a res te r = (err, r')"
    and "dbInv L (rt_db r)" "(task_ID t, task_JobID t, q) \<in> L"
  shows "dbInv (L - {(task_ID t, task_JobID t, q)}) (rt_db r')
    \<and> rt_active r' = rt_active r \<and> rt_started r' = rt_started r"
  using assms(1,2)
proof (induction n arbitrary: r)
  case 0
  then show ?case by (auto intro: dbInv_claims)
next
  case (Suc n)
  obtain res1 r1 where tx: "runTx (finishBody env (clock n) (uuids n) t a res te) r = (res1, r1)"
    by (cases "runTx (finishBody env (clock n) (uuids n) t a res te) r") auto
  have same: "rt_active r1 = rt_active r" "rt_started r1 = rt_started r"
    using runTx_fields(1,2) [of "finishBody env (clock n) (uuids n) t a res te" r]
    by (simp_all add: tx)
  from tx wp_finishBody [OF Suc.prems(2) assms(3)] show ?case
  proof (rule runTx_cases)
    fix e assume "res1 = Inl e" "rt_db r1 = rt_db r"
    then show ?thesis
      using Suc.IH [of r1] Suc.prems tx same by (auto split: if_splits intro: dbInv_claims)
  next
    fix x assume "res1 = Inr x" "dbInv (L - {(task_ID t, task_JobID t, q)}) (rt_db r1)"
    then show ?thesis using Suc.prems tx same by simp
  qed
qed

lemma completeTask_inv:
  assumes inv: "rtInv env r"
  shows "rtInv env (completeTask env clock uuids i outcome r)"
proof (cases "activeOf i r")
  case None
  then show ?thesis using inv by (simp add: completeTask_def)
next
  case (Some ac)
  then have entry: "(i, ac) \<in> set (rt_active r)"
    by (auto simp: activeOf_def dest: map_of_SomeD)
  then have ok: "task_ID (ac_task ac) = i" "task_JobID (ac_task ac) = ac_jobID ac"
    using inv by (force simp: rtInv_def entryOK_def)+
  have L: "(task_ID (ac_task ac), task_JobID (ac_task ac), ac_queue ac) \<in> claimsOf (rt_active r)"
    unfolding ok claimsOf_def using entry by force
  show ?thesis
    using rtInv_deleteActive [OF inv Some] finishWithRetry_db [OF _ rtInv_dbD [OF inv] L]
    by (auto simp: completeTask_def Some ok split: prod.split)
qed

lemma rtInv_launch:
  assumes inv: "rtInv env r"
    and d: "dbInv (insert (task_ID t, task_JobID t, task_Queue t) (claimsOf (rt_active r))) (rt_db r')"
    and r': "rt_active r' = rt_active r" "rt_started r' = rt_started r" "rt_started r"
    and new: "task_ID t \<notin> fst ` set (rt_active r)"
    and room: "int (activeCount (task_Queue t) r) < capacity env (task_Queue t)"
  shows "rtInv env (launch t a r')" "activeCount (task_Queue t) (launch t a r') = Suc (activeCount (task_Queue t) r)"
    "rt_started (launch t a r')"
proof -
  have keep: "filter (\<lambda>e. fst e \<noteq> task_ID t) (rt_active r) = rt_active r"
    using new by (force simp: filter_id_conv)
  have count: "activeCount q (launch t a r') = activeCount q r + (if q = task_Queue t then 1 else 0)"
    for q
    by (simp add: activeCount_def launch_def setActive_def r' keep affected_def)
  show "activeCount (task_Queue t) (launch t a r') = Suc (activeCount (task_Queue t) r)"
    by (simp add: count)
  show "rt_started (launch t a r')" by (simp add: launch_def setActive_def r')
  have "int (activeCount q (launch t a r')) \<le> capacity env q" for q
    using room inv by (auto simp: count rtInv_def)
  then show "rtInv env (launch t a r')"
    using inv d r' new
    by (simp add: rtInv_def launch_def setActive_def keep claimsOf_def)
      (auto simp: entryOK_def)
qed


text \<open>A claim never returns a task that a worker has.\<close>

lemma claimBody_result:
  "wp (claimBody env now u q) (\<lambda>(t, a) d'. \<exists>t0. nextTask now q d = Some t0 \<and>
     t = t0\<lparr>task_Status := TaskRunning, task_AttemptCount := task_AttemptCount t0 + 1,
            task_StartedAt := Some now\<rparr>) d"
proof -
  have rec: "wp (recomputeJob now i) Q d'" if "\<And>d''. Q () d''" for Q i d'
    by (rule wp_mono [OF always_wp [of "\<lambda>_. True"]]) (simp_all add: always_def that)
  show ?thesis
    unfolding claimBody_def Let_def by (intro tx_wp rec) simp_all
qed

lemma wp_conj: "wp m P d \<Longrightarrow> wp m Q d \<Longrightarrow> wp m (\<lambda>x d'. P x d' \<and> Q x d') d"
  by (auto simp: wp_def)

lemma not_active:
  assumes "rtInv env r" "t \<in> set (db_tasks (rt_db r))" "\<not> liveTask t"
  shows "task_ID t \<notin> fst ` set (rt_active r)"
proof
  assume "task_ID t \<in> fst ` set (rt_active r)"
  then have "task_ID t \<in> fst ` claimsOf (rt_active r)"
    by (force simp: claimsOf_def)
  with assms show False
    using claimed_liveD by (metis dbInv_def rtInv_dbD tablesOK_def)
qed

lemma claim_cases:
  assumes inv: "rtInv env r" and c: "claim live now u q r = (res, r')"
  obtains (none) "\<nexists>ta. res = Inr (Some ta)" "rtInv env r'"
      "rt_active r' = rt_active r" "rt_started r' = rt_started r"
    | (claimed) t a where "res = Inr (Some (t, a))" "task_Queue t = q"
      "task_ID t \<notin> fst ` set (rt_active r)"
      "rt_active r' = rt_active r" "rt_started r' = rt_started r"
      "dbInv (insert (task_ID t, task_JobID t, task_Queue t) (claimsOf (rt_active r))) (rt_db r')"
proof -
  obtain res1 where tx: "runTx (claimBody live now u q) r = (res1, r')"
    using c by (auto simp: claim_def split: prod.splits sum.splits)
  have same: "rt_active r' = rt_active r" "rt_started r' = rt_started r"
    using runTx_fields(1,2) [of "claimBody live now u q" r] by (simp_all add: tx)
  from tx wp_conj [OF wp_claimBody [OF rtInv_dbD [OF inv]] claimBody_result]
  show ?thesis
  proof (rule runTx_cases)
    fix e assume e: "res1 = Inl e" "rt_db r' = rt_db r"
    then have "\<nexists>ta. res = Inr (Some ta)"
      using c tx by (auto simp: claim_def split: if_splits)
    moreover have "rtInv env r'"
      using inv same rtInv_dbD [OF inv] e(2) by (auto intro: rtInv_same)
    ultimately show ?thesis using none same by blast
  next
    fix ta assume ta: "res1 = Inr ta" and "(case ta of (t, a) \<Rightarrow>
        dbInv (insert (task_ID t, task_JobID t, task_Queue t) (claimsOf (rt_active r)))) (rt_db r') \<and>
      (case ta of (t, a) \<Rightarrow> \<lambda>d'. \<exists>t0. nextTask now q (rt_db r) = Some t0 \<and>
        t = t0\<lparr>task_Status := TaskRunning, task_AttemptCount := task_AttemptCount t0 + 1,
            task_StartedAt := Some now\<rparr>) (rt_db r')"
    then obtain t a t0 where t: "ta = (t, a)"
        "dbInv (insert (task_ID t, task_JobID t, task_Queue t) (claimsOf (rt_active r))) (rt_db r')"
        "nextTask now q (rt_db r) = Some t0" and
        t': "t = t0\<lparr>task_Status := TaskRunning, task_AttemptCount := task_AttemptCount t0 + 1,
            task_StartedAt := Some now\<rparr>"
      by (cases ta) auto
    have "t0 \<in> set (db_tasks (rt_db r))" "task_Queue t0 = q" "\<not> liveTask t0"
      using nextTaskD [OF t(3)] by (auto simp: claimable_def dest: waiting_not_live)
    then have "task_ID t \<notin> fst ` set (rt_active r)" "task_Queue t = q"
      using not_active [OF inv, of t0] by (simp_all add: t')
    moreover have "res = Inr (Some (t, a))"
      using c tx ta t(1) by (simp add: claim_def)
    ultimately show ?thesis using claimed same t(2) by blast
  qed
qed

lemma dispatchQueue_inv:
  assumes "rtInv env r" "rt_started r" "int (activeCount q r) + int n \<le> capacity env q"
  shows "rtInv env (dispatchQueue n live clock uuids q r)"
  using assms
proof (induction n arbitrary: r)
  case 0
  then show ?case by simp
next
  case (Suc n)
  obtain res r1 where c: "claim live (clock n) (uuids n) q r = (res, r1)"
    by (cases "claim live (clock n) (uuids n) q r") auto
  from Suc.prems(1) c show ?case
  proof (cases rule: claim_cases)
    case none
    then show ?thesis by (auto simp: c split: sum.split option.split)
  next
    case (claimed t a)
    note l = rtInv_launch [OF Suc.prems(1) claimed(6) claimed(4,5) Suc.prems(2) claimed(3)]
    have "int (activeCount (task_Queue t) r) < capacity env (task_Queue t)"
      using Suc.prems(3) claimed(2) by simp
    note l = l [OF this, of a]
    have "rtInv env (dispatchQueue n live clock uuids q (launch t a r1))"
      using l Suc.prems(3) claimed(2) by (intro Suc.IH) auto
    then show ?thesis by (simp add: c claimed(1))
  qed
qed

lemma always_queuePaused: "always I (queuePaused q)"
  unfolding queuePaused_def by (intro tx_always)

lemma dispatchOne_inv:
  assumes inv: "rtInv env r" and "rt_started r" and cap: "capacity live q \<le> capacity env q"
  shows "rtInv env (dispatchOne live clock uuids q r)"
proof -
  obtain res r1 where p: "runPlain (queuePaused q) r = (res, r1)"
    by (cases "runPlain (queuePaused q) r") auto
  have inv1: "rtInv env r1" by (rule runPlain_inv [OF p inv always_queuePaused])
  have "rt_started r1" "activeCount q r1 = activeCount q r"
    using runPlain_fields(1,2) [of "queuePaused q" r] assms(2) by (simp_all add: p activeCount_def)
  moreover have "int (activeCount q r1) \<le> capacity env q" using inv1 by (simp add: rtInv_def)
  ultimately have "rtInv env (dispatchQueue (nat (capacity live q - int (activeCount q r1))) live clock uuids q r1)"
    using inv1 cap by (intro dispatchQueue_inv) auto
  with inv1 show ?thesis by (simp add: dispatchOne_def p split: sum.split)
qed


section \<open>The other operations\<close>


section \<open>The other operations\<close>

lemma runTx_inv_snd:
  "rtInv env r \<Longrightarrow> (\<And>L. dbInv L (rt_db r) \<Longrightarrow> wp m (\<lambda>_. dbInv L) (rt_db r)) \<Longrightarrow>
    rtInv env (snd (runTx m r))"
  by (cases "runTx m r") (auto intro: runTx_inv)

lemma runPlain_inv_snd:
  "rtInv env r \<Longrightarrow> (\<And>L. always (dbInv L) m) \<Longrightarrow> rtInv env (snd (runPlain m r))"
  by (cases "runPlain m r") (auto intro: runPlain_inv)

lemma always_capabilities: "always I (populateCancellationCapabilities jobs)"
  unfolding populateCancellationCapabilities_def Let_def by (intro tx_always)

lemma Enqueue_inv: "rtInv env r \<Longrightarrow> rtInv env (snd (Enqueue env u uuids clock spec r))"
proof (cases "validateJobSpec spec")
  case None
  assume inv: "rtInv env r"
  have tx: "rtInv env r1" if "runTx (enqueueBody env u uuids clock spec) r = (res, r1)" for res r1
    by (rule runTx_inv [OF that inv], erule wp_enqueueBody, rule validateJobSpec_tasks [OF None])
  have cap: "rtInv env r2" if "runPlain (populateCancellationCapabilities jobs) r1 = (res, r2)"
      "rtInv env r1" for res r1 r2 jobs
    using that always_capabilities by (rule runPlain_inv)
  show ?thesis
    using tx cap by (auto simp: Enqueue_def None split: prod.split sum.split)
qed (simp add: Enqueue_def)

lemma tx_then:
  assumes "rtInv env r" and "\<And>L. dbInv L (rt_db r) \<Longrightarrow> wp m (\<lambda>_. dbInv L) (rt_db r)"
    and "\<And>res r'. rtInv env r' \<Longrightarrow> rtInv env (snd (g res r'))"
  shows "rtInv env (snd (case runTx m r of (res, r') \<Rightarrow> g res r'))"
proof -
  obtain res r' where t: "runTx m r = (res, r')" by (cases "runTx m r")
  have "rtInv env r'" using t assms(1,2) by (rule runTx_inv)
  with assms(3) show ?thesis by (simp add: t)
qed

lemma plain_then:
  assumes "rtInv env r" and "\<And>L. always (dbInv L) m"
    and "\<And>res r'. rtInv env r' \<Longrightarrow> rtInv env (snd (g res r'))"
  shows "rtInv env (snd (case runPlain m r of (res, r') \<Rightarrow> g res r'))"
proof -
  obtain res r' where t: "runPlain m r = (res, r')" by (cases "runPlain m r")
  have "rtInv env r'" using t assms(1,2) by (rule runPlain_inv)
  with assms(3) show ?thesis by (simp add: t)
qed

lemma PauseJob_inv: "rtInv env r \<Longrightarrow> rtInv env (snd (PauseJob env now i a n r))"
  unfolding PauseJob_def by (rule tx_then) (auto intro: wp_pauseBody split: sum.split)

lemma wake_inv:
  assumes "rtInv env r" and "\<And>L. dbInv L (rt_db r) \<Longrightarrow> wp m (\<lambda>_. dbInv L) (rt_db r)"
  shows "rtInv env (snd (wakeOnSuccess (runTx m r)))"
  unfolding wakeOnSuccess_def by (rule tx_then [OF assms]) (auto split: sum.split)

lemma ResumeJob_inv: "rtInv env r \<Longrightarrow> rtInv env (snd (ResumeJob env now i a n r))"
  unfolding ResumeJob_def by (rule wake_inv) (auto intro: wp_resumeBody)

lemma RunJobNow_inv: "rtInv env r \<Longrightarrow> rtInv env (snd (RunJobNow env now i a n r))"
  unfolding RunJobNow_def by (rule wake_inv) (auto intro: wp_runNowBody)

lemma RetryTask_inv: "rtInv env r \<Longrightarrow> rtInv env (snd (RetryTask env now i a n r))"
  unfolding RetryTask_def by (rule wake_inv) (auto intro: wp_retryTaskBody)

lemma RetryJob_inv: "rtInv env r \<Longrightarrow> rtInv env (snd (RetryJob env now i a n r))"
  unfolding RetryJob_def by (rule tx_then) (auto intro: wp_retryJobBody split: sum.split)

lemma CancelTask_inv: "rtInv env r \<Longrightarrow> rtInv env (snd (CancelTask env now i a n r))"
  unfolding CancelTask_def by (rule tx_then) (auto intro: wp_cancelTaskBody split: sum.split)

lemma CancelJob_inv: "rtInv env r \<Longrightarrow> rtInv env (snd (CancelJob env now i a n r))"
  unfolding CancelJob_def
  by (rule tx_then) (auto intro!: wp_cancelJobBody plain_then tx_always split: sum.split)

lemma always_addEvent_inv: "always (dbInv L) (addEvent env now e)"
  by (rule always_addEvent) simp

lemma cancelJobs_inv: "rtInv env r \<Longrightarrow> rtInv env (snd (cancelJobs env clock a n reason ids r))"
proof (induction ids arbitrary: r reason)
  case (Cons i ids)
  obtain err r1 where c: "CancelJob env (clock (length ids)) i a n r = (err, r1)"
    by (cases "CancelJob env (clock (length ids)) i a n r")
  with CancelJob_inv [OF Cons.prems, of "clock (length ids)" i a n] have "rtInv env r1" by simp
  moreover from this have "rtInv env r2"
    if "runPlain (addEvent env (clock (length ids)) e) r1 = (res, r2)" for res r2 e
    using runPlain_inv [OF that _ always_addEvent_inv] by blast
  ultimately show ?case
    by (auto simp: c intro: Cons.IH split: sum.split prod.split)
qed simp

lemma CancelKinds_inv: "rtInv env r \<Longrightarrow> rtInv env (snd (CancelKinds env clock ks a n reason r))"
  unfolding CancelKinds_def
  by (auto intro!: plain_then tx_always cancelJobs_inv split: sum.split)

lemma ReportProgress_inv: "rtInv env r \<Longrightarrow> rtInv env (ReportProgress now i v m r)"
  unfolding ReportProgress_def Let_def
  by (auto split: option.split intro!: runTx_inv_snd rtInv_updateActive wp_reportBody)

lemma BeginCommit_inv: "rtInv env r \<Longrightarrow> rtInv env (snd (BeginCommit now c phase r))"
  unfolding BeginCommit_def
  by (auto split: option.split ctx.split sum.split intro!: tx_then wp_commitBody)

lemma Register_inv: "rtInv env r \<Longrightarrow> rtInv env (snd (Register kind b r))"
  by (simp add: Register_def)

lemma RegisterSchedule_inv: "rtInv env r \<Longrightarrow> rtInv env (snd (RegisterSchedule s b r))"
  by (simp add: RegisterSchedule_def)

lemma dbInv_tables:
  "db_jobs d' = db_jobs d \<Longrightarrow> db_tasks d' = db_tasks d \<Longrightarrow> dbInv L d \<Longrightarrow> dbInv L d'"
  by (simp add: dbInv_def)

lemma always_tables:
  assumes "\<And>d x d'. f d = Inr (x, d') \<Longrightarrow> db_jobs d' = db_jobs d \<and> db_tasks d' = db_tasks d"
  shows "always (dbInv L) (tx_stmt f)"
  by (rule always_stmt) (use assms in \<open>blast intro: dbInv_tables\<close>)

lemma always_updateSchedules: "always (dbInv L) (updateSchedules p f)"
  unfolding updateSchedules_def by (rule always_tables) auto

lemma always_claimSchedule: "always (dbInv L) (claimSchedule now s)"
  unfolding claimSchedule_def by (intro tx_always always_updateSchedules)

lemma always_ensureQueues: "always (dbInv L) (ensureQueueRows qs)"
  by (induction qs) (auto intro!: tx_always simp: dbInv_def)

lemma always_ensureSchedules: "always (dbInv L) (ensureSchedules now ss)"
  by (induction ss) (auto intro!: tx_always simp: dbInv_def)

lemma runSchedule_inv: "rtInv env r \<Longrightarrow> rtInv env (runSchedule env now u uuids clock s r)"
proof -
  assume inv: "rtInv env r"
  have 1: "rtInv env r1" if "runPlain (claimSchedule now s) r = (res, r1)" for res r1
    using that inv always_claimSchedule by (rule runPlain_inv)
  have 2: "rtInv env r2" if "Enqueue env u uuids clock spec r1 = (res, r2)" "rtInv env r1"
    for spec res r1 r2
    using Enqueue_inv [OF that(2), of u uuids clock spec] that(1) by simp
  show ?thesis
    unfolding runSchedule_def
    by (auto split: prod.split sum.split intro!: runPlain_inv_snd always_updateSchedules
        dest: 1 2)
qed

lemma fold_inv: "rtInv env r \<Longrightarrow> (\<And>x r. rtInv env r \<Longrightarrow> rtInv env (f x r)) \<Longrightarrow> rtInv env (fold f xs r)"
  by (induction xs arbitrary: r) auto

lemma runDueSchedules_inv: "rtInv env r \<Longrightarrow> rtInv env (runDueSchedules env now u uuids clock r)"
  unfolding runDueSchedules_def by (erule fold_inv) (rule runSchedule_inv)

lemma refreshStates_inv: "rtInv env r \<Longrightarrow> rtInv env (refreshStates sts r)"
proof (induction sts arbitrary: r)
  case (Cons st sts)
  obtain res r1 where p: "runPlain (tx_first (jobById (ss_LastJobID st))) r = (res, r1)"
    by (cases "runPlain (tx_first (jobById (ss_LastJobID st))) r")
  have "rtInv env r1" by (rule runPlain_inv [OF p Cons.prems]) (rule always_first)
  then show ?case
    by (auto simp: p intro!: Cons.IH runPlain_inv_snd always_updateSchedules split: sum.split)
qed simp

lemma refresh_inv: "rtInv env r \<Longrightarrow> rtInv env (refreshScheduleOutcomes r)"
proof -
  assume inv: "rtInv env r"
  obtain res r1 where
    p: "runPlain (tx_select (\<lambda>d. filter (\<lambda>st. ss_LastJobID st \<noteq> []) (db_schedules d))) r = (res, r1)"
    by (metis surj_pair)
  have "rtInv env r1" by (rule runPlain_inv [OF p inv]) (rule always_select)
  then show ?thesis
    by (auto simp: refreshScheduleOutcomes_def p intro!: refreshStates_inv split: sum.split)
qed

lemma RunSchedule_inv: "rtInv env r \<Longrightarrow> rtInv env (snd (RunSchedule env now mu u uuids clock key a n r))"
proof -
  assume inv: "rtInv env r"
  have "rtInv env r2" if "Enqueue env u uuids clock spec r = (res, r2)" for spec res r2
    using Enqueue_inv [OF inv, of u uuids clock spec] that by simp
  then show ?thesis
    using inv unfolding RunSchedule_def Let_def
    by (auto split: prod.split sum.split option.split
        intro!: runPlain_inv_snd always_updateSchedules always_addEvent_inv)
qed

lemma SetQueuePaused_inv: "rtInv env r \<Longrightarrow> rtInv env (snd (SetQueuePaused now q b a r))"
  unfolding SetQueuePaused_def
  by (rule plain_then) (auto intro!: always_tables split: sum.split)

lemma stopRoot_inv: "rtInv env r \<Longrightarrow> rtInv env (stopRoot r)"
  unfolding stopRoot_def cancelActive_def
  by (auto split: root_context.split intro!: rtInv_cancelWhere)

lemma loops_inv:
  "rtInv env r \<Longrightarrow> rtInv env (loopStarts now name r)"
  "rtInv env r \<Longrightarrow> rtInv env (snd (loopReturns env name panic r))"
  by (simp_all add: loopStarts_def loopReturns_def setLoop_def Let_def)

lemma claimsOf_keys: "fst ` claimsOf act = fst ` set act"
  by (force simp: claimsOf_def)

lemma recoverStaleTasks_inv: "rtInv env r \<Longrightarrow> rtInv env (snd (recoverStaleTasks env now before r))"
proof -
  assume inv: "rtInv env r"
  have stale: "wp (staleBody env now before (map fst (rt_active r)))
      (\<lambda>_. dbInv (claimsOf (rt_active r))) (rt_db r)"
    using rtInv_dbD [OF inv] by (rule wp_staleBody) (simp add: claimsOf_keys)
  obtain res r' where t: "runTx (staleBody env now before (map fst (rt_active r))) r = (res, r')"
    by (cases "runTx (staleBody env now before (map fst (rt_active r))) r")
  have "dbInv (claimsOf (rt_active r)) (rt_db r')"
    using runTx_cases [OF t stale] rtInv_dbD [OF inv] by metis
  moreover have "rt_active r' = rt_active r" "rt_started r' = rt_started r"
    using runTx_fields(1,2) [of "staleBody env now before (map fst (rt_active r))" r]
    by (simp_all add: t)
  ultimately have "rtInv env r'" using inv by (auto intro: rtInv_same)
  then show ?thesis by (simp add: recoverStaleTasks_def t split: sum.split)
qed

text \<open>The heartbeat only writes a column the invariant does not read.\<close>

lemma specStatus_image:
  assumes "\<And>t. task_Status (f t) = task_Status t \<and> task_Required (f t) = task_Required t"
  shows "specStatus c p (f ` T) = specStatus c p T"
  by (simp only: specStatus_def bex_simps liveTask_def assms)

lemma jobOK_image:
  assumes "\<And>t. task_Status (f t) = task_Status t \<and> task_Required (f t) = task_Required t"
  shows "jobOK (f ` T) j = jobOK T j"
  by (simp add: jobOK_def specStatus_image [OF assms])

lemma dbInv_quiet:
  assumes inv: "dbInv L d"
    and f: "\<And>t. task_Status (f t) = task_Status t \<and> task_Required (f t) = task_Required t
      \<and> task_ID (f t) = task_ID t \<and> task_JobID (f t) = task_JobID t
      \<and> task_Queue (f t) = task_Queue t \<and> task_CommitStartedAt (f t) = task_CommitStartedAt t
      \<and> task_AttemptCount (f t) = task_AttemptCount t
      \<and> task_MaxAttempts (f t) = task_MaxAttempts t"
  shows "dbInv L (updateTasks p f d)"
proof -
  let ?f = "\<lambda>t. if p t then f t else t"
  have set: "taskSet i (update_where p f (db_tasks d)) = ?f ` taskSet i (db_tasks d)" for i
    by (rule taskSet_update) (simp add: f)
  have "jobOK (?f ` T) j = jobOK T j" for T j
    by (rule jobOK_image) (simp add: f)
  moreover have "tablesOK L UNIV (db_jobs d) (update_where p f (db_tasks d))"
    using inv f by (intro tablesOK_update_tasks)
      (auto simp: dbInv_def rowOK_simple intro: tablesOK_mono)
  ultimately show ?thesis using inv by (simp add: dbInv_def tablesOK_def set)
qed

lemma heartbeatTick_inv: "rtInv env r \<Longrightarrow> rtInv env (heartbeatTick env tick now r)"
  unfolding heartbeatTick_def Let_def
  by (auto intro!: recoverStaleTasks_inv runPlain_inv_snd tx_always dbInv_quiet)

lemma Retain_inv: "rtInv env r \<Longrightarrow> rtInv env (snd (Retain now before r))"
proof -
  assume inv: "rtInv env r"
  let ?keep = "retainable before (now - 24 * hour)"
  let ?ids = "\<lambda>d. map job_ID (filter ?keep (db_jobs d))"
  obtain res r1 where p: "runPlain (tx_select ?ids) r = (res, r1)"
    by (metis surj_pair)
  have inv1: "rtInv env r1" by (rule runPlain_inv [OF p inv]) (rule always_select)
  have same: "rt_db r1 = rt_db r"
    using p by (auto simp: runPlain_def tx_select_def tx_stmt_def split: list.splits option.splits)
  have jobs: "jobs = ?ids (rt_db r)" if "res = Inr jobs" for jobs
    using p that by (auto simp: runPlain_def tx_select_def tx_stmt_def split: list.splits option.splits)
  have "terminalJobStatus (job_Status j)"
    if "j \<in> set (db_jobs (rt_db r1))" "job_ID j \<in> set (?ids (rt_db r))" for j
  proof -
    from that(2) obtain k where k: "k \<in> set (db_jobs (rt_db r))" "?keep k" "job_ID k = job_ID j"
      by auto
    with that(1) have "k = j"
      using dbInv_job_unique [OF rtInv_dbD [OF inv1], of k j] by (simp add: same)
    with k(2) show ?thesis by (simp add: retainable_def)
  qed
  then have "rtInv env (snd (runTx (retainBody (?ids (rt_db r))) r1))"
    by (intro runTx_inv_snd [OF inv1] wp_retainBody) assumption+
  then have tx: "rtInv env (snd (runTx (retainBody js) r1))" if "res = Inr js" for js
    using jobs [OF that] by simp
  show ?thesis
  proof (cases res)
    case (Inl e)
    with inv1 show ?thesis by (simp add: Retain_def p)
  next
    case (Inr js)
    obtain res2 r2 where t2: "runTx (retainBody js) r1 = (res2, r2)"
      by (cases "runTx (retainBody js) r1")
    with tx [OF Inr] inv1 show ?thesis by (simp add: Retain_def p Inr t2 split: sum.split)
  qed
qed

section \<open>Start-up\<close>

lemma Recover_inv: 
  assumes inv: "rtInv env r" and "rt_active r = []"
  shows "rtInv env (snd (Recover env now r))" "rt_active (snd (Recover env now r)) = []"
    "fst (Recover env now r) = None \<Longrightarrow>
      \<forall>t \<in> set (db_tasks (rt_db (snd (Recover env now r)))). \<not> liveTask t"
proof -
  have d: "dbInv {} (rt_db r)" using rtInv_dbD [OF inv] assms(2) by (simp add: claimsOf_def)
  obtain res r' where t: "runTx (recoverBody env now) r = (res, r')"
    by (cases "runTx (recoverBody env now) r")
  have same: "rt_active r' = []" "rt_started r' = rt_started r"
    using runTx_fields(1,2) [of "recoverBody env now" r] assms(2) by (simp_all add: t)
  have db: "dbInv {} (rt_db r')" and none: "isl res \<or> (\<forall>t \<in> set (db_tasks (rt_db r')). \<not> liveTask t)"
    using runTx_cases [OF t wp_recoverBody [OF d]] d by (metis sum.disc(1))+
  have "rtInv env r'"
    using inv same db assms(2) by (auto intro!: rtInv_same [OF inv] simp: claimsOf_def)
  then show "rtInv env (snd (Recover env now r))" "rt_active (snd (Recover env now r)) = []"
    using same by (simp_all add: Recover_def t split: sum.split)
  show "\<forall>t \<in> set (db_tasks (rt_db (snd (Recover env now r)))). \<not> liveTask t"
    if "fst (Recover env now r) = None"
    using that none by (auto simp: Recover_def t split: sum.splits)
qed

lemma rtInv_startFailed: "rtInv env r \<Longrightarrow> rt_active r = [] \<Longrightarrow> rtInv env (startFailed r)"
  by (simp add: rtInv_def startFailed_def activeCount_def)

lemma Start_inv: "rtInv env r \<Longrightarrow> rtInv env (snd (Start env now b c r))"
proof (cases "b \<and> \<not> rt_started r \<and> \<not> rt_starting r")
  case True
  assume inv: "rtInv env r"
  have act: "rt_active r = []" using True inv by (auto simp: rtInv_def)
  let ?r = "r\<lparr>rt_root := (case c of None \<Rightarrow> Live | Some c \<Rightarrow> Done c), rt_starting := True\<rparr>"
  obtain e1 r1 where p1: "runPlain ensureQueues ?r = (e1, r1)"
    by (cases "runPlain ensureQueues ?r")
  have i1: "rtInv env r1"
    by (rule runPlain_inv [OF p1]) (simp_all add: inv ensureQueues_def always_ensureQueues)
  have a1: "rt_active r1 = []" using runPlain_fields(1) [of ensureQueues ?r] by (simp add: p1 act)
  obtain e2 r2 where p2: "Recover env now r1 = (e2, r2)" by (cases "Recover env now r1")
  have i2: "rtInv env r2" "rt_active r2 = []" using Recover_inv [OF i1 a1, of now] by (simp_all add: p2)
  obtain e3 r3 where p3: "runPlain (ensureSchedules now (rt_schedules r2)) r2 = (e3, r3)"
    by (cases "runPlain (ensureSchedules now (rt_schedules r2)) r2")
  have i3: "rtInv env r3" by (rule runPlain_inv [OF p3 i2(1) always_ensureSchedules])
  have a3: "rt_active r3 = []"
    using runPlain_fields(1) [of "ensureSchedules now (rt_schedules r2)" r2] by (simp add: p3 i2)
  have "rtInv env (r3\<lparr>rt_started := True, rt_starting := False\<rparr>)"
    using i3 by (simp add: rtInv_def activeCount_def)
  then show ?thesis
    using True i1 a1 i2 i3 a3
    by (auto simp: Start_def Let_def p1 p2 p3 intro: rtInv_startFailed split: sum.split option.split)
qed (auto simp: Start_def)

lemma newRuntime_inv: "dbInv {} d \<Longrightarrow> rtInv env (newRuntime d)"
  using less_imp_le [OF capacity_pos]
  by (simp add: rtInv_def newRuntime_def claimsOf_def activeCount_def)

section \<open>Steps\<close>

definition emptyDb :: bgdb where
  "emptyDb = \<lparr>db_jobs = [], db_tasks = [], db_attempts = [], db_events = [], db_nextEvent = 1,
     db_queues = [], db_schedules = []\<rparr>"

text \<open>One operation each. \<open>crash\<close> is the death of the process at any moment between two
  transactions, after which a new process finds the tables as they were; \<open>faults\<close> lets the world
  decide anew which of the coming statements fail. Handlers return whatever they like. The capacity of a queue is read from
  the live settings in every round; \<open>env\<close> has an upper bound of what the rounds of a history read.\<close>

inductive bg_step :: "env \<Rightarrow> runtime \<Rightarrow> runtime \<Rightarrow> bool" for env where
  faults: "bg_step env r (r\<lparr>rt_faults := fs\<rparr>)"
| crash: "bg_step env r (newRuntime (rt_db r))"
| register: "bg_step env r (snd (Register kind present r))"
| register_schedule: "bg_step env r (snd (RegisterSchedule s hasBuild r))"
| start: "bg_step env r (snd (Start env now hasDB parent r))"
| stop: "bg_step env r (stopRoot r)"
| loop_starts: "bg_step env r (loopStarts now name r)"
| loop_returns: "bg_step env r (snd (loopReturns env name panic r))"
| enqueue: "bg_step env r (snd (Enqueue env uuid uuids clock spec r))"
| dispatch: "rt_started r \<Longrightarrow> capacity (env\<lparr>env_capacity := c\<rparr>) queue \<le> capacity env queue \<Longrightarrow>
    bg_step env r (dispatchOne (env\<lparr>env_capacity := c\<rparr>) clock uuids queue r)"
| complete: "bg_step env r (completeTask env clock newIDs i outcome r)"
| report: "bg_step env r (ReportProgress now i scaled message r)"
| commit: "bg_step env r (snd (BeginCommit now c phase r))"
| pause: "bg_step env r (snd (PauseJob env now i actor name r))"
| resume: "bg_step env r (snd (ResumeJob env now i actor name r))"
| run_now: "bg_step env r (snd (RunJobNow env now i actor name r))"
| cancel_job: "bg_step env r (snd (CancelJob env now i actor name r))"
| cancel_task: "bg_step env r (snd (CancelTask env now i actor name r))"
| cancel_kinds: "bg_step env r (snd (CancelKinds env clock kinds actor name reason r))"
| retry_job: "bg_step env r (snd (RetryJob env now i actor name r))"
| retry_task: "bg_step env r (snd (RetryTask env now i actor name r))"
| heartbeat: "bg_step env r (heartbeatTick env tick now r)"
| retain: "bg_step env r (snd (Retain now before r))"
| run_due: "bg_step env r (runDueSchedules env now uuidOf uuidsOf clockOf r)"
| refresh: "bg_step env r (refreshScheduleOutcomes r)"
| run_schedule: "bg_step env r (snd (RunSchedule env now manual uuid uuids clock key actor name r))"
| pause_queue: "bg_step env r (snd (SetQueuePaused now queue paused actor r))"

lemma step_dispatch: "rt_started r \<Longrightarrow> bg_step env r (dispatchOne env clock uuids queue r)"
  using bg_step.dispatch [where env = env and c = "env_capacity env"] by simp

lemma rtInv_crash: "rtInv env r \<Longrightarrow> rtInv env (newRuntime (rt_db r))"
  by (intro newRuntime_inv dbInv_claims [OF rtInv_dbD]) simp_all

lemma bg_step_inv: "rtInv env r \<Longrightarrow> bg_step env r r' \<Longrightarrow> rtInv env r'"
  by (erule bg_step.cases)
    (simp_all add: rtInv_crash Register_inv RegisterSchedule_inv Start_inv stopRoot_inv loops_inv
      Enqueue_inv dispatchOne_inv completeTask_inv ReportProgress_inv BeginCommit_inv PauseJob_inv
      ResumeJob_inv RunJobNow_inv CancelJob_inv CancelTask_inv CancelKinds_inv RetryJob_inv
      RetryTask_inv heartbeatTick_inv Retain_inv runDueSchedules_inv refresh_inv RunSchedule_inv
      SetQueuePaused_inv)

lemma emptyDb_inv: "dbInv {} emptyDb"
  by (simp add: dbInv_def tablesOK_def emptyDb_def claimedLive_def)

interpretation bg: invariant_system "\<lambda>r. r = newRuntime emptyDb" "bg_step env" "rtInv env"
  for env :: env
proof
  show "rtInv env r" if "r = newRuntime emptyDb" for r
    using newRuntime_inv [OF emptyDb_inv] that by simp
  show "rtInv env r'" if "rtInv env r" "bg_step env r r'" for r r'
    using that by (rule bg_step_inv)
qed

text \<open>The states a process can be in after any history of processes on one database.\<close>

definition bg_reachable :: "env \<Rightarrow> runtime \<Rightarrow> bool" where
  "bg_reachable env r \<longleftrightarrow> (bg_step env)\<^sup>*\<^sup>* (newRuntime emptyDb) r"

lemma reachable_rtInv: "bg_reachable env r \<Longrightarrow> rtInv env r"
  unfolding bg_reachable_def by (rule bg.reachable_inv [OF refl])

lemma reachable_init [simp]: "bg_reachable env (newRuntime emptyDb)"
  by (simp add: bg_reachable_def)

lemma reachable_step: "bg_reachable env r \<Longrightarrow> bg_step env r r' \<Longrightarrow> bg_reachable env r'"
  unfolding bg_reachable_def by (rule rtranclp.rtrancl_into_rtrancl)

end
