(* ===== verification/BgClaims.thy ===== *)
theory BgClaims
  imports BgSystem
begin

text \<open>The properties of the background runtime, each followed by an instance on a concrete history: a process
  starts on an empty database, a job with one encoding task is enqueued, a worker takes the task, and the worker
  begins its commit.\<close>

definition demoEnv :: env where
  "demoEnv = \<lparr>env_redact = id, env_sha256 = id, env_worker = ''w'', env_capacity = None\<rparr>"

definition demoTask :: task_spec where
  "demoTask = \<lparr>ts_Kind = ''e'', ts_Queue = QueueFFmpeg, ts_Phase = [], ts_PayloadVersion = 1,
     ts_Payload = Encodes ''p'', ts_DedupeKey = ''d'', ts_Priority = 0, ts_Required = True,
     ts_Weight = 1, ts_MaxAttempts = 2, ts_RunAfter = None, ts_ParentTaskID = []\<rparr>"

definition demoSpec :: job_spec where
  "demoSpec = \<lparr>js_Kind = ''v'', js_Visibility = VisibilityUser, js_OwnerID = Some 7,
     js_SubjectType = ''f'', js_SubjectID = ''1'', js_IdempotencyKey = ''k'', js_Label = ''l'',
     js_Pausable = True, js_Tasks = [demoTask]\<rparr>"

definition demoStarted :: runtime where
  "demoStarted = snd (Start demoEnv 0 True None
     (snd (Register ''e'' True (newRuntime emptyDb))))"

definition demoQueued :: runtime where
  "demoQueued = snd (Enqueue demoEnv ''j'' (\<lambda>_. ''t'') (\<lambda>i. int i) demoSpec demoStarted)"

definition demoRunning :: runtime where
  "demoRunning = dispatchOne demoEnv (\<lambda>_. 10) (\<lambda>_. ''a'') QueueFFmpeg demoQueued"

definition demoCommitting :: runtime where
  "demoCommitting = snd (BeginCommit 20 (TaskCtx ''t'') ''x'' demoRunning)"

definition demoCanceling :: runtime where
  "demoCanceling = snd (CancelJob demoEnv 20 ''j'' 1 ''x'' demoRunning)"

lemma demoStarted_reachable: "bg_reachable demoEnv demoStarted"
  unfolding demoStarted_def
  by (intro reachable_step [OF reachable_step [OF reachable_init bg_step.register] bg_step.start])

lemma demoQueued_reachable: "bg_reachable demoEnv demoQueued"
  unfolding demoQueued_def by (intro reachable_step [OF demoStarted_reachable bg_step.enqueue])

lemma demoQueued_started: "rt_started demoQueued"
  by code_simp

lemma demoRunning_reachable: "bg_reachable demoEnv demoRunning"
  unfolding demoRunning_def
  by (intro reachable_step [OF demoQueued_reachable step_dispatch] demoQueued_started)

lemma demoCommitting_reachable: "bg_reachable demoEnv demoCommitting"
  unfolding demoCommitting_def by (intro reachable_step [OF demoRunning_reachable bg_step.commit])

lemma demoCanceling_reachable: "bg_reachable demoEnv demoCanceling"
  unfolding demoCanceling_def by (intro reachable_step [OF demoRunning_reachable bg_step.cancel_job])

lemmas demo_reachable = demoCanceling_reachable
  demoStarted_reachable demoQueued_reachable demoRunning_reachable demoCommitting_reachable

section \<open>Jobs and tasks\<close>

text \<open>C5: In every reachable state each job row has at least one task, its status is the abstract
  reduction of its task set and its two request columns, finished_at is set exactly when the
  status is terminal, and its progress lies in 0..10000 and is 10000 for the successful
  statuses.\<close>

theorem job_reflects_tasks:
  assumes "bg_reachable env r" and "j \<in> set (db_jobs (rt_db r))"
  shows "(\<exists>t \<in> set (db_tasks (rt_db r)). task_JobID t = job_ID j) \<and>
    job_Status j = specStatus (job_CancelRequestedAt j \<noteq> None) (job_PauseRequestedAt j \<noteq> None)
      {t \<in> set (db_tasks (rt_db r)). task_JobID t = job_ID j} \<and>
    (job_FinishedAt j \<noteq> None \<longleftrightarrow> terminalJobStatus (job_Status j)) \<and>
    0 \<le> job_Progress j \<and> job_Progress j \<le> 10000 \<and>
    (job_Status j \<in> {JobSucceeded, JobSucceededWithWarnings} \<longrightarrow> job_Progress j = 10000)"
  using dbInv_jobOK [OF rtInv_dbD [OF reachable_rtInv [OF assms(1)]] assms(2)]
  unfolding jobOK_def taskSet_def by blast

theorem job_reflects_tasks_witness:
  "bg_reachable demoEnv demoRunning \<and>
   (\<exists>j \<in> set (db_jobs (rt_db demoRunning)). job_Status j = JobRunning \<and>
     job_Status j = specStatus (job_CancelRequestedAt j \<noteq> None) (job_PauseRequestedAt j \<noteq> None)
       {t \<in> set (db_tasks (rt_db demoRunning)). task_JobID t = job_ID j})"
proof -
  have "db_jobs (rt_db demoRunning) \<noteq> [] \<and>
      job_Status (hd (db_jobs (rt_db demoRunning))) = JobRunning"
    by code_simp
  then show ?thesis
    using demoRunning_reachable
      job_reflects_tasks [OF demoRunning_reachable, of "hd (db_jobs (rt_db demoRunning))"]
    by (intro conjI bexI [of _ "hd (db_jobs (rt_db demoRunning))"]) simp_all
qed

text \<open>C8: In every reachable state attempt counters are not negative, a task in a worker's hands has
  used at most max_attempts attempts, a waiting task has an attempt left, and a cancel-requested
  task has not crossed its commit fence.\<close>

theorem attempts_within_budget:
  assumes "bg_reachable env r" and "t \<in> set (db_tasks (rt_db r))"
  shows "0 \<le> task_AttemptCount t \<and>
    (liveTask t \<longrightarrow> task_AttemptCount t \<le> task_MaxAttempts t) \<and>
    (waitingTask t \<longrightarrow> task_AttemptCount t < task_MaxAttempts t) \<and>
    (task_Status t = TaskCancelRequested \<longrightarrow> task_CommitStartedAt t = None)"
  using rtInv_dbD [OF reachable_rtInv [OF assms(1)]] assms(2)
  by (auto simp: dbInv_def tablesOK_def taskOK_def)

theorem attempts_within_budget_witness:
  "\<exists>t. t \<in> set (db_tasks (rt_db demoRunning)) \<and> liveTask t \<and>
     task_AttemptCount t \<le> task_MaxAttempts t"
proof -
  let ?t = "hd (db_tasks (rt_db demoRunning))"
  have t: "db_tasks (rt_db demoRunning) \<noteq> [] \<and> liveTask ?t" by code_simp
  then have "?t \<in> set (db_tasks (rt_db demoRunning))" by simp
  with attempts_within_budget [OF demoRunning_reachable, of ?t] t show ?thesis by blast
qed

section \<open>Workers\<close>

lemma wp_recompute_any:
  assumes "\<And>d'. db_tasks d' = db_tasks d \<Longrightarrow> map job_ID (db_jobs d') = map job_ID (db_jobs d) \<Longrightarrow> Q () d'"
  shows "wp (recomputeJob now i) Q d"
  unfolding recomputeJob_def
  by (intro tx_wp assms) (simp_all add: map_update_where)


lemma claimBody_spec:
  "wp (claimBody env now u q) (\<lambda>(t, a) d'. \<exists>t0. nextTask now q d = Some t0 \<and>
     task_ID t = task_ID t0 \<and> att_Number a = task_AttemptCount t0 + 1 \<and> att_TaskID a = task_ID t0 \<and>
     db_tasks d' = update_where (\<lambda>t'. task_ID t' = task_ID t0 \<and> waitingTask t'
       \<and> dispatchableJob d (task_JobID t')) (startRow now) (db_tasks d)) d"
  unfolding claimBody_def Let_def by (intro tx_wp wp_recompute_any) simp_all

text \<open>What a round of the dispatcher does to the rows: no row becomes waiting, and only waiting rows change.\<close>

definition rowsStarted :: "bgdb \<Rightarrow> bgdb \<Rightarrow> bool" where
  "rowsStarted d d' \<longleftrightarrow> (\<forall>t \<in> set (db_tasks d'). waitingTask t \<longrightarrow> t \<in> set (db_tasks d)) \<and>
     (\<forall>t \<in> set (db_tasks d). \<not> waitingTask t \<longrightarrow> t \<in> set (db_tasks d'))"

definition waitingIn :: "bgdb \<Rightarrow> string \<Rightarrow> bool" where
  "waitingIn d i \<longleftrightarrow> (\<exists>t \<in> set (db_tasks d). task_ID t = i \<and> waitingTask t)"

text \<open>A worker of a queue whose task waited before and runs now.\<close>

definition startedFrom :: "string \<Rightarrow> bgdb \<Rightarrow> bgdb \<Rightarrow> string \<times> active_task \<Rightarrow> bool" where
  "startedFrom q d d' e \<longleftrightarrow> ac_queue (snd e) = q \<and>
     (\<exists>t \<in> set (db_tasks d). task_ID t = fst e \<and> task_JobID t = ac_jobID (snd e) \<and> task_Queue t = q \<and> waitingTask t) \<and>
     (\<exists>t \<in> set (db_tasks d'). task_ID t = fst e \<and> task_Status t = TaskRunning)"

lemma startRow_running [simp]: "task_Status (startRow now t) = TaskRunning" "\<not> waitingTask (startRow now t)" "task_ID (startRow now t) = task_ID t"
  by (simp_all add: startRow_def waitingTask_def)

lemma claim_starts:
  assumes "claim live now u q r = (res, r')"
  obtains (none) "\<nexists>ta. res = Inr (Some ta)" "rt_db r' = rt_db r" "rt_active r' = rt_active r"
    | (some) t a where "res = Inr (Some (t, a))" "rt_active r' = rt_active r" "rowsStarted (rt_db r) (rt_db r')"
      "\<forall>b. ac_queue b = task_Queue t \<and> ac_jobID b = task_JobID t \<longrightarrow> startedFrom q (rt_db r) (rt_db r') (task_ID t, b)"
      "task_Queue t = q" "waitingIn (rt_db r) (task_ID t)"
proof -
  obtain res1 where tx: "runTx (claimBody live now u q) r = (res1, r')"
    using assms by (auto simp: claim_def split: prod.splits sum.splits)
  have same: "rt_active r' = rt_active r" using runTx_fields(1) [of "claimBody live now u q" r] by (simp add: tx)
  from tx wp_conj [OF claimBody_spec claimBody_result] show ?thesis
  proof (rule runTx_cases)
    fix e assume "res1 = Inl e" "rt_db r' = rt_db r"
    with same show ?thesis using assms tx none by (auto simp: claim_def split: if_splits)
  next
    fix ta assume ta: "res1 = Inr ta"
      and "(case ta of (t, a) \<Rightarrow> \<lambda>d'. \<exists>t0. nextTask now q (rt_db r) = Some t0 \<and> task_ID t = task_ID t0 \<and>
        att_Number a = task_AttemptCount t0 + 1 \<and> att_TaskID a = task_ID t0 \<and>
        db_tasks d' = update_where (\<lambda>t'. task_ID t' = task_ID t0 \<and> waitingTask t' \<and> dispatchableJob (rt_db r) (task_JobID t')) (startRow now) (db_tasks (rt_db r))) (rt_db r') \<and>
      (case ta of (t, a) \<Rightarrow> \<lambda>d'. \<exists>t0. nextTask now q (rt_db r) = Some t0 \<and>
        t = t0\<lparr>task_Status := TaskRunning, task_AttemptCount := task_AttemptCount t0 + 1, task_StartedAt := Some now\<rparr>) (rt_db r')"
    then obtain t a t0 where t: "ta = (t, a)" "nextTask now q (rt_db r) = Some t0" "task_ID t = task_ID t0" "task_JobID t = task_JobID t0"
        "task_Queue t = task_Queue t0"
      and rows: "db_tasks (rt_db r') = update_where (\<lambda>t'. task_ID t' = task_ID t0 \<and> waitingTask t' \<and> dispatchableJob (rt_db r) (task_JobID t'))
        (startRow now) (db_tasks (rt_db r))"
      by (cases ta) auto
    have t0: "t0 \<in> set (db_tasks (rt_db r))" "task_Queue t0 = q" "waitingTask t0" "dispatchableJob (rt_db r) (task_JobID t0)"
      using nextTaskD [OF t(2)] by (auto simp: claimable_def)
    have started: "rowsStarted (rt_db r) (rt_db r')" by (auto simp: rowsStarted_def rows set_update_where)
    have "startRow now t0 \<in> set (db_tasks (rt_db r'))" using t0 by (auto simp: rows set_update_where)
    then have "startedFrom q (rt_db r) (rt_db r') (task_ID t, b)" if "ac_queue b = task_Queue t" "ac_jobID b = task_JobID t" for b
      using that t(3-5) t0 unfolding startedFrom_def
      by (intro conjI bexI [where A = "set (db_tasks (rt_db r))" and x = t0] bexI [where A = "set (db_tasks (rt_db r'))" and x = "startRow now t0"])
        simp_all
    moreover have "res = Inr (Some (t, a))" using assms tx ta t(1) by (simp add: claim_def)
    ultimately show ?thesis using some same started t(3,5) t0 by (auto simp: waitingIn_def)
  qed
qed

lemma rowsStarted_trans: "rowsStarted d d1 \<Longrightarrow> rowsStarted d1 d2 \<Longrightarrow> rowsStarted d d2"
  unfolding rowsStarted_def by blast

lemma startedFrom_mono:
  "startedFrom q d1 d2 e \<Longrightarrow> rowsStarted d d1 \<Longrightarrow> startedFrom q d d2 e"
  "startedFrom q d d1 e \<Longrightarrow> rowsStarted d1 d2 \<Longrightarrow> startedFrom q d d2 e"
proof -
  show "startedFrom q d d2 e" if "startedFrom q d1 d2 e" "rowsStarted d d1"
    using that unfolding startedFrom_def rowsStarted_def by blast
  have "\<not> waitingTask t" if "task_Status t = TaskRunning" for t using that by (simp add: waitingTask_def)
  then show "startedFrom q d d2 e" if "startedFrom q d d1 e" "rowsStarted d1 d2"
    using that unfolding startedFrom_def rowsStarted_def by blast
qed

lemma dispatchQueue_starts:
  assumes "r' = dispatchQueue n live clock uuids q r"
  shows "activeCount q r' \<le> activeCount q r + n \<and> (\<forall>p. p \<noteq> q \<longrightarrow> activeCount p r' \<le> activeCount p r) \<and>
    (\<forall>e \<in> set (rt_active r') - set (rt_active r). startedFrom q (rt_db r) (rt_db r') e) \<and>
    (\<forall>e \<in> set (rt_active r). \<not> waitingIn (rt_db r) (fst e) \<longrightarrow> e \<in> set (rt_active r')) \<and> rowsStarted (rt_db r) (rt_db r')"
  using assms
proof (induction n arbitrary: r)
  case 0
  then show ?case by (simp add: rowsStarted_def)
next
  case (Suc n)
  obtain res r1 where c: "claim live (clock n) (uuids n) q r = (res, r1)" by (metis surj_pair)
  from c show ?case
  proof (cases rule: claim_starts)
    case none
    then have "r' = r1" using Suc.prems by (auto simp: c split: sum.split option.split)
    with none(2,3) show ?thesis by (simp add: activeCount_def rowsStarted_def)
  next
    case (some t a)
    let ?r = "launch t a r1"
    obtain b where b: "rt_active ?r = filter (\<lambda>e. fst e \<noteq> task_ID t) (rt_active r) @ [(task_ID t, b)]" "ac_queue b = task_Queue t"
        "ac_jobID b = task_JobID t"
      by (simp add: launch_def setActive_def some(2))
    have db: "rt_db ?r = rt_db r1" by (simp add: launch_def setActive_def)
    have start: "startedFrom q (rt_db r) (rt_db r1) (task_ID t, b)" using some(4) b(2,3) by blast
    note q = some(5)
    have count: "activeCount p ?r \<le> activeCount p r + (if p = q then 1 else 0)" for p
      using affected_filter_le [of "\<lambda>e. ac_queue (snd e) = p" "\<lambda>e. fst e \<noteq> task_ID t" "rt_active r"]
      by (auto simp: activeCount_def b q affected_def)
    have r': "r' = dispatchQueue n live clock uuids q ?r" using Suc.prems some(1) by (simp add: c)
    note IH = Suc.IH [OF r', unfolded db]
    note wait = some(6)
    have kept: "e \<in> set (rt_active r')" if "e \<in> set (rt_active r)" "\<not> waitingIn (rt_db r) (fst e)" for e
    proof -
      have "e \<in> set (rt_active ?r)" using that wait by (auto simp: b)
      moreover have "\<not> waitingIn (rt_db r1) (fst e)" using that(2) some(3) by (auto simp: waitingIn_def rowsStarted_def)
      ultimately show ?thesis using IH by blast
    qed
    have new: "startedFrom q (rt_db r) (rt_db r') e" if "e \<in> set (rt_active r')" "e \<notin> set (rt_active r)" for e
    proof (cases "e \<in> set (rt_active ?r)")
      case True
      with that(2) have "e = (task_ID t, b)" by (auto simp: b)
      with start IH show ?thesis using startedFrom_mono(2) by blast
    next
      case False
      with that(1) IH some(3) show ?thesis using startedFrom_mono(1) by blast
    qed
    have "activeCount q r' \<le> activeCount q r + Suc n" using IH count [of q] by simp
    moreover have "activeCount p r' \<le> activeCount p r" if "p \<noteq> q" for p using IH count [of p] that by (auto intro: le_trans)
    ultimately show ?thesis using IH kept new rowsStarted_trans [OF some(3)] by blast
  qed
qed

text \<open>C15: A round of the dispatcher for one queue, taken as one step from any state whatever
  (reachable or not) and with whatever capacity the live settings give at that moment, leaves
  the queue with no more workers than the larger of what it had and that capacity, and no other
  queue with more than it had. Every worker it starts belongs to that queue, which is known and
  not paused, in a runtime that is not stopping, for a task whose row waited before the round
  and is running after it. A worker whose task does not wait keeps its entry; no row becomes
  waiting and no row that did not wait changes.\<close>

theorem dispatch_within_capacity:
  assumes "r' = dispatchOne live clock uuids q r"
  shows "int (activeCount q r') \<le> max (int (activeCount q r)) (capacity live q) \<and>
    (\<forall>p. p \<noteq> q \<longrightarrow> activeCount p r' \<le> activeCount p r) \<and>
    (\<forall>e \<in> set (rt_active r') - set (rt_active r). rootAlive r \<and>
       (\<exists>s. find (\<lambda>s. qs_Name s = q) (db_queues (rt_db r)) = Some s \<and> \<not> qs_Paused s) \<and> startedFrom q (rt_db r) (rt_db r') e) \<and>
    (\<forall>e \<in> set (rt_active r). \<not> waitingIn (rt_db r) (fst e) \<longrightarrow> e \<in> set (rt_active r')) \<and> rowsStarted (rt_db r) (rt_db r')"
proof -
  obtain res r1 where p: "runPlain (queuePaused q) r = (res, r1)" by (metis surj_pair)
  then have r1: "rt_db r1 = rt_db r" "rt_active r1 = rt_active r" "rootAlive r1 = rootAlive r"
    and paused: "res = Inr b \<Longrightarrow> \<exists>s. find (\<lambda>s. qs_Name s = q) (db_queues (rt_db r)) = Some s \<and> qs_Paused s = b" for b
    by (auto simp: runPlain_def queuePaused_def tx_bind_def tx_first_def tx_stmt_def tx_return_def rootAlive_def
        split: list.splits option.splits)
  show ?thesis
  proof (cases "\<exists>b. res = Inr b \<and> rootAlive r \<and> \<not> b")
    case True
    then have r': "r' = dispatchQueue (nat (capacity live q - int (activeCount q r1))) live clock uuids q r1"
      by (auto simp: assms dispatchOne_def p r1(3))
    have same: "activeCount p r1 = activeCount p r" for p by (simp add: activeCount_def r1(2))
    from True paused obtain s where "find (\<lambda>s. qs_Name s = q) (db_queues (rt_db r)) = Some s" "\<not> qs_Paused s" by blast
    with dispatchQueue_starts [OF r', unfolded r1(1,2) same] True show ?thesis by auto
  next
    case False
    then have "r' = r1" by (auto simp: assms dispatchOne_def p r1(3) split: sum.split)
    with r1(1,2) show ?thesis by (simp add: activeCount_def rowsStarted_def)
  qed
qed

theorem dispatch_within_capacity_witness:
  "map fst (rt_active demoRunning) = [''t''] \<and> int (activeCount QueueFFmpeg demoRunning) \<le> 1 \<and>
   startedFrom QueueFFmpeg (rt_db demoQueued) (rt_db demoRunning) (hd (rt_active demoRunning))"
proof -
  have "map fst (rt_active demoRunning) = [''t''] \<and> rt_active demoQueued = []" by code_simp
  moreover have "capacity demoEnv QueueFFmpeg = 1" by code_simp
  ultimately show ?thesis using dispatch_within_capacity [OF demoRunning_def] by (auto simp: activeCount_def)
qed



end
