(* ===== verification/BgFence.thy ===== *)
theory BgFence
  imports BgClaims
begin

text \<open>
  The commit fence: what an operator can no longer do once a worker has begun irreversible work,
  and what a worker can no longer do once a cancellation was requested.
\<close>

section \<open>Evaluation in a world without faults\<close>

section \<open>The commit fence\<close>

lemma runTx_False:
  assumes "wp m (\<lambda>_ _. False) (rt_db r)"
  obtains e r' where "runTx m r = (Inl e, r')" "rt_db r' = rt_db r" "rt_active r' = rt_active r"
proof -
  obtain res r' where t: "runTx m r = (res, r')" by (cases "runTx m r")
  have "rt_active r' = rt_active r" using runTx_fields(1) [of m r] by (simp add: t)
  with runTx_cases [OF t assms] that t show ?thesis by metis
qed

lemma committing_affected:
  "t \<in> set (db_tasks d) \<Longrightarrow> committingTask t \<Longrightarrow> task_JobID t = i \<Longrightarrow>
    0 < affected (\<lambda>t. task_JobID t = i \<and> committingTask t) (db_tasks d)"
  by (metis (mono_tags, lifting) affected_0_iff neq0_conv)

text \<open>C1: In every reachable state of the background runtime, once a task has crossed its commit
  fence (running or cancel-requested with commit_started_at set), CancelJob, PauseJob and
  CancelTask all fail and change neither the database nor the active workers.\<close>

theorem commit_fence:
  assumes "bg_reachable env r" "t \<in> set (db_tasks (rt_db r))" "committingTask t"
  shows "fst (CancelJob env now (task_JobID t) actor name r) \<noteq> None \<and>
    fst (PauseJob env now (task_JobID t) actor name r) \<noteq> None \<and>
    fst (CancelTask env now (task_ID t) actor name r) \<noteq> None \<and>
    (\<forall>r' \<in> {snd (CancelJob env now (task_JobID t) actor name r),
        snd (PauseJob env now (task_JobID t) actor name r),
        snd (CancelTask env now (task_ID t) actor name r)}.
      rt_db r' = rt_db r \<and> rt_active r' = rt_active r)"
proof -
  note inv = rtInv_dbD [OF reachable_rtInv [OF assms(1)]]
  have pos: "0 < affected (\<lambda>t'. task_JobID t' = task_JobID t \<and> committingTask t') (db_tasks (rt_db r))"
    using committing_affected [OF assms(2,3) refl] .
  have row: "taskById (task_ID t) (rt_db r) = Some t" by (rule dbInv_taskById [OF inv assms(2)])
  have 1: "wp (cancelJobBody env now (task_JobID t) actor name) (\<lambda>_ _. False) (rt_db r)"
    unfolding cancelJobBody_def countCommitting_def by (intro tx_wp) (use pos in simp)
  have 2: "wp (pauseBody env now (task_JobID t) actor name) (\<lambda>_ _. False) (rt_db r)"
    unfolding pauseBody_def countCommitting_def by (intro tx_wp) (use pos in simp)
  have 3: "wp (cancelTaskBody env now (task_ID t) actor name) (\<lambda>_ _. False) (rt_db r)"
    unfolding cancelTaskBody_def
    by (intro tx_wp) (use row assms(3) in \<open>simp_all add: committingTask_def\<close>)
  obtain e1 r1 where 1: "runTx (cancelJobBody env now (task_JobID t) actor name) r = (Inl e1, r1)"
      "rt_db r1 = rt_db r" "rt_active r1 = rt_active r"
    using 1 by (rule runTx_False)
  obtain e2 r2 where 2: "runTx (pauseBody env now (task_JobID t) actor name) r = (Inl e2, r2)"
      "rt_db r2 = rt_db r" "rt_active r2 = rt_active r"
    using 2 by (rule runTx_False)
  obtain e3 r3 where 3: "runTx (cancelTaskBody env now (task_ID t) actor name) r = (Inl e3, r3)"
      "rt_db r3 = rt_db r" "rt_active r3 = rt_active r"
    using 3 by (rule runTx_False)
  show ?thesis
    using 1 2 3 by (simp add: CancelJob_def PauseJob_def CancelTask_def)
qed

theorem commit_fence_witness:
  "\<exists>t \<in> set (db_tasks (rt_db demoCommitting)). committingTask t \<and>
     fst (CancelJob demoEnv 30 (task_JobID t) 1 ''x'' demoCommitting) \<noteq> None \<and>
     rt_db (snd (CancelTask demoEnv 30 (task_ID t) 1 ''x'' demoCommitting)) = rt_db demoCommitting"
proof -
  let ?t = "hd (db_tasks (rt_db demoCommitting))"
  have "db_tasks (rt_db demoCommitting) \<noteq> [] \<and> committingTask ?t" by code_simp
  then have t: "?t \<in> set (db_tasks (rt_db demoCommitting))" "committingTask ?t" by auto
  from t commit_fence [OF demoCommitting_reachable t, of 30 1 "''x''"] show ?thesis by blast
qed

lemma commitBody_spec:
  "wp (commitBody now i p) (\<lambda>_ d'. \<exists>t. taskById i d = Some t \<and> task_Status t = TaskRunning \<and>
     (\<exists>j. jobById (task_JobID t) d = Some j \<and> job_CancelRequestedAt j = None \<and>
        job_PauseRequestedAt j = None) \<and>
     db_tasks d' = update_where (\<lambda>t'. task_ID t' = i \<and> task_Status t' = TaskRunning
        \<and> task_CancelRequestedAt t' = None)
       (\<lambda>t. t\<lparr>task_Phase := boundedMessage p 120, task_CommitStartedAt := Some now\<rparr>) (db_tasks d) \<and>
     affected (\<lambda>t'. task_ID t' = i \<and> task_Status t' = TaskRunning
        \<and> task_CancelRequestedAt t' = None) (db_tasks d) = 1) d"
  unfolding commitBody_def
  by (intro tx_wp wp_recompute_any) simp_all

text \<open>When BeginCommit returns true for a runtime context in a reachable state, the worker's
  context was not canceled, the row was running under a job with neither a pause nor a cancel
  request, and exactly its phase and commit_started_at are written.\<close>

theorem begin_commit:
  assumes "bg_reachable env r" and "BeginCommit now (TaskCtx i) phase r = (True, r')"
  shows "\<exists>ac t. activeOf i r = Some ac \<and> ac_cause ac = None \<and>
    taskById i (rt_db r) = Some t \<and> task_Status t = TaskRunning \<and>
    taskById i (rt_db r') = Some (t\<lparr>task_Phase := boundedMessage phase 120,
      task_CommitStartedAt := Some now\<rparr>) \<and>
    (\<exists>j \<in> set (db_jobs (rt_db r)). job_ID j = task_JobID t \<and> job_CancelRequestedAt j = None \<and>
       job_PauseRequestedAt j = None)"
proof -
  note inv = rtInv_dbD [OF reachable_rtInv [OF assms(1)]]
  from assms(2) obtain ac where ac: "activeOf i r = Some ac" "ac_cause ac = None"
    and tx: "\<exists>x. runTx (commitBody now i phase) r = (Inr x, r')"
    by (auto simp: BeginCommit_def split: if_splits option.splits prod.splits sum.splits)
  then obtain x where tx: "runTx (commitBody now i phase) r = (Inr x, r')" by blast
  let ?p = "\<lambda>t'. task_ID t' = i \<and> task_Status t' = TaskRunning \<and> task_CancelRequestedAt t' = None"
  let ?f = "\<lambda>t. t\<lparr>task_Phase := boundedMessage phase 120, task_CommitStartedAt := Some now\<rparr>"
  obtain t j where t: "taskById i (rt_db r) = Some t" "task_Status t = TaskRunning"
    and j: "jobById (task_JobID t) (rt_db r) = Some j" "job_CancelRequestedAt j = None"
      "job_PauseRequestedAt j = None"
    and rows: "db_tasks (rt_db r') = update_where ?p ?f (db_tasks (rt_db r))"
    and one: "affected ?p (db_tasks (rt_db r)) = 1"
    using runTx_ok [OF tx commitBody_spec] by (elim exE conjE)
  have "\<exists>u \<in> set (db_tasks (rt_db r)). ?p u"
    using one affected_0_iff [of ?p "db_tasks (rt_db r)"] by auto
  then have "?p t"
    using dbInv_task_unique [OF inv] taskByIdD [OF t(1)] by metis
  have "taskById i (rt_db r') = map_option (\<lambda>t'. if ?p t' then ?f t' else t') (taskById i (rt_db r))"
    unfolding taskById_def rows by (rule find_update_where) simp
  with t \<open>?p t\<close> have "taskById i (rt_db r') = Some (?f t)" by simp
  with ac t j jobByIdD [OF j(1)] show ?thesis by blast
qed

theorem begin_commit_witness:
  "\<exists>r' t. BeginCommit 20 (TaskCtx ''t'') ''x'' demoRunning = (True, r') \<and>
     taskById ''t'' (rt_db r') = Some t \<and> task_CommitStartedAt t = Some 20"
proof -
  have "fst (BeginCommit 20 (TaskCtx ''t'') ''x'' demoRunning)" by code_simp
  then obtain r' where b: "BeginCommit 20 (TaskCtx ''t'') ''x'' demoRunning = (True, r')"
    by (cases "BeginCommit 20 (TaskCtx ''t'') ''x'' demoRunning") simp
  obtain t where "taskById ''t'' (rt_db r') = Some (t\<lparr>task_Phase := boundedMessage ''x'' 120,
      task_CommitStartedAt := Some 20\<rparr>)"
    using begin_commit [OF demoRunning_reachable b] by blast
  then show ?thesis using b by fastforce
qed

section \<open>Cancellation before the fence\<close>

lemma runs_recompute:
  assumes "jobById i d = Some j" and "Q () d"
    and "\<And>ts. Q () (updateJobs (\<lambda>j. job_ID j = i) (applyReduction now (reduceTasks ts)) d)"
  shows "runs (recomputeJob now i) Q d"
  unfolding recomputeJob_def by (intro tx_runs runs_first [where f = "jobById i" and x = j] assms)

lemma runs_addEvent [tx_runs]: "(\<And>e. Q () (insertEvent e d)) \<Longrightarrow> runs (addEvent env now e) Q d"
  unfolding addEvent_def by (intro tx_runs) simp

lemma jobById_fields [simp]:
  "jobById i (updateTasks p f d) = jobById i d" "jobById i (updateAttempts q g d) = jobById i d"
  "jobById i (insertEvent e d) = jobById i d"
  by (simp_all add: jobById_def)

lemma taskById_fields [simp]:
  "taskById i (updateJobs p f d) = taskById i d" "taskById i (updateAttempts q g d) = taskById i d"
  "taskById i (insertEvent e d) = taskById i d"
  by (simp_all add: taskById_def)

lemma taskById_update:
  assumes "\<And>t. task_ID (f t) = task_ID t"
  shows "taskById i (updateTasks p f d) = map_option (\<lambda>t. if p t then f t else t) (taskById i d)"
  unfolding taskById_def update_fields by (rule find_update_where) (rule assms)

lemma failureOutcome_ID [simp]:
  "task_ID (fo_row (failureOutcome now a c te code pub) t) = task_ID t"
  by (simp add: failureOutcome_def Let_def extendBudget_def split: error_class.split)

lemma jobById_update:
  assumes "\<And>j. job_ID (f j) = job_ID j"
  shows "jobById i (updateJobs p f d) = map_option (\<lambda>j. if p j then f j else j) (jobById i d)"
  unfolding jobById_def update_fields by (rule find_update_where) (rule assms)

lemma runs_finishFailure:
  assumes t: "taskById (task_ID t) d = Some c" and j: "jobById (task_JobID t) d = Some j"
  shows "runs (finishFailure env now t a c te) (\<lambda>_ d'. taskById (task_ID t) d' =
    Some (fo_row (failureOutcome now a c te (orDefault (boundedMessage (te_Code te) 80) ''task_failed'')
      (orDefault (boundedMessage (te_Public te) 512) ''The background task failed'')) c) \<and>
    map_option job_CancelRequestedAt (jobById (task_JobID t) d') = Some (job_CancelRequestedAt j)) d"
  unfolding finishFailure_def finishAttempt_def Let_def
  by (intro tx_runs runs_recompute [where j = j] runs_first [where x = j])
    (simp_all add: j t taskById_update jobById_update taskByIdD [OF t])

lemma dbInv_jobOf:
  assumes "dbInv L d" "taskById i d = Some t"
  obtains j where "jobById (task_JobID t) d = Some j"
  using dbInv_task_job [OF assms(1)] dbInv_jobById [OF assms(1)] taskByIdD [OF assms(2)] by metis

lemma finishWithRetry_runs:
  assumes "rt_faults r = []" "runs (finishBody env (clock n) (uuids n) t a res te) Q (rt_db r)"
  obtains r' x where "finishWithRetry (Suc n) env clock uuids t a res te r = (None, r')"
    "Q x (rt_db r')" "r' = r\<lparr>rt_db := rt_db r'\<rparr>"
proof -
  obtain x r' where "runTx (finishBody env (clock n) (uuids n) t a res te) r = (Inr x, r')"
      "Q x (rt_db r')" "r' = r\<lparr>rt_db := rt_db r'\<rparr>"
    using assms by (rule runTx_runs)
  then show ?thesis by (intro that [of r' x]) simp_all
qed

lemma completeTask_runs:
  assumes "rt_faults r = []" "activeOf i r = Some ac" "ac_handled ac"
    and "runs (finishBody env (clock 4) (ids 4) (ac_task ac) (ac_attempt ac) res
      (classifyError (env_redact env) (ac_cause ac) err)) Q (rt_db r)"
  shows "\<exists>x. Q x (rt_db (completeTask env clock ids i (Returned res err) r))"
proof -
  let ?te = "classifyError (env_redact env) (ac_cause ac) err"
  obtain r' x where "finishWithRetry (Suc 4) env clock ids (ac_task ac) (ac_attempt ac) res ?te r
      = (None, r')" "Q x (rt_db r')"
    using assms(1,4) by (rule finishWithRetry_runs)
  then show ?thesis
    by (auto simp: completeTask_def assms(2,3) runHandler_def deleteActive_def Wake_def
        eval_nat_numeral)
qed

text \<open>C4: Once a reachable state holds a cancel-requested task, its worker's BeginCommit returns
  false and writes nothing; and when the handler then returns success or a pause, with no store
  fault, the task row ends canceled, whatever result it returned.\<close>

theorem cancel_wins:
  assumes "bg_reachable env r" and "activeOf i r = Some ac"
    and "taskById i (rt_db r) = Some t" "task_Status t = TaskCancelRequested"
  shows "fst (BeginCommit now (TaskCtx i) phase r) = False \<and>
    rt_db (snd (BeginCommit now (TaskCtx i) phase r)) = rt_db r \<and>
    (rt_faults r = [] \<and> ac_handled ac \<and>
       classifyError (env_redact env) (ac_cause ac) err \<in> {te. te = None \<or> map_option te_Class te = Some ErrorPaused}
     \<longrightarrow> (\<exists>t'. taskById i (rt_db (completeTask env clock ids i (Returned res err) r)) = Some t' \<and>
           task_Status t' = TaskCanceled))"
proof -
  note inv = reachable_rtInv [OF assms(1)]
  have "wp (commitBody now i phase) (\<lambda>_ _. False) (rt_db r)"
    unfolding commitBody_def by (intro tx_wp) (use assms(3,4) in auto)
  then obtain e r1 where "runTx (commitBody now i phase) r = (Inl e, r1)" "rt_db r1 = rt_db r"
    by (rule runTx_False)
  then have fence: "fst (BeginCommit now (TaskCtx i) phase r) = False \<and>
      rt_db (snd (BeginCommit now (TaskCtx i) phase r)) = rt_db r"
    by (simp add: BeginCommit_def assms(2))
  have entry: "(i, ac) \<in> set (rt_active r)"
    using assms(2) by (auto simp: activeOf_def dest: map_of_SomeD)
  then have ids: "task_ID (ac_task ac) = i" "task_JobID (ac_task ac) = ac_jobID ac"
    using inv by (force simp: rtInv_def entryOK_def)+
  have "(i, ac_jobID ac, ac_queue ac) \<in> claimsOf (rt_active r)"
    using entry by (force simp: claimsOf_def)
  then have own: "task_JobID t = ac_jobID ac"
    using claim_row(1) [OF rtInv_dbD [OF inv] _ assms(3)] by simp
  obtain j where j: "jobById (task_JobID t) (rt_db r) = Some j"
    using rtInv_dbD [OF inv] assms(3) by (rule dbInv_jobOf)
  have commit: "task_CommitStartedAt t = None"
    using rtInv_dbD [OF inv] taskByIdD [OF assms(3)] assms(4)
    by (auto simp: dbInv_def tablesOK_def taskOK_def)
  let ?canceled = "TaskError ''canceled'' ''Canceled'' [] ErrorCanceled 0
        (Some (EText ''background job canceled''))"
  have "runs (finishBody env now' newIDs (ac_task ac) (ac_attempt ac) res te)
      (\<lambda>_ d'. \<exists>t'. taskById i d' = Some t' \<and> task_Status t' = TaskCanceled) (rt_db r)"
    if "te = None \<or> map_option te_Class te = Some ErrorPaused" for now' newIDs te
  proof -
    have eff: "effectiveError t te = Some ?canceled"
      using that assms(4) commit by (simp add: effectiveError_def)
    have "runs (finishFailure env now' (ac_task ac) (ac_attempt ac) t ?canceled)
      (\<lambda>_ d'. \<exists>t'. taskById i d' = Some t' \<and> task_Status t' = TaskCanceled) (rt_db r)"
    proof (rule runs_mono [OF runs_finishFailure [where j = j]])
      fix x d'
      assume "taskById (task_ID (ac_task ac)) d' = Some (fo_row (failureOutcome now' (ac_attempt ac) t
        ?canceled (orDefault (boundedMessage (te_Code ?canceled) 80) ''task_failed'')
        (orDefault (boundedMessage (te_Public ?canceled) 512) ''The background task failed'')) t) \<and>
        map_option job_CancelRequestedAt (jobById (task_JobID (ac_task ac)) d') =
          Some (job_CancelRequestedAt j)"
      then show "\<exists>t'. taskById i d' = Some t' \<and> task_Status t' = TaskCanceled"
        by (simp add: ids failureOutcome_def)
    qed (use assms(3) j own in \<open>simp_all add: ids\<close>)
    then show ?thesis
      unfolding finishBody_def
      by (intro runs_bind runs_first [where x = t]) (simp_all add: ids assms(3,4) eff liveTask_def)
  qed
  then have "\<exists>t'. taskById i (rt_db (completeTask env clock ids i (Returned res err) r)) = Some t' \<and>
      task_Status t' = TaskCanceled"
    if "rt_faults r = []" "ac_handled ac"
      "classifyError (env_redact env) (ac_cause ac) err \<in> {te. te = None \<or> map_option te_Class te = Some ErrorPaused}"
    using completeTask_runs [OF that(1) assms(2) that(2)] that(3) by blast
  with fence show ?thesis by blast
qed

theorem cancel_wins_witness:
  "bg_reachable demoEnv demoCanceling \<and>
   fst (BeginCommit 30 (TaskCtx ''t'') ''x'' demoCanceling) = False \<and>
   (\<exists>t'. taskById ''t'' (rt_db (completeTask demoEnv (\<lambda>_. 30) (\<lambda>_ _. ''u'') ''t''
      (Returned emptyResult None) demoCanceling)) = Some t' \<and> task_Status t' = TaskCanceled)"
proof -
  have "rt_faults demoCanceling = [] \<and>
      (case (activeOf ''t'' demoCanceling, taskById ''t'' (rt_db demoCanceling)) of
        (Some ac, Some t) \<Rightarrow> task_Status t = TaskCancelRequested \<and> ac_handled ac | _ \<Rightarrow> False)"
    by code_simp
  then obtain ac t where "activeOf ''t'' demoCanceling = Some ac" "ac_handled ac"
      "taskById ''t'' (rt_db demoCanceling) = Some t" "task_Status t = TaskCancelRequested"
      "rt_faults demoCanceling = []"
    by (auto split: option.splits)
  with cancel_wins [OF demoCanceling_reachable, of "''t''" ac t 30 "''x''" None "\<lambda>_. 30" "\<lambda>_ _. ''u''"
      emptyResult] demoCanceling_reachable
  show ?thesis by (simp add: classifyError_def)
qed

text \<open>C40: When the handler of a cancel-requested task of a job under cancellation returns a
  deferred, interrupted or retryable transient error, the task waits again although its job
  stays cancel_requested, and no queue can claim it at any time.\<close>

theorem cancel_then_retry_strands:
  assumes "bg_reachable env r" "rt_faults r = []" and "activeOf i r = Some ac" "ac_handled ac"
    and "taskById i (rt_db r) = Some t" "task_Status t = TaskCancelRequested"
    and "jobById (task_JobID t) (rt_db r) = Some j" "job_CancelRequestedAt j \<noteq> None"
    and "classifyError (env_redact env) (ac_cause ac) err = Some te"
    and "te_Class te \<in> {ErrorDeferred, ErrorInterrupted} \<or>
      te_Class te = ErrorTransient \<and> task_AttemptCount t < task_MaxAttempts t"
    and "r' = completeTask env clock ids i (Returned res err) r"
  shows "\<exists>t' j'. taskById i (rt_db r') = Some t' \<and> waitingTask t' \<and>
    jobById (task_JobID t') (rt_db r') = Some j' \<and> job_Status j' = JobCancelRequested \<and>
    (\<forall>now q. \<not> claimable now q (rt_db r') t')"
proof -
  note inv = reachable_rtInv [OF assms(1)]
  have inv': "rtInv env r'" unfolding assms(11) by (rule completeTask_inv [OF inv])
  have entry: "(i, ac) \<in> set (rt_active r)"
    using assms(3) by (auto simp: activeOf_def dest: map_of_SomeD)
  then have ids: "task_ID (ac_task ac) = i" "task_JobID (ac_task ac) = ac_jobID ac"
    using inv by (force simp: rtInv_def entryOK_def)+
  have "(i, ac_jobID ac, ac_queue ac) \<in> claimsOf (rt_active r)"
    using entry by (force simp: claimsOf_def)
  then have own: "task_JobID t = ac_jobID ac"
    using claim_row(1) [OF rtInv_dbD [OF inv] _ assms(5)] by simp
  let ?Q = "\<lambda>d' :: bgdb. \<exists>t'. taskById i d' = Some t' \<and> waitingTask t' \<and> task_JobID t' = ac_jobID ac \<and>
      map_option job_CancelRequestedAt (jobById (ac_jobID ac) d') = Some (job_CancelRequestedAt j)"
  have eff: "effectiveError t (Some te) = Some te"
    using assms(10) by (auto simp: effectiveError_def)
  have "runs (finishFailure env now (ac_task ac) (ac_attempt ac) t te) (\<lambda>_. ?Q) (rt_db r)" for now
  proof (rule runs_mono [OF runs_finishFailure [where j = j]])
    fix x d'
    assume "taskById (task_ID (ac_task ac)) d' = Some (fo_row (failureOutcome now (ac_attempt ac) t
        te (orDefault (boundedMessage (te_Code te) 80) ''task_failed'')
        (orDefault (boundedMessage (te_Public te) 512) ''The background task failed'')) t) \<and>
        map_option job_CancelRequestedAt (jobById (task_JobID (ac_task ac)) d') =
          Some (job_CancelRequestedAt j)"
    then show "?Q d'"
      using assms(10) own
      by (auto simp: ids failureOutcome_def Let_def extendBudget_def waitingTask_def)
  qed (use assms(5,7) own in \<open>simp_all add: ids\<close>)
  then have "runs (finishBody env (clock 4) (ids 4) (ac_task ac) (ac_attempt ac) res
      (classifyError (env_redact env) (ac_cause ac) err)) (\<lambda>_. ?Q) (rt_db r)"
    unfolding finishBody_def assms(9)
    by (intro runs_bind runs_first [where x = t]) (simp_all add: ids assms(5,6) eff liveTask_def)
  from completeTask_runs [OF assms(2,3,4), where Q = "\<lambda>_. ?Q"
      and env = env and clock = clock and ids = ids and res = res and err = err, OF this] obtain t' j'
    where t': "taskById i (rt_db r') = Some t'" "waitingTask t'" "task_JobID t' = ac_jobID ac"
      and j': "jobById (ac_jobID ac) (rt_db r') = Some j'" "job_CancelRequestedAt j' \<noteq> None"
    using assms(8) by (auto simp: assms(11))
  note db = rtInv_dbD [OF inv']
  have row: "j' \<in> set (db_jobs (rt_db r'))" "job_ID j' = ac_jobID ac"
    using jobByIdD [OF j'(1)] by simp_all
  have "t' \<in> taskSet (job_ID j') (db_tasks (rt_db r'))"
    using taskByIdD [OF t'(1)] t'(3) row by (simp add: taskSet_def)
  moreover have "\<not> terminalTaskStatus (task_Status t')"
    using t'(2) by (auto simp: waitingTask_def)
  ultimately have "job_Status j' = JobCancelRequested"
    using dbInv_jobOK [OF db row(1)] j'(2) by (auto simp: jobOK_def specStatus_def)
  moreover have "\<not> dispatchableJob (rt_db r') (task_JobID t')"
  proof -
    have "k = j'" if "k \<in> set (db_jobs (rt_db r'))" "job_ID k = ac_jobID ac" for k
      using dbInv_job_unique [OF db that(1) row(1)] that(2) row(2) by simp
    then show ?thesis using j'(2) t'(3) by (auto simp: dispatchableJob_def list_ex_iff)
  qed
  ultimately show ?thesis using t' j'(1) by (auto simp: claimable_def)
qed

theorem cancel_then_retry_strands_witness:
  "\<exists>t' (j' :: job). taskById ''t'' (rt_db (completeTask demoEnv (\<lambda>_. 30) (\<lambda>_ _. ''u'') ''t''
      (Returned emptyResult (Some EDeadlineExceeded)) demoCanceling)) = Some t' \<and> waitingTask t' \<and>
    job_Status j' = JobCancelRequested"
proof -
  have "rt_faults demoCanceling = [] \<and>
      (case (activeOf ''t'' demoCanceling, taskById ''t'' (rt_db demoCanceling),
          jobById ''j'' (rt_db demoCanceling)) of
        (Some ac, Some t, Some j) \<Rightarrow> task_Status t = TaskCancelRequested \<and> ac_handled ac \<and>
          task_JobID t = ''j'' \<and> job_CancelRequestedAt j \<noteq> None \<and>
          task_AttemptCount t < task_MaxAttempts t
      | _ \<Rightarrow> False)"
    by code_simp
  then obtain ac t j where *: "rt_faults demoCanceling = []" "activeOf ''t'' demoCanceling = Some ac"
      "ac_handled ac" "taskById ''t'' (rt_db demoCanceling) = Some t"
      "task_Status t = TaskCancelRequested" "jobById (task_JobID t) (rt_db demoCanceling) = Some j"
      "job_CancelRequestedAt j \<noteq> None" "task_AttemptCount t < task_MaxAttempts t"
    by (auto split: option.splits)
  obtain te where te: "classifyError (env_redact demoEnv) (ac_cause ac) (Some EDeadlineExceeded) = Some te"
      "te_Class te = ErrorTransient"
    by (simp add: classifyError_def)
  show ?thesis
    using cancel_then_retry_strands [OF demoCanceling_reachable *(1-7) te(1) disjI2 [OF conjI [OF te(2) *(8)]]
        refl, of "\<lambda>_. 30" "\<lambda>_ _. ''u''" emptyResult]
    by blast
qed

end
