(* ===== verification/BgRestart.thy ===== *)
theory BgRestart
  imports BgFence
begin

text \<open>
  What failures leave behind: operations that report an error, processes that die, workers whose
  heartbeat stops, and jobs that are old enough to be deleted.
\<close>

section \<open>Errors\<close>

lemma runTx_error: "runTx m r = (Inl e, r') \<Longrightarrow> rt_db r' = rt_db r \<and> rt_active r' = rt_active r"
proof -
  assume t: "runTx m r = (Inl e, r')"
  have "wp m (\<lambda>_ _. True) (rt_db r)" by (simp add: wp_def)
  with t have "rt_db r' = rt_db r" by (rule runTx_cases) simp_all
  moreover have "rt_active r' = rt_active r" using runTx_fields(1) [of m r] by (simp add: t)
  ultimately show ?thesis by blast
qed

text \<open>Every control operation that returns an error (its own conflict or any failing statement)
  leaves the database and the active workers as they were.\<close>

theorem errors_roll_back:
  assumes "op \<in> {PauseJob env now i actor name, ResumeJob env now i actor name,
      RunJobNow env now i actor name, CancelTask env now i actor name,
      RetryJob env now i actor name, RetryTask env now i actor name,
      Recover env now, recoverStaleTasks env now before}"
    and "op r = (Some e, r')"
  shows "rt_db r' = rt_db r \<and> rt_active r' = rt_active r"
  using assms
  by (auto simp: PauseJob_def ResumeJob_def RunJobNow_def CancelTask_def RetryJob_def RetryTask_def
      Recover_def recoverStaleTasks_def wakeOnSuccess_def dest: runTx_error
      split: prod.splits sum.splits)

theorem errors_roll_back_witness:
  "\<exists>e r'. ResumeJob demoEnv 40 ''j'' 1 ''x'' demoRunning = (Some e, r') \<and> rt_db r' = rt_db demoRunning"
proof -
  have "fst (ResumeJob demoEnv 40 ''j'' 1 ''x'' demoRunning) \<noteq> None" by code_simp
  then obtain e r' where "ResumeJob demoEnv 40 ''j'' 1 ''x'' demoRunning = (Some e, r')"
    by (cases "ResumeJob demoEnv 40 ''j'' 1 ''x'' demoRunning") auto
  with errors_roll_back [of "ResumeJob demoEnv 40 ''j'' 1 ''x''" demoEnv 40 "''j''" 1 "''x''" 0]
  show ?thesis by blast
qed

section \<open>Restart\<close>

text \<open>What a restart makes of a task row.\<close>

definition recoveredRow :: "time \<Rightarrow> task \<Rightarrow> task" where
  "recoveredRow now t =
     (if \<not> liveTask t then t
      else if task_CommitStartedAt t \<noteq> None then
        t\<lparr>task_Status := TaskFailed, task_ErrorCode := ''commit_interrupted'',
          task_ErrorMessage :=
            ''The worker stopped after irreversible work began; review before retrying'',
          task_FinishedAt := Some now, task_HeartbeatAt := None\<rparr>
      else if task_Status t = TaskCancelRequested then
        t\<lparr>task_Status := TaskCanceled, task_ErrorCode := ''canceled'',
          task_ErrorMessage := ''Canceled before application restart'',
          task_FinishedAt := Some now, task_HeartbeatAt := None\<rparr>
      else
        t\<lparr>task_Status := TaskQueued, task_RunAfter := None, task_HeartbeatAt := None,
          task_ErrorCode := ''worker_interrupted'',
          task_ErrorMessage := ''Interrupted by application restart; queued again'',
          task_CancelRequestedAt := None, task_MaxAttempts := task_MaxAttempts t + 1\<rparr>)"

lemma wp_foreach_tasks:
  assumes "\<And>x d. wp (f x) (\<lambda>_ d'. db_tasks d' = db_tasks d) d"
  shows "wp (tx_foreach f xs) (\<lambda>_ d'. db_tasks d' = db_tasks d) d"
proof (rule wp_foreach [where I = "\<lambda>d'. db_tasks d' = db_tasks d"])
  show "wp (f x) (\<lambda>_ d''. db_tasks d'' = db_tasks d) d'" if "db_tasks d' = db_tasks d" for x d'
    using assms [of x d'] by (simp add: that)
qed simp

lemma recoverBody_rows:
  "wp (recoverBody env now) (\<lambda>_ d'. db_tasks d' = map (recoveredRow now) (db_tasks d)) d"
proof -
  have loop: "wp (tx_foreach (\<lambda>i. tx_bind (recomputeJob now i) (\<lambda>_. addEvent env now (e i))) ids)
      (\<lambda>_ d''. db_tasks d'' = db_tasks d') d'" for e ids d'
    by (rule wp_foreach_tasks) (intro tx_wp wp_recompute_any, simp)
  show ?thesis
    unfolding recoverBody_def
    by (intro tx_wp, rule wp_mono [OF loop])
      (auto simp: update_where_def recoveredRow_def committingTask_def liveTask_def extendBudget_def)
qed

lemma plain_tasks:
  assumes "runPlain m r = (res, r')" and "\<And>ts. always (\<lambda>d. db_tasks d = ts) m"
  shows "db_tasks (rt_db r') = db_tasks (rt_db r)"
  using assms(1) assms(2) [unfolded always_def, rule_format, OF refl, of "rt_db r" "rt_faults r"]
  by (auto simp: runPlain_def split: prod.splits)

lemma always_queue_rows: "always (\<lambda>d. db_tasks d = ts) (ensureQueueRows qs)"
  by (induction qs) (auto intro!: tx_always)

lemma always_schedule_rows: "always (\<lambda>d. db_tasks d = ts) (ensureSchedules now ss)"
  by (induction ss) (auto intro!: tx_always)

lemma Recover_ok:
  assumes "Recover env now r = (None, r')"
  shows "db_tasks (rt_db r') = map (recoveredRow now) (db_tasks (rt_db r)) \<and>
    rt_active r' = rt_active r"
proof -
  obtain x where t: "runTx (recoverBody env now) r = (Inr x, r')"
    using assms by (auto simp: Recover_def split: prod.splits sum.splits)
  show ?thesis
    using runTx_ok [OF t recoverBody_rows] runTx_fields(1) [of "recoverBody env now" r] t by simp
qed

text \<open>C25: A successful Start from a stopped reachable state rewrites every task row by the abstract
  recovery function (committed work fails, requested cancellations finish, other live tasks are
  queued again with one more attempt), leaves no live task behind and starts with no active
  worker.\<close>

theorem restart_recovers:
  assumes "bg_reachable env r" "\<not> rt_started r" and "Start env now True parent r = (None, r')"
  shows "db_tasks (rt_db r') = map (recoveredRow now) (db_tasks (rt_db r)) \<and>
    (\<forall>t \<in> set (db_tasks (rt_db r')). \<not> liveTask t) \<and> rt_started r' \<and> rt_active r' = []"
proof -
  have act: "rt_active r = []"
    using reachable_rtInv [OF assms(1)] assms(2) by (auto simp: rtInv_def)
  let ?r = "r\<lparr>rt_root := (case parent of None \<Rightarrow> Live | Some c \<Rightarrow> Done c), rt_starting := True\<rparr>"
  obtain x1 r1 where p1: "runPlain ensureQueues ?r = (Inr x1, r1)"
    and x2: "\<exists>r2 x3 r3. Recover env now r1 = (None, r2) \<and>
      runPlain (ensureSchedules now (rt_schedules r2)) r2 = (Inr x3, r3) \<and>
      r' = Wake (r3\<lparr>rt_started := True, rt_starting := False\<rparr>)"
    using assms(2,3)
    by (auto simp: Start_def Let_def split: if_splits prod.splits sum.splits option.splits)
  then obtain r2 x3 r3 where p2: "Recover env now r1 = (None, r2)"
    and p3: "runPlain (ensureSchedules now (rt_schedules r2)) r2 = (Inr x3, r3)"
    and r': "r' = Wake (r3\<lparr>rt_started := True, rt_starting := False\<rparr>)"
    by blast
  have "db_tasks (rt_db r') = map (recoveredRow now) (db_tasks (rt_db r))"
    using plain_tasks [OF p1] plain_tasks [OF p3 always_schedule_rows] Recover_ok [OF p2]
      always_queue_rows by (simp add: r' Wake_def ensureQueues_def)
  moreover have "\<not> liveTask (recoveredRow now t)" for t
    by (auto simp: recoveredRow_def liveTask_def)
  moreover have "rt_active r' = []"
    using runPlain_fields(1) [of ensureQueues ?r] Recover_ok [OF p2]
      runPlain_fields(1) [of "ensureSchedules now (rt_schedules r2)" r2] act
    by (simp add: p1 p3 r' Wake_def)
  ultimately show ?thesis by (auto simp: r' Wake_def)
qed

theorem restart_recovers_witness:
  "\<exists>r'. Start demoEnv 50 True None (newRuntime (rt_db demoCommitting)) = (None, r') \<and>
     map task_Status (db_tasks (rt_db r')) = [TaskFailed] \<and>
     (\<forall>t \<in> set (db_tasks (rt_db r')). \<not> liveTask t)"
proof -
  let ?r = "newRuntime (rt_db demoCommitting)"
  have reach: "bg_reachable demoEnv ?r"
    by (rule reachable_step [OF demoCommitting_reachable bg_step.crash])
  have "fst (Start demoEnv 50 True None ?r) = None \<and>
      map task_Status (map (recoveredRow 50) (db_tasks (rt_db demoCommitting))) = [TaskFailed]"
    by code_simp
  then obtain r' where s: "Start demoEnv 50 True None ?r = (None, r')"
    and st: "map task_Status (map (recoveredRow 50) (db_tasks (rt_db demoCommitting))) = [TaskFailed]"
    by (cases "Start demoEnv 50 True None ?r") auto
  have "\<not> rt_started ?r" by (simp add: newRuntime_def)
  from restart_recovers [OF reach this s] s st show ?thesis by (simp add: newRuntime_def)
qed

section \<open>Stale workers\<close>

lemma staleTasks_rows:
  assumes "T \<subseteq> set (db_tasks d)"
    and "\<forall>t \<in> T. task_ID t \<in> set active \<or> \<not> liveTask t \<or> \<not> staleHeartbeat before t"
    and "\<forall>t \<in> set ts. liveTask t"
  shows "wp (staleTasks env now before active ts) (\<lambda>_ d'. T \<subseteq> set (db_tasks d')) d"
  using assms(1,3)
proof (induction ts arbitrary: d)
  case Nil
  then show ?case by (simp add: wp_return)
next
  case (Cons t ts)
  show ?case
  proof (cases "task_ID t \<in> set active")
    case True
    with Cons show ?thesis by simp
  next
    case False
    let ?p = "\<lambda>t'. task_ID t' = task_ID t \<and> task_Status t' = task_Status t \<and> staleHeartbeat before t'"
    have rows: "T \<subseteq> set (update_where ?p f (db_tasks d))" for f
    proof
      fix u assume u: "u \<in> T"
      have "\<not> ?p u"
        using u assms(2) Cons.prems(2) False by (auto simp: liveTask_def)
      then show "u \<in> set (update_where ?p f (db_tasks d))"
        using u Cons.prems(1) unfolding set_update_where by (intro image_eqI [of _ _ u]) auto
    qed
    show ?thesis
      using False Cons.prems(2)
      by (auto simp: Let_def intro!: tx_wp wp_mono [OF Cons.IH] intro: subsetD [OF rows])
  qed
qed

text \<open>Recovery of stale tasks leaves every task row untouched that has an active worker in this
  process, is not live, or has a fresh heartbeat.\<close>

theorem stale_recovery_spares:
  assumes "t \<in> set (db_tasks (rt_db r))"
    and "task_ID t \<in> fst ` set (rt_active r) \<or> \<not> liveTask t \<or> \<not> staleHeartbeat before t"
  shows "t \<in> set (db_tasks (rt_db (snd (recoverStaleTasks env now before r))))"
proof -
  let ?act = "map fst (rt_active r)"
  have loop: "wp (tx_foreach (\<lambda>i. tx_bind (tx_first (jobById i)) (\<lambda>_. recomputeJob now i)) jobs)
      (\<lambda>_ d'. db_tasks d' = db_tasks d) d" for jobs d
    by (rule wp_foreach_tasks) (intro tx_wp wp_recompute_any, simp)
  have "wp (staleBody env now before ?act) (\<lambda>_ d'. t \<in> set (db_tasks d')) (rt_db r)"
    unfolding staleBody_def
    by (intro wp_bind wp_select wp_mono [OF staleTasks_rows [where T = "{t}"]] wp_mono [OF loop])
      (use assms in auto)
  then show ?thesis
    using assms(1)
    by (cases "runTx (staleBody env now before ?act) r")
      (auto simp: recoverStaleTasks_def elim!: runTx_cases split: sum.split)
qed

theorem stale_recovery_spares_witness:
  "\<exists>t \<in> set (db_tasks (rt_db demoRunning)). liveTask t \<and> staleHeartbeat 999 t \<and>
     t \<in> set (db_tasks (rt_db (snd (recoverStaleTasks demoEnv 1000 999 demoRunning))))"
proof -
  let ?t = "hd (db_tasks (rt_db demoRunning))"
  have "db_tasks (rt_db demoRunning) \<noteq> [] \<and> liveTask ?t \<and> staleHeartbeat 999 ?t \<and>
      task_ID ?t \<in> fst ` set (rt_active demoRunning)"
    by code_simp
  with stale_recovery_spares [of ?t demoRunning 999 demoEnv 1000] show ?thesis
    by (intro bexI [of _ ?t]) simp_all
qed

section \<open>Retention\<close>

lemma retainBody_rows:
  "wp (retainBody jobs) (\<lambda>_ d'.
     db_jobs d' = filter (\<lambda>j. job_ID j \<notin> set jobs) (db_jobs d) \<and>
     db_tasks d' = filter (\<lambda>t. task_JobID t \<notin> set jobs) (db_tasks d) \<and>
     db_events d' = filter (\<lambda>e. ev_JobID e \<notin> set jobs) (db_events d) \<and>
     db_attempts d' = filter (\<lambda>a. \<forall>t \<in> set (db_tasks d). task_JobID t \<in> set jobs \<longrightarrow>
       att_TaskID a \<noteq> task_ID t) (db_attempts d)) d"
  unfolding retainBody_def
  by (intro tx_wp) (auto intro!: filter_cong simp: filter_empty_conv filter_id_conv)

text \<open>A successful Retain in a reachable state deletes exactly the retainable jobs and the
  tasks of the deleted jobs, reports their number, and never deletes a live task.\<close>

theorem retain_deletes_finished:
  assumes "bg_reachable env r" and "Retain now before r = ((n, None), r')"
  shows "n = length (filter (retainable before (now - 24 * hour)) (db_jobs (rt_db r))) \<and>
    db_jobs (rt_db r') = filter (\<lambda>j. \<not> retainable before (now - 24 * hour) j) (db_jobs (rt_db r)) \<and>
    db_tasks (rt_db r') = filter (\<lambda>t. \<exists>j \<in> set (db_jobs (rt_db r')). task_JobID t = job_ID j)
      (db_tasks (rt_db r)) \<and>
    (\<forall>t \<in> set (db_tasks (rt_db r)). liveTask t \<longrightarrow> t \<in> set (db_tasks (rt_db r')))"
proof -
  note inv = rtInv_dbD [OF reachable_rtInv [OF assms(1)]]
  let ?keep = "retainable before (now - 24 * hour)"
  let ?ids = "map job_ID (filter ?keep (db_jobs (rt_db r)))"
  obtain res1 r1 where p: "runPlain (tx_select (\<lambda>d. map job_ID (filter ?keep (db_jobs d)))) r = (res1, r1)"
    by (metis surj_pair)
  have sel: "rt_db r1 = rt_db r" "res1 = Inr js \<Longrightarrow> js = ?ids" for js
    using p by (auto simp: runPlain_def tx_select_def tx_stmt_def split: list.splits option.splits)
  have ok: "\<exists>x r2. res1 = Inr ?ids \<and> n = length ?ids \<and>
      (if ?ids = [] then r' = r1 else runTx (retainBody ?ids) r1 = (Inr x, r'))"
    using assms(2) sel(2) by (auto simp: Retain_def p split: sum.splits if_splits prod.splits)
  have rows: "db_jobs (rt_db r') = filter (\<lambda>j. job_ID j \<notin> set ?ids) (db_jobs (rt_db r)) \<and>
      db_tasks (rt_db r') = filter (\<lambda>t. task_JobID t \<notin> set ?ids) (db_tasks (rt_db r))"
  proof (cases "?ids = []")
    case True
    with ok sel(1) show ?thesis by auto
  next
    case False
    with ok obtain x where "runTx (retainBody ?ids) r1 = (Inr x, r')" by (auto split: if_splits)
    from runTx_ok [OF this retainBody_rows] show ?thesis by (simp add: sel(1))
  qed
  have same: "job_ID j \<in> set ?ids \<longleftrightarrow> ?keep j" if "j \<in> set (db_jobs (rt_db r))" for j
    using that dbInv_job_unique [OF inv] by auto
  have jobs: "db_jobs (rt_db r') = filter (\<lambda>j. \<not> ?keep j) (db_jobs (rt_db r))"
    using rows same by (simp cong: filter_cong)
  have kept: "task_JobID t \<notin> set ?ids \<longleftrightarrow> (\<exists>j \<in> set (db_jobs (rt_db r')). task_JobID t = job_ID j)"
    if t: "t \<in> set (db_tasks (rt_db r))" for t
  proof -
    obtain j where j: "j \<in> set (db_jobs (rt_db r))" "job_ID j = task_JobID t"
      using dbInv_task_job [OF inv t] by blast
    have "task_JobID t \<notin> set ?ids \<longleftrightarrow> \<not> ?keep j"
      using same [OF j(1)] by (simp only: j(2))
    also have "\<dots> \<longleftrightarrow> (\<exists>k \<in> set (db_jobs (rt_db r')). task_JobID t = job_ID k)"
    proof
      show "\<exists>k \<in> set (db_jobs (rt_db r')). task_JobID t = job_ID k" if "\<not> ?keep j"
        using that j by (auto simp: jobs)
      show "\<not> ?keep j" if "\<exists>k \<in> set (db_jobs (rt_db r')). task_JobID t = job_ID k"
      proof -
        from that obtain k where k: "k \<in> set (db_jobs (rt_db r))" "\<not> ?keep k" "job_ID k = job_ID j"
          using j(2) by (auto simp: jobs)
        with dbInv_job_unique [OF inv k(1) j(1)] show ?thesis by simp
      qed
    qed
    finally show ?thesis .
  qed
  have tasks: "db_tasks (rt_db r') = filter (\<lambda>t. \<exists>j \<in> set (db_jobs (rt_db r')). task_JobID t = job_ID j)
      (db_tasks (rt_db r))"
    using rows kept by (simp cong: filter_cong)
  have "t \<in> set (db_tasks (rt_db r'))" if t: "t \<in> set (db_tasks (rt_db r))" "liveTask t" for t
  proof -
    obtain j where j: "j \<in> set (db_jobs (rt_db r))" "job_ID j = task_JobID t"
      using dbInv_task_job [OF inv t(1)] by blast
    have "\<not> terminalJobStatus (job_Status j)"
      using dbInv_terminal [OF inv j(1) _ t(1)] j(2) terminal_not_live t(2) by metis
    then have "j \<in> set (db_jobs (rt_db r'))"
      using j(1) by (auto simp: jobs retainable_def)
    with t(1) j(2) [symmetric] show ?thesis unfolding tasks by (simp only: set_filter) blast
  qed
  with jobs tasks ok show ?thesis by simp
qed

text \<open>The job of the demonstration, finished at time 30.\<close>

definition demoFinished :: runtime where
  "demoFinished = completeTask demoEnv (\<lambda>_. 30) (\<lambda>_ _. ''u'') ''t'' (Returned emptyResult None)
     demoCommitting"

lemma demoFinished_reachable: "bg_reachable demoEnv demoFinished"
  unfolding demoFinished_def by (intro reachable_step [OF demoCommitting_reachable bg_step.complete])

theorem retain_deletes_finished_witness:
  "\<exists>r'. Retain (100 * hour) (99 * hour) demoFinished = ((1, None), r') \<and> db_jobs (rt_db r') = []"
proof -
  have "case Retain (100 * hour) (99 * hour) demoFinished of ((n, e), r') \<Rightarrow> n = 1 \<and> e = None"
    and old: "filter (\<lambda>j. \<not> retainable (99 * hour) (100 * hour - 24 * hour) j)
      (db_jobs (rt_db demoFinished)) = []"
    by code_simp+
  then obtain r' where r': "Retain (100 * hour) (99 * hour) demoFinished = ((1, None), r')"
    by (auto split: prod.splits)
  from retain_deletes_finished [OF demoFinished_reachable r'] old r' show ?thesis by simp
qed

end
