(* ===== verification/BgPolicy.thy ===== *)
theory BgPolicy
  imports BgFence
begin

text \<open>
  The policies of the background runtime: how a job's status follows from its tasks, how retries
  are budgeted, how schedules and queues decide what runs, and what users may see and do.
\<close>

section \<open>Aggregation\<close>

text \<open>C31: The status recomputeJob writes from its counters is the order-independent specification
  over the set of tasks; it is terminal exactly when every task is, and succeeded exactly when
  every task succeeded and no cancellation was requested.\<close>

theorem recompute_refines:
  "job_Status (applyReduction now (reduceTasks ts) j) =
     specStatus (job_CancelRequestedAt j \<noteq> None) (job_PauseRequestedAt j \<noteq> None) (set ts) \<and>
   (terminalJobStatus (job_Status (applyReduction now (reduceTasks ts) j)) \<longleftrightarrow>
      (\<forall>t \<in> set ts. terminalTaskStatus (task_Status t))) \<and>
   (job_Status (applyReduction now (reduceTasks ts) j) = JobSucceeded \<longleftrightarrow>
      job_CancelRequestedAt j = None \<and> (\<forall>t \<in> set ts. task_Status t = TaskSucceeded))"
  using specStatus_terminal [of "job_CancelRequestedAt j \<noteq> None" "job_PauseRequestedAt j \<noteq> None" "set ts"]
    specStatus_succeeded [of "job_CancelRequestedAt j \<noteq> None" "job_PauseRequestedAt j \<noteq> None" "set ts"]
  by (simp add: applyReduction_status)

theorem recompute_refines_witness:
  "job_Status (applyReduction 5 (reduceTasks (db_tasks (rt_db demoRunning)))
     (hd (db_jobs (rt_db demoRunning)))) = JobRunning \<and>
   \<not> (\<forall>t \<in> set (db_tasks (rt_db demoRunning)). terminalTaskStatus (task_Status t))"
proof -
  have "job_Status (applyReduction 5 (reduceTasks (db_tasks (rt_db demoRunning)))
     (hd (db_jobs (rt_db demoRunning)))) = JobRunning"
    by code_simp
  with recompute_refines [of 5 "db_tasks (rt_db demoRunning)" "hd (db_jobs (rt_db demoRunning))"]
  show ?thesis by auto
qed

section \<open>Retries\<close>

definition attemptsLeft :: "task \<Rightarrow> int" where
  "attemptsLeft t = task_MaxAttempts t - task_AttemptCount t"

text \<open>A waiting task with attempts left that is started once and fails waits again exactly for
  the paused, interrupted and deferred classes or for a transient failure with another attempt
  left; only a transient failure spends the budget, so transient retries end; otherwise the task
  is terminal, and a scheduled retry lies within 15 minutes.\<close>

theorem retry_budget:
  assumes "waitingTask t" "0 < attemptsLeft t"
    and "current = startRow start t"
    and "row = fo_row (failureOutcome now a current te code pub) current"
  shows "(waitingTask row \<longleftrightarrow> te_Class te \<in> {ErrorPaused, ErrorInterrupted, ErrorDeferred} \<or>
      te_Class te = ErrorTransient \<and> 1 < attemptsLeft t) \<and>
    (waitingTask row \<longrightarrow> attemptsLeft row =
       attemptsLeft t - (if te_Class te = ErrorTransient then 1 else 0)) \<and>
    (\<not> waitingTask row \<longrightarrow> terminalTaskStatus (task_Status row)) \<and>
    (task_Status row = TaskRetryWait \<longrightarrow>
       (\<exists>at. task_RunAfter row = Some at \<and> now < at \<and> at \<le> now + 15 * minute))"
proof -
  have "0 < retryDelay n d" "retryDelay n d \<le> 15 * minute" for n d
    by (rule retryDelay_bounds)+
  then show ?thesis
    using assms(2)
    by (cases "te_Class te")
      (auto simp: assms(3,4) failureOutcome_def Let_def extendBudget_def waitingTask_def
        attemptsLeft_def startRow_def)
qed

definition demoAttempt :: attempt where
  "demoAttempt = \<lparr>att_ID = ''a'', att_TaskID = ''t'', att_Number = 1, att_Status = AttemptRunning,
     att_Worker = ''w'', att_ErrorCode = [], att_ErrorMessage = [], att_Diagnostics = [],
     att_StartedAt = 8, att_FinishedAt = None\<rparr>"

theorem retry_budget_witness:
  "\<exists>t row. waitingTask t \<and> attemptsLeft t = 2 \<and> waitingTask row \<and> attemptsLeft row = 1 \<and>
     row = fo_row (failureOutcome 9 demoAttempt (startRow 8 t)
       (TaskError ''c'' ''p'' [] ErrorTransient 0 None) ''c'' ''p'') (startRow 8 t)"
proof -
  let ?t = "newTask 0 ''t'' ''j'' demoTask ''p''"
  let ?row = "fo_row (failureOutcome 9 demoAttempt (startRow 8 ?t)
       (TaskError ''c'' ''p'' [] ErrorTransient 0 None) ''c'' ''p'') (startRow 8 ?t)"
  have t: "waitingTask ?t" "attemptsLeft ?t = 2"
    by (simp_all add: newTask_def demoTask_def waitingTask_def attemptsLeft_def)
  have "waitingTask ?row \<and> attemptsLeft ?row = 1"
    using retry_budget [OF t(1) _ refl refl, of 9 demoAttempt 8
      "TaskError ''c'' ''p'' [] ErrorTransient 0 None" "''c''" "''p''"] t(2) by simp
  with t show ?thesis by blast
qed

section \<open>Schedules\<close>

lemma always_schedules:
  assumes "\<And>d x d'. f d = Inr (x, d') \<Longrightarrow> db_schedules d' = db_schedules d"
  shows "always (\<lambda>d. db_schedules d = S) (tx_stmt f)"
  by (rule always_stmt) (use assms in auto)

lemma always_createTasks_schedules:
  "always (\<lambda>d. db_schedules d = S) (createTasks env uuids clock i n specs)"
  by (induction specs arbitrary: n)
    (auto simp: createTask_def insertTask_def Let_def split: sum.split
      intro!: tx_always always_schedules split: if_splits)

lemma always_enqueue_schedules:
  "always (\<lambda>d. db_schedules d = S) (enqueueBody env u uuids clock spec)"
  unfolding enqueueBody_def createJob_def insertJob_def Let_def
  by (intro tx_always always_reuse always_createTasks_schedules always_schedules)
    (auto split: option.split if_splits
      intro!: tx_always always_reuse always_createTasks_schedules always_schedules)

lemma runTx_always:
  assumes "runTx m r = (res, r')" "always I m" "I (rt_db r)"
  shows "I (rt_db r')"
  using runTx_cases [OF assms(1) always_wp [OF assms(2,3)]] assms(3) by metis

lemma Enqueue_schedules:
  "db_schedules (rt_db (snd (Enqueue env u uuids clock spec r))) = db_schedules (rt_db r)"
proof (cases "validateJobSpec spec")
  case None
  obtain res r1 where t: "runTx (enqueueBody env u uuids clock spec) r = (res, r1)"
    by (cases "runTx (enqueueBody env u uuids clock spec) r")
  have 1: "db_schedules (rt_db r1) = db_schedules (rt_db r)"
    by (rule runTx_always [OF t always_enqueue_schedules]) simp
  have "rt_db (snd (runPlain (populateCancellationCapabilities js) r1)) = rt_db r1" for js
    using always_capabilities [of "\<lambda>d. d = rt_db r1" js, unfolded always_def, rule_format, OF refl,
        of "rt_faults r1"]
    by (auto simp: runPlain_def split: prod.split)
  then show ?thesis
    using 1 by (auto simp: Enqueue_def None t Wake_def split: sum.split prod.split)
      (metis snd_conv)+
qed (simp add: Enqueue_def)

lemma updateSchedules_db:
  assumes "\<And>st. ss_Key (f st) = ss_Key st \<and> ss_Enabled (f st) = ss_Enabled st \<and> ss_NextRunAt (f st) = ss_NextRunAt st"
    and "\<forall>st \<in> set (db_schedules (rt_db r)). \<not> dueSchedule now key st"
  shows "\<forall>st \<in> set (db_schedules (rt_db (snd (runPlain (updateSchedules p f) r)))). \<not> dueSchedule now key st"
proof -
  have "always (\<lambda>d. \<forall>st \<in> set (db_schedules d). \<not> dueSchedule now key st)
      (updateSchedules p f :: nat bg_tx)"
    unfolding updateSchedules_def
    by (rule always_stmt) (auto simp: set_update_where dueSchedule_def assms(1))
  then show ?thesis
    using assms(2) by (auto simp: runPlain_def always_def split: prod.split) (metis fst_conv snd_conv)
qed

definition nextRow :: "time \<Rightarrow> schedule_definition \<Rightarrow> schedule_state \<Rightarrow> schedule_state" where
  "nextRow now s st = st\<lparr>ss_NextRunAt := Some (now + sd_Interval s), ss_LastRunAt := Some now\<rparr>"

lemma claimSchedule_outcome:
  assumes "claimSchedule now s (d, fs) = (res, d', fs')"
  shows "(\<exists>e. res = Inl e) \<and> d' = d \<or>
    (\<exists>st \<in> set (db_schedules d). dueSchedule now (sd_Key s) st) \<and> (\<exists>n. res = Inr n) \<and>
    d' = d\<lparr>db_schedules := update_where (dueSchedule now (sd_Key s)) (nextRow now s) (db_schedules d)\<rparr>"
  using assms
  by (auto simp: claimSchedule_def updateSchedules_def nextRow_def [abs_def] tx_bind_def tx_first_def tx_stmt_def
      dest: find_key_SomeD split: prod.splits sum.splits list.splits option.splits)

lemma runSchedule_idle:
  assumes "\<forall>st \<in> set (db_schedules (rt_db r)). \<not> dueSchedule now (sd_Key s) st"
  shows "rt_db (runSchedule env now u uuids clock s r) = rt_db r"
proof -
  obtain res d' fs' where c: "claimSchedule now s (rt_db r, rt_faults r) = (res, d', fs')"
    by (metis surj_pair)
  from claimSchedule_outcome [OF this] assms obtain e where "res = Inl e" "d' = rt_db r" by blast
  with c show ?thesis by (simp add: runSchedule_def runPlain_def)
qed

text \<open>After a schedule has run, running it again before its interval has passed changes nothing
  in the database.\<close>

theorem schedule_once_per_interval:
  assumes "distinct (map ss_Key (db_schedules (rt_db r)))"
    and "r' = runSchedule env now u uuids clock s r" "rt_db r' \<noteq> rt_db r"
    and "now' < now + sd_Interval s" "now \<le> now'"
    and "r'' = runSchedule env now' u' uuids' clock' s r'"
  shows "rt_db r'' = rt_db r'"
proof -
  let ?idle = "\<lambda>r :: runtime. \<forall>st \<in> set (db_schedules (rt_db r)). \<not> dueSchedule now' (sd_Key s) st"
  obtain res d1 fs1 where c: "claimSchedule now s (rt_db r, rt_faults r) = (res, d1, fs1)"
    by (metis surj_pair)
  let ?r1 = "r\<lparr>rt_db := d1, rt_faults := fs1\<rparr>"
  have p: "runPlain (claimSchedule now s) r = (res, ?r1)" by (simp add: runPlain_def c)
  have "\<not> (\<exists>e. res = Inl e)"
    using assms(3) claimSchedule_outcome [OF c] by (auto simp: assms(2) runSchedule_def p)
  with claimSchedule_outcome [OF c] obtain n due where n: "res = Inr n"
    and due: "due \<in> set (db_schedules (rt_db r))" "dueSchedule now (sd_Key s) due"
    and d1: "d1 = (rt_db r)\<lparr>db_schedules :=
      update_where (dueSchedule now (sd_Key s)) (nextRow now s) (db_schedules (rt_db r))\<rparr>"
    by blast
  have "?idle ?r1"
  proof
    fix st assume "st \<in> set (db_schedules (rt_db ?r1))"
    then have "st \<in> set (update_where (dueSchedule now (sd_Key s)) (nextRow now s) (db_schedules (rt_db r)))"
      by (simp add: d1)
    then show "\<not> dueSchedule now' (sd_Key s) st"
    proof (cases rule: update_whereE)
      case (new st0)
      then show ?thesis using assms(4) by (simp add: nextRow_def dueSchedule_def)
    next
      case old
      have "st = due" if "ss_Key st = sd_Key s"
        using assms(1) old(1) due that by (auto simp: distinct_map inj_on_def dueSchedule_def)
      with old(2) due(2) show ?thesis by (auto simp: dueSchedule_def)
    qed
  qed
  moreover obtain e2 r2 where e: "Enqueue env u uuids clock (scheduleSpec (scheduleKey now s) s) ?r1 = (e2, r2)"
    by (metis surj_pair)
  ultimately have "?idle r2"
    using Enqueue_schedules [of env u uuids clock "scheduleSpec (scheduleKey now s) s" ?r1] by simp
  then have upd: "?idle (snd (runPlain (updateSchedules p f) r2))"
    if "\<And>st. ss_Key (f st) = ss_Key st \<and> ss_Enabled (f st) = ss_Enabled st
      \<and> ss_NextRunAt (f st) = ss_NextRunAt st" for p f
    using that by (intro updateSchedules_db)
  define idle where "idle = ?idle"
  have "idle ?r1" and upd: "idle (snd (runPlain (updateSchedules p f) r2))"
    if "\<And>st. ss_Key (f st) = ss_Key st \<and> ss_Enabled (f st) = ss_Enabled st
      \<and> ss_NextRunAt (f st) = ss_NextRunAt st" for p f
    using \<open>?idle ?r1\<close> upd [OF that] by (simp_all only: idle_def)
  then have "idle r'"
    unfolding assms(2) runSchedule_def p n by (cases e2) (auto simp: e upd split: prod.split)
  then have "?idle r'" by (simp only: idle_def)
  then show ?thesis unfolding assms(6) by (rule runSchedule_idle)
qed

text \<open>A schedule whose time has come.\<close>

definition demoSchedule :: schedule_definition where
  "demoSchedule = \<lparr>sd_Key = ''s'', sd_Kind = ''v'', sd_Queue = QueueFFmpeg, sd_Interval = 100,
     sd_RunOnStart = True, sd_Build = demoSpec\<rparr>"

definition demoScheduled :: runtime where
  "demoScheduled = snd (Start demoEnv 0 True None
     (snd (RegisterSchedule demoSchedule True (newRuntime emptyDb))))"

definition demoScheduleRun :: runtime where
  "demoScheduleRun =
     runSchedule demoEnv 5 ''j'' (\<lambda>_. ''t'') (\<lambda>i. int i) demoSchedule demoScheduled"

theorem schedule_once_per_interval_witness:
  "map js_Kind [demoSpec] = map job_Kind (db_jobs (rt_db demoScheduleRun)) \<and>
   rt_db (runSchedule demoEnv 104 ''j2'' (\<lambda>_. ''t2'') (\<lambda>i. int i) demoSchedule demoScheduleRun)
     = rt_db demoScheduleRun"
proof -
  have "map ss_Key (db_schedules (rt_db demoScheduled)) = [''s''] \<and> db_jobs (rt_db demoScheduled) = []"
    and jobs: "map job_Kind (db_jobs (rt_db demoScheduleRun)) = [''v'']"
    by code_simp+
  then have "distinct (map ss_Key (db_schedules (rt_db demoScheduled)))"
      "rt_db demoScheduleRun \<noteq> rt_db demoScheduled"
    by auto
  from schedule_once_per_interval [OF this(1) demoScheduleRun_def this(2) _ _ refl, where now' = 104
      and u' = "''j2''" and uuids' = "\<lambda>_. ''t2''" and clock' = "\<lambda>i. int i"] jobs
  show ?thesis by (simp add: demoSchedule_def demoSpec_def)
qed

end
