(* ===== verification/BgAccess.thy ===== *)
theory BgAccess
  imports BgFence
begin

text \<open>
  What callers see of the background runtime: the owner-scoped view of a job, the operations a
  job is said to allow, enqueueing twice under one idempotency key, and the queues' progress.
\<close>

section \<open>The view of one job\<close>

lemma find_append: "find p (xs @ ys) = (case find p xs of None \<Rightarrow> find p ys | Some x \<Rightarrow> Some x)"
  by (induction xs) simp_all

lemma runPlain_ok:
  assumes "runPlain m r = (Inr x, r')" "wp m Q (rt_db r)" shows "Q x (rt_db r')"
  using assms(1) wpD [OF assms(2)] by (auto simp: runPlain_def split: prod.splits)

text \<open>A job detail returned to a non-administrator is owned by that user and user-visible; it
  holds exactly the job's tasks, events and attempts, and reading it changes nothing.\<close>

theorem job_view_scoped:
  assumes "runPlain (jobView i owner admin) r = (Inr v, r')"
  shows "rt_db r' = rt_db r \<and> job_ID (jd_Job v) = i \<and>
    (\<not> admin \<longrightarrow> owner \<noteq> None \<and> job_OwnerID (jd_Job v) = owner \<and>
       job_Visibility (jd_Job v) = VisibilityUser) \<and>
    set (map fst (jd_Tasks v)) = {t \<in> set (db_tasks (rt_db r)). task_JobID t = i} \<and>
    set (jd_Events v) = {e \<in> set (db_events (rt_db r)). ev_JobID e = i} \<and>
    (\<forall>(t, as) \<in> set (jd_Tasks v). set as = {a \<in> set (db_attempts (rt_db r)). att_TaskID a = task_ID t})"
proof -
  have "wp (jobView i owner admin) (\<lambda>v d. d = rt_db r \<and> job_ID (jd_Job v) = i \<and>
    (\<not> admin \<longrightarrow> owner \<noteq> None \<and> job_OwnerID (jd_Job v) = owner \<and>
       job_Visibility (jd_Job v) = VisibilityUser) \<and>
    set (map fst (jd_Tasks v)) = {t \<in> set (db_tasks d). task_JobID t = i} \<and>
    set (jd_Events v) = {e \<in> set (db_events d). ev_JobID e = i} \<and>
    (\<forall>(t, as) \<in> set (jd_Tasks v). set as = {a \<in> set (db_attempts d). att_TaskID a = task_ID t})) (rt_db r)"
    unfolding jobView_def Let_def
    by (auto split: option.split bool.split simp: populateJobCapabilities_def tasksOf_def image_image
        intro!: tx_wp dest!: find_key_SomeD)
  from runPlain_ok [OF assms this] show ?thesis by (simp add: case_prod_unfold)
qed

theorem job_view_scoped_witness:
  "\<exists>v r'. runPlain (jobView ''j'' (Some 7) False) demoRunning = (Inr v, r') \<and>
     job_OwnerID (jd_Job v) = Some 7 \<and> rt_db r' = rt_db demoRunning"
proof -
  have "case runPlain (jobView ''j'' (Some 7) False) demoRunning of (Inr v, _) \<Rightarrow> True | _ \<Rightarrow> False"
    by code_simp
  then obtain v r' where v: "runPlain (jobView ''j'' (Some 7) False) demoRunning = (Inr v, r')"
    by (auto split: prod.splits sum.splits)
  with job_view_scoped [OF v] show ?thesis by blast
qed

section \<open>Capabilities\<close>

lemma jobOK_active:
  assumes "jobOK T j" "\<not> terminalJobStatus (job_Status j)"
  shows "pausableJobStatus (job_Status j) \<longleftrightarrow>
      job_PauseRequestedAt j = None \<and> job_CancelRequestedAt j = None"
    and "job_Status j = JobPauseRequested \<or> job_Status j = JobPaused \<longleftrightarrow>
      job_PauseRequestedAt j \<noteq> None \<and> job_CancelRequestedAt j = None"
proof -
  have "job_Status j = specStatus (job_CancelRequestedAt j \<noteq> None) (job_PauseRequestedAt j \<noteq> None) T"
    and "\<exists>t \<in> T. \<not> terminalTaskStatus (task_Status t)"
    using assms by (auto simp: jobOK_def specStatus_terminal)
  then show "pausableJobStatus (job_Status j) \<longleftrightarrow>
      job_PauseRequestedAt j = None \<and> job_CancelRequestedAt j = None"
    and "job_Status j = JobPauseRequested \<or> job_Status j = JobPaused \<longleftrightarrow>
      job_PauseRequestedAt j \<noteq> None \<and> job_CancelRequestedAt j = None"
    by (simp_all add: specStatus_def)
qed

lemma runTx_succeeds:
  assumes "rt_faults r = []" "runs m (\<lambda>_ _. True) (rt_db r)"
  shows "\<exists>x r'. runTx m r = (Inr x, r') \<and> rt_faults r' = []"
  using assms by (rule runTx_runs) blast

lemma runTx_fails: "wp m (\<lambda>_ _. False) (rt_db r) \<Longrightarrow> \<exists>e r'. runTx m r = (Inl e, r')"
  by (metis runTx_False)

lemma committing_none:
  "\<not> (0 < affected (\<lambda>t. task_JobID t = i \<and> committingTask t) (db_tasks d)) \<longleftrightarrow>
    i \<notin> set (remdups (map task_JobID (filter (\<lambda>t. task_JobID t \<in> {i} \<and> committingTask t) (db_tasks d))))"
  by (auto simp: affected_def filter_empty_conv)

lemma capabilities_single:
  assumes "rt_faults r = []" "runPlain (populateCancellationCapabilities [j]) r = (Inr vs, r')"
  shows "\<exists>v. vs = [v] \<and>
    (job_CanCancel v \<longleftrightarrow> cancellableJobStatus (job_Status j) \<and>
      affected (\<lambda>t. task_JobID t = job_ID j \<and> committingTask t) (db_tasks (rt_db r)) = 0) \<and>
    (job_CanPause v \<longleftrightarrow> job_Pausable j \<and> pausableJobStatus (job_Status j) \<and>
      affected (\<lambda>t. task_JobID t = job_ID j \<and> committingTask t) (db_tasks (rt_db r)) = 0) \<and>
    (job_CanResume v \<longleftrightarrow> job_Status j = JobPauseRequested \<or> job_Status j = JobPaused)"
proof -
  have c: "pausableJobStatus s \<Longrightarrow> cancellableJobStatus s" for s by (cases s) simp_all
  show ?thesis
    using assms c [of "job_Status j"]
    by (auto simp: runPlain_def populateCancellationCapabilities_def populateJobCapabilities_def
        Let_def tx_run affected_0_iff split: if_splits prod.splits)
qed

text \<open>In a reachable fault-free state the can_pause and can_resume flags shown for a job hold
  exactly when PauseJob and ResumeJob would succeed, and can_cancel implies that CancelJob
  succeeds.\<close>

theorem capabilities_honest:
  assumes "bg_reachable env r" "rt_faults r = []" and "j \<in> set (db_jobs (rt_db r))"
    and "runPlain (populateCancellationCapabilities [j]) r = (Inr [v], r')"
  shows "(job_CanPause v \<longleftrightarrow> fst (PauseJob env now (job_ID j) actor name r) = None) \<and>
    (job_CanResume v \<longleftrightarrow> fst (ResumeJob env now (job_ID j) actor name r) = None) \<and>
    (job_CanCancel v \<longrightarrow> fst (CancelJob env now (job_ID j) actor name r) = None)"
proof -
  note inv = rtInv_dbD [OF reachable_rtInv [OF assms(1)]]
  note ok = dbInv_jobOK [OF inv assms(3)]
  have row: "jobById (job_ID j) (rt_db r) = Some j" by (rule dbInv_jobById [OF inv assms(3)])
  let ?n = "affected (\<lambda>t. task_JobID t = job_ID j \<and> committingTask t) (db_tasks (rt_db r))"
  have cap: "job_CanCancel v \<longleftrightarrow> cancellableJobStatus (job_Status j) \<and> ?n = 0"
    "job_CanPause v \<longleftrightarrow> job_Pausable j \<and> pausableJobStatus (job_Status j) \<and> ?n = 0"
    "job_CanResume v \<longleftrightarrow> job_Status j = JobPauseRequested \<or> job_Status j = JobPaused"
    using capabilities_single [OF assms(2,4)] by auto
  have pausable: "pausableJobStatus (job_Status j) \<Longrightarrow>
      job_PauseRequestedAt j = None \<and> job_CancelRequestedAt j = None"
    using jobOK_active(1) [OF ok] by (cases "job_Status j") simp_all
  have p1: "fst (PauseJob env now (job_ID j) actor name r) = None" if "job_CanPause v"
  proof -
    have "runs (pauseBody env now (job_ID j) actor name) (\<lambda>_ _. True) (rt_db r)"
      unfolding pauseBody_def countCommitting_def updateJob_def
      by (intro tx_runs runs_first [where x = j] runs_recompute [where j = "job_PausedAt_update (\<lambda>_. None) (job_PauseRequestedAt_update (\<lambda>_. Some now) j)"])
        (use that cap pausable row in \<open>auto simp: jobById_update\<close>)
    from runTx_succeeds [OF assms(2) this] show ?thesis by (auto simp: PauseJob_def)
  qed
  have p2: "fst (PauseJob env now (job_ID j) actor name r) \<noteq> None" if "\<not> job_CanPause v"
  proof -
    have "wp (pauseBody env now (job_ID j) actor name) (\<lambda>_ _. False) (rt_db r)"
      unfolding pauseBody_def countCommitting_def
      by (intro tx_wp) (use that cap row in auto)
    from runTx_fails [OF this] show ?thesis by (auto simp: PauseJob_def)
  qed
  have r1: "fst (ResumeJob env now (job_ID j) actor name r) = None" if "job_CanResume v"
  proof -
    have "runs (resumeBody env now (job_ID j) actor name) (\<lambda>_ _. True) (rt_db r)"
      unfolding resumeBody_def updateJob_def
      by (intro tx_runs runs_first [where x = j] runs_recompute [where j = "job_PausedAt_update (\<lambda>_. None) (job_PauseRequestedAt_update (\<lambda>_. None) j)"])
        (use that cap row in \<open>auto simp: jobById_update\<close>)
    from runTx_succeeds [OF assms(2) this] show ?thesis by (auto simp: ResumeJob_def wakeOnSuccess_def)
  qed
  have r2: "fst (ResumeJob env now (job_ID j) actor name r) \<noteq> None" if "\<not> job_CanResume v"
  proof -
    have "wp (resumeBody env now (job_ID j) actor name) (\<lambda>_ _. False) (rt_db r)"
      unfolding resumeBody_def by (intro tx_wp) (use that cap row in auto)
    from runTx_fails [OF this] show ?thesis by (auto simp: ResumeJob_def wakeOnSuccess_def)
  qed
  have c1: "fst (CancelJob env now (job_ID j) actor name r) = None" if "job_CanCancel v"
  proof -
    have "runs (cancelJobBody env now (job_ID j) actor name) (\<lambda>_ _. True) (rt_db r)"
      unfolding cancelJobBody_def countCommitting_def updateJob_def
      by (intro tx_runs runs_first [where x = j] runs_recompute [where j = "j\<lparr>job_Status := JobCancelRequested,
       job_CancelRequestedAt := Some now, job_PauseRequestedAt := None, job_PausedAt := None\<rparr>"])
        (use that cap row in \<open>auto simp: jobById_update elim: cancellableJobStatus.elims\<close>)
    from runTx_succeeds [OF assms(2) this] show ?thesis
      by (auto simp: CancelJob_def runPlain_def tx_run)
  qed
  from p1 p2 r1 r2 c1 show ?thesis by blast
qed

theorem capabilities_honest_witness:
  "\<exists>j v r'. j \<in> set (db_jobs (rt_db demoRunning)) \<and>
     runPlain (populateCancellationCapabilities [j]) demoRunning = (Inr [v], r') \<and>
     job_CanPause v \<and> fst (PauseJob demoEnv 20 (job_ID j) 1 ''x'' demoRunning) = None"
proof -
  let ?j = "hd (db_jobs (rt_db demoRunning))"
  have "rt_faults demoRunning = [] \<and> db_jobs (rt_db demoRunning) \<noteq> [] \<and>
      (case runPlain (populateCancellationCapabilities [?j]) demoRunning of
         (Inr [v], _) \<Rightarrow> job_CanPause v | _ \<Rightarrow> False)"
    by code_simp
  then obtain v r' where *: "rt_faults demoRunning = []" "?j \<in> set (db_jobs (rt_db demoRunning))"
      "runPlain (populateCancellationCapabilities [?j]) demoRunning = (Inr [v], r')" "job_CanPause v"
    by (auto split: prod.splits sum.splits list.splits)
  with capabilities_honest [OF demoRunning_reachable *(1-3), of 20 1 "''x''"] show ?thesis by blast
qed

section \<open>Idempotent enqueueing\<close>

text \<open>The rows that \<open>createTasks\<close> appends.\<close>

fun rowsOf ::
  "(nat \<Rightarrow> string) \<Rightarrow> (nat \<Rightarrow> time) \<Rightarrow> string \<Rightarrow> nat \<Rightarrow> task_spec list \<Rightarrow> task list \<Rightarrow> bool" where
  "rowsOf uuids clock i n [] ts \<longleftrightarrow> ts = []"
| "rowsOf uuids clock i n (s # specs) ts \<longleftrightarrow>
     (\<exists>p ts'. marshalPayload (ts_Payload s) = Inr p \<and>
        ts = newTask (clock (Suc n)) (uuids n) i
          (withDedupeKey (ts_Kind s @ '':'' @ show_int (int n)) s) p # ts' \<and>
        rowsOf uuids clock i (Suc n) specs ts')"

lemma wp_createTasks_rows:
  "wp (createTasks env uuids clock i n specs)
    (\<lambda>_ d'. db_jobs d' = db_jobs d \<and> (\<exists>ts. rowsOf uuids clock i n specs ts \<and> db_tasks d' = db_tasks d @ ts)) d"
proof (induction specs arbitrary: n d)
  case Nil
  then show ?case by (simp add: wp_return)
next
  case (Cons s specs)
  let ?s = "withDedupeKey (ts_Kind s @ '':'' @ show_int (int n)) s"
  have same: "ts_Payload ?s = ts_Payload s" by (simp add: withDedupeKey_def)
  have first: "wp (createTask env (clock (Suc n)) (uuids n) i ?s)
      (\<lambda>_ d'. db_jobs d' = db_jobs d \<and> (\<exists>p. marshalPayload (ts_Payload s) = Inr p \<and>
        db_tasks d' = db_tasks d @ [newTask (clock (Suc n)) (uuids n) i ?s p])) d"
    unfolding createTask_def insertTask_def Let_def same
    by (auto split: sum.split if_splits intro!: tx_wp wp_stmt)
  show ?case
    unfolding createTasks.simps
  proof (rule wp_bind, rule wp_mono [OF first])
    fix x and d' :: bgdb
    assume d': "db_jobs d' = db_jobs d \<and> (\<exists>p. marshalPayload (ts_Payload s) = Inr p \<and>
        db_tasks d' = db_tasks d @ [newTask (clock (Suc n)) (uuids n) i ?s p])"
    show "wp (createTasks env uuids clock i (Suc n) specs) (\<lambda>_ d''. db_jobs d'' = db_jobs d \<and>
        (\<exists>ts. rowsOf uuids clock i n (s # specs) ts \<and> db_tasks d'' = db_tasks d @ ts)) d'"
      by (rule wp_mono [OF Cons.IH]) (use d' in auto)
  qed
qed

lemma withDedupeKey_simps [simp]:
  "ts_Kind (withDedupeKey k s) = ts_Kind s" "ts_Queue (withDedupeKey k s) = ts_Queue s"
  "ts_Payload (withDedupeKey k s) = ts_Payload s"
  "ts_ParentTaskID (withDedupeKey k s) = ts_ParentTaskID s"
  by (simp_all add: withDedupeKey_def)

lemma rowsOf_created:
  assumes "rowsOf uuids clock i n specs ts" "\<And>k. clock k < clock (Suc k)" "t \<in> set ts"
  shows "clock n < task_CreatedAt t"
  using assms(1,3)
proof (induction specs arbitrary: n ts)
  case (Cons s specs)
  then show ?case
    using assms(2) [of n] less_trans by (fastforce simp: newTask_def)
qed simp

lemma rowsOf_sorted:
  assumes "rowsOf uuids clock i n specs ts" "\<And>k. clock k < clock (Suc k)"
  shows "sorted (map (\<lambda>t. (task_CreatedAt t, task_ID t)) ts)"
  using assms(1)
proof (induction specs arbitrary: n ts)
  case (Cons s specs)
  from Cons.prems obtain p ts' where
    ts: "ts = newTask (clock (Suc n)) (uuids n) i
          (withDedupeKey (ts_Kind s @ '':'' @ show_int (int n)) s) p # ts'"
    and rest: "rowsOf uuids clock i (Suc n) specs ts'"
    by auto
  have "clock (Suc n) < task_CreatedAt t" if "t \<in> set ts'" for t
    by (rule rowsOf_created [OF rest assms(2) that])
  with Cons.IH [OF rest] show ?case by (auto simp: ts newTask_def)
qed simp

lemma rowsOf_filter:
  "rowsOf uuids clock i n specs ts \<Longrightarrow> \<forall>s \<in> set specs. ts_ParentTaskID s = [] \<Longrightarrow>
    filter (\<lambda>t. task_JobID t = i \<and> task_ParentTaskID t = []) ts = ts"
  by (induction specs arbitrary: n ts) (auto simp: newTask_def)

lemma rowsOf_length: "rowsOf uuids clock i n specs ts \<Longrightarrow> length ts = length specs"
  by (induction specs arbitrary: n ts) auto

lemma rowsOf_sameTasks:
  "rowsOf uuids clock i n specs ts \<Longrightarrow> runs (sameTasks ts specs) (\<lambda>_ d'. d' = d) d"
  by (induction specs arbitrary: n ts) (auto simp: newTask_def intro!: runs_return)

lemma wp_insertJob_row:
  "wp (insertJob j) (\<lambda>_ d'. d' = d\<lparr>db_jobs := db_jobs d @ [j]\<rparr> \<and>
    (job_IdempotencyKey j \<noteq> [] \<longrightarrow> jobByIdempotencyKey (job_IdempotencyKey j) d = None) \<and>
    (\<forall>j' \<in> set (db_jobs d). job_ID j' \<noteq> job_ID j)) d"
  unfolding insertJob_def
  by (rule wp_stmt) (auto simp: jobByIdempotencyKey_def find_None_iff list_ex_iff split: if_splits)

definition createdRows ::
  "env \<Rightarrow> string \<Rightarrow> (nat \<Rightarrow> string) \<Rightarrow> (nat \<Rightarrow> time) \<Rightarrow> job_spec \<Rightarrow> bgdb \<Rightarrow> job \<Rightarrow> bgdb \<Rightarrow> bool" where
  "createdRows env u uuids clock spec d j d' \<longleftrightarrow>
     j = newJob env (clock 0) u spec \<and> db_jobs d' = db_jobs d @ [j] \<and>
     (js_IdempotencyKey spec \<noteq> [] \<longrightarrow> jobByIdempotencyKey (js_IdempotencyKey spec) d = None) \<and>
     (\<forall>j' \<in> set (db_jobs d). job_ID j' \<noteq> u) \<and>
     (\<exists>ts. rowsOf uuids clock u 0 (js_Tasks spec) ts \<and> db_tasks d' = db_tasks d @ ts)"

lemma createJob_rows:
  "wp (createJob env u uuids clock spec) (\<lambda>(j, reused) d'. \<not> reused \<longrightarrow>
    createdRows env u uuids clock spec d j d') d"
proof -
  let ?j = "newJob env (clock 0) u spec"
  let ?Q = "\<lambda>reused d'. reused = None \<longrightarrow> d' = d\<lparr>db_jobs := db_jobs d @ [?j]\<rparr> \<and>
    (js_IdempotencyKey spec \<noteq> [] \<longrightarrow> jobByIdempotencyKey (js_IdempotencyKey spec) d = None) \<and>
    (\<forall>j' \<in> set (db_jobs d). job_ID j' \<noteq> u)"
  have key: "job_IdempotencyKey ?j = js_IdempotencyKey spec" by (simp add: newJob_def)
  have insert: "wp (tx_bind (insertJob ?j) (\<lambda>_. tx_return None)) ?Q d"
    by (rule wp_bind, rule wp_mono [OF wp_insertJob_row]) (auto intro!: wp_return simp: key)
  have handler: "wp (if c then tx_bind
          (tx_catch (tx_bind (tx_first f) (\<lambda>existing. tx_return (Some existing))) (\<lambda>_. tx_return None))
          (\<lambda>found. case found of
             Some existing \<Rightarrow> tx_bind (validateIdempotentReuse existing spec)
               (\<lambda>_. tx_return (Some existing))
           | None \<Rightarrow> tx_fail e)
        else tx_fail e) ?Q d" for c f e
    by (intro wp_if wp_fail wp_bind wp_tryFirst) (auto intro!: tx_wp wp_reuse)
  have rest: "wp (case reused of
        Some existing \<Rightarrow> tx_return (existing, True)
      | None \<Rightarrow>
          tx_bind (createTasks env uuids clock u 0 (js_Tasks spec)) (\<lambda>_.
          tx_bind (addEvent env (clock 0) ev) (\<lambda>_.
          tx_return (?j, False))))
      (\<lambda>(j, reused) d'. \<not> reused \<longrightarrow> createdRows env u uuids clock spec d j d') d'"
    if "?Q reused d'" for reused d' ev
    using that
    by (auto simp: createdRows_def split: option.splits
        intro!: tx_wp wp_mono [OF wp_createTasks_rows])
  show ?thesis
    unfolding createJob_def Let_def
    by (rule wp_bind, rule wp_mono [OF wp_catch [OF insert handler]])
      (rule disjI2, intro allI impI, erule insertJob_error, erule rest)
qed

lemma enqueueBody_rows:
  assumes "sp = spec\<lparr>js_IdempotencyKey := normalizeIdempotencyKey env (js_IdempotencyKey spec)\<rparr>"
  shows "wp (enqueueBody env u uuids clock spec) (\<lambda>(j, reused) d'. \<not> reused \<longrightarrow>
    createdRows env u uuids clock sp d j d') d"
  unfolding enqueueBody_def Let_def assms [symmetric]
  by (intro wp_if wp_bind wp_lookup createJob_rows)
    (auto intro!: createJob_rows wp_bind wp_return wp_reuse)

lemma reuse_runs:
  assumes "createdRows env u uuids clock sp d j d1" "dbInv L d"
    and "\<And>k. clock k < clock (Suc k)" "\<forall>s \<in> set (js_Tasks sp). ts_ParentTaskID s = []"
  shows "runs (validateIdempotentReuse j sp) (\<lambda>_ d'. d' = d1) d1"
proof -
  obtain ts where ts: "rowsOf uuids clock u 0 (js_Tasks sp) ts" "db_tasks d1 = db_tasks d @ ts"
    and j: "j = newJob env (clock 0) u sp" and new: "\<forall>j' \<in> set (db_jobs d). job_ID j' \<noteq> u"
    using assms(1) by (auto simp: createdRows_def)
  have "task_JobID t \<noteq> u" if "t \<in> set (db_tasks d)" for t
    using dbInv_task_job [OF assms(2) that] new by metis
  then have "filter (\<lambda>t. task_JobID t = u \<and> task_ParentTaskID t = []) (db_tasks d1) = ts"
    using rowsOf_filter [OF ts(1) assms(4)] by (auto simp: ts(2) filter_empty_conv)
  then have "rootTasks u d1 = sort_key (\<lambda>t. (task_CreatedAt t, task_ID t)) ts"
    by (simp add: rootTasks_def)
  also have "\<dots> = ts"
    using rowsOf_sorted [OF ts(1) assms(3)] by (rule sort_key_id_if_sorted)
  finally have root: "rootTasks u d1 = ts" .
  show ?thesis
    unfolding validateIdempotentReuse_def
    using rowsOf_sameTasks [OF ts(1)] rowsOf_length [OF ts(1)]
    by (auto simp: j newJob_def root intro!: tx_runs)
qed

lemma capabilities_ID:
  "wp (populateCancellationCapabilities [j]) (\<lambda>vs _. \<exists>v. vs = [v] \<and> job_ID v = job_ID j) d"
  unfolding populateCancellationCapabilities_def Let_def
  by (intro tx_wp) (auto simp: populateJobCapabilities_def)

lemma capabilities_runs:
  "runs (populateCancellationCapabilities [j])
    (\<lambda>vs d'. d' = d \<and> (\<exists>v. vs = [v] \<and> job_ID v = job_ID j)) d"
  unfolding populateCancellationCapabilities_def Let_def
  by (intro tx_runs) (auto simp: populateJobCapabilities_def)

text \<open>C37: When Enqueue creates a job under an idempotency key, with strictly increasing task
  creation times and root tasks only, repeating the same spec succeeds, reports reuse, returns
  the same job id and leaves the database as it was.\<close>

theorem enqueue_idempotent:
  assumes "bg_reachable env r" "rt_faults r1 = []"
    and "normalizeIdempotencyKey env (js_IdempotencyKey spec) \<noteq> []"
    and "\<forall>k. clock k < clock (Suc k)" and "\<forall>s \<in> set (js_Tasks spec). ts_ParentTaskID s = []"
    and "Enqueue env u uuids clock spec r = (Inr (j, False), r1)"
  shows "\<exists>j' r2. Enqueue env u' uuids' clock' spec r1 = (Inr (j', True), r2) \<and>
    job_ID j' = job_ID j \<and> rt_db r2 = rt_db r1"
proof -
  define sp where "sp = spec\<lparr>js_IdempotencyKey := normalizeIdempotencyKey env (js_IdempotencyKey spec)\<rparr>"
  have valid: "validateJobSpec spec = None"
    using assms(6) by (auto simp: Enqueue_def split: option.splits)
  obtain j0 ra vs rb where t1: "runTx (enqueueBody env u uuids clock spec) r = (Inr (j0, False), ra)"
    and t2: "runPlain (populateCancellationCapabilities [j0]) ra = (Inr vs, rb)"
    and out: "j = hd vs" "r1 = Wake rb"
    using assms(6) valid by (auto simp: Enqueue_def split: prod.splits sum.splits)
  have created: "createdRows env u uuids clock sp (rt_db r) j0 (rt_db ra)"
    using runTx_ok [OF t1 enqueueBody_rows [OF sp_def]] by simp
  have "job_ID j = job_ID j0" using runPlain_ok [OF t2 capabilities_ID] out(1) by auto
  have "rt_db rb = rt_db ra"
    using runPlain_ok [OF t2 always_wp [OF always_capabilities [of "\<lambda>d. d = rt_db ra"]]] by simp
  then have db1: "rt_db r1 = rt_db ra" by (simp add: out(2) Wake_def)
  have found: "jobByIdempotencyKey (js_IdempotencyKey sp) (rt_db r1) = Some j0"
    using created assms(3)
    by (auto simp: createdRows_def jobByIdempotencyKey_def db1 sp_def newJob_def find_append)
  have lookup: "runs (tx_catch (tx_bind (tx_first (jobByIdempotencyKey (js_IdempotencyKey sp)))
      (\<lambda>x. tx_return (Some x))) h) (\<lambda>x d'. x = Some j0 \<and> d' = rt_db r1) (rt_db r1)" for h
    by (simp add: runs_def tx_run found)
  have key: "(js_IdempotencyKey sp = []) = False" using assms(3) by (simp add: sp_def)
  have tasks: "\<forall>s \<in> set (js_Tasks sp). ts_ParentTaskID s = []" using assms(5) by (simp add: sp_def)
  have reuse: "runs (validateIdempotentReuse j0 sp) (\<lambda>_ d'. d' = rt_db r1) (rt_db r1)"
    using reuse_runs [OF created rtInv_dbD [OF reachable_rtInv [OF assms(1)]] _ tasks] assms(4)
    by (simp add: db1)
  have "runs (enqueueBody env u' uuids' clock' spec)
      (\<lambda>x d'. x = (j0, True) \<and> d' = rt_db r1) (rt_db r1)"
    unfolding enqueueBody_def Let_def sp_def [symmetric] key if_False
    by (rule runs_bind, rule runs_mono [OF lookup], elim conjE, simp only: option.case)
      (intro runs_bind runs_mono [OF reuse] runs_return, simp)
  with assms(2) obtain x r1' where t1': "runTx (enqueueBody env u' uuids' clock' spec) r1 = (Inr (j0, True), r1')"
      "rt_db r1' = rt_db r1" "rt_faults r1' = []"
    by (rule runTx_runs) auto
  obtain vs' fs where c: "populateCancellationCapabilities [j0] (rt_db r1', []) = (Inr vs', rt_db r1', fs)"
      "job_ID (hd vs') = job_ID j0"
    using capabilities_runs [of j0 "rt_db r1'"] by (auto simp: runs_def)
  show ?thesis
    using t1' c valid \<open>job_ID j = job_ID j0\<close>
    by (auto simp: Enqueue_def runPlain_def Wake_def)
qed

theorem enqueue_idempotent_witness:
  "\<exists>j j' r2. Enqueue demoEnv ''j'' (\<lambda>_. ''t'') (\<lambda>i. int i) demoSpec demoStarted
      = (Inr (j, False), demoQueued) \<and>
    Enqueue demoEnv ''k'' (\<lambda>_. ''u'') (\<lambda>i. int i + 9) demoSpec demoQueued = (Inr (j', True), r2) \<and>
    job_ID j' = job_ID j \<and> rt_db r2 = rt_db demoQueued"
proof -
  have "case Enqueue demoEnv ''j'' (\<lambda>_. ''t'') (\<lambda>i. int i) demoSpec demoStarted of
      (Inr (_, reused), r) \<Rightarrow> \<not> reused | _ \<Rightarrow> False"
    and f: "rt_faults demoQueued = []"
    and k: "normalizeIdempotencyKey demoEnv (js_IdempotencyKey demoSpec) \<noteq> []"
    by code_simp+
  then obtain j where e: "Enqueue demoEnv ''j'' (\<lambda>_. ''t'') (\<lambda>i. int i) demoSpec demoStarted
      = (Inr (j, False), demoQueued)"
    by (auto simp: demoQueued_def split: prod.splits sum.splits)
  have "\<forall>s \<in> set (js_Tasks demoSpec). ts_ParentTaskID s = []"
    by (simp add: demoSpec_def demoTask_def)
  from enqueue_idempotent [OF demoStarted_reachable f k _ this e, of "''k''" "\<lambda>_. ''u''" "\<lambda>i. int i + 9"] e
  show ?thesis by simp
qed

section \<open>Conflicting keys\<close>

text \<open>Enqueue with an idempotency key that a job with another kind, owner or number of root
  tasks holds fails with ErrIdempotencyConflict and writes nothing.\<close>

theorem enqueue_conflict:
  assumes "rt_faults r = []" "validateJobSpec spec = None"
    and "jobByIdempotencyKey (normalizeIdempotencyKey env (js_IdempotencyKey spec)) (rt_db r) = Some j"
    and "normalizeIdempotencyKey env (js_IdempotencyKey spec) \<noteq> []"
    and "job_Kind j \<noteq> js_Kind spec \<or> job_OwnerID j \<noteq> js_OwnerID spec \<or>
      length (rootTasks (job_ID j) (rt_db r)) \<noteq> length (js_Tasks spec)"
  shows "fst (Enqueue env u uuids clock spec r) = Inl (App ErrIdempotencyConflict) \<and>
    rt_db (snd (Enqueue env u uuids clock spec r)) = rt_db r"
  using assms(5)
  by (auto simp: Enqueue_def assms(1-4) runTx_def enqueueBody_def Let_def tx_run
      validateIdempotentReuse_def)

theorem enqueue_conflict_witness:
  "fst (Enqueue demoEnv ''k'' (\<lambda>_. ''u'') (\<lambda>i. int i) (demoSpec\<lparr>js_Kind := ''w''\<rparr>) demoQueued) =
    Inl (App ErrIdempotencyConflict)"
proof -
  have f: "rt_faults demoQueued = []"
    and v: "validateJobSpec (demoSpec\<lparr>js_Kind := ''w''\<rparr>) = None"
    and k: "normalizeIdempotencyKey demoEnv (js_IdempotencyKey (demoSpec\<lparr>js_Kind := ''w''\<rparr>)) \<noteq> []"
    and "case jobByIdempotencyKey (normalizeIdempotencyKey demoEnv
        (js_IdempotencyKey (demoSpec\<lparr>js_Kind := ''w''\<rparr>))) (rt_db demoQueued) of
      None \<Rightarrow> False | Some j \<Rightarrow> job_Kind j = ''v''"
    by code_simp+
  then obtain j where j: "jobByIdempotencyKey (normalizeIdempotencyKey demoEnv
        (js_IdempotencyKey (demoSpec\<lparr>js_Kind := ''w''\<rparr>))) (rt_db demoQueued) = Some j" "job_Kind j = ''v''"
    by (auto split: option.splits)
  have "job_Kind j \<noteq> js_Kind (demoSpec\<lparr>js_Kind := ''w''\<rparr>)" by (simp add: j(2))
  with enqueue_conflict [OF f v j(1) k] show ?thesis by blast
qed

end
