(* ===== verification/BgProgress.thy ===== *)
theory BgProgress
  imports BgFence
begin








text \<open>A dispatch round on a paused queue changes neither the database nor the active workers.\<close>

theorem paused_queue_idle:
  assumes "find (\<lambda>s. qs_Name s = q) (db_queues (rt_db r)) = Some state" "qs_Paused state"
    and "r' = dispatchOne env clock uuids q r"
  shows "rt_db r' = rt_db r \<and> rt_active r' = rt_active r"
proof -
  obtain res r1 where p: "runPlain (queuePaused q) r = (res, r1)" by (metis surj_pair)
  then have "rt_db r1 = rt_db r \<and> rt_active r1 = rt_active r \<and> (\<forall>b. res = Inr b \<longrightarrow> b)"
    using assms(1,2)
    by (auto simp: runPlain_def queuePaused_def tx_bind_def tx_first_def tx_stmt_def tx_return_def
        split: list.splits option.splits)
  then show ?thesis by (cases res) (simp_all add: assms(3) dispatchOne_def p)
qed

theorem paused_queue_idle_witness:
  "rt_active (dispatchOne demoEnv (\<lambda>_. 10) (\<lambda>_. ''a'') QueueFFmpeg
     (snd (SetQueuePaused 5 QueueFFmpeg True 1 demoQueued))) =
   rt_active (snd (SetQueuePaused 5 QueueFFmpeg True 1 demoQueued))"
proof -
  let ?r = "snd (SetQueuePaused 5 QueueFFmpeg True 1 demoQueued)"
  have "case find (\<lambda>s. qs_Name s = QueueFFmpeg) (db_queues (rt_db ?r)) of
      None \<Rightarrow> False | Some state \<Rightarrow> qs_Paused state"
    by code_simp
  then obtain state where "find (\<lambda>s. qs_Name s = QueueFFmpeg) (db_queues (rt_db ?r)) = Some state"
      "qs_Paused state"
    by (auto split: option.splits)
  from paused_queue_idle [OF this refl, of demoEnv "\<lambda>_. 10" "\<lambda>_. ''a''"] show ?thesis by simp
qed

end
