(* ===== verification/Traffic.thy ===== *)
theory Traffic
  imports Prelude "HOL-Library.Word" "HOL-Library.AList" "HOL-Library.Multiset"
    "HOL-Library.List_Lexorder" "HOL-Library.Char_ord"
begin

text \<open>
  The buffered traffic recorder (\<^verbatim>\<open>traffic/recorder.go\<close>): playback events are summed in memory
  per minute and subject, and flushed in batches into the rollup rows of \<^verbatim>\<open>traffic_logs\<close>. The
  map \<^verbatim>\<open>pending\<close> is an association list with distinct keys; the order in which Go iterates it
  is an argument of the flush. A flush is two steps, because events are recorded while its
  transaction runs.
\<close>

type_synonym uint64 = "64 word"

section \<open>Data\<close>

record traffic_event =
  te_At :: "time option"        \<comment> \<open>\<^verbatim>\<open>None\<close> is the zero time\<close>
  te_UserID :: nat
  te_FileID :: nat
  te_QualityID :: nat
  te_AudioID :: nat
  te_Source :: string
  te_Bytes :: uint64
  te_StoragePoolID :: nat
  te_StorageMountUUID :: string
  te_DeliverySource :: string

record agg_key =
  ak_BucketStart :: int
  ak_UserID :: nat
  ak_FileID :: nat
  ak_QualityID :: nat
  ak_AudioID :: nat
  ak_Source :: string
  ak_StoragePoolID :: nat
  ak_StorageMountUUID :: string
  ak_DeliverySource :: string

record aggregate =
  ag_Bytes :: uint64
  ag_Requests :: uint64

text \<open>The columns of \<^verbatim>\<open>models.TrafficLog\<close>; those copied from the key are kept as the key.\<close>

record traffic_row =
  tl_RollupKey :: string
  tl_Key :: agg_key
  tl_Bytes :: uint64
  tl_RequestCount :: uint64
  tl_UpdatedAt :: time

record recorder =
  rc_flushThreshold :: nat
  rc_maxPending :: nat
  rc_pending :: "(agg_key \<times> aggregate) list"
  rc_inflight :: nat
  rc_inflightKeys :: "agg_key list"
  rc_stopped :: bool
  rc_droppedEvents :: uint64
  rc_flushFailures :: uint64
  rc_flushedRequests :: uint64
  rc_lastFlushAt :: "time option"
  rc_lastError :: string
  rc_wake :: bool

definition defaultFlushBatchSize :: nat where "defaultFlushBatchSize = 5000"

text \<open>\<^verbatim>\<open>NewRecorder\<close> with its defaults for options that are not positive.\<close>

definition newRecorder :: "int \<Rightarrow> int \<Rightarrow> recorder" where
  "newRecorder threshold maxPending =
     \<lparr>rc_flushThreshold = (if threshold \<le> 0 then 512 else nat threshold),
      rc_maxPending = (if maxPending \<le> 0 then 100000 else nat maxPending),
      rc_pending = [], rc_inflight = 0, rc_inflightKeys = [], rc_stopped = False,
      rc_droppedEvents = 0, rc_flushFailures = 0, rc_flushedRequests = 0,
      rc_lastFlushAt = None, rc_lastError = [], rc_wake = False\<rparr>"

section \<open>Recording\<close>

definition eventKey :: "time \<Rightarrow> traffic_event \<Rightarrow> agg_key" where
  "eventKey now e =
     (let at = (case te_At e of None \<Rightarrow> now | Some at \<Rightarrow> at)
      in \<lparr>ak_BucketStart = (at div minute) * 60, ak_UserID = te_UserID e, ak_FileID = te_FileID e,
          ak_QualityID = te_QualityID e, ak_AudioID = te_AudioID e, ak_Source = te_Source e,
          ak_StoragePoolID = te_StoragePoolID e, ak_StorageMountUUID = te_StorageMountUUID e,
          ak_DeliverySource = te_DeliverySource e\<rparr>)"

definition zeroAggregate :: aggregate where
  "zeroAggregate = \<lparr>ag_Bytes = 0, ag_Requests = 0\<rparr>"

definition addAggregate :: "aggregate \<Rightarrow> aggregate \<Rightarrow> aggregate" where
  "addAggregate a b = \<lparr>ag_Bytes = ag_Bytes a + ag_Bytes b, ag_Requests = ag_Requests a + ag_Requests b\<rparr>"

definition lookupAggregate :: "agg_key \<Rightarrow> (agg_key \<times> aggregate) list \<Rightarrow> aggregate" where
  "lookupAggregate k xs = (case map_of xs k of None \<Rightarrow> zeroAggregate | Some a \<Rightarrow> a)"

text \<open>Go's \<^verbatim>\<open>current := m[key]; current.x += d; m[key] = current\<close>.\<close>

definition bumpAggregate ::
  "agg_key \<Rightarrow> aggregate \<Rightarrow> (agg_key \<times> aggregate) list \<Rightarrow> (agg_key \<times> aggregate) list" where
  "bumpAggregate k a xs = AList.update k (addAggregate (lookupAggregate k xs) a) xs"

definition refuses :: "recorder \<Rightarrow> agg_key \<Rightarrow> bool" where
  "refuses r key \<longleftrightarrow> rc_stopped r \<or>
     (key \<notin> fst ` set (rc_pending r) \<and> key \<notin> set (rc_inflightKeys r) \<and>
      rc_maxPending r \<le> length (rc_pending r) + rc_inflight r)"

definition Record :: "time \<Rightarrow> traffic_event \<Rightarrow> recorder \<Rightarrow> recorder" where
  "Record now e r =
     (if te_Bytes e = 0 then r
      else let key = eventKey now e in
        if refuses r key then r\<lparr>rc_droppedEvents := rc_droppedEvents r + 1\<rparr>
        else let pending = bumpAggregate key \<lparr>ag_Bytes = te_Bytes e, ag_Requests = 1\<rparr> (rc_pending r)
          in r\<lparr>rc_pending := pending,
               rc_wake := (rc_wake r \<or> rc_flushThreshold r \<le> length pending)\<rparr>)"

section \<open>Rollup identity\<close>

text \<open>The text whose digest identifies a rollup row: the fields of the key between zero bytes.\<close>

definition NUL :: string where "NUL = [CHR 0x00]"

definition rollupText :: "agg_key \<Rightarrow> string" where
  "rollupText k = show_int (ak_BucketStart k) @ NUL @ digits (ak_UserID k) @ NUL @
     digits (ak_FileID k) @ NUL @ digits (ak_QualityID k) @ NUL @ digits (ak_AudioID k) @ NUL @
     ak_Source k @ NUL @ digits (ak_StoragePoolID k) @ NUL @ ak_StorageMountUUID k @ NUL @
     ak_DeliverySource k"

definition rollupIdentity :: "(string \<Rightarrow> string) \<Rightarrow> agg_key \<Rightarrow> string" where
  "rollupIdentity sha256 k = sha256 (rollupText k)"

section \<open>Flushing\<close>

text \<open>The part before the transaction: up to 5000 buckets leave the map in iteration order.\<close>

definition flushBegin ::
  "((agg_key \<times> aggregate) list \<Rightarrow> (agg_key \<times> aggregate) list) \<Rightarrow> recorder \<Rightarrow>
   (agg_key \<times> aggregate) list \<times> recorder" where
  "flushBegin order r =
     (let batch = take defaultFlushBatchSize (order (rc_pending r))
      in (batch, r\<lparr>rc_pending := filter (\<lambda>e. fst e \<notin> fst ` set batch) (rc_pending r),
            rc_inflight := length batch, rc_inflightKeys := map fst batch\<rparr>))"

definition flushRow :: "(string \<Rightarrow> string) \<Rightarrow> time \<Rightarrow> agg_key \<times> aggregate \<Rightarrow> traffic_row" where
  "flushRow sha256 now e =
     \<lparr>tl_RollupKey = rollupIdentity sha256 (fst e), tl_Key = fst e, tl_Bytes = ag_Bytes (snd e),
      tl_RequestCount = ag_Requests (snd e), tl_UpdatedAt = now\<rparr>"

text \<open>\<^verbatim>\<open>INSERT ... ON CONFLICT (rollup_key) DO UPDATE\<close> adds the new counts to the row's.\<close>

definition addRow :: "traffic_row \<Rightarrow> traffic_row \<Rightarrow> traffic_row" where
  "addRow row r = r\<lparr>tl_Bytes := tl_Bytes r + tl_Bytes row,
     tl_RequestCount := tl_RequestCount r + tl_RequestCount row,
     tl_UpdatedAt := tl_UpdatedAt row\<rparr>"

definition upsertRow :: "traffic_row \<Rightarrow> traffic_row list \<Rightarrow> traffic_row list" where
  "upsertRow row rows =
     (if \<exists>r \<in> set rows. tl_RollupKey r = tl_RollupKey row
      then update_where (\<lambda>r. tl_RollupKey r = tl_RollupKey row) (addRow row) rows
      else rows @ [row])"

definition flushRows ::
  "(string \<Rightarrow> string) \<Rightarrow> time \<Rightarrow> (agg_key \<times> aggregate) list \<Rightarrow> traffic_row list" where
  "flushRows sha256 now batch =
     map (flushRow sha256 now) (sort_key (\<lambda>e. rollupIdentity sha256 (fst e)) batch)"

definition writeRows :: "traffic_row list \<Rightarrow> traffic_row list \<Rightarrow> traffic_row list" where
  "writeRows new rows = fold upsertRow new rows"

definition batchRequests :: "(agg_key \<times> aggregate) list \<Rightarrow> uint64" where
  "batchRequests batch = sum_list (map (\<lambda>e. ag_Requests (snd e)) batch)"

text \<open>The part after the transaction: a failed batch is merged back.\<close>

definition flushFailed :: "string \<Rightarrow> (agg_key \<times> aggregate) list \<Rightarrow> recorder \<Rightarrow> recorder" where
  "flushFailed err batch r =
     r\<lparr>rc_inflight := 0, rc_inflightKeys := [],
       rc_pending := fold (\<lambda>e. bumpAggregate (fst e) (snd e)) batch (rc_pending r),
       rc_flushFailures := rc_flushFailures r + 1, rc_lastError := err\<rparr>"

definition flushDone :: "time \<Rightarrow> (agg_key \<times> aggregate) list \<Rightarrow> recorder \<Rightarrow> recorder" where
  "flushDone now batch r =
     r\<lparr>rc_inflight := 0, rc_inflightKeys := [],
       rc_flushedRequests := rc_flushedRequests r + batchRequests batch,
       rc_lastFlushAt := Some now, rc_lastError := []\<rparr>"

text \<open>\<^verbatim>\<open>flushBatch\<close> when nothing is recorded meanwhile; \<open>fault\<close> is the transaction's error.\<close>

definition flushBatch ::
  "(string \<Rightarrow> string) \<Rightarrow> time \<Rightarrow> ((agg_key \<times> aggregate) list \<Rightarrow> (agg_key \<times> aggregate) list) \<Rightarrow>
   string option \<Rightarrow> recorder \<times> traffic_row list \<Rightarrow> (bool \<times> string option) \<times> recorder \<times> traffic_row list" where
  "flushBatch sha256 now order fault s =
     (case s of (r, rows) \<Rightarrow>
       if rc_pending r = [] then ((False, None), r, rows)
       else case flushBegin order r of (batch, r) \<Rightarrow>
         (case fault of
            Some err \<Rightarrow> ((True, Some err), flushFailed err batch r, rows)
          | None \<Rightarrow> let r = flushDone now batch r
              in ((rc_pending r \<noteq> [], None), r, writeRows (flushRows sha256 now batch) rows)))"

text \<open>\<^verbatim>\<open>Flush\<close> loops until a batch leaves nothing behind; \<open>n\<close> bounds the rounds and \<open>None\<close> says that
  the bound was reached.\<close>

fun Flush ::
  "nat \<Rightarrow> (string \<Rightarrow> string) \<Rightarrow> (nat \<Rightarrow> time) \<Rightarrow>
   ((agg_key \<times> aggregate) list \<Rightarrow> (agg_key \<times> aggregate) list) \<Rightarrow> (nat \<Rightarrow> string option) \<Rightarrow>
   recorder \<times> traffic_row list \<Rightarrow> (string option \<times> recorder \<times> traffic_row list) option" where
  "Flush 0 sha256 clock order fault s = None"
| "Flush (Suc n) sha256 clock order fault s =
     (case flushBatch sha256 (clock n) order (fault n) s of
        ((_, Some err), s) \<Rightarrow> Some (Some err, s)
      | ((True, None), s) \<Rightarrow> Flush n sha256 clock order fault s
      | ((False, None), s) \<Rightarrow> Some (None, s))"

definition stopRecorder :: "recorder \<Rightarrow> recorder" where
  "stopRecorder r = r\<lparr>rc_stopped := True\<rparr>"

definition Shutdown ::
  "nat \<Rightarrow> (string \<Rightarrow> string) \<Rightarrow> (nat \<Rightarrow> time) \<Rightarrow>
   ((agg_key \<times> aggregate) list \<Rightarrow> (agg_key \<times> aggregate) list) \<Rightarrow> (nat \<Rightarrow> string option) \<Rightarrow>
   recorder \<times> traffic_row list \<Rightarrow> (string option \<times> recorder \<times> traffic_row list) option" where
  "Shutdown n sha256 clock order fault s =
     Flush n sha256 clock order fault (stopRecorder (fst s), snd s)"

record recorder_status =
  rs_PendingBuckets :: nat
  rs_DroppedEvents :: uint64
  rs_FlushFailures :: uint64
  rs_FlushedRequests :: uint64
  rs_LastFlushAt :: "time option"
  rs_LastError :: string

definition Status :: "recorder \<Rightarrow> recorder_status" where
  "Status r = \<lparr>rs_PendingBuckets = length (rc_pending r) + rc_inflight r,
     rs_DroppedEvents = rc_droppedEvents r, rs_FlushFailures = rc_flushFailures r,
     rs_FlushedRequests = rc_flushedRequests r, rs_LastFlushAt = rc_lastFlushAt r,
     rs_LastError = rc_lastError r\<rparr>"

end
