(* ===== verification/TrafficSystem.thy ===== *)
theory TrafficSystem
  imports Traffic
begin

text \<open>
  The recorder as a system: events arriving at any moment, at most one flush under way, its
  transaction succeeding or failing, and a shutdown. Every accepted event is accounted for
  exactly once, in memory, in the batch of the running flush or in the rollup rows; memory stays
  bounded; and a shutdown without database errors leaves nothing in memory.
\<close>

section \<open>Sums\<close>

text \<open>What a list of buckets holds for one rollup identity, by bytes or by requests.\<close>

definition tally ::
  "(agg_key \<Rightarrow> string) \<Rightarrow> (aggregate \<Rightarrow> uint64) \<Rightarrow> string \<Rightarrow> (agg_key \<times> aggregate) list \<Rightarrow> uint64" where
  "tally idf g i xs = sum_list (map (\<lambda>e. if idf (fst e) = i then g (snd e) else 0) xs)"

definition rowTally :: "(traffic_row \<Rightarrow> uint64) \<Rightarrow> string \<Rightarrow> traffic_row list \<Rightarrow> uint64" where
  "rowTally h i rows = sum_list (map (\<lambda>r. if tl_RollupKey r = i then h r else 0) rows)"

definition column :: "(aggregate \<Rightarrow> uint64) \<Rightarrow> (traffic_row \<Rightarrow> uint64) \<Rightarrow> bool" where
  "column g h \<longleftrightarrow> (g, h) \<in> {(ag_Bytes, tl_Bytes), (ag_Requests, tl_RequestCount)}"

lemma columnE:
  assumes "column g h"
  obtains "g = ag_Bytes" "h = tl_Bytes" | "g = ag_Requests" "h = tl_RequestCount"
  using assms by (auto simp: column_def)

lemma column_simps [simp]: "column ag_Bytes tl_Bytes" "column ag_Requests tl_RequestCount"
  by (simp_all add: column_def)

lemma column_add:
  "column g h \<Longrightarrow> g (addAggregate a b) = g a + g b" "column g h \<Longrightarrow> g zeroAggregate = 0"
  "column g h \<Longrightarrow> h (flushRow sha now e) = g (snd e)"
  by (auto elim!: columnE simp: addAggregate_def zeroAggregate_def flushRow_def)

lemma tally_simps [simp]:
  "tally idf g i [] = 0"
  "tally idf g i (e # xs) = (if idf (fst e) = i then g (snd e) else 0) + tally idf g i xs"
  "tally idf g i (xs @ ys) = tally idf g i xs + tally idf g i ys"
  by (simp_all add: tally_def)

lemma rowTally_simps [simp]:
  "rowTally h i [] = 0"
  "rowTally h i (r # rows) = (if tl_RollupKey r = i then h r else 0) + rowTally h i rows"
  "rowTally h i (rows @ rows') = rowTally h i rows + rowTally h i rows'"
  by (simp_all add: rowTally_def)

lemma tally_mset: "mset xs = mset ys \<Longrightarrow> tally idf g i xs = tally idf g i ys"
  unfolding tally_def sum_mset_sum_list [symmetric] mset_map by (simp only:)

lemma tally_filter: "tally idf g i (filter P xs) + tally idf g i (filter (\<lambda>x. \<not> P x) xs) = tally idf g i xs"
proof -
  have "mset (filter P xs @ filter (\<lambda>x. \<not> P x) xs) = mset xs"
    by (simp add: multiset_partition [symmetric])
  then have "tally idf g i (filter P xs @ filter (\<lambda>x. \<not> P x) xs) = tally idf g i xs"
    by (rule tally_mset)
  then show ?thesis by simp
qed

lemma tally_update:
  assumes "column g h"
  shows "distinct (map fst xs) \<Longrightarrow>
    tally idf g i (AList.update k (addAggregate (lookupAggregate k xs) a) xs) =
      tally idf g i xs + (if idf k = i then g a else 0)"
proof (induction xs)
  case Nil
  then show ?case by (simp add: lookupAggregate_def column_add [OF assms])
next
  case (Cons e xs)
  then show ?case
    by (cases e) (auto simp: lookupAggregate_def column_add [OF assms] algebra_simps)
qed

lemma tally_bump:
  "column g h \<Longrightarrow> distinct (map fst xs) \<Longrightarrow>
    tally idf g i (bumpAggregate k a xs) = tally idf g i xs + (if idf k = i then g a else 0)"
  unfolding bumpAggregate_def by (rule tally_update)

lemma bump_keys:
  "fst ` set (bumpAggregate k a xs) = insert k (fst ` set xs)"
  by (simp add: bumpAggregate_def dom_update)

lemma bump_distinct: "distinct (map fst xs) \<Longrightarrow> distinct (map fst (bumpAggregate k a xs))"
  unfolding bumpAggregate_def by (rule distinct_update)

lemma bump_all:
  assumes "column g h"
  shows "distinct (map fst xs) \<Longrightarrow>
    distinct (map fst (fold (\<lambda>e. bumpAggregate (fst e) (snd e)) batch xs)) \<and>
    fst ` set (fold (\<lambda>e. bumpAggregate (fst e) (snd e)) batch xs) = fst ` set batch \<union> fst ` set xs \<and>
    tally idf g i (fold (\<lambda>e. bumpAggregate (fst e) (snd e)) batch xs) =
      tally idf g i batch + tally idf g i xs"
proof (induction batch arbitrary: xs)
  case Nil
  then show ?case by simp
next
  case (Cons e batch)
  from Cons.IH [OF bump_distinct [OF Cons.prems]] show ?case
    by (auto simp: bump_keys tally_bump [OF assms Cons.prems])
qed

lemma addRow_key [simp]: "tl_RollupKey (addRow row r) = tl_RollupKey r"
  by (simp add: addRow_def)

lemma column_addRow: "column g h \<Longrightarrow> h (addRow row r) = h r + h row"
  by (auto elim!: columnE simp: addRow_def)

lemma addRow_keys [simp]:
  "map tl_RollupKey (update_where p (addRow row) rows) = map tl_RollupKey rows"
  by (rule map_update_where) simp

lemma upsert_distinct:
  "distinct (map tl_RollupKey rows) \<Longrightarrow> distinct (map tl_RollupKey (upsertRow row rows))"
  by (auto simp: upsertRow_def)

lemma rowTally_other:
  "tl_RollupKey row \<noteq> i \<Longrightarrow>
    rowTally h i (update_where (\<lambda>r. tl_RollupKey r = tl_RollupKey row) (addRow row) rows) = rowTally h i rows"
  by (induction rows) auto

lemma rowTally_absent: "\<forall>r \<in> set rows. tl_RollupKey r \<noteq> i \<Longrightarrow> rowTally h i rows = 0"
  by (induction rows) auto

lemma rowTally_bump:
  assumes "column g h"
  shows "distinct (map tl_RollupKey rows) \<Longrightarrow> \<exists>r \<in> set rows. tl_RollupKey r = tl_RollupKey row \<Longrightarrow>
    rowTally h (tl_RollupKey row) (update_where (\<lambda>r. tl_RollupKey r = tl_RollupKey row) (addRow row) rows)
      = rowTally h (tl_RollupKey row) rows + h row"
proof (induction rows)
  case Nil
  then show ?case by simp
next
  case (Cons r rows)
  show ?case
  proof (cases "tl_RollupKey r = tl_RollupKey row")
    case True
    with Cons.prems(1) have "\<forall>r' \<in> set rows. tl_RollupKey r' \<noteq> tl_RollupKey row"
      by (metis distinct.simps(2) image_eqI list.set_map list.simps(9))
    then have "rowTally h (tl_RollupKey row) rows = 0"
        "update_where (\<lambda>r. tl_RollupKey r = tl_RollupKey row) (addRow row) rows = rows"
      by (simp_all add: rowTally_absent update_where_def map_idI)
    with True show ?thesis by (simp add: column_addRow [OF assms])
  next
    case False
    with Cons show ?thesis by simp
  qed
qed

lemma rowTally_upsert:
  assumes "column g h" "distinct (map tl_RollupKey rows)"
  shows "rowTally h i (upsertRow row rows) = rowTally h i rows + (if tl_RollupKey row = i then h row else 0)"
  using rowTally_bump [OF assms, of row] rowTally_other [of row i h rows]
  by (cases "tl_RollupKey row = i") (simp_all add: upsertRow_def)

lemma rowTally_write:
  assumes "column g h"
  shows "distinct (map tl_RollupKey rows) \<Longrightarrow>
    distinct (map tl_RollupKey (writeRows new rows)) \<and>
    rowTally h i (writeRows new rows) = rowTally h i rows + rowTally h i new"
proof (induction new arbitrary: rows)
  case Nil
  then show ?case by (simp add: writeRows_def)
next
  case (Cons row new)
  from Cons.IH [OF upsert_distinct [OF Cons.prems]] show ?case
    by (simp add: writeRows_def rowTally_upsert [OF assms Cons.prems])
qed

lemma rowTally_flushRows:
  assumes "column g h"
  shows "rowTally h i (flushRows sha now batch) = tally (rollupIdentity sha) g i batch"
proof -
  have "rowTally h i (map (flushRow sha now) xs) = tally (rollupIdentity sha) g i xs" for xs
    by (induction xs) (simp_all add: column_add [OF assms], simp_all add: flushRow_def)
  then show ?thesis unfolding flushRows_def
    by (metis mset_sort tally_mset)
qed

section \<open>The system\<close>

text \<open>\<open>ts_batch\<close> is the local variable of the running flush, empty when there is none, and
  \<open>ts_history\<close> remembers every accepted event as the bucket it went to.\<close>

record traffic_sys =
  ts_rec :: recorder
  ts_rows :: "traffic_row list"
  ts_batch :: "(agg_key \<times> aggregate) list"
  ts_history :: "(agg_key \<times> aggregate) list"

definition accepted :: "time \<Rightarrow> traffic_event \<Rightarrow> recorder \<Rightarrow> (agg_key \<times> aggregate) list" where
  "accepted now e r =
     (if te_Bytes e = 0 \<or> refuses r (eventKey now e) then []
      else [(eventKey now e, \<lparr>ag_Bytes = te_Bytes e, ag_Requests = 1\<rparr>)])"

inductive traffic_step :: "(string \<Rightarrow> string) \<Rightarrow> traffic_sys \<Rightarrow> traffic_sys \<Rightarrow> bool" for sha where
  event: "traffic_step sha s (s\<lparr>ts_rec := Record now e (ts_rec s),
      ts_history := ts_history s @ accepted now e (ts_rec s)\<rparr>)"
| start: "ts_batch s = [] \<Longrightarrow> mset (order (rc_pending (ts_rec s))) = mset (rc_pending (ts_rec s)) \<Longrightarrow>
    flushBegin order (ts_rec s) = (batch, r) \<Longrightarrow>
    traffic_step sha s (s\<lparr>ts_rec := r, ts_batch := batch\<rparr>)"
| commit: "traffic_step sha s (s\<lparr>ts_rec := flushDone now (ts_batch s) (ts_rec s),
      ts_rows := writeRows (flushRows sha now (ts_batch s)) (ts_rows s), ts_batch := []\<rparr>)"
| failed: "traffic_step sha s (s\<lparr>ts_rec := flushFailed err (ts_batch s) (ts_rec s), ts_batch := []\<rparr>)"
| stop: "traffic_step sha s (s\<lparr>ts_rec := stopRecorder (ts_rec s)\<rparr>)"

definition traffic_init :: "traffic_sys \<Rightarrow> bool" where
  "traffic_init s \<longleftrightarrow> (\<exists>threshold maxPending. ts_rec s = newRecorder threshold maxPending) \<and>
     ts_rows s = [] \<and> ts_batch s = [] \<and> ts_history s = []"

definition conserved ::
  "(string \<Rightarrow> string) \<Rightarrow> (aggregate \<Rightarrow> uint64) \<Rightarrow> (traffic_row \<Rightarrow> uint64) \<Rightarrow> string \<Rightarrow> traffic_sys \<Rightarrow> bool" where
  "conserved sha g h i s \<longleftrightarrow>
     rowTally h i (ts_rows s) + tally (rollupIdentity sha) g i (ts_batch s) +
     tally (rollupIdentity sha) g i (rc_pending (ts_rec s)) = tally (rollupIdentity sha) g i (ts_history s)"

definition traffic_inv :: "(string \<Rightarrow> string) \<Rightarrow> traffic_sys \<Rightarrow> bool" where
  "traffic_inv sha s \<longleftrightarrow>
     distinct (map fst (rc_pending (ts_rec s))) \<and> distinct (map fst (ts_batch s)) \<and>
     distinct (map tl_RollupKey (ts_rows s)) \<and>
     rc_inflightKeys (ts_rec s) = map fst (ts_batch s) \<and> rc_inflight (ts_rec s) = length (ts_batch s) \<and>
     0 < rc_maxPending (ts_rec s) \<and>
     card (fst ` set (rc_pending (ts_rec s)) \<union> fst ` set (ts_batch s)) \<le> rc_maxPending (ts_rec s) \<and>
     (\<forall>g h i. column g h \<longrightarrow> conserved sha g h i s)"

lemma distinct_card_keys: "distinct (map fst xs) \<Longrightarrow> card (fst ` set xs) = length xs"
  by (metis distinct_card length_map list.set_map)

lemma traffic_inv_init: "traffic_init s \<Longrightarrow> traffic_inv sha s"
  by (auto simp: traffic_init_def traffic_inv_def newRecorder_def conserved_def)

lemma Record_inv:
  assumes "traffic_inv sha s"
  shows "traffic_inv sha (s\<lparr>ts_rec := Record now e (ts_rec s),
      ts_history := ts_history s @ accepted now e (ts_rec s)\<rparr>)"
proof (cases "te_Bytes e = 0 \<or> refuses (ts_rec s) (eventKey now e)")
  case True
  then show ?thesis using assms
    by (auto simp: traffic_inv_def Record_def accepted_def conserved_def Let_def)
next
  case False
  let ?k = "eventKey now e" and ?a = "\<lparr>ag_Bytes = te_Bytes e, ag_Requests = (1::uint64)\<rparr>"
  let ?p = "rc_pending (ts_rec s)" and ?b = "ts_batch s"
  from assms have inv: "distinct (map fst ?p)" "distinct (map fst ?b)"
      "rc_inflightKeys (ts_rec s) = map fst ?b" "rc_inflight (ts_rec s) = length ?b"
      "card (fst ` set ?p \<union> fst ` set ?b) \<le> rc_maxPending (ts_rec s)"
    by (simp_all add: traffic_inv_def)
  have "card (insert ?k (fst ` set ?p) \<union> fst ` set ?b) \<le> rc_maxPending (ts_rec s)"
  proof (cases "?k \<in> fst ` set ?p \<union> fst ` set ?b")
    case True
    then show ?thesis using inv(5) by (simp add: insert_absorb)
  next
    case new: False
    with False inv have "length ?p + length ?b < rc_maxPending (ts_rec s)"
      by (auto simp: refuses_def)
    moreover have "card (fst ` set ?p \<union> fst ` set ?b) \<le> length ?p + length ?b"
      using card_Un_le [of "fst ` set ?p" "fst ` set ?b"] inv(1,2) by (simp add: distinct_card_keys)
    ultimately show ?thesis using new by (simp add: card_insert_if)
  qed
  moreover have "conserved sha g h i (s\<lparr>ts_rec := Record now e (ts_rec s),
      ts_history := ts_history s @ accepted now e (ts_rec s)\<rparr>)" if "column g h" for g h i
    using assms False that
    by (auto simp: traffic_inv_def conserved_def Record_def accepted_def Let_def tally_bump [OF that inv(1)]
        simp flip: add.assoc)
  ultimately show ?thesis using assms False
    by (auto simp: traffic_inv_def Record_def accepted_def Let_def bump_keys bump_distinct)
qed

lemma flushBegin_inv:
  assumes "traffic_inv sha s" "ts_batch s = []"
    and order: "mset (order (rc_pending (ts_rec s))) = mset (rc_pending (ts_rec s))"
    and beg: "flushBegin order (ts_rec s) = (batch, r)"
  shows "traffic_inv sha (s\<lparr>ts_rec := r, ts_batch := batch\<rparr>)"
proof -
  let ?p = "rc_pending (ts_rec s)" and ?rest = "filter (\<lambda>e. fst e \<notin> fst ` set batch) (rc_pending (ts_rec s))"
  have batch: "batch = take defaultFlushBatchSize (order ?p)"
    and r: "r = (ts_rec s)\<lparr>rc_pending := ?rest, rc_inflight := length batch, rc_inflightKeys := map fst batch\<rparr>"
    using beg by (auto simp: flushBegin_def Let_def)
  have set: "set (order ?p) = set ?p" using order by (metis set_mset_mset)
  have dist: "distinct (map fst (order ?p))" using assms(1) order
    by (metis mset_eq_imp_distinct_iff mset_map traffic_inv_def)
  then have dbatch: "distinct (map fst batch)" by (simp add: batch take_map [symmetric])
  have sub: "set batch \<subseteq> set ?p" using set_take_subset [of _ "order ?p"] set by (simp add: batch)
  from assms(1) have dp: "distinct (map fst ?p)" by (simp add: traffic_inv_def)
  have inb: "filter (\<lambda>e. fst e \<in> fst ` set batch) ?p = filter (\<lambda>e. e \<in> set batch) ?p"
  proof (rule filter_cong [OF refl])
    fix e assume e: "e \<in> set ?p"
    from dp have inj: "inj_on fst (set ?p)" by (simp add: distinct_map)
    show "fst e \<in> fst ` set batch \<longleftrightarrow> e \<in> set batch"
      using inj_on_image_mem_iff [OF inj e sub] .
  qed
  have "mset (filter (\<lambda>e. e \<in> set batch) ?p) = mset batch"
  proof (rule set_eq_iff_mset_eq_distinct [THEN iffD1])
    show "distinct (filter (\<lambda>e. e \<in> set batch) ?p)" "distinct batch"
      using dp dbatch by (simp_all add: distinct_map)
    show "set (filter (\<lambda>e. e \<in> set batch) ?p) = set batch" using sub by auto
  qed
  from tally_mset [OF this] have "tally idf g i batch + tally idf g i ?rest = tally idf g i ?p" for idf g i
    using tally_filter [of idf g i "\<lambda>e. fst e \<in> fst ` set batch" ?p] by (simp add: inb)
  moreover have "fst ` set ?rest \<union> fst ` set batch \<subseteq> fst ` set ?p" using sub by auto
  then have "card (fst ` set ?rest \<union> fst ` set batch) \<le> card (fst ` set ?p)"
    by (intro card_mono) simp_all
  then have "card (fst ` set ?rest \<union> fst ` set batch) \<le> rc_maxPending (ts_rec s)"
    using assms(1,2) by (simp add: traffic_inv_def)
  moreover have "distinct (map fst ?rest)" using dp by (simp add: distinct_map_filter)
  ultimately show ?thesis using assms(1,2) dbatch
    by (simp add: traffic_inv_def r conserved_def add.assoc)
qed

lemma flushDone_inv:
  assumes "traffic_inv sha s"
  shows "traffic_inv sha (s\<lparr>ts_rec := flushDone now (ts_batch s) (ts_rec s),
      ts_rows := writeRows (flushRows sha now (ts_batch s)) (ts_rows s), ts_batch := []\<rparr>)"
proof -
  from assms have d: "distinct (map tl_RollupKey (ts_rows s))" by (simp add: traffic_inv_def)
  have "card (fst ` set (rc_pending (ts_rec s))) \<le>
      card (fst ` set (rc_pending (ts_rec s)) \<union> fst ` set (ts_batch s))"
    by (rule card_mono) simp_all
  then have "card (fst ` set (rc_pending (ts_rec s))) \<le> rc_maxPending (ts_rec s)"
    using assms by (simp add: traffic_inv_def)
  with assms show ?thesis
    by (auto simp: traffic_inv_def conserved_def flushDone_def rowTally_flushRows
        rowTally_write [OF _ d, THEN conjunct2] rowTally_write [OF column_simps(1) d, THEN conjunct1])
qed

lemma flushFailed_inv:
  assumes "traffic_inv sha s"
  shows "traffic_inv sha (s\<lparr>ts_rec := flushFailed err (ts_batch s) (ts_rec s), ts_batch := []\<rparr>)"
proof -
  from assms have d: "distinct (map fst (rc_pending (ts_rec s)))" by (simp add: traffic_inv_def)
  note all = bump_all [OF _ d, where batch = "ts_batch s"]
  show ?thesis using assms all [OF column_simps(1)]
    by (auto simp: traffic_inv_def conserved_def flushFailed_def Un_commute add.assoc
        all [THEN conjunct2, THEN conjunct2])
qed

lemma traffic_step_inv:
  assumes "traffic_inv sha s" and "traffic_step sha s t"
  shows "traffic_inv sha t"
  using assms(2,1)
proof cases
  case (stop)
  with assms(1) show ?thesis by (auto simp: traffic_inv_def stopRecorder_def conserved_def)
qed (simp_all add: Record_inv flushBegin_inv flushDone_inv flushFailed_inv)

interpretation traffic: invariant_system traffic_init "traffic_step sha" "traffic_inv sha" for sha
  by unfold_locales (fact traffic_inv_init traffic_step_inv)+

definition traffic_reachable :: "(string \<Rightarrow> string) \<Rightarrow> traffic_sys \<Rightarrow> bool" where
  "traffic_reachable sha s \<longleftrightarrow> (\<exists>s0. traffic_init s0 \<and> (traffic_step sha)\<^sup>*\<^sup>* s0 s)"

lemma traffic_reachable_inv: "traffic_reachable sha s \<Longrightarrow> traffic_inv sha s"
  using traffic.reachable_inv by (auto simp: traffic_reachable_def)

end
