(* ===== verification/TrafficClaims.thy ===== *)
theory TrafficClaims
  imports TrafficSystem
begin

text \<open>
  What the traffic recorder promises: nothing is lost or counted twice, memory is bounded, a
  shutdown drains, and distinct subjects have distinct rollup texts.
\<close>

section \<open>Conservation\<close>

text \<open>C27: In every reachable state of the traffic recorder, for every rollup identity, the bytes
  (and the requests) in the rollup rows plus those in the running flush's batch plus those
  pending in memory equal, modulo 2^64, those of all accepted events: nothing is lost and
  nothing is counted twice, whether flushes commit or fail.\<close>

theorem traffic_conserved:
  assumes "traffic_reachable sha s"
  shows "rowTally tl_Bytes i (ts_rows s) + tally (rollupIdentity sha) ag_Bytes i (ts_batch s) +
      tally (rollupIdentity sha) ag_Bytes i (rc_pending (ts_rec s)) =
      tally (rollupIdentity sha) ag_Bytes i (ts_history s) \<and>
    rowTally tl_RequestCount i (ts_rows s) + tally (rollupIdentity sha) ag_Requests i (ts_batch s) +
      tally (rollupIdentity sha) ag_Requests i (rc_pending (ts_rec s)) =
      tally (rollupIdentity sha) ag_Requests i (ts_history s)"
  using traffic_reachable_inv [OF assms] by (simp add: traffic_inv_def conserved_def)

text \<open>A history with a flush under way: two events of one minute, then a third while the
  transaction runs.\<close>

definition demoEvent :: "time \<Rightarrow> uint64 \<Rightarrow> traffic_event" where
  "demoEvent at n = \<lparr>te_At = Some at, te_UserID = 1, te_FileID = 2, te_QualityID = 3, te_AudioID = 0,
     te_Source = ''player'', te_Bytes = n, te_StoragePoolID = 0, te_StorageMountUUID = [],
     te_DeliverySource = []\<rparr>"

definition demoRecorded :: traffic_sys where
  "demoRecorded =
     (let s = \<lparr>ts_rec = newRecorder 0 1, ts_rows = [], ts_batch = [], ts_history = []\<rparr>;
          s = s\<lparr>ts_rec := Record 0 (demoEvent 5 10) (ts_rec s),
                ts_history := ts_history s @ accepted 0 (demoEvent 5 10) (ts_rec s)\<rparr>
      in s\<lparr>ts_rec := Record 0 (demoEvent 6 7) (ts_rec s),
           ts_history := ts_history s @ accepted 0 (demoEvent 6 7) (ts_rec s)\<rparr>)"

definition demoFlushing :: traffic_sys where
  "demoFlushing =
     (let s = demoRecorded\<lparr>ts_rec := snd (flushBegin id (ts_rec demoRecorded)),
            ts_batch := fst (flushBegin id (ts_rec demoRecorded))\<rparr>
      in s\<lparr>ts_rec := Record 0 (demoEvent 9 5) (ts_rec s),
           ts_history := ts_history s @ accepted 0 (demoEvent 9 5) (ts_rec s)\<rparr>)"

lemma traffic_reachable_step:
  "traffic_reachable sha s \<Longrightarrow> traffic_step sha s t \<Longrightarrow> traffic_reachable sha t"
  unfolding traffic_reachable_def by (meson rtranclp.rtrancl_into_rtrancl)

lemma demoRecorded_reachable: "traffic_reachable sha demoRecorded"
proof -
  have "traffic_reachable sha \<lparr>ts_rec = newRecorder 0 1, ts_rows = [], ts_batch = [], ts_history = []\<rparr>"
    unfolding traffic_reachable_def traffic_init_def
    by (rule exI [where x = "\<lparr>ts_rec = newRecorder 0 1, ts_rows = [], ts_batch = [], ts_history = []\<rparr>"]) auto
  then show ?thesis unfolding demoRecorded_def Let_def
    by (intro traffic_reachable_step [OF traffic_reachable_step [OF _ traffic_step.event] traffic_step.event])
qed

lemma demoFlushing_reachable: "traffic_reachable sha demoFlushing"
proof -
  have "traffic_step sha demoRecorded (demoRecorded\<lparr>ts_rec := snd (flushBegin id (ts_rec demoRecorded)),
            ts_batch := fst (flushBegin id (ts_rec demoRecorded))\<rparr>)"
    by (rule traffic_step.start [where order = id]) (simp_all add: demoRecorded_def Let_def)
  then show ?thesis unfolding demoFlushing_def Let_def
    by (intro traffic_reachable_step [OF traffic_reachable_step [OF demoRecorded_reachable] traffic_step.event])
qed

theorem traffic_conserved_witness:
  "ts_batch demoFlushing \<noteq> [] \<and> length (ts_history demoFlushing) = 3 \<and>
   tally (rollupIdentity id) ag_Bytes (rollupIdentity id (eventKey 0 (demoEvent 5 10)))
     (ts_batch demoFlushing) +
   tally (rollupIdentity id) ag_Bytes (rollupIdentity id (eventKey 0 (demoEvent 5 10)))
     (rc_pending (ts_rec demoFlushing)) = 22"
proof -
  let ?i = "rollupIdentity id (eventKey 0 (demoEvent 5 10))"
  have "rowTally tl_Bytes ?i (ts_rows demoFlushing) = 0"
      "tally (rollupIdentity id) ag_Bytes ?i (ts_history demoFlushing) = 22"
      "ts_batch demoFlushing \<noteq> []" "length (ts_history demoFlushing) = 3"
    by code_simp+
  with traffic_conserved [OF demoFlushing_reachable, where sha = id and i = ?i] show ?thesis by simp
qed

section \<open>Bounded memory\<close>

text \<open>In every reachable state the distinct buckets held in memory, pending or in flight,
  number at most maxPending; the pending map alone never exceeds it and the reported
  PendingBuckets never exceeds twice it.\<close>

theorem traffic_bounded:
  assumes "traffic_reachable sha s"
  shows "card (fst ` set (rc_pending (ts_rec s)) \<union> set (rc_inflightKeys (ts_rec s)))
      \<le> rc_maxPending (ts_rec s) \<and>
    length (rc_pending (ts_rec s)) \<le> rc_maxPending (ts_rec s) \<and>
    rs_PendingBuckets (Status (ts_rec s)) \<le> 2 * rc_maxPending (ts_rec s)"
proof -
  let ?p = "fst ` set (rc_pending (ts_rec s))" and ?b = "fst ` set (ts_batch s)"
  from traffic_reachable_inv [OF assms] have inv: "distinct (map fst (rc_pending (ts_rec s)))"
      "distinct (map fst (ts_batch s))" "rc_inflightKeys (ts_rec s) = map fst (ts_batch s)"
      "rc_inflight (ts_rec s) = length (ts_batch s)" "card (?p \<union> ?b) \<le> rc_maxPending (ts_rec s)"
    by (simp_all add: traffic_inv_def)
  moreover have "card ?p \<le> card (?p \<union> ?b)" "card ?b \<le> card (?p \<union> ?b)"
    by (rule card_mono; simp)+
  ultimately show ?thesis by (simp add: distinct_card_keys Status_def)
qed

theorem traffic_bounded_witness:
  "rs_PendingBuckets (Status (ts_rec demoFlushing)) = 2 \<and>
   rs_PendingBuckets (Status (ts_rec demoFlushing)) \<le> 2 * rc_maxPending (ts_rec demoFlushing)"
proof -
  have "rs_PendingBuckets (Status (ts_rec demoFlushing)) = 2" by code_simp
  with traffic_bounded [OF demoFlushing_reachable] show ?thesis by simp
qed

section \<open>Shutdown\<close>

lemma flush_shrinks:
  assumes "mset (order (rc_pending r)) = mset (rc_pending r)" "rc_pending r \<noteq> []"
    and "flushBegin order r = (batch, r')"
  shows "length (rc_pending r') < length (rc_pending r)"
proof -
  from assms(1,2) obtain e es where es: "order (rc_pending r) = e # es"
    by (metis list.exhaust mset_zero_iff)
  then have "e \<in> set (rc_pending r)" using assms(1) by (metis list.set_intros(1) set_mset_mset)
  moreover have "fst e \<in> fst ` set batch"
    using assms(3) es by (auto simp: flushBegin_def Let_def defaultFlushBatchSize_def take_Cons')
  ultimately have "length (filter (\<lambda>e. fst e \<notin> fst ` set batch) (rc_pending r)) < length (rc_pending r)"
    by (intro length_filter_less) simp_all
  then show ?thesis using assms(3) by (auto simp: flushBegin_def Let_def)
qed

lemma Flush_ok:
  assumes order: "\<forall>xs. mset (order xs) = mset xs" and fault: "\<forall>k. fault k = None"
  shows "traffic_inv sha s \<Longrightarrow> ts_batch s = [] \<Longrightarrow> length (rc_pending (ts_rec s)) < n \<Longrightarrow>
    \<exists>r rows. Flush n sha clock order fault (ts_rec s, ts_rows s) = Some (None, r, rows) \<and>
      rc_pending r = [] \<and> traffic_inv sha (s\<lparr>ts_rec := r, ts_rows := rows\<rparr>)"
proof (induction n arbitrary: s)
  case 0
  then show ?case by simp
next
  case (Suc n)
  show ?case
  proof (cases "rc_pending (ts_rec s) = []")
    case True
    with Suc.prems show ?thesis by (simp add: flushBatch_def)
  next
    case False
    obtain batch r where b: "flushBegin order (ts_rec s) = (batch, r)" by fastforce
    let ?r = "flushDone (clock n) batch r"
    let ?rows = "writeRows (flushRows sha (clock n) batch) (ts_rows s)"
    let ?s = "s\<lparr>ts_rec := ?r, ts_rows := ?rows\<rparr>"
    have inv: "traffic_inv sha ?s"
      using flushDone_inv [OF flushBegin_inv [OF Suc.prems(1,2) order [rule_format] b], of "clock n"] Suc.prems(2)
      by (simp add: traffic_inv_def conserved_def)
    have less: "length (rc_pending ?r) < length (rc_pending (ts_rec s))"
      using flush_shrinks [OF order [rule_format] False b] by (simp add: flushDone_def)
    have step: "flushBatch sha (clock n) order (fault n) (ts_rec s, ts_rows s) =
        ((rc_pending ?r \<noteq> [], None), ?r, ?rows)"
      using False b fault by (simp add: flushBatch_def Let_def)
    show ?thesis
    proof (cases "rc_pending ?r = []")
      case True
      with inv step show ?thesis by simp
    next
      case rest: False
      with Suc.IH [OF inv] less Suc.prems step show ?thesis by simp
    qed
  qed
qed

lemma stopRecorder_pending [simp]: "rc_pending (stopRecorder r) = rc_pending r"
  by (simp add: stopRecorder_def)

text \<open>From a reachable state without a running flush, a Shutdown without database errors
  terminates within one round more than there are pending buckets, leaves nothing pending, and
  the rollup rows then hold exactly what was accepted.\<close>

theorem shutdown_drains:
  assumes "traffic_reachable sha s" "ts_batch s = []"
    and "\<forall>xs. mset (order xs) = mset xs" "\<forall>k. fault k = None"
    and "length (rc_pending (ts_rec s)) < n"
  shows "\<exists>r rows. Shutdown n sha clock order fault (ts_rec s, ts_rows s) = Some (None, r, rows) \<and>
    rc_pending r = [] \<and>
    (\<forall>i. rowTally tl_Bytes i rows = tally (rollupIdentity sha) ag_Bytes i (ts_history s) \<and>
         rowTally tl_RequestCount i rows = tally (rollupIdentity sha) ag_Requests i (ts_history s))"
proof -
  let ?s = "s\<lparr>ts_rec := stopRecorder (ts_rec s)\<rparr>"
  have "traffic_inv sha ?s"
    by (rule traffic_step_inv [OF traffic_reachable_inv [OF assms(1)] traffic_step.stop])
  from Flush_ok [where n = n and clock = clock, OF assms(3,4) this] assms(2,5) obtain r rows where
    f: "Flush n sha clock order fault (stopRecorder (ts_rec s), ts_rows s) = Some (None, r, rows)"
      "rc_pending r = []" "traffic_inv sha (?s\<lparr>ts_rec := r, ts_rows := rows\<rparr>)"
    by auto
  from f(2,3) assms(2) have "\<forall>g h i. column g h \<longrightarrow>
      rowTally h i rows = tally (rollupIdentity sha) g i (ts_history s)"
    by (simp add: traffic_inv_def conserved_def)
  with f(1,2) show ?thesis by (auto simp: Shutdown_def)
qed

theorem shutdown_drains_witness:
  "\<exists>r rows. Shutdown 2 id (\<lambda>_. 60) id (\<lambda>_. None) (ts_rec demoRecorded, ts_rows demoRecorded) =
     Some (None, r, rows) \<and> rc_pending r = [] \<and>
   rowTally tl_Bytes (rollupIdentity id (eventKey 0 (demoEvent 5 10))) rows = 17"
proof -
  have "ts_batch demoRecorded = []" "length (rc_pending (ts_rec demoRecorded)) < 2"
      "tally (rollupIdentity id) ag_Bytes (rollupIdentity id (eventKey 0 (demoEvent 5 10)))
        (ts_history demoRecorded) = 17"
    by code_simp+
  with shutdown_drains [OF demoRecorded_reachable, where order = id and fault = "\<lambda>_. None"
      and n = 2 and sha = id and clock = "\<lambda>_. 60"] show ?thesis
    by auto
qed

section \<open>Rollup identity\<close>

text \<open>Two aggregate keys whose source and mount id contain no zero byte have the same rollup
  text only when they are the same key.\<close>

theorem rollup_text_injective:
  assumes "CHR 0x00 \<notin> set (ak_Source k)" "CHR 0x00 \<notin> set (ak_Source k')"
    and "CHR 0x00 \<notin> set (ak_StorageMountUUID k)" "CHR 0x00 \<notin> set (ak_StorageMountUUID k')"
  shows "rollupText k = rollupText k' \<longleftrightarrow> k = k'"
proof -
  have "CHR 0x00 \<notin> set (digits n)" "CHR 0x00 \<notin> set (show_int i)" for n i
    by (simp_all add: digits_not show_int_not)
  with assms show ?thesis
    by (cases k; cases k')
      (simp add: rollupText_def NUL_def append_sep_inject show_int_inj)
qed

theorem rollup_text_injective_witness:
  "rollupText (eventKey 0 (demoEvent 5 1)) \<noteq> rollupText (eventKey 0 (demoEvent minute 1))"
proof -
  have "eventKey 0 (demoEvent 5 1) \<noteq> eventKey 0 (demoEvent minute 1)"
    by (simp add: eventKey_def demoEvent_def minute_def second_def)
  moreover have "ak_Source (eventKey 0 (demoEvent a 1)) = ''player''"
      "ak_StorageMountUUID (eventKey 0 (demoEvent a 1)) = []" for a
    by (simp_all add: eventKey_def demoEvent_def)
  ultimately show ?thesis
    by (subst rollup_text_injective) simp_all
qed

end
