(* ===== verification/StRegistry.thy ===== *)
theory StRegistry
  imports Prelude
begin

text \<open>
  The registry of named stores (\<^verbatim>\<open>storage/service.go\<close>) and the handles that keep a provider alive
  while operations use it (\<^verbatim>\<open>storage/managed_store.go\<close>). Handles live in a list and are named by
  their index, as the code names them by pointer. Each mutex section of the code is one step.
\<close>

section \<open>Handles\<close>

datatype registry_error = ErrStoreNotConfigured | ErrStorageServiceClosed | ErrBuiltInStore

text \<open>\<^verbatim>\<open>managedStore\<close>. \<open>hd_done\<close> is the closed channel; the provider's own \<^verbatim>\<open>Close\<close> runs in
  \<open>finishClose\<close>.\<close>

record handle =
  hd_id :: string
  hd_active :: int
  hd_retired :: bool
  hd_closing :: bool
  hd_closeErr :: "string option"
  hd_done :: bool

definition newManagedStore :: "string \<Rightarrow> handle" where
  "newManagedStore i = \<lparr>hd_id = i, hd_active = 0, hd_retired = False, hd_closing = False,
     hd_closeErr = None, hd_done = False\<rparr>"

definition acquire :: "handle \<Rightarrow> registry_error + handle" where
  "acquire h = (if hd_retired h then Inl ErrStoreNotConfigured
     else Inr (h\<lparr>hd_active := hd_active h + 1\<rparr>))"

text \<open>Whether this call must close the provider, and the handle after the critical section.\<close>

definition release :: "handle \<Rightarrow> bool \<times> handle" where
  "release h =
     (let h = h\<lparr>hd_active := hd_active h - 1\<rparr>;
          shouldClose = hd_retired h \<and> hd_active h = 0 \<and> \<not> hd_closing h
      in (shouldClose, if shouldClose then h\<lparr>hd_closing := True\<rparr> else h))"

definition retire :: "handle \<Rightarrow> bool \<times> handle" where
  "retire h =
     (if hd_retired h then (False, h)
      else let h = h\<lparr>hd_retired := True\<rparr>;
               shouldClose = hd_active h = 0 \<and> \<not> hd_closing h
           in (shouldClose, if shouldClose then h\<lparr>hd_closing := True\<rparr> else h))"

definition finishClose :: "string option \<Rightarrow> handle \<Rightarrow> handle" where
  "finishClose err h = h\<lparr>hd_closeErr := err, hd_done := True\<rparr>"

section \<open>The registry\<close>

record registry =
  rg_default :: string
  rg_stores :: "(string \<times> nat) list"
  rg_retired :: "nat list"
  rg_closeErr :: "string list"
  rg_closed :: bool
  rg_handles :: "handle list"

definition setHandle :: "nat \<Rightarrow> handle \<Rightarrow> registry \<Rightarrow> registry" where
  "setHandle i h g = g\<lparr>rg_handles := (rg_handles g)[i := h]\<rparr>"

text \<open>\<^verbatim>\<open>NewService\<close> over the providers' names.\<close>

definition NewService :: "string \<Rightarrow> string list \<Rightarrow> registry_error + registry" where
  "NewService defaultStoreID ids =
     (if defaultStoreID = [] \<or> defaultStoreID \<notin> set ids \<or> [] \<in> set ids then Inl ErrStoreNotConfigured
      else let ids = remdups ids in
        Inr \<lparr>rg_default = defaultStoreID, rg_stores = zip ids [0..<length ids], rg_retired = [],
             rg_closeErr = [], rg_closed = False, rg_handles = map newManagedStore ids\<rparr>)"

definition Store :: "string \<Rightarrow> registry \<Rightarrow> registry_error + nat" where
  "Store i g =
     (if rg_closed g then Inl ErrStorageServiceClosed
      else case map_of (rg_stores g) i of None \<Rightarrow> Inl ErrStoreNotConfigured | Some n \<Rightarrow> Inr n)"

definition StoreOrDefault :: "string \<Rightarrow> registry \<Rightarrow> registry_error + nat" where
  "StoreOrDefault i g = Store (if i = [] then rg_default g else i) g"

definition withoutStore :: "string \<Rightarrow> (string \<times> nat) list \<Rightarrow> (string \<times> nat) list" where
  "withoutStore i stores = filter (\<lambda>e. fst e \<noteq> i) stores"

definition RegisterStore :: "string \<Rightarrow> registry \<Rightarrow> registry_error option \<times> registry" where
  "RegisterStore i g =
     (if i = [] then (Some ErrStoreNotConfigured, g)
      else if rg_closed g then (Some ErrStorageServiceClosed, g)
      else let n = length (rg_handles g);
               retired = (case map_of (rg_stores g) i of None \<Rightarrow> rg_retired g
                 | Some m \<Rightarrow> List.insert m (rg_retired g))
           in (None, g\<lparr>rg_handles := rg_handles g @ [newManagedStore i],
                       rg_stores := (i, n) # withoutStore i (rg_stores g), rg_retired := retired\<rparr>))"

definition UnregisterStore :: "string \<Rightarrow> registry \<Rightarrow> registry_error option \<times> registry" where
  "UnregisterStore i g =
     (if i = [] then (Some ErrStoreNotConfigured, g)
      else if rg_closed g then (Some ErrStorageServiceClosed, g)
      else if i = rg_default g then (Some ErrBuiltInStore, g)
      else case map_of (rg_stores g) i of
        None \<Rightarrow> (Some ErrStoreNotConfigured, g)
      | Some n \<Rightarrow> (None, g\<lparr>rg_stores := withoutStore i (rg_stores g),
            rg_retired := List.insert n (rg_retired g)\<rparr>))"

text \<open>The first critical section of \<^verbatim>\<open>Close\<close>.\<close>

definition closeRegistry :: "registry \<Rightarrow> registry" where
  "closeRegistry g = g\<lparr>rg_closed := True, rg_stores := [],
     rg_retired := fold List.insert (map snd (rg_stores g)) (rg_retired g)\<rparr>"

definition storeClosed :: "nat \<Rightarrow> string option \<Rightarrow> registry \<Rightarrow> registry" where
  "storeClosed n err g = g\<lparr>rg_retired := removeAll n (rg_retired g),
     rg_closeErr := rg_closeErr g @ (case err of None \<Rightarrow> [] | Some e \<Rightarrow> [e])\<rparr>"

section \<open>The system\<close>

text \<open>\<open>sy_ops\<close> holds the operations in flight, by their handle; \<open>sy_closers\<close> the goroutines that
  were told to close a provider and have not done so yet.\<close>

record registry_sys =
  sy_reg :: registry
  sy_ops :: "nat list"
  sy_closers :: "nat list"

definition afterClose :: "nat \<Rightarrow> bool \<Rightarrow> nat list \<Rightarrow> nat list" where
  "afterClose n shouldClose closers = (if shouldClose then n # closers else closers)"

inductive registry_step :: "registry_sys \<Rightarrow> registry_sys \<Rightarrow> bool" where
  register: "RegisterStore i (sy_reg s) = (e, g) \<Longrightarrow> registry_step s (s\<lparr>sy_reg := g\<rparr>)"
| unregister: "UnregisterStore i (sy_reg s) = (e, g) \<Longrightarrow> registry_step s (s\<lparr>sy_reg := g\<rparr>)"
| shutdown: "registry_step s (s\<lparr>sy_reg := closeRegistry (sy_reg s)\<rparr>)"
| begins: "n < length (rg_handles (sy_reg s)) \<Longrightarrow> acquire (rg_handles (sy_reg s) ! n) = Inr h \<Longrightarrow>
    registry_step s (s\<lparr>sy_reg := setHandle n h (sy_reg s), sy_ops := n # sy_ops s\<rparr>)"
| ends: "n \<in> set (sy_ops s) \<Longrightarrow> release (rg_handles (sy_reg s) ! n) = (c, h) \<Longrightarrow>
    registry_step s (s\<lparr>sy_reg := setHandle n h (sy_reg s), sy_ops := remove1 n (sy_ops s),
      sy_closers := afterClose n c (sy_closers s)\<rparr>)"
| retires: "n < length (rg_handles (sy_reg s)) \<Longrightarrow> retire (rg_handles (sy_reg s) ! n) = (c, h) \<Longrightarrow>
    registry_step s (s\<lparr>sy_reg := setHandle n h (sy_reg s),
      sy_closers := afterClose n c (sy_closers s)\<rparr>)"
| closes: "n \<in> set (sy_closers s) \<Longrightarrow>
    registry_step s (s\<lparr>sy_reg := storeClosed n err
        (setHandle n (finishClose err (rg_handles (sy_reg s) ! n)) (sy_reg s)),
      sy_closers := remove1 n (sy_closers s)\<rparr>)"

definition registry_init :: "registry_sys \<Rightarrow> bool" where
  "registry_init s \<longleftrightarrow> (\<exists>d ids. NewService d ids = Inr (sy_reg s)) \<and> sy_ops s = [] \<and> sy_closers s = []"

definition handleOK :: "nat list \<Rightarrow> nat list \<Rightarrow> nat \<Rightarrow> handle \<Rightarrow> bool" where
  "handleOK ops closers n h \<longleftrightarrow>
     hd_active h = int (count_list ops n) \<and>
     (hd_closing h \<longleftrightarrow> hd_retired h \<and> hd_active h = 0) \<and>
     (hd_done h \<longrightarrow> hd_closing h) \<and>
     count_list closers n = (if hd_closing h \<and> \<not> hd_done h then 1 else 0)"

definition registry_inv :: "registry_sys \<Rightarrow> bool" where
  "registry_inv s \<longleftrightarrow>
     (\<forall>n < length (rg_handles (sy_reg s)).
        handleOK (sy_ops s) (sy_closers s) n (rg_handles (sy_reg s) ! n)) \<and>
     set (sy_ops s) \<union> set (sy_closers s) \<union> snd ` set (rg_stores (sy_reg s))
       \<subseteq> {..<length (rg_handles (sy_reg s))} \<and>
     (\<not> rg_closed (sy_reg s) \<longrightarrow> rg_default (sy_reg s) \<in> fst ` set (rg_stores (sy_reg s))) \<and>
     (rg_closed (sy_reg s) \<longrightarrow> rg_stores (sy_reg s) = [])"

lemma registry_init_inv: "registry_init s \<Longrightarrow> registry_inv s"
proof -
  assume "registry_init s"
  then obtain d ids where ops: "sy_ops s = []" "sy_closers s = []"
      and d: "d \<in> set ids" and g: "sy_reg s = \<lparr>rg_default = d,
        rg_stores = zip (remdups ids) [0..<length (remdups ids)], rg_retired = [], rg_closeErr = [],
        rg_closed = False, rg_handles = map newManagedStore (remdups ids)\<rparr>"
    by (auto simp: registry_init_def NewService_def Let_def split: if_splits dest: sym)
  have "d \<in> fst ` set (zip (remdups ids) [0..<length (remdups ids)])"
    using d by (metis length_upt diff_zero list.set_map map_fst_zip set_remdups)
  moreover have "snd ` set (zip (remdups ids) [0..<length (remdups ids)]) \<subseteq> {..<length (remdups ids)}"
    by (auto dest!: set_zip_rightD)
  ultimately show ?thesis using ops
    by (simp add: registry_inv_def g handleOK_def newManagedStore_def)
qed

lemma count_remove1: "x \<in> set xs \<Longrightarrow>
    count_list (remove1 x xs) y = count_list xs y - (if y = x then 1 else 0)"
proof (induction xs)
  case (Cons z xs)
  then show ?case by (cases "x = z") (auto simp: count_list_0_iff Suc_diff_le le_simps)
qed simp

lemma count_pos: "x \<in> set xs \<Longrightarrow> 0 < count_list xs x"
  using count_list_0_iff by (metis gr0I)

text \<open>A step that rewrites handle \<open>n\<close> keeps the invariant when the new handle is in order and the
  others see the same operations and closers.\<close>

lemma registry_inv_setHandle:
  assumes "registry_inv s" and "n < length (rg_handles (sy_reg s))"
    and "handleOK ops closers n h"
    and "\<And>m. m \<noteq> n \<Longrightarrow> count_list ops m = count_list (sy_ops s) m"
    and "\<And>m. m \<noteq> n \<Longrightarrow> count_list closers m = count_list (sy_closers s) m"
    and "rg_handles g = (rg_handles (sy_reg s))[n := h]" "rg_stores g = rg_stores (sy_reg s)"
    and "rg_closed g = rg_closed (sy_reg s)" "rg_default g = rg_default (sy_reg s)"
    and t: "sy_reg t = g" "sy_ops t = ops" "sy_closers t = closers"
  shows "registry_inv t"
proof -
  have "set xs \<subseteq> insert n (set ys)" if "\<And>m. m \<noteq> n \<Longrightarrow> count_list xs m = count_list ys m" for xs ys
    using that by (metis count_list_0_iff insertCI subsetI)
  from this [OF assms(4)] this [OF assms(5)] assms(1,2)
  have "set ops \<union> set closers \<subseteq> {..<length (rg_handles (sy_reg s))}"
    by (auto simp: registry_inv_def)
  moreover have "handleOK ops closers m ((rg_handles (sy_reg s))[n := h] ! m)"
    if "m < length (rg_handles (sy_reg s))" for m
    using assms(1-5) that by (cases "m = n") (auto simp: registry_inv_def handleOK_def)
  ultimately show ?thesis using assms(1,6-9) by (auto simp: registry_inv_def t)
qed

lemma registry_inv_stores:
  assumes "registry_inv s" and "rg_handles g = rg_handles (sy_reg s) @ hs"
    and "\<forall>h \<in> set hs. \<exists>i. h = newManagedStore i"
    and "snd ` set (rg_stores g) \<subseteq> {..<length (rg_handles g)}"
    and "\<not> rg_closed g \<Longrightarrow> rg_default g \<in> fst ` set (rg_stores g)"
    and "rg_closed g \<Longrightarrow> rg_stores g = []"
  shows "registry_inv (s\<lparr>sy_reg := g\<rparr>)"
proof -
  let ?n = "length (rg_handles (sy_reg s))"
  have "handleOK (sy_ops s) (sy_closers s) m (rg_handles g ! m)" if m: "m < length (rg_handles g)" for m
  proof (cases "m < ?n")
    case True
    with assms(1,2) show ?thesis by (simp add: registry_inv_def nth_append)
  next
    case False
    with m assms(2,3) obtain i where "rg_handles g ! m = newManagedStore i"
      by (auto simp: nth_append) (metis add_diff_cancel_left' add_less_imp_less_left le_add_diff_inverse leI nth_mem)
    moreover from False assms(1) have "m \<notin> set (sy_ops s)" "m \<notin> set (sy_closers s)"
      by (auto simp: registry_inv_def)
    ultimately show ?thesis by (simp add: handleOK_def newManagedStore_def count_notin)
  qed
  with assms show ?thesis by (auto simp: registry_inv_def)
qed

lemma handleOK_at:
  "registry_inv s \<Longrightarrow> n < length (rg_handles (sy_reg s)) \<Longrightarrow>
    handleOK (sy_ops s) (sy_closers s) n (rg_handles (sy_reg s) ! n)"
  by (simp add: registry_inv_def)

lemma acquire_OK:
  "handleOK ops closers n h \<Longrightarrow> acquire h = Inr h' \<Longrightarrow> handleOK (n # ops) closers n h'"
  by (auto simp: handleOK_def acquire_def split: if_splits)

lemma release_OK:
  assumes "handleOK ops closers n h" "n \<in> set ops" "release h = (c, h')"
  shows "handleOK (remove1 n ops) (afterClose n c closers) n h'"
  using assms count_pos [OF assms(2)]
  by (auto simp: handleOK_def release_def Let_def afterClose_def count_remove1 split: if_splits)

lemma retire_OK:
  "handleOK ops closers n h \<Longrightarrow> retire h = (c, h') \<Longrightarrow> handleOK ops (afterClose n c closers) n h'"
  by (auto simp: handleOK_def retire_def Let_def afterClose_def split: if_splits)

lemma finishClose_OK:
  assumes "handleOK ops closers n h" "n \<in> set closers"
  shows "handleOK ops (remove1 n closers) n (finishClose err h)"
  using assms count_pos [OF assms(2)]
  by (auto simp: handleOK_def finishClose_def count_remove1 split: if_splits)

lemma setHandle_simps [simp]:
  "rg_handles (setHandle n h g) = (rg_handles g)[n := h]" "rg_stores (setHandle n h g) = rg_stores g"
  "rg_closed (setHandle n h g) = rg_closed g" "rg_default (setHandle n h g) = rg_default g"
  by (simp_all add: setHandle_def)

lemma storeClosed_simps [simp]:
  "rg_handles (storeClosed n e g) = rg_handles g" "rg_stores (storeClosed n e g) = rg_stores g"
  "rg_closed (storeClosed n e g) = rg_closed g" "rg_default (storeClosed n e g) = rg_default g"
  by (simp_all add: storeClosed_def)

lemma afterClose_other: "m \<noteq> n \<Longrightarrow> count_list (afterClose n c closers) m = count_list closers m"
  by (simp add: afterClose_def)

lemma remove1_other: "m \<noteq> n \<Longrightarrow> count_list (remove1 n xs) m = count_list xs m"
  by (cases "n \<in> set xs") (simp_all add: count_remove1 remove1_idem)

lemma stores_bound:
  "registry_inv s \<Longrightarrow> e \<in> set (rg_stores (sy_reg s)) \<Longrightarrow> snd e < length (rg_handles (sy_reg s))"
  by (auto simp: registry_inv_def)

lemma RegisterStore_inv:
  assumes "registry_inv s" "RegisterStore i (sy_reg s) = (e, g)"
  shows "registry_inv (s\<lparr>sy_reg := g\<rparr>)"
proof (cases "i = [] \<or> rg_closed (sy_reg s)")
  case True
  with assms(2) have "g = sy_reg s" by (auto simp: RegisterStore_def split: if_splits)
  with assms(1) show ?thesis by simp
next
  case False
  with assms(2) have g: "rg_handles g = rg_handles (sy_reg s) @ [newManagedStore i]"
      "rg_stores g = (i, length (rg_handles (sy_reg s))) # withoutStore i (rg_stores (sy_reg s))"
      "rg_closed g = rg_closed (sy_reg s)" "rg_default g = rg_default (sy_reg s)"
    by (auto simp: RegisterStore_def Let_def)
  show ?thesis
  proof (rule registry_inv_stores [OF assms(1) g(1)])
    show "snd ` set (rg_stores g) \<subseteq> {..<length (rg_handles g)}"
      using stores_bound [OF assms(1)] by (auto simp: g withoutStore_def intro: less_SucI)
    have "rg_default (sy_reg s) \<in> fst ` set (rg_stores (sy_reg s))"
      using False assms(1) by (simp add: registry_inv_def)
    then show "rg_default g \<in> fst ` set (rg_stores g)"
      by (cases "rg_default g = i") (auto simp: g withoutStore_def image_iff)
    show "rg_closed g \<Longrightarrow> rg_stores g = []" using False by (simp add: g)
  qed auto
qed

lemma UnregisterStore_inv:
  assumes "registry_inv s" "UnregisterStore i (sy_reg s) = (e, g)"
  shows "registry_inv (s\<lparr>sy_reg := g\<rparr>)"
proof (cases "rg_stores g = rg_stores (sy_reg s)")
  case True
  with assms(2) have "rg_handles g = rg_handles (sy_reg s) @ []" "rg_closed g = rg_closed (sy_reg s)"
      "rg_default g = rg_default (sy_reg s)"
    by (auto simp: UnregisterStore_def split: if_splits option.splits)
  with True assms(1) show ?thesis
    by (intro registry_inv_stores [OF assms(1), where hs = "[]"]) (simp_all add: registry_inv_def)
next
  case False
  with assms(2) have g: "rg_handles g = rg_handles (sy_reg s) @ []" "i \<noteq> rg_default (sy_reg s)"
      "rg_stores g = withoutStore i (rg_stores (sy_reg s))" "\<not> rg_closed (sy_reg s)"
      "rg_closed g = rg_closed (sy_reg s)" "rg_default g = rg_default (sy_reg s)"
    by (auto simp: UnregisterStore_def split: if_splits option.splits)
  show ?thesis
  proof (rule registry_inv_stores [OF assms(1) g(1)])
    show "snd ` set (rg_stores g) \<subseteq> {..<length (rg_handles g)}"
      using stores_bound [OF assms(1)] by (auto simp: g withoutStore_def)
    have "rg_default (sy_reg s) \<in> fst ` set (rg_stores (sy_reg s))"
      using g(4) assms(1) by (simp add: registry_inv_def)
    with g(2) show "rg_default g \<in> fst ` set (rg_stores g)"
      by (auto simp: g withoutStore_def image_iff)
    show "rg_closed g \<Longrightarrow> rg_stores g = []" using g by simp
  qed simp
qed

lemma registry_step_inv:
  assumes "registry_inv s" and "registry_step s t"
  shows "registry_inv t"
  using assms(2)
proof cases
  case (register i e g)
  with RegisterStore_inv [OF assms(1)] show ?thesis by simp
next
  case (unregister i e g)
  with UnregisterStore_inv [OF assms(1)] show ?thesis by simp
next
  case shutdown
  show ?thesis unfolding shutdown
    by (rule registry_inv_stores [where hs = "[]", OF assms(1)]) (simp_all add: closeRegistry_def)
next
  case (begins n h)
  show ?thesis unfolding begins(1)
    by (rule registry_inv_setHandle [OF assms(1) begins(2) acquire_OK [OF handleOK_at [OF assms(1) begins(2)] begins(3)]])
      simp_all
next
  case (ends n c h)
  from assms(1) ends(2) have n: "n < length (rg_handles (sy_reg s))" by (auto simp: registry_inv_def)
  show ?thesis unfolding ends(1)
    by (rule registry_inv_setHandle [OF assms(1) n release_OK [OF handleOK_at [OF assms(1) n] ends(2,3)]])
      (simp_all add: afterClose_other remove1_other)
next
  case (retires n c h)
  show ?thesis unfolding retires(1)
    by (rule registry_inv_setHandle [OF assms(1) retires(2) retire_OK [OF handleOK_at [OF assms(1) retires(2)] retires(3)]])
      (simp_all add: afterClose_other)
next
  case (closes n err)
  from assms(1) closes(2) have n: "n < length (rg_handles (sy_reg s))" by (auto simp: registry_inv_def)
  show ?thesis unfolding closes(1)
    by (rule registry_inv_setHandle [OF assms(1) n finishClose_OK [OF handleOK_at [OF assms(1) n] closes(2)]])
      (simp_all add: remove1_other)
qed

interpretation registry: invariant_system registry_init registry_step registry_inv
  by unfold_locales (fact registry_init_inv registry_step_inv)+

definition registry_reachable :: "registry_sys \<Rightarrow> bool" where
  "registry_reachable s \<longleftrightarrow> (\<exists>s0. registry_init s0 \<and> registry_step\<^sup>*\<^sup>* s0 s)"

lemma registry_reachable_inv: "registry_reachable s \<Longrightarrow> registry_inv s"
  using registry.reachable_inv by (auto simp: registry_reachable_def)

lemma registry_reachable_step: "registry_reachable s \<Longrightarrow> registry_step s t \<Longrightarrow> registry_reachable t"
  unfolding registry_reachable_def by (meson rtranclp.rtrancl_into_rtrancl)

section \<open>What the registry promises\<close>

text \<open>C32: In every reachable state of the store registry, a provider is closed only when its handle
  is retired and no operation is in flight on it; a retired handle admits no new operation; and
  a retired handle without operations is closed or has exactly one goroutine about to close it.\<close>

theorem store_drain_safe:
  assumes "registry_reachable s" and "n < length (rg_handles (sy_reg s))"
    and "h = rg_handles (sy_reg s) ! n"
  shows "(hd_done h \<longrightarrow> n \<notin> set (sy_ops s) \<and> hd_retired h) \<and>
    (hd_retired h \<longrightarrow> acquire h = Inl ErrStoreNotConfigured) \<and>
    (hd_retired h \<and> n \<notin> set (sy_ops s) \<longrightarrow> hd_done h \<or> count_list (sy_closers s) n = 1) \<and>
    (n \<in> set (sy_closers s) \<longrightarrow> \<not> hd_done h \<and> n \<notin> set (sy_ops s))"
  using handleOK_at [OF registry_reachable_inv [OF assms(1)] assms(2)] assms(3) count_pos
  by (fastforce simp: handleOK_def acquire_def count_list_0_iff split: if_splits)

text \<open>A store in use is replaced: the operation goes on, then the old provider is closed.\<close>

definition demoRegistry :: registry_sys where
  "demoRegistry = \<lparr>sy_reg = projr (NewService ''local'' [''local'', ''s3'']), sy_ops = [], sy_closers = []\<rparr>"

definition demoReplaced :: registry_sys where
  "demoReplaced =
     (let s = demoRegistry;
          s = s\<lparr>sy_reg := setHandle 1 (projr (acquire (rg_handles (sy_reg s) ! 1))) (sy_reg s),
                sy_ops := 1 # sy_ops s\<rparr>;
          s = s\<lparr>sy_reg := snd (RegisterStore ''s3'' (sy_reg s))\<rparr>
      in s\<lparr>sy_reg := setHandle 1 (snd (retire (rg_handles (sy_reg s) ! 1))) (sy_reg s),
           sy_closers := afterClose 1 (fst (retire (rg_handles (sy_reg s) ! 1))) (sy_closers s)\<rparr>)"

lemma demoReplaced_reachable: "registry_reachable demoReplaced"
proof -
  have "registry_init demoRegistry"
    by (auto simp: registry_init_def demoRegistry_def NewService_def Let_def intro!: exI [of _ "''local''"]
        exI [of _ "[''local'', ''s3'']"])
  then have "registry_reachable demoRegistry" by (auto simp: registry_reachable_def)
  moreover have "acquire (rg_handles (sy_reg demoRegistry) ! 1) =
      Inr (projr (acquire (rg_handles (sy_reg demoRegistry) ! 1)))"
      "1 < length (rg_handles (sy_reg demoRegistry))"
    by code_simp+
  moreover have "1 < length (rg_handles (sy_reg (demoRegistry\<lparr>sy_reg := setHandle 1
      (projr (acquire (rg_handles (sy_reg demoRegistry) ! 1))) (sy_reg demoRegistry),
      sy_ops := 1 # sy_ops demoRegistry,
      sy_reg := snd (RegisterStore ''s3'' (setHandle 1
      (projr (acquire (rg_handles (sy_reg demoRegistry) ! 1))) (sy_reg demoRegistry)))\<rparr>)))"
    by code_simp
  ultimately show ?thesis unfolding demoReplaced_def Let_def
    by (intro registry_reachable_step [OF registry_reachable_step [OF registry_reachable_step
          [OF _ registry_step.begins] registry_step.register] registry_step.retires])
      (simp_all add: prod_eq_iff)
qed

theorem store_drain_safe_witness:
  "hd_retired (rg_handles (sy_reg demoReplaced) ! 1) \<and> 1 \<in> set (sy_ops demoReplaced) \<and>
   acquire (rg_handles (sy_reg demoReplaced) ! 1) = Inl ErrStoreNotConfigured"
proof -
  have "1 < length (rg_handles (sy_reg demoReplaced))"
      "hd_retired (rg_handles (sy_reg demoReplaced) ! 1)" "1 \<in> set (sy_ops demoReplaced)"
    by code_simp+
  with store_drain_safe [OF demoReplaced_reachable _ refl] show ?thesis by blast
qed

end
