(* ===== verification/StKey.thy ===== *)
theory StKey
  imports Prelude
begin

text \<open>
  Object keys (\<^verbatim>\<open>storage/key.go\<close>), the media layout (\<^verbatim>\<open>storage/layout.go\<close>) and keys relative to a
  prefix (\<^verbatim>\<open>storage/transfer.go\<close>). A key that \<^verbatim>\<open>ParseKey\<close> accepts is modelled by its string.
\<close>

section \<open>Slash-separated strings\<close>

text \<open>\<^verbatim>\<open>strings.Split(s, "/")\<close> and \<^verbatim>\<open>strings.Join(segments, "/")\<close>.\<close>

fun splitSlash :: "string \<Rightarrow> string list" where
  "splitSlash [] = [[]]"
| "splitSlash (c # s) = (if c = CHR ''/'' then [] # splitSlash s
     else (c # hd (splitSlash s)) # tl (splitSlash s))"

fun joinSlash :: "string list \<Rightarrow> string" where
  "joinSlash [] = []"
| "joinSlash [s] = s"
| "joinSlash (s # t # ts) = s @ ''/'' @ joinSlash (t # ts)"

text \<open>\<^verbatim>\<open>path.Clean\<close>: the stack of segments kept so far, last first.\<close>

fun cleanSegments :: "bool \<Rightarrow> string list \<Rightarrow> string list \<Rightarrow> string list" where
  "cleanSegments rooted out [] = rev out"
| "cleanSegments rooted out (s # ss) =
     (if s = [] \<or> s = ''.'' then cleanSegments rooted out ss
      else if s = ''..'' then
        (case out of
           t # ts \<Rightarrow> if t = ''..'' then cleanSegments rooted (s # out) ss
             else cleanSegments rooted ts ss
         | [] \<Rightarrow> cleanSegments rooted (if rooted then [] else [s]) ss)
      else cleanSegments rooted (s # out) ss)"

definition pathClean :: "string \<Rightarrow> string" where
  "pathClean s =
     (let rooted = prefix ''/'' s; r = joinSlash (cleanSegments rooted [] (splitSlash s))
      in if rooted then CHR ''/'' # r else if r = [] then ''.'' else r)"

section \<open>Keys\<close>

datatype key_error = ErrInvalidKey string | ErrNoSegments | ErrInvalidSegment string
  | ErrOutsidePrefix string string

definition badSegment :: "string \<Rightarrow> bool" where
  "badSegment s \<longleftrightarrow> s = [] \<or> s = ''.'' \<or> s = ''..''"

definition ParseKey :: "string \<Rightarrow> key_error + string" where
  "ParseKey v =
     (if v = [] \<or> CHR 0x00 \<in> set v \<or> CHR 0x5C \<in> set v then Inl (ErrInvalidKey v)
      else if prefix ''/'' v \<or> pathClean v \<noteq> v then Inl (ErrInvalidKey v)
      else if list_ex badSegment (splitSlash v) then Inl (ErrInvalidKey v)
      else Inr v)"

definition JoinKey :: "string list \<Rightarrow> key_error + string" where
  "JoinKey segments =
     (if segments = [] then Inl ErrNoSegments
      else case find (\<lambda>s. badSegment s \<or> CHR ''/'' \<in> set s \<or> CHR 0x5C \<in> set s) segments of
        Some s \<Rightarrow> Inl (ErrInvalidSegment s)
      | None \<Rightarrow> ParseKey (joinSlash segments))"

section \<open>The media layout\<close>

definition layoutSource :: "string \<Rightarrow> string \<Rightarrow> key_error + string" where
  "layoutSource fileUUID fileName = JoinKey [fileUUID, ''source'', fileName]"

definition layoutVideo :: "string \<Rightarrow> string \<Rightarrow> string \<Rightarrow> key_error + string" where
  "layoutVideo fileUUID quality fileName = JoinKey [fileUUID, quality, fileName]"

definition layoutVideoPrefix :: "string \<Rightarrow> string \<Rightarrow> key_error + string" where
  "layoutVideoPrefix fileUUID quality = JoinKey [fileUUID, quality]"

definition layoutAudio :: "string \<Rightarrow> string \<Rightarrow> string \<Rightarrow> key_error + string" where
  "layoutAudio fileUUID audioUUID fileName = JoinKey [fileUUID, audioUUID, fileName]"

definition layoutAudioPrefix :: "string \<Rightarrow> string \<Rightarrow> key_error + string" where
  "layoutAudioPrefix fileUUID audioUUID = JoinKey [fileUUID, audioUUID]"

definition layoutSubtitle :: "string \<Rightarrow> string \<Rightarrow> string \<Rightarrow> key_error + string" where
  "layoutSubtitle fileUUID subtitleUUID fileName = JoinKey [fileUUID, subtitleUUID, fileName]"

definition layoutSubtitlePrefix :: "string \<Rightarrow> string \<Rightarrow> key_error + string" where
  "layoutSubtitlePrefix fileUUID subtitleUUID = JoinKey [fileUUID, subtitleUUID]"

definition layoutThumbnail :: "string \<Rightarrow> string \<Rightarrow> key_error + string" where
  "layoutThumbnail fileUUID fileName = JoinKey [fileUUID, fileName]"

definition layoutFilePrefix :: "string \<Rightarrow> key_error + string" where
  "layoutFilePrefix fileUUID = JoinKey [fileUUID]"

section \<open>Keys below a prefix\<close>

definition relativeObjectKey :: "string \<Rightarrow> string \<Rightarrow> key_error + string" where
  "relativeObjectKey pre key =
     (let base = pre @ ''/''
      in if \<not> prefix base key then Inl (ErrOutsidePrefix key pre)
         else ParseKey (drop (length base) key))"

text \<open>\<^verbatim>\<open>objectExtension\<close>: from the last dot on, when no slash follows it.\<close>

definition lastIndex :: "char \<Rightarrow> string \<Rightarrow> int" where
  "lastIndex c s = (if c \<in> set s then int (length s) - 1 - int (length (takeWhile (\<lambda>d. d \<noteq> c) (rev s))) else - 1)"

definition objectExtension :: "string \<Rightarrow> string" where
  "objectExtension v =
     (let index = lastIndex (CHR ''.'') v; separator = lastIndex (CHR ''/'') v
      in if index < 0 \<or> index < separator then [] else drop (nat index) v)"

section \<open>Properties\<close>

lemma splitSlash_neq_Nil [simp]: "splitSlash s \<noteq> []"
  by (induction s) simp_all

lemma join_splitSlash [simp]: "joinSlash (splitSlash s) = s"
proof (induction s)
  case (Cons c s)
  obtain t ts where s: "splitSlash s = t # ts" by (cases "splitSlash s") simp_all
  with Cons.IH show ?case by (cases ts) simp_all
qed simp

lemma splitSlash_append: "CHR ''/'' \<notin> set s \<Longrightarrow> splitSlash (s @ CHR ''/'' # t) = s # splitSlash t"
  by (induction s) auto

lemma splitSlash_single: "CHR ''/'' \<notin> set s \<Longrightarrow> splitSlash s = [s]"
  by (induction s) auto

lemma split_joinSlash:
  "ss \<noteq> [] \<Longrightarrow> \<forall>s \<in> set ss. CHR ''/'' \<notin> set s \<Longrightarrow> splitSlash (joinSlash ss) = ss"
proof (induction ss rule: joinSlash.induct)
  case (2 s) then show ?case by (simp add: splitSlash_single)
next
  case (3 s t ts) then show ?case by (simp add: splitSlash_append)
qed simp

lemma splitSlash_no_slash: "s \<in> set (splitSlash v) \<Longrightarrow> CHR ''/'' \<notin> set s"
proof (induction v arbitrary: s)
  case (Cons c v)
  obtain t ts where "splitSlash v = t # ts" by (cases "splitSlash v") simp_all
  with Cons show ?case by (auto split: if_splits)
qed simp

lemma set_joinSlash: "c \<in> set (joinSlash ss) \<Longrightarrow> c = CHR ''/'' \<or> (\<exists>s \<in> set ss. c \<in> set s)"
  by (induction ss rule: joinSlash.induct) auto

lemma cleanSegments_good: "\<forall>s \<in> set ss. \<not> badSegment s \<Longrightarrow> cleanSegments rooted out ss = rev out @ ss"
  by (induction ss arbitrary: out) (auto simp: badSegment_def)

definition validKey :: "string \<Rightarrow> bool" where
  "validKey v \<longleftrightarrow> CHR 0x00 \<notin> set v \<and> CHR 0x5C \<notin> set v \<and> (\<forall>s \<in> set (splitSlash v). \<not> badSegment s)"

lemma validKey_not_rooted: "validKey v \<Longrightarrow> v \<noteq> [] \<and> \<not> prefix ''/'' v"
  by (cases v) (auto simp: validKey_def badSegment_def split: if_splits)

lemma pathClean_valid:
  assumes "validKey v"
  shows "pathClean v = v"
proof -
  from assms have "cleanSegments False [] (splitSlash v) = splitSlash v"
    by (subst cleanSegments_good) (simp_all add: validKey_def)
  with validKey_not_rooted [OF assms] show ?thesis by (simp add: pathClean_def)
qed

text \<open>ParseKey accepts exactly the strings without NUL and backslash whose slash-separated
  segments are neither empty nor a dot nor two dots, and returns them unchanged; everything else
  is ErrInvalidKey.\<close>

theorem parse_key_characterised:
  "ParseKey v = (if validKey v then Inr v else Inl (ErrInvalidKey v))"
  using validKey_not_rooted [of v] pathClean_valid [of v]
  by (auto simp: ParseKey_def validKey_def list_ex_iff)

lemma JoinKey_ok:
  "JoinKey ss = Inr k \<Longrightarrow> k = joinSlash ss \<and> splitSlash k = ss \<and> validKey k"
proof -
  assume j: "JoinKey ss = Inr k"
  then have ok: "ss \<noteq> []" "\<forall>s \<in> set ss. CHR ''/'' \<notin> set s" "ParseKey (joinSlash ss) = Inr k"
    by (auto simp: JoinKey_def find_None_iff split: if_splits option.splits)
  then show ?thesis using split_joinSlash [OF ok(1,2)]
    by (auto simp: ParseKey_def validKey_def list_ex_iff split: if_splits)
qed

lemma JoinKey_split: "validKey v \<Longrightarrow> JoinKey (splitSlash v) = Inr v"
proof -
  assume v: "validKey v"
  have "CHR 0x5C \<notin> set s" if "s \<in> set (splitSlash v)" for s
  proof -
    have "set s \<subseteq> set v" using that
    proof (induction v arbitrary: s)
      case (Cons c v)
      obtain t ts where "splitSlash v = t # ts" by (cases "splitSlash v") simp_all
      with Cons show ?case by (fastforce split: if_splits)
    qed simp
    with v show ?thesis by (auto simp: validKey_def)
  qed
  with v have "find (\<lambda>s. badSegment s \<or> CHR ''/'' \<in> set s \<or> CHR 0x5C \<in> set s) (splitSlash v) = None"
    using splitSlash_no_slash [of _ v] by (auto simp: find_None_iff validKey_def)
  with v show ?thesis
    using validKey_not_rooted [OF v] pathClean_valid [OF v]
    by (simp add: JoinKey_def ParseKey_def validKey_def list_ex_iff)
qed

text \<open>C39: Splitting a key JoinKey built gives back the segments, and joining the segments of a
  valid key gives back the key.\<close>

theorem key_roundtrip:
  "(JoinKey ss = Inr k \<longrightarrow> splitSlash k = ss) \<and> (validKey v \<longrightarrow> JoinKey (splitSlash v) = Inr v)"
  using JoinKey_ok JoinKey_split by blast

theorem key_roundtrip_witness:
  "splitSlash ''u/720p/out.m3u8'' = [''u'', ''720p'', ''out.m3u8''] \<and>
   JoinKey (splitSlash ''a/b'') = Inr ''a/b''"
proof -
  have "JoinKey [''u'', ''720p'', ''out.m3u8''] = Inr ''u/720p/out.m3u8''" "validKey ''a/b''"
    by code_simp+
  with key_roundtrip [of "[''u'', ''720p'', ''out.m3u8'']" "''u/720p/out.m3u8''" "''a/b''"]
  show ?thesis by simp
qed

lemma splitSlash_parts: "splitSlash (p @ CHR ''/'' # r) = splitSlash p @ splitSlash r"
proof (induction p)
  case (Cons c p)
  then show ?case by (cases "splitSlash p") simp_all
qed simp

lemma validKey_parts:
  assumes "validKey (p @ ''/'' @ r)" and "r \<noteq> []"
  shows "validKey r"
proof -
  from assms show ?thesis by (auto simp: validKey_def splitSlash_parts)
qed

text \<open>A key relative to a prefix is what follows the prefix and a slash, is itself a valid key
  and has no dot-dot segment, so it cannot leave the directory it is materialised in; and every
  valid key below the prefix has one.\<close>

theorem relative_key_contained:
  "(relativeObjectKey pre key = Inr rel \<longrightarrow> key = pre @ ''/'' @ rel \<and> validKey rel \<and>
      ''..'' \<notin> set (splitSlash rel)) \<and>
   (validKey key \<and> key = pre @ ''/'' @ rel \<longrightarrow> relativeObjectKey pre key = Inr rel)"
proof (rule conjI; rule impI)
  assume "relativeObjectKey pre key = Inr rel"
  then have p: "prefix (pre @ ''/'') key" "ParseKey (drop (length (pre @ ''/'')) key) = Inr rel"
    by (auto simp: relativeObjectKey_def Let_def split: if_splits)
  then have r: "rel = drop (length (pre @ ''/'')) key" "validKey rel"
    using JoinKey_split by (auto simp: ParseKey_def validKey_def list_ex_iff split: if_splits)
  from p(1) obtain q where "key = (pre @ ''/'') @ q" by (auto simp: prefix_def)
  with r show "key = pre @ ''/'' @ rel \<and> validKey rel \<and> ''..'' \<notin> set (splitSlash rel)"
    by (auto simp: validKey_def badSegment_def)
next
  assume k: "validKey key \<and> key = pre @ ''/'' @ rel"
  have "rel \<noteq> []"
  proof
    assume "rel = []"
    with k have "validKey (pre @ ''/'')" by fastforce
    then show False by (auto simp: validKey_def badSegment_def splitSlash_parts)
  qed
  with k validKey_parts have v: "validKey rel" by blast
  with k show "relativeObjectKey pre key = Inr rel"
    using validKey_not_rooted [OF v] pathClean_valid [OF v]
    by (simp add: relativeObjectKey_def ParseKey_def validKey_def list_ex_iff)
qed

theorem relative_key_contained_witness:
  "relativeObjectKey ''u'' ''u/720p/out.m3u8'' = Inr ''720p/out.m3u8'' \<and> validKey ''720p/out.m3u8''"
proof -
  have "validKey ''u/720p/out.m3u8''" by code_simp
  with relative_key_contained [of "''u''" "''u/720p/out.m3u8''" "''720p/out.m3u8''"]
  show ?thesis by simp
qed

end
