(* ===== verification/StStore.thy ===== *)
theory StStore
  imports StKey "HOL-Library.AList" "HOL-Library.List_Lexorder" "HOL-Library.Char_ord"
    "HOL-Library.Product_Lexorder" "HOL-Library.Multiset"
begin

text \<open>
  The object-store contract (\<^verbatim>\<open>storage/store.go\<close>) over an explicit store, and the algorithms
  built from it: verified and validated copies and sorted inventories (\<^verbatim>\<open>storage/copy.go\<close>),
  deleting a prefix (\<^verbatim>\<open>storage/tree.go\<close>), publishing a tree (\<^verbatim>\<open>storage/transfer.go\<close>). Every call
  of a store may fail (a pending fault) and a provider may store something else than it was given.
\<close>

section \<open>Objects and stores\<close>

record obj =
  ob_Body :: string
  ob_Size :: int
  ob_ModTime :: time
  ob_ContentType :: string
  ob_CacheControl :: string
  ob_ETag :: string

record object_info =
  oi_Key :: string
  oi_Size :: int
  oi_ModTime :: time
  oi_ContentType :: string
  oi_CacheControl :: string
  oi_ETag :: string

definition infoOf :: "string \<Rightarrow> obj \<Rightarrow> object_info" where
  "infoOf key ob = \<lparr>oi_Key = key, oi_Size = ob_Size ob, oi_ModTime = ob_ModTime ob,
     oi_ContentType = ob_ContentType ob, oi_CacheControl = ob_CacheControl ob, oi_ETag = ob_ETag ob\<rparr>"

type_synonym bucket = "(string \<times> obj) list"

record store_world =
  sw_stores :: "string \<Rightarrow> bucket"

datatype media_error =
    ErrNotFound
  | ErrNotConfigured
  | ErrSizeMismatch int int
  | ErrChecksum
  | ErrSourceChanged
  | ErrKey key_error
  | ErrTree string
  | ErrEmptyTree
  | ErrAdmissionSkipped
  | ErrCaptureStale
  | ErrPayloadIncomplete
  | ErrMigrationConflict
  | ErrItemDeleted
  | ErrEncodingActive
  | ErrSourceEmpty
  | ErrInventoryMismatch string
  | ErrMigrationUnavailable
  | ErrMigrationEmpty
  | ErrMigrationAccounts
  | ErrJobConflict
  | ErrRuntimeMissing

type_synonym ('w, 'a) store_tx = "('w store_world_scheme, media_error, 'a) tx"

text \<open>What a provider really does with the bytes it is given: the bytes that land, the size it
  reports for them, and the metadata it adds.\<close>

record provider =
  pv_land :: "string \<Rightarrow> string"
  pv_size :: "string \<Rightarrow> int"
  pv_etag :: "string \<Rightarrow> string"
  pv_now :: time

record put_options =
  po_ContentType :: string
  po_CacheControl :: string
  po_ExpectedSize :: "int option"

section \<open>The contract\<close>

definition updateStore :: "string \<Rightarrow> (bucket \<Rightarrow> bucket) \<Rightarrow> 'w store_world_scheme \<Rightarrow> 'w store_world_scheme" where
  "updateStore i f w = w\<lparr>sw_stores := (sw_stores w)(i := f (sw_stores w i))\<rparr>"

definition storeOpen :: "string \<Rightarrow> string \<Rightarrow> ('w, object_info \<times> string) store_tx" where
  "storeOpen i key = tx_stmt (\<lambda>w. case map_of (sw_stores w i) key of
     None \<Rightarrow> Inl (App ErrNotFound) | Some ob \<Rightarrow> Inr ((infoOf key ob, ob_Body ob), w))"

definition storeStat :: "string \<Rightarrow> string \<Rightarrow> ('w, object_info) store_tx" where
  "storeStat i key = tx_stmt (\<lambda>w. case map_of (sw_stores w i) key of
     None \<Rightarrow> Inl (App ErrNotFound) | Some ob \<Rightarrow> Inr (infoOf key ob, w))"

definition putObject :: "provider \<Rightarrow> put_options \<Rightarrow> string \<Rightarrow> obj" where
  "putObject pv opts body =
     \<lparr>ob_Body = pv_land pv body, ob_Size = pv_size pv (pv_land pv body), ob_ModTime = pv_now pv,
      ob_ContentType = po_ContentType opts, ob_CacheControl = po_CacheControl opts,
      ob_ETag = pv_etag pv (pv_land pv body)\<rparr>"

definition storePut ::
  "provider \<Rightarrow> string \<Rightarrow> string \<Rightarrow> string \<Rightarrow> put_options \<Rightarrow> ('w, object_info) store_tx" where
  "storePut pv i key body opts = tx_stmt (\<lambda>w.
     case po_ExpectedSize opts of
       Some n \<Rightarrow> if int (length body) \<noteq> n then Inl (App (ErrSizeMismatch (int (length body)) n))
         else Inr (infoOf key (putObject pv opts body), updateStore i (AList.update key (putObject pv opts body)) w)
     | None \<Rightarrow> Inr (infoOf key (putObject pv opts body), updateStore i (AList.update key (putObject pv opts body)) w))"

definition storeDelete :: "string \<Rightarrow> string \<Rightarrow> ('w, unit) store_tx" where
  "storeDelete i key = tx_update (updateStore i (AList.delete key))"

text \<open>\<open>Walk visits only the object at prefix or descendants below the prefix segment boundary.\<close>\<close>

definition below :: "string \<Rightarrow> string \<Rightarrow> bool" where
  "below pre key \<longleftrightarrow> key = pre \<or> prefix (pre @ ''/'') key"

definition walkInfos :: "string \<Rightarrow> bucket \<Rightarrow> object_info list" where
  "walkInfos pre b = map (\<lambda>e. infoOf (fst e) (snd e)) (filter (\<lambda>e. below pre (fst e)) b)"

definition storeWalk :: "string \<Rightarrow> string \<Rightarrow> ('w, object_info list) store_tx" where
  "storeWalk i pre = tx_select (\<lambda>w. walkInfos pre (sw_stores w i))"

section \<open>Inventory\<close>

definition isManifest :: "string \<Rightarrow> bool" where
  "isManifest key \<longleftrightarrow> toLower (objectExtension key) = ''.m3u8''"

definition PrefixInventory :: "string \<Rightarrow> string \<Rightarrow> ('w, object_info list) store_tx" where
  "PrefixInventory i pre =
     tx_bind (storeWalk i pre) (\<lambda>objects.
     tx_return (sort_key (\<lambda>o'. (isManifest (oi_Key o'), oi_Key o')) objects))"

section \<open>Deleting a prefix\<close>

fun deleteAll :: "string \<Rightarrow> string list \<Rightarrow> media_error txerr list \<Rightarrow> ('w, media_error txerr list) store_tx" where
  "deleteAll i [] errs = tx_return errs"
| "deleteAll i (k # ks) errs =
     tx_bind (tx_catch (tx_bind (storeDelete i k) (\<lambda>_. tx_return [])) (\<lambda>e. tx_return [e])) (\<lambda>es.
     deleteAll i ks (errs @ es))"

text \<open>The joined error is the list of the single ones; the empty list is no error.\<close>

definition DeletePrefix :: "string \<Rightarrow> string \<Rightarrow> ('w, media_error txerr list) store_tx" where
  "DeletePrefix i pre =
     tx_bind (storeWalk i pre) (\<lambda>infos. deleteAll i (map oi_Key infos) [])"

section \<open>Copies\<close>

definition hashStoredObject :: "(string \<Rightarrow> string) \<Rightarrow> string \<Rightarrow> string \<Rightarrow> ('w, string \<times> int) store_tx" where
  "hashStoredObject sha i key =
     tx_bind (storeOpen i key) (\<lambda>(info, body).
     if int (length body) \<noteq> oi_Size info
     then tx_fail (App (ErrSizeMismatch (int (length body)) (oi_Size info)))
     else tx_return (sha body, int (length body)))"

record copy_result =
  cr_Info :: object_info
  cr_SourceInfo :: object_info
  cr_Checksum :: string
  cr_Copied :: bool

definition copyOptions :: "object_info \<Rightarrow> put_options" where
  "copyOptions info = \<lparr>po_ContentType = oi_ContentType info, po_CacheControl = oi_CacheControl info,
     po_ExpectedSize = Some (oi_Size info)\<rparr>"

text \<open>An object already there: \<open>Some\<close> result when it verifies, \<open>None\<close> when it must be copied.\<close>

definition reuseCopy ::
  "(string \<Rightarrow> string) \<Rightarrow> string \<Rightarrow> string \<Rightarrow> object_info \<Rightarrow> ('w, copy_result option) store_tx" where
  "reuseCopy sha source destination sourceInfo =
     tx_bind (tx_catch (tx_bind (storeStat destination (oi_Key sourceInfo)) (\<lambda>info. tx_return (Some info)))
       (\<lambda>e. if e = App ErrNotFound then tx_return None else tx_fail e)) (\<lambda>found.
     case found of
       None \<Rightarrow> tx_return None
     | Some info \<Rightarrow>
         if oi_Size info \<noteq> oi_Size sourceInfo then tx_return None
         else tx_bind (hashStoredObject sha source (oi_Key sourceInfo)) (\<lambda>(srcSum, srcSize).
           tx_bind (hashStoredObject sha destination (oi_Key sourceInfo)) (\<lambda>(dstSum, dstSize).
           if srcSize = dstSize \<and> srcSum = dstSum
           then tx_return (Some \<lparr>cr_Info = info, cr_SourceInfo = sourceInfo, cr_Checksum = srcSum,
             cr_Copied = False\<rparr>)
           else tx_return None)))"

definition freshCopy ::
  "(string \<Rightarrow> string) \<Rightarrow> provider \<Rightarrow> string \<Rightarrow> string \<Rightarrow> string \<Rightarrow> ('w, copy_result) store_tx" where
  "freshCopy sha pv source destination key =
     tx_bind (storeOpen source key) (\<lambda>(info, body).
     tx_bind (storePut pv destination key body (copyOptions info)) (\<lambda>written.
     if oi_Size written \<noteq> oi_Size info
     then tx_fail (App (ErrSizeMismatch (oi_Size written) (oi_Size info)))
     else tx_bind (hashStoredObject sha destination key) (\<lambda>(dstSum, dstSize).
       if dstSize \<noteq> oi_Size info \<or> dstSum \<noteq> sha body then tx_fail (App ErrChecksum)
       else tx_return \<lparr>cr_Info = written, cr_SourceInfo = info, cr_Checksum = sha body,
         cr_Copied = True\<rparr>)))"

definition CopyObjectVerified ::
  "(string \<Rightarrow> string) \<Rightarrow> provider \<Rightarrow> string \<Rightarrow> string \<Rightarrow> object_info \<Rightarrow> ('w, copy_result) store_tx" where
  "CopyObjectVerified sha pv source destination sourceInfo =
     tx_bind (reuseCopy sha source destination sourceInfo) (\<lambda>reused.
     case reused of
       Some result \<Rightarrow> tx_return result
     | None \<Rightarrow> freshCopy sha pv source destination (oi_Key sourceInfo))"

definition CopyObjectValidated ::
  "(string \<Rightarrow> string) \<Rightarrow> provider \<Rightarrow> string \<Rightarrow> string \<Rightarrow> object_info \<Rightarrow> ('w, copy_result) store_tx" where
  "CopyObjectValidated sha pv source destination sourceInfo =
     tx_bind (storeOpen source (oi_Key sourceInfo)) (\<lambda>(info, body).
     if oi_Size info \<noteq> oi_Size sourceInfo then tx_fail (App ErrSourceChanged)
     else tx_bind (storePut pv destination (oi_Key sourceInfo) body (copyOptions info)) (\<lambda>written.
       if oi_Size written \<noteq> oi_Size info
       then tx_fail (App (ErrSizeMismatch (oi_Size written) (oi_Size info)))
       else tx_return \<lparr>cr_Info = written, cr_SourceInfo = info, cr_Checksum = sha body,
         cr_Copied = True\<rparr>))"

section \<open>Publishing a tree\<close>

text \<open>What walking the local tree meets, in its order.\<close>

datatype tree_node = RegularFile string string | Symlink string | Irregular string

record publish_entry =
  pe_relative :: string
  pe_body :: string
  pe_manifest :: bool

fun treeEntries :: "tree_node list \<Rightarrow> media_error + publish_entry list" where
  "treeEntries [] = Inr []"
| "treeEntries (Symlink r # ns) = Inl (ErrTree r)"
| "treeEntries (Irregular r # ns) = Inl (ErrTree r)"
| "treeEntries (RegularFile r body # ns) =
     (case ParseKey r of Inl e \<Rightarrow> Inl (ErrKey e)
      | Inr _ \<Rightarrow> (case treeEntries ns of Inl e \<Rightarrow> Inl e
          | Inr es \<Rightarrow> Inr (\<lparr>pe_relative = r, pe_body = body, pe_manifest = isManifest r\<rparr> # es)))"

definition publishEntries :: "tree_node list \<Rightarrow> media_error + publish_entry list" where
  "publishEntries tree =
     (case treeEntries tree of Inl e \<Rightarrow> Inl e
      | Inr es \<Rightarrow> if es = [] then Inl ErrEmptyTree
          else Inr (sort_key (\<lambda>e. (pe_manifest e, pe_relative e)) es))"

definition publishOptions :: "(string \<Rightarrow> string) \<Rightarrow> put_options \<Rightarrow> publish_entry \<Rightarrow> put_options" where
  "publishOptions mime opts e = opts\<lparr>po_ExpectedSize := Some (int (length (pe_body e))),
     po_ContentType := (if po_ContentType opts = [] then mime (pe_relative e) else po_ContentType opts)\<rparr>"

fun publishAll ::
  "provider \<Rightarrow> (string \<Rightarrow> string) \<Rightarrow> put_options \<Rightarrow> string \<Rightarrow> string \<Rightarrow> publish_entry list \<Rightarrow> ('w, object_info list) store_tx" where
  "publishAll pv mime opts i pre [] = tx_return []"
| "publishAll pv mime opts i pre (e # es) =
     (case ParseKey (pre @ ''/'' @ pe_relative e) of
        Inl err \<Rightarrow> tx_fail (App (ErrKey err))
      | Inr key \<Rightarrow>
          tx_bind (storePut pv i key (pe_body e) (publishOptions mime opts e)) (\<lambda>info.
          tx_bind (publishAll pv mime opts i pre es) (\<lambda>infos. tx_return (info # infos))))"

definition PublishPrefix ::
  "provider \<Rightarrow> (string \<Rightarrow> string) \<Rightarrow> put_options \<Rightarrow> string \<Rightarrow> string \<Rightarrow> tree_node list \<Rightarrow> ('w, object_info list) store_tx" where
  "PublishPrefix pv mime opts i pre tree =
     (case publishEntries tree of
        Inl e \<Rightarrow> tx_fail (App e)
      | Inr entries \<Rightarrow>
          tx_bind (publishAll pv mime opts i pre entries) (\<lambda>published.
          tx_bind (storeWalk i pre) (\<lambda>infos.
          let stale = filter (\<lambda>k. k \<notin> oi_Key ` set published) (map oi_Key infos)
          in tx_bind (tx_foreach (storeDelete i) stale) (\<lambda>_. tx_return published))))"

end
