(* ===== verification/StStoreClaims.thy ===== *)
theory StStoreClaims
  imports StStore
begin

text \<open>
  What the store algorithms guarantee over any store that may fail at any call: a verified copy
  is the source or an error even on a corrupting provider, deleting a prefix deletes exactly it,
  and publishing a tree ends in exactly the tree and shows a manifest only after its segments.
\<close>

section \<open>The contract as equations\<close>

lemma sw_updateStore [simp]:
  "sw_stores (updateStore i f w) j = (if j = i then f (sw_stores w i) else sw_stores w j)"
  by (simp add: updateStore_def)

lemma updateStore_twice [simp]: "updateStore i f (updateStore i g w) = updateStore i (f \<circ> g) w"
  by (simp add: updateStore_def)

lemma wp_storeOpen [tx_wp]:
  "(\<And>ob. map_of (sw_stores w i) key = Some ob \<Longrightarrow> Q (infoOf key ob, ob_Body ob) w) \<Longrightarrow>
    wp (storeOpen i key) Q w"
  unfolding storeOpen_def by (rule wp_stmt) (auto split: option.splits)

lemma wp_storeStat [tx_wp]:
  "(\<And>ob. map_of (sw_stores w i) key = Some ob \<Longrightarrow> Q (infoOf key ob) w) \<Longrightarrow> wp (storeStat i key) Q w"
  unfolding storeStat_def by (rule wp_stmt) (auto split: option.splits)

lemma wp_storePut:
  "(\<forall>n. po_ExpectedSize opts = Some n \<longrightarrow> int (length body) = n \<Longrightarrow>
      Q (infoOf key (putObject pv opts body)) (updateStore i (AList.update key (putObject pv opts body)) w)) \<Longrightarrow>
    wp (storePut pv i key body opts) Q w"
  unfolding storePut_def by (rule wp_stmt) (auto split: option.splits if_splits)

lemma wp_storeWalk [tx_wp]: "Q (walkInfos pre (sw_stores w i)) w \<Longrightarrow> wp (storeWalk i pre) Q w"
  unfolding storeWalk_def by (rule wp_select)

lemma wp_storeDelete [tx_wp]: "Q () (updateStore i (AList.delete key) w) \<Longrightarrow> wp (storeDelete i key) Q w"
  unfolding storeDelete_def by (rule wp_update)

section \<open>Copies\<close>

lemma wp_hash [tx_wp]:
  "(\<And>ob. map_of (sw_stores w i) key = Some ob \<Longrightarrow> ob_Size ob = int (length (ob_Body ob)) \<Longrightarrow>
      Q (sha (ob_Body ob), int (length (ob_Body ob))) w) \<Longrightarrow>
    wp (hashStoredObject sha i key) Q w"
  unfolding hashStoredObject_def
  by (auto intro!: wp_bind wp_storeOpen wp_return wp_fail simp: infoOf_def)

definition sameBytes :: "(string \<Rightarrow> string) \<Rightarrow> string \<Rightarrow> bucket \<Rightarrow> bucket \<Rightarrow> string \<Rightarrow> bool" where
  "sameBytes sha key b b' c \<longleftrightarrow> (\<exists>so d. map_of b key = Some so \<and> map_of b' key = Some d \<and>
     sha (ob_Body so) = c \<and> sha (ob_Body d) = c \<and> length (ob_Body so) = length (ob_Body d))"

lemma tx_catch_stat:
  "wp (tx_catch (tx_bind (storeStat i key) (\<lambda>info. tx_return (Some info)))
      (\<lambda>e. if e = App ErrNotFound then tx_return None else tx_fail e)) Q w"
  if "Q None w" and "\<And>ob. map_of (sw_stores w i) key = Some ob \<Longrightarrow> Q (Some (infoOf key ob)) w"
proof (rule wp_catch)
  show "wp (tx_bind (storeStat i key) (\<lambda>info. tx_return (Some info))) Q w"
    by (intro wp_bind wp_storeStat wp_return that(2))
  show "wp (if e = App ErrNotFound then tx_return None else tx_fail e) Q w" for e
    by (intro wp_if wp_return wp_fail that(1))
  have "always (\<lambda>d. d = w) (tx_bind (storeStat i key) (\<lambda>info. tx_return (Some info)))"
    unfolding storeStat_def
    by (intro always_bind always_return always_stmt) (simp split: option.splits)
  then show "always (\<lambda>d. d = w) (tx_bind (storeStat i key) (\<lambda>info. tx_return (Some info))) \<or>
      (\<forall>fs e d' fs'. tx_bind (storeStat i key) (\<lambda>info. tx_return (Some info)) (w, fs) = (Inl e, d', fs') \<longrightarrow> d' = w)"
    by blast
qed

lemma wp_reuseCopy:
  "wp (reuseCopy sha source destination info)
    (\<lambda>r w'. w' = w \<and> (\<forall>c. r = Some c \<longrightarrow>
      sameBytes sha (oi_Key info) (sw_stores w source) (sw_stores w destination) (cr_Checksum c))) w"
  unfolding reuseCopy_def
  by (auto intro!: wp_bind tx_catch_stat wp_return wp_hash simp: sameBytes_def)

definition onlyKey :: "string \<Rightarrow> string \<Rightarrow> 'w store_world_scheme \<Rightarrow> 'w store_world_scheme \<Rightarrow> bool" where
  "onlyKey i key w w' \<longleftrightarrow> (\<forall>j k. (j, k) \<noteq> (i, key) \<longrightarrow> map_of (sw_stores w' j) k = map_of (sw_stores w j) k)"

lemma onlyKey_refl [simp]: "onlyKey i key w w"
  by (simp add: onlyKey_def)

lemma wp_freshCopy:
  assumes "source \<noteq> destination"
  shows "wp (freshCopy sha pv source destination key)
    (\<lambda>r w'. sameBytes sha key (sw_stores w source) (sw_stores w' destination) (cr_Checksum r) \<and>
      onlyKey destination key w w') w"
  unfolding freshCopy_def using assms
  by (auto intro!: wp_bind wp_storeOpen wp_storePut wp_hash wp_return wp_fail wp_if
      simp: sameBytes_def infoOf_def update_conv copyOptions_def onlyKey_def)

lemma wp_CopyObjectVerified:
  assumes "source \<noteq> destination"
  shows "wp (CopyObjectVerified sha pv source destination info)
    (\<lambda>r w'. sameBytes sha (oi_Key info) (sw_stores w source) (sw_stores w' destination) (cr_Checksum r) \<and>
      onlyKey destination (oi_Key info) w w') w"
  unfolding CopyObjectVerified_def
  by (rule wp_bind, rule wp_mono [OF wp_reuseCopy])
    (auto intro!: wp_return wp_freshCopy [OF assms] split: option.split)

text \<open>C33: When CopyObjectVerified succeeds between two different stores, whatever the provider did
  to the bytes and whatever calls failed before, source and destination objects have the
  reported checksum (hence the same bytes when the hash is injective) and no other object of any
  store has changed.\<close>

theorem verified_copy:
  assumes "source \<noteq> destination"
    and "CopyObjectVerified sha pv source destination info (w, faults) = (Inr r, w', faults')"
  shows "\<exists>so d. map_of (sw_stores w source) (oi_Key info) = Some so \<and>
    map_of (sw_stores w' destination) (oi_Key info) = Some d \<and>
    sha (ob_Body so) = cr_Checksum r \<and> sha (ob_Body d) = cr_Checksum r \<and>
    (inj sha \<longrightarrow> ob_Body d = ob_Body so) \<and>
    (\<forall>j k. (j, k) \<noteq> (destination, oi_Key info) \<longrightarrow> map_of (sw_stores w' j) k = map_of (sw_stores w j) k)"
proof -
  from wpD [OF wp_CopyObjectVerified [OF assms(1)] assms(2)]
  have c: "sameBytes sha (oi_Key info) (sw_stores w source) (sw_stores w' destination) (cr_Checksum r)"
    and only: "onlyKey destination (oi_Key info) w w'" by simp_all
  from c obtain so d where "map_of (sw_stores w source) (oi_Key info) = Some so"
      "map_of (sw_stores w' destination) (oi_Key info) = Some d"
      "sha (ob_Body so) = cr_Checksum r" "sha (ob_Body d) = cr_Checksum r"
    unfolding sameBytes_def by blast
  moreover from this(3,4) have "inj sha \<longrightarrow> ob_Body d = ob_Body so"
    using inj_eq [of sha "ob_Body d" "ob_Body so"] by simp
  ultimately show ?thesis using only unfolding onlyKey_def by blast
qed

definition demoObject :: "string \<Rightarrow> obj" where
  "demoObject body = \<lparr>ob_Body = body, ob_Size = int (length body), ob_ModTime = 0,
     ob_ContentType = [], ob_CacheControl = [], ob_ETag = []\<rparr>"

definition demoProvider :: provider where
  "demoProvider = \<lparr>pv_land = id, pv_size = (\<lambda>b. int (length b)), pv_etag = id, pv_now = 1\<rparr>"

definition demoStores :: store_world where
  "demoStores = \<lparr>sw_stores = (\<lambda>i. if i = ''a'' then [(''u/v.ts'', demoObject ''vid''), (''u/x'', demoObject ''x'')]
     else [(''u/v.ts'', demoObject ''old'')])\<rparr>"

theorem verified_copy_witness:
  "\<exists>r w' so d. CopyObjectVerified id demoProvider ''a'' ''b'' (infoOf ''u/v.ts'' (demoObject ''vid''))
      (demoStores, []) = (Inr r, w', []) \<and> cr_Copied r \<and>
    map_of (sw_stores demoStores ''a'') ''u/v.ts'' = Some so \<and>
    map_of (sw_stores w' ''b'') ''u/v.ts'' = Some d \<and> ob_Body d = ob_Body so"
proof -
  let ?c = "CopyObjectVerified id demoProvider ''a'' ''b'' (infoOf ''u/v.ts'' (demoObject ''vid''))"
  have "(case ?c (demoStores, []) of (Inr r, w', fs) \<Rightarrow> cr_Copied r \<and> fs = [] | _ \<Rightarrow> False)"
    by code_simp
  then obtain r w' where c: "?c (demoStores, []) = (Inr r, w', [])" "cr_Copied r"
    by (auto split: prod.splits sum.splits)
  from verified_copy [OF _ c(1)] c show ?thesis by (auto simp: infoOf_def)
qed

section \<open>Deleting a prefix\<close>

definition withoutKeys :: "string \<Rightarrow> string set \<Rightarrow> 'w store_world_scheme \<Rightarrow> 'w store_world_scheme" where
  "withoutKeys i D w = updateStore i (filter (\<lambda>e. fst e \<notin> D)) w"

lemma withoutKeys_delete:
  "updateStore i (AList.delete k) (withoutKeys i D w) = withoutKeys i (insert k D) w"
  by (simp add: withoutKeys_def comp_def AList.delete_eq)
    (rule arg_cong [where f = "\<lambda>f. updateStore i f w"], auto intro!: filter_cong)

lemma withoutKeys_empty [simp]: "withoutKeys i {} w = w"
  by (simp add: withoutKeys_def updateStore_def)

lemma deleteAll_result:
  "deleteAll i ks errs (withoutKeys i D w, fs) = (r, w', fs') \<Longrightarrow>
    \<exists>E es. r = Inr (errs @ es) \<and> E \<subseteq> set ks \<and> (es = [] \<longrightarrow> E = set ks) \<and> w' = withoutKeys i (D \<union> E) w"
proof (induction ks arbitrary: errs D fs)
  case Nil
  then show ?case by (auto simp: tx_return_def intro: exI [of _ "{}"])
next
  case (Cons k ks)
  let ?m = "tx_catch (tx_bind (storeDelete i k) (\<lambda>_. tx_return [])) (\<lambda>e. tx_return [e])"
  obtain es D' fs1 where m: "?m (withoutKeys i D w, fs) = (Inr es, withoutKeys i (D \<union> D') w, fs1)"
      "D' \<subseteq> {k}" "es = [] \<longrightarrow> D' = {k}"
  proof (cases fs)
    case Nil
    then show ?thesis using that [of "[]" "{k}" "[]"]
      by (simp add: tx_run storeDelete_def withoutKeys_delete)
  next
    case fs: (Cons f fs2)
    then show ?thesis
    proof (cases f)
      case None
      with fs show ?thesis using that [of "[]" "{k}" fs2]
        by (simp add: tx_run storeDelete_def tx_update_def tx_stmt_def withoutKeys_delete)
    next
      case (Some msg)
      with fs show ?thesis using that [of "[DbFault msg]" "{}" fs2]
        by (simp add: tx_run storeDelete_def tx_update_def tx_stmt_def)
    qed
  qed
  with Cons.prems have "deleteAll i ks (errs @ es) (withoutKeys i (D \<union> D') w, fs1) = (r, w', fs')"
    by (simp add: tx_bind_def)
  from Cons.IH [OF this] obtain E es' where "r = Inr ((errs @ es) @ es')" "E \<subseteq> set ks"
      "es' = [] \<longrightarrow> E = set ks" "w' = withoutKeys i (D \<union> D' \<union> E) w" by blast
  with m(2,3) show ?case
    by (intro exI [of _ "D' \<union> E"] exI [of _ "es @ es'"]) (auto simp: Un_assoc)
qed

lemma walk_keys: "oi_Key ` set (walkInfos pre b) = {k \<in> fst ` set b. below pre k}"
  by (force simp: walkInfos_def infoOf_def)

text \<open>DeletePrefix touches only the object at the prefix and those below its segment boundary,
  in the one store, and when it reports no error none of them is left.\<close>

theorem delete_prefix_exact:
  assumes "DeletePrefix i pre (w, faults) = (Inr errs, w', faults')"
  shows "(errs = [] \<longrightarrow> (\<forall>k. below pre k \<longrightarrow> map_of (sw_stores w' i) k = None)) \<and>
    (\<forall>k. \<not> below pre k \<longrightarrow> map_of (sw_stores w' i) k = map_of (sw_stores w i) k) \<and>
    (\<forall>j. j \<noteq> i \<longrightarrow> sw_stores w' j = sw_stores w j)"
proof -
  let ?ks = "map oi_Key (walkInfos pre (sw_stores w i))"
  from assms obtain fs where "deleteAll i ?ks [] (withoutKeys i {} w, fs) = (Inr errs, w', faults')"
    by (auto simp: DeletePrefix_def tx_bind_def storeWalk_def tx_select_def tx_stmt_def
        split: list.splits option.splits)
  from deleteAll_result [OF this] obtain E where E: "E \<subseteq> set ?ks" "errs = [] \<longrightarrow> E = set ?ks"
      "w' = withoutKeys i E w" by auto
  have filt: "map_of (filter (\<lambda>e. fst e \<notin> F) b) k = (if k \<in> F then None else map_of b k)"
    for F and b :: bucket and k by (induction b) auto
  have "map_of (sw_stores w i) k = None" if "below pre k" "k \<notin> set ?ks" for k
    using that walk_keys [of pre "sw_stores w i"] by (auto simp: map_of_eq_None_iff)
  moreover have "below pre k" if "k \<in> E" for k
    using E(1) that walk_keys [of pre "sw_stores w i"] by auto
  ultimately show ?thesis using E(2) by (auto simp: E(3) withoutKeys_def filt)
qed

theorem delete_prefix_exact_witness:
  "\<exists>w' fs. DeletePrefix ''a'' ''u'' (demoStores, [None, Some ''io'']) = (Inr [DbFault ''io''], w', fs) \<and>
     sw_stores w' ''b'' = sw_stores demoStores ''b''"
proof -
  let ?d = "DeletePrefix ''a'' ''u'' (demoStores, [None, Some ''io''])"
  have "(case ?d of (Inr errs, w', fs) \<Rightarrow> errs = [DbFault ''io''] | _ \<Rightarrow> False)"
    by code_simp
  then obtain w' fs where d: "?d = (Inr [DbFault ''io''], w', fs)"
    by (auto split: prod.splits sum.splits)
  with delete_prefix_exact [OF d] show ?thesis by auto
qed

section \<open>Publishing\<close>

definition entryKey :: "string \<Rightarrow> publish_entry \<Rightarrow> string" where
  "entryKey pre e = pre @ ''/'' @ pe_relative e"

definition putEntry ::
  "provider \<Rightarrow> (string \<Rightarrow> string) \<Rightarrow> put_options \<Rightarrow> string \<Rightarrow> string \<Rightarrow> publish_entry \<Rightarrow>
   'w store_world_scheme \<Rightarrow> 'w store_world_scheme" where
  "putEntry pv mime opts i pre e =
     updateStore i (AList.update (entryKey pre e) (putObject pv (publishOptions mime opts e) (pe_body e)))"

lemma storePut_cases:
  assumes "storePut pv i key body opts (w, fs) = (r, w', fs')"
    and "po_ExpectedSize opts = Some (int (length body))"
  shows "(\<exists>e. r = Inl e \<and> w' = w) \<or> (r = Inr (infoOf key (putObject pv opts body)) \<and>
    w' = updateStore i (AList.update key (putObject pv opts body)) w)"
  using assms by (auto simp: storePut_def tx_stmt_def split: list.splits option.splits if_splits)

lemma publishAll_prefix:
  "publishAll pv mime opts i pre es (w, fs) = (r, w', fs') \<Longrightarrow>
    \<exists>n \<le> length es. w' = fold (putEntry pv mime opts i pre) (take n es) w \<and>
      (\<forall>infos. r = Inr infos \<longrightarrow> n = length es \<and> map oi_Key infos = map (entryKey pre) es)"
proof (induction es arbitrary: w fs r w' fs')
  case Nil
  then show ?case by (auto simp: tx_return_def)
next
  case (Cons e es)
  show ?case
  proof (cases "ParseKey (pre @ ''/'' @ pe_relative e)")
    case (Inl err)
    with Cons.prems show ?thesis by (auto simp: tx_fail_def intro: exI [of _ 0])
  next
    case (Inr key)
    then have key: "key = entryKey pre e" by (simp add: parse_key_characterised entryKey_def split: if_splits)
    obtain r1 w1 fs1 where p: "storePut pv i key (pe_body e) (publishOptions mime opts e) (w, fs) = (r1, w1, fs1)"
      by (cases "storePut pv i key (pe_body e) (publishOptions mime opts e) (w, fs)") auto
    from storePut_cases [OF this] consider (err) x where "r1 = Inl x" "w1 = w"
      | (ok) "r1 = Inr (infoOf key (putObject pv (publishOptions mime opts e) (pe_body e)))"
        "w1 = putEntry pv mime opts i pre e w"
      by (auto simp: publishOptions_def putEntry_def key)
    then show ?thesis
    proof cases
      case err
      with Cons.prems Inr p show ?thesis by (auto simp: tx_bind_def intro: exI [of _ 0])
    next
      case ok
      obtain r2 w2 fs2 where q: "publishAll pv mime opts i pre es (w1, fs1) = (r2, w2, fs2)"
        by (cases "publishAll pv mime opts i pre es (w1, fs1)") auto
      from Cons.IH [OF q] obtain n where n: "n \<le> length es"
          "w2 = fold (putEntry pv mime opts i pre) (take n es) w1"
          "\<forall>infos. r2 = Inr infos \<longrightarrow> n = length es \<and> map oi_Key infos = map (entryKey pre) es" by blast
      from Cons.prems Inr p q ok have "w' = w2" "\<forall>infos. r = Inr infos \<longrightarrow> (\<exists>rest. r2 = Inr rest \<and>
          infos = infoOf key (putObject pv (publishOptions mime opts e) (pe_body e)) # rest)"
        by (auto simp: tx_bind_def tx_return_def split: sum.splits)
      with n ok show ?thesis
        by (intro exI [of _ "Suc n"]) (auto simp: infoOf_def key)
    qed
  qed
qed

lemma fold_putEntry:
  "distinct (map pe_relative es) \<Longrightarrow>
    map_of (sw_stores (fold (putEntry pv mime opts i pre) es w) i) k =
      (case find (\<lambda>e. entryKey pre e = k) es of
         None \<Rightarrow> map_of (sw_stores w i) k
       | Some e \<Rightarrow> Some (putObject pv (publishOptions mime opts e) (pe_body e)))"
proof (induction es arbitrary: w)
  case (Cons e es)
  from Cons.prems have "\<forall>e' \<in> set es. pe_relative e' \<noteq> pe_relative e"
    by (metis distinct.simps(2) image_eqI list.set_map list.simps(9))
  then have "find (\<lambda>e'. entryKey pre e' = entryKey pre e) es = None"
    by (simp add: find_None_iff entryKey_def)
  with Cons show ?case
    by (auto simp: putEntry_def update_conv split: option.splits)
qed simp

lemma fold_putEntry_other: "j \<noteq> i \<Longrightarrow> sw_stores (fold (putEntry pv mime opts i pre) es w) j = sw_stores w j"
  by (induction es arbitrary: w) (simp_all add: putEntry_def)

fun nodeName :: "tree_node \<Rightarrow> string" where
  "nodeName (RegularFile r _) = r" | "nodeName (Symlink r) = r" | "nodeName (Irregular r) = r"

lemma treeEntries_ok:
  "treeEntries tree = Inr es \<Longrightarrow>
    tree = map (\<lambda>e. RegularFile (pe_relative e) (pe_body e)) es \<and> (\<forall>e \<in> set es. pe_manifest e = isManifest (pe_relative e))"
  by (induction tree arbitrary: es rule: treeEntries.induct) (auto split: sum.splits)

lemma publishEntries_ok:
  assumes "publishEntries tree = Inr es" "distinct (map nodeName tree)"
  shows "RegularFile r body \<in> set tree \<longleftrightarrow> (\<exists>e \<in> set es. pe_relative e = r \<and> pe_body e = body)"
    and "distinct (map pe_relative es)" and "\<forall>e \<in> set es. pe_manifest e = isManifest (pe_relative e)"
    and "sorted (map (\<lambda>e. (pe_manifest e, pe_relative e)) es)"
proof -
  from assms(1) obtain es0 where es0: "treeEntries tree = Inr es0"
      "es = sort_key (\<lambda>e. (pe_manifest e, pe_relative e)) es0"
    by (auto simp: publishEntries_def split: sum.splits if_splits)
  from treeEntries_ok [OF es0(1)] have t: "tree = map (\<lambda>e. RegularFile (pe_relative e) (pe_body e)) es0"
      "\<forall>e \<in> set es0. pe_manifest e = isManifest (pe_relative e)" by simp_all
  show "RegularFile r body \<in> set tree \<longleftrightarrow> (\<exists>e \<in> set es. pe_relative e = r \<and> pe_body e = body)"
    by (auto simp: t(1) es0(2))
  have "distinct (map pe_relative es0)" using assms(2) by (simp add: t(1) comp_def)
  then show "distinct (map pe_relative es)"
    by (metis es0(2) mset_eq_imp_distinct_iff mset_map mset_sort)
  show "\<forall>e \<in> set es. pe_manifest e = isManifest (pe_relative e)" using t(2) by (simp add: es0(2))
  show "sorted (map (\<lambda>e. (pe_manifest e, pe_relative e)) es)" by (simp add: es0(2))
qed

lemma foreach_delete:
  "tx_foreach (storeDelete i) ks (withoutKeys i D w, fs) = (r, w', fs') \<Longrightarrow>
    \<exists>E \<subseteq> set ks. w' = withoutKeys i (D \<union> E) w \<and> (\<forall>u. r = Inr u \<longrightarrow> E = set ks)"
proof (induction ks arbitrary: D fs r w' fs')
  case Nil
  then show ?case by (auto simp: tx_return_def)
next
  case (Cons k ks)
  obtain r1 w1 fs1 where d: "storeDelete i k (withoutKeys i D w, fs) = (r1, w1, fs1)"
    by (cases "storeDelete i k (withoutKeys i D w, fs)") auto
  then consider (err) x where "r1 = Inl x" "w1 = withoutKeys i D w"
    | (ok) "r1 = Inr ()" "w1 = withoutKeys i (insert k D) w"
    by (auto simp: storeDelete_def tx_update_def tx_stmt_def withoutKeys_delete
        split: list.splits option.splits)
  then show ?case
  proof cases
    case err
    with Cons.prems d show ?thesis by (auto simp: tx_bind_def intro!: exI [of _ "{}"])
  next
    case ok
    with Cons.prems d have "tx_foreach (storeDelete i) ks (withoutKeys i (insert k D) w, fs1) = (r, w', fs')"
      by (simp add: tx_bind_def)
    from Cons.IH [OF this] obtain E where "E \<subseteq> set ks" "w' = withoutKeys i (insert k D \<union> E) w"
        "\<forall>u. r = Inr u \<longrightarrow> E = set ks" by blast
    then show ?thesis by (intro exI [of _ "insert k E"]) auto
  qed
qed

text \<open>Where a publication can stop: after \<open>n\<close> entries, and then after deleting some stale keys.\<close>

lemma PublishPrefix_cases:
  assumes "PublishPrefix pv mime opts i pre tree (w, fs) = (r, w', fs')" "publishEntries tree = Inr es"
  shows "\<exists>n E. n \<le> length es \<and> w' = withoutKeys i E (fold (putEntry pv mime opts i pre) (take n es) w) \<and>
    E \<inter> entryKey pre ` set es = {} \<and> (\<forall>k \<in> E. below pre k) \<and>
    (\<forall>infos. r = Inr infos \<longrightarrow> n = length es \<and>
      (\<forall>k. below pre k \<and> map_of (sw_stores w' i) k \<noteq> None \<longrightarrow> k \<in> entryKey pre ` set es))"
proof -
  let ?put = "fold (putEntry pv mime opts i pre)"
  obtain r1 w1 fs1 where p: "publishAll pv mime opts i pre es (w, fs) = (r1, w1, fs1)"
    by (cases "publishAll pv mime opts i pre es (w, fs)") auto
  from publishAll_prefix [OF p] obtain n where n: "n \<le> length es" "w1 = ?put (take n es) w"
      "\<forall>infos. r1 = Inr infos \<longrightarrow> n = length es \<and> map oi_Key infos = map (entryKey pre) es" by blast
  show ?thesis
  proof (cases r1)
    case (Inl e)
    with assms p n show ?thesis
      by (intro exI [of _ n] exI [of _ "{}"]) (auto simp: PublishPrefix_def tx_bind_def)
  next
    case (Inr published)
    with n have all: "n = length es" "oi_Key ` set published = entryKey pre ` set es"
      by (auto simp flip: set_map)
    obtain r2 w2 fs2 where q: "storeWalk i pre (w1, fs1) = (r2, w2, fs2)"
      by (cases "storeWalk i pre (w1, fs1)") auto
    then have w2: "w2 = w1" "\<forall>infos. r2 = Inr infos \<longrightarrow> infos = walkInfos pre (sw_stores w1 i)"
      by (auto simp: storeWalk_def tx_select_def tx_stmt_def split: list.splits option.splits)
    show ?thesis
    proof (cases r2)
      case (Inl e)
      with assms p q w2 n Inr show ?thesis
        by (intro exI [of _ n] exI [of _ "{}"]) (auto simp: PublishPrefix_def tx_bind_def)
    next
      case infos: (Inr infos)
      let ?stale = "filter (\<lambda>k. k \<notin> oi_Key ` set published) (map oi_Key infos)"
      obtain r3 w3 fs3 where d: "tx_foreach (storeDelete i) ?stale (withoutKeys i {} w1, fs2) = (r3, w3, fs3)"
        by (cases "tx_foreach (storeDelete i) ?stale (withoutKeys i {} w1, fs2)") auto
      from foreach_delete [OF d] obtain E where E: "E \<subseteq> set ?stale" "w3 = withoutKeys i E w1"
          "\<forall>u. r3 = Inr u \<longrightarrow> E = set ?stale" by auto
      have w3: "w' = w3" "\<forall>infos. r = Inr infos \<longrightarrow> (\<exists>u. r3 = Inr u)"
        using assms p q w2 Inr infos d
        by (auto simp: PublishPrefix_def tx_bind_def tx_return_def Let_def split: sum.splits)
      have keys: "set (map oi_Key infos) = {k \<in> fst ` set (sw_stores w1 i). below pre k}"
        using w2(2) infos walk_keys [of pre "sw_stores w1 i"] by simp
      have "k \<in> entryKey pre ` set es"
        if "r = Inr x" "below pre k" "map_of (sw_stores w' i) k \<noteq> None" for x k
      proof (rule ccontr)
        assume "k \<notin> entryKey pre ` set es"
        from that(3) have "k \<in> fst ` set (sw_stores w3 i)" by (auto simp: w3(1) map_of_eq_None_iff)
        then have "k \<in> fst ` set (sw_stores w1 i)" "k \<notin> E" by (auto simp: E(2) withoutKeys_def)
        moreover from that(1) w3(2) E(3) have "E = set ?stale" by blast
        ultimately show False using that(2) \<open>k \<notin> entryKey pre ` set es\<close> keys all(2) by auto
      qed
      moreover have "E \<inter> entryKey pre ` set es = {}" "\<forall>k \<in> E. below pre k" using E(1) keys all(2) by auto
      ultimately show ?thesis using n all E(2) w3(1)
        by (intro exI [of _ n] exI [of _ E]) blast
    qed
  qed
qed

lemma withoutKeys_lookup:
  "map_of (sw_stores (withoutKeys i E w) i) k = (if k \<in> E then None else map_of (sw_stores w i) k)"
proof -
  have "map_of (filter (\<lambda>e. fst e \<notin> E) b) k = (if k \<in> E then None else map_of b k)" for b :: bucket
    by (induction b) auto
  then show ?thesis by (simp add: withoutKeys_def)
qed

lemma entryKey_inj: "distinct (map pe_relative es) \<Longrightarrow> e \<in> set es \<Longrightarrow>
    find (\<lambda>e'. entryKey pre e' = entryKey pre e) es = Some e"
  using find_distinct_key [of pe_relative es e] by (simp add: entryKey_def)

lemma entryKey_below: "below pre (entryKey pre e)"
  by (simp add: below_def entryKey_def)

text \<open>When PublishPrefix succeeds, the objects at and below the prefix are exactly the regular
  files of the tree with their contents, and nothing outside the prefix has changed.\<close>

theorem publish_prefix_exact:
  assumes "PublishPrefix pv mime opts i pre tree (w, faults) = (Inr infos, w', faults')"
    and "distinct (map nodeName tree)"
  shows "(\<forall>r body. RegularFile r body \<in> set tree \<longrightarrow>
      (\<exists>ob. map_of (sw_stores w' i) (pre @ ''/'' @ r) = Some ob \<and> ob_Body ob = pv_land pv body)) \<and>
    (\<forall>k. below pre k \<and> map_of (sw_stores w' i) k \<noteq> None \<longrightarrow>
      (\<exists>r body. RegularFile r body \<in> set tree \<and> k = pre @ ''/'' @ r)) \<and>
    (\<forall>k. \<not> below pre k \<longrightarrow> map_of (sw_stores w' i) k = map_of (sw_stores w i) k)"
proof -
  from assms(1) obtain es where es: "publishEntries tree = Inr es"
    by (auto simp: PublishPrefix_def tx_fail_def split: sum.splits)
  note ok = publishEntries_ok [OF es assms(2)]
  from PublishPrefix_cases [OF assms(1) es] obtain E where
    w': "w' = withoutKeys i E (fold (putEntry pv mime opts i pre) es w)"
      and E: "E \<inter> entryKey pre ` set es = {}" "\<forall>k \<in> E. below pre k"
      and only: "\<forall>k. below pre k \<and> map_of (sw_stores w' i) k \<noteq> None \<longrightarrow> k \<in> entryKey pre ` set es"
    by auto
  have "map_of (sw_stores w' i) (entryKey pre e) = Some (putObject pv (publishOptions mime opts e) (pe_body e))"
    if "e \<in> set es" for e
    using that E(1) by (auto simp: w' withoutKeys_lookup fold_putEntry [OF ok(2)] entryKey_inj [OF ok(2)])
  then have "\<forall>r body. RegularFile r body \<in> set tree \<longrightarrow>
      (\<exists>ob. map_of (sw_stores w' i) (pre @ ''/'' @ r) = Some ob \<and> ob_Body ob = pv_land pv body)"
    by (fastforce simp: ok(1) entryKey_def putObject_def)
  moreover have "\<exists>r body. RegularFile r body \<in> set tree \<and> k = pre @ ''/'' @ r"
    if "below pre k \<and> map_of (sw_stores w' i) k \<noteq> None" for k
  proof -
    from only that obtain e where "e \<in> set es" "k = entryKey pre e" by blast
    then have "RegularFile (pe_relative e) (pe_body e) \<in> set tree" "k = pre @ ''/'' @ pe_relative e"
      by (auto simp: ok(1) entryKey_def)
    then show ?thesis by blast
  qed
  moreover have "map_of (sw_stores w' i) k = map_of (sw_stores w i) k" if k: "\<not> below pre k" for k
  proof -
    have "find (\<lambda>e. entryKey pre e = k) es = None" using k entryKey_below by (auto simp: find_None_iff)
    with k E(2) show ?thesis by (auto simp: w' withoutKeys_lookup fold_putEntry [OF ok(2)])
  qed
  ultimately show ?thesis by blast
qed

text \<open>C36: However PublishPrefix ends, success or failure at any call, if a manifest of the tree has
  been replaced then every non-manifest file of the tree is already in place with its new
  content.\<close>

theorem manifest_published_last:
  assumes "PublishPrefix pv mime opts i pre tree (w, faults) = (r, w', faults')"
    and "distinct (map nodeName tree)"
    and "RegularFile m mbody \<in> set tree" "isManifest m"
    and "map_of (sw_stores w' i) (pre @ ''/'' @ m) \<noteq> map_of (sw_stores w i) (pre @ ''/'' @ m)"
    and "RegularFile s sbody \<in> set tree" "\<not> isManifest s"
  shows "\<exists>ob. map_of (sw_stores w' i) (pre @ ''/'' @ s) = Some ob \<and> ob_Body ob = pv_land pv sbody"
proof (cases "publishEntries tree")
  case (Inl e)
  with assms(1,5) show ?thesis by (auto simp: PublishPrefix_def tx_fail_def)
next
  case (Inr es)
  note ok = publishEntries_ok [OF Inr assms(2)]
  from PublishPrefix_cases [OF assms(1) Inr] obtain n E where
    w': "w' = withoutKeys i E (fold (putEntry pv mime opts i pre) (take n es) w)"
      and E: "E \<inter> entryKey pre ` set es = {}" by blast
  have dist: "distinct (map pe_relative (take n es))" using ok(2) by (simp flip: take_map)
  from assms(3) ok(1) obtain em where em: "em \<in> set es" "pe_relative em = m" by blast
  from assms(6) ok(1) obtain en where en: "en \<in> set es" "pe_relative en = s" "pe_body en = sbody" by blast
  have "em \<in> set (take n es)"
  proof (rule ccontr)
    assume out: "em \<notin> set (take n es)"
    have "e = em" if "e \<in> set es" "entryKey pre e = entryKey pre em" for e
      using entryKey_inj [OF ok(2) em(1), of pre] entryKey_inj [OF ok(2) that(1), of pre] that(2) by simp
    with out have "find (\<lambda>e. entryKey pre e = entryKey pre em) (take n es) = None"
      by (auto simp: find_None_iff dest: in_set_takeD)
    moreover have "entryKey pre em \<notin> E" using E em(1) by blast
    ultimately show False using assms(5) em(2)
      by (simp add: w' withoutKeys_lookup fold_putEntry [OF dist] entryKey_def)
  qed
  moreover have "en \<in> set (take n es)"
  proof (rule ccontr)
    assume "en \<notin> set (take n es)"
    with en(1) have "en \<in> set (drop n es)" by (metis Un_iff append_take_drop_id set_append)
    with ok(4) calculation have "(pe_manifest em, pe_relative em) \<le> (pe_manifest en, pe_relative en)"
      by (metis (no_types, lifting) append_take_drop_id image_eqI list.set_map map_append sorted_append)
    with ok(3) em en assms(4,7) show False by auto
  qed
  ultimately have "map_of (sw_stores w' i) (entryKey pre en) =
      Some (putObject pv (publishOptions mime opts en) (pe_body en))"
    using E en(1) by (auto simp: w' withoutKeys_lookup fold_putEntry [OF dist] entryKey_inj [OF dist])
  then show ?thesis by (simp add: entryKey_def en putObject_def)
qed

definition demoTree :: "tree_node list" where
  "demoTree = [RegularFile ''out.m3u8'' ''list'', RegularFile ''s0.ts'' ''seg'']"

definition demoOptions :: put_options where
  "demoOptions = \<lparr>po_ContentType = [], po_CacheControl = [], po_ExpectedSize = None\<rparr>"

theorem publish_prefix_exact_witness:
  "\<exists>infos w' ob. PublishPrefix demoProvider id demoOptions ''a'' ''u'' demoTree (demoStores, []) = (Inr infos, w', []) \<and>
     map_of (sw_stores w' ''a'') ''u/out.m3u8'' = Some ob \<and> ob_Body ob = ''list'' \<and>
     map_of (sw_stores w' ''a'') ''u/x'' = None"
proof -
  let ?p = "PublishPrefix demoProvider id demoOptions ''a'' ''u'' demoTree (demoStores, [])"
  have "(case ?p of (Inr infos, w', fs) \<Rightarrow> fs = [] | _ \<Rightarrow> False)" by code_simp
  then obtain infos w' where p: "?p = (Inr infos, w', [])" by (auto split: prod.splits sum.splits)
  have t: "distinct (map nodeName demoTree)" "RegularFile ''out.m3u8'' ''list'' \<in> set demoTree"
      "below ''u'' ''u/x''" by code_simp+
  note exact = publish_prefix_exact [OF p t(1)]
  from exact t(2) obtain ob where "map_of (sw_stores w' ''a'') ''u/out.m3u8'' = Some ob" "ob_Body ob = ''list''"
    by (fastforce simp: demoProvider_def)
  moreover have "map_of (sw_stores w' ''a'') ''u/x'' = None"
  proof (rule ccontr)
    assume "map_of (sw_stores w' ''a'') ''u/x'' \<noteq> None"
    with exact t(3) obtain r body where "RegularFile r body \<in> set demoTree" "''u/x'' = ''u'' @ ''/'' @ r" by blast
    then show False by (auto simp: demoTree_def)
  qed
  ultimately show ?thesis using p by blast
qed

theorem manifest_published_last_witness:
  "\<exists>r w' fs ob. PublishPrefix demoProvider id demoOptions ''a'' ''u'' demoTree
      (demoStores, [None, None, Some ''io'']) = (r, w', fs) \<and>
     map_of (sw_stores w' ''a'') ''u/s0.ts'' = Some ob \<and> ob_Body ob = ''seg''"
proof -
  let ?p = "PublishPrefix demoProvider id demoOptions ''a'' ''u'' demoTree (demoStores, [None, None, Some ''io''])"
  obtain r w' fs where p: "?p = (r, w', fs)" by (cases ?p) auto
  have "(case ?p of (r, w', fs) \<Rightarrow> map_of (sw_stores w' ''a'') ''u/out.m3u8'' \<noteq>
      map_of (sw_stores demoStores ''a'') ''u/out.m3u8'')" by code_simp
  then have "map_of (sw_stores w' ''a'') (''u'' @ ''/'' @ ''out.m3u8'') \<noteq>
      map_of (sw_stores demoStores ''a'') (''u'' @ ''/'' @ ''out.m3u8'')" by (simp add: p)
  moreover have "distinct (map nodeName demoTree)" "isManifest ''out.m3u8''" "\<not> isManifest ''s0.ts''"
    by code_simp+
  ultimately show ?thesis
    using manifest_published_last [OF p, of "''out.m3u8''" "''list''" "''s0.ts''" "''seg''"] p
    by (auto simp: demoTree_def demoProvider_def)
qed

end
