(* ===== verification/McCapture.thy ===== *)
theory McCapture
  imports Prelude
begin

text \<open>
  The body that copies what a viewer reads into a temporary file (\<^verbatim>\<open>mediacache/capture.go\<close>).
  The source is a byte string with a position; each call comes with what the source and the file
  do on it.
\<close>

section \<open>The body\<close>

record capture_body =
  cb_source :: string        \<comment> \<open>the object's bytes\<close>
  cb_offset :: nat           \<comment> \<open>the source's own position\<close>
  cb_file :: string          \<comment> \<open>what the temporary file holds\<close>
  cb_expected :: int
  cb_position :: nat
  cb_written :: int
  cb_started :: bool
  cb_valid :: bool

record capture_outcome =
  co_Started :: bool
  co_Complete :: bool
  co_Captured :: int

definition newCaptureBody :: "string \<Rightarrow> int \<Rightarrow> capture_body" where
  "newCaptureBody source expected = \<lparr>cb_source = source, cb_offset = 0, cb_file = [],
     cb_expected = expected, cb_position = 0, cb_written = 0, cb_started = False, cb_valid = True\<rparr>"

text \<open>A call of \<^verbatim>\<open>Read\<close>: the source delivers at most \<open>n\<close> of its next bytes, the file accepts at
  most \<open>k\<close> of them, \<open>werr\<close> says whether writing failed. The result is the bytes delivered.\<close>

definition captureRead :: "nat \<Rightarrow> nat \<Rightarrow> bool \<Rightarrow> capture_body \<Rightarrow> string \<times> capture_body" where
  "captureRead n k werr b =
     (let data = take n (drop (cb_offset b) (cb_source b));
          b = b\<lparr>cb_offset := cb_offset b + length data\<rparr>
      in if data = [] then (data, b)
         else let b = (if cb_started b then b
                  else b\<lparr>cb_started := True, cb_valid := (cb_valid b \<and> cb_position b = 0)\<rparr>);
                b = (if cb_valid b \<and> int (cb_position b) = cb_written b
                  then let out = take k data
                    in b\<lparr>cb_file := cb_file b @ out, cb_written := cb_written b + int (length out),
                         cb_valid := (\<not> werr \<and> length out = length data)\<rparr>
                  else b\<lparr>cb_valid := False\<rparr>)
              in (data, b\<lparr>cb_position := cb_position b + length data\<rparr>))"

text \<open>A call of \<^verbatim>\<open>Seek\<close>: the new position, or an error that leaves the source where it is.\<close>

definition captureSeek :: "nat option \<Rightarrow> capture_body \<Rightarrow> capture_body" where
  "captureSeek to b =
     (case to of
        None \<Rightarrow> b
      | Some p \<Rightarrow> let b = b\<lparr>cb_offset := p, cb_position := p\<rparr>
          in if cb_started b \<and> int p \<noteq> cb_written b then b\<lparr>cb_valid := False\<rparr> else b)"

definition captureClose :: "bool \<Rightarrow> capture_body \<Rightarrow> capture_outcome" where
  "captureClose closeErr b =
     \<lparr>co_Started = cb_started b,
      co_Complete = (\<not> closeErr \<and> cb_valid b \<and> cb_started b \<and> cb_written b = cb_expected b),
      co_Captured = cb_written b\<rparr>"

section \<open>A completed capture is the object\<close>

datatype capture_call = CallRead nat nat bool | CallSeek "nat option"

fun captureCall :: "capture_call \<Rightarrow> capture_body \<Rightarrow> capture_body" where
  "captureCall (CallRead n k werr) b = snd (captureRead n k werr b)"
| "captureCall (CallSeek to) b = captureSeek to b"

definition captureInv :: "string \<Rightarrow> int \<Rightarrow> capture_body \<Rightarrow> bool" where
  "captureInv source expected b \<longleftrightarrow>
     cb_source b = source \<and> cb_expected b = expected \<and> cb_offset b = cb_position b \<and>
     cb_written b = int (length (cb_file b)) \<and> prefix (cb_file b) source \<and>
     (cb_started b \<or> cb_file b = [])"

lemma captureInv_new: "captureInv source expected (newCaptureBody source expected)"
  by (simp add: captureInv_def newCaptureBody_def)

lemma prefix_extend: "prefix f s \<Longrightarrow> prefix (f @ take k (take n (drop (length f) s))) s"
  by (auto simp: prefix_def) (metis append_take_drop_id take_take)

lemma captureRead_inv:
  assumes "captureInv source expected b"
  shows "captureInv source expected (snd (captureRead n k werr b))"
  using assms prefix_extend [of "cb_file b" source k n]
  by (auto simp: captureInv_def captureRead_def Let_def)

lemma captureSeek_inv: "captureInv source expected b \<Longrightarrow> captureInv source expected (captureSeek to b)"
  by (auto simp: captureInv_def captureSeek_def Let_def split: option.splits)

lemma captureCalls_inv:
  "captureInv source expected b \<Longrightarrow> captureInv source expected (fold captureCall calls b)"
proof (induction calls arbitrary: b)
  case (Cons c calls)
  then show ?case by (cases c) (simp_all add: captureRead_inv captureSeek_inv)
qed simp

text \<open>C30: Whatever reads and seeks a viewer makes, and whatever writes to the temporary file fail
  or fall short, a capture reported complete has exactly the bytes of the object in its file.\<close>

theorem complete_capture_is_object:
  assumes "b = fold captureCall calls (newCaptureBody source (int (length source)))"
    and "co_Complete (captureClose closeErr b)"
  shows "cb_file b = source"
proof -
  have "captureInv source (int (length source)) b"
    unfolding assms(1) by (rule captureCalls_inv [OF captureInv_new])
  with assms(2) show ?thesis by (auto simp: captureInv_def captureClose_def prefix_def)
qed

theorem complete_capture_is_object_witness:
  "co_Complete (captureClose False (fold captureCall [CallRead 2 9 False, CallSeek (Some 2), CallRead 9 9 False]
     (newCaptureBody ''abcd'' 4))) \<and>
   cb_file (fold captureCall [CallRead 2 9 False, CallSeek (Some 2), CallRead 9 9 False]
     (newCaptureBody ''abcd'' 4)) = ''abcd''"
proof -
  let ?b = "fold captureCall [CallRead 2 9 False, CallSeek (Some 2), CallRead 9 9 False] (newCaptureBody ''abcd'' 4)"
  have c: "co_Complete (captureClose False ?b)" by code_simp
  from complete_capture_is_object [OF _ c, of "[CallRead 2 9 False, CallSeek (Some 2), CallRead 9 9 False]" "''abcd''"] c
  show ?thesis by simp
qed

end
