(* ===== verification/McState.thy ===== *)
theory McState
  imports StStore "HOL-Library.Word" Complex_Main
begin

text \<open>
  The state of the playback cache (\<^verbatim>\<open>mediacache/service.go\<close>): the tables it reads and writes, the
  stores, and the service's own maps. Everything lives in one record, threaded through the
  operations; only \<^verbatim>\<open>commitPromotion\<close> and \<^verbatim>\<open>InvalidateFile\<close> run in a transaction, every other
  operation leaves behind what it had done when it failed.
\<close>

section \<open>Rows\<close>

record pool_row =
  pl_ID :: nat
  pl_UUID :: string

record mount_row =
  mt_ID :: nat
  mt_UUID :: string
  mt_Mounted :: bool
  mt_LastError :: string

datatype member_role = RolePrimary | RoleCache

record member_row =
  mb_PoolID :: nat
  mb_MountID :: nat
  mb_Role :: member_role
  mb_CacheMaxBytes :: int
  mb_CacheLastError :: string

text \<open>\<open>fl_CacheVersion = None\<close> is the SQL null that \<^verbatim>\<open>COALESCE\<close> reads as zero.\<close>

record file_row =
  fl_ID :: nat
  fl_CacheVersion :: "nat option"
  fl_Deleted :: bool

record cache_entry =
  ce_ID :: nat
  ce_Deleted :: bool
  ce_StoragePoolID :: nat
  ce_OriginMountID :: string
  ce_ObjectKeyHash :: string
  ce_ObjectKey :: string
  ce_CacheMountID :: nat
  ce_CacheObjectKey :: string
  ce_FileID :: nat
  ce_FileCacheVersion :: nat
  ce_Size :: int
  ce_SourceETag :: string
  ce_ContentType :: string
  ce_CacheControl :: string
  ce_SourceModTime :: "time option"
  ce_LastAccessedAt :: time

record open_request =
  rq_PoolID :: nat
  rq_OriginMountID :: string
  rq_FileID :: nat
  rq_Key :: string

datatype cache_status = StatusBypass | StatusHit | StatusMiss | StatusFilling

record open_result =
  or_CacheHit :: bool
  or_CacheStatus :: cache_status
  or_PoolID :: nat
  or_MountUUID :: string

text \<open>\<open>pp_Temporary\<close> is the captured file: \<open>None\<close> for an empty \<^verbatim>\<open>TemporaryPath\<close>, otherwise its
  content, or \<open>None\<close> inside when it cannot be opened.\<close>

record promotion_payload =
  pp_PoolID :: nat
  pp_OriginMountID :: string
  pp_FileID :: nat
  pp_FileCacheVersion :: nat
  pp_ObjectKey :: string
  pp_TargetMountID :: nat
  pp_TargetMountIDs :: "nat list"
  pp_Temporary :: "string option option"
  pp_Info :: object_info

record cache_target =
  tg_MountID :: nat
  tg_MountUUID :: string
  tg_MaxBytes :: int
  tg_UsedBytes :: int

section \<open>State\<close>

type_synonym uint64 = "64 word"

record cache_state = store_world +
  cw_pools :: "pool_row list"
  cw_mounts :: "mount_row list"
  cw_members :: "member_row list"
  cw_files :: "file_row list"
  cw_entries :: "cache_entry list"
  cw_nextEntry :: nat
  cw_registered :: "string list"
  cs_active :: "string list"
  cs_closed :: bool
  cs_reserved :: int
  cs_touches :: "(nat \<times> time) list"
  cs_touchClosing :: bool

type_synonym 'a cache_tx = "(cache_state, media_error, 'a) tx"

text \<open>What is outside the program: the digest, the free space each store and the workspace
  report (\<open>None\<close> when they do not), what each provider does with the bytes it is given.\<close>

record cache_env =
  cv_sha256 :: "string \<Rightarrow> string"
  cv_capacity :: "string \<Rightarrow> (uint64 \<times> uint64) option"
  cv_workspace :: "(uint64 \<times> uint64) option"
  cv_provider :: "string \<Rightarrow> provider"
  cv_default :: string
  cv_errorText :: "media_error txerr \<Rightarrow> string"

definition objectKeyHash :: "cache_env \<Rightarrow> string \<Rightarrow> string" where
  "objectKeyHash env v = cv_sha256 env v"

definition cacheIdentity :: "cache_env \<Rightarrow> nat \<Rightarrow> string \<Rightarrow> string \<Rightarrow> string" where
  "cacheIdentity env poolID originMountID objectKey =
     digits poolID @ '':'' @ originMountID @ '':'' @ objectKeyHash env objectKey"

section \<open>Statements\<close>

definition fileVersion :: "file_row \<Rightarrow> nat" where
  "fileVersion f = (case fl_CacheVersion f of None \<Rightarrow> 0 | Some v \<Rightarrow> v)"

definition mountById :: "nat \<Rightarrow> cache_state \<Rightarrow> mount_row option" where
  "mountById i w = find (\<lambda>m. mt_ID m = i) (cw_mounts w)"

definition isMember :: "nat \<Rightarrow> nat \<Rightarrow> member_row \<Rightarrow> bool" where
  "isMember poolID mountID m \<longleftrightarrow> mb_PoolID m = poolID \<and> mb_MountID m = mountID \<and> mb_Role m = RoleCache"

definition currentFile :: "nat \<Rightarrow> nat \<Rightarrow> file_row \<Rightarrow> bool" where
  "currentFile i v f \<longleftrightarrow> fl_ID f = i \<and> fileVersion f = v \<and> \<not> fl_Deleted f"

definition entriesOn :: "nat \<Rightarrow> nat \<Rightarrow> cache_state \<Rightarrow> cache_entry list" where
  "entriesOn poolID mountID w = filter (\<lambda>e. \<not> ce_Deleted e \<and> ce_StoragePoolID e = poolID \<and>
     ce_CacheMountID e = mountID) (cw_entries w)"

definition usedBytes :: "nat \<Rightarrow> nat \<Rightarrow> cache_state \<Rightarrow> int" where
  "usedBytes poolID mountID w = sum_list (map ce_Size (entriesOn poolID mountID w))"

definition deleteEntry :: "nat \<Rightarrow> cache_state \<Rightarrow> cache_state" where
  "deleteEntry i w = w\<lparr>cw_entries :=
     update_where (\<lambda>e. ce_ID e = i \<and> \<not> ce_Deleted e) (\<lambda>e. e\<lparr>ce_Deleted := True\<rparr>) (cw_entries w)\<rparr>"

definition resolveStore :: "string \<Rightarrow> cache_state \<Rightarrow> bool" where
  "resolveStore uuid w \<longleftrightarrow> uuid \<in> set (cw_registered w)"

definition fileCacheVersion :: "nat \<Rightarrow> nat cache_tx" where
  "fileCacheVersion fileID = tx_first (\<lambda>w. map_option fileVersion
     (find (\<lambda>f. fl_ID f = fileID \<and> \<not> fl_Deleted f) (cw_files w)))"

definition updateMembers :: "nat \<Rightarrow> nat \<Rightarrow> (member_row \<Rightarrow> member_row) \<Rightarrow> unit cache_tx" where
  "updateMembers poolID mountID f = tx_update (\<lambda>w. w\<lparr>cw_members :=
     update_where (\<lambda>m. mb_PoolID m = poolID \<and> mb_MountID m = mountID) f (cw_members w)\<rparr>)"

definition recordMembershipError :: "nat \<Rightarrow> nat \<Rightarrow> string \<Rightarrow> unit cache_tx" where
  "recordMembershipError poolID mountID err =
     tx_ignore (updateMembers poolID mountID
       (\<lambda>m. m\<lparr>mb_CacheLastError := take 1000 (trimSpace err)\<rparr>))"

definition clearMembershipError :: "nat \<Rightarrow> nat \<Rightarrow> unit cache_tx" where
  "clearMembershipError poolID mountID =
     tx_ignore (updateMembers poolID mountID (\<lambda>m. m\<lparr>mb_CacheLastError := []\<rparr>))"

definition deleteEntryObject :: "cache_entry \<Rightarrow> unit cache_tx" where
  "deleteEntryObject e =
     tx_ignore (tx_bind (tx_first (mountById (ce_CacheMountID e))) (\<lambda>mount.
       tx_bind (tx_peek (resolveStore (mt_UUID mount))) (\<lambda>ok.
       case ParseKey (ce_CacheObjectKey e) of
         Inl _ \<Rightarrow> tx_return ()
       | Inr key \<Rightarrow> if ok then storeDelete (mt_UUID mount) key else tx_return ())))"

definition dropEntry :: "cache_entry \<Rightarrow> bool \<Rightarrow> unit cache_tx" where
  "dropEntry e deleteObject =
     tx_bind (tx_ignore (tx_update (deleteEntry (ce_ID e)))) (\<lambda>_.
     if deleteObject then deleteEntryObject e else tx_return ())"

section \<open>Lookup\<close>

definition servable :: "cache_env \<Rightarrow> nat \<Rightarrow> open_request \<Rightarrow> cache_state \<Rightarrow> cache_entry \<Rightarrow> bool" where
  "servable env poolID rq w e \<longleftrightarrow>
     \<not> ce_Deleted e \<and> ce_StoragePoolID e = poolID \<and> ce_OriginMountID e = rq_OriginMountID rq \<and>
     ce_ObjectKeyHash e = objectKeyHash env (rq_Key rq) \<and>
     list_ex (isMember poolID (ce_CacheMountID e)) (cw_members w) \<and>
     list_ex (currentFile (ce_FileID e) (ce_FileCacheVersion e)) (cw_files w)"

definition hitInfo :: "open_request \<Rightarrow> cache_entry \<Rightarrow> object_info \<Rightarrow> object_info" where
  "hitInfo rq e info = info\<lparr>oi_Key := rq_Key rq, oi_Size := ce_Size e, oi_ETag := ce_SourceETag e,
     oi_ContentType := ce_ContentType e, oi_CacheControl := ce_CacheControl e,
     oi_ModTime := (case ce_SourceModTime e of None \<Rightarrow> oi_ModTime info | Some t \<Rightarrow> t)\<rparr>"

definition cacheTouchAge :: int where "cacheTouchAge = 5 * minute"
definition cacheTouchLimit :: nat where "cacheTouchLimit = 100000"

definition touchOf :: "nat \<Rightarrow> cache_state \<Rightarrow> time option" where
  "touchOf i w = map_of (cs_touches w) i"

definition queueTouch :: "cache_entry \<Rightarrow> time \<Rightarrow> cache_state \<Rightarrow> cache_state" where
  "queueTouch e now w =
     (if ce_ID e = 0 \<or> now - cacheTouchAge \<le> ce_LastAccessedAt e then w
      else if cs_touchClosing w then w
      else case touchOf (ce_ID e) w of
        None \<Rightarrow> if cacheTouchLimit \<le> length (cs_touches w) then w
          else w\<lparr>cs_touches := AList.update (ce_ID e) now (cs_touches w)\<rparr>
      | Some previous \<Rightarrow> if previous < now
          then w\<lparr>cs_touches := AList.update (ce_ID e) now (cs_touches w)\<rparr> else w)"

text \<open>The object served, with the uuid of its mount; \<open>None\<close> is a miss.\<close>

definition openEntry :: "open_request \<Rightarrow> time \<Rightarrow> cache_entry \<Rightarrow> ((object_info \<times> string) \<times> string) option cache_tx" where
  "openEntry rq now e =
     tx_bind (tx_try (tx_first (mountById (ce_CacheMountID e)))) (\<lambda>found.
     case found of
       Inl _ \<Rightarrow> tx_return None
     | Inr mount \<Rightarrow>
         tx_bind (tx_peek (resolveStore (mt_UUID mount))) (\<lambda>registered.
         if \<not> mt_Mounted mount \<or> mt_LastError mount \<noteq> [] \<or> \<not> registered then tx_return None
         else case ParseKey (ce_CacheObjectKey e) of
           Inl _ \<Rightarrow> tx_bind (dropEntry e False) (\<lambda>_. tx_return None)
         | Inr key \<Rightarrow>
             tx_bind (tx_try (storeOpen (mt_UUID mount) key)) (\<lambda>opened.
             case opened of
               Inl err \<Rightarrow>
                 if err = App ErrNotFound then tx_bind (dropEntry e False) (\<lambda>_. tx_return None)
                 else tx_return None
             | Inr (info, body) \<Rightarrow>
                 if oi_Size info \<noteq> ce_Size e
                 then tx_bind (dropEntry e True) (\<lambda>_. tx_return None)
                 else tx_bind (tx_poke (queueTouch e now)) (\<lambda>_.
                   tx_return (Some ((hitInfo rq e info, body), mt_UUID mount))))))"

definition openCached ::
  "cache_env \<Rightarrow> nat \<Rightarrow> open_request \<Rightarrow> time \<Rightarrow> ((object_info \<times> string) \<times> string) option cache_tx" where
  "openCached env poolID rq now =
     tx_bind (tx_try (tx_first (\<lambda>w. find (servable env poolID rq w) (cw_entries w)))) (\<lambda>found.
     case found of Inl _ \<Rightarrow> tx_return None | Inr e \<Rightarrow> openEntry rq now e)"

section \<open>Claims and workspace\<close>

definition claimFill :: "string \<Rightarrow> cache_state \<Rightarrow> bool \<times> cache_state" where
  "claimFill key w =
     (if cs_closed w then (False, w)
      else if key \<in> set (cs_active w) then (False, w)
      else (True, w\<lparr>cs_active := key # cs_active w\<rparr>))"

definition releaseFill :: "string \<Rightarrow> cache_state \<Rightarrow> cache_state" where
  "releaseFill key w = w\<lparr>cs_active := removeAll key (cs_active w)\<rparr>"

definition percentOf :: "uint64 \<Rightarrow> uint64 \<Rightarrow> int" where
  "percentOf p capacity = sint ((capacity * p) div 100)"

definition minimumFreePercent :: uint64 where "minimumFreePercent = 10"
definition recoveryFreePercent :: uint64 where "recoveryFreePercent = 12"

text \<open>The bytes a successful reservation holds, which its release gives back; a workspace that
  reports no capacity reserves nothing.\<close>

definition reserveWorkspace :: "cache_env \<Rightarrow> int \<Rightarrow> cache_state \<Rightarrow> int option \<times> cache_state" where
  "reserveWorkspace env incoming w =
     (case cv_workspace env of
        None \<Rightarrow> (Some 0, w)
      | Some (capacity, free) \<Rightarrow>
          if capacity = 0 then (Some 0, w)
          else if cs_closed w \<or> sint free - cs_reserved w - incoming < percentOf minimumFreePercent capacity
          then (None, w)
          else (Some incoming, w\<lparr>cs_reserved := cs_reserved w + incoming\<rparr>))"

definition releaseWorkspace :: "int \<Rightarrow> cache_state \<Rightarrow> cache_state" where
  "releaseWorkspace held w = w\<lparr>cs_reserved := cs_reserved w - held\<rparr>"

end
