(* ===== verification/McFill.thy ===== *)
theory McFill
  imports McState
begin

text \<open>
  Filling the playback cache: choosing a target, making room on it, storing the copy and
  committing its entry; invalidation, pruning and the buffered access times.
\<close>

section \<open>Targets\<close>

definition targetRow :: "nat \<Rightarrow> string \<Rightarrow> cache_state \<Rightarrow> member_row \<Rightarrow> cache_target option" where
  "targetRow poolID originMountID w m =
     (if isMember poolID (mb_MountID m) m \<and> 0 < mb_CacheMaxBytes m then
        (case mountById (mb_MountID m) w of
           None \<Rightarrow> None
         | Some mount \<Rightarrow>
             if mt_Mounted mount \<and> mt_LastError mount = [] \<and> mt_UUID mount \<noteq> originMountID
             then Some \<lparr>tg_MountID = mb_MountID m, tg_MountUUID = mt_UUID mount,
               tg_MaxBytes = mb_CacheMaxBytes m, tg_UsedBytes = usedBytes poolID (mb_MountID m) w\<rparr>
             else None)
      else None)"

text \<open>Least filled first, as an exact ratio; ties by mount id.\<close>

definition targetOrder :: "cache_target \<Rightarrow> rat \<times> nat" where
  "targetOrder t = (Fract (tg_UsedBytes t) (tg_MaxBytes t), tg_MountID t)"

definition targets :: "nat \<Rightarrow> string \<Rightarrow> int \<Rightarrow> cache_target list cache_tx" where
  "targets poolID originMountID incoming = tx_select (\<lambda>w.
     sort_key targetOrder (filter (\<lambda>t. incoming \<le> tg_MaxBytes t \<and> resolveStore (tg_MountUUID t) w)
       (List.map_filter (targetRow poolID originMountID w) (cw_members w))))"

definition uniqueTargetMountIDs :: "promotion_payload \<Rightarrow> nat list" where
  "uniqueTargetMountIDs p =
     (let values = (if pp_TargetMountIDs p = [] then [pp_TargetMountID p] else pp_TargetMountIDs p)
      in rev (fold (\<lambda>v result. if v = 0 \<or> v \<in> set result then result else v # result) values []))"

section \<open>Making room\<close>

definition highWatermark :: "int \<Rightarrow> int" where "highWatermark maxBytes = maxBytes * 9 div 10"
definition lowWatermark :: "int \<Rightarrow> int" where "lowWatermark maxBytes = maxBytes * 8 div 10"

definition bytesToFree :: "int \<Rightarrow> int \<Rightarrow> int \<Rightarrow> (uint64 \<times> uint64) option \<Rightarrow> int" where
  "bytesToFree maxBytes used incoming capacity =
     (let over = (if highWatermark maxBytes < used + incoming
            then used + incoming - lowWatermark maxBytes else 0)
      in case capacity of
           None \<Rightarrow> over
         | Some (size_, free) \<Rightarrow>
             if size_ = 0 then over
             else let projected = sint free - incoming; recovery = percentOf recoveryFreePercent size_
               in if projected < percentOf minimumFreePercent size_ \<and> over < recovery - projected
                  then recovery - projected else over)"

text \<open>Delete entries in the given order until enough bytes are freed; the bytes freed.\<close>

fun evict :: "string \<Rightarrow> int \<Rightarrow> cache_entry list \<Rightarrow> int \<Rightarrow> int cache_tx" where
  "evict storeID need [] freed = tx_return freed"
| "evict storeID need (e # es) freed =
     tx_bind (case ParseKey (ce_CacheObjectKey e) of
         Inl _ \<Rightarrow> tx_return ()
       | Inr key \<Rightarrow> tx_catch (storeDelete storeID key)
           (\<lambda>err. if err = App ErrNotFound then tx_return () else tx_fail err)) (\<lambda>_.
     tx_bind (tx_update (deleteEntry (ce_ID e))) (\<lambda>_.
     if need \<le> freed + ce_Size e then tx_return (freed + ce_Size e)
     else evict storeID need es (freed + ce_Size e)))"

definition pruneMembership :: "cache_env \<Rightarrow> member_row \<Rightarrow> string \<Rightarrow> int \<Rightarrow> unit cache_tx" where
  "pruneMembership env m storeID incoming =
     (if mb_CacheMaxBytes m \<le> 0 \<or> mb_CacheMaxBytes m < incoming then tx_fail (App ErrAdmissionSkipped)
      else tx_bind (tx_select (usedBytes (mb_PoolID m) (mb_MountID m))) (\<lambda>used.
        let need = bytesToFree (mb_CacheMaxBytes m) used incoming (cv_capacity env storeID)
        in if need \<le> 0 then tx_return ()
           else tx_bind (tx_select (\<lambda>w. sort_key (\<lambda>e. (ce_LastAccessedAt e, ce_ID e))
                (entriesOn (mb_PoolID m) (mb_MountID m) w))) (\<lambda>entries.
             tx_bind (evict storeID need entries 0) (\<lambda>freed.
             tx_reject (freed < need \<and> 0 < incoming) ErrAdmissionSkipped))))"

section \<open>Promotion\<close>

definition cacheKey :: "cache_env \<Rightarrow> nat \<Rightarrow> string \<Rightarrow> string \<Rightarrow> string cache_tx" where
  "cacheKey env poolID originMountID objectKey =
     tx_bind (tx_first (\<lambda>w. find (\<lambda>p. pl_ID p = poolID) (cw_pools w))) (\<lambda>pool.
     case ParseKey (''cache/v1/'' @ pl_UUID pool @ ''/'' @ originMountID @ ''/'' @ objectKeyHash env objectKey) of
       Inl e \<Rightarrow> tx_fail (App (ErrKey e))
     | Inr key \<Rightarrow> tx_return key)"

definition sameObject :: "cache_entry \<Rightarrow> cache_entry \<Rightarrow> bool" where
  "sameObject e x \<longleftrightarrow> ce_StoragePoolID x = ce_StoragePoolID e \<and> ce_OriginMountID x = ce_OriginMountID e \<and>
     ce_ObjectKeyHash x = ce_ObjectKeyHash e"

definition upsertEntry :: "cache_entry \<Rightarrow> cache_state \<Rightarrow> cache_state" where
  "upsertEntry e w =
     (if list_ex (sameObject e) (cw_entries w)
      then w\<lparr>cw_entries := update_where (sameObject e) (\<lambda>x. e\<lparr>ce_ID := ce_ID x\<rparr>) (cw_entries w)\<rparr>
      else w\<lparr>cw_entries := cw_entries w @ [e\<lparr>ce_ID := cw_nextEntry w\<rparr>],
             cw_nextEntry := cw_nextEntry w + 1\<rparr>)"

text \<open>The no-op write counts the rows that still have the captured generation.\<close>

definition commitPromotion :: "cache_entry \<Rightarrow> unit cache_tx" where
  "commitPromotion e = transaction
     (tx_bind (tx_select (\<lambda>w. affected (currentFile (ce_FileID e) (ce_FileCacheVersion e)) (cw_files w))) (\<lambda>n.
      if n \<noteq> 1 then tx_fail (App ErrCaptureStale) else tx_update (upsertEntry e)))"

definition promotedEntry ::
  "cache_env \<Rightarrow> promotion_payload \<Rightarrow> nat \<Rightarrow> string \<Rightarrow> object_info \<Rightarrow> time \<Rightarrow> cache_entry" where
  "promotedEntry env p targetMountID key info now =
     \<lparr>ce_ID = 0, ce_Deleted = False, ce_StoragePoolID = pp_PoolID p, ce_OriginMountID = pp_OriginMountID p,
      ce_ObjectKeyHash = objectKeyHash env (pp_ObjectKey p), ce_ObjectKey = pp_ObjectKey p,
      ce_CacheMountID = targetMountID, ce_CacheObjectKey = key, ce_FileID = pp_FileID p,
      ce_FileCacheVersion = pp_FileCacheVersion p, ce_Size = oi_Size info, ce_SourceETag = oi_ETag info,
      ce_ContentType = oi_ContentType info, ce_CacheControl = oi_CacheControl info,
      ce_SourceModTime = Some (oi_ModTime info), ce_LastAccessedAt = now\<rparr>"

text \<open>The common beginning of both ways to promote: the membership, its mount, room on it.\<close>

definition admitTarget :: "cache_env \<Rightarrow> promotion_payload \<Rightarrow> nat \<Rightarrow> string cache_tx" where
  "admitTarget env p targetMountID =
     tx_bind (tx_catch (tx_first (\<lambda>w. find (isMember (pp_PoolID p) targetMountID) (cw_members w)))
       (\<lambda>_. tx_fail (App ErrAdmissionSkipped))) (\<lambda>m.
     tx_bind (tx_first (mountById targetMountID)) (\<lambda>mount.
     tx_bind (tx_reject (\<not> mt_Mounted mount \<or> mt_LastError mount \<noteq> [] \<or>
       mt_UUID mount = pp_OriginMountID p) ErrAdmissionSkipped) (\<lambda>_.
     tx_bind (tx_peek (resolveStore (mt_UUID mount))) (\<lambda>registered.
     tx_bind (tx_reject (\<not> registered) ErrNotConfigured) (\<lambda>_.
     tx_bind (pruneMembership env m (mt_UUID mount) (oi_Size (pp_Info p))) (\<lambda>_.
     tx_bind (tx_reject (mb_CacheMaxBytes m \<le> 0 \<or> mb_CacheMaxBytes m < oi_Size (pp_Info p))
       ErrAdmissionSkipped) (\<lambda>_.
     tx_return (mt_UUID mount))))))))"

text \<open>The common end: store the copy, check its size, commit the entry; undo on any error.\<close>

definition storeCopy ::
  "cache_env \<Rightarrow> promotion_payload \<Rightarrow> nat \<Rightarrow> string \<Rightarrow> string \<Rightarrow> string \<Rightarrow> object_info \<Rightarrow> time \<Rightarrow> unit cache_tx" where
  "storeCopy env p targetMountID storeID key body info now =
     tx_bind (tx_onError (storePut (cv_provider env storeID) storeID key body (copyOptions info))
       (storeDelete storeID key)) (\<lambda>written.
     if oi_Size written \<noteq> oi_Size info
     then tx_onError (tx_fail (App (ErrSizeMismatch (oi_Size written) (oi_Size info)))) (storeDelete storeID key)
     else tx_bind (tx_onError (commitPromotion (promotedEntry env p targetMountID key info now))
         (storeDelete storeID key)) (\<lambda>_.
       clearMembershipError (pp_PoolID p) targetMountID))"

definition promoteToTarget :: "cache_env \<Rightarrow> promotion_payload \<Rightarrow> time \<Rightarrow> nat \<Rightarrow> unit cache_tx" where
  "promoteToTarget env p now targetMountID =
     tx_bind (admitTarget env p targetMountID) (\<lambda>storeID.
     case pp_Temporary p of
       Some (Some body) \<Rightarrow>
         tx_bind (cacheKey env (pp_PoolID p) (pp_OriginMountID p) (pp_ObjectKey p)) (\<lambda>key.
         storeCopy env p targetMountID storeID key body (pp_Info p) now)
     | _ \<Rightarrow> tx_fail (App ErrNotFound))"

definition originStore :: "cache_env \<Rightarrow> string \<Rightarrow> string" where
  "originStore env i = (if i = [] then cv_default env else i)"

definition promoteOriginToTarget ::
  "cache_env \<Rightarrow> promotion_payload \<Rightarrow> string \<Rightarrow> time \<Rightarrow> nat \<Rightarrow> unit cache_tx" where
  "promoteOriginToTarget env p objectKey now targetMountID =
     tx_bind (admitTarget env p targetMountID) (\<lambda>storeID.
     let origin = originStore env (pp_OriginMountID p)
     in tx_bind (tx_peek (resolveStore origin)) (\<lambda>registered.
        tx_bind (tx_reject (\<not> registered) ErrNotConfigured) (\<lambda>_.
        tx_bind (storeOpen origin objectKey) (\<lambda>(info, body).
        tx_bind (tx_reject (oi_Size info \<noteq> oi_Size (pp_Info p)) ErrAdmissionSkipped) (\<lambda>_.
        tx_bind (tx_reject (oi_ETag (pp_Info p) \<noteq> [] \<and> oi_ETag info \<noteq> [] \<and>
          oi_ETag (pp_Info p) \<noteq> oi_ETag info) ErrAdmissionSkipped) (\<lambda>_.
        tx_bind (cacheKey env (pp_PoolID p) (pp_OriginMountID p) (pp_ObjectKey p)) (\<lambda>key.
        storeCopy env p targetMountID storeID key body info now)))))))"

datatype fill_outcome = Filled | FillSkipped | FillFailed "media_error txerr list"

fun fillTargets ::
  "cache_env \<Rightarrow> nat \<Rightarrow> (nat \<Rightarrow> unit cache_tx) \<Rightarrow> nat list \<Rightarrow> media_error txerr list \<Rightarrow> fill_outcome cache_tx" where
  "fillTargets env poolID fill [] errs = tx_return (if errs = [] then FillSkipped else FillFailed errs)"
| "fillTargets env poolID fill (t # ts) errs =
     tx_bind (tx_try tx_check) (\<lambda>ctx.
     case ctx of
       Inl e \<Rightarrow> tx_return (FillFailed (errs @ [e]))
     | Inr _ \<Rightarrow>
         tx_bind (tx_try (fill t)) (\<lambda>r.
         case r of
           Inr _ \<Rightarrow> tx_return Filled
         | Inl e \<Rightarrow>
             if e = App ErrCaptureStale then tx_return FillSkipped
             else if e = App ErrAdmissionSkipped then fillTargets env poolID fill ts errs
             else tx_bind (recordMembershipError poolID t (cv_errorText env e)) (\<lambda>_.
               fillTargets env poolID fill ts (errs @ [e]))))"

text \<open>Only the captured generation may be promoted.\<close>

definition whenCurrent :: "promotion_payload \<Rightarrow> fill_outcome cache_tx \<Rightarrow> fill_outcome cache_tx" where
  "whenCurrent p m =
     tx_bind (tx_try (fileCacheVersion (pp_FileID p))) (\<lambda>version.
     case version of
       Inl e \<Rightarrow> tx_return (if e = RecordNotFound then FillSkipped else FillFailed [e])
     | Inr v \<Rightarrow> if v \<noteq> pp_FileCacheVersion p then tx_return FillSkipped else m)"

definition Promote :: "cache_env \<Rightarrow> promotion_payload \<Rightarrow> time \<Rightarrow> fill_outcome cache_tx" where
  "Promote env p now =
     (let targetIDs = uniqueTargetMountIDs p
      in if pp_Temporary p = None \<or> pp_ObjectKey p = [] \<or> targetIDs = [] \<or> oi_Size (pp_Info p) \<le> 0
         then tx_return (FillFailed [App ErrPayloadIncomplete])
         else whenCurrent p (fillTargets env (pp_PoolID p) (promoteToTarget env p now) targetIDs []))"

definition captureFromOrigin :: "cache_env \<Rightarrow> promotion_payload \<Rightarrow> time \<Rightarrow> fill_outcome cache_tx" where
  "captureFromOrigin env p now =
     (if pp_OriginMountID p = [] \<or> pp_ObjectKey p = [] \<or> pp_FileID p = 0 \<or> oi_Size (pp_Info p) \<le> 0
      then tx_return (FillFailed [App ErrPayloadIncomplete])
      else case ParseKey (pp_ObjectKey p) of
        Inl e \<Rightarrow> tx_return (FillFailed [App (ErrKey e)])
      | Inr key \<Rightarrow>
          tx_bind (openCached env (pp_PoolID p) \<lparr>rq_PoolID = pp_PoolID p,
            rq_OriginMountID = pp_OriginMountID p, rq_FileID = pp_FileID p, rq_Key = key\<rparr> now) (\<lambda>hit.
          if hit \<noteq> None then tx_return Filled
          else whenCurrent p (fillTargets env (pp_PoolID p) (promoteOriginToTarget env p key now)
            (uniqueTargetMountIDs p) [])))"

definition Fill :: "cache_env \<Rightarrow> promotion_payload \<Rightarrow> time \<Rightarrow> fill_outcome cache_tx" where
  "Fill env p now = (if pp_Temporary p \<noteq> None then Promote env p now else captureFromOrigin env p now)"

section \<open>Invalidation and pruning\<close>

definition bumpVersion :: "nat \<Rightarrow> cache_state \<Rightarrow> cache_state" where
  "bumpVersion fileID w = w\<lparr>cw_files := update_where (\<lambda>f. fl_ID f = fileID)
     (\<lambda>f. f\<lparr>fl_CacheVersion := Some (fileVersion f + 1)\<rparr>) (cw_files w)\<rparr>"

definition fileEntries :: "nat \<Rightarrow> cache_state \<Rightarrow> cache_entry list" where
  "fileEntries fileID w = filter (\<lambda>e. \<not> ce_Deleted e \<and> ce_FileID e = fileID) (cw_entries w)"

definition deleteFileEntries :: "nat \<Rightarrow> cache_state \<Rightarrow> cache_state" where
  "deleteFileEntries fileID w = w\<lparr>cw_entries :=
     update_where (\<lambda>e. \<not> ce_Deleted e \<and> ce_FileID e = fileID) (\<lambda>e. e\<lparr>ce_Deleted := True\<rparr>) (cw_entries w)\<rparr>"

definition InvalidateFile :: "nat \<Rightarrow> unit cache_tx" where
  "InvalidateFile fileID =
     (if fileID = 0 then tx_return ()
      else tx_bind (transaction
          (tx_bind (tx_update (bumpVersion fileID)) (\<lambda>_.
           tx_bind (tx_select (fileEntries fileID)) (\<lambda>entries.
           tx_bind (tx_update (deleteFileEntries fileID)) (\<lambda>_.
           tx_return entries))))) (\<lambda>entries. tx_foreach deleteEntryObject entries))"

definition orphanEntry :: "cache_state \<Rightarrow> cache_entry \<Rightarrow> bool" where
  "orphanEntry w e \<longleftrightarrow> \<not> ce_Deleted e \<and>
     (\<not> list_ex (isMember (ce_StoragePoolID e) (ce_CacheMountID e)) (cw_members w) \<or>
      \<not> list_ex (currentFile (ce_FileID e) (ce_FileCacheVersion e)) (cw_files w))"

definition pruneOrphans :: "unit cache_tx" where
  "pruneOrphans =
     tx_bind (tx_select (\<lambda>w. filter (orphanEntry w) (cw_entries w))) (\<lambda>entries.
     tx_foreach (\<lambda>e. dropEntry e True) entries)"

text \<open>The joined error of several steps is the list of the single ones.\<close>

definition pruneMember :: "cache_env \<Rightarrow> member_row \<Rightarrow> media_error txerr list cache_tx" where
  "pruneMember env m =
     tx_bind (tx_try (tx_first (mountById (mb_MountID m)))) (\<lambda>found.
     case found of
       Inl e \<Rightarrow> tx_return [e]
     | Inr mount \<Rightarrow>
         tx_bind (tx_peek (resolveStore (mt_UUID mount))) (\<lambda>registered.
         if \<not> registered then tx_return []
         else tx_bind (tx_try (pruneMembership env m (mt_UUID mount) 0)) (\<lambda>r.
           case r of
             Inl e \<Rightarrow> tx_bind (recordMembershipError (mb_PoolID m) (mb_MountID m) (cv_errorText env e))
               (\<lambda>_. tx_return [e])
           | Inr _ \<Rightarrow> tx_bind (clearMembershipError (mb_PoolID m) (mb_MountID m)) (\<lambda>_. tx_return []))))"

fun pruneMembers :: "cache_env \<Rightarrow> member_row list \<Rightarrow> media_error txerr list \<Rightarrow> media_error txerr list cache_tx" where
  "pruneMembers env [] errs = tx_return errs"
| "pruneMembers env (m # ms) errs =
     tx_bind (pruneMember env m) (\<lambda>es. pruneMembers env ms (errs @ es))"

definition Prune :: "cache_env \<Rightarrow> media_error txerr list cache_tx" where
  "Prune env =
     tx_bind (tx_select (\<lambda>w. filter (\<lambda>m. mb_Role m = RoleCache) (cw_members w))) (\<lambda>members.
     tx_bind (pruneMembers env members []) (\<lambda>errs.
     tx_bind (tx_try pruneOrphans) (\<lambda>r.
     tx_return (case r of Inl e \<Rightarrow> errs @ [e] | Inr _ \<Rightarrow> errs))))"

section \<open>Access times\<close>

definition cacheTouchBatchSize :: nat where "cacheTouchBatchSize = 500"

definition latestTouch :: "(nat \<times> time) list \<Rightarrow> time" where
  "latestTouch pending = fold (\<lambda>p latest. max (snd p) latest) pending (snd (hd pending))"

definition touchEntries :: "(nat \<times> time) list \<Rightarrow> cache_state \<Rightarrow> cache_state" where
  "touchEntries pending w = w\<lparr>cw_entries := update_where
     (\<lambda>e. \<not> ce_Deleted e \<and> ce_ID e \<in> fst ` set pending \<and> ce_LastAccessedAt e < latestTouch pending - cacheTouchAge)
     (\<lambda>e. e\<lparr>ce_LastAccessedAt := latestTouch pending\<rparr>) (cw_entries w)\<rparr>"

definition keepLater :: "nat \<times> time \<Rightarrow> (nat \<times> time) list \<Rightarrow> (nat \<times> time) list" where
  "keepLater p touches =
     (case map_of touches (fst p) of
        None \<Rightarrow> AList.update (fst p) (snd p) touches
      | Some previous \<Rightarrow> if previous < snd p then AList.update (fst p) (snd p) touches else touches)"

fun flushTouches :: "nat \<Rightarrow> ((nat \<times> time) list \<Rightarrow> (nat \<times> time) list) \<Rightarrow> unit cache_tx" where
  "flushTouches 0 order = tx_return ()"
| "flushTouches (Suc n) order =
     tx_bind tx_check (\<lambda>_.
     tx_bind (tx_peek (\<lambda>w. take cacheTouchBatchSize (order (cs_touches w)))) (\<lambda>pending.
     tx_bind (tx_poke (\<lambda>w. w\<lparr>cs_touches := filter (\<lambda>p. fst p \<notin> fst ` set pending) (cs_touches w)\<rparr>)) (\<lambda>_.
     if pending = [] then tx_return ()
     else tx_bind (tx_catch (tx_update (touchEntries pending)) (\<lambda>e.
         tx_bind (tx_poke (\<lambda>w. w\<lparr>cs_touches := fold keepLater pending (cs_touches w)\<rparr>)) (\<lambda>_. tx_fail e))) (\<lambda>_.
       flushTouches n order))))"

end
