(* ===== verification/McOpen.thy ===== *)
theory McOpen
  imports McFill
begin

text \<open>
  Opening an object through the cache: a hit, a plain read of the origin, or a read that is
  captured for the cache. One fill per object is claimed at a time, and the space the captures
  take in the workspace is reserved.
\<close>

section \<open>Opening\<close>

text \<open>What \<^verbatim>\<open>OpenWithResult\<close> leaves to be done when the response is closed.\<close>

record capture_plan =
  cp_claimKey :: string
  cp_payload :: promotion_payload
  cp_held :: int

definition resolvePoolID :: "string \<Rightarrow> cache_state \<Rightarrow> nat" where
  "resolvePoolID originMountID w =
     (case sort (List.map_filter (\<lambda>m.
          if mb_Role m = RolePrimary \<and>
             list_ex (\<lambda>mt. mt_ID mt = mb_MountID m \<and> mt_UUID mt = originMountID) (cw_mounts w) \<and>
             list_ex (\<lambda>c. mb_PoolID c = mb_PoolID m \<and> mb_Role c = RoleCache) (cw_members w)
          then Some (mb_PoolID m) else None) (cw_members w)) of
        [] \<Rightarrow> 0 | p # _ \<Rightarrow> p)"

definition cacheConfigured :: "nat \<Rightarrow> bool cache_tx" where
  "cacheConfigured poolID =
     (if poolID = 0 then tx_return False
      else tx_bind (tx_try (tx_select (\<lambda>w. list_ex (\<lambda>m. mb_PoolID m = poolID \<and> mb_Role m = RoleCache) (cw_members w))))
        (\<lambda>r. tx_return (r = Inr True)))"

text \<open>The background fill of a claimed object; \<open>enqueued\<close> says whether the durable job that takes
  over could be enqueued.\<close>

definition promoteAsync ::
  "cache_env \<Rightarrow> string \<Rightarrow> promotion_payload \<Rightarrow> bool \<Rightarrow> time \<Rightarrow> unit cache_tx" where
  "promoteAsync env claimKey p enqueued now =
     tx_bind (tx_peek cs_closed) (\<lambda>closed.
     if closed then tx_poke (releaseFill claimKey)
     else tx_bind (Fill env p now) (\<lambda>outcome.
       tx_bind (case outcome of
           FillFailed errs \<Rightarrow> if enqueued then tx_return ()
             else recordMembershipError (pp_PoolID p) (pp_TargetMountID p) (cv_errorText env (hd errs))
         | _ \<Rightarrow> tx_return ()) (\<lambda>_.
       tx_poke (releaseFill claimKey))))"

definition fillWithoutResponseCapture ::
  "cache_env \<Rightarrow> string \<Rightarrow> promotion_payload \<Rightarrow> bool \<Rightarrow> time \<Rightarrow> unit cache_tx" where
  "fillWithoutResponseCapture env claimKey p enqueued now =
     (if enqueued then tx_poke (releaseFill claimKey)
      else promoteAsync env claimKey (p\<lparr>pp_Temporary := None\<rparr>) enqueued now)"

datatype 'a fill_start = StartCapture 'a | StartDirect string promotion_payload | StartNothing

definition openOrigin ::
  "cache_env \<Rightarrow> open_request \<Rightarrow> nat \<Rightarrow> bool \<Rightarrow>
   ((object_info \<times> string) \<times> cache_status \<times> capture_plan fill_start) cache_tx" where
  "openOrigin env rq poolID temporary =
     tx_bind (tx_peek (resolveStore (originStore env (rq_OriginMountID rq)))) (\<lambda>registered.
     tx_bind (tx_reject (\<not> registered) ErrNotConfigured) (\<lambda>_.
     tx_bind (storeOpen (originStore env (rq_OriginMountID rq)) (rq_Key rq)) (\<lambda>(info, body).
     if poolID = 0 \<or> rq_FileID rq = 0 \<or> oi_Size info \<le> 0
     then tx_return ((info, body), StatusBypass, StartNothing)
     else
       let miss = tx_bind (cacheConfigured poolID) (\<lambda>configured.
         tx_return ((info, body), if configured then StatusMiss else StatusBypass, StartNothing))
       in tx_bind (tx_try (fileCacheVersion (rq_FileID rq))) (\<lambda>version.
       case version of
         Inl _ \<Rightarrow> miss
       | Inr v \<Rightarrow>
           tx_bind (tx_try (targets poolID (rq_OriginMountID rq) (oi_Size info))) (\<lambda>found.
           case found of
             Inl _ \<Rightarrow> miss
           | Inr ts \<Rightarrow>
               if ts = [] then miss
               else
                 let claimKey = cacheIdentity env poolID (rq_OriginMountID rq) (rq_Key rq);
                     p = \<lparr>pp_PoolID = poolID, pp_OriginMountID = rq_OriginMountID rq, pp_FileID = rq_FileID rq,
                       pp_FileCacheVersion = v, pp_ObjectKey = rq_Key rq, pp_TargetMountID = tg_MountID (hd ts),
                       pp_TargetMountIDs = map tg_MountID ts, pp_Temporary = None, pp_Info = info\<rparr>
                 in tx_bind (tx_peek (fst \<circ> claimFill claimKey)) (\<lambda>claimed.
                    if \<not> claimed then tx_return ((info, body), StatusFilling, StartNothing)
                    else tx_bind (tx_poke (snd \<circ> claimFill claimKey)) (\<lambda>_.
                    tx_bind (tx_peek (fst \<circ> reserveWorkspace env (oi_Size info))) (\<lambda>held.
                    case held of
                      None \<Rightarrow> tx_return ((info, body), StatusFilling, StartDirect claimKey p)
                    | Some n \<Rightarrow>
                        if \<not> temporary then tx_return ((info, body), StatusFilling, StartDirect claimKey p)
                        else tx_bind (tx_poke (snd \<circ> reserveWorkspace env (oi_Size info))) (\<lambda>_.
                          tx_return ((info, body), StatusFilling,
                            StartCapture \<lparr>cp_claimKey = claimKey, cp_payload = p, cp_held = n\<rparr>))))))))))"

definition OpenWithResult ::
  "cache_env \<Rightarrow> open_request \<Rightarrow> bool \<Rightarrow> time \<Rightarrow>
   ((object_info \<times> string) \<times> open_result \<times> capture_plan fill_start) cache_tx" where
  "OpenWithResult env rq temporary now =
     (if rq_OriginMountID rq = [] \<or> rq_Key rq = [] then tx_fail (App ErrNotConfigured)
      else tx_bind (if rq_PoolID rq \<noteq> 0 then tx_return (rq_PoolID rq)
          else tx_bind (tx_try (tx_select (resolvePoolID (rq_OriginMountID rq)))) (\<lambda>r.
            tx_return (case r of Inl _ \<Rightarrow> 0 | Inr p \<Rightarrow> p))) (\<lambda>poolID.
        tx_bind (if poolID = 0 then tx_return None else openCached env poolID rq now) (\<lambda>hit.
        case hit of
          Some (object, uuid) \<Rightarrow> tx_return (object, \<lparr>or_CacheHit = True, or_CacheStatus = StatusHit,
            or_PoolID = poolID, or_MountUUID = uuid\<rparr>, StartNothing)
        | None \<Rightarrow> tx_bind (openOrigin env rq poolID temporary) (\<lambda>(object, status, start).
            tx_return (object, \<lparr>or_CacheHit = False, or_CacheStatus = status,
              or_PoolID = poolID, or_MountUUID = rq_OriginMountID rq\<rparr>, start)))))"

text \<open>The callback when the captured response is closed: \<open>content\<close> is what the temporary file
  holds when the capture is complete.\<close>

definition captureDone ::
  "cache_env \<Rightarrow> capture_plan \<Rightarrow> bool \<Rightarrow> string option \<Rightarrow> bool \<Rightarrow> time \<Rightarrow> unit cache_tx" where
  "captureDone env plan started content enqueued now =
     tx_bind (tx_poke (releaseWorkspace (cp_held plan))) (\<lambda>_.
     if \<not> started then tx_poke (releaseFill (cp_claimKey plan))
     else case content of
       None \<Rightarrow> fillWithoutResponseCapture env (cp_claimKey plan) (cp_payload plan) enqueued now
     | Some body \<Rightarrow> promoteAsync env (cp_claimKey plan)
         ((cp_payload plan)\<lparr>pp_Temporary := Some (Some body)\<rparr>) enqueued now)"

definition closeService :: "cache_state \<Rightarrow> cache_state" where
  "closeService w = w\<lparr>cs_closed := True\<rparr>"

definition closeTouches :: "nat \<Rightarrow> ((nat \<times> time) list \<Rightarrow> (nat \<times> time) list) \<Rightarrow> unit cache_tx" where
  "closeTouches n order =
     tx_bind (tx_poke (\<lambda>w. w\<lparr>cs_touchClosing := True\<rparr>)) (\<lambda>_. flushTouches n order)"

end
