(* ===== verification/McInv.thy ===== *)
theory McInv
  imports McOpen
begin

text \<open>What an operation of the cache keeps, whichever of its statements fail: a property kept by the few
  primitive changes an operation is made of is kept by the operation. Then what every operation does to the tables,
  a relation of single statements and committed transactions, whose closure covers every interleaving of concurrent
  opens, fills, invalidations and pruning with whatever statements fail; and the invariant it keeps.\<close>

section \<open>Control flow\<close>

lemma always_cases [tx_always]:
  "(\<And>a. x = Inl a \<Longrightarrow> always I (f a)) \<Longrightarrow> (\<And>b. x = Inr b \<Longrightarrow> always I (g b)) \<Longrightarrow>
   always I (case x of Inl a \<Rightarrow> f a | Inr b \<Rightarrow> g b)"
  "(o' = None \<Longrightarrow> always I n) \<Longrightarrow> (\<And>b. o' = Some b \<Longrightarrow> always I (h b)) \<Longrightarrow>
   always I (case o' of None \<Rightarrow> n | Some b \<Rightarrow> h b)"
  "(\<And>c d. p = (c, d) \<Longrightarrow> always I (k c d)) \<Longrightarrow> always I (case p of (c, d) \<Rightarrow> k c d)"
  "always I (j t) \<Longrightarrow> always I (let y = t in j y)"
  by (auto split: sum.splits option.splits prod.splits simp: Let_def)

text \<open>What follows a guard may assume that it passed.\<close>

lemma always_guarded:
  assumes "\<not> c \<Longrightarrow> always I m"
  shows "always I (tx_bind (tx_reject c e) (\<lambda>_. m))"
  using assms by (cases c) (simp_all add: always_def tx_bind_def tx_reject_def tx_fail_def tx_return_def)

lemma always_storeOpen [tx_always]: "always I (storeOpen i key)"
  unfolding storeOpen_def by (rule always_stmt) (auto split: option.splits)

lemma always_cacheKey [tx_always]: "always I (cacheKey env p i k)"
  unfolding cacheKey_def by (intro tx_always)

section \<open>Operations that publish nothing\<close>

definition memberError :: "nat \<Rightarrow> nat \<Rightarrow> string \<Rightarrow> cache_state \<Rightarrow> cache_state" where
  "memberError poolID mountID err w = w\<lparr>cw_members :=
     update_where (\<lambda>m. mb_PoolID m = poolID \<and> mb_MountID m = mountID) (\<lambda>m. m\<lparr>mb_CacheLastError := err\<rparr>) (cw_members w)\<rparr>"

locale kept_by_cache =
  fixes I :: "cache_state \<Rightarrow> bool"
  assumes kept_store: "I w \<Longrightarrow> I (updateStore i f w)"
    and kept_entry: "I w \<Longrightarrow> I (deleteEntry j w)"
    and kept_error: "I w \<Longrightarrow> I (memberError p t err w)"
    and kept_touch: "I w \<Longrightarrow> I (queueTouch e now w)"
begin

lemma always_storeDelete [tx_always]: "always I (storeDelete i key)"
  unfolding storeDelete_def by (rule always_update) (rule kept_store)

lemma always_storePut [tx_always]: "always I (storePut pv i key body opts)"
  unfolding storePut_def by (rule always_stmt) (auto split: option.splits if_splits intro: kept_store)

lemma always_deleteEntry [tx_always]: "always I (tx_update (deleteEntry i))"
  by (rule always_update) (rule kept_entry)

lemma always_membership_errors [tx_always]:
  "always I (recordMembershipError p m err)" "always I (clearMembershipError p m)"
  unfolding recordMembershipError_def clearMembershipError_def updateMembers_def
  by (intro tx_always; fold memberError_def; rule kept_error; assumption)+

lemma always_queueTouch [tx_always]: "always I (tx_poke (queueTouch e now))"
  by (rule always_poke) (rule kept_touch)

lemma always_deleteEntryObject [tx_always]: "always I (deleteEntryObject e)"
  unfolding deleteEntryObject_def by (intro tx_always)

lemma always_dropEntry [tx_always]: "always I (dropEntry e d)"
  unfolding dropEntry_def by (intro tx_always)

lemma always_openCached [tx_always]: "always I (openCached env p rq now)"
  unfolding openCached_def openEntry_def by (intro tx_always)

lemma always_evict [tx_always]: "always I (evict i need es freed)"
  by (induction es arbitrary: freed) (auto intro!: tx_always)

lemma always_pruneMembership [tx_always]: "always I (pruneMembership env m i n)"
  unfolding pruneMembership_def by (intro tx_always)

lemma always_admitTarget [tx_always]: "always I (admitTarget env p t)"
  unfolding admitTarget_def by (intro tx_always)

lemma always_pruneOrphans [tx_always]: "always I pruneOrphans"
  unfolding pruneOrphans_def by (intro tx_always always_foreach)

lemma always_pruneMembers [tx_always]: "always I (pruneMembers env ms errs)"
  by (induction ms arbitrary: errs) (auto simp: pruneMember_def intro!: tx_always)

lemma always_Prune [tx_always]: "always I (Prune env)"
  unfolding Prune_def by (intro tx_always)

end

section \<open>Operations that publish\<close>

lemma promotedEntry_simps [simp]:
  "ce_Deleted (promotedEntry env p t key info now) = False"
  "ce_Size (promotedEntry env p t key info now) = oi_Size info"
  by (simp_all add: promotedEntry_def)

locale kept_by_fill = kept_by_cache +
  assumes kept_commit: "\<not> ce_Deleted e \<Longrightarrow> 0 < ce_Size e \<Longrightarrow> always I (commitPromotion e)"
begin

lemma always_storeCopy:
  "0 < oi_Size info \<Longrightarrow> always I (storeCopy env p t i key body info now)"
  unfolding storeCopy_def by (intro tx_always kept_commit) simp_all

lemma always_promoteToTarget: "0 < oi_Size (pp_Info p) \<Longrightarrow> always I (promoteToTarget env p now t)"
  unfolding promoteToTarget_def by (intro tx_always always_storeCopy)

lemma always_promoteOriginToTarget:
  assumes "0 < oi_Size (pp_Info p)"
  shows "always I (promoteOriginToTarget env p key now t)"
  unfolding promoteOriginToTarget_def Let_def
  by (intro always_bind always_guarded tx_always always_storeCopy) (use assms in simp_all)

lemma always_fillTargets:
  assumes "\<And>t. always I (f t)"
  shows "always I (fillTargets env p f ts errs)"
  by (induction ts arbitrary: errs) (auto intro!: tx_always assms)

lemma always_Fill [tx_always]: "always I (Fill env p now)"
  unfolding Fill_def Promote_def captureFromOrigin_def whenCurrent_def fileCacheVersion_def Let_def
  by (auto intro!: tx_always always_fillTargets always_promoteToTarget always_promoteOriginToTarget)

end

section \<open>Steps\<close>

definition invalidation :: "nat \<Rightarrow> cache_entry list cache_tx" where
  "invalidation fileID = transaction
     (tx_bind (tx_update (bumpVersion fileID)) (\<lambda>_.
      tx_bind (tx_select (fileEntries fileID)) (\<lambda>entries.
      tx_bind (tx_update (deleteFileEntries fileID)) (\<lambda>_. tx_return entries))))"

lemma InvalidateFile_alt:
  "InvalidateFile fileID = (if fileID = 0 then tx_return ()
     else tx_bind (invalidation fileID) (tx_foreach deleteEntryObject))"
  by (simp add: InvalidateFile_def invalidation_def)

inductive cache_step :: "cache_state \<Rightarrow> cache_state \<Rightarrow> bool" where
  Quiet: "cw_entries w' = cw_entries w \<Longrightarrow> cw_files w' = cw_files w \<Longrightarrow>
    cw_nextEntry w' = cw_nextEntry w \<Longrightarrow> cache_step w w'"
| Drop: "cache_step w (deleteEntry i w)"
| Touch: "cache_step w (touchEntries pending w)"
| Commit: "commitPromotion e (w, fs) = (r, w', fs') \<Longrightarrow> \<not> ce_Deleted e \<Longrightarrow> 0 < ce_Size e \<Longrightarrow> cache_step w w'"
| Invalidate: "invalidation fileID (w, fs) = (r, w', fs') \<Longrightarrow> cache_step w w'"
| Migrate: "cache_step w (bumpVersion fileID w)"
| FileDeleted: "cache_step w (w\<lparr>cw_files := update_where (\<lambda>f. fl_ID f = i) (\<lambda>f. f\<lparr>fl_Deleted := True\<rparr>) (cw_files w)\<rparr>)"
| FileCreated: "fl_ID f \<notin> fl_ID ` set (cw_files w) \<Longrightarrow> fl_ID f \<notin> ce_FileID ` set (cw_entries w) \<Longrightarrow>
    cache_step w (w\<lparr>cw_files := cw_files w @ [f]\<rparr>)"

section \<open>Every operation is a sequence of steps\<close>

lemma always_steps:
  "(\<And>w fs r w' fs'. m (w, fs) = (r, w', fs') \<Longrightarrow> cache_step\<^sup>*\<^sup>* w w') \<Longrightarrow> always (cache_step\<^sup>*\<^sup>* w0) m"
  unfolding always_def by (metis prod.collapse rtranclp_trans)

lemma always_quiet_update:
  "(\<And>w. cw_entries (f w) = cw_entries w \<and> cw_files (f w) = cw_files w \<and> cw_nextEntry (f w) = cw_nextEntry w) \<Longrightarrow>
   always (cache_step\<^sup>*\<^sup>* w0) (tx_update f)"
  by (rule always_update) (meson Quiet rtranclp.rtrancl_into_rtrancl)

lemma always_quiet_poke:
  "(\<And>w. cw_entries (f w) = cw_entries w \<and> cw_files (f w) = cw_files w \<and> cw_nextEntry (f w) = cw_nextEntry w) \<Longrightarrow>
   always (cache_step\<^sup>*\<^sup>* w0) (tx_poke f)"
  by (rule always_poke) (meson Quiet rtranclp.rtrancl_into_rtrancl)

lemma updateStore_quiet [simp]:
  "cw_entries (updateStore i f w) = cw_entries w" "cw_files (updateStore i f w) = cw_files w"
  "cw_nextEntry (updateStore i f w) = cw_nextEntry w"
  "cs_active (updateStore i f w) = cs_active w" "cs_reserved (updateStore i f w) = cs_reserved w"
  "cs_closed (updateStore i f w) = cs_closed w"
  "cw_mounts (updateStore i f w) = cw_mounts w" "cw_members (updateStore i f w) = cw_members w"
  by (simp_all add: updateStore_def)

lemma steps_extend: "cache_step\<^sup>*\<^sup>* w0 w \<Longrightarrow> cache_step w w' \<Longrightarrow> cache_step\<^sup>*\<^sup>* w0 w'"
  by (rule rtranclp.rtrancl_into_rtrancl)

lemma queueTouch_simps [simp]:
  "cw_entries (queueTouch e now w) = cw_entries w" "cw_files (queueTouch e now w) = cw_files w"
  "cw_nextEntry (queueTouch e now w) = cw_nextEntry w" "cs_active (queueTouch e now w) = cs_active w"
  "cs_reserved (queueTouch e now w) = cs_reserved w" "cs_closed (queueTouch e now w) = cs_closed w"
  "cw_members (queueTouch e now w) = cw_members w" "cw_mounts (queueTouch e now w) = cw_mounts w"
  by (simp_all add: queueTouch_def split: option.split)

interpretation steps: kept_by_fill "cache_step\<^sup>*\<^sup>* w0" for w0
proof
  show "always (cache_step\<^sup>*\<^sup>* w0) (commitPromotion e)" if "\<not> ce_Deleted e" "0 < ce_Size e" for e
    by (rule always_steps, rule r_into_rtranclp, rule Commit) (use that in simp_all)
  show "cache_step\<^sup>*\<^sup>* w0 (deleteEntry j w)" if "cache_step\<^sup>*\<^sup>* w0 w" for w j
    using that Drop by (rule steps_extend)
qed (erule steps_extend, rule Quiet; simp add: memberError_def)+

lemma claim_quiet [simp]:
  "cw_entries (releaseFill k w) = cw_entries w" "cw_files (releaseFill k w) = cw_files w"
  "cw_nextEntry (releaseFill k w) = cw_nextEntry w"
  "cw_entries (snd (claimFill k w)) = cw_entries w" "cw_files (snd (claimFill k w)) = cw_files w"
  "cw_nextEntry (snd (claimFill k w)) = cw_nextEntry w"
  "cw_entries (snd (reserveWorkspace env n w)) = cw_entries w" "cw_files (snd (reserveWorkspace env n w)) = cw_files w"
  "cw_nextEntry (snd (reserveWorkspace env n w)) = cw_nextEntry w"
  "cw_entries (releaseWorkspace n w) = cw_entries w" "cw_files (releaseWorkspace n w) = cw_files w"
  "cw_nextEntry (releaseWorkspace n w) = cw_nextEntry w"
  by (simp_all add: releaseFill_def claimFill_def reserveWorkspace_def releaseWorkspace_def split: option.split)

lemma steps_pokes [tx_always]:
  "always (cache_step\<^sup>*\<^sup>* w0) (tx_poke (releaseFill k))"
  "always (cache_step\<^sup>*\<^sup>* w0) (tx_poke (snd \<circ> claimFill k))"
  "always (cache_step\<^sup>*\<^sup>* w0) (tx_poke (snd \<circ> reserveWorkspace env n))"
  "always (cache_step\<^sup>*\<^sup>* w0) (tx_poke (releaseWorkspace n))"
  by (rule always_quiet_poke; simp)+

lemma steps_invalidation [tx_always]: "always (cache_step\<^sup>*\<^sup>* w0) (invalidation f)"
  by (rule always_steps) (blast intro: Invalidate)

lemma steps_InvalidateFile [tx_always]: "always (cache_step\<^sup>*\<^sup>* w0) (InvalidateFile f)"
  unfolding InvalidateFile_alt by (intro tx_always always_foreach)

lemma steps_touchEntries [tx_always]: "always (cache_step\<^sup>*\<^sup>* w0) (tx_update (touchEntries p))"
  by (rule always_update) (blast intro: steps_extend Touch)

lemma steps_flushTouches [tx_always]: "always (cache_step\<^sup>*\<^sup>* w0) (flushTouches n order)"
  by (induction n) (auto intro!: tx_always always_quiet_poke)

lemma steps_openOrigin [tx_always]: "always (cache_step\<^sup>*\<^sup>* w0) (openOrigin env rq p tmp)"
  unfolding openOrigin_def Let_def cacheConfigured_def fileCacheVersion_def targets_def
  by (intro tx_always)

lemma steps_OpenWithResult: "always (cache_step\<^sup>*\<^sup>* w0) (OpenWithResult env rq tmp now)"
  unfolding OpenWithResult_def by (intro tx_always)

lemma steps_promoteAsync [tx_always]: "always (cache_step\<^sup>*\<^sup>* w0) (promoteAsync env k p enq now)"
  unfolding promoteAsync_def by (intro tx_always) (auto split: fill_outcome.split intro!: tx_always)

lemma steps_captureDone: "always (cache_step\<^sup>*\<^sup>* w0) (captureDone env plan st content enq now)"
  unfolding captureDone_def fillWithoutResponseCapture_def by (intro tx_always)

end
