(* ===== verification/McInvalid.thy ===== *)
theory McInvalid
  imports McInv
begin

text \<open>
  The invariant of the cache tables and the generations of cached files: an entry never outlives
  the invalidation of its file.
\<close>

section \<open>The invariant\<close>

definition generationOf :: "nat \<Rightarrow> cache_state \<Rightarrow> nat option" where
  "generationOf fileID w = map_option fileVersion (find (\<lambda>f. fl_ID f = fileID) (cw_files w))"

definition entryOK :: "cache_state \<Rightarrow> cache_entry \<Rightarrow> bool" where
  "entryOK w e \<longleftrightarrow> ce_ID e < cw_nextEntry w \<and> 0 < ce_Size e \<and>
     (\<forall>v. generationOf (ce_FileID e) w = Some v \<longrightarrow> ce_FileCacheVersion e \<le> v)"

definition identityOf :: "cache_entry \<Rightarrow> nat \<times> string \<times> string" where
  "identityOf e = (ce_StoragePoolID e, ce_OriginMountID e, ce_ObjectKeyHash e)"

definition cacheInv :: "cache_state \<Rightarrow> bool" where
  "cacheInv w \<longleftrightarrow> distinct (map fl_ID (cw_files w)) \<and> distinct (map ce_ID (cw_entries w)) \<and>
     distinct (map identityOf (cw_entries w)) \<and> (\<forall>e \<in> set (cw_entries w). entryOK w e)"

definition cacheInit :: "cache_state \<Rightarrow> bool" where
  "cacheInit w \<longleftrightarrow> cw_entries w = [] \<and> distinct (map fl_ID (cw_files w))"

lemma sameObject_identity: "sameObject e x \<longleftrightarrow> identityOf x = identityOf e"
  by (auto simp: sameObject_def identityOf_def)

lemma generation_bump:
  "generationOf i (bumpVersion f w) =
     (if i = f then map_option Suc (generationOf i w) else generationOf i w)"
proof -
  have "find (\<lambda>r. fl_ID r = i) (update_where (\<lambda>r. fl_ID r = f) (\<lambda>r. r\<lparr>fl_CacheVersion := Some (fileVersion r + 1)\<rparr>) fs) =
    map_option (\<lambda>r. if fl_ID r = f then r\<lparr>fl_CacheVersion := Some (fileVersion r + 1)\<rparr> else r)
      (find (\<lambda>r. fl_ID r = i) fs)" for fs
    by (rule find_update_where) simp
  then show ?thesis
    by (auto simp: generationOf_def bumpVersion_def option.map_comp o_def fileVersion_def find_Some_iff
        intro!: option.map_cong0 split: option.splits)
qed

section \<open>What the transactions do\<close>

lemma commitPromotion_cases:
  assumes "commitPromotion e (w, fs) = (r, w', fs')"
  obtains (none) err where "r = Inl err" "w' = w"
    | (committed) "r = Inr ()" "affected (currentFile (ce_FileID e) (ce_FileCacheVersion e)) (cw_files w) = 1"
        "w' = upsertEntry e w"
proof (rule transaction_cases [OF assms [unfolded commitPromotion_def]])
  let ?n = "\<lambda>w. affected (currentFile (ce_FileID e) (ce_FileCacheVersion e)) (cw_files w)"
  show "wp (tx_bind (tx_select ?n) (\<lambda>n. if n \<noteq> 1 then tx_fail (App ErrCaptureStale) else tx_update (upsertEntry e)))
    (\<lambda>_ w'. ?n w = 1 \<and> w' = upsertEntry e w) w"
    by (intro tx_wp) simp_all
qed (use none committed in auto)

lemma invalidation_cases:
  assumes "invalidation f (w, fs) = (r, w', fs')"
  obtains (none) err where "r = Inl err" "w' = w"
    | (committed) "r = Inr (fileEntries f (bumpVersion f w))" "w' = deleteFileEntries f (bumpVersion f w)"
proof (rule transaction_cases [OF assms [unfolded invalidation_def]])
  show "wp (tx_bind (tx_update (bumpVersion f)) (\<lambda>_. tx_bind (tx_select (fileEntries f)) (\<lambda>entries.
      tx_bind (tx_update (deleteFileEntries f)) (\<lambda>_. tx_return entries))))
    (\<lambda>es w'. es = fileEntries f (bumpVersion f w) \<and> w' = deleteFileEntries f (bumpVersion f w)) w"
    by (intro tx_wp) simp
qed (use none committed in auto)

lemma current_generation:
  assumes "affected (currentFile i v) (cw_files w) = 1" "distinct (map fl_ID (cw_files w))"
  shows "generationOf i w = Some v"
proof -
  from assms(1) obtain f where f: "f \<in> set (cw_files w)" "currentFile i v f"
    using affected_0_iff [of "currentFile i v" "cw_files w"] by auto
  with find_distinct_key [OF assms(2) f(1)] show ?thesis
    by (auto simp: generationOf_def currentFile_def)
qed

section \<open>The invariant is kept\<close>

lemma generationOf_cong [simp]:
  "generationOf i (w\<lparr>cw_entries := es\<rparr>) = generationOf i w"
  "generationOf i (w\<lparr>cw_entries := es, cw_nextEntry := n\<rparr>) = generationOf i w"
  by (simp_all add: generationOf_def)

text \<open>An update of entries that touches neither key, generation nor size.\<close>

lemma cacheInv_update_entries:
  assumes "cacheInv w"
    and "\<And>e. ce_ID (g e) = ce_ID e" "\<And>e. identityOf (g e) = identityOf e" "\<And>e. ce_Size (g e) = ce_Size e"
      "\<And>e. ce_FileID (g e) = ce_FileID e" "\<And>e. ce_FileCacheVersion (g e) = ce_FileCacheVersion e"
  shows "cacheInv (w\<lparr>cw_entries := update_where p g (cw_entries w)\<rparr>)"
  using assms by (auto simp: cacheInv_def map_update_where entryOK_def elim!: update_whereE)

lemma cacheInv_deleteEntry: "cacheInv w \<Longrightarrow> cacheInv (deleteEntry i w)"
  unfolding deleteEntry_def by (rule cacheInv_update_entries) (simp_all add: identityOf_def)

lemma cacheInv_touchEntries: "cacheInv w \<Longrightarrow> cacheInv (touchEntries p w)"
  unfolding touchEntries_def by (rule cacheInv_update_entries) (simp_all add: identityOf_def)

lemma cacheInv_deleteFileEntries: "cacheInv w \<Longrightarrow> cacheInv (deleteFileEntries f w)"
  unfolding deleteFileEntries_def by (rule cacheInv_update_entries) (simp_all add: identityOf_def)

lemma bumpVersion_simps [simp]:
  "cw_entries (bumpVersion f w) = cw_entries w" "cw_nextEntry (bumpVersion f w) = cw_nextEntry w"
  "map fl_ID (cw_files (bumpVersion f w)) = map fl_ID (cw_files w)"
  by (simp_all add: bumpVersion_def map_update_where)

lemma cacheInv_bumpVersion: "cacheInv w \<Longrightarrow> cacheInv (bumpVersion f w)"
  by (fastforce simp: cacheInv_def entryOK_def generation_bump split: if_splits)

lemma cacheInv_upsertEntry:
  assumes inv: "cacheInv w" and e: "0 < ce_Size e"
    and cur: "affected (currentFile (ce_FileID e) (ce_FileCacheVersion e)) (cw_files w) = 1"
  shows "cacheInv (upsertEntry e w)"
proof (cases "list_ex (sameObject e) (cw_entries w)")
  case True
  have "generationOf (ce_FileID e) w = Some (ce_FileCacheVersion e)"
    using current_generation [OF cur] inv by (simp add: cacheInv_def)
  then have "entryOK w x \<Longrightarrow> entryOK (upsertEntry e w) (e\<lparr>ce_ID := ce_ID x\<rparr>)" for x
    using e True by (simp add: entryOK_def upsertEntry_def)
  moreover have "entryOK w x \<Longrightarrow> entryOK (upsertEntry e w) x" for x
    using True by (simp add: entryOK_def upsertEntry_def)
  moreover have "map identityOf (update_where (sameObject e) (\<lambda>x. e\<lparr>ce_ID := ce_ID x\<rparr>) (cw_entries w)) =
      map identityOf (cw_entries w)"
    by (rule map_update_where) (simp add: sameObject_identity, simp add: identityOf_def)
  ultimately show ?thesis
    using inv True by (auto simp: cacheInv_def upsertEntry_def map_update_where elim!: update_whereE)
next
  case False
  then have new: "identityOf e \<notin> identityOf ` set (cw_entries w)"
    by (auto simp: list_ex_iff sameObject_identity)
  have "generationOf (ce_FileID e) w = Some (ce_FileCacheVersion e)"
    using current_generation [OF cur] inv by (simp add: cacheInv_def)
  with new show ?thesis
    using inv False e by (fastforce simp: cacheInv_def upsertEntry_def entryOK_def identityOf_def)
qed

lemma cacheInv_step:
  assumes "cacheInv w" and "cache_step w w'"
  shows "cacheInv w'"
  using assms(2)
proof cases
  case Quiet
  then show ?thesis using assms(1) by (simp add: cacheInv_def entryOK_def generationOf_def)
next
  case (Commit e fs r fs')
  then show ?thesis
    using assms(1) by (auto elim!: commitPromotion_cases intro: cacheInv_upsertEntry)
next
  case (Invalidate f fs r fs')
  then show ?thesis
    using assms(1) by (auto elim!: invalidation_cases intro: cacheInv_deleteFileEntries cacheInv_bumpVersion)
next
  case (FileDeleted i)
  have "map_option fileVersion (find (\<lambda>r. fl_ID r = j)
      (update_where (\<lambda>f. fl_ID f = i) (\<lambda>f. f\<lparr>fl_Deleted := True\<rparr>) fs)) =
      map_option fileVersion (find (\<lambda>r. fl_ID r = j) fs)" for j fs
    by (induction fs) (auto simp: fileVersion_def)
  then have "generationOf j w' = generationOf j w" for j
    by (simp add: FileDeleted generationOf_def)
  then show ?thesis
    using assms(1) by (auto simp: cacheInv_def FileDeleted entryOK_def map_update_where)
next
  case (FileCreated f)
  have "generationOf (ce_FileID e) w' = generationOf (ce_FileID e) w" if "e \<in> set (cw_entries w)" for e
  proof -
    from that FileCreated have "fl_ID f \<noteq> ce_FileID e" by auto
    moreover have "fl_ID f \<noteq> i \<Longrightarrow> find (\<lambda>r. fl_ID r = i) (fs @ [f]) = find (\<lambda>r. fl_ID r = i) fs" for i fs
      by (induction fs) auto
    ultimately show ?thesis by (simp add: FileCreated generationOf_def)
  qed
  then show ?thesis
    using assms(1) FileCreated by (auto simp: cacheInv_def entryOK_def)
qed (use assms(1) in \<open>auto intro: cacheInv_deleteEntry cacheInv_touchEntries cacheInv_bumpVersion\<close>)

interpretation cache: invariant_system cacheInit cache_step cacheInv
proof
  show "cacheInv w" if "cacheInit w" for w
    using that by (simp add: cacheInit_def cacheInv_def)
qed (rule cacheInv_step)

end
