(* ===== verification/McServe.thy ===== *)
theory McServe
  imports McInvalid
begin

text \<open>
  What the cache serves: only recorded copies of the current generation of a file, and nothing
  captured before an invalidation.
\<close>

section \<open>Hits\<close>

definition hitOf :: "open_request \<Rightarrow> cache_state \<Rightarrow> cache_entry \<Rightarrow> (object_info \<times> string) \<times> string \<Rightarrow> bool" where
  "hitOf rq w e hit \<longleftrightarrow> (\<exists>mount key ob. mountById (ce_CacheMountID e) w = Some mount \<and> mt_Mounted mount \<and>
     mt_LastError mount = [] \<and> resolveStore (mt_UUID mount) w \<and> ParseKey (ce_CacheObjectKey e) = Inr key \<and>
     map_of (sw_stores w (mt_UUID mount)) key = Some ob \<and> ob_Size ob = ce_Size e \<and>
     hit = ((hitInfo rq e (infoOf key ob), ob_Body ob), mt_UUID mount))"

lemma ends_top: "(\<And>r d. Q r d) \<Longrightarrow> ends m Q d"
  by (simp add: ends_def)

lemma infoOf_simps [simp]: "oi_Size (infoOf key ob) = ob_Size ob" "oi_Key (infoOf key ob) = key"
  by (simp_all add: infoOf_def)

lemma ends_storeOpen [tx_ends]:
  "(\<And>t. Q (Inl (DbFault t)) w) \<Longrightarrow> (map_of (sw_stores w i) key = None \<Longrightarrow> Q (Inl (App ErrNotFound)) w) \<Longrightarrow>
   (\<And>ob. map_of (sw_stores w i) key = Some ob \<Longrightarrow> Q (Inr (infoOf key ob, ob_Body ob)) w) \<Longrightarrow>
   ends (storeOpen i key) Q w"
  unfolding storeOpen_def by (rule ends_stmt) (auto split: option.splits)

definition hits :: "('h \<Rightarrow> bool) \<Rightarrow> 'e txerr + 'h option \<Rightarrow> bool" where
  "hits P r = (case r of Inr (Some h) \<Rightarrow> P h | _ \<Rightarrow> True)"

lemma hits_simps [simp]: "hits P (Inl e)" "hits P (Inr None)" "hits P (Inr (Some h)) = P h"
  by (simp_all add: hits_def)

lemma ends_none: "ends (tx_return None) (\<lambda>r _. hits P r) w"
  by (rule ends_return) simp

lemma ends_miss: "ends (tx_bind m (\<lambda>_. tx_return None)) (\<lambda>r _. hits P r) w"
  by (rule ends_bind, rule ends_top) (simp add: ends_none)

lemma openEntry_hit: "ends (openEntry rq now e) (\<lambda>r _. hits (hitOf rq w e) r) w"
proof (cases "\<exists>mount. mountById (ce_CacheMountID e) w = Some mount \<and> mt_Mounted mount \<and>
    mt_LastError mount = [] \<and> resolveStore (mt_UUID mount) w")
  case False
  then show ?thesis
    unfolding openEntry_def
    by (intro ends_bind ends_try ends_first) (auto intro!: ends_none ends_bind [OF ends_peek])
next
  case True
  then obtain mount where mount: "mountById (ce_CacheMountID e) w = Some mount" "mt_Mounted mount"
    "mt_LastError mount = []" "resolveStore (mt_UUID mount) w" by blast
  have served: "hitOf rq w e ((hitInfo rq e (infoOf key ob), ob_Body ob), mt_UUID mount)"
    if "ParseKey (ce_CacheObjectKey e) = Inr key" "map_of (sw_stores w (mt_UUID mount)) key = Some ob"
      "ob_Size ob = ce_Size e" for key ob
    using mount that by (auto simp: hitOf_def)
  have read: "ends (tx_bind (tx_try (storeOpen (mt_UUID mount) key)) (\<lambda>opened.
      case opened of
        Inl err \<Rightarrow> if err = App ErrNotFound then tx_bind (dropEntry e False) (\<lambda>_. tx_return None) else tx_return None
      | Inr (info, body) \<Rightarrow>
          if oi_Size info \<noteq> ce_Size e then tx_bind (dropEntry e True) (\<lambda>_. tx_return None)
          else tx_bind (tx_poke (queueTouch e now)) (\<lambda>_. tx_return (Some ((hitInfo rq e info, body), mt_UUID mount)))))
    (\<lambda>r _. hits (hitOf rq w e) r) w"
    if key: "ParseKey (ce_CacheObjectKey e) = Inr key" for key
    by (intro ends_bind ends_try ends_storeOpen)
      (auto intro!: ends_none ends_miss ends_return ends_bind [OF ends_poke] served [OF key])
  show ?thesis
    unfolding openEntry_def
    by (intro ends_bind ends_try ends_first)
      (auto simp: mount intro!: ends_none ends_bind [OF ends_peek] ends_miss read split: sum.split)
qed

lemma openCached_hit:
  assumes "openCached env pool rq now (w, fs) = (Inr (Some hit), w', fs')"
  shows "\<exists>e. find (servable env pool rq w) (cw_entries w) = Some e \<and> hitOf rq w e hit"
proof -
  have "ends (openCached env pool rq now) (\<lambda>r _. hits
      (\<lambda>hit. \<exists>e. find (servable env pool rq w) (cw_entries w) = Some e \<and> hitOf rq w e hit) r) w"
    unfolding openCached_def
  proof (intro ends_bind ends_try ends_first, goal_cases)
    case (3 e)
    then show ?case
      by (auto simp del: split_paired_Ex intro!: ends_mono [OF openEntry_hit] simp: hits_def split: sum.splits option.splits)
  qed (auto intro!: ends_none)
  from endsD [OF this assms] show ?thesis by simp
qed

section \<open>Invalidation\<close>

definition sealed :: "nat \<Rightarrow> nat \<Rightarrow> cache_state \<Rightarrow> bool" where
  "sealed f v w \<longleftrightarrow> (\<exists>g. generationOf f w = Some g \<and> v < g) \<and>
     (\<forall>e \<in> set (cw_entries w). \<not> ce_Deleted e \<and> ce_FileID e = f \<longrightarrow> v < ce_FileCacheVersion e)"

lemma sealed_update_entries:
  assumes "sealed f v w"
    and "\<And>e. ce_FileID (g e) = ce_FileID e" "\<And>e. ce_FileCacheVersion (g e) = ce_FileCacheVersion e"
    and "\<And>e. ce_Deleted e \<Longrightarrow> p e \<Longrightarrow> ce_Deleted (g e)"
  shows "sealed f v (w\<lparr>cw_entries := update_where p g (cw_entries w)\<rparr>)"
proof -
  have "v < ce_FileCacheVersion x"
    if "x \<in> set (update_where p g (cw_entries w))" "\<not> ce_Deleted x" "ce_FileID x = f" for x
    using that(1)
  proof (cases rule: update_whereE)
    case (new e)
    with that assms have "\<not> ce_Deleted e" "ce_FileID e = f" by auto
    with new assms show ?thesis by (simp add: sealed_def)
  qed (use that assms(1) in \<open>simp add: sealed_def\<close>)
  with assms(1) show ?thesis by (simp add: sealed_def)
qed

lemma sealed_deleteEntry: "sealed f v w \<Longrightarrow> sealed f v (deleteEntry i w)"
  unfolding deleteEntry_def by (rule sealed_update_entries) auto

lemma sealed_touchEntries: "sealed f v w \<Longrightarrow> sealed f v (touchEntries p w)"
  unfolding touchEntries_def by (rule sealed_update_entries) auto

lemma sealed_bumpVersion: "sealed f v w \<Longrightarrow> sealed f v (bumpVersion i w)"
  by (auto simp: sealed_def generation_bump)

lemma sealed_deleteFileEntries: "sealed f v w \<Longrightarrow> sealed f v (deleteFileEntries i w)"
  unfolding deleteFileEntries_def by (rule sealed_update_entries) auto

lemma sealed_upsertEntry:
  assumes "sealed f v w" and cur: "generationOf (ce_FileID e) w = Some (ce_FileCacheVersion e)"
  shows "sealed f v (upsertEntry e w)"
  using assms by (auto simp: sealed_def upsertEntry_def elim!: update_whereE)

lemma sealed_step:
  assumes "cacheInv w" "sealed f v w" "cache_step w w'"
  shows "sealed f v w'"
  using assms(3)
proof cases
  case Quiet
  then show ?thesis using assms(2) by (simp add: sealed_def generationOf_def)
next
  case (Commit e fs r fs')
  then show ?thesis
    using assms(1,2) current_generation [of "ce_FileID e" "ce_FileCacheVersion e" w]
    by (auto elim!: commitPromotion_cases intro: sealed_upsertEntry simp: cacheInv_def)
next
  case (Invalidate i fs r fs')
  then show ?thesis
    using assms(2) by (auto elim!: invalidation_cases intro: sealed_deleteFileEntries sealed_bumpVersion)
next
  case (FileDeleted i)
  have "map_option fileVersion (find (\<lambda>r. fl_ID r = j)
      (update_where (\<lambda>f. fl_ID f = i) (\<lambda>f. f\<lparr>fl_Deleted := True\<rparr>) fs)) =
      map_option fileVersion (find (\<lambda>r. fl_ID r = j) fs)" for j fs
    by (induction fs) (auto simp: fileVersion_def)
  then show ?thesis using assms(2) by (simp add: FileDeleted sealed_def generationOf_def)
next
  case (FileCreated x)
  have "find p fs = Some y \<Longrightarrow> find p (fs @ [x]) = Some y" for p fs and y :: file_row
    by (induction fs) auto
  then show ?thesis using assms(2) by (auto simp: FileCreated sealed_def generationOf_def)
qed (use assms(2) in \<open>auto intro: sealed_bumpVersion sealed_deleteEntry sealed_touchEntries\<close>)

lemma sealed_steps:
  assumes "cache_step\<^sup>*\<^sup>* w w'" "cacheInv w" "sealed f v w"
  shows "sealed f v w'"
proof -
  from assms have "sealed f v w' \<and> cacheInv w'"
    by (induction rule: rtranclp_induct) (auto intro: sealed_step cacheInv_step)
  then show ?thesis ..
qed

lemma invalidation_seals:
  assumes "InvalidateFile f (w, fs) = (Inr (), w', fs')" "f \<noteq> 0" "cacheInv w" "generationOf f w = Some v"
  shows "sealed f v w' \<and> cacheInv w'"
proof -
  let ?w1 = "deleteFileEntries f (bumpVersion f w)"
  obtain r w1 fs1 where inv: "invalidation f (w, fs) = (r, w1, fs1)"
    by (cases "invalidation f (w, fs)") auto
  with assms(1,2) have r: "\<exists>es. r = Inr es"
    by (cases r) (simp_all add: InvalidateFile_alt tx_bind_def)
  with inv have w1: "w1 = ?w1" by (auto elim: invalidation_cases)
  have "cache_step w w1" by (rule Invalidate [OF inv])
  then have cinv: "cacheInv w1" using assms(3) by (rule cacheInv_step [rotated])
  have "sealed f v ?w1"
    unfolding sealed_def
  proof (intro conjI ballI impI)
    show "\<exists>g. generationOf f ?w1 = Some g \<and> v < g"
      unfolding deleteFileEntries_def generationOf_cong generation_bump assms(4) by simp
  next
    fix e assume e: "e \<in> set (cw_entries ?w1)" "\<not> ce_Deleted e \<and> ce_FileID e = f"
    from e(1) have "e \<in> set (update_where (\<lambda>e. \<not> ce_Deleted e \<and> ce_FileID e = f)
        (\<lambda>e. e\<lparr>ce_Deleted := True\<rparr>) (cw_entries (bumpVersion f w)))"
      by (simp add: deleteFileEntries_def)
    then show "v < ce_FileCacheVersion e"
      by (rule update_whereE) (use e(2) in simp_all)
  qed
  moreover from r obtain es where es: "r = Inr es" by blast
  with assms(1,2) inv have run: "tx_foreach deleteEntryObject es (w1, fs1) = (Inr (), w', fs')"
    by (simp add: InvalidateFile_alt tx_bind_def)
  have "always (cache_step\<^sup>*\<^sup>* w1) (tx_foreach deleteEntryObject es)"
    by (intro always_foreach tx_always)
  then have "cache_step\<^sup>*\<^sup>* w1 w'"
    unfolding always_def using run by (metis fst_conv snd_conv rtranclp.rtrancl_refl)
  ultimately show ?thesis
    using cinv w1 by (auto intro: sealed_steps cache.steps_inv)
qed

end
