(* ===== verification/McRoom.thy ===== *)
theory McRoom
  imports McServe
begin

text \<open>
  Making room on a cache mount: eviction removes the least recently used entries, as many as are
  needed, and leaves the mount below its watermark with the incoming object counted in.
\<close>

section \<open>Deleting entries\<close>

definition deleteMany :: "nat set \<Rightarrow> cache_entry list \<Rightarrow> cache_entry list" where
  "deleteMany ids = update_where (\<lambda>e. ce_ID e \<in> ids \<and> \<not> ce_Deleted e) (\<lambda>e. e\<lparr>ce_Deleted := True\<rparr>)"

lemma deleteMany_deleteMany: "deleteMany A (deleteMany B es) = deleteMany (A \<union> B) es"
  by (induction es) (auto simp: deleteMany_def)

lemma deleteMany_empty [simp]: "deleteMany {} es = es"
  by (induction es) (auto simp: deleteMany_def)

lemma deleteEntry_deleteMany: "deleteEntry i w = w\<lparr>cw_entries := deleteMany {i} (cw_entries w)\<rparr>"
  by (simp add: deleteEntry_def deleteMany_def)

definition livesOn :: "nat \<Rightarrow> nat \<Rightarrow> cache_entry \<Rightarrow> bool" where
  "livesOn poolID mountID e \<longleftrightarrow> \<not> ce_Deleted e \<and> ce_StoragePoolID e = poolID \<and> ce_CacheMountID e = mountID"

lemma entriesOn_livesOn: "entriesOn p m w = filter (livesOn p m) (cw_entries w)"
  by (simp add: entriesOn_def livesOn_def [abs_def])

lemma filter_deleteMany:
  "filter (livesOn p m) (deleteMany ids es) = filter (\<lambda>e. ce_ID e \<notin> ids) (filter (livesOn p m) es)"
  by (induction es) (auto simp: deleteMany_def livesOn_def)

section \<open>Eviction\<close>

text \<open>Everything but the entries and the stores is left alone.\<close>

definition evictedTo :: "cache_state \<Rightarrow> nat set \<Rightarrow> cache_state \<Rightarrow> bool" where
  "evictedTo w ids w' \<longleftrightarrow> w' = w\<lparr>cw_entries := deleteMany ids (cw_entries w), sw_stores := sw_stores w'\<rparr>"

lemma evictedTo_refl: "evictedTo w {} w"
  by (simp add: evictedTo_def)

lemma evictedTo_store: "evictedTo w ids w' \<Longrightarrow> evictedTo w ids (updateStore i f w')"
  unfolding evictedTo_def by (cases w, cases w') (simp add: updateStore_def)

lemma evictedTo_entry: "evictedTo w ids w' \<Longrightarrow> evictedTo w (insert i ids) (deleteEntry i w')"
  unfolding evictedTo_def deleteEntry_deleteMany
  by (cases w, cases w') (simp add: deleteMany_deleteMany)

lemma ends_storeDelete [tx_ends]:
  "(\<And>t. Q (Inl (DbFault t)) w) \<Longrightarrow> Q (Inr ()) (updateStore i (AList.delete key) w) \<Longrightarrow> ends (storeDelete i key) Q w"
  unfolding storeDelete_def by (rule ends_update)

definition evictPost ::
  "int \<Rightarrow> cache_state \<Rightarrow> nat set \<Rightarrow> cache_entry list \<Rightarrow> int \<Rightarrow> media_error txerr + int \<Rightarrow> cache_state \<Rightarrow> bool" where
  "evictPost need w ids es freed r w'' \<longleftrightarrow> (\<forall>total. r = Inr total \<longrightarrow>
     (\<exists>n. evictedTo w (ids \<union> ce_ID ` set (take n es)) w'' \<and> total = freed + sum_list (map ce_Size (take n es)) \<and>
       (need \<le> total \<or> n \<ge> length es)))"

lemma evictPost_error [simp]: "evictPost need w ids es freed (Inl e) w''"
  by (simp add: evictPost_def)

lemma evictPost_done:
  "evictedTo w (insert (ce_ID e) ids) w'' \<Longrightarrow> need \<le> freed + ce_Size e \<Longrightarrow>
   evictPost need w ids (e # es) freed (Inr (freed + ce_Size e)) w''"
  unfolding evictPost_def by (auto intro!: exI [of _ 1])

lemma evictPost_more:
  assumes "evictPost need w (insert (ce_ID e) ids) es (freed + ce_Size e) r w''"
  shows "evictPost need w ids (e # es) freed r w''"
  unfolding evictPost_def
proof (intro allI impI)
  fix total assume "r = Inr total"
  with assms obtain n where "evictedTo w (insert (ce_ID e) ids \<union> ce_ID ` set (take n es)) w''"
    "total = freed + ce_Size e + sum_list (map ce_Size (take n es))" "need \<le> total \<or> length es \<le> n"
    unfolding evictPost_def by blast
  then show "\<exists>n. evictedTo w (ids \<union> ce_ID ` set (take n (e # es))) w'' \<and>
      total = freed + sum_list (map ce_Size (take n (e # es))) \<and> (need \<le> total \<or> n \<ge> length (e # es))"
    by (intro exI [of _ "Suc n"]) (simp add: insert_commute add.assoc)
qed

lemma evict_result:
  assumes "evictedTo w ids w'"
  shows "ends (evict i need es freed) (evictPost need w ids es freed) w'"
  using assms
proof (induction es arbitrary: ids w' freed)
  case Nil
  then show ?case by (auto intro!: ends_return simp: evictPost_def)
next
  case (Cons e es)
  have rest: "ends (tx_bind (tx_update (deleteEntry (ce_ID e))) (\<lambda>_.
      if need \<le> freed + ce_Size e then tx_return (freed + ce_Size e) else evict i need es (freed + ce_Size e)))
      (evictPost need w ids (e # es) freed) v"
    if "evictedTo w ids v" for v
    using evictedTo_entry [OF that, of "ce_ID e"]
    by (intro ends_bind ends_update)
      (auto intro!: ends_return intro: evictPost_done evictPost_more ends_mono [OF Cons.IH])
  show ?case
    unfolding evict.simps
  proof (intro ends_bind, goal_cases)
    case 1
    show ?case
    proof (cases "ParseKey (ce_CacheObjectKey e)")
      case (Inl err)
      then show ?thesis using rest [OF Cons.prems] by (auto intro!: ends_return)
    next
      case (Inr key)
      then show ?thesis
        using rest [OF Cons.prems] rest [OF evictedTo_store [OF Cons.prems]]
        by (auto intro!: ends_catch ends_storeDelete ends_return ends_fail)
    qed
  qed
qed

section \<open>The room made\<close>

lemma sum_list_split:
  "sum_list (map f xs) = sum_list (map f (filter P xs)) + (sum_list (map f (filter (\<lambda>x. \<not> P x) xs)) :: int)"
  by (induction xs) auto

lemma usedBytes_evicted:
  assumes dist: "distinct (map ce_ID (cw_entries w))" and des: "distinct es"
    and sub': "set es \<subseteq> set (entriesOn p m w)"
    and ev: "evictedTo w (ce_ID ` set es) w'"
  shows "entriesOn p m w' = filter (\<lambda>e. e \<notin> set es) (entriesOn p m w)"
    and "usedBytes p m w' = usedBytes p m w - sum_list (map ce_Size es)"
proof -
  let ?L = "entriesOn p m w"
  have dL: "distinct (map ce_ID ?L)" using dist by (simp add: entriesOn_livesOn distinct_map_filter)
  have inj: "e \<in> set ?L \<Longrightarrow> ce_ID e \<in> ce_ID ` set es \<longleftrightarrow> e \<in> set es" for e
    using dL sub' by (auto simp: distinct_map inj_on_def)
  have "cw_entries w' = deleteMany (ce_ID ` set es) (cw_entries w)"
    using ev unfolding evictedTo_def by (cases w') simp
  then have "entriesOn p m w' = filter (\<lambda>e. ce_ID e \<notin> ce_ID ` set es) ?L"
    by (simp add: entriesOn_livesOn filter_deleteMany)
  also have "\<dots> = filter (\<lambda>e. e \<notin> set es) ?L"
    by (rule filter_cong) (use inj in auto)
  finally show on: "entriesOn p m w' = filter (\<lambda>e. e \<notin> set es) ?L" .
  from dL have "distinct ?L" by (simp add: distinct_map)
  have "mset (filter (\<lambda>e. e \<in> set es) ?L) = mset es"
    by (rule set_eq_iff_mset_eq_distinct [THEN iffD1]) (use \<open>distinct ?L\<close> des sub' in auto)
  then have "sum_list (map ce_Size (filter (\<lambda>e. e \<in> set es) ?L)) = sum_list (map ce_Size es)"
    by (metis mset_map sum_mset_sum_list)
  with sum_list_split [of ce_Size ?L "\<lambda>e. e \<in> set es"] show "usedBytes p m w' = usedBytes p m w - sum_list (map ce_Size es)"
    by (simp add: usedBytes_def on)
qed

definition lruKey :: "cache_entry \<Rightarrow> time \<times> nat" where
  "lruKey e = (ce_LastAccessedAt e, ce_ID e)"

text \<open>What a successful \<^verbatim>\<open>pruneMembership\<close> has done: evicted some of the entries of the mount,
  each older than all that stay, and freed the bytes it needed if it had to make room.\<close>

definition madeRoom :: "cache_env \<Rightarrow> member_row \<Rightarrow> string \<Rightarrow> int \<Rightarrow> cache_state \<Rightarrow> cache_state \<Rightarrow> bool" where
  "madeRoom env m storeID incoming w w' \<longleftrightarrow>
     (let pool = mb_PoolID m; mount = mb_MountID m; used = usedBytes pool mount w; used' = usedBytes pool mount w'
      in (\<exists>ids. evictedTo w ids w') \<and>
         set (entriesOn pool mount w') \<subseteq> set (entriesOn pool mount w) \<and>
         (\<forall>e \<in> set (entriesOn pool mount w) - set (entriesOn pool mount w').
            \<forall>e' \<in> set (entriesOn pool mount w'). lruKey e \<le> lruKey e') \<and>
         (0 < incoming \<longrightarrow>
            max 0 (bytesToFree (mb_CacheMaxBytes m) used incoming (cv_capacity env storeID)) \<le> used - used'))"

lemma madeRoom_refl:
  "bytesToFree (mb_CacheMaxBytes m) (usedBytes (mb_PoolID m) (mb_MountID m) w) incoming (cv_capacity env storeID) \<le> 0 \<Longrightarrow>
   madeRoom env m storeID incoming w w"
  using evictedTo_refl [of w] by (auto simp: madeRoom_def Let_def)

lemma madeRoom_evicted:
  fixes m w
  defines "L \<equiv> sort_key lruKey (entriesOn (mb_PoolID m) (mb_MountID m) w)"
  assumes dist: "distinct (map ce_ID (cw_entries w))"
    and ev: "evictedTo w (ce_ID ` set (take n L)) w'"
    and need: "0 < incoming \<Longrightarrow> max 0 (bytesToFree (mb_CacheMaxBytes m) (usedBytes (mb_PoolID m) (mb_MountID m) w) incoming
      (cv_capacity env storeID)) \<le> sum_list (map ce_Size (take n L))"
  shows "madeRoom env m storeID incoming w w'"
proof -
  let ?on = "entriesOn (mb_PoolID m) (mb_MountID m)"
  have "distinct (?on w)"
    using dist by (simp add: entriesOn_livesOn distinct_map)
  then have dL: "distinct L" by (simp add: L_def)
  have sub: "set (take n L) \<subseteq> set (?on w)"
    by (metis L_def set_sort set_take_subset)
  note facts = usedBytes_evicted [OF dist distinct_take [OF dL] sub ev]
  have "lruKey e \<le> lruKey e'" if "e \<in> set (take n L)" "e' \<in> set (?on w)" "e' \<notin> set (take n L)" for e e'
  proof -
    have "e' \<in> set L" using that(2) by (simp add: L_def)
    then have "e' \<in> set (drop n L)"
      using that(3) by (metis Un_iff append_take_drop_id set_append)
    moreover have "sorted (map lruKey (take n L @ drop n L))" by (simp add: L_def)
    then have "\<forall>x \<in> set (map lruKey (take n L)). \<forall>y \<in> set (map lruKey (drop n L)). x \<le> y"
      unfolding map_append sorted_append by blast
    ultimately show ?thesis using that(1) by auto
  qed
  with facts ev need sub show ?thesis
    unfolding madeRoom_def Let_def by auto
qed

lemma pruneMembership_room:
  assumes dist: "distinct (map ce_ID (cw_entries w))"
  shows "ends (pruneMembership env m storeID incoming) (\<lambda>r w'. r = Inr () \<longrightarrow> madeRoom env m storeID incoming w w') w"
proof -
  let ?need = "bytesToFree (mb_CacheMaxBytes m) (usedBytes (mb_PoolID m) (mb_MountID m) w) incoming (cv_capacity env storeID)"
  let ?L = "sort_key lruKey (entriesOn (mb_PoolID m) (mb_MountID m) w)"
  have evicted: "ends (tx_bind (evict storeID ?need ?L 0) (\<lambda>freed. tx_reject (freed < ?need \<and> 0 < incoming) ErrAdmissionSkipped))
    (\<lambda>r w'. r = Inr () \<longrightarrow> madeRoom env m storeID incoming w w') w" if pos: "0 < ?need"
  proof (intro ends_bind ends_mono [OF evict_result [OF evictedTo_refl]] conjI allI impI)
    fix r v total assume *: "evictPost ?need w {} ?L 0 r v" "r = Inr total"
    then obtain n where "evictedTo w (ce_ID ` set (take n ?L)) v" "total = sum_list (map ce_Size (take n ?L))"
      by (auto simp: evictPost_def)
    with pos show "ends (tx_reject (total < ?need \<and> 0 < incoming) ErrAdmissionSkipped)
        (\<lambda>r w'. r = Inr () \<longrightarrow> madeRoom env m storeID incoming w w') v"
      by (intro ends_reject) (auto intro!: madeRoom_evicted [OF dist])
  qed simp_all
  show ?thesis
    unfolding pruneMembership_def Let_def
  proof (rule ends_if, rule ends_fail, simp, rule ends_bind, rule ends_select, goal_cases)
    case 2
    have "ends (if ?need \<le> 0 then tx_return ()
        else tx_bind (tx_select (\<lambda>w. sort_key (\<lambda>e. (ce_LastAccessedAt e, ce_ID e))
          (entriesOn (mb_PoolID m) (mb_MountID m) w))) (\<lambda>entries. tx_bind (evict storeID ?need entries 0)
          (\<lambda>freed. tx_reject (freed < ?need \<and> 0 < incoming) ErrAdmissionSkipped)))
        (\<lambda>r w'. r = Inr () \<longrightarrow> madeRoom env m storeID incoming w w') w"
      by (rule ends_if, rule ends_return, simp add: madeRoom_refl, rule ends_bind, rule ends_select)
        (use evicted in \<open>simp_all add: lruKey_def [abs_def]\<close>)
    then show ?case by simp
  qed simp
qed

lemma madeRoom_watermark:
  assumes "cacheInv w"
    and "pruneMembership env m storeID incoming (w, fs) = (Inr (), w', fs')" and "0 < incoming"
  shows "usedBytes (mb_PoolID m) (mb_MountID m) w' + incoming \<le> highWatermark (mb_CacheMaxBytes m)"
    and "madeRoom env m storeID incoming w w'"
proof -
  show room: "madeRoom env m storeID incoming w w'"
    using endsD [OF pruneMembership_room assms(2)] assms(1) by (simp add: cacheInv_def)
  have pos: "0 < mb_CacheMaxBytes m"
    using assms(2) by (auto simp: pruneMembership_def tx_fail_def split: if_splits)
  then have low: "lowWatermark (mb_CacheMaxBytes m) \<le> highWatermark (mb_CacheMaxBytes m)"
    unfolding lowWatermark_def highWatermark_def by (intro zdiv_mono1) simp_all
  have over: "(if highWatermark M < u + i then u + i - lowWatermark M else 0) \<le> bytesToFree M u i cap" for M u i cap
    by (auto simp: bytesToFree_def Let_def split: option.split)
  show "usedBytes (mb_PoolID m) (mb_MountID m) w' + incoming \<le> highWatermark (mb_CacheMaxBytes m)"
    using room assms(3) low over [of "mb_CacheMaxBytes m" "usedBytes (mb_PoolID m) (mb_MountID m) w" incoming "cv_capacity env storeID"]
    by (auto simp: madeRoom_def Let_def split: if_splits)
qed

end
