(* ===== verification/McPublish.thy ===== *)
theory McPublish
  imports McRoom
begin

text \<open>
  What filling the cache publishes: a fill that does not succeed adds no entry, and one that does
  leaves a complete copy of the captured generation, within the budget of its mount.
\<close>

section \<open>Operations that publish nothing\<close>

definition liveEntries :: "cache_state \<Rightarrow> cache_entry set" where
  "liveEntries w = {e \<in> set (cw_entries w). \<not> ce_Deleted e}"

definition budgets :: "cache_state \<Rightarrow> (nat \<times> nat \<times> int) list" where
  "budgets w = map (\<lambda>m. (mb_PoolID m, mb_MountID m, mb_CacheMaxBytes m))
     (filter (\<lambda>m. mb_Role m = RoleCache) (cw_members w))"

definition shrinks :: "cache_state \<Rightarrow> cache_state \<Rightarrow> bool" where
  "shrinks w w' \<longleftrightarrow> liveEntries w' \<subseteq> liveEntries w \<and> budgets w' = budgets w \<and>
     cw_mounts w' = cw_mounts w \<and> cw_files w' = cw_files w"

lemma shrinks_refl [simp]: "shrinks w w"
  by (simp add: shrinks_def)

lemma shrinks_trans: "shrinks w w' \<Longrightarrow> shrinks w' w'' \<Longrightarrow> shrinks w w''"
  by (auto simp: shrinks_def)

lemma shrinks_quiet:
  "cw_entries w' = cw_entries w \<Longrightarrow> cw_members w' = cw_members w \<Longrightarrow> cw_mounts w' = cw_mounts w \<Longrightarrow>
   cw_files w' = cw_files w \<Longrightarrow> shrinks w w'"
  by (simp add: shrinks_def liveEntries_def budgets_def)

lemma shrinks_store: "shrinks w0 w \<Longrightarrow> shrinks w0 (updateStore i f w)"
  by (simp add: shrinks_def liveEntries_def budgets_def)

lemma shrinks_deleteEntry: "shrinks w0 w \<Longrightarrow> shrinks w0 (deleteEntry i w)"
  by (auto simp: shrinks_def deleteEntry_def budgets_def liveEntries_def set_update_where split: if_splits)

lemma shrinks_memberError: "shrinks w0 w \<Longrightarrow> shrinks w0 (memberError p t err w)"
proof -
  have "map (\<lambda>m. (mb_PoolID m, mb_MountID m, mb_CacheMaxBytes m)) (filter (\<lambda>m. mb_Role m = RoleCache)
      (update_where q (\<lambda>m. m\<lparr>mb_CacheLastError := err\<rparr>) ms)) =
    map (\<lambda>m. (mb_PoolID m, mb_MountID m, mb_CacheMaxBytes m)) (filter (\<lambda>m. mb_Role m = RoleCache) ms)" for q and ms :: "member_row list"
    by (induction ms) auto
  then show "shrinks w0 w \<Longrightarrow> shrinks w0 (memberError p t err w)"
    by (simp add: shrinks_def memberError_def liveEntries_def budgets_def)
qed

interpretation shrinking: kept_by_cache "shrinks w0" for w0
proof
  show "shrinks w0 (queueTouch e now w)" if "shrinks w0 w" for e now w
    using that by (rule shrinks_trans) (rule shrinks_quiet; simp)
qed (rule shrinks_store shrinks_deleteEntry shrinks_memberError; assumption)+

section \<open>Storing and committing\<close>

text \<open>The stored copy and its committed entry.\<close>

definition publishedAs ::
  "cache_env \<Rightarrow> promotion_payload \<Rightarrow> nat \<Rightarrow> string \<Rightarrow> string \<Rightarrow> string \<Rightarrow> int \<Rightarrow> cache_state \<Rightarrow> cache_state \<Rightarrow> bool" where
  "publishedAs env p t storeID key body sz w w' \<longleftrightarrow> (\<exists>e ob.
     liveEntries w' \<subseteq> insert e (liveEntries w) \<and> e \<in> liveEntries w' \<and>
     ce_StoragePoolID e = pp_PoolID p \<and> ce_OriginMountID e = pp_OriginMountID p \<and>
     ce_ObjectKeyHash e = objectKeyHash env (pp_ObjectKey p) \<and> ce_CacheMountID e = t \<and> ce_CacheObjectKey e = key \<and>
     ce_FileID e = pp_FileID p \<and> ce_FileCacheVersion e = pp_FileCacheVersion p \<and> ce_Size e = sz \<and>
     map_of (sw_stores w' storeID) key = Some ob \<and>
     ob_Body ob = pv_land (cv_provider env storeID) body \<and> ob_Size ob = sz \<and>
     usedBytes (pp_PoolID p) t w' \<le> usedBytes (pp_PoolID p) t w + sz)"

lemma usedBytes_upsert_list:
  assumes "distinct (map identityOf es)" and "\<forall>x \<in> set es. 0 < ce_Size x" and "0 < ce_Size e"
  shows "sum_list (map ce_Size (filter (livesOn p t) (update_where (sameObject e) (\<lambda>x. e\<lparr>ce_ID := ce_ID x\<rparr>) es)))
    \<le> sum_list (map ce_Size (filter (livesOn p t) es)) + ce_Size e"
  using assms
proof (induction es)
  case (Cons x es)
  show ?case
  proof (cases "sameObject e x")
    case True
    with Cons.prems(1) have "\<forall>y \<in> set es. \<not> sameObject e y"
      by (auto simp: sameObject_identity) (metis image_eqI)
    then have "update_where (sameObject e) (\<lambda>x. e\<lparr>ce_ID := ce_ID x\<rparr>) es = es"
      by (induction es) auto
    with True Cons.prems show ?thesis by (simp add: order_less_imp_le)
  qed (use Cons in simp)
qed simp

lemma usedBytes_upsert:
  assumes "cacheInv w" "0 < ce_Size e"
  shows "usedBytes p t (upsertEntry e w) \<le> usedBytes p t w + ce_Size e"
  using assms usedBytes_upsert_list [of "cw_entries w" e p t]
  by (auto simp: usedBytes_def entriesOn_livesOn upsertEntry_def cacheInv_def entryOK_def)

lemma upsert_live:
  assumes "\<not> ce_Deleted e"
  obtains i where "e\<lparr>ce_ID := i\<rparr> \<in> liveEntries (upsertEntry e w)"
    "distinct (map identityOf (cw_entries w)) \<Longrightarrow>
      liveEntries (upsertEntry e w) \<subseteq> insert (e\<lparr>ce_ID := i\<rparr>) (liveEntries w)"
proof (cases "list_ex (sameObject e) (cw_entries w)")
  case True
  then obtain x where x: "x \<in> set (cw_entries w)" "sameObject e x" by (auto simp: list_ex_iff)
  then have "e\<lparr>ce_ID := ce_ID x\<rparr> \<in> liveEntries (upsertEntry e w)"
    using assms True by (force simp: liveEntries_def upsertEntry_def set_update_where)
  moreover have "liveEntries (upsertEntry e w) \<subseteq> insert (e\<lparr>ce_ID := ce_ID x\<rparr>) (liveEntries w)"
    if "distinct (map identityOf (cw_entries w))"
  proof
    fix y assume "y \<in> liveEntries (upsertEntry e w)"
    then have y: "y \<in> set (update_where (sameObject e) (\<lambda>x. e\<lparr>ce_ID := ce_ID x\<rparr>) (cw_entries w))" "\<not> ce_Deleted y"
      using True by (simp_all add: liveEntries_def upsertEntry_def)
    from y(1) show "y \<in> insert (e\<lparr>ce_ID := ce_ID x\<rparr>) (liveEntries w)"
    proof (cases rule: update_whereE)
      case (new z)
      with x that have "z = x" by (auto simp: distinct_map inj_on_def sameObject_identity)
      with new show ?thesis by simp
    qed (use y in \<open>simp add: liveEntries_def\<close>)
  qed
  ultimately show ?thesis by (rule that)
next
  case False
  then have "e\<lparr>ce_ID := cw_nextEntry w\<rparr> \<in> liveEntries (upsertEntry e w)"
    "liveEntries (upsertEntry e w) \<subseteq> insert (e\<lparr>ce_ID := cw_nextEntry w\<rparr>) (liveEntries w)"
    using assms by (auto simp: liveEntries_def upsertEntry_def)
  then show ?thesis by (rule that)
qed

lemma ends_commitPromotion:
  assumes "\<And>err. Q (Inl err) w" "Q (Inr ()) (upsertEntry e w)"
  shows "ends (commitPromotion e) Q w"
  by (rule endsI) (use assms in \<open>auto elim!: commitPromotion_cases\<close>)

lemma ends_storePut:
  assumes "\<And>err. Q (Inl err) w"
    and "Q (Inr (infoOf key (putObject pv opts body))) (updateStore i (AList.update key (putObject pv opts body)) w)"
  shows "ends (storePut pv i key body opts) Q w"
  unfolding storePut_def using assms by (intro ends_stmt) (auto split: option.splits if_splits)

lemma usedBytes_entries: "cw_entries w' = cw_entries w \<Longrightarrow> usedBytes p t w' = usedBytes p t w"
  by (simp add: usedBytes_def entriesOn_def)

lemma publishedAs_commit:
  assumes inv: "cacheInv w" and pos: "0 < oi_Size info" and size: "pv_size pv (pv_land pv body) = oi_Size info"
    and pv: "pv = cv_provider env storeID"
    and w1: "w1 = updateStore storeID (AList.update key (putObject pv opts body)) w"
  shows "publishedAs env p t storeID key body (oi_Size info) w (upsertEntry (promotedEntry env p t key info now) w1)"
proof -
  let ?e = "promotedEntry env p t key info now"
  have inv1: "cacheInv w1"
    using inv unfolding w1 by (simp add: cacheInv_def entryOK_def generationOf_def)
  obtain i where i: "?e\<lparr>ce_ID := i\<rparr> \<in> liveEntries (upsertEntry ?e w1)"
    "liveEntries (upsertEntry ?e w1) \<subseteq> insert (?e\<lparr>ce_ID := i\<rparr>) (liveEntries w1)"
    using inv1 by (auto intro: upsert_live [of ?e w1] simp: cacheInv_def)
  have live: "liveEntries w1 = liveEntries w" by (simp add: w1 liveEntries_def)
  have stores: "map_of (sw_stores (upsertEntry ?e w1) storeID) key = Some (putObject pv opts body)"
    by (simp add: upsertEntry_def w1 updateStore_def update_conv)
  have "usedBytes (pp_PoolID p) t w1 = usedBytes (pp_PoolID p) t w"
    by (rule usedBytes_entries) (simp add: w1)
  then have "usedBytes (pp_PoolID p) t (upsertEntry ?e w1) \<le> usedBytes (pp_PoolID p) t w + oi_Size info"
    using usedBytes_upsert [OF inv1, of ?e "pp_PoolID p" t] pos by simp
  with i live stores size pv show ?thesis
    unfolding publishedAs_def
    by (intro exI [of _ "?e\<lparr>ce_ID := i\<rparr>"] exI [of _ "putObject pv opts body"])
      (simp add: promotedEntry_def putObject_def)
qed

lemma publishedAs_quiet:
  "publishedAs env p t i key body n w w' \<Longrightarrow> cw_entries w'' = cw_entries w' \<Longrightarrow> sw_stores w'' = sw_stores w' \<Longrightarrow>
   publishedAs env p t i key body n w w''"
  by (simp add: publishedAs_def liveEntries_def usedBytes_def entriesOn_def)

definition copied ::
  "cache_env \<Rightarrow> promotion_payload \<Rightarrow> nat \<Rightarrow> string \<Rightarrow> string \<Rightarrow> string \<Rightarrow> int \<Rightarrow> cache_state \<Rightarrow> media_error txerr + unit \<Rightarrow> cache_state \<Rightarrow> bool" where
  "copied env p t i key body n w r w' \<longleftrightarrow>
     (case r of Inl _ \<Rightarrow> shrinks w w' | Inr _ \<Rightarrow> publishedAs env p t i key body n w w')"

lemma putObject_size: "ob_Size (putObject pv opts body) = pv_size pv (pv_land pv body)"
  by (simp add: putObject_def)

lemma storeCopy_copied:
  assumes inv: "cacheInv w" and pos: "0 < oi_Size info"
  shows "ends (storeCopy env p t storeID key body info now) (copied env p t storeID key body (oi_Size info) w) w"
proof -
  let ?pv = "cv_provider env storeID"
  let ?w1 = "updateStore storeID (AList.update key (putObject ?pv (copyOptions info) body)) w"
  have undo: "ends (storeDelete storeID key) (\<lambda>_. copied env p t storeID key body (oi_Size info) w (Inl e)) v"
    if "shrinks w v" for e v
    by (rule ends_mono [OF ends_always [OF shrinking.always_storeDelete that]]) (simp add: copied_def)
  have s1: "shrinks w ?w1" by (rule shrinks_store) simp
  have clear: "ends (clearMembershipError (pp_PoolID p) t) (copied env p t storeID key body (oi_Size info) w)
      (upsertEntry (promotedEntry env p t key info now) ?w1)" if "pv_size ?pv (pv_land ?pv body) = oi_Size info"
  proof -
    let ?w2 = "upsertEntry (promotedEntry env p t key info now) ?w1"
    have "publishedAs env p t storeID key body (oi_Size info) w ?w2"
      by (rule publishedAs_commit [OF inv pos that refl refl])
    then show ?thesis
      unfolding clearMembershipError_def updateMembers_def
      by (intro ends_ignore ends_update) (auto simp: copied_def intro: publishedAs_quiet)
  qed
  have commit: "ends (tx_bind (tx_onError (commitPromotion (promotedEntry env p t key info now)) (storeDelete storeID key))
      (\<lambda>_. clearMembershipError (pp_PoolID p) t)) (copied env p t storeID key body (oi_Size info) w) ?w1"
    if "pv_size ?pv (pv_land ?pv body) = oi_Size info"
    by (intro ends_bind ends_onError ends_commitPromotion) (auto intro: undo [OF s1] clear [OF that])
  show ?thesis
    unfolding storeCopy_def
  proof (intro ends_bind ends_onError ends_storePut, goal_cases)
    case (1 err) show ?case by (auto intro: ends_mono [OF undo [OF shrinks_refl]])
  next
    case 2
    then show ?case
      using commit by (auto simp: putObject_size intro!: ends_onError ends_fail undo [OF s1])
  qed
qed

section \<open>Promotion to a target\<close>

text \<open>\<open>landed\<close>: the entry describes the payload's object and its copy is in the store;
  \<open>fitted\<close>: it is the only new entry, and the mount stays below its watermark with it.\<close>

definition landed ::
  "cache_env \<Rightarrow> promotion_payload \<Rightarrow> nat \<Rightarrow> string \<Rightarrow> string \<Rightarrow> cache_entry \<Rightarrow> cache_state \<Rightarrow> bool" where
  "landed env p t i body e w' \<longleftrightarrow> e \<in> liveEntries w' \<and>
     ce_StoragePoolID e = pp_PoolID p \<and> ce_OriginMountID e = pp_OriginMountID p \<and>
     ce_ObjectKeyHash e = objectKeyHash env (pp_ObjectKey p) \<and> ce_CacheMountID e = t \<and>
     ce_FileID e = pp_FileID p \<and> ce_FileCacheVersion e = pp_FileCacheVersion p \<and> ce_Size e = oi_Size (pp_Info p) \<and>
     (\<exists>ob. map_of (sw_stores w' i) (ce_CacheObjectKey e) = Some ob \<and>
       ob_Body ob = pv_land (cv_provider env i) body \<and> ob_Size ob = ce_Size e)"

definition fitted ::
  "cache_env \<Rightarrow> promotion_payload \<Rightarrow> nat \<Rightarrow> string \<Rightarrow> cache_state \<Rightarrow> cache_state \<Rightarrow> bool" where
  "fitted env p t body w w' \<longleftrightarrow> (\<exists>mount budget e. mountById t w = Some mount \<and>
     (pp_PoolID p, t, budget) \<in> set (budgets w) \<and> landed env p t (mt_UUID mount) body e w' \<and>
     liveEntries w' \<subseteq> insert e (liveEntries w) \<and> usedBytes (pp_PoolID p) t w' \<le> highWatermark budget)"

definition admitted :: "cache_env \<Rightarrow> promotion_payload \<Rightarrow> nat \<Rightarrow> cache_state \<Rightarrow> media_error txerr + string \<Rightarrow> cache_state \<Rightarrow> bool" where
  "admitted env p t w r w' \<longleftrightarrow> shrinks w w' \<and> cacheInv w' \<and> (\<forall>i. r = Inr i \<longrightarrow> (\<exists>mount budget.
     mountById t w = Some mount \<and> i = mt_UUID mount \<and> (pp_PoolID p, t, budget) \<in> set (budgets w) \<and>
     usedBytes (pp_PoolID p) t w' + oi_Size (pp_Info p) \<le> highWatermark budget))"

lemma steps_cacheInv:
  assumes "\<And>w0. always (cache_step\<^sup>*\<^sup>* w0) m" "cacheInv w"
  shows "ends m (\<lambda>_. cacheInv) w"
proof -
  have "ends m (\<lambda>_. cache_step\<^sup>*\<^sup>* w) w" by (rule ends_always [OF assms(1)]) simp
  then show ?thesis by (rule ends_mono) (rule cache.steps_inv [OF _ assms(2)])
qed

lemma member_budget:
  "find (isMember p t) (cw_members w) = Some m \<Longrightarrow>
   mb_PoolID m = p \<and> mb_MountID m = t \<and> (p, t, mb_CacheMaxBytes m) \<in> set (budgets w)"
  by (auto dest!: find_key_SomeD simp: isMember_def budgets_def image_iff intro!: bexI [of _ m])

lemma pruneMembership_watermark:
  assumes "cacheInv w" "0 < incoming"
  shows "ends (pruneMembership env m i incoming) (\<lambda>r w'. r = Inr () \<longrightarrow>
    usedBytes (mb_PoolID m) (mb_MountID m) w' + incoming \<le> highWatermark (mb_CacheMaxBytes m)) w"
proof (rule endsI, rule impI)
  fix fs r w' fs' assume "pruneMembership env m i incoming (w, fs) = (r, w', fs')" "r = Inr ()"
  then have run: "pruneMembership env m i incoming (w, fs) = (Inr (), w', fs')" by simp
  from madeRoom_watermark [OF assms(1) run assms(2)]
  show "usedBytes (mb_PoolID m) (mb_MountID m) w' + incoming \<le> highWatermark (mb_CacheMaxBytes m)" by simp
qed

lemma admitTarget_admitted:
  assumes inv: "cacheInv w" and pos: "0 < oi_Size (pp_Info p)"
  shows "ends (admitTarget env p t) (admitted env p t w) w"
proof -
  have "ends (admitTarget env p t) (\<lambda>r w'. \<forall>i. r = Inr i \<longrightarrow> (\<exists>mount budget.
     mountById t w = Some mount \<and> i = mt_UUID mount \<and> (pp_PoolID p, t, budget) \<in> set (budgets w) \<and>
     usedBytes (pp_PoolID p) t w' + oi_Size (pp_Info p) \<le> highWatermark budget)) w"
    unfolding admitTarget_def
  proof (intro ends_bind ends_catch ends_first, goal_cases)
    case (3 m)
    note mb = member_budget [OF 3]
    have prune: "ends (pruneMembership env m (mt_UUID mount) (oi_Size (pp_Info p)))
      (\<lambda>r w'. r = Inr () \<longrightarrow> usedBytes (pp_PoolID p) (mb_MountID m) w' + oi_Size (pp_Info p)
        \<le> highWatermark (mb_CacheMaxBytes m)) w" for mount
      using pruneMembership_watermark [OF inv pos, of env m] mb by simp
    show ?case
      using mb by (auto intro!: ends_bind ends_first ends_reject ends_peek ends_return ends_mono [OF prune])
  qed (auto intro!: ends_fail)
  moreover have "ends (admitTarget env p t) (\<lambda>_. shrinks w) w"
    by (rule ends_always [OF shrinking.always_admitTarget]) simp
  moreover have "ends (admitTarget env p t) (\<lambda>_. cacheInv) w"
    by (rule steps_cacheInv [OF steps.always_admitTarget inv])
  ultimately show ?thesis by (auto simp: ends_def admitted_def)
qed

lemma fitted_shrinks: "shrinks w v \<Longrightarrow> fitted env p t body v w' \<Longrightarrow> fitted env p t body w w'"
proof -
  assume sh: "shrinks w v" and f: "fitted env p t body v w'"
  then have "mountById t v = mountById t w" "budgets v = budgets w" "liveEntries v \<subseteq> liveEntries w"
    by (simp_all add: shrinks_def mountById_def)
  with f show ?thesis unfolding fitted_def by (metis insert_mono order_trans)
qed

lemma fitted_published:
  assumes "admitted env p t w (Inr i) v" "publishedAs env p t i key body (oi_Size (pp_Info p)) v w'"
  shows "fitted env p t body w w'"
proof -
  from assms(1) obtain mount budget where m: "mountById t w = Some mount" "i = mt_UUID mount"
    "(pp_PoolID p, t, budget) \<in> set (budgets w)" "usedBytes (pp_PoolID p) t v + oi_Size (pp_Info p) \<le> highWatermark budget"
    and sh: "shrinks w v" by (auto simp: admitted_def)
  from assms(2) obtain e where
    e: "liveEntries w' \<subseteq> insert e (liveEntries v)" "landed env p t i body e w'"
    "usedBytes (pp_PoolID p) t w' \<le> usedBytes (pp_PoolID p) t v + oi_Size (pp_Info p)"
    unfolding publishedAs_def by (elim exE conjE) (rule that, assumption, simp_all add: landed_def)
  from e(1) sh have "liveEntries w' \<subseteq> insert e (liveEntries w)" by (auto simp: shrinks_def)
  with e m show ?thesis unfolding fitted_def
    by (intro exI [of _ mount] exI [of _ budget] exI [of _ e] conjI) simp_all
qed

text \<open>The outcome of one target: an error leaves no new entry.\<close>

definition filledBy ::
  "(cache_state \<Rightarrow> cache_state \<Rightarrow> bool) \<Rightarrow> cache_state \<Rightarrow> media_error txerr + unit \<Rightarrow> cache_state \<Rightarrow> bool" where
  "filledBy R w r w' \<longleftrightarrow> (case r of Inl _ \<Rightarrow> shrinks w w' | Inr _ \<Rightarrow> R w w')"

lemma filledBy_simps [simp]: "filledBy R w (Inl e) w' = shrinks w w'" "filledBy R w (Inr u) w' = R w w'"
  by (simp_all add: filledBy_def)

lemma storeCopy_filledBy:
  assumes adm: "admitted env p t w (Inr i) v" and pos: "0 < oi_Size (pp_Info p)" and size: "oi_Size info = oi_Size (pp_Info p)"
  shows "ends (storeCopy env p t i key body info now) (filledBy (fitted env p t body) w) v"
proof (rule ends_mono [OF storeCopy_copied])
  show "cacheInv v" using adm by (simp add: admitted_def)
  show "0 < oi_Size info" using pos size by simp
  fix r w' assume "copied env p t i key body (oi_Size info) v r w'"
  with adm size show "filledBy (fitted env p t body) w r w'"
    by (auto simp: copied_def filledBy_def admitted_def intro: shrinks_trans fitted_published [OF adm] split: sum.splits)
qed

lemma ends_cacheKey:
  "(\<And>e. Q (Inl e) w) \<Longrightarrow> (\<And>key. Q (Inr key) w) \<Longrightarrow> ends (cacheKey env p i k) Q w"
  unfolding cacheKey_def
  by (intro ends_bind ends_first) (auto intro!: ends_fail ends_return split: sum.split)

lemma promoteToTarget_filledBy:
  assumes inv: "cacheInv w" and pos: "0 < oi_Size (pp_Info p)" and body: "pp_Temporary p = Some (Some body)"
  shows "ends (promoteToTarget env p now t) (filledBy (fitted env p t body) w) w"
  unfolding promoteToTarget_def body
proof (intro ends_bind ends_mono [OF admitTarget_admitted [OF inv pos]] conjI allI impI, goal_cases)
  case (1 r v e) then show ?case by (simp add: admitted_def)
next
  case (2 r v i)
  then have "shrinks w v" by (simp add: admitted_def)
  with 2 show ?case
    by (auto intro!: ends_bind ends_cacheKey storeCopy_filledBy pos)
qed

lemma promoteToTarget_unreadable:
  assumes inv: "cacheInv w" and pos: "0 < oi_Size (pp_Info p)" and body: "\<nexists>body. pp_Temporary p = Some (Some body)"
  shows "ends (promoteToTarget env p now t) (filledBy (\<lambda>_ _. False) w) w"
  unfolding promoteToTarget_def
proof (intro ends_bind ends_mono [OF admitTarget_admitted [OF inv pos]] conjI allI impI, goal_cases)
  case (1 r v e) then show ?case by (simp add: admitted_def)
next
  case (2 r v i)
  then show ?case
    using body by (auto simp: admitted_def intro!: ends_fail split: option.split)
qed

text \<open>The body a promotion from the origin lands is whatever the origin then holds.\<close>

lemma promoteOriginToTarget_filledBy:
  assumes inv: "cacheInv w" and pos: "0 < oi_Size (pp_Info p)"
  shows "ends (promoteOriginToTarget env p key now t) (filledBy (\<lambda>w w'. \<exists>body. fitted env p t body w w') w) w"
  unfolding promoteOriginToTarget_def Let_def
proof (intro ends_bind ends_mono [OF admitTarget_admitted [OF inv pos]] conjI allI impI, goal_cases)
  case (1 r v e) then show ?case by (simp add: admitted_def)
next
  case (2 r v i)
  then have sh: "shrinks w v" by (simp add: admitted_def)
  have adm: "admitted env p t w (Inr i) v" using 2 by simp
  have copy: "ends (storeCopy env p t i k body info now) (filledBy (\<lambda>w w'. \<exists>body. fitted env p t body w w') w) v"
    if "oi_Size info = oi_Size (pp_Info p)" for k body info
    by (rule ends_mono [OF storeCopy_filledBy [OF adm pos that]]) (auto simp: filledBy_def split: sum.splits)
  show ?case
    by (intro ends_bind ends_peek ends_reject ends_storeOpen)
      (auto simp: sh intro!: ends_bind ends_peek ends_reject ends_storeOpen ends_cacheKey copy)
qed

section \<open>Filling\<close>

definition fillOK ::
  "(cache_state \<Rightarrow> cache_state \<Rightarrow> bool) \<Rightarrow> cache_state \<Rightarrow> media_error txerr + fill_outcome \<Rightarrow> cache_state \<Rightarrow> bool" where
  "fillOK R w r w' \<longleftrightarrow> (case r of Inr Filled \<Rightarrow> R w w' | _ \<Rightarrow> shrinks w w')"

lemma fillOK_simps [simp]:
  "fillOK R w (Inr Filled) w' = R w w'" "fillOK R w (Inr FillSkipped) w' = shrinks w w'"
  "fillOK R w (Inr (FillFailed es)) w' = shrinks w w'" "fillOK R w (Inl e) w' = shrinks w w'"
  by (simp_all add: fillOK_def)

lemma fillTargets_fillOK:
  assumes step: "\<And>t v. t \<in> set ts \<Longrightarrow> cacheInv v \<Longrightarrow> ends (f t) (filledBy (R t) v) v"
    and steps: "\<And>t w0. always (cache_step\<^sup>*\<^sup>* w0) (f t)"
    and shrink: "\<And>t v v' v''. R t v' v'' \<Longrightarrow> shrinks v v' \<Longrightarrow> R t v v''"
    and "cacheInv v" "shrinks w v"
  shows "ends (fillTargets env pool f ts errs) (fillOK (\<lambda>w w'. \<exists>t \<in> set ts. R t w w') w) v"
  using assms(1,4,5)
proof (induction ts arbitrary: v errs)
  case Nil
  then show ?case by (auto intro!: ends_return)
next
  case (Cons t ts)
  define P where "P = fillOK (\<lambda>w w'. \<exists>t \<in> set (t # ts). R t w w') w"
  have P [simp]: "P (Inr Filled) w' = (\<exists>t \<in> set (t # ts). R t w w')" "P (Inr FillSkipped) w' = shrinks w w'"
    "P (Inr (FillFailed es)) w' = shrinks w w'" "P (Inl e) w' = shrinks w w'" for w' es e
    by (simp_all add: P_def)
  have next': "ends (fillTargets env pool f ts es) P u" if "cacheInv u" "shrinks w u" for es u
    by (rule ends_mono [OF Cons.IH [OF Cons.prems(1) that]])
      (auto simp: P_def fillOK_def split: sum.splits fill_outcome.splits)
  have failed: "ends (tx_bind (recordMembershipError pool t (cv_errorText env e)) (\<lambda>_. fillTargets env pool f ts es)) P u"
    if "cacheInv u" "shrinks w u" for e es u
  proof -
    have "ends (recordMembershipError pool t (cv_errorText env e)) (\<lambda>_ u'. cacheInv u' \<and> shrinks u u') u"
      by (intro ends_conj steps_cacheInv [OF _ that(1)] ends_always [OF shrinking.always_membership_errors(1)] tx_always) simp
    then show ?thesis
      by (intro ends_bind) (elim ends_mono, auto intro: next' shrinks_trans [OF that(2)])
  qed
  have target: "ends (f t) (\<lambda>r u. filledBy (R t) v r u \<and> cacheInv u) v"
    by (intro ends_conj Cons.prems(1) steps_cacheInv [OF steps] Cons.prems(2)) simp
  have "ends (tx_bind (tx_try (f t)) (\<lambda>r. case r of Inr _ \<Rightarrow> tx_return Filled
      | Inl e \<Rightarrow> if e = App ErrCaptureStale then tx_return FillSkipped
         else if e = App ErrAdmissionSkipped then fillTargets env pool f ts errs
         else tx_bind (recordMembershipError pool t (cv_errorText env e)) (\<lambda>_. fillTargets env pool f ts (errs @ [e])))) P v"
  proof (intro ends_bind ends_try ends_mono [OF target] conjI allI impI, goal_cases)
    case (2 r u x)
    then show ?case
      by (cases x) (auto intro!: ends_return next' failed intro: shrink [OF _ Cons.prems(3)] Cons.prems(3) shrinks_trans [OF Cons.prems(3)])
  qed auto
  then have "ends (fillTargets env pool f (t # ts) errs) P v"
    unfolding fillTargets.simps
    by (intro ends_bind ends_try ends_check) (auto intro!: ends_return simp: Cons.prems(3))
  then show ?case by (simp add: P_def)
qed

end
