(* ===== verification/McDemo.thy ===== *)
theory McDemo
  imports McPublish
begin

text \<open>
  A small installation: one file of four bytes on the origin mount, one cache mount of twenty
  bytes. The states are those a first open, its completed capture and an invalidation lead to.
\<close>

definition demoEnv :: cache_env where
  "demoEnv = \<lparr>cv_sha256 = (\<lambda>_. ''h''), cv_capacity = (\<lambda>_. None), cv_workspace = Some (1000, 900),
     cv_provider = (\<lambda>_. \<lparr>pv_land = (\<lambda>b. b), pv_size = (\<lambda>b. int (length b)), pv_etag = (\<lambda>_. []), pv_now = 0\<rparr>),
     cv_default = ''o'', cv_errorText = (\<lambda>_. ''e'')\<rparr>"

definition demoWorld :: cache_state where
  "demoWorld = \<lparr>sw_stores = (\<lambda>i. if i = ''o'' then [(''k'', \<lparr>ob_Body = ''abcd'', ob_Size = 4, ob_ModTime = 0,
       ob_ContentType = [], ob_CacheControl = [], ob_ETag = []\<rparr>)] else []),
     cw_pools = [\<lparr>pl_ID = 1, pl_UUID = ''p''\<rparr>],
     cw_mounts = [\<lparr>mt_ID = 1, mt_UUID = ''o'', mt_Mounted = True, mt_LastError = []\<rparr>,
       \<lparr>mt_ID = 2, mt_UUID = ''c'', mt_Mounted = True, mt_LastError = []\<rparr>],
     cw_members = [\<lparr>mb_PoolID = 1, mb_MountID = 1, mb_Role = RolePrimary, mb_CacheMaxBytes = 0, mb_CacheLastError = []\<rparr>,
       \<lparr>mb_PoolID = 1, mb_MountID = 2, mb_Role = RoleCache, mb_CacheMaxBytes = 20, mb_CacheLastError = []\<rparr>],
     cw_files = [\<lparr>fl_ID = 1, fl_CacheVersion = None, fl_Deleted = False\<rparr>],
     cw_entries = [], cw_nextEntry = 1, cw_registered = [''o'', ''c''], cs_active = [], cs_closed = False,
     cs_reserved = 0, cs_touches = [], cs_touchClosing = False\<rparr>"

definition demoRequest :: open_request where
  "demoRequest = \<lparr>rq_PoolID = 1, rq_OriginMountID = ''o'', rq_FileID = 1, rq_Key = ''k''\<rparr>"

definition demoPayload :: "string option \<Rightarrow> nat \<Rightarrow> promotion_payload" where
  "demoPayload body v = \<lparr>pp_PoolID = 1, pp_OriginMountID = ''o'', pp_FileID = 1, pp_FileCacheVersion = v,
     pp_ObjectKey = ''k'', pp_TargetMountID = 2, pp_TargetMountIDs = [2],
     pp_Temporary = map_option Some body,
     pp_Info = \<lparr>oi_Key = ''k'', oi_Size = 4, oi_ModTime = 0, oi_ContentType = [], oi_CacheControl = [], oi_ETag = []\<rparr>\<rparr>"

lemma reaches:
  assumes "always (cache_step\<^sup>*\<^sup>* w) m" "m (w, fs) = (r, w', fs')"
  shows "cache_step\<^sup>*\<^sup>* w w'"
  using endsD [OF ends_always [OF assms(1)] assms(2)] by simp

lemma run_eq: "fst p = r \<Longrightarrow> snd (snd p) = fs \<Longrightarrow> p = (r, fst (snd p), fs)"
  by (cases p) auto

definition demoFilled :: cache_state where
  "demoFilled = fst (snd (Fill demoEnv (demoPayload (Some ''abcd'') 0) 7 (demoWorld, [])))"

definition demoInvalidated :: cache_state where
  "demoInvalidated = fst (snd (InvalidateFile 1 (demoFilled, [])))"

definition demoRefilled :: cache_state where
  "demoRefilled = fst (snd (Fill demoEnv (demoPayload None 1) 9 (demoInvalidated, [])))"

lemma demo_init: "cacheInit demoWorld"
  by code_simp

lemma demo_fill: "Fill demoEnv (demoPayload (Some ''abcd'') 0) 7 (demoWorld, []) = (Inr Filled, demoFilled, [])"
  unfolding demoFilled_def by (rule run_eq) code_simp+

lemma demo_invalidate: "InvalidateFile 1 (demoFilled, []) = (Inr (), demoInvalidated, [])"
  unfolding demoInvalidated_def by (rule run_eq) code_simp+

lemma demo_refill: "Fill demoEnv (demoPayload None 1) 9 (demoInvalidated, []) = (Inr Filled, demoRefilled, [])"
  unfolding demoRefilled_def by (rule run_eq) code_simp+

lemma demo_stale: "Fill demoEnv (demoPayload (Some ''abcd'') 0) 9 (demoInvalidated, []) =
   (Inr FillSkipped, fst (snd (Fill demoEnv (demoPayload (Some ''abcd'') 0) 9 (demoInvalidated, []))), [])"
  by (rule run_eq) code_simp+

lemma demo_reach_filled: "cache_step\<^sup>*\<^sup>* demoWorld demoFilled"
  by (rule reaches [OF steps.always_Fill demo_fill])

lemma demo_reach_invalidated: "cache_step\<^sup>*\<^sup>* demoWorld demoInvalidated"
  by (rule rtranclp_trans [OF demo_reach_filled reaches [OF steps_InvalidateFile demo_invalidate]])

lemma demo_reach_refilled: "cache_step\<^sup>*\<^sup>* demoInvalidated demoRefilled"
  by (rule reaches [OF steps.always_Fill demo_refill])

end
