(* ===== verification/McClaims.thy ===== *)
theory McClaims
  imports McDemo
begin

text \<open>
  The properties of the playback cache: invalidation is final, hits are recorded copies, room is
  made before a copy is stored, failed fills publish nothing, and every open gives back its claim
  and its workspace.
\<close>

section \<open>Filling\<close>

lemma filledBy_mono: "(\<And>w w'. R w w' \<Longrightarrow> S w w') \<Longrightarrow> filledBy R w r w' \<Longrightarrow> filledBy S w r w'"
  by (auto simp: filledBy_def split: sum.splits)

lemma whenCurrent_fillOK:
  "ends m (fillOK R w) w \<Longrightarrow> ends (whenCurrent p m) (fillOK R w) w"
  unfolding whenCurrent_def fileCacheVersion_def
  by (intro ends_bind ends_try ends_first) (auto intro!: ends_return)

lemma fillOK_bex_mono: "(\<And>w w'. (\<exists>t \<in> A. R t w w') \<Longrightarrow> S w w') \<Longrightarrow> fillOK (\<lambda>w w'. \<exists>t \<in> A. R t w w') w r w' \<Longrightarrow> fillOK S w r w'"
  by (auto simp: fillOK_def split: sum.splits fill_outcome.splits)

lemma Promote_fillOK:
  assumes inv: "cacheInv w"
  shows "ends (Promote env p now) (fillOK (\<lambda>w w'. \<exists>t \<in> set (uniqueTargetMountIDs p). \<exists>body.
    pp_Temporary p = Some (Some body) \<and> fitted env p t body w w') w) w"
proof (cases "pp_Temporary p = None \<or> pp_ObjectKey p = [] \<or> uniqueTargetMountIDs p = [] \<or> oi_Size (pp_Info p) \<le> 0")
  case True
  then show ?thesis unfolding Promote_def Let_def by (auto intro!: ends_return)
next
  case False
  then have pos: "0 < oi_Size (pp_Info p)" by simp
  have one: "ends (promoteToTarget env p now t)
      (filledBy (\<lambda>w w'. \<exists>body. pp_Temporary p = Some (Some body) \<and> fitted env p t body w w') v) v"
    if "cacheInv v" for t v
  proof (cases "\<exists>body. pp_Temporary p = Some (Some body)")
    case True
    then obtain body where body: "pp_Temporary p = Some (Some body)" ..
    show ?thesis
      by (rule ends_mono [OF promoteToTarget_filledBy [OF that pos body]]) (auto simp: body elim: filledBy_mono [rotated])
  next
    case False
    show ?thesis
      by (rule ends_mono [OF promoteToTarget_unreadable [OF that pos False]]) (auto elim: filledBy_mono [rotated])
  qed
  have "ends (fillTargets env (pp_PoolID p) (promoteToTarget env p now) (uniqueTargetMountIDs p) [])
    (fillOK (\<lambda>w w'. \<exists>t \<in> set (uniqueTargetMountIDs p). \<exists>body.
      pp_Temporary p = Some (Some body) \<and> fitted env p t body w w') w) w"
    by (rule fillTargets_fillOK)
      (auto intro: one steps.always_promoteToTarget pos fitted_shrinks inv)
  then show ?thesis
    using False unfolding Promote_def Let_def by (auto intro: whenCurrent_fillOK)
qed

lemma captureFromOrigin_fillOK:
  assumes inv: "cacheInv w"
  shows "ends (captureFromOrigin env p now) (fillOK (\<lambda>_ _. True) w) w"
proof (cases "pp_OriginMountID p = [] \<or> pp_ObjectKey p = [] \<or> pp_FileID p = 0 \<or> oi_Size (pp_Info p) \<le> 0")
  case True
  then show ?thesis unfolding captureFromOrigin_def by (auto intro!: ends_return)
next
  case False
  then have pos: "0 < oi_Size (pp_Info p)" by simp
  show ?thesis
  proof (cases "ParseKey (pp_ObjectKey p)")
    case (Inl e)
    with False show ?thesis unfolding captureFromOrigin_def by (auto intro!: ends_return)
  next
    case (Inr key)
    have targets: "ends (fillTargets env (pp_PoolID p) (promoteOriginToTarget env p key now) ts []) (fillOK (\<lambda>_ _. True) w) v"
      if "cacheInv v" "shrinks w v" for v ts
    proof (rule ends_mono [OF fillTargets_fillOK [where R = "\<lambda>t w w'. \<exists>body. fitted env p t body w w'"]])
      show "cacheInv v" "shrinks w v" by fact+
      show "fillOK (\<lambda>_ _. True) w r w'" if "fillOK (\<lambda>w w'. \<exists>t \<in> set ts. \<exists>body. fitted env p t body w w') w r w'" for r w'
        using that by (auto simp: fillOK_def split: sum.splits fill_outcome.splits)
    qed (auto intro: promoteOriginToTarget_filledBy steps.always_promoteOriginToTarget pos fitted_shrinks)
    have current: "ends (whenCurrent p (fillTargets env (pp_PoolID p) (promoteOriginToTarget env p key now) ts []))
        (fillOK (\<lambda>_ _. True) w) v" if "cacheInv v" "shrinks w v" for v ts
      unfolding whenCurrent_def fileCacheVersion_def
      by (intro ends_bind ends_try ends_first) (auto intro!: ends_return targets that simp: that)
    have opened: "ends (openCached env (pp_PoolID p) rq now) (\<lambda>_ v. cacheInv v \<and> shrinks w v) w" for rq
      by (intro ends_conj steps_cacheInv [OF steps.always_openCached inv] ends_always [OF shrinking.always_openCached]) simp
    from False Inr show ?thesis
      unfolding captureFromOrigin_def
      by (auto intro!: ends_bind ends_mono [OF opened] ends_return current)
  qed
qed

lemma Fill_fillOK: "cacheInv w \<Longrightarrow> ends (Fill env p now) (fillOK (\<lambda>_ _. True) w) w"
  unfolding Fill_def
  by (auto intro: captureFromOrigin_fillOK ends_mono [OF Promote_fillOK] elim: fillOK_bex_mono [rotated])

text \<open>A fill always ends in an outcome; errors are part of it.\<close>

lemma fillTargets_total: "ends (fillTargets env pool f ts errs) (\<lambda>r _. \<exists>out. r = Inr out) w"
proof (induction ts arbitrary: errs w)
  case Nil
  then show ?case by (auto intro!: ends_return)
next
  case (Cons t ts)
  have tried: "ends (tx_try (f t)) (\<lambda>r _. \<exists>x. r = Inr x) w" for w
    by (rule ends_try) (simp add: ends_def)
  have recorded: "ends (recordMembershipError a b err) (\<lambda>r _. r = Inr ()) w" for a b err w
    unfolding recordMembershipError_def by (rule ends_ignore) (simp add: ends_def)
  show ?case
    unfolding fillTargets.simps
    by (intro ends_bind ends_try [OF ends_top] ends_check)
      (auto intro!: ends_return ends_bind ends_mono [OF tried] ends_mono [OF recorded] Cons.IH split: sum.split)
qed

lemma whenCurrent_total:
  "(\<And>w. ends m (\<lambda>r _. \<exists>out. r = Inr out) w) \<Longrightarrow> ends (whenCurrent p m) (\<lambda>r _. \<exists>out. r = Inr out) w"
  unfolding whenCurrent_def fileCacheVersion_def
  by (intro ends_bind ends_try ends_first) (auto intro!: ends_return)

lemma ends_ignored: "ends (tx_ignore m) (\<lambda>r _. r = Inr ()) w"
  by (rule ends_ignore, rule ends_top) simp

lemma openCached_total: "ends (openCached env pool rq now) (\<lambda>r _. \<exists>x. r = Inr x) w"
proof -
  have dropped: "ends (tx_bind (dropEntry e d) (\<lambda>_. tx_return None)) (\<lambda>r _. \<exists>x. r = Inr x) w" for e d w
  proof -
    have "ends (dropEntry e d) (\<lambda>r _. r = Inr ()) w"
      unfolding dropEntry_def deleteEntryObject_def
      by (intro ends_bind ends_mono [OF ends_ignored]) (auto intro!: ends_return ends_mono [OF ends_ignored])
    then show ?thesis by (intro ends_bind) (auto elim!: ends_mono intro!: ends_return)
  qed
  have entry: "ends (openEntry rq now e) (\<lambda>r _. \<exists>x. r = Inr x) w" for e w
    unfolding openEntry_def
    by (intro ends_bind ends_try ends_first)
      (auto intro!: ends_bind ends_peek ends_poke ends_try ends_storeOpen ends_return dropped split: sum.split)
  show ?thesis
    unfolding openCached_def
    by (intro ends_bind ends_try ends_first) (auto intro!: ends_return entry)
qed

lemma Fill_total: "ends (Fill env p now) (\<lambda>r _. \<exists>out. r = Inr out) w"
  unfolding Fill_def Promote_def captureFromOrigin_def Let_def
  by (auto intro!: ends_return ends_bind ends_mono [OF openCached_total] whenCurrent_total fillTargets_total
      split: sum.split)

section \<open>Claims\<close>

definition memory :: "cache_state \<Rightarrow> string list \<times> int" where
  "memory w = (cs_active w, cs_reserved w)"

interpretation remembering: kept_by_fill "\<lambda>w. memory w = (A, R)" for A R
proof
  show "always (\<lambda>w. memory w = (A, R)) (commitPromotion e)" for e
    unfolding always_def
  proof (intro allI impI)
    fix w fs assume "memory w = (A, R)"
    then show "memory (fst (snd (commitPromotion e (w, fs)))) = (A, R)"
      by (cases "commitPromotion e (w, fs)") (auto elim!: commitPromotion_cases simp: memory_def upsertEntry_def)
  qed
qed (simp_all add: memory_def memberError_def deleteEntry_def)

text \<open>What is left to do when the response of an open is closed.\<close>

definition finishOpen ::
  "cache_env \<Rightarrow> capture_plan fill_start \<Rightarrow> bool \<Rightarrow> string option \<Rightarrow> bool \<Rightarrow> time \<Rightarrow> unit cache_tx" where
  "finishOpen env start started content enqueued now =
     (case start of
        StartCapture plan \<Rightarrow> captureDone env plan started content enqueued now
      | StartDirect key p \<Rightarrow> fillWithoutResponseCapture env key p enqueued now
      | StartNothing \<Rightarrow> tx_return ())"

text \<open>The claim and the bytes an open holds until then.\<close>

definition holds :: "capture_plan fill_start \<Rightarrow> string list \<times> int \<Rightarrow> string list \<times> int \<Rightarrow> bool" where
  "holds start before after \<longleftrightarrow>
     (case start of
        StartCapture plan \<Rightarrow> cp_claimKey plan \<notin> set (fst before) \<and> after = (cp_claimKey plan # fst before, snd before + cp_held plan)
      | StartDirect key p \<Rightarrow> key \<notin> set (fst before) \<and> after = (key # fst before, snd before)
      | StartNothing \<Rightarrow> after = before)"

definition opened :: "cache_state \<Rightarrow> media_error txerr + 'a \<times> 'b \<times> capture_plan fill_start \<Rightarrow> cache_state \<Rightarrow> bool" where
  "opened w r w' \<longleftrightarrow> (case r of Inl _ \<Rightarrow> memory w' = memory w | Inr (_, _, start) \<Rightarrow> holds start (memory w) (memory w'))"

lemma opened_simps [simp]:
  "opened w (Inl e) w' \<longleftrightarrow> memory w' = memory w"
  "opened w (Inr (a, b, StartNothing)) w' \<longleftrightarrow> memory w' = memory w"
  "opened w (Inr (a, b, StartDirect key p)) w' \<longleftrightarrow> key \<notin> set (cs_active w) \<and> memory w' = (key # cs_active w, cs_reserved w)"
  "opened w (Inr (a, b, StartCapture plan)) w' \<longleftrightarrow> cp_claimKey plan \<notin> set (cs_active w) \<and>
     memory w' = (cp_claimKey plan # cs_active w, cs_reserved w + cp_held plan)"
  by (simp_all add: opened_def holds_def memory_def)

lemma ends_cacheConfigured: "(\<And>b. Q (Inr b) w) \<Longrightarrow> ends (cacheConfigured p) Q w"
  unfolding cacheConfigured_def by (auto intro!: ends_return ends_bind ends_try ends_select)

lemma openOrigin_opened: "ends (openOrigin env rq poolID tmp) (opened w) w"
proof -
  have claim: "fst (claimFill k w) \<Longrightarrow> k \<notin> set (cs_active w) \<and> snd (claimFill k w) = w\<lparr>cs_active := k # cs_active w\<rparr>" for k
    by (auto simp: claimFill_def split: if_splits)
  have reserve: "fst (reserveWorkspace env n v) = Some h \<Longrightarrow>
      snd (reserveWorkspace env n v) = v\<lparr>cs_reserved := cs_reserved v + h\<rparr>" for n v h
    by (auto simp: reserveWorkspace_def split: option.splits if_splits prod.splits)
  show ?thesis
    unfolding openOrigin_def Let_def targets_def fileCacheVersion_def
    by (intro ends_bind ends_peek ends_reject ends_storeOpen)
      (auto simp: memory_def claim reserve split: option.split
        intro!: ends_bind ends_peek ends_poke ends_reject ends_storeOpen ends_return ends_try ends_first ends_select
          ends_cacheConfigured)
qed

lemma OpenWithResult_opened: "ends (OpenWithResult env rq tmp now) (opened w) w"
proof -
  have looked: "ends (if pool = 0 then tx_return None else openCached env pool rq now) (\<lambda>_ v. memory v = memory w) w" for pool
    by (rule ends_always) (auto intro!: tx_always remembering.always_openCached
      [where A = "fst (memory w)" and R = "snd (memory w)", simplified])
  have fetched: "ends (openOrigin env rq pool tmp) (opened w) v" if "memory v = memory w" for pool v
    by (rule ends_mono [OF openOrigin_opened]) (simp add: opened_def that split: sum.splits prod.splits)
  show ?thesis
    unfolding OpenWithResult_def
    by (auto intro!: ends_bind ends_fail ends_return ends_try ends_select ends_mono [OF looked] ends_mono [OF fetched]
        simp: opened_def holds_def split: option.split sum.splits)
qed

lemma promoteAsync_done:
  "ends (promoteAsync env k p enq now) (\<lambda>r w'. r = Inr () \<and> memory w' = (removeAll k (cs_active w), cs_reserved w)) w"
proof -
  have total: "ends (Fill env p now) (\<lambda>r v. (\<exists>out. r = Inr out) \<and> memory v = memory w) w"
  proof (rule ends_conj)
    show "ends (Fill env p now) (\<lambda>_ v. memory v = memory w) w"
      by (rule ends_always [OF remembering.always_Fill [where A = "fst (memory w)" and R = "snd (memory w)", simplified]])
        simp
    show "ends (Fill env p now) (\<lambda>r v. \<exists>out. r = Inr out) w"
      by (rule Fill_total)
  qed
  have record': "ends (case out of FillFailed errs \<Rightarrow> if enq then tx_return ()
      else recordMembershipError pool t (cv_errorText env (hd errs)) | _ \<Rightarrow> tx_return ())
      (\<lambda>r u. r = Inr () \<and> memory u = memory v) v" for out pool t v
    unfolding recordMembershipError_def updateMembers_def
    by (auto intro!: ends_return ends_ignore ends_update simp: memory_def split: fill_outcome.split)
  show ?thesis
    unfolding promoteAsync_def
    by (auto intro!: ends_bind ends_peek ends_poke ends_mono [OF total] ends_mono [OF record']
        simp: memory_def releaseFill_def)
qed

lemma finishOpen_done:
  assumes "holds start (A, R) (memory w)"
  shows "ends (finishOpen env start started content enq now) (\<lambda>r w'. r = Inr () \<and> memory w' = (A, R)) w"
proof -
  have direct: "ends (fillWithoutResponseCapture env k p enq now) (\<lambda>r w'. r = Inr () \<and> cs_active w' = A \<and> cs_reserved w' = cs_reserved v) v"
    if "k \<notin> set A" "cs_active v = k # A" for k p v
    unfolding fillWithoutResponseCapture_def
    using that by (auto intro!: ends_poke ends_mono [OF promoteAsync_done] simp: memory_def releaseFill_def)
  have async: "ends (promoteAsync env k p enq now) (\<lambda>r w'. r = Inr () \<and> cs_active w' = A \<and> cs_reserved w' = cs_reserved v) v"
    if "k \<notin> set A" "cs_active v = k # A" for k p v
    using that by (auto intro!: ends_mono [OF promoteAsync_done] simp: memory_def)
  show ?thesis
    using assms unfolding finishOpen_def holds_def captureDone_def
    by (cases start)
      (auto intro!: ends_bind ends_poke ends_return
        simp: memory_def releaseWorkspace_def releaseFill_def split: option.split
        intro: ends_mono [OF direct] ends_mono [OF async])
qed

section \<open>Properties\<close>

text \<open>C21: Once InvalidateFile has succeeded for a file of some generation, then after any further
  interleaving of cache operations, with any statements failing, every hit is a servable entry
  with its recorded object and, if it belongs to that file, is filed under a generation greater
  than the invalidated one: no entry filed under that generation or an earlier one is served
  again. It says nothing of the age of the bytes: a fill reads the generation after it has
  opened the origin, so an entry of the new generation may hold a body opened before (see the
  findings).\<close>

theorem invalidation_final:
  assumes "cacheInit w0" "cache_step\<^sup>*\<^sup>* w0 w" "generationOf f w = Some v" "f \<noteq> 0"
    and "InvalidateFile f (w, fs) = (Inr (), w1, fs1)" and "cache_step\<^sup>*\<^sup>* w1 w2"
    and "openCached env pool rq now (w2, fs2) = (Inr (Some hit), w3, fs3)"
  shows "\<exists>e \<in> set (cw_entries w2). hitOf rq w2 e hit \<and> servable env pool rq w2 e \<and>
    (ce_FileID e = f \<longrightarrow> v < ce_FileCacheVersion e)"
proof -
  have "cacheInv w" using assms(1,2) by (rule cache.reachable_inv)
  then have "sealed f v w1 \<and> cacheInv w1"
    using invalidation_seals [OF assms(5,4) _ assms(3)] by simp
  then have sealed: "sealed f v w2" using sealed_steps [OF assms(6)] by blast
  from openCached_hit [OF assms(7)] obtain e where
    e: "find (servable env pool rq w2) (cw_entries w2) = Some e" "hitOf rq w2 e hit" by blast
  from find_key_SomeD [OF e(1)] sealed e(2) show ?thesis
    by (auto simp: sealed_def servable_def)
qed

theorem invalidation_final_witness:
  "\<exists>hit. fst (openCached demoEnv 1 demoRequest 9 (demoRefilled, [])) = Inr (Some hit) \<and>
    (\<exists>e \<in> set (cw_entries demoRefilled). hitOf demoRequest demoRefilled e hit \<and>
      servable demoEnv 1 demoRequest demoRefilled e \<and> (ce_FileID e = 1 \<longrightarrow> 0 < ce_FileCacheVersion e))"
proof -
  have "case openCached demoEnv 1 demoRequest 9 (demoRefilled, []) of (Inr (Some _), _) \<Rightarrow> True | _ \<Rightarrow> False"
    by code_simp
  then obtain hit w3 fs3 where hit: "openCached demoEnv 1 demoRequest 9 (demoRefilled, []) = (Inr (Some hit), w3, fs3)"
    by (auto split: prod.splits sum.splits option.splits)
  have gen: "generationOf 1 demoFilled = Some 0" by code_simp
  show ?thesis
    using hit invalidation_final [OF demo_init demo_reach_filled gen _ demo_invalidate demo_reach_refilled hit] by auto
qed

text \<open>C24: When pruneMembership succeeds for an incoming object, the bytes still used on the mount
  plus the incoming ones are at most the high watermark of its budget, and every entry it
  evicted is at most as recently used as every entry it kept.\<close>

theorem eviction_makes_room:
  assumes "cacheInit w0" "cache_step\<^sup>*\<^sup>* w0 w"
    and "pruneMembership env m storeID incoming (w, fs) = (Inr (), w', fs')" and "0 < incoming"
  shows "usedBytes (mb_PoolID m) (mb_MountID m) w' + incoming \<le> highWatermark (mb_CacheMaxBytes m) \<and>
    (\<forall>e \<in> set (entriesOn (mb_PoolID m) (mb_MountID m) w) - set (entriesOn (mb_PoolID m) (mb_MountID m) w').
       \<forall>e' \<in> set (entriesOn (mb_PoolID m) (mb_MountID m) w'). lruKey e \<le> lruKey e')"
proof -
  have "cacheInv w" using assms(1,2) by (rule cache.reachable_inv)
  from madeRoom_watermark [OF this assms(3,4)] show ?thesis by (simp add: madeRoom_def Let_def)
qed

theorem eviction_makes_room_witness:
  "usedBytes 1 2 (fst (snd (pruneMembership demoEnv (cw_members demoWorld ! 1) ''c'' 15 (demoFilled, [])))) + 15
     \<le> highWatermark 20"
proof -
  have run: "pruneMembership demoEnv (cw_members demoWorld ! 1) ''c'' 15 (demoFilled, []) =
    (Inr (), fst (snd (pruneMembership demoEnv (cw_members demoWorld ! 1) ''c'' 15 (demoFilled, []))), [])"
    by (rule run_eq) code_simp+
  from eviction_makes_room [OF demo_init demo_reach_filled run] show ?thesis
    by (simp add: demoWorld_def)
qed

text \<open>C22: When Promote succeeds from a reachable state, one of the payload's target mounts holds a
  live entry of the payload's object, generation and size, the bytes the provider landed for the
  captured body are stored under the entry's key with that size, no other entry has become live,
  and the bytes used on the mount stay within its high watermark.\<close>

theorem promotion_fits:
  assumes "cacheInit w0" "cache_step\<^sup>*\<^sup>* w0 w" and "Promote env p now (w, fs) = (Inr Filled, w', fs')"
  shows "\<exists>t \<in> set (uniqueTargetMountIDs p). \<exists>body. pp_Temporary p = Some (Some body) \<and> fitted env p t body w w'"
proof -
  have "cacheInv w" using assms(1,2) by (rule cache.reachable_inv)
  from endsD [OF Promote_fillOK [OF this] assms(3)] show ?thesis by simp
qed

theorem promotion_fits_witness:
  "\<exists>t \<in> set (uniqueTargetMountIDs (demoPayload (Some ''abcd'') 0)). \<exists>body.
    pp_Temporary (demoPayload (Some ''abcd'') 0) = Some (Some body) \<and>
    fitted demoEnv (demoPayload (Some ''abcd'') 0) t body demoWorld demoFilled"
proof -
  have "Promote demoEnv (demoPayload (Some ''abcd'') 0) 7 (demoWorld, []) = (Inr Filled, demoFilled, [])"
    using demo_fill by (simp add: Fill_def demoPayload_def)
  from promotion_fits [OF demo_init rtranclp.rtrancl_refl this] show ?thesis .
qed

text \<open>C23: A Fill that ends skipped or with errors, at whatever statement or store call it failed,
  leaves no live cache entry that was not live before.\<close>

theorem failed_fill_publishes_nothing:
  assumes "cacheInit w0" "cache_step\<^sup>*\<^sup>* w0 w" and "Fill env p now (w, fs) = (Inr out, w', fs')" and "out \<noteq> Filled"
  shows "liveEntries w' \<subseteq> liveEntries w"
proof -
  have "cacheInv w" using assms(1,2) by (rule cache.reachable_inv)
  from endsD [OF Fill_fillOK [OF this] assms(3)] assms(4) show ?thesis
    by (cases out) (simp_all add: shrinks_def)
qed

theorem failed_fill_publishes_nothing_witness:
  "liveEntries (fst (snd (Fill demoEnv (demoPayload (Some ''abcd'') 0) 9 (demoInvalidated, [])))) \<subseteq> liveEntries demoInvalidated"
  by (rule failed_fill_publishes_nothing [OF demo_init demo_reach_invalidated demo_stale]) simp

text \<open>C29: However an open of an object and the fill it starts go on, once the response is closed
  and the fill has ended the set of claimed fills and the reserved workspace bytes are what they
  were before, and a capture is only started for an object nobody else is filling.\<close>

theorem open_gives_back:
  assumes "OpenWithResult env rq temporary now (w, fs) = (Inr (object, result, start), w1, fs1)"
    and "finishOpen env start started content enqueued later (w1, fs2) = (r, w2, fs3)"
  shows "r = Inr () \<and> cs_active w2 = cs_active w \<and> cs_reserved w2 = cs_reserved w \<and>
    (\<forall>plan. start = StartCapture plan \<longrightarrow> cp_claimKey plan \<notin> set (cs_active w))"
proof -
  from endsD [OF OpenWithResult_opened assms(1)] have held: "holds start (memory w) (memory w1)"
    by (simp add: opened_def)
  from endsD [OF finishOpen_done [of start "fst (memory w)" "snd (memory w)", simplified, OF held] assms(2)] held
  show ?thesis by (auto simp: memory_def holds_def)
qed

theorem open_gives_back_witness:
  "\<exists>start w1. fst (snd (OpenWithResult demoEnv demoRequest True 5 (demoWorld, []))) = w1 \<and>
    start \<noteq> StartNothing \<and> cs_active w1 \<noteq> [] \<and>
    cs_active (fst (snd (finishOpen demoEnv start True (Some ''abcd'') False 6 (w1, [])))) = []"
proof -
  obtain x w1 fs1 where x: "OpenWithResult demoEnv demoRequest True 5 (demoWorld, []) = (x, w1, fs1)"
    by (cases "OpenWithResult demoEnv demoRequest True 5 (demoWorld, [])") auto
  have "case OpenWithResult demoEnv demoRequest True 5 (demoWorld, []) of
      (Inr (_, _, start), w1, _) \<Rightarrow> start \<noteq> StartNothing \<and> cs_active w1 \<noteq> [] | _ \<Rightarrow> False"
    by code_simp
  with x obtain object result start where
    run: "OpenWithResult demoEnv demoRequest True 5 (demoWorld, []) = (Inr (object, result, start), w1, fs1)"
    and held: "start \<noteq> StartNothing" "cs_active w1 \<noteq> []"
    by (cases x) auto
  obtain r w2 fs3 where fin: "finishOpen demoEnv start True (Some ''abcd'') False 6 (w1, []) = (r, w2, fs3)"
    by (cases "finishOpen demoEnv start True (Some ''abcd'') False 6 (w1, [])") auto
  have "cs_active demoWorld = []" by (simp add: demoWorld_def)
  with open_gives_back [OF run fin] run held fin show ?thesis by auto
qed

end
