(* ===== verification/LibTree.thy ===== *)
theory LibTree
  imports Prelude
begin

text \<open>
  The library of folders and links (\<^verbatim>\<open>logic\<close>) and the shares of folders (\<^verbatim>\<open>sharing\<close>): tables, the
  operations that create, move and delete folders and links, and what a share reaches.
\<close>

section \<open>Tables\<close>

record folder_row =
  fo_ID :: nat
  fo_Name :: string
  fo_UserID :: nat
  fo_ParentFolderID :: nat
  fo_Deleted :: bool

record link_row =
  ln_ID :: nat
  ln_UUID :: string
  ln_CreationKey :: string
  ln_Name :: string
  ln_FileID :: nat
  ln_UserID :: nat
  ln_ParentFolderID :: nat
  ln_Deleted :: bool

record media_file =
  mf_ID :: nat
  mf_Size :: int
  mf_Deleted :: bool

record user_row =
  us_ID :: nat
  us_Deleted :: bool

record share_row =
  sh_Token :: string
  sh_UserID :: nat
  sh_FolderID :: nat
  sh_MaxFolderSize :: int
  sh_ExpiresAt :: "time option"
  sh_Deleted :: bool

datatype upload_status =
  UploadCreated | UploadUploading | UploadUploaded | UploadImporting | UploadDone | UploadFailed | UploadCanceled | UploadExpired

record upload_row =
  up_UserID :: nat
  up_ParentFolderID :: nat
  up_ClientUploadUUID :: string
  up_ExpectedSize :: int
  up_QuotaBytes :: int
  up_Status :: upload_status
  up_ExpiresAt :: "time option"
  up_Deleted :: bool

text \<open>\<open>lb_active\<close> and \<open>lb_block\<close> are the request gate of \<^verbatim>\<open>app/runtime.go\<close>.\<close>

record library =
  lb_users :: "user_row list"
  lb_files :: "media_file list"
  lb_folders :: "folder_row list"
  lb_links :: "link_row list"
  lb_shares :: "share_row list"
  lb_uploads :: "upload_row list"
  lb_nextFolder :: nat
  lb_nextLink :: nat
  lb_active :: "nat list"
  lb_block :: bool

text \<open>An error with its HTTP status; \<open>Unbounded\<close> stands for running out of fuel.\<close>

datatype lib_error = HttpError nat string | ErrUnavailable | ErrOutsideShare | Unbounded

type_synonym 'a lib_tx = "(library, lib_error, 'a) tx"

definition liveFolders :: "library \<Rightarrow> folder_row list" where
  "liveFolders w = filter (\<lambda>f. \<not> fo_Deleted f) (lb_folders w)"

definition liveLinks :: "library \<Rightarrow> link_row list" where
  "liveLinks w = filter (\<lambda>l. \<not> ln_Deleted l) (lb_links w)"

definition folderById :: "nat \<Rightarrow> library \<Rightarrow> folder_row option" where
  "folderById i w = find (\<lambda>f. fo_ID f = i) (liveFolders w)"

definition linkById :: "nat \<Rightarrow> library \<Rightarrow> link_row option" where
  "linkById i w = find (\<lambda>l. ln_ID l = i) (liveLinks w)"

definition httpStatus :: "lib_error txerr \<Rightarrow> nat" where
  "httpStatus e = (case e of App (HttpError code _) \<Rightarrow> code | _ \<Rightarrow> 500)"

section \<open>The request gate\<close>

definition Blocked :: "nat \<Rightarrow> library \<Rightarrow> bool" where
  "Blocked userID w \<longleftrightarrow> lb_block w \<or> userID \<in> set (lb_active w)"

definition TryStart :: "nat \<Rightarrow> library \<Rightarrow> bool \<times> library" where
  "TryStart userID w = (if Blocked userID w then (False, w)
     else (True, w\<lparr>lb_active := userID # lb_active w\<rparr>))"

definition End :: "nat \<Rightarrow> library \<Rightarrow> library" where
  "End userID w = w\<lparr>lb_active := removeAll userID (lb_active w)\<rparr>"

definition Sync :: "bool \<Rightarrow> library \<Rightarrow> library" where
  "Sync force w = w\<lparr>lb_active := (if force then [] else lb_active w), lb_block := False\<rparr>"

section \<open>Creating\<close>

definition ValidateFolderDestination :: "nat \<Rightarrow> nat \<Rightarrow> unit lib_tx" where
  "ValidateFolderDestination parentFolderID userID =
     (if parentFolderID = 0 then tx_return ()
      else tx_bind (tx_catch (tx_first (\<lambda>w. find (\<lambda>f. fo_ID f = parentFolderID \<and> fo_UserID f = userID) (liveFolders w)))
          (\<lambda>e. if e = RecordNotFound then tx_fail (App (HttpError 400 ''parent folder doesn't exist'')) else tx_fail e))
        (\<lambda>_. tx_return ()))"

definition insertFolder :: "string \<Rightarrow> nat \<Rightarrow> nat \<Rightarrow> library \<Rightarrow> library" where
  "insertFolder name parent userID w = w\<lparr>
     lb_folders := lb_folders w @ [\<lparr>fo_ID = lb_nextFolder w, fo_Name = name, fo_UserID = userID,
       fo_ParentFolderID = parent, fo_Deleted = False\<rparr>],
     lb_nextFolder := lb_nextFolder w + 1\<rparr>"

definition CreateFolder :: "string \<Rightarrow> nat \<Rightarrow> nat \<Rightarrow> nat lib_tx" where
  "CreateFolder folderName toFolder userId = transaction
     (tx_bind (ValidateFolderDestination toFolder userId) (\<lambda>_.
      tx_bind (tx_select lb_nextFolder) (\<lambda>i.
      tx_bind (tx_update (insertFolder folderName toFolder userId)) (\<lambda>_. tx_return i))))"

text \<open>A row that links a file into a folder; a link with a creation key is unique.\<close>

definition insertLink :: "link_row \<Rightarrow> library \<Rightarrow> library" where
  "insertLink l w = w\<lparr>lb_links := lb_links w @ [l\<lparr>ln_ID := lb_nextLink w, ln_Deleted := False\<rparr>],
     lb_nextLink := lb_nextLink w + 1\<rparr>"

definition createLink :: "link_row \<Rightarrow> unit lib_tx" where
  "createLink l = tx_stmt (\<lambda>w.
     if ln_CreationKey l \<noteq> [] \<and> ln_CreationKey l \<in> ln_CreationKey ` set (lb_links w) then Inl DuplicatedKey
     else Inr ((), insertLink l w))"

definition saveLink :: "link_row \<Rightarrow> unit lib_tx" where
  "saveLink l = transaction
     (tx_bind (ValidateFolderDestination (ln_ParentFolderID l) (ln_UserID l)) (\<lambda>_. createLink l))"

section \<open>Moving\<close>

text \<open>The walk from the target to the root. The visited set bounds it by the number of folders.\<close>

fun containsWalk :: "nat \<Rightarrow> nat \<Rightarrow> nat \<Rightarrow> nat list \<Rightarrow> bool lib_tx" where
  "containsWalk 0 folderID current visited = tx_fail (App Unbounded)"
| "containsWalk (Suc n) folderID current visited =
     (if current = 0 then tx_return False
      else if current \<in> set visited then tx_fail (App (HttpError 500 ''folder hierarchy contains a cycle''))
      else tx_bind (tx_first (folderById current)) (\<lambda>f.
        if fo_ParentFolderID f = folderID then tx_return True
        else containsWalk n folderID (fo_ParentFolderID f) (current # visited)))"

definition folderContainsFolder :: "nat \<Rightarrow> nat \<Rightarrow> bool lib_tx" where
  "folderContainsFolder folderID searchingFolderID =
     tx_bind (tx_peek (\<lambda>w. length (lb_folders w))) (\<lambda>n.
     containsWalk (n + 2) folderID searchingFolderID [])"

definition owned :: "bool \<Rightarrow> nat \<Rightarrow> nat \<Rightarrow> bool" where
  "owned isAdmin userId ownerID \<longleftrightarrow> isAdmin \<or> ownerID = userId"

definition firstOr :: "(library \<Rightarrow> 'a option) \<Rightarrow> string \<Rightarrow> 'a lib_tx" where
  "firstOr f message = tx_catch (tx_first f) (\<lambda>_. tx_fail (App (HttpError 400 message)))"

definition ownedFolder :: "bool \<Rightarrow> nat \<Rightarrow> nat \<Rightarrow> library \<Rightarrow> folder_row option" where
  "ownedFolder isAdmin userId i w = find (\<lambda>f. fo_ID f = i \<and> owned isAdmin userId (fo_UserID f)) (liveFolders w)"

definition ownedLink :: "bool \<Rightarrow> nat \<Rightarrow> nat \<Rightarrow> library \<Rightarrow> link_row option" where
  "ownedLink isAdmin userId i w = find (\<lambda>l. ln_ID l = i \<and> owned isAdmin userId (ln_UserID l)) (liveLinks w)"

definition checkFolderMove :: "bool \<Rightarrow> nat \<Rightarrow> nat \<Rightarrow> nat \<Rightarrow> nat \<Rightarrow> unit lib_tx" where
  "checkFolderMove isAdmin userId targetId targetOwner folderId =
     tx_bind (tx_reject (folderId = targetId) (HttpError 400 ''cannot move folder into itself'')) (\<lambda>_.
     tx_bind (firstOr (ownedFolder isAdmin userId folderId) ''folder to move not found'') (\<lambda>folder.
     tx_bind (tx_reject (0 < targetId \<and> fo_UserID folder \<noteq> targetOwner)
       (HttpError 400 ''cannot move folder to a destination owned by another user'')) (\<lambda>_.
     if 0 < targetId
     then tx_bind (folderContainsFolder folderId targetId) (\<lambda>found.
       tx_reject found (HttpError 400 ''cannot move parent folder into its child''))
     else tx_return ())))"

definition checkLinkMove :: "bool \<Rightarrow> nat \<Rightarrow> nat \<Rightarrow> nat \<Rightarrow> nat \<Rightarrow> unit lib_tx" where
  "checkLinkMove isAdmin userId targetId targetOwner linkId =
     tx_bind (firstOr (ownedLink isAdmin userId linkId) ''file to move not found'') (\<lambda>link.
     tx_reject (0 < targetId \<and> ln_UserID link \<noteq> targetOwner)
       (HttpError 400 ''cannot move file to a destination owned by another user''))"

definition setFolderParent :: "nat \<Rightarrow> nat \<Rightarrow> library \<Rightarrow> library" where
  "setFolderParent target i w = w\<lparr>lb_folders := update_where (\<lambda>f. fo_ID f = i \<and> \<not> fo_Deleted f)
     (\<lambda>f. f\<lparr>fo_ParentFolderID := target\<rparr>) (lb_folders w)\<rparr>"

definition setLinkParent :: "nat \<Rightarrow> nat \<Rightarrow> library \<Rightarrow> library" where
  "setLinkParent target i w = w\<lparr>lb_links := update_where (\<lambda>l. ln_ID l = i \<and> \<not> ln_Deleted l)
     (\<lambda>l. l\<lparr>ln_ParentFolderID := target\<rparr>) (lb_links w)\<rparr>"

definition moveBody :: "nat \<Rightarrow> nat \<Rightarrow> nat list \<Rightarrow> nat list \<Rightarrow> bool \<Rightarrow> unit lib_tx" where
  "moveBody userId targetId folderIds linkIds isAdmin =
     tx_bind (if 0 < targetId
       then tx_bind (firstOr (ownedFolder isAdmin userId targetId) ''target folder doesn't exist'') (\<lambda>f. tx_return (fo_UserID f))
       else tx_return 0) (\<lambda>targetOwner.
     tx_bind (tx_foreach (checkFolderMove isAdmin userId targetId targetOwner) folderIds) (\<lambda>_.
     tx_bind (tx_foreach (checkLinkMove isAdmin userId targetId targetOwner) linkIds) (\<lambda>_.
     tx_bind (tx_foreach (\<lambda>i. tx_update (setFolderParent targetId i)) folderIds) (\<lambda>_.
     tx_foreach (\<lambda>i. tx_update (setLinkParent targetId i)) linkIds))))"

definition MoveItems :: "nat \<Rightarrow> nat \<Rightarrow> nat list \<Rightarrow> nat list \<Rightarrow> bool \<Rightarrow> unit lib_tx" where
  "MoveItems userId targetId folderIds linkIds isAdmin =
     (if folderIds = [] \<and> linkIds = [] then tx_fail (App (HttpError 400 ''no items selected to move''))
      else transaction (moveBody userId targetId folderIds linkIds isAdmin))"

section \<open>Deleting\<close>

definition deletionBatchSize :: nat where "deletionBatchSize = 500"

function chunks :: "'a list \<Rightarrow> 'a list list" where
  "chunks [] = []"
| "chunks (x # xs) = take deletionBatchSize (x # xs) # chunks (drop deletionBatchSize (x # xs))"
  by pat_completeness auto
termination by (relation "measure length") (auto simp: deletionBatchSize_def)

definition deleteFolders :: "nat list \<Rightarrow> bool \<Rightarrow> nat \<Rightarrow> nat lib_tx" where
  "deleteFolders ids isAdmin userID = tx_stmt (\<lambda>w.
     let p = (\<lambda>f. fo_ID f \<in> set ids \<and> \<not> fo_Deleted f \<and> owned isAdmin userID (fo_UserID f))
     in Inr (affected p (lb_folders w), w\<lparr>lb_folders := update_where p (\<lambda>f. f\<lparr>fo_Deleted := True\<rparr>) (lb_folders w)\<rparr>))"

definition deleteLinks :: "nat list \<Rightarrow> bool \<Rightarrow> nat \<Rightarrow> nat lib_tx" where
  "deleteLinks ids isAdmin userID = tx_stmt (\<lambda>w.
     let p = (\<lambda>l. ln_ID l \<in> set ids \<and> \<not> ln_Deleted l \<and> owned isAdmin userID (ln_UserID l))
     in Inr (affected p (lb_links w), w\<lparr>lb_links := update_where p (\<lambda>l. l\<lparr>ln_Deleted := True\<rparr>) (lb_links w)\<rparr>))"

definition deleteLinksInTransaction :: "link_row list \<Rightarrow> nat \<Rightarrow> bool \<Rightarrow> unit lib_tx" where
  "deleteLinksInTransaction links userID isAdmin =
     (if list_ex (\<lambda>l. \<not> owned isAdmin userID (ln_UserID l)) links
      then tx_fail (App (HttpError 403 ''file belongs to another user''))
      else tx_foreach (\<lambda>batch. tx_bind (deleteLinks batch isAdmin userID) (\<lambda>n.
        tx_reject (n \<noteq> length batch) (HttpError 403 ''file ownership changed during deletion'')))
        (chunks (map ln_ID links)))"

text \<open>The roots of a deletion: distinct, existing, owned, with one parent.\<close>

fun collectRoots :: "nat \<Rightarrow> bool \<Rightarrow> nat option \<Rightarrow> nat list \<Rightarrow> nat list \<Rightarrow> nat list lib_tx" where
  "collectRoots userID isAdmin parent [] visited = tx_return visited"
| "collectRoots userID isAdmin parent (r # rs) visited =
     (if r \<in> set visited
      then tx_fail (App (HttpError 400 (''the folders have to be distinct. Folder '' @ digits r @ '' is dublicate'')))
      else tx_bind (tx_catch (tx_first (folderById r))
          (\<lambda>e. if e = RecordNotFound then tx_fail (App (HttpError 400 (''FolderID ('' @ digits r @ '') doesn't exist'')))
            else tx_fail e)) (\<lambda>f.
        if \<not> owned isAdmin userID (fo_UserID f)
        then tx_fail (App (HttpError 400 (''FolderID ('' @ digits r @ '') doesn't exist'')))
        else case parent of
          Some p \<Rightarrow> if fo_ParentFolderID f \<noteq> p
            then tx_fail (App (HttpError 400 (''all folders have to share the same parent folder. Folder '' @ digits r @
              '' doesnt: '' @ digits p @ '' (required) vs '' @ digits (fo_ParentFolderID f) @ '' (actual)'')))
            else collectRoots userID isAdmin parent rs (visited @ [fo_ID f])
        | None \<Rightarrow> collectRoots userID isAdmin (Some (fo_ParentFolderID f)) rs (visited @ [fo_ID f])))"

text \<open>One batch of a level: the links in it and the children not seen before.\<close>

fun visitChildren ::
  "nat \<Rightarrow> bool \<Rightarrow> folder_row list \<Rightarrow> nat list \<Rightarrow> nat list \<Rightarrow> (nat list \<times> nat list) lib_tx" where
  "visitChildren userID isAdmin [] visited next' = tx_return (visited, next')"
| "visitChildren userID isAdmin (c # cs) visited next' =
     (if \<not> owned isAdmin userID (fo_UserID c)
      then tx_fail (App (HttpError 403 ''folder contains a folder owned by another user''))
      else if fo_ID c \<in> set visited then visitChildren userID isAdmin cs visited next'
      else visitChildren userID isAdmin cs (fo_ID c # visited) (next' @ [fo_ID c]))"

definition childFolders :: "nat list \<Rightarrow> library \<Rightarrow> folder_row list" where
  "childFolders batch w = filter (\<lambda>f. fo_ParentFolderID f \<in> set batch) (liveFolders w)"

definition childLinks :: "nat list \<Rightarrow> library \<Rightarrow> link_row list" where
  "childLinks batch w = filter (\<lambda>l. ln_ParentFolderID l \<in> set batch) (liveLinks w)"

fun collectLevel ::
  "nat \<Rightarrow> bool \<Rightarrow> nat list list \<Rightarrow> link_row list \<Rightarrow> nat list \<Rightarrow> nat list \<Rightarrow> (link_row list \<times> nat list \<times> nat list) lib_tx" where
  "collectLevel userID isAdmin [] links visited next' = tx_return (links, visited, next')"
| "collectLevel userID isAdmin (batch # bs) links visited next' =
     tx_bind (tx_select (childFolders batch)) (\<lambda>children.
     tx_bind (tx_select (childLinks batch)) (\<lambda>ls.
     tx_bind (tx_reject (list_ex (\<lambda>l. \<not> owned isAdmin userID (ln_UserID l)) ls)
       (HttpError 403 ''folder contains a file owned by another user'')) (\<lambda>_.
     tx_bind (visitChildren userID isAdmin children visited next') (\<lambda>(visited, next').
     collectLevel userID isAdmin bs (links @ ls) visited next'))))"

fun collectTree ::
  "nat \<Rightarrow> nat \<Rightarrow> bool \<Rightarrow> nat list \<Rightarrow> nat list \<Rightarrow> nat list \<Rightarrow> link_row list \<Rightarrow> (nat list \<times> link_row list) lib_tx" where
  "collectTree 0 userID isAdmin frontier visited folders links = tx_fail (App Unbounded)"
| "collectTree (Suc n) userID isAdmin frontier visited folders links =
     (if frontier = [] then tx_return (folders, links)
      else tx_bind (collectLevel userID isAdmin (chunks frontier) links visited []) (\<lambda>(links, visited, next').
        collectTree n userID isAdmin next' visited (folders @ frontier) links))"

definition collectFolderDeletion :: "nat list \<Rightarrow> nat \<Rightarrow> bool \<Rightarrow> (nat list \<times> link_row list) lib_tx" where
  "collectFolderDeletion roots userID isAdmin =
     tx_bind (collectRoots userID isAdmin None roots []) (\<lambda>frontier.
     tx_bind (tx_peek (\<lambda>w. length (lb_folders w))) (\<lambda>n.
     collectTree (n + 2) userID isAdmin frontier frontier [] []))"

definition deleteFoldersBody :: "nat list \<Rightarrow> nat \<Rightarrow> bool \<Rightarrow> link_row list lib_tx" where
  "deleteFoldersBody roots userID isAdmin =
     tx_bind (collectFolderDeletion roots userID isAdmin) (\<lambda>(folders, links).
     tx_bind (deleteLinksInTransaction links userID isAdmin) (\<lambda>_.
     tx_bind (tx_foreach (\<lambda>batch. tx_bind (deleteFolders batch isAdmin userID) (\<lambda>n.
       tx_reject (n \<noteq> length batch) (HttpError 403 ''folder ownership changed during deletion''))) (chunks folders)) (\<lambda>_.
     tx_return links)))"

text \<open>The result is the links whose thumbnails are removed afterwards.\<close>

definition DeleteFolders :: "nat \<Rightarrow> nat list \<Rightarrow> nat \<Rightarrow> bool \<Rightarrow> link_row list lib_tx" where
  "DeleteFolders maxItems roots userID isAdmin =
     tx_bind (tx_peek (Blocked userID)) (\<lambda>blocked.
     if blocked then tx_fail (App (HttpError 429 ''wait until the previous delete request finished''))
     else tx_bind (tx_poke (snd \<circ> TryStart userID)) (\<lambda>_.
       tx_bind (tx_try (
         if roots = [] then tx_fail (App (HttpError 400 ''array FolderIDs is empty''))
         else if maxItems < length roots then tx_fail (App (HttpError 400 ''max requested items exceeded''))
         else transaction (deleteFoldersBody roots userID isAdmin))) (\<lambda>r.
       tx_bind (tx_poke (End userID)) (\<lambda>_.
       case r of Inl e \<Rightarrow> tx_fail e | Inr links \<Rightarrow> tx_return links))))"

fun requestedLinks :: "nat \<Rightarrow> bool \<Rightarrow> nat list \<Rightarrow> nat list \<Rightarrow> link_row list \<Rightarrow> link_row list lib_tx" where
  "requestedLinks userID isAdmin [] seen links = tx_return links"
| "requestedLinks userID isAdmin (i # is') seen links =
     (if i \<in> set seen
      then tx_fail (App (HttpError 400 (''the files have to be distinct. File '' @ digits i @ '' is dublicate'')))
      else tx_bind (tx_catch (tx_first (linkById i))
          (\<lambda>e. if e = RecordNotFound then tx_fail (App (HttpError 400 (''linkID ('' @ digits i @ '') doesn't exist'')))
            else tx_fail e)) (\<lambda>l.
        if \<not> owned isAdmin userID (ln_UserID l)
        then tx_fail (App (HttpError 400 (''linkID ('' @ digits i @ '') doesn't exist'')))
        else requestedLinks userID isAdmin is' (ln_ID l # seen) (links @ [l])))"

definition DeleteFiles :: "nat \<Rightarrow> nat list \<Rightarrow> nat \<Rightarrow> bool \<Rightarrow> link_row list lib_tx" where
  "DeleteFiles maxItems ids userID isAdmin =
     (if ids = [] then tx_fail (App (HttpError 400 ''array LinkIDs is empty''))
      else if maxItems < length ids then tx_fail (App (HttpError 400 ''max requested items exceeded''))
      else transaction (tx_bind (requestedLinks userID isAdmin ids [] []) (\<lambda>links.
        tx_bind (deleteLinksInTransaction links userID isAdmin) (\<lambda>_. tx_return links))))"

section \<open>Shares\<close>

definition Resolve :: "time \<Rightarrow> string \<Rightarrow> share_row lib_tx" where
  "Resolve now token =
     (if length token \<noteq> 43 then tx_fail (App ErrUnavailable)
      else tx_bind (tx_first (\<lambda>w. find (\<lambda>s. sh_Token s = token \<and> \<not> sh_Deleted s) (lb_shares w))) (\<lambda>share.
        if (case sh_ExpiresAt share of Some t \<Rightarrow> t \<le> now | None \<Rightarrow> False) then tx_fail (App ErrUnavailable)
        else tx_bind (tx_first (\<lambda>w. find (\<lambda>u. us_ID u = sh_UserID share \<and> \<not> us_Deleted u) (lb_users w))) (\<lambda>_.
          tx_bind (tx_first (\<lambda>w. find (\<lambda>f. fo_ID f = sh_FolderID share \<and> fo_UserID f = sh_UserID share) (liveFolders w))) (\<lambda>_.
          tx_return share))))"

fun shareWalk :: "nat \<Rightarrow> share_row \<Rightarrow> nat \<Rightarrow> nat list \<Rightarrow> unit lib_tx" where
  "shareWalk 0 share i seen = tx_fail (App ErrOutsideShare)"
| "shareWalk (Suc n) share i seen =
     (if i = 0 then tx_fail (App ErrOutsideShare)
      else if i \<in> set seen then tx_fail (App ErrOutsideShare)
      else tx_bind (tx_catch (tx_first (\<lambda>w. find (\<lambda>f. fo_ID f = i \<and> fo_UserID f = sh_UserID share) (liveFolders w)))
          (\<lambda>_. tx_fail (App ErrOutsideShare))) (\<lambda>f.
        if fo_ID f = sh_FolderID share then tx_return ()
        else shareWalk n share (fo_ParentFolderID f) (i # seen)))"

definition ContainsFolder :: "share_row \<Rightarrow> nat \<Rightarrow> unit lib_tx" where
  "ContainsFolder share folderID = shareWalk 256 share folderID []"

definition ContainsLink :: "share_row \<Rightarrow> string \<Rightarrow> unit lib_tx" where
  "ContainsLink share uuid =
     tx_bind (tx_catch (tx_first (\<lambda>w. find (\<lambda>l. ln_UUID l = uuid \<and> ln_UserID l = sh_UserID share) (liveLinks w)))
       (\<lambda>_. tx_fail (App ErrOutsideShare))) (\<lambda>link.
     ContainsFolder share (ln_ParentFolderID link))"

section \<open>Capacity\<close>

text \<open>The recursive query: rows are added until no live child of the owner is missing.\<close>

fun growSubtree :: "nat \<Rightarrow> share_row \<Rightarrow> library \<Rightarrow> nat list \<Rightarrow> nat list" where
  "growSubtree 0 share w ids = ids"
| "growSubtree (Suc n) share w ids =
     (let new = map fo_ID (filter (\<lambda>f. fo_UserID f = sh_UserID share \<and> fo_ParentFolderID f \<in> set ids \<and>
        fo_ID f \<notin> set ids) (liveFolders w))
      in if new = [] then ids else growSubtree n share w (ids @ new))"

definition shareSubtree :: "share_row \<Rightarrow> library \<Rightarrow> nat list" where
  "shareSubtree share w = growSubtree (length (lb_folders w) + 1) share w
     (map fo_ID (filter (\<lambda>f. fo_ID f = sh_FolderID share \<and> fo_UserID f = sh_UserID share) (liveFolders w)))"

definition uploadKey :: "nat \<Rightarrow> string \<Rightarrow> string" where
  "uploadKey userID clientUUID = (if clientUUID = [] then [] else ''upload:'' @ digits userID @ '':'' @ clientUUID)"

definition pendingUpload :: "time \<Rightarrow> share_row \<Rightarrow> string \<Rightarrow> library \<Rightarrow> upload_row \<Rightarrow> bool" where
  "pendingUpload now share excludeGroup w u \<longleftrightarrow>
     up_UserID u = sh_UserID share \<and> up_ParentFolderID u \<in> set (shareSubtree share w) \<and> \<not> up_Deleted u \<and>
     up_Status u \<in> {UploadCreated, UploadUploading, UploadUploaded, UploadImporting, UploadFailed} \<and>
     (case up_ExpiresAt u of None \<Rightarrow> True | Some t \<Rightarrow> now < t) \<and> up_ClientUploadUUID u \<noteq> excludeGroup \<and>
     \<not> list_ex (\<lambda>l. ln_UserID l = up_UserID u \<and>
        ln_CreationKey l = ''upload:'' @ digits (up_UserID u) @ '':'' @ up_ClientUploadUUID u) (liveLinks w)"

definition groupReserved :: "upload_row list \<Rightarrow> string \<Rightarrow> int" where
  "groupReserved us g =
     (let rows = filter (\<lambda>u. up_ClientUploadUUID u = g) us
      in max (fold max (map up_ExpectedSize (tl rows)) (up_ExpectedSize (hd rows))) (sum_list (map up_QuotaBytes rows)))"

record share_capacity =
  cap_Used :: int
  cap_Reserved :: int
  cap_Remaining :: int

definition capacityOf :: "time \<Rightarrow> share_row \<Rightarrow> string \<Rightarrow> library \<Rightarrow> share_capacity" where
  "capacityOf now share excludeGroup w =
     (let us = filter (pendingUpload now share excludeGroup w) (lb_uploads w);
          used = sum_list (map (\<lambda>l. sum_list (map mf_Size (filter (\<lambda>f. mf_ID f = ln_FileID l \<and> \<not> mf_Deleted f) (lb_files w))))
            (filter (\<lambda>l. ln_UserID l = sh_UserID share \<and> ln_ParentFolderID l \<in> set (shareSubtree share w)) (liveLinks w)));
          reserved = sum_list (map (groupReserved us) (remdups (map up_ClientUploadUUID us)))
      in \<lparr>cap_Used = used, cap_Reserved = reserved, cap_Remaining = max 0 (wrap64 (sh_MaxFolderSize share - used - reserved))\<rparr>)"

definition UploadCapacity :: "time \<Rightarrow> share_row \<Rightarrow> string \<Rightarrow> share_capacity lib_tx" where
  "UploadCapacity now share excludeGroup = tx_stmt (\<lambda>w. let c = capacityOf now share excludeGroup w in
     if fitsInt64 (cap_Used c) \<and> fitsInt64 (cap_Reserved c) then Inr (c, w) else Inl (DbFault ''integer overflow''))"

end
