(* ===== verification/LibInv.thy ===== *)
theory LibInv
  imports LibTree
begin

text \<open>
  The folder tree as a forest: every live folder reaches the root over live folders of its owner,
  and every live link lies in one. The walks over it, and the operations that keep it.
\<close>

section \<open>The forest\<close>

definition isFolder :: "library \<Rightarrow> folder_row \<Rightarrow> bool" where
  "isFolder w f \<longleftrightarrow> f \<in> set (lb_folders w) \<and> \<not> fo_Deleted f"

definition isLink :: "library \<Rightarrow> link_row \<Rightarrow> bool" where
  "isLink w l \<longleftrightarrow> l \<in> set (lb_links w) \<and> \<not> ln_Deleted l"

inductive rooted :: "library \<Rightarrow> nat \<Rightarrow> bool" for w where
  root: "rooted w 0"
| child: "isFolder w f \<Longrightarrow> rooted w (fo_ParentFolderID f) \<Longrightarrow> rooted w (fo_ID f)"

text \<open>\<open>inside w a i\<close>: the folder \<open>i\<close> is \<open>a\<close> or below it.\<close>

inductive inside :: "library \<Rightarrow> nat \<Rightarrow> nat \<Rightarrow> bool" for w a where
  self: "isFolder w f \<Longrightarrow> fo_ID f = a \<Longrightarrow> inside w a a"
| below: "isFolder w f \<Longrightarrow> inside w a (fo_ParentFolderID f) \<Longrightarrow> inside w a (fo_ID f)"

definition parentOK :: "library \<Rightarrow> nat \<Rightarrow> nat \<Rightarrow> bool" where
  "parentOK w parent owner \<longleftrightarrow> parent = 0 \<or> (\<exists>p. isFolder w p \<and> fo_ID p = parent \<and> fo_UserID p = owner)"

definition libInv :: "library \<Rightarrow> bool" where
  "libInv w \<longleftrightarrow> distinct (map fo_ID (lb_folders w)) \<and> distinct (map ln_ID (lb_links w)) \<and>
     (\<forall>f \<in> set (lb_folders w). 0 < fo_ID f \<and> fo_ID f < lb_nextFolder w) \<and> 0 < lb_nextFolder w \<and>
     (\<forall>l \<in> set (lb_links w). ln_ID l < lb_nextLink w) \<and>
     (\<forall>f. isFolder w f \<longrightarrow> rooted w (fo_ID f)) \<and>
     (\<forall>f. isFolder w f \<longrightarrow> parentOK w (fo_ParentFolderID f) (fo_UserID f)) \<and>
     (\<forall>l. isLink w l \<longrightarrow> parentOK w (ln_ParentFolderID l) (ln_UserID l))"

lemma folderById_Some: "folderById i w = Some f \<Longrightarrow> isFolder w f \<and> fo_ID f = i"
  by (auto simp: folderById_def liveFolders_def isFolder_def dest: find_key_SomeD)

lemma folder_unique:
  assumes "distinct (map fo_ID (lb_folders w))" "isFolder w f" "isFolder w g" "fo_ID f = fo_ID g"
  shows "f = g"
  using assms by (auto simp: isFolder_def distinct_map inj_on_def)

lemma inside_step:
  assumes "distinct (map fo_ID (lb_folders w))" "isFolder w f" "a \<noteq> fo_ID f"
  shows "inside w a (fo_ID f) \<longleftrightarrow> inside w a (fo_ParentFolderID f)"
proof
  assume "inside w a (fo_ID f)"
  then show "inside w a (fo_ParentFolderID f)"
  proof cases
    case (below g)
    with folder_unique [OF assms(1,2) below(2)] show ?thesis by simp
  qed (use assms(3) in simp)
qed (rule inside.below [OF assms(2)])

lemma inside_trans: "inside w b i \<Longrightarrow> inside w a b \<Longrightarrow> inside w a i"
  by (induction rule: inside.induct) (auto intro: inside.below)

lemma inside_folder: "inside w a i \<Longrightarrow> \<exists>f. isFolder w f \<and> fo_ID f = i"
  by (induction rule: inside.induct) auto

lemma inside_folder_root: "inside w a i \<Longrightarrow> \<exists>f. isFolder w f \<and> fo_ID f = a"
  by (induction rule: inside.induct) auto

text \<open>A forest has no cycle.\<close>

lemma rooted_no_cycle:
  assumes dist: "distinct (map fo_ID (lb_folders w))" and pos: "\<forall>f \<in> set (lb_folders w). 0 < fo_ID f"
  shows "rooted w i \<Longrightarrow> isFolder w f \<Longrightarrow> fo_ID f = i \<Longrightarrow> \<not> inside w i (fo_ParentFolderID f)"
proof (induction arbitrary: f rule: rooted.induct)
  case root
  then show ?case using pos by (auto simp: isFolder_def)
next
  case (child g)
  have fg: "f = g" by (rule folder_unique [OF dist child.prems(1) child.hyps(1) child.prems(2)])
  show ?case
  proof
    assume in_: "inside w (fo_ID g) (fo_ParentFolderID f)"
    then obtain p where p: "isFolder w p" "fo_ID p = fo_ParentFolderID g"
      using inside_folder fg by blast
    from child.IH [OF p] have no: "\<not> inside w (fo_ParentFolderID g) (fo_ParentFolderID p)" .
    have "inside w (fo_ParentFolderID g) (fo_ParentFolderID g)"
      using p by (metis inside.self)
    then have g_in: "inside w (fo_ParentFolderID g) (fo_ID g)"
      by (rule inside.below [OF child.hyps(1)])
    show False
    proof (cases "fo_ID g = fo_ID p")
      case True
      with folder_unique [OF dist child.hyps(1) p(1)] have "g = p" by simp
      with p(2) no \<open>inside w (fo_ParentFolderID g) (fo_ParentFolderID g)\<close> show False by simp
    next
      case False
      with in_ fg p inside_step [OF dist p(1), of "fo_ID g"] have "inside w (fo_ID g) (fo_ParentFolderID p)" by simp
      with g_in no inside_trans show False by blast
    qed
  qed
qed

section \<open>The walk to the root\<close>

lemma ends_folderById:
  "(\<And>e. Q (Inl e) w) \<Longrightarrow> (\<And>f. isFolder w f \<Longrightarrow> fo_ID f = i \<Longrightarrow> Q (Inr f) w) \<Longrightarrow> ends (tx_first (folderById i)) Q w"
  by (rule ends_first) (auto dest: folderById_Some)

definition strictlyInside :: "library \<Rightarrow> nat \<Rightarrow> nat \<Rightarrow> bool" where
  "strictlyInside w a i \<longleftrightarrow> (\<exists>f. isFolder w f \<and> fo_ID f = i \<and> inside w a (fo_ParentFolderID f))"

lemma strictlyInside_child:
  assumes dist: "distinct (map fo_ID (lb_folders w))" and f: "isFolder w f"
  shows "strictlyInside w a (fo_ID f) \<longleftrightarrow> inside w a (fo_ParentFolderID f)"
  unfolding strictlyInside_def using folder_unique [OF dist f] f by metis

lemma strictlyInside_parent:
  assumes dist: "distinct (map fo_ID (lb_folders w))" and f: "isFolder w f" and p: "fo_ParentFolderID f \<noteq> a"
  shows "strictlyInside w a (fo_ID f) \<longleftrightarrow> strictlyInside w a (fo_ParentFolderID f)"
proof
  assume "strictlyInside w a (fo_ID f)"
  then have *: "inside w a (fo_ParentFolderID f)" by (simp add: strictlyInside_child [OF dist f])
  then obtain g where g: "isFolder w g" "fo_ID g = fo_ParentFolderID f" using inside_folder by blast
  with * p inside_step [OF dist g(1)] have "inside w a (fo_ParentFolderID g)" by auto
  with strictlyInside_child [OF dist g(1)] g(2) show "strictlyInside w a (fo_ParentFolderID f)" by simp
next
  assume "strictlyInside w a (fo_ParentFolderID f)"
  then obtain g where "isFolder w g" "fo_ID g = fo_ParentFolderID f" "inside w a (fo_ParentFolderID g)"
    by (auto simp: strictlyInside_def)
  then have "inside w a (fo_ParentFolderID f)" using inside.below by fastforce
  then show "strictlyInside w a (fo_ID f)" by (simp add: strictlyInside_child [OF dist f])
qed

definition walked :: "library \<Rightarrow> nat \<Rightarrow> nat \<Rightarrow> lib_error txerr + bool \<Rightarrow> library \<Rightarrow> bool" where
  "walked w a i r w' \<longleftrightarrow> w' = w \<and> (\<forall>b. r = Inr b \<longrightarrow> b = strictlyInside w a i)"

lemma walked_error [simp]: "walked w a i (Inl e) w' \<longleftrightarrow> w' = w"
  by (simp add: walked_def)

lemma containsWalk_result:
  assumes dist: "distinct (map fo_ID (lb_folders w))" and pos: "\<forall>f \<in> set (lb_folders w). 0 < fo_ID f"
    and g: "isFolder w g" "fo_ID g = a"
  shows "ends (containsWalk n a i visited) (walked w a i) w"
proof (induction n arbitrary: i visited)
  case 0
  then show ?case by (auto intro!: ends_fail)
next
  case (Suc n)
  have zero: "walked w a 0 (Inr False) w"
    using pos by (auto simp: isFolder_def strictlyInside_def walked_def)
  have found: "walked w a (fo_ID f) (Inr True) w" if "isFolder w f" "fo_ParentFolderID f = a" for f
    using that g inside.self [OF g] strictlyInside_child [OF dist that(1)] by (simp add: walked_def)
  have go: "ends (containsWalk n a (fo_ParentFolderID f) vs) (walked w a (fo_ID f)) w"
    if "isFolder w f" "fo_ParentFolderID f \<noteq> a" for f vs
    by (rule ends_mono [OF Suc.IH]) (simp add: walked_def strictlyInside_parent [OF dist that])
  have look: "ends (tx_bind (tx_first (folderById i)) (\<lambda>f. if fo_ParentFolderID f = a then tx_return True
      else containsWalk n a (fo_ParentFolderID f) (i # visited))) (walked w a i) w"
  proof (intro ends_bind ends_folderById conjI allI impI)
    fix f x assume "isFolder w f" "fo_ID f = i" "Inr f = Inr x"
    then show "ends (if fo_ParentFolderID x = a then tx_return True
        else containsWalk n a (fo_ParentFolderID x) (i # visited)) (walked w a i) w"
      using found go by (auto intro!: ends_return)
  qed simp_all
  show ?case
    unfolding containsWalk.simps
    using look zero by (auto intro!: ends_return ends_fail)
qed

text \<open>The visited folders are distinct and live, so the fuel is never used up.\<close>

lemma visited_bound:
  assumes "distinct vs" "set vs \<subseteq> fo_ID ` set (lb_folders w)"
  shows "length vs \<le> length (lb_folders w)"
proof -
  have "length vs = card (set vs)" using assms(1) by (simp add: distinct_card)
  also have "\<dots> \<le> card (fo_ID ` set (lb_folders w))" using assms(2) by (intro card_mono) auto
  also have "\<dots> \<le> length (lb_folders w)" by (metis card_image_le card_length finite_set le_trans)
  finally show ?thesis .
qed

lemma containsWalk_bounded:
  assumes "distinct vs" "set vs \<subseteq> fo_ID ` set (lb_folders w)" "length (lb_folders w) < n + length vs"
  shows "ends (containsWalk n a i vs) (\<lambda>r _. r \<noteq> Inl (App Unbounded)) w"
  using assms
proof (induction n arbitrary: i vs)
  case 0
  with visited_bound [of vs w] show ?case by simp
next
  case (Suc n)
  have go: "ends (containsWalk n a p (fo_ID f # vs)) (\<lambda>r _. r \<noteq> Inl (App Unbounded)) w"
    if "isFolder w f" "fo_ID f \<notin> set vs" for f p
    by (rule Suc.IH) (use that Suc.prems in \<open>auto simp: isFolder_def\<close>)
  have first: "ends (tx_first (folderById i)) (\<lambda>r v. v = w \<and> (\<forall>e. r = Inl e \<longrightarrow> e \<noteq> App Unbounded) \<and>
      (\<forall>f. r = Inr f \<longrightarrow> isFolder w f \<and> fo_ID f = i)) w" for i
    by (rule ends_first) (auto dest: folderById_Some)
  show ?case
    unfolding containsWalk.simps
    by (auto intro!: ends_return ends_fail ends_bind ends_mono [OF first] go)
qed

end
