(* ===== verification/LibMove.thy ===== *)
theory LibMove
  imports LibInv
begin

text \<open>Moving folders and links: what a successful move does, and that it keeps the forest.\<close>

section \<open>What a move does\<close>

lemma ends_foreach_checks:
  assumes "\<And>x. x \<in> set xs \<Longrightarrow> ends (f x) (\<lambda>r w'. w' = w \<and> (r = Inr () \<longrightarrow> P x)) w"
  shows "ends (tx_foreach f xs) (\<lambda>r w'. w' = w \<and> (r = Inr () \<longrightarrow> (\<forall>x \<in> set xs. P x))) w"
  using assms
proof (induction xs)
  case Nil
  then show ?case by (auto intro!: ends_return)
next
  case (Cons x xs)
  have x: "ends (f x) (\<lambda>r w'. w' = w \<and> (r = Inr () \<longrightarrow> P x)) w" using Cons.prems by simp
  have xs: "ends (tx_foreach f xs) (\<lambda>r w'. w' = w \<and> (r = Inr () \<longrightarrow> (\<forall>x \<in> set xs. P x))) w"
    using Cons by simp
  show ?case
    by (auto intro!: ends_bind ends_mono [OF x] ends_mono [OF xs])
qed

lemma ends_foreach_updates:
  "ends (tx_foreach (\<lambda>x. tx_update (g x)) xs) (\<lambda>r w'. r = Inr () \<longrightarrow> w' = fold g xs w) w"
proof (induction xs arbitrary: w)
  case Nil
  then show ?case by (auto intro!: ends_return)
next
  case (Cons x xs)
  then show ?case by (auto intro!: ends_bind ends_update)
qed

definition canMoveFolder :: "library \<Rightarrow> bool \<Rightarrow> nat \<Rightarrow> nat \<Rightarrow> nat \<Rightarrow> nat \<Rightarrow> bool" where
  "canMoveFolder w isAdmin userId target owner i \<longleftrightarrow> i \<noteq> target \<and> (\<exists>f. isFolder w f \<and> fo_ID f = i \<and>
     owned isAdmin userId (fo_UserID f) \<and> (0 < target \<longrightarrow> fo_UserID f = owner \<and> \<not> strictlyInside w i target))"

definition canMoveLink :: "library \<Rightarrow> bool \<Rightarrow> nat \<Rightarrow> nat \<Rightarrow> nat \<Rightarrow> nat \<Rightarrow> bool" where
  "canMoveLink w isAdmin userId target owner i \<longleftrightarrow> (\<exists>l. isLink w l \<and> ln_ID l = i \<and>
     owned isAdmin userId (ln_UserID l) \<and> (0 < target \<longrightarrow> ln_UserID l = owner))"

lemma ownedFolder_Some: "ownedFolder isAdmin userId i w = Some f \<Longrightarrow> isFolder w f \<and> fo_ID f = i \<and> owned isAdmin userId (fo_UserID f)"
  by (auto simp: ownedFolder_def liveFolders_def isFolder_def dest!: find_key_SomeD)

lemma ownedLink_Some: "ownedLink isAdmin userId i w = Some l \<Longrightarrow> isLink w l \<and> ln_ID l = i \<and> owned isAdmin userId (ln_UserID l)"
  by (auto simp: ownedLink_def liveLinks_def isLink_def dest!: find_key_SomeD)

lemma ends_firstOr:
  "(\<And>e. Q (Inl e) w) \<Longrightarrow> (\<And>x. f w = Some x \<Longrightarrow> Q (Inr x) w) \<Longrightarrow> ends (firstOr f msg) Q w"
  unfolding firstOr_def by (auto intro!: ends_catch ends_first ends_fail)

lemma folderContainsFolder_result:
  assumes "libInv w" "isFolder w g" "fo_ID g = a"
  shows "ends (folderContainsFolder a i) (walked w a i) w"
  unfolding folderContainsFolder_def
  by (intro ends_bind ends_peek)
    (use assms in \<open>auto intro!: containsWalk_result simp: libInv_def simp del: containsWalk.simps\<close>)

lemma checkFolderMove_result:
  assumes "libInv w"
  shows "ends (checkFolderMove isAdmin userId target owner i)
    (\<lambda>r w'. w' = w \<and> (r = Inr () \<longrightarrow> canMoveFolder w isAdmin userId target owner i)) w"
proof -
  have found: "ends (folderContainsFolder (fo_ID f) target) (walked w (fo_ID f) target) w" if "isFolder w f" for f
    using folderContainsFolder_result [OF assms that] by simp
  show ?thesis
    unfolding checkFolderMove_def
    by (auto intro!: ends_bind ends_reject ends_firstOr ends_mono [OF found] ends_return
        dest!: ownedFolder_Some simp: canMoveFolder_def walked_def)
qed

lemma checkLinkMove_result:
  "ends (checkLinkMove isAdmin userId target owner i)
    (\<lambda>r w'. w' = w \<and> (r = Inr () \<longrightarrow> canMoveLink w isAdmin userId target owner i)) w"
  unfolding checkLinkMove_def
  by (auto intro!: ends_bind ends_reject ends_firstOr ends_return dest!: ownedLink_Some simp: canMoveLink_def)

text \<open>The tables after a move.\<close>

definition moved :: "nat \<Rightarrow> nat set \<Rightarrow> nat set \<Rightarrow> library \<Rightarrow> library" where
  "moved target F L w = w\<lparr>
     lb_folders := update_where (\<lambda>f. fo_ID f \<in> F \<and> \<not> fo_Deleted f) (\<lambda>f. f\<lparr>fo_ParentFolderID := target\<rparr>) (lb_folders w),
     lb_links := update_where (\<lambda>l. ln_ID l \<in> L \<and> \<not> ln_Deleted l) (\<lambda>l. l\<lparr>ln_ParentFolderID := target\<rparr>) (lb_links w)\<rparr>"

lemma fold_setFolderParent:
  "fold (setFolderParent target) ids (moved target F L w) = moved target (F \<union> set ids) L w"
proof (induction ids arbitrary: F)
  case (Cons i ids)
  have "setFolderParent target i (moved target F L w) = moved target (insert i F) L w"
    by (cases w) (auto simp: setFolderParent_def moved_def update_where_def)
  then show ?case by (simp add: Cons.IH)
qed simp

lemma fold_setLinkParent:
  "fold (setLinkParent target) ids (moved target F L w) = moved target F (L \<union> set ids) w"
proof (induction ids arbitrary: L)
  case (Cons i ids)
  have "setLinkParent target i (moved target F L w) = moved target F (insert i L) w"
    by (cases w) (auto simp: setLinkParent_def moved_def update_where_def)
  then show ?case by (simp add: Cons.IH)
qed simp

lemma moved_nothing [simp]: "moved target {} {} w = w"
  by (simp add: moved_def update_where_def)

definition canMove :: "library \<Rightarrow> nat \<Rightarrow> nat \<Rightarrow> nat list \<Rightarrow> nat list \<Rightarrow> bool \<Rightarrow> bool" where
  "canMove w userId target folderIds linkIds isAdmin \<longleftrightarrow> (\<exists>owner.
     (0 < target \<longrightarrow> (\<exists>t. isFolder w t \<and> fo_ID t = target \<and> fo_UserID t = owner \<and> owned isAdmin userId owner)) \<and>
     (\<forall>i \<in> set folderIds. canMoveFolder w isAdmin userId target owner i) \<and>
     (\<forall>i \<in> set linkIds. canMoveLink w isAdmin userId target owner i))"

lemma moveBody_result:
  assumes inv: "libInv w"
  shows "ends (moveBody userId target folderIds linkIds isAdmin) (\<lambda>r w'. r = Inr () \<longrightarrow>
    canMove w userId target folderIds linkIds isAdmin \<and> w' = moved target (set folderIds) (set linkIds) w) w"
proof -
  let ?Q = "\<lambda>r w'. r = Inr () \<longrightarrow>
    canMove w userId target folderIds linkIds isAdmin \<and> w' = moved target (set folderIds) (set linkIds) w"
  define U :: "unit lib_tx" where "U = tx_bind (tx_foreach (\<lambda>i. tx_update (setFolderParent target i)) folderIds)
      (\<lambda>_. tx_foreach (\<lambda>i. tx_update (setLinkParent target i)) linkIds)"
  have updates: "ends U (\<lambda>r w'. r = Inr () \<longrightarrow> w' = moved target (set folderIds) (set linkIds) w) w"
    unfolding U_def
    using fold_setFolderParent [of target folderIds "{}" "{}" w] fold_setLinkParent [of target linkIds _ "{}" w]
    by (auto intro!: ends_bind ends_mono [OF ends_foreach_updates])
  have rest: "ends (tx_bind (tx_foreach (checkFolderMove isAdmin userId target owner) folderIds) (\<lambda>_.
     tx_bind (tx_foreach (checkLinkMove isAdmin userId target owner) linkIds) (\<lambda>_. U))) ?Q w"
    if "0 < target \<longrightarrow> (\<exists>t. isFolder w t \<and> fo_ID t = target \<and> fo_UserID t = owner \<and> owned isAdmin userId owner)" for owner
    using that
    by (auto intro!: ends_bind ends_mono [OF ends_foreach_checks [OF checkFolderMove_result [OF inv]]]
        ends_mono [OF ends_foreach_checks [OF checkLinkMove_result]] ends_mono [OF updates]
        simp: canMove_def)
  have first: "ends (if 0 < target
      then tx_bind (firstOr (ownedFolder isAdmin userId target) ''target folder doesn't exist'') (\<lambda>f. tx_return (fo_UserID f))
      else tx_return 0) (\<lambda>r v. v = w \<and> (\<forall>owner. r = Inr owner \<longrightarrow> 0 < target \<longrightarrow>
        (\<exists>t. isFolder w t \<and> fo_ID t = target \<and> fo_UserID t = owner \<and> owned isAdmin userId owner))) w"
    by (auto intro!: ends_bind ends_firstOr ends_return dest!: ownedFolder_Some)
  show ?thesis
    unfolding moveBody_def U_def [symmetric]
    by (rule ends_bind, rule ends_mono [OF first]) (use rest in simp)
qed

lemma MoveItems_cases:
  assumes "MoveItems userId target folderIds linkIds isAdmin (w, fs) = (r, w', fs')" "libInv w"
  obtains (refused) e where "r = Inl e" "w' = w"
    | (moved) "r = Inr ()" "canMove w userId target folderIds linkIds isAdmin"
        "w' = moved target (set folderIds) (set linkIds) w"
proof (cases "folderIds = [] \<and> linkIds = []")
  case True
  with assms(1) refused show ?thesis by (auto simp: MoveItems_def tx_fail_def)
next
  case False
  with assms(1) have t: "transaction (moveBody userId target folderIds linkIds isAdmin) (w, fs) = (r, w', fs')"
    by (auto simp: MoveItems_def)
  have "wp (moveBody userId target folderIds linkIds isAdmin)
    (\<lambda>_ w'. canMove w userId target folderIds linkIds isAdmin \<and> w' = moved target (set folderIds) (set linkIds) w) w"
    using moveBody_result [OF assms(2), of userId target folderIds linkIds isAdmin] by (simp add: ends_wp [symmetric])
  from transaction_cases [OF t this] show ?thesis using refused moved by auto
qed

section \<open>A move keeps the forest\<close>

lemma isFolder_moved:
  "isFolder (moved target F L w) f' \<longleftrightarrow> (\<exists>f. isFolder w f \<and> f' = (if fo_ID f \<in> F then f\<lparr>fo_ParentFolderID := target\<rparr> else f))"
  by (auto simp: isFolder_def moved_def set_update_where image_iff)

lemma isLink_moved:
  "isLink (moved target F L w) l' \<longleftrightarrow> (\<exists>l. isLink w l \<and> l' = (if ln_ID l \<in> L then l\<lparr>ln_ParentFolderID := target\<rparr> else l))"
  by (auto simp: isLink_def moved_def set_update_where image_iff)

lemma rooted_moved_outside:
  assumes "rooted w i" "\<And>a. a \<in> F \<Longrightarrow> a \<noteq> i \<and> \<not> strictlyInside w a i"
    and dist: "distinct (map fo_ID (lb_folders w))" and live: "\<And>a. a \<in> F \<Longrightarrow> \<exists>f. isFolder w f \<and> fo_ID f = a"
  shows "rooted (moved target F L w) i"
  using assms(1,2)
proof (induction rule: rooted.induct)
  case root
  show ?case by (rule rooted.root)
next
  case (child f)
  have out: "fo_ParentFolderID f \<noteq> a \<and> \<not> strictlyInside w a (fo_ParentFolderID f)" if "a \<in> F" for a
  proof -
    have no: "\<not> inside w a (fo_ParentFolderID f)"
      using child.prems [OF that] strictlyInside_child [OF dist child.hyps(1)] by simp
    then have ne: "fo_ParentFolderID f \<noteq> a" using live [OF that] inside.self by metis
    from child.prems [OF that] strictlyInside_parent [OF dist child.hyps(1) ne] ne show ?thesis by simp
  qed
  have "isFolder (moved target F L w) f"
    using child.hyps(1) child.prems [of "fo_ID f"] by (auto simp: isFolder_moved)
  then show ?case using child.IH out by (auto intro: rooted.child)
qed

lemma rooted_moved:
  assumes "rooted w i" "rooted (moved target F L w) target"
  shows "rooted (moved target F L w) i"
  using assms(1)
proof (induction rule: rooted.induct)
  case root
  show ?case by (rule rooted.root)
next
  case (child f)
  let ?f = "if fo_ID f \<in> F then f\<lparr>fo_ParentFolderID := target\<rparr> else f"
  have "isFolder (moved target F L w) ?f" using child.hyps(1) by (auto simp: isFolder_moved)
  then have "rooted (moved target F L w) (fo_ID ?f)"
    by (rule rooted.child) (use child.IH assms(2) in auto)
  then show ?case by (simp split: if_splits)
qed

lemma parentOK_moved: "parentOK w p owner \<Longrightarrow> parentOK (moved target F L w) p owner"
proof -
  assume "parentOK w p owner"
  then consider "p = 0" | f where "isFolder w f" "fo_ID f = p" "fo_UserID f = owner" by (auto simp: parentOK_def)
  then show ?thesis
  proof cases
    case 2
    then have "isFolder (moved target F L w) (if fo_ID f \<in> F then f\<lparr>fo_ParentFolderID := target\<rparr> else f)"
      by (auto simp: isFolder_moved)
    with 2 show ?thesis unfolding parentOK_def by (metis (mono_tags) folder_row.select_convs(1,3) folder_row.surjective folder_row.update_convs(4))
  qed (simp add: parentOK_def)
qed

lemma libInv_moved:
  assumes inv: "libInv w" and can: "canMove w userId target folderIds linkIds isAdmin"
  shows "libInv (moved target (set folderIds) (set linkIds) w)"
proof -
  let ?w = "moved target (set folderIds) (set linkIds) w"
  from can obtain owner where
    target: "0 < target \<Longrightarrow> \<exists>t. isFolder w t \<and> fo_ID t = target \<and> fo_UserID t = owner \<and> owned isAdmin userId owner"
    and F: "\<And>i. i \<in> set folderIds \<Longrightarrow> canMoveFolder w isAdmin userId target owner i"
    and L: "\<And>i. i \<in> set linkIds \<Longrightarrow> canMoveLink w isAdmin userId target owner i"
    unfolding canMove_def by blast
  have dist: "distinct (map fo_ID (lb_folders w))" and distl: "distinct (map ln_ID (lb_links w))"
    using inv by (simp_all add: libInv_def)
  have "rooted ?w target"
  proof (cases "target = 0")
    case False
    with target inv have "rooted w target" by (auto simp: libInv_def)
    then show ?thesis
      by (rule rooted_moved_outside) (use F False dist in \<open>auto simp: canMoveFolder_def\<close>)
  qed (simp add: rooted.root)
  then have rooted: "rooted ?w (fo_ID f)" if "isFolder ?w f" for f
    using that inv by (auto simp: isFolder_moved libInv_def intro: rooted_moved split: if_splits)
  have parent: "parentOK ?w (fo_ParentFolderID f) (fo_UserID f)" if "isFolder ?w f" for f
  proof -
    from that obtain g where g: "isFolder w g" "f = (if fo_ID g \<in> set folderIds then g\<lparr>fo_ParentFolderID := target\<rparr> else g)"
      by (auto simp: isFolder_moved)
    show ?thesis
    proof (cases "fo_ID g \<in> set folderIds")
      case True
      from F [OF True] obtain f' where "isFolder w f'" "fo_ID f' = fo_ID g" "0 < target \<longrightarrow> fo_UserID f' = owner"
        by (auto simp: canMoveFolder_def)
      with folder_unique [OF dist g(1)] have "0 < target \<longrightarrow> fo_UserID g = owner" by metis
      with target have "parentOK w target (fo_UserID g)" by (auto simp: parentOK_def)
      with g True show ?thesis by (simp add: parentOK_moved)
    next
      case False
      with g inv show ?thesis by (auto simp: libInv_def intro: parentOK_moved)
    qed
  qed
  have links: "parentOK ?w (ln_ParentFolderID l) (ln_UserID l)" if "isLink ?w l" for l
  proof -
    from that obtain g where g: "isLink w g" "l = (if ln_ID g \<in> set linkIds then g\<lparr>ln_ParentFolderID := target\<rparr> else g)"
      by (auto simp: isLink_moved)
    show ?thesis
    proof (cases "ln_ID g \<in> set linkIds")
      case True
      with L [OF True] g(1) distl have "0 < target \<longrightarrow> ln_UserID g = owner"
        by (auto simp: canMoveLink_def isLink_def distinct_map inj_on_def)
      with target have "parentOK w target (ln_UserID g)" by (auto simp: parentOK_def)
      with g True show ?thesis by (simp add: parentOK_moved)
    next
      case False
      with g inv show ?thesis by (auto simp: libInv_def intro: parentOK_moved)
    qed
  qed
  show ?thesis
    using inv rooted parent links
    by (auto simp: libInv_def moved_def map_update_where elim!: update_whereE)
qed

end
