(* ===== verification/LibDelete.thy ===== *)
theory LibDelete
  imports LibMove
begin

text \<open>
  Deleting folders: the breadth-first collection finds exactly the subtrees of the roots and the
  links in them, and the deletion removes exactly those.
\<close>

section \<open>Batches\<close>

lemma concat_chunks: "concat (chunks xs) = xs"
  by (induction xs rule: chunks.induct) simp_all

lemma set_chunks: "(\<Union>b \<in> set (chunks xs). set b) = set xs"
  using concat_chunks [of xs] by (metis set_concat)

section \<open>Collecting\<close>

definition childIds :: "library \<Rightarrow> nat set \<Rightarrow> nat set" where
  "childIds w A = {fo_ID f | f. isFolder w f \<and> fo_ParentFolderID f \<in> A}"

definition linksIn :: "library \<Rightarrow> nat set \<Rightarrow> link_row set" where
  "linksIn w A = {l. isLink w l \<and> ln_ParentFolderID l \<in> A}"

lemma childIds_Un: "childIds w (A \<union> B) = childIds w A \<union> childIds w B"
  by (auto simp: childIds_def)

lemma linksIn_Un: "linksIn w (A \<union> B) = linksIn w A \<union> linksIn w B"
  by (auto simp: linksIn_def)

lemma childFolders_childIds: "fo_ID ` set (childFolders batch w) = childIds w (set batch)"
  by (auto simp: childFolders_def childIds_def liveFolders_def isFolder_def)

lemma childLinks_linksIn: "set (childLinks batch w) = linksIn w (set batch)"
  by (auto simp: childLinks_def linksIn_def liveLinks_def isLink_def)

definition grown :: "nat set \<Rightarrow> nat list \<Rightarrow> nat set \<Rightarrow> nat list \<Rightarrow> nat list \<Rightarrow> bool" where
  "grown V next' C visited' next'' \<longleftrightarrow> (\<exists>new. next'' = next' @ new \<and> distinct new \<and> set new = C - V \<and> set visited' = V \<union> C)"

lemma grown_trans:
  assumes "grown V n C v n'" "grown (set v) n' D v' n''"
  shows "grown V n (C \<union> D) v' n''"
proof -
  from assms obtain a b where ab: "n' = n @ a" "distinct a" "set a = C - V" "set v = V \<union> C"
    "n'' = n' @ b" "distinct b" "set b = D - set v" "set v' = set v \<union> D"
    unfolding grown_def by auto
  then show ?thesis unfolding grown_def by (intro exI [of _ "a @ b"]) auto
qed

lemma visitChildren_result:
  "ends (visitChildren userID isAdmin cs visited next')
    (\<lambda>r w'. w' = w \<and> (\<forall>v n. r = Inr (v, n) \<longrightarrow> grown (set visited) next' (fo_ID ` set cs) v n)) w"
proof (induction cs arbitrary: visited next')
  case Nil
  then show ?case by (auto intro!: ends_return simp: grown_def)
next
  case (Cons c cs)
  have old: "grown (set visited) next' (fo_ID ` set cs) v n \<Longrightarrow> fo_ID c \<in> set visited \<Longrightarrow>
      grown (set visited) next' (fo_ID ` set (c # cs)) v n" for v n
    by (auto simp: grown_def)
  have new: "grown (set visited) next' (fo_ID ` set (c # cs)) v n"
    if "grown (set (fo_ID c # visited)) (next' @ [fo_ID c]) (fo_ID ` set cs) v n" "fo_ID c \<notin> set visited" for v n
    using grown_trans [of "set visited" next' "{fo_ID c}" "fo_ID c # visited" "next' @ [fo_ID c]" "fo_ID ` set cs" v n] that
    by (auto simp: grown_def)
  show ?case
    by (auto intro!: ends_fail intro: ends_mono [OF Cons.IH] old new simp del: set_simps)
qed

lemma collectLevel_result:
  "ends (collectLevel userID isAdmin bs links visited next')
    (\<lambda>r w'. w' = w \<and> (\<forall>ls v n. r = Inr (ls, v, n) \<longrightarrow>
       set ls = set links \<union> linksIn w (\<Union>b \<in> set bs. set b) \<and>
       grown (set visited) next' (childIds w (\<Union>b \<in> set bs. set b)) v n)) w"
proof (induction bs arbitrary: links visited next')
  case Nil
  then show ?case by (auto intro!: ends_return simp: grown_def linksIn_def childIds_def)
next
  case (Cons b bs)
  have visit: "ends (visitChildren userID isAdmin (childFolders b w) visited next')
    (\<lambda>r w'. w' = w \<and> (\<forall>v n. r = Inr (v, n) \<longrightarrow> grown (set visited) next' (childIds w (set b)) v n)) w"
    using visitChildren_result [of userID isAdmin "childFolders b w" visited next' w] by (simp add: childFolders_childIds)
  show ?case
    unfolding collectLevel.simps
    by (intro ends_bind ends_select conjI allI impI ends_reject)
      (auto intro!: ends_mono [OF visit] ends_mono [OF Cons.IH]
        simp: childLinks_linksIn linksIn_Un childIds_Un intro: grown_trans)
qed

text \<open>What the collection has found when it succeeds.\<close>

definition subtree :: "library \<Rightarrow> nat set \<Rightarrow> nat set" where
  "subtree w roots = {i. \<exists>r \<in> roots. inside w r i}"

definition collected :: "library \<Rightarrow> nat set \<Rightarrow> nat list \<Rightarrow> link_row list \<Rightarrow> bool" where
  "collected w roots folders links \<longleftrightarrow> distinct folders \<and>
     set folders = subtree w roots \<and> set links = linksIn w (set folders)"

definition collecting :: "library \<Rightarrow> nat set \<Rightarrow> nat list \<Rightarrow> nat list \<Rightarrow> nat list \<Rightarrow> link_row list \<Rightarrow> bool" where
  "collecting w roots frontier visited folders links \<longleftrightarrow> distinct (folders @ frontier) \<and>
     set visited = set folders \<union> set frontier \<and> roots \<subseteq> set visited \<and>
     set visited \<subseteq> subtree w roots \<and> childIds w (set folders) \<subseteq> set visited \<and>
     set links = linksIn w (set folders)"

lemma collecting_done:
  assumes "collecting w roots [] visited folders links"
  shows "collected w roots folders links"
proof -
  from assms have c: "distinct folders" "roots \<subseteq> set folders" "set folders \<subseteq> subtree w roots"
    "childIds w (set folders) \<subseteq> set folders" "set links = linksIn w (set folders)"
    by (auto simp: collecting_def)
  have "inside w r i \<Longrightarrow> r \<in> roots \<Longrightarrow> i \<in> set folders" for r i
  proof (induction rule: inside.induct)
    case (self f) with c(2) show ?case by auto
  next
    case (below f)
    then have "fo_ID f \<in> childIds w (set folders)" by (auto simp: childIds_def)
    with c(4) show ?case by auto
  qed
  with c show ?thesis by (auto simp: collected_def subtree_def)
qed

lemma collecting_step:
  assumes c: "collecting w roots frontier visited folders links"
    and g: "grown (set visited) [] (childIds w (set frontier)) visited' next'"
    and ls: "set links' = set links \<union> linksIn w (set frontier)"
  shows "collecting w roots next' visited' (folders @ frontier) links'"
proof -
  from g have n: "distinct next'" "set next' = childIds w (set frontier) - set visited"
    "set visited' = set visited \<union> childIds w (set frontier)" by (auto simp: grown_def)
  from c have v: "set visited = set folders \<union> set frontier" "set visited \<subseteq> subtree w roots"
    unfolding collecting_def by (elim conjE, simp)+
  have "i \<in> subtree w roots" if "i \<in> childIds w (set frontier)" for i
    using that v by (fastforce simp: childIds_def subtree_def intro: inside.below)
  with n v c ls show ?thesis
    unfolding collecting_def by (auto simp: childIds_Un linksIn_Un)
qed

lemma collectTree_result:
  assumes "collecting w roots frontier visited folders links"
  shows "ends (collectTree n userID isAdmin frontier visited folders links)
    (\<lambda>r w'. w' = w \<and> (\<forall>fs ls. r = Inr (fs, ls) \<longrightarrow> collected w roots fs ls)) w"
  using assms
proof (induction n arbitrary: frontier visited folders links)
  case 0
  then show ?case by (auto intro!: ends_fail)
next
  case (Suc n)
  have level: "ends (collectLevel userID isAdmin (chunks frontier) links visited [])
    (\<lambda>r w'. w' = w \<and> (\<forall>ls v n. r = Inr (ls, v, n) \<longrightarrow> collecting w roots n v (folders @ frontier) ls)) w"
    by (rule ends_mono [OF collectLevel_result]) (auto simp: set_chunks intro: collecting_step [OF Suc.prems])
  show ?case
    unfolding collectTree.simps
    using Suc.prems by (auto intro!: ends_return ends_bind ends_mono [OF level] Suc.IH collecting_done split: prod.splits)
qed

lemma collecting_length:
  assumes "collecting w roots frontier visited folders links"
  shows "length folders + length frontier \<le> length (lb_folders w)"
proof -
  from assms have d: "distinct (folders @ frontier)" and "set (folders @ frontier) \<subseteq> subtree w roots"
    unfolding collecting_def by (elim conjE, simp)+
  moreover have "subtree w roots \<subseteq> fo_ID ` set (lb_folders w)"
    by (auto dest!: inside_folder simp: isFolder_def subtree_def)
  ultimately have "set (folders @ frontier) \<subseteq> fo_ID ` set (lb_folders w)" by blast
  with visited_bound [OF d] show ?thesis by simp
qed

lemma collectTree_bounded:
  assumes "collecting w roots frontier visited folders links" "length (lb_folders w) < n + length folders"
  shows "ends (collectTree n userID isAdmin frontier visited folders links) (\<lambda>r _. r \<noteq> Inl (App Unbounded)) w"
  using assms
proof (induction n arbitrary: frontier visited folders links)
  case 0
  with collecting_length [OF "0.prems"(1)] show ?case by simp
next
  case (Suc n)
  have total: "ends (collectLevel userID isAdmin bs links visited next') (\<lambda>r _. r \<noteq> Inl (App Unbounded)) w"
    for bs links visited next'
  proof -
    have visit: "ends (visitChildren userID isAdmin cs visited next') (\<lambda>r v. v = w \<and> r \<noteq> Inl (App Unbounded)) w" for cs visited next'
      by (induction cs arbitrary: visited next') (auto intro!: ends_return ends_fail)
    show ?thesis
      by (induction bs arbitrary: links visited next')
        (auto intro!: ends_return ends_bind ends_select ends_reject ends_mono [OF visit])
  qed
  have level: "ends (collectLevel userID isAdmin (chunks frontier) links visited [])
    (\<lambda>r w'. (w' = w \<and> (\<forall>ls v n. r = Inr (ls, v, n) \<longrightarrow> collecting w roots n v (folders @ frontier) ls)) \<and> r \<noteq> Inl (App Unbounded)) w"
    by (rule ends_conj [OF _ total], rule ends_mono [OF collectLevel_result])
      (auto simp: set_chunks intro: collecting_step [OF Suc.prems(1)])
  have more: "frontier \<noteq> [] \<Longrightarrow> length (lb_folders w) < n + length (folders @ frontier)"
    using Suc.prems(2) by (cases frontier) auto
  show ?case
    unfolding collectTree.simps
    by (auto intro!: ends_return ends_bind ends_mono [OF level] Suc.IH more split: prod.splits)
qed

section \<open>The roots\<close>

lemma collectRoots_result:
  assumes "set visited \<subseteq> {i. \<exists>f. isFolder w f \<and> fo_ID f = i \<and> owned isAdmin userID (fo_UserID f)}" "distinct visited"
  shows "ends (collectRoots userID isAdmin parent rs visited)
    (\<lambda>r w'. w' = w \<and> r \<noteq> Inl (App Unbounded) \<and> (\<forall>ids. r = Inr ids \<longrightarrow> ids = visited @ rs \<and> distinct ids \<and>
      set ids \<subseteq> {i. \<exists>f. isFolder w f \<and> fo_ID f = i \<and> owned isAdmin userID (fo_UserID f)})) w"
  using assms
proof (induction rs arbitrary: parent visited)
  case Nil
  then show ?case by (auto intro!: ends_return)
next
  case (Cons r rs)
  have go: "ends (collectRoots userID isAdmin parent rs (visited @ [fo_ID f]))
    (\<lambda>r' w'. w' = w \<and> r' \<noteq> Inl (App Unbounded) \<and> (\<forall>ids. r' = Inr ids \<longrightarrow> ids = visited @ fo_ID f # rs \<and> distinct ids \<and>
      set ids \<subseteq> {i. \<exists>f. isFolder w f \<and> fo_ID f = i \<and> owned isAdmin userID (fo_UserID f)})) w"
    if "isFolder w f" "owned isAdmin userID (fo_UserID f)" "fo_ID f \<notin> set visited" for f parent
  proof (rule ends_mono [OF Cons.IH])
    show "set (visited @ [fo_ID f]) \<subseteq> {i. \<exists>f. isFolder w f \<and> fo_ID f = i \<and> owned isAdmin userID (fo_UserID f)}"
      using Cons.prems(1) that by auto
    show "distinct (visited @ [fo_ID f])" using Cons.prems(2) that by simp
  qed (use that in auto)
  show ?case
    unfolding collectRoots.simps
    by (intro ends_if ends_bind ends_catch ends_first)
      (auto intro!: ends_fail go dest!: folderById_Some split: option.split)
qed

lemma collecting_roots:
  assumes "distinct ids" "set ids \<subseteq> {i. \<exists>f. isFolder w f \<and> fo_ID f = i \<and> P f}"
  shows "collecting w (set ids) ids ids [] []"
  using assms inside.self [of w] by (fastforce simp: collecting_def childIds_def linksIn_def subtree_def)

text \<open>A collection that succeeds has found the subtrees; it never runs out of fuel.\<close>

lemma collectFolderDeletion_result:
  "ends (collectFolderDeletion roots userID isAdmin)
    (\<lambda>r w'. w' = w \<and> r \<noteq> Inl (App Unbounded) \<and> (\<forall>fs ls. r = Inr (fs, ls) \<longrightarrow> collected w (set roots) fs ls \<and>
      (\<forall>i \<in> set roots. \<exists>f. isFolder w f \<and> fo_ID f = i \<and> owned isAdmin userID (fo_UserID f)))) w"
proof -
  let ?own = "{i. \<exists>f. isFolder w f \<and> fo_ID f = i \<and> owned isAdmin userID (fo_UserID f)}"
  have roots: "ends (collectRoots userID isAdmin None roots [])
    (\<lambda>r w'. w' = w \<and> r \<noteq> Inl (App Unbounded) \<and> (\<forall>ids. r = Inr ids \<longrightarrow> ids = roots \<and> distinct ids \<and> set ids \<subseteq> ?own)) w"
    using collectRoots_result [of "[]" w isAdmin userID None roots] by simp
  have tree: "ends (collectTree (Suc (Suc (length (lb_folders w)))) userID isAdmin roots roots [] [])
    (\<lambda>r w'. (w' = w \<and> (\<forall>fs ls. r = Inr (fs, ls) \<longrightarrow> collected w (set roots) fs ls)) \<and> r \<noteq> Inl (App Unbounded)) w"
    if "distinct roots" "set roots \<subseteq> ?own"
    using collecting_roots [OF that]
    by (intro ends_conj collectTree_result collectTree_bounded) simp_all
  show ?thesis
    unfolding collectFolderDeletion_def
    by (auto intro!: ends_bind ends_peek ends_mono [OF roots] ends_mono [OF tree] simp del: collectTree.simps)
qed

section \<open>Removing\<close>

definition withoutLinks :: "(link_row \<Rightarrow> bool) \<Rightarrow> library \<Rightarrow> library" where
  "withoutLinks p w = w\<lparr>lb_links := update_where (\<lambda>l. \<not> ln_Deleted l \<and> p l) (\<lambda>l. l\<lparr>ln_Deleted := True\<rparr>) (lb_links w)\<rparr>"

definition withoutFolders :: "(folder_row \<Rightarrow> bool) \<Rightarrow> library \<Rightarrow> library" where
  "withoutFolders p w = w\<lparr>lb_folders := update_where (\<lambda>f. \<not> fo_Deleted f \<and> p f) (\<lambda>f. f\<lparr>fo_Deleted := True\<rparr>) (lb_folders w)\<rparr>"

lemma withoutLinks_twice: "withoutLinks p (withoutLinks q w) = withoutLinks (\<lambda>l. q l \<or> p (l\<lparr>ln_Deleted := False\<rparr>)) w"
  if "\<And>l b. p (l\<lparr>ln_Deleted := b\<rparr>) = p l"
  using that by (cases w) (auto simp: withoutLinks_def update_where_def)

lemma withoutFolders_twice: "withoutFolders p (withoutFolders q w) = withoutFolders (\<lambda>l. q l \<or> p (l\<lparr>fo_Deleted := False\<rparr>)) w"
  if "\<And>l b. p (l\<lparr>fo_Deleted := b\<rparr>) = p l"
  using that by (cases w) (auto simp: withoutFolders_def update_where_def)

lemma withoutLinks_none [simp]: "withoutLinks (\<lambda>_. False) w = w"
  by (simp add: withoutLinks_def update_where_def)

lemma withoutFolders_none [simp]: "withoutFolders (\<lambda>_. False) w = w"
  by (simp add: withoutFolders_def update_where_def)

lemma ends_deleteLinks:
  "(\<And>e. Q (Inl e) w) \<Longrightarrow> (\<And>n. Q (Inr n) (withoutLinks (\<lambda>l. ln_ID l \<in> set ids \<and> owned isAdmin userID (ln_UserID l)) w)) \<Longrightarrow>
   ends (deleteLinks ids isAdmin userID) Q w"
  unfolding deleteLinks_def by (rule ends_stmt) (auto simp: withoutLinks_def Let_def conj_commute conj_left_commute)

lemma ends_deleteFolders:
  "(\<And>e. Q (Inl e) w) \<Longrightarrow> (\<And>n. Q (Inr n) (withoutFolders (\<lambda>f. fo_ID f \<in> set ids \<and> owned isAdmin userID (fo_UserID f)) w)) \<Longrightarrow>
   ends (deleteFolders ids isAdmin userID) Q w"
  unfolding deleteFolders_def by (rule ends_stmt) (auto simp: withoutFolders_def Let_def conj_commute conj_left_commute)

lemma link_batches:
  "ends (tx_foreach (\<lambda>batch. tx_bind (deleteLinks batch isAdmin userID) (\<lambda>n. tx_reject (n \<noteq> length batch) e)) bs)
    (\<lambda>r w'. r = Inr () \<longrightarrow> w' = withoutLinks (\<lambda>l. (p l \<or> ln_ID l \<in> (\<Union>b \<in> set bs. set b) \<and> owned isAdmin userID (ln_UserID l))) w)
    (withoutLinks p w)"
proof (induction bs arbitrary: p)
  case Nil
  then show ?case by (auto intro!: ends_return)
next
  case (Cons b bs)
  let ?q = "\<lambda>l. p l \<or> ln_ID l \<in> set b \<and> owned isAdmin userID (ln_UserID l)"
  have "withoutLinks (\<lambda>l. ln_ID l \<in> set b \<and> owned isAdmin userID (ln_UserID l)) (withoutLinks p w) = withoutLinks ?q w"
    by (subst withoutLinks_twice) simp_all
  then have one: "ends (tx_bind (deleteLinks b isAdmin userID) (\<lambda>n. tx_reject (n \<noteq> length b) e))
      (\<lambda>r w'. r = Inr () \<longrightarrow> w' = withoutLinks ?q w) (withoutLinks p w)"
    by (auto intro!: ends_bind ends_deleteLinks ends_reject)
  have all: "(\<lambda>l. ?q l \<or> ln_ID l \<in> (\<Union>b \<in> set bs. set b) \<and> owned isAdmin userID (ln_UserID l)) =
      (\<lambda>l. p l \<or> ln_ID l \<in> (\<Union>b \<in> set (b # bs). set b) \<and> owned isAdmin userID (ln_UserID l))"
    by auto
  show ?case
    unfolding tx_foreach.simps
    by (rule ends_bind, rule ends_mono [OF one]) (use Cons.IH [of ?q, unfolded all] in simp)
qed

lemma folder_batches:
  "ends (tx_foreach (\<lambda>batch. tx_bind (deleteFolders batch isAdmin userID) (\<lambda>n. tx_reject (n \<noteq> length batch) e)) bs)
    (\<lambda>r w'. r = Inr () \<longrightarrow> w' = withoutFolders (\<lambda>f. (p f \<or> fo_ID f \<in> (\<Union>b \<in> set bs. set b) \<and> owned isAdmin userID (fo_UserID f))) w)
    (withoutFolders p w)"
proof (induction bs arbitrary: p)
  case Nil
  then show ?case by (auto intro!: ends_return)
next
  case (Cons b bs)
  let ?q = "\<lambda>f. p f \<or> fo_ID f \<in> set b \<and> owned isAdmin userID (fo_UserID f)"
  have "withoutFolders (\<lambda>f. fo_ID f \<in> set b \<and> owned isAdmin userID (fo_UserID f)) (withoutFolders p w) = withoutFolders ?q w"
    by (subst withoutFolders_twice) simp_all
  then have one: "ends (tx_bind (deleteFolders b isAdmin userID) (\<lambda>n. tx_reject (n \<noteq> length b) e))
      (\<lambda>r w'. r = Inr () \<longrightarrow> w' = withoutFolders ?q w) (withoutFolders p w)"
    by (auto intro!: ends_bind ends_deleteFolders ends_reject)
  have all: "(\<lambda>f. ?q f \<or> fo_ID f \<in> (\<Union>b \<in> set bs. set b) \<and> owned isAdmin userID (fo_UserID f)) =
      (\<lambda>f. p f \<or> fo_ID f \<in> (\<Union>b \<in> set (b # bs). set b) \<and> owned isAdmin userID (fo_UserID f))"
    by auto
  show ?case
    unfolding tx_foreach.simps
    by (rule ends_bind, rule ends_mono [OF one]) (use Cons.IH [of ?q, unfolded all] in simp)
qed

lemma deleteLinksInTransaction_result:
  "ends (deleteLinksInTransaction links userID isAdmin)
    (\<lambda>r w'. r = Inr () \<longrightarrow> (\<forall>l \<in> set links. owned isAdmin userID (ln_UserID l)) \<and>
      w' = withoutLinks (\<lambda>l. ln_ID l \<in> ln_ID ` set links \<and> owned isAdmin userID (ln_UserID l)) w) w"
proof (cases "list_ex (\<lambda>l. \<not> owned isAdmin userID (ln_UserID l)) links")
  case True
  then show ?thesis unfolding deleteLinksInTransaction_def by (auto intro!: ends_fail)
next
  case False
  have "ends (tx_foreach (\<lambda>batch. tx_bind (deleteLinks batch isAdmin userID) (\<lambda>n. tx_reject (n \<noteq> length batch) e)) (chunks (map ln_ID links)))
    (\<lambda>r w'. r = Inr () \<longrightarrow> w' = withoutLinks (\<lambda>l. ln_ID l \<in> ln_ID ` set links \<and> owned isAdmin userID (ln_UserID l)) w) w" for e
    using link_batches [where p = "\<lambda>_. False" and bs = "chunks (map ln_ID links)" and w = w]
    by (simp add: set_chunks)
  then show ?thesis
    using False unfolding deleteLinksInTransaction_def by (auto simp: list_ex_iff elim!: ends_mono)
qed

section \<open>What a deletion does\<close>

text \<open>The subtree of a folder belongs to its owner, and so do the links in it.\<close>

lemma inside_owner:
  assumes inv: "libInv w" and a: "isFolder w a"
  shows "inside w (fo_ID a) i \<Longrightarrow> isFolder w f \<Longrightarrow> fo_ID f = i \<Longrightarrow> fo_UserID f = fo_UserID a"
proof (induction arbitrary: f rule: inside.induct)
  case (self g)
  then show ?case using folder_unique [of w f a] inv a by (simp add: libInv_def)
next
  case (below g)
  have "f = g" by (rule folder_unique) (use below inv in \<open>auto simp: libInv_def\<close>)
  moreover from below.hyps(1) inv have "parentOK w (fo_ParentFolderID g) (fo_UserID g)" by (simp add: libInv_def)
  moreover have "fo_ParentFolderID g \<noteq> 0"
    using inside_folder [OF below.hyps(2)] inv by (auto simp: libInv_def isFolder_def)
  ultimately obtain p where "isFolder w p" "fo_ID p = fo_ParentFolderID g" "fo_UserID p = fo_UserID f"
    by (auto simp: parentOK_def)
  with below.IH show ?case by auto
qed

definition withoutTree :: "nat list \<Rightarrow> library \<Rightarrow> library" where
  "withoutTree roots w = withoutFolders (\<lambda>f. fo_ID f \<in> subtree w (set roots))
     (withoutLinks (\<lambda>l. ln_ParentFolderID l \<in> subtree w (set roots)) w)"

lemma withoutLinks_cong: "(\<And>l. isLink w l \<Longrightarrow> p l = q l) \<Longrightarrow> withoutLinks p w = withoutLinks q w"
  unfolding withoutLinks_def update_where_def isLink_def
  by (rule arg_cong [where f = "\<lambda>x. w\<lparr>lb_links := x\<rparr>"], rule map_cong) auto

lemma withoutFolders_cong: "(\<And>f. isFolder w f \<Longrightarrow> p f = q f) \<Longrightarrow> withoutFolders p w = withoutFolders q w"
  unfolding withoutFolders_def update_where_def isFolder_def
  by (rule arg_cong [where f = "\<lambda>x. w\<lparr>lb_folders := x\<rparr>"], rule map_cong) auto

lemma isFolder_withoutLinks [simp]: "isFolder (withoutLinks p w) f = isFolder w f"
  by (simp add: isFolder_def withoutLinks_def)

lemma collected_links_removed:
  assumes inv: "libInv w" and c: "collected w R folders links"
    and own: "\<forall>l \<in> set links. owned isAdmin userID (ln_UserID l)"
  shows "withoutLinks (\<lambda>l. ln_ID l \<in> ln_ID ` set links \<and> owned isAdmin userID (ln_UserID l)) w =
    withoutLinks (\<lambda>l. ln_ParentFolderID l \<in> subtree w R) w"
proof (rule withoutLinks_cong)
  fix l assume l: "isLink w l"
  from c have links: "set links = linksIn w (subtree w R)"
    by (simp add: collected_def subtree_def)
  have same: "l' = l" if "isLink w l'" "ln_ID l' = ln_ID l" for l'
    using that l inv by (auto simp: isLink_def libInv_def distinct_map inj_on_def)
  have "l \<in> set links \<longleftrightarrow> ln_ParentFolderID l \<in> subtree w R"
    using l by (simp add: links linksIn_def)
  moreover have "ln_ID l \<in> ln_ID ` set links \<longleftrightarrow> l \<in> set links"
  proof
    assume "ln_ID l \<in> ln_ID ` set links"
    then obtain l' where l': "l' \<in> set links" "ln_ID l' = ln_ID l" by force
    then have "isLink w l'" by (simp add: links linksIn_def)
    from same [OF this l'(2)] l'(1) show "l \<in> set links" by simp
  qed simp
  ultimately show "(ln_ID l \<in> ln_ID ` set links \<and> owned isAdmin userID (ln_UserID l)) =
      (ln_ParentFolderID l \<in> subtree w R)"
    using own by blast
qed

lemma collected_folders_removed:
  assumes inv: "libInv w" and c: "collected w R folders links"
    and own: "\<forall>i \<in> R. \<exists>f. isFolder w f \<and> fo_ID f = i \<and> owned isAdmin userID (fo_UserID f)"
    and v: "\<And>f. isFolder v f = isFolder w f"
  shows "withoutFolders (\<lambda>f. fo_ID f \<in> set folders \<and> owned isAdmin userID (fo_UserID f)) v =
    withoutFolders (\<lambda>f. fo_ID f \<in> subtree w R) v"
proof (rule withoutFolders_cong)
  fix f assume "isFolder v f"
  then have f: "isFolder w f" by (simp add: v)
  from c have folders: "set folders = subtree w R" by (simp add: collected_def subtree_def)
  have "owned isAdmin userID (fo_UserID f)" if "fo_ID f \<in> subtree w R"
  proof -
    from that obtain r where r: "r \<in> R" "inside w r (fo_ID f)" by (auto simp: subtree_def)
    with own obtain a where a: "isFolder w a" "fo_ID a = r" "owned isAdmin userID (fo_UserID a)" by blast
    with r inside_owner [OF inv a(1) _ f refl] show ?thesis by simp
  qed
  with folders show "(fo_ID f \<in> set folders \<and> owned isAdmin userID (fo_UserID f)) = (fo_ID f \<in> subtree w R)" by auto
qed

lemma deleteFoldersBody_result:
  assumes inv: "libInv w"
  shows "ends (deleteFoldersBody roots userID isAdmin) (\<lambda>r w'.
    \<forall>ls. r = Inr ls \<longrightarrow> w' = withoutTree roots w \<and> set ls = linksIn w (subtree w (set roots)) \<and>
      (\<forall>i \<in> set roots. \<exists>f. isFolder w f \<and> fo_ID f = i \<and> owned isAdmin userID (fo_UserID f))) w"
proof -
  let ?own = "\<forall>i \<in> set roots. \<exists>f. isFolder w f \<and> fo_ID f = i \<and> owned isAdmin userID (fo_UserID f)"
  let ?v = "withoutLinks (\<lambda>l. ln_ParentFolderID l \<in> subtree w (set roots)) w"
  define rest where "rest folders = tx_foreach (\<lambda>batch. tx_bind (deleteFolders batch isAdmin userID) (\<lambda>n.
       tx_reject (n \<noteq> length batch) (HttpError 403 ''folder ownership changed during deletion''))) (chunks folders)" for folders
  have folders: "ends (rest fs) (\<lambda>r w'. r = Inr () \<longrightarrow> w' = withoutTree roots w) ?v"
    if "collected w (set roots) fs ls" "?own" for fs ls
  proof -
    have "ends (rest fs) (\<lambda>r w'. r = Inr () \<longrightarrow>
        w' = withoutFolders (\<lambda>f. fo_ID f \<in> set fs \<and> owned isAdmin userID (fo_UserID f)) ?v) ?v"
      unfolding rest_def using folder_batches [where p = "\<lambda>_. False" and bs = "chunks fs" and w = ?v]
      by (simp add: set_chunks)
    then show ?thesis
      using collected_folders_removed [OF inv that, of ?v] by (simp add: withoutTree_def)
  qed
  have links: "ends (deleteLinksInTransaction ls userID isAdmin) (\<lambda>r w'. r = Inr () \<longrightarrow> w' = ?v) w"
    if "collected w (set roots) fs ls" for fs ls
    by (rule ends_mono [OF deleteLinksInTransaction_result]) (use collected_links_removed [OF inv that] in simp)
  have found: "set ls = linksIn w (subtree w (set roots))" if "collected w (set roots) fs ls" for fs ls
    using that by (simp add: collected_def subtree_def)
  show ?thesis
    unfolding deleteFoldersBody_def rest_def [symmetric]
    by (auto intro!: ends_bind ends_return ends_mono [OF collectFolderDeletion_result] ends_mono [OF links]
        ends_mono [OF folders] simp: found)
qed

lemma tx_errors_bounded:
  "ends (tx_foreach (\<lambda>batch. tx_bind (deleteLinks batch isAdmin userID) (\<lambda>n. tx_reject (n \<noteq> length batch) (HttpError 403 m))) bs)
     (\<lambda>r _. r \<noteq> Inl (App Unbounded)) w"
  "ends (tx_foreach (\<lambda>batch. tx_bind (deleteFolders batch isAdmin userID) (\<lambda>n. tx_reject (n \<noteq> length batch) (HttpError 403 m))) bs)
     (\<lambda>r _. r \<noteq> Inl (App Unbounded)) w"
proof (induction bs arbitrary: w)
  case (Cons b bs)
  have d: "ends (deleteLinks b isAdmin userID) (\<lambda>r _. r \<noteq> Inl (App Unbounded)) w"
    "ends (deleteFolders b isAdmin userID) (\<lambda>r _. r \<noteq> Inl (App Unbounded)) w" for w
    unfolding deleteLinks_def deleteFolders_def by (auto intro!: ends_stmt simp: Let_def)
  show "ends (tx_foreach (\<lambda>batch. tx_bind (deleteLinks batch isAdmin userID) (\<lambda>n. tx_reject (n \<noteq> length batch) (HttpError 403 m))) (b # bs))
     (\<lambda>r _. r \<noteq> Inl (App Unbounded)) w" for w
    using Cons.IH(1) by (auto intro!: ends_bind ends_mono [OF d(1)] ends_reject)
  show "ends (tx_foreach (\<lambda>batch. tx_bind (deleteFolders batch isAdmin userID) (\<lambda>n. tx_reject (n \<noteq> length batch) (HttpError 403 m))) (b # bs))
     (\<lambda>r _. r \<noteq> Inl (App Unbounded)) w" for w
    using Cons.IH(2) by (auto intro!: ends_bind ends_mono [OF d(2)] ends_reject)
qed (auto intro!: ends_return)

lemma deleteFoldersBody_bounded:
  "ends (deleteFoldersBody roots userID isAdmin) (\<lambda>r _. r \<noteq> Inl (App Unbounded)) w"
  unfolding deleteFoldersBody_def deleteLinksInTransaction_def
  by (auto intro!: ends_bind ends_return ends_fail ends_mono [OF collectFolderDeletion_result] ends_mono [OF tx_errors_bounded(1)]
      ends_mono [OF tx_errors_bounded(2)])

end
