(* ===== verification/LibSystem.thy ===== *)
theory LibSystem
  imports LibDelete
begin

text \<open>The library as a system: the operations as steps, and the forest as their invariant.\<close>

section \<open>Creating\<close>

lemma ValidateFolderDestination_result:
  "ends (ValidateFolderDestination parent userID) (\<lambda>r w'. w' = w \<and> (r = Inr () \<longrightarrow> parentOK w parent userID)) w"
  unfolding ValidateFolderDestination_def
  by (auto intro!: ends_return ends_bind ends_catch ends_first ends_fail dest!: find_key_SomeD
      simp: parentOK_def liveFolders_def isFolder_def)

lemma isFolder_insertFolder:
  "isFolder (insertFolder name parent owner w) f \<longleftrightarrow> isFolder w f \<or>
     f = \<lparr>fo_ID = lb_nextFolder w, fo_Name = name, fo_UserID = owner, fo_ParentFolderID = parent, fo_Deleted = False\<rparr>"
  by (auto simp: isFolder_def insertFolder_def)

lemma rooted_insertFolder: "rooted w i \<Longrightarrow> rooted (insertFolder name parent owner w) i"
proof (induction rule: rooted.induct)
  case root
  show ?case by (rule rooted.root)
next
  case (child f)
  then show ?case by (auto intro: rooted.child simp: isFolder_insertFolder)
qed

lemma parentOK_mono: "(\<And>f. isFolder w f \<Longrightarrow> isFolder w' f) \<Longrightarrow> parentOK w p owner \<Longrightarrow> parentOK w' p owner"
  by (auto simp: parentOK_def)

lemma libInv_insertFolder:
  assumes inv: "libInv w" and p: "parentOK w parent owner"
  shows "libInv (insertFolder name parent owner w)"
proof -
  let ?w = "insertFolder name parent owner w"
  have mono: "parentOK w q u \<Longrightarrow> parentOK ?w q u" for q u
    by (erule parentOK_mono [rotated]) (simp add: isFolder_insertFolder)
  have "rooted w parent"
    using p inv by (auto simp: parentOK_def libInv_def intro: rooted.root)
  then have rp: "rooted ?w parent" by (rule rooted_insertFolder)
  have rooted: "rooted ?w (fo_ID f)" if "isFolder ?w f" for f
  proof (cases "isFolder w f")
    case True
    with inv show ?thesis by (auto simp: libInv_def intro: rooted_insertFolder)
  next
    case False
    with that rp show ?thesis by (intro rooted.child [OF that]) (auto simp: isFolder_insertFolder)
  qed
  have links: "isLink ?w l = isLink w l" for l by (simp add: isLink_def insertFolder_def)
  have ids: "lb_nextFolder w \<notin> fo_ID ` set (lb_folders w)"
    using inv by (auto simp: libInv_def)
  have rows: "lb_folders ?w = lb_folders w @ [\<lparr>fo_ID = lb_nextFolder w, fo_Name = name, fo_UserID = owner,
      fo_ParentFolderID = parent, fo_Deleted = False\<rparr>]" "lb_nextFolder ?w = lb_nextFolder w + 1"
    "lb_links ?w = lb_links w" "lb_nextLink ?w = lb_nextLink w"
    by (simp_all add: insertFolder_def)
  have parents: "parentOK ?w (fo_ParentFolderID f) (fo_UserID f)" if "isFolder ?w f" for f
    using that inv p by (auto simp: isFolder_insertFolder libInv_def intro: mono)
  have lparents: "parentOK ?w (ln_ParentFolderID l) (ln_UserID l)" if "isLink ?w l" for l
    using that inv by (auto simp: links libInv_def intro: mono)
  show ?thesis
    unfolding libInv_def
    using inv rooted parents lparents ids by (auto simp: rows libInv_def less_Suc_eq)
qed

lemma CreateFolder_inv:
  assumes "CreateFolder name parent owner (w, fs) = (r, w', fs')" "libInv w"
  shows "libInv w'"
proof (rule transaction_cases [OF assms(1) [unfolded CreateFolder_def]])
  have valid: "ends (ValidateFolderDestination parent owner) (\<lambda>r v. v = w \<and> (r = Inr () \<longrightarrow> parentOK w parent owner)) w"
    by (rule ValidateFolderDestination_result)
  show "wp (tx_bind (ValidateFolderDestination parent owner) (\<lambda>_. tx_bind (tx_select lb_nextFolder) (\<lambda>i.
      tx_bind (tx_update (insertFolder name parent owner)) (\<lambda>_. tx_return i)))) (\<lambda>_. libInv) w"
    unfolding ends_wp [symmetric]
    by (auto intro!: ends_bind ends_select ends_update ends_return ends_mono [OF valid] libInv_insertFolder [OF assms(2)])
qed (use assms(2) in simp_all)

text \<open>Changes that leave the folders alone.\<close>

lemma libInv_same_folders:
  assumes inv: "libInv w" and same: "lb_folders w' = lb_folders w" "lb_nextFolder w' = lb_nextFolder w"
    and links: "distinct (map ln_ID (lb_links w'))" "\<And>l. l \<in> set (lb_links w') \<Longrightarrow> ln_ID l < lb_nextLink w'"
      "\<And>l. isLink w' l \<Longrightarrow> parentOK w (ln_ParentFolderID l) (ln_UserID l)"
  shows "libInv w'"
proof -
  have folders: "isFolder w' f = isFolder w f" for f by (simp add: isFolder_def same)
  have rooted: "rooted w i \<Longrightarrow> rooted w' i" for i
    by (induction rule: rooted.induct) (auto intro: rooted.intros simp: folders)
  have parent: "parentOK w' p u = parentOK w p u" for p u by (simp add: parentOK_def folders)
  from inv links rooted show ?thesis
    unfolding libInv_def by (simp add: same folders parent)
qed

lemma libInv_insertLink:
  assumes inv: "libInv w" and p: "parentOK w (ln_ParentFolderID l) (ln_UserID l)"
  shows "libInv (insertLink l w)"
proof (rule libInv_same_folders [OF inv])
  have "lb_nextLink w \<notin> ln_ID ` set (lb_links w)" using inv by (auto simp: libInv_def)
  then show "distinct (map ln_ID (lb_links (insertLink l w)))" using inv by (simp add: insertLink_def libInv_def)
  show "ln_ID x < lb_nextLink (insertLink l w)" if "x \<in> set (lb_links (insertLink l w))" for x
    using that inv by (auto simp: insertLink_def libInv_def less_Suc_eq)
  show "parentOK w (ln_ParentFolderID x) (ln_UserID x)" if "isLink (insertLink l w) x" for x
    using that inv p by (auto simp: insertLink_def libInv_def isLink_def)
qed (simp_all add: insertLink_def)

lemma saveLink_inv:
  assumes "saveLink l (w, fs) = (r, w', fs')" "libInv w"
  shows "libInv w'"
proof (rule transaction_cases [OF assms(1) [unfolded saveLink_def]])
  have valid: "ends (ValidateFolderDestination (ln_ParentFolderID l) (ln_UserID l))
      (\<lambda>r v. v = w \<and> (r = Inr () \<longrightarrow> parentOK w (ln_ParentFolderID l) (ln_UserID l))) w"
    by (rule ValidateFolderDestination_result)
  show "wp (tx_bind (ValidateFolderDestination (ln_ParentFolderID l) (ln_UserID l)) (\<lambda>_. createLink l)) (\<lambda>_. libInv) w"
    unfolding ends_wp [symmetric] createLink_def
    by (auto intro!: ends_bind ends_stmt ends_mono [OF valid] libInv_insertLink [OF assms(2)] split: if_splits)
qed (use assms(2) in simp_all)

section \<open>Removing\<close>

lemma subtree_active: "subtree (w\<lparr>lb_active := a\<rparr>) R = subtree w R"
proof -
  have f: "isFolder (w\<lparr>lb_active := a\<rparr>) g = isFolder w g" for g by (simp add: isFolder_def)
  have "inside (w\<lparr>lb_active := a\<rparr>) r i \<longleftrightarrow> inside w r i" for r i
  proof
    show "inside (w\<lparr>lb_active := a\<rparr>) r i \<Longrightarrow> inside w r i"
      by (induction rule: inside.induct) (auto simp: f intro: inside.intros)
    show "inside w r i \<Longrightarrow> inside (w\<lparr>lb_active := a\<rparr>) r i"
      by (induction rule: inside.induct) (auto simp: f intro: inside.intros)
  qed
  then show ?thesis by (simp add: subtree_def)
qed

lemma libInv_withoutLinks:
  assumes inv: "libInv w"
  shows "libInv (withoutLinks p w)"
proof (rule libInv_same_folders [OF inv])
  show "parentOK w (ln_ParentFolderID l) (ln_UserID l)" if "isLink (withoutLinks p w) l" for l
    using that inv by (auto simp: isLink_def withoutLinks_def libInv_def elim!: update_whereE)
  show "ln_ID l < lb_nextLink (withoutLinks p w)" if "l \<in> set (lb_links (withoutLinks p w))" for l
    using that inv by (auto simp: withoutLinks_def libInv_def elim!: update_whereE)
qed (use inv in \<open>simp_all add: withoutLinks_def map_update_where libInv_def\<close>)

lemma libInv_withoutTree:
  assumes inv: "libInv w"
  shows "libInv (withoutTree roots w)"
proof -
  let ?S = "subtree w (set roots)" and ?v = "withoutTree roots w"
  have dist: "distinct (map fo_ID (lb_folders w))" using inv by (simp add: libInv_def)
  have folders: "isFolder ?v f \<longleftrightarrow> isFolder w f \<and> fo_ID f \<notin> ?S" for f
    by (auto simp: isFolder_def withoutTree_def withoutFolders_def withoutLinks_def set_update_where image_iff)
  have links: "isLink ?v l \<longleftrightarrow> isLink w l \<and> ln_ParentFolderID l \<notin> ?S" for l
    by (auto simp: isLink_def withoutTree_def withoutFolders_def withoutLinks_def set_update_where image_iff)
  have up: "fo_ParentFolderID f \<notin> ?S" if "isFolder w f" "fo_ID f \<notin> ?S" for f
    using that by (auto simp: subtree_def intro: inside.below)
  have rooted: "rooted w i \<Longrightarrow> i \<notin> ?S \<Longrightarrow> rooted ?v i" for i
  proof (induction rule: rooted.induct)
    case root
    show ?case by (rule rooted.root)
  next
    case (child f)
    then show ?case using up folders by (blast intro: rooted.child)
  qed
  have parent: "parentOK w q u \<Longrightarrow> q \<notin> ?S \<Longrightarrow> parentOK ?v q u" for q u
    by (auto simp: parentOK_def folders)
  have "\<forall>f. isFolder ?v f \<longrightarrow> rooted ?v (fo_ID f)"
    using inv rooted by (auto simp: folders libInv_def)
  moreover have "\<forall>f. isFolder ?v f \<longrightarrow> parentOK ?v (fo_ParentFolderID f) (fo_UserID f)"
    using inv parent up by (auto simp: folders libInv_def)
  moreover have "\<forall>l. isLink ?v l \<longrightarrow> parentOK ?v (ln_ParentFolderID l) (ln_UserID l)"
    using inv parent by (auto simp: links libInv_def)
  moreover have "map fo_ID (lb_folders ?v) = map fo_ID (lb_folders w)" "map ln_ID (lb_links ?v) = map ln_ID (lb_links w)"
    "lb_nextFolder ?v = lb_nextFolder w" "lb_nextLink ?v = lb_nextLink w"
    by (simp_all add: withoutTree_def withoutFolders_def withoutLinks_def map_update_where)
  moreover have "\<forall>f \<in> set (lb_folders ?v). 0 < fo_ID f \<and> fo_ID f < lb_nextFolder w" "\<forall>l \<in> set (lb_links ?v). ln_ID l < lb_nextLink w"
    using inv by (auto simp: libInv_def withoutTree_def withoutFolders_def withoutLinks_def elim!: update_whereE)
  ultimately show ?thesis using inv by (simp add: libInv_def)
qed

lemma DeleteFolders_cases:
  assumes "DeleteFolders maxItems roots userID isAdmin (w, fs) = (r, w', fs')" "libInv w"
  obtains (refused) e where "r = Inl e" "w' = w"
    | (deleted) ls where "r = Inr ls" "w' = withoutTree roots w" "set ls = linksIn w (subtree w (set roots))"
        "\<forall>i \<in> set roots. \<exists>f. isFolder w f \<and> fo_ID f = i \<and> owned isAdmin userID (fo_UserID f)"
proof (cases "Blocked userID w")
  case True
  with assms(1) refused show ?thesis
    by (auto simp: DeleteFolders_def tx_bind_def tx_peek_def tx_fail_def)
next
  case False
  let ?w = "snd (TryStart userID w)"
  have w1: "?w = w\<lparr>lb_active := userID # lb_active w\<rparr>" and free: "userID \<notin> set (lb_active w)"
    using False by (simp_all add: TryStart_def Blocked_def)
  have inv1: "libInv ?w"
    by (rule libInv_same_folders [OF assms(2)]) (use assms(2) in \<open>simp_all add: w1 libInv_def isLink_def\<close>)
  have end': "End userID ?w = w" using free by (simp add: w1 End_def)
  have endtree: "End userID (withoutTree roots ?w) = withoutTree roots w"
    using free by (simp add: w1 End_def withoutTree_def withoutFolders_def withoutLinks_def subtree_active)
  let ?m = "if roots = [] then tx_fail (App (HttpError 400 ''array FolderIDs is empty''))
         else if maxItems < length roots then tx_fail (App (HttpError 400 ''max requested items exceeded''))
         else transaction (deleteFoldersBody roots userID isAdmin)"
  obtain r1 w2 fs2 where run: "?m (?w, fs) = (r1, w2, fs2)" by (cases "?m (?w, fs)") auto
  have r: "r = r1" "w' = End userID w2"
    using assms(1) False run
    by (auto simp: DeleteFolders_def tx_bind_def tx_peek_def tx_poke_def tx_try_def tx_fail_def tx_return_def
        split: prod.splits sum.splits)
  show ?thesis
  proof (cases "roots = [] \<or> maxItems < length roots")
    case True
    with run r end' refused show ?thesis by (auto simp: tx_fail_def split: if_splits)
  next
    case False
    with run have t: "transaction (deleteFoldersBody roots userID isAdmin) (?w, fs) = (r1, w2, fs2)" by simp
    have body: "wp (deleteFoldersBody roots userID isAdmin) (\<lambda>ls w'. w' = withoutTree roots ?w \<and>
        set ls = linksIn ?w (subtree ?w (set roots)) \<and>
        (\<forall>i \<in> set roots. \<exists>f. isFolder ?w f \<and> fo_ID f = i \<and> owned isAdmin userID (fo_UserID f))) ?w"
      unfolding ends_wp [symmetric] by (rule deleteFoldersBody_result [OF inv1])
    have same: "subtree ?w R = subtree w R" "linksIn ?w A = linksIn w A" "isFolder ?w f = isFolder w f" for R A f
      by (simp_all add: w1 subtree_active linksIn_def isLink_def isFolder_def)
    from t body show ?thesis
    proof (rule transaction_cases)
      fix e assume "r1 = Inl e" "w2 = ?w"
      with r end' show ?thesis by (intro refused) simp_all
    next
      fix ls assume "r1 = Inr ls" and w2: "w2 = withoutTree roots ?w \<and>
        set ls = linksIn ?w (subtree ?w (set roots)) \<and>
        (\<forall>i \<in> set roots. \<exists>f. isFolder ?w f \<and> fo_ID f = i \<and> owned isAdmin userID (fo_UserID f))"
      with r have "r = Inr ls" by simp
      moreover from w2 r endtree have "w' = withoutTree roots w" by simp
      ultimately show ?thesis using w2 unfolding same by (elim conjE) (rule deleted)
    qed
  qed
qed

section \<open>Deleting files\<close>

lemma linkById_Some: "linkById i w = Some l \<Longrightarrow> isLink w l \<and> ln_ID l = i"
  by (auto simp: linkById_def liveLinks_def isLink_def dest: find_key_SomeD)

lemma requestedLinks_result:
  assumes "\<forall>l \<in> set links. isLink w l \<and> owned isAdmin userID (ln_UserID l)"
  shows "ends (requestedLinks userID isAdmin ids seen links) (\<lambda>r w'. w' = w \<and> (\<forall>ls. r = Inr ls \<longrightarrow>
    map ln_ID ls = map ln_ID links @ ids \<and> (\<forall>l \<in> set ls. isLink w l \<and> owned isAdmin userID (ln_UserID l)))) w"
  using assms
proof (induction ids arbitrary: seen links)
  case Nil
  then show ?case by (auto intro!: ends_return)
next
  case (Cons i ids)
  have go: "ends (requestedLinks userID isAdmin ids seen' (links @ [l])) (\<lambda>r w'. w' = w \<and> (\<forall>ls. r = Inr ls \<longrightarrow>
    map ln_ID ls = map ln_ID links @ ln_ID l # ids \<and> (\<forall>l \<in> set ls. isLink w l \<and> owned isAdmin userID (ln_UserID l)))) w"
    if "isLink w l" "owned isAdmin userID (ln_UserID l)" for l seen'
    by (rule ends_mono [OF Cons.IH]) (use that Cons.prems in auto)
  show ?case
    unfolding requestedLinks.simps
    by (intro ends_if ends_bind ends_catch ends_first)
      (auto intro!: ends_fail go dest!: linkById_Some)
qed

lemma DeleteFiles_cases:
  assumes "DeleteFiles maxItems ids userID isAdmin (w, fs) = (r, w', fs')" "libInv w"
  obtains (refused) e where "r = Inl e" "w' = w"
    | (deleted) ls where "r = Inr ls" "map ln_ID ls = ids" "\<forall>l \<in> set ls. isLink w l \<and> owned isAdmin userID (ln_UserID l)"
        "w' = withoutLinks (\<lambda>l. ln_ID l \<in> set ids) w"
proof (cases "ids = [] \<or> maxItems < length ids")
  case True
  with assms(1) refused show ?thesis by (auto simp: DeleteFiles_def tx_fail_def split: if_splits)
next
  case False
  let ?body = "tx_bind (requestedLinks userID isAdmin ids [] []) (\<lambda>links.
        tx_bind (deleteLinksInTransaction links userID isAdmin) (\<lambda>_. tx_return links))"
  have t: "transaction ?body (w, fs) = (r, w', fs')"
    using assms(1) False by (auto simp: DeleteFiles_def)
  have same: "withoutLinks (\<lambda>l. ln_ID l \<in> ln_ID ` set ls \<and> owned isAdmin userID (ln_UserID l)) w =
      withoutLinks (\<lambda>l. ln_ID l \<in> ln_ID ` set ls) w"
    if ls: "\<forall>l \<in> set ls. isLink w l \<and> owned isAdmin userID (ln_UserID l)" for ls
  proof (rule withoutLinks_cong)
    fix l assume l: "isLink w l"
    have "owned isAdmin userID (ln_UserID l)" if "ln_ID l \<in> ln_ID ` set ls"
    proof -
      from that obtain k where k: "k \<in> set ls" "ln_ID k = ln_ID l" by force
      with ls l assms(2) have "k = l" by (auto simp: isLink_def libInv_def distinct_map inj_on_def)
      with k ls show ?thesis by blast
    qed
    then show "(ln_ID l \<in> ln_ID ` set ls \<and> owned isAdmin userID (ln_UserID l)) = (ln_ID l \<in> ln_ID ` set ls)" by blast
  qed
  have requested: "ends (requestedLinks userID isAdmin ids [] []) (\<lambda>r w'. w' = w \<and> (\<forall>ls. r = Inr ls \<longrightarrow>
      map ln_ID ls = ids \<and> (\<forall>l \<in> set ls. isLink w l \<and> owned isAdmin userID (ln_UserID l)))) w"
    using requestedLinks_result [of "[]" w isAdmin userID ids "[]"] by simp
  have "wp ?body (\<lambda>ls w'. map ln_ID ls = ids \<and> (\<forall>l \<in> set ls. isLink w l \<and> owned isAdmin userID (ln_UserID l)) \<and>
      w' = withoutLinks (\<lambda>l. ln_ID l \<in> ln_ID ` set ls) w) w"
    unfolding ends_wp [symmetric]
    by (auto intro!: ends_bind ends_return ends_mono [OF requested] ends_mono [OF deleteLinksInTransaction_result] simp: same)
  with t show ?thesis
  proof (rule transaction_cases)
    fix e assume "r = Inl e" "w' = w" then show ?thesis by (rule refused)
  next
    fix ls assume r: "r = Inr ls" and *: "map ln_ID ls = ids \<and> (\<forall>l \<in> set ls. isLink w l \<and> owned isAdmin userID (ln_UserID l)) \<and>
      w' = withoutLinks (\<lambda>l. ln_ID l \<in> ln_ID ` set ls) w"
    from * have "ln_ID ` set ls = set ids" by (metis list.set_map)
    with * have "w' = withoutLinks (\<lambda>l. ln_ID l \<in> set ids) w" by simp
    with r * show ?thesis by (elim conjE) (rule deleted)
  qed
qed

section \<open>The system\<close>

inductive lib_step :: "library \<Rightarrow> library \<Rightarrow> bool" where
  Create: "CreateFolder name parent owner (w, fs) = (r, w', fs') \<Longrightarrow> lib_step w w'"
| Save: "saveLink l (w, fs) = (r, w', fs') \<Longrightarrow> lib_step w w'"
| Move: "MoveItems userId target folderIds linkIds isAdmin (w, fs) = (r, w', fs') \<Longrightarrow> lib_step w w'"
| RemoveFolders: "DeleteFolders maxItems roots userID isAdmin (w, fs) = (r, w', fs') \<Longrightarrow> lib_step w w'"
| RemoveFiles: "DeleteFiles maxItems ids userID isAdmin (w, fs) = (r, w', fs') \<Longrightarrow> lib_step w w'"
| Other: "lb_folders w' = lb_folders w \<Longrightarrow> lb_links w' = lb_links w \<Longrightarrow> lb_nextFolder w' = lb_nextFolder w \<Longrightarrow>
    lb_nextLink w' = lb_nextLink w \<Longrightarrow> lib_step w w'"

definition libInit :: "library \<Rightarrow> bool" where
  "libInit w \<longleftrightarrow> lb_folders w = [] \<and> lb_links w = [] \<and> lb_nextFolder w = 1"

lemma libInv_step: "lib_step w w' \<Longrightarrow> libInv w \<Longrightarrow> libInv w'"
proof (induction rule: lib_step.induct)
  case (Move userId target folderIds linkIds isAdmin w fs r w' fs')
  from Move.hyps Move.prems show ?case
    by (rule MoveItems_cases) (use Move.prems in \<open>auto intro: libInv_moved\<close>)
next
  case (RemoveFolders maxItems roots userID isAdmin w fs r w' fs')
  from RemoveFolders.hyps RemoveFolders.prems show ?case
    by (rule DeleteFolders_cases) (use RemoveFolders.prems in \<open>auto intro: libInv_withoutTree\<close>)
next
  case (RemoveFiles maxItems ids userID isAdmin w fs r w' fs')
  from RemoveFiles.hyps RemoveFiles.prems show ?case
    by (rule DeleteFiles_cases) (use RemoveFiles.prems in \<open>auto intro: libInv_withoutLinks\<close>)
next
  case (Other w' w)
  then show ?case by (intro libInv_same_folders [of w w']) (auto simp: libInv_def isLink_def)
qed (auto intro: CreateFolder_inv saveLink_inv)

interpretation library: invariant_system libInit lib_step libInv
proof
  show "libInv w" if "libInit w" for w
    using that by (simp add: libInit_def libInv_def isFolder_def isLink_def)
qed (rule libInv_step, assumption+)

end
