(* ===== verification/LibShare.thy ===== *)
theory LibShare
  imports LibSystem
begin

text \<open>
  What a share reaches: the walk from a folder up to the shared root and the recursive query of
  its subtree agree, up to the depth the walk allows.
\<close>

section \<open>Levels below the root\<close>

primrec levelsBelow :: "library \<Rightarrow> nat \<Rightarrow> nat \<Rightarrow> nat \<Rightarrow> bool" where
  "levelsBelow w a 0 i \<longleftrightarrow> i = a \<and> (\<exists>f. isFolder w f \<and> fo_ID f = a)"
| "levelsBelow w a (Suc n) i \<longleftrightarrow> i \<noteq> a \<and> (\<exists>f. isFolder w f \<and> fo_ID f = i \<and> levelsBelow w a n (fo_ParentFolderID f))"

lemma levelsBelow_inside: "levelsBelow w a n i \<Longrightarrow> inside w a i"
  by (induction n arbitrary: i) (auto intro: inside.intros)

lemma inside_levelsBelow: "inside w a i \<Longrightarrow> \<exists>n. levelsBelow w a n i"
proof (induction rule: inside.induct)
  case (self f)
  then have "levelsBelow w a 0 a" by auto
  then show ?case by blast
next
  case (below f)
  show ?case
  proof (cases "fo_ID f = a")
    case True
    with below.hyps have "levelsBelow w a 0 (fo_ID f)" by auto
    then show ?thesis by blast
  next
    case False
    from below.IH obtain n where "levelsBelow w a n (fo_ParentFolderID f)" ..
    with False below.hyps have "levelsBelow w a (Suc n) (fo_ID f)" by auto
    then show ?thesis by blast
  qed
qed

section \<open>The walk\<close>

abbreviation ownFolder :: "share_row \<Rightarrow> nat \<Rightarrow> library \<Rightarrow> folder_row option" where
  "ownFolder share i w \<equiv> find (\<lambda>f. fo_ID f = i \<and> fo_UserID f = sh_UserID share) (liveFolders w)"

lemma ownFolder_Some: "ownFolder share i w = Some f \<Longrightarrow> isFolder w f \<and> fo_ID f = i \<and> fo_UserID f = sh_UserID share"
  by (auto simp: liveFolders_def isFolder_def dest!: find_key_SomeD)

lemma ownFolder_found:
  assumes "distinct (map fo_ID (lb_folders w))" "isFolder w f" "fo_UserID f = sh_UserID share"
  shows "ownFolder share (fo_ID f) w = Some f"
proof (cases "ownFolder share (fo_ID f) w")
  case None
  with assms(2,3) show ?thesis by (auto simp: find_None_iff liveFolders_def isFolder_def)
next
  case (Some g)
  with ownFolder_Some [OF Some] folder_unique [OF assms(1,2)] show ?thesis by metis
qed

lemma shareWalk_sound:
  "ends (shareWalk n share i seen) (\<lambda>r w'. w' = w \<and> (r = Inr () \<longrightarrow> (\<exists>m<n. levelsBelow w (sh_FolderID share) m i))) w"
proof (induction n arbitrary: i seen)
  case 0
  then show ?case by (auto intro!: ends_fail)
next
  case (Suc n)
  have top: "\<exists>m<Suc n. levelsBelow w a m a" if "isFolder w f" "fo_ID f = a" for f a
    by (rule exI [of _ 0]) (use that in auto)
  have up: "\<exists>m<Suc n. levelsBelow w a m j"
    if "isFolder w f" "fo_ID f = j" "j \<noteq> a" "m < n" "levelsBelow w a m (fo_ParentFolderID f)" for f m a j
    by (rule exI [of _ "Suc m"]) (use that in auto)
  show ?case
    unfolding shareWalk.simps
    by (intro ends_if ends_bind ends_catch ends_first)
      (auto intro!: ends_fail ends_return ends_mono [OF Suc.IH] dest!: ownFolder_Some intro: top up)
qed

lemma no_self_ancestor: "libInv w \<Longrightarrow> \<not> strictlyInside w i i"
  using rooted_no_cycle [of w i] by (auto simp: strictlyInside_def libInv_def)

lemma shareWalk_complete:
  assumes inv: "libInv w" and root: "isFolder w r" "fo_ID r = sh_FolderID share" "fo_UserID r = sh_UserID share"
    and "levelsBelow w (sh_FolderID share) m i" "m < n" "\<forall>s \<in> set seen. strictlyInside w i s"
  shows "shareWalk n share i seen (w, []) = (Inr (), w, [])"
  using assms(5-)
proof (induction n arbitrary: i m seen)
  case (Suc n)
  have dist: "distinct (map fo_ID (lb_folders w))" and pos: "\<forall>f \<in> set (lb_folders w). 0 < fo_ID f"
    using inv by (simp_all add: libInv_def)
  from levelsBelow_inside [OF Suc.prems(1)] have inside_i: "inside w (sh_FolderID share) i" .
  then obtain f where f: "isFolder w f" "fo_ID f = i" using inside_folder by blast
  have own: "fo_UserID f = sh_UserID share"
    using inside_owner [OF inv root(1), of i f] inside_i root f by simp
  have found: "ownFolder share i w = Some f" using ownFolder_found [OF dist f(1) own] f(2) by simp
  have i: "i \<noteq> 0" "i \<notin> set seen"
    using f pos no_self_ancestor [OF inv] Suc.prems(3) by (auto simp: isFolder_def)
  show ?case
  proof (cases "fo_ID f = sh_FolderID share")
    case True
    with i found show ?thesis by (simp add: tx_run)
  next
    case False
    then obtain k where m: "m = Suc k" using Suc.prems(1) f by (cases m) auto
    have up: "levelsBelow w (sh_FolderID share) k (fo_ParentFolderID f)"
    proof -
      from Suc.prems(1) m obtain g where g: "isFolder w g" "fo_ID g = i" "levelsBelow w (sh_FolderID share) k (fo_ParentFolderID g)"
        by (auto simp only: levelsBelow.simps)
      moreover have "g = f" using folder_unique [OF dist g(1) f(1)] g(2) f(2) by simp
      ultimately show ?thesis by simp
    qed
    then obtain p where p: "isFolder w p" "fo_ID p = fo_ParentFolderID f"
      using inside_folder [OF levelsBelow_inside] by blast
    then have self: "inside w (fo_ParentFolderID f) (fo_ParentFolderID f)" by (metis inside.self)
    have "strictlyInside w (fo_ParentFolderID f) s" if "s \<in> set (i # seen)" for s
    proof (cases "s = i")
      case True
      with self f show ?thesis by (auto simp: strictlyInside_def)
    next
      case False
      with that Suc.prems(3) obtain g where "isFolder w g" "fo_ID g = s" "inside w i (fo_ParentFolderID g)"
        by (auto simp: strictlyInside_def)
      moreover have "inside w (fo_ParentFolderID f) i" using inside.below [OF f(1) self] f(2) by simp
      ultimately show ?thesis by (auto simp: strictlyInside_def intro: inside_trans)
    qed
    then have "shareWalk n share (fo_ParentFolderID f) (i # seen) (w, []) = (Inr (), w, [])"
      using Suc.IH [OF up] Suc.prems(2) m by simp
    with i found False show ?thesis by (simp add: tx_run)
  qed
qed simp

section \<open>The recursive query\<close>

lemma growSubtree_result:
  assumes inv: "libInv w" and root: "isFolder w r" "fo_ID r = sh_FolderID share" "fo_UserID r = sh_UserID share"
    and "distinct ids" "set ids \<subseteq> subtree w {sh_FolderID share}" "sh_FolderID share \<in> set ids"
      "length (lb_folders w) < n + length ids"
  shows "set (growSubtree n share w ids) = subtree w {sh_FolderID share}"
  using assms(5-)
proof (induction n arbitrary: ids)
  case 0
  have "set ids \<subseteq> fo_ID ` set (lb_folders w)"
    using "0.prems"(2) by (auto dest!: subsetD inside_folder simp: isFolder_def subtree_def)
  from visited_bound [OF "0.prems"(1) this] "0.prems"(4) show ?case by simp
next
  case (Suc n)
  let ?new = "map fo_ID (filter (\<lambda>f. fo_UserID f = sh_UserID share \<and> fo_ParentFolderID f \<in> set ids \<and>
        fo_ID f \<notin> set ids) (liveFolders w))"
  show ?case
  proof (cases "?new = []")
    case True
    have "i \<in> set ids" if "inside w (sh_FolderID share) i" for i
      using that
    proof (induction rule: inside.induct)
      case (below f)
      have "fo_UserID f = sh_UserID share"
        using inside_owner [OF inv root(1), of "fo_ID f" f] inside.below [OF below.hyps] root below.hyps(1) by simp
      moreover have "f \<in> set (liveFolders w)" using below.hyps(1) by (simp add: liveFolders_def isFolder_def)
      ultimately show ?case using True below.IH by (auto simp: filter_empty_conv)
    qed (use Suc.prems(3) in simp)
    with True Suc.prems(2) show ?thesis by (auto simp: subtree_def Let_def)
  next
    case False
    have dist: "distinct (map fo_ID (liveFolders w))"
      using inv by (simp add: libInv_def liveFolders_def distinct_map_filter)
    have new: "set ?new \<subseteq> subtree w {sh_FolderID share}"
      using Suc.prems(2) by (fastforce simp: liveFolders_def isFolder_def subtree_def intro: inside.below)
    have "set (growSubtree n share w (ids @ ?new)) = subtree w {sh_FolderID share}"
    proof (rule Suc.IH)
      show "distinct (ids @ ?new)" using Suc.prems(1) dist by (auto simp: distinct_map_filter)
      show "set (ids @ ?new) \<subseteq> subtree w {sh_FolderID share}" using Suc.prems(2) new by auto
      show "length (lb_folders w) < n + length (ids @ ?new)"
        using Suc.prems(4) False by (cases ?new) auto
    qed (use Suc.prems(3) in simp)
    with False show ?thesis by (simp add: Let_def)
  qed
qed

lemma shareSubtree_result:
  assumes inv: "libInv w" and root: "isFolder w r" "fo_ID r = sh_FolderID share" "fo_UserID r = sh_UserID share"
  shows "set (shareSubtree share w) = subtree w {sh_FolderID share}"
proof -
  let ?ids = "map fo_ID (filter (\<lambda>f. fo_ID f = sh_FolderID share \<and> fo_UserID f = sh_UserID share) (liveFolders w))"
  have dist: "distinct (map fo_ID (liveFolders w))"
    using inv by (simp add: libInv_def liveFolders_def distinct_map_filter)
  have r: "sh_FolderID share \<in> set ?ids"
    using root by (force simp: liveFolders_def isFolder_def)
  have ids: "set ?ids \<subseteq> subtree w {sh_FolderID share}"
    using root by (auto simp: subtree_def liveFolders_def isFolder_def intro: inside.self)
  show ?thesis
    unfolding shareSubtree_def
    by (rule growSubtree_result [OF inv root _ ids r]) (simp_all add: dist distinct_map_filter)
qed

end
