(* ===== verification/LibLive.thy ===== *)
theory LibLive
  imports LibShare
begin

text \<open>In a world without faults an allowed move and an allowed deletion succeed.\<close>

section \<open>Moving\<close>

lemma folderById_found:
  assumes "distinct (map fo_ID (lb_folders w))" "isFolder w f"
  shows "folderById (fo_ID f) w = Some f"
proof (cases "folderById (fo_ID f) w")
  case None
  with assms(2) show ?thesis by (auto simp: folderById_def find_None_iff liveFolders_def isFolder_def)
next
  case (Some g)
  with folderById_Some [OF Some] folder_unique [OF assms(1)] assms(2) show ?thesis by metis
qed

lemma containsWalk_runs:
  assumes inv: "libInv w" and "rooted w i" "\<forall>s \<in> set vs. strictlyInside w i s"
    and "distinct vs" "set vs \<subseteq> fo_ID ` set (lb_folders w)" "length (lb_folders w) + 1 < n + length vs"
  shows "\<exists>b. containsWalk n a i vs (w, []) = (Inr b, w, [])"
  using assms(2-)
proof (induction arbitrary: vs n rule: rooted.induct)
  case root
  with visited_bound [OF root.prems(2,3)] show ?case by (cases n) (auto simp: tx_run)
next
  case (child f)
  have dist: "distinct (map fo_ID (lb_folders w))" using inv by (simp add: libInv_def)
  have f: "fo_ID f \<noteq> 0" "fo_ID f \<notin> set vs" "fo_ID f \<in> fo_ID ` set (lb_folders w)"
    using child.hyps(1) child.prems(1) no_self_ancestor [OF inv] inv by (auto simp: isFolder_def libInv_def)
  obtain k where n: "n = Suc k" using visited_bound [OF child.prems(2,3)] child.prems(4) by (cases n) auto
  show ?case
  proof (cases "fo_ParentFolderID f = 0")
    case True
    obtain j where "k = Suc j"
      using visited_bound [of "fo_ID f # vs" w] f child.prems n by (cases k) auto
    with True f folderById_found [OF dist child.hyps(1)] n show ?thesis by (auto simp: tx_run)
  next
    case False
    with child.hyps(1) inv obtain p where p: "isFolder w p" "fo_ID p = fo_ParentFolderID f"
      by (auto simp: libInv_def parentOK_def)
    then have self: "inside w (fo_ParentFolderID f) (fo_ParentFolderID f)" by (metis inside.self)
    have "strictlyInside w (fo_ParentFolderID f) s" if "s \<in> set (fo_ID f # vs)" for s
    proof (cases "s = fo_ID f")
      case True
      with self child.hyps(1) show ?thesis by (auto simp: strictlyInside_def)
    next
      case False
      with that child.prems(1) obtain g where "isFolder w g" "fo_ID g = s" "inside w (fo_ID f) (fo_ParentFolderID g)"
        by (auto simp: strictlyInside_def)
      moreover have "inside w (fo_ParentFolderID f) (fo_ID f)" by (rule inside.below [OF child.hyps(1) self])
      ultimately show ?thesis by (auto simp: strictlyInside_def intro: inside_trans)
    qed
    then have "\<exists>b. containsWalk k a (fo_ParentFolderID f) (fo_ID f # vs) (w, []) = (Inr b, w, [])"
      by (intro child.IH) (use child.prems f n in auto)
    with f folderById_found [OF dist child.hyps(1)] n show ?thesis by (auto simp: tx_run)
  qed
qed

lemma ends_run: "ends m Q w \<Longrightarrow> m (w, []) = (r, w', fs') \<Longrightarrow> Q r w'"
  unfolding ends_def by (metis fst_conv snd_conv)

lemma folderContainsFolder_runs:
  assumes inv: "libInv w" and "rooted w i" "isFolder w g" "fo_ID g = a"
  shows "folderContainsFolder a i (w, []) = (Inr (strictlyInside w a i), w, [])"
proof -
  obtain b where b: "containsWalk (length (lb_folders w) + 2) a i [] (w, []) = (Inr b, w, [])"
    using containsWalk_runs [OF inv assms(2), of "[]" "length (lb_folders w) + 2" a] by auto
  then have run: "folderContainsFolder a i (w, []) = (Inr b, w, [])"
    by (simp add: folderContainsFolder_def tx_run tx_peek_def del: containsWalk.simps)
  from ends_run [OF folderContainsFolder_result [OF inv assms(3,4)] run] run show ?thesis by (simp add: walked_def)
qed

lemma ownedFolder_found:
  assumes "distinct (map fo_ID (lb_folders w))" "isFolder w f" "owned isAdmin userId (fo_UserID f)"
  shows "ownedFolder isAdmin userId (fo_ID f) w = Some f"
proof (cases "ownedFolder isAdmin userId (fo_ID f) w")
  case None
  with assms(2,3) show ?thesis by (auto simp: ownedFolder_def find_None_iff liveFolders_def isFolder_def)
next
  case (Some g)
  with ownedFolder_Some [OF Some] folder_unique [OF assms(1,2)] show ?thesis by metis
qed

lemma ownedLink_found:
  assumes "distinct (map ln_ID (lb_links w))" "isLink w l" "owned isAdmin userId (ln_UserID l)"
  shows "ownedLink isAdmin userId (ln_ID l) w = Some l"
proof (cases "ownedLink isAdmin userId (ln_ID l) w")
  case None
  with assms(2,3) show ?thesis by (auto simp: ownedLink_def find_None_iff liveLinks_def isLink_def)
next
  case (Some g)
  with ownedLink_Some [OF Some] assms show ?thesis by (auto simp: isLink_def distinct_map inj_on_def)
qed

lemma checkFolderMove_runs:
  assumes inv: "libInv w" and "canMoveFolder w isAdmin userId target owner i"
    and t: "0 < target \<longrightarrow> (\<exists>t. isFolder w t \<and> fo_ID t = target)"
  shows "checkFolderMove isAdmin userId target owner i (w, []) = (Inr (), w, [])"
proof -
  from assms(2) obtain f where f: "isFolder w f" "fo_ID f = i" "owned isAdmin userId (fo_UserID f)" "i \<noteq> target"
    "0 < target \<longrightarrow> fo_UserID f = owner \<and> \<not> strictlyInside w i target"
    by (auto simp: canMoveFolder_def)
  have dist: "distinct (map fo_ID (lb_folders w))" using inv by (simp add: libInv_def)
  have "0 < target \<longrightarrow> rooted w target" using t inv by (auto simp: libInv_def)
  with f ownedFolder_found [OF dist f(1,3)] folderContainsFolder_runs [OF inv _ f(1,2)] show ?thesis
    by (auto simp: checkFolderMove_def firstOr_def tx_run)
qed

lemma checkLinkMove_runs:
  assumes inv: "libInv w" and "canMoveLink w isAdmin userId target owner i"
  shows "checkLinkMove isAdmin userId target owner i (w, []) = (Inr (), w, [])"
proof -
  from assms(2) obtain l where l: "isLink w l" "ln_ID l = i" "owned isAdmin userId (ln_UserID l)"
    "0 < target \<longrightarrow> ln_UserID l = owner"
    by (auto simp: canMoveLink_def)
  have "distinct (map ln_ID (lb_links w))" using inv by (simp add: libInv_def)
  with l ownedLink_found [OF this l(1,3)] show ?thesis by (auto simp: checkLinkMove_def firstOr_def tx_run)
qed

lemma foreach_runs:
  "(\<And>x. x \<in> set xs \<Longrightarrow> f x (w, []) = (Inr (), w, [])) \<Longrightarrow> tx_foreach f xs (w, []) = (Inr (), w, [])"
  by (induction xs) (simp_all add: tx_run)

lemma foreach_updates_runs: "tx_foreach (\<lambda>x. tx_update (g x)) xs (w, []) = (Inr (), fold g xs w, [])"
  by (induction xs arbitrary: w) (simp_all add: tx_run)

lemma MoveItems_runs:
  assumes inv: "libInv w" and can: "canMove w userId target folderIds linkIds isAdmin" and "folderIds \<noteq> [] \<or> linkIds \<noteq> []"
  shows "MoveItems userId target folderIds linkIds isAdmin (w, []) =
    (Inr (), moved target (set folderIds) (set linkIds) w, [])"
proof -
  from can obtain owner where
    t: "0 < target \<Longrightarrow> \<exists>t. isFolder w t \<and> fo_ID t = target \<and> fo_UserID t = owner \<and> owned isAdmin userId owner"
    and F: "\<And>i. i \<in> set folderIds \<Longrightarrow> canMoveFolder w isAdmin userId target owner i"
    and L: "\<And>i. i \<in> set linkIds \<Longrightarrow> canMoveLink w isAdmin userId target owner i"
    unfolding canMove_def by blast
  have dist: "distinct (map fo_ID (lb_folders w))" using inv by (simp add: libInv_def)
  have upd: "tx_bind (tx_foreach (\<lambda>i. tx_update (setFolderParent target i)) folderIds)
      (\<lambda>_. tx_foreach (\<lambda>i. tx_update (setLinkParent target i)) linkIds) (w, []) =
    (Inr (), moved target (set folderIds) (set linkIds) w, [])"
    using fold_setFolderParent [of target folderIds "{}" "{}" w] fold_setLinkParent [of target linkIds "set folderIds" "{}" w]
    by (simp add: tx_run foreach_updates_runs)
  have checks: "tx_foreach (checkFolderMove isAdmin userId target ow) folderIds (w, []) = (Inr (), w, [])"
    "tx_foreach (checkLinkMove isAdmin userId target ow) linkIds (w, []) = (Inr (), w, [])"
    if "0 < target \<longrightarrow> ow = owner" for ow
    using that F L t
    by (auto intro!: foreach_runs checkFolderMove_runs checkLinkMove_runs inv simp: canMoveFolder_def canMoveLink_def)
  have "moveBody userId target folderIds linkIds isAdmin (w, []) = (Inr (), moved target (set folderIds) (set linkIds) w, [])"
  proof (cases "0 < target")
    case True
    with t obtain f where f: "isFolder w f" "fo_ID f = target" "fo_UserID f = owner" "owned isAdmin userId (fo_UserID f)" by auto
    with True ownedFolder_found [OF dist f(1,4)] upd checks [of owner] show ?thesis
      by (simp add: moveBody_def firstOr_def tx_run)
  next
    case False
    then have none: "target = 0" by simp
    from upd checks [of 0] show ?thesis unfolding none by (simp add: moveBody_def tx_run)
  qed
  with assms(3) show ?thesis by (auto simp: MoveItems_def tx_run)
qed

section \<open>Fuel\<close>

text \<open>\<open>bounded m\<close>: from no state does \<open>m\<close> run out of fuel.\<close>

definition bounded :: "'a lib_tx \<Rightarrow> bool" where
  "bounded m \<longleftrightarrow> (\<forall>w. ends m (\<lambda>r _. r \<noteq> Inl (App Unbounded)) w)"

lemma bounded_steps:
  "bounded (tx_return x)" "e \<noteq> App Unbounded \<Longrightarrow> bounded (tx_fail e)" "bounded (tx_first p)" "bounded (tx_update u)"
  "e' \<noteq> Unbounded \<Longrightarrow> bounded (tx_reject c e')" "bounded (tx_peek g)" "bounded (tx_poke u)"
  by (auto simp: bounded_def intro!: tx_ends)

lemma bounded_if: "bounded m \<Longrightarrow> bounded n \<Longrightarrow> bounded (if c then m else n)"
  by simp

lemma bounded_bind: "bounded m \<Longrightarrow> (\<And>x. bounded (f x)) \<Longrightarrow> bounded (tx_bind m f)"
proof -
  assume "bounded m" and f: "\<And>x. bounded (f x)"
  then have m: "ends m (\<lambda>r _. r \<noteq> Inl (App Unbounded)) w" for w by (simp add: bounded_def)
  have "ends (tx_bind m f) (\<lambda>r _. r \<noteq> Inl (App Unbounded)) w" for w
    by (rule ends_bind, rule ends_mono [OF m]) (use f in \<open>auto simp: bounded_def\<close>)
  then show "bounded (tx_bind m f)" by (simp add: bounded_def)
qed

lemma bounded_foreach: "(\<And>x. bounded (f x)) \<Longrightarrow> bounded (tx_foreach f xs)"
  by (induction xs) (auto intro: bounded_steps bounded_bind)

lemma bounded_transaction: "bounded m \<Longrightarrow> bounded (transaction m)"
proof -
  assume m: "bounded m"
  have "bounded (tx_bind m (\<lambda>x. tx_stmt (\<lambda>d. Inr (x, d))))"
    by (rule bounded_bind [OF m]) (auto simp: bounded_def intro!: ends_stmt)
  then show ?thesis
    by (auto simp: bounded_def ends_def transaction_def split: prod.splits sum.splits) (metis fst_conv)
qed

lemma bounded_firstOr: "bounded (firstOr f msg)"
  by (auto simp: bounded_def firstOr_def intro!: tx_ends)

lemma bounded_folderContainsFolder: "bounded (folderContainsFolder a i)"
  unfolding folderContainsFolder_def bounded_def
  by (auto intro!: tx_ends containsWalk_bounded simp del: containsWalk.simps)

lemma bounded_MoveItems: "bounded (MoveItems userId target folderIds linkIds isAdmin)"
  unfolding MoveItems_def moveBody_def checkFolderMove_def checkLinkMove_def
  by (auto intro!: bounded_transaction bounded_bind bounded_foreach bounded_steps bounded_firstOr
      bounded_folderContainsFolder bounded_if)

lemma bounded_DeleteFolders: "bounded (DeleteFolders maxItems roots userID isAdmin)"
proof -
  have body: "bounded (deleteFoldersBody roots userID isAdmin)"
    by (simp add: bounded_def deleteFoldersBody_bounded)
  let ?m = "if roots = [] then tx_fail (App (HttpError 400 ''array FolderIDs is empty''))
         else if maxItems < length roots then tx_fail (App (HttpError 400 ''max requested items exceeded''))
         else transaction (deleteFoldersBody roots userID isAdmin)"
  have m: "bounded ?m" by (intro bounded_if bounded_steps bounded_transaction body) simp_all
  have run: "ends ?m (\<lambda>r _. r \<noteq> Inl (App Unbounded)) w" for w using m by (simp add: bounded_def)
  have "ends (tx_bind (tx_try ?m) (\<lambda>r. tx_bind (tx_poke (End userID)) (\<lambda>_. case r of Inl e \<Rightarrow> tx_fail e | Inr links \<Rightarrow> tx_return links)))
      (\<lambda>r _. r \<noteq> Inl (App Unbounded)) w" for w
    by (rule ends_bind, rule ends_try, rule ends_mono [OF run]) (auto intro!: tx_ends split: sum.splits)
  then have rest: "bounded (tx_bind (tx_try ?m) (\<lambda>r. tx_bind (tx_poke (End userID)) (\<lambda>_. case r of Inl e \<Rightarrow> tx_fail e | Inr links \<Rightarrow> tx_return links)))"
    by (simp add: bounded_def)
  show ?thesis
    unfolding DeleteFolders_def by (intro bounded_bind bounded_if bounded_steps rest) simp
qed

end
