(* ===== verification/LibClaims.thy ===== *)
theory LibClaims
  imports LibLive
begin

text \<open>The properties of the library and of its shares, with an example library.\<close>

section \<open>An example\<close>

definition demoEmpty :: library where
  "demoEmpty = \<lparr>lb_users = [\<lparr>us_ID = 1, us_Deleted = False\<rparr>], lb_files = [], lb_folders = [], lb_links = [],
     lb_shares = [], lb_uploads = [], lb_nextFolder = 1, lb_nextLink = 1, lb_active = [], lb_block = False\<rparr>"

definition demoLink :: link_row where
  "demoLink = \<lparr>ln_ID = 0, ln_UUID = ''u'', ln_CreationKey = [], ln_Name = ''clip'', ln_FileID = 7, ln_UserID = 1,
     ln_ParentFolderID = 2, ln_Deleted = False\<rparr>"

text \<open>Folder 1 holds folder 2, which holds a link; folder 3 is at the top.\<close>

definition demoMake :: "nat lib_tx" where
  "demoMake = tx_bind (CreateFolder ''a'' 0 1) (\<lambda>a. tx_bind (CreateFolder ''b'' a 1) (\<lambda>b.
     tx_bind (saveLink demoLink) (\<lambda>_. CreateFolder ''c'' 0 1)))"

definition demoLib :: library where
  "demoLib = demoEmpty\<lparr>lb_folders := [
       \<lparr>fo_ID = 1, fo_Name = ''a'', fo_UserID = 1, fo_ParentFolderID = 0, fo_Deleted = False\<rparr>,
       \<lparr>fo_ID = 2, fo_Name = ''b'', fo_UserID = 1, fo_ParentFolderID = 1, fo_Deleted = False\<rparr>,
       \<lparr>fo_ID = 3, fo_Name = ''c'', fo_UserID = 1, fo_ParentFolderID = 0, fo_Deleted = False\<rparr>],
     lb_links := [demoLink\<lparr>ln_ID := 1\<rparr>], lb_nextFolder := 4, lb_nextLink := 2\<rparr>"

lemma demo_steps:
  "CreateFolder ''a'' 0 1 (demoEmpty, []) = (Inr 1, demoEmpty\<lparr>lb_folders := take 1 (lb_folders demoLib), lb_nextFolder := 2\<rparr>, [])"
  "CreateFolder ''b'' 1 1 (demoEmpty\<lparr>lb_folders := take 1 (lb_folders demoLib), lb_nextFolder := 2\<rparr>, []) =
     (Inr 2, demoEmpty\<lparr>lb_folders := take 2 (lb_folders demoLib), lb_nextFolder := 3\<rparr>, [])"
  "saveLink demoLink (demoEmpty\<lparr>lb_folders := take 2 (lb_folders demoLib), lb_nextFolder := 3\<rparr>, []) =
     (Inr (), demoEmpty\<lparr>lb_folders := take 2 (lb_folders demoLib), lb_nextFolder := 3, lb_links := lb_links demoLib, lb_nextLink := 2\<rparr>, [])"
  "CreateFolder ''c'' 0 1 (demoEmpty\<lparr>lb_folders := take 2 (lb_folders demoLib), lb_nextFolder := 3, lb_links := lb_links demoLib, lb_nextLink := 2\<rparr>, []) =
     (Inr 3, demoLib, [])"
  by code_simp+

lemma demoLib_reachable: "libInit demoEmpty" "lib_step\<^sup>*\<^sup>* demoEmpty demoLib"
proof -
  show "libInit demoEmpty" by (simp add: libInit_def demoEmpty_def)
  show "lib_step\<^sup>*\<^sup>* demoEmpty demoLib"
    by (rule rtranclp.rtrancl_into_rtrancl, rule rtranclp.rtrancl_into_rtrancl, rule rtranclp.rtrancl_into_rtrancl,
      rule rtranclp.rtrancl_into_rtrancl, rule rtranclp.rtrancl_refl, rule lib_step.Create [OF demo_steps(1)],
      rule lib_step.Create [OF demo_steps(2)], rule lib_step.Save [OF demo_steps(3)], rule lib_step.Create [OF demo_steps(4)])
qed

lemma demoLib_inv: "libInv demoLib"
  using demoLib_reachable by (rule library.reachable_inv)

section \<open>The forest\<close>

text \<open>C9: Starting from an empty library, after any sequence of creating, moving and deleting
  folders and links, with any statements failing, every live folder reaches the top over live
  folders, is not inside itself, and lies in a folder of its own user; so does every live link.\<close>

theorem library_stays_forest:
  assumes "libInit w0" and "lib_step\<^sup>*\<^sup>* w0 w" and "isFolder w f"
  shows "rooted w (fo_ID f) \<and> \<not> strictlyInside w (fo_ID f) (fo_ID f) \<and> parentOK w (fo_ParentFolderID f) (fo_UserID f) \<and>
    (\<forall>l. isLink w l \<longrightarrow> parentOK w (ln_ParentFolderID l) (ln_UserID l))"
proof -
  have "libInv w" using assms(1,2) by (rule library.reachable_inv)
  with assms(3) no_self_ancestor show ?thesis by (simp add: libInv_def)
qed

lemma library_stays_forest_witness:
  "let f = lb_folders demoLib ! 1 in rooted demoLib (fo_ID f) \<and> fo_ParentFolderID f = 1 \<and>
     parentOK demoLib (fo_ParentFolderID f) (fo_UserID f)"
proof -
  have "isFolder demoLib (lb_folders demoLib ! 1)" by (simp add: isFolder_def demoLib_def)
  from library_stays_forest [OF demoLib_reachable this] show ?thesis by (simp add: Let_def demoLib_def)
qed

section \<open>Moving\<close>

text \<open>C10: MoveItems with a non-empty selection either fails and changes nothing, or everything
  selected may be moved (visible to the user, same owner as the target, no folder into itself or
  below itself) and exactly the parents of the selected folders and links become the target;
  without store faults it fails only when something may not be moved.\<close>

theorem move_exact:
  assumes "libInv w" and "folderIds \<noteq> [] \<or> linkIds \<noteq> []"
    and "MoveItems userId target folderIds linkIds isAdmin (w, fs) = (r, w', fs')"
  shows "case r of
      Inr _ \<Rightarrow> canMove w userId target folderIds linkIds isAdmin \<and> w' = moved target (set folderIds) (set linkIds) w
    | Inl _ \<Rightarrow> w' = w \<and> (fs = [] \<longrightarrow> \<not> canMove w userId target folderIds linkIds isAdmin)"
  using assms(3,1)
proof (cases rule: MoveItems_cases)
  case (refused e)
  with assms MoveItems_runs [of w userId target folderIds linkIds isAdmin] show ?thesis by auto
qed simp

lemma move_exact_witness:
  "canMove demoLib 1 3 [1] [] False \<and> \<not> canMove demoLib 1 2 [1] [] False"
proof -
  have run: "MoveItems 1 3 [1] [] False (demoLib, []) =
      (Inr (), demoLib\<lparr>lb_folders := (lb_folders demoLib)[0 := (lb_folders demoLib ! 0)\<lparr>fo_ParentFolderID := 3\<rparr>]\<rparr>, [])"
    "MoveItems 1 2 [1] [] False (demoLib, []) =
      (Inl (App (HttpError 400 ''cannot move parent folder into its child'')), demoLib, [])"
    by code_simp+
  from move_exact [OF demoLib_inv _ run(1)] move_exact [OF demoLib_inv _ run(2)] show ?thesis by simp
qed

section \<open>Deleting\<close>



section \<open>Shares\<close>

text \<open>C34: Whatever statements fail, ContainsFolder admits only folders of the shared subtree;
  without faults it admits exactly those fewer than 256 levels below the shared root; and the
  recursive query that UploadCapacity sums over is exactly that subtree.\<close>

theorem share_reach_exact:
  assumes "libInv w" and "isFolder w root" "fo_ID root = sh_FolderID share" "fo_UserID root = sh_UserID share"
  shows "(\<forall>fs w' fs'. ContainsFolder share i (w, fs) = (Inr (), w', fs') \<longrightarrow> i \<in> subtree w {sh_FolderID share}) \<and>
    (fst (ContainsFolder share i (w, [])) = Inr () \<longleftrightarrow> (\<exists>n < 256. levelsBelow w (sh_FolderID share) n i)) \<and>
    set (shareSubtree share w) = subtree w {sh_FolderID share}"
proof -
  have sound: "\<exists>n < 256. levelsBelow w (sh_FolderID share) n i"
    if "ContainsFolder share i (w, fs) = (Inr (), w', fs')" for fs w' fs'
    using that shareWalk_sound [of 256 share i "[]" w] unfolding ContainsFolder_def ends_def
    by (metis fst_conv)
  have complete: "fst (ContainsFolder share i (w, [])) = Inr ()" if "n < 256" "levelsBelow w (sh_FolderID share) n i" for n
    using shareWalk_complete [OF assms(1) assms(2-4) that(2,1), of "[]"] by (simp add: ContainsFolder_def)
  have "(fst (ContainsFolder share i (w, [])) = Inr ()) = (\<exists>n < 256. levelsBelow w (sh_FolderID share) n i)"
    using sound complete by (metis prod.collapse)
  with sound shareSubtree_result [OF assms] show ?thesis
    by (auto simp: subtree_def dest!: sound levelsBelow_inside)
qed

definition demoShare :: share_row where
  "demoShare = \<lparr>sh_Token = ''t'', sh_UserID = 1, sh_FolderID = 1, sh_MaxFolderSize = 10, sh_ExpiresAt = None, sh_Deleted = False\<rparr>"

lemma share_reach_exact_witness:
  "2 \<in> subtree demoLib {1} \<and> 3 \<notin> subtree demoLib {1}"
proof -
  have r: "isFolder demoLib (lb_folders demoLib ! 0)" "fo_ID (lb_folders demoLib ! 0) = sh_FolderID demoShare"
    "fo_UserID (lb_folders demoLib ! 0) = sh_UserID demoShare"
    by (simp_all add: isFolder_def demoLib_def demoShare_def)
  have run: "ContainsFolder demoShare 2 (demoLib, []) = (Inr (), demoLib, [])" "shareSubtree demoShare demoLib = [1, 2]"
    by code_simp+
  have "{1, 2} = subtree demoLib {sh_FolderID demoShare}"
    using share_reach_exact [OF demoLib_inv r, of 2] by (elim conjE) (simp add: run)
  then have "subtree demoLib {1} = {1, 2}" by (simp add: demoShare_def)
  then show ?thesis by simp
qed

section \<open>Termination\<close>

text \<open>C38: The walk to the root that guards a move and the level-by-level collection of a deletion
  end within as many rounds as there are folders, in every library, cyclic ones included.\<close>

theorem library_walks_terminate:
  "fst (MoveItems userId target folderIds linkIds isAdmin (w, fs)) \<noteq> Inl (App Unbounded) \<and>
   fst (DeleteFolders maxItems roots userID isAdmin (w, fs)) \<noteq> Inl (App Unbounded)"
  using bounded_MoveItems [of userId target folderIds linkIds isAdmin] bounded_DeleteFolders [of maxItems roots userID isAdmin]
  unfolding bounded_def ends_def by blast

end
