(* ===== verification/LkState.thy ===== *)
theory LkState
  imports Prelude "HOL-Library.Multiset" "HOL-Library.List_Lexorder" "HOL-Library.Char_ord"
begin

text \<open>
  The keyed locks on mounts, pools and files (\<^verbatim>\<open>app/storage_lifecycle.go\<close>) over the reader-writer
  mutex of Go's standard library, and the requests the operations of the program make of them.
\<close>

section \<open>The mutex\<close>

text \<open>A reader-writer mutex: an announced writer keeps new readers out and waits for those inside.
  \<open>le_refs\<close> counts the users of the map entry.\<close>

record lock_entry =
  le_readers :: nat
  le_writer :: bool
  le_announced :: bool
  le_refs :: nat

definition RLock :: "lock_entry \<Rightarrow> lock_entry option" where
  "RLock e = (if le_writer e \<or> le_announced e then None else Some (e\<lparr>le_readers := le_readers e + 1\<rparr>))"

definition Announce :: "lock_entry \<Rightarrow> lock_entry option" where
  "Announce e = (if le_writer e \<or> le_announced e then None else Some (e\<lparr>le_announced := True\<rparr>))"

definition Lock :: "lock_entry \<Rightarrow> lock_entry option" where
  "Lock e = (if le_readers e \<noteq> 0 then None else Some (e\<lparr>le_announced := False, le_writer := True\<rparr>))"

datatype lock_mode = Shared | Exclusive

definition Unlock :: "lock_mode \<Rightarrow> lock_entry \<Rightarrow> lock_entry" where
  "Unlock m e = (case m of Shared \<Rightarrow> e\<lparr>le_readers := le_readers e - 1\<rparr> | Exclusive \<Rightarrow> e\<lparr>le_writer := False\<rparr>)"

section \<open>The map of locks\<close>

text \<open>The entries live in a heap, so that an entry dropped from the map and a new one under the same
  key are told apart.\<close>

record lifecycle =
  lf_heap :: "lock_entry list"
  lf_locks :: "string \<rightharpoonup> nat"

definition setEntry :: "nat \<Rightarrow> lock_entry \<Rightarrow> lifecycle \<Rightarrow> lifecycle" where
  "setEntry p e l = l\<lparr>lf_heap := (lf_heap l)[p := e]\<rparr>"

definition addRef :: "lock_entry \<Rightarrow> lock_entry" where
  "addRef e = e\<lparr>le_refs := le_refs e + 1\<rparr>"

definition dropRef :: "lock_entry \<Rightarrow> lock_entry" where
  "dropRef e = e\<lparr>le_refs := le_refs e - 1\<rparr>"

definition newEntry :: lock_entry where
  "newEntry = \<lparr>le_readers = 0, le_writer = False, le_announced = False, le_refs = 0\<rparr>"

definition retainLock :: "string \<Rightarrow> lifecycle \<Rightarrow> nat \<times> lifecycle" where
  "retainLock k l = (case lf_locks l k of
     Some p \<Rightarrow> (p, setEntry p (addRef (lf_heap l ! p)) l)
   | None \<Rightarrow> (length (lf_heap l), l\<lparr>lf_heap := lf_heap l @ [addRef newEntry], lf_locks := (lf_locks l)(k \<mapsto> length (lf_heap l))\<rparr>))"

definition releaseLock :: "string \<Rightarrow> nat \<Rightarrow> lifecycle \<Rightarrow> lifecycle" where
  "releaseLock k p l = (let e = dropRef (lf_heap l ! p); l' = setEntry p e l in
     if le_refs e = 0 \<and> lf_locks l k = Some p then l'\<lparr>lf_locks := (lf_locks l)(k := None)\<rparr> else l')"

section \<open>Goroutines\<close>

text \<open>A goroutine takes and drops locks in the order of its script. In between it waits at a mutex
  (perhaps as its announced writer), holds locks, or has unlocked one it still has to release.\<close>

datatype lock_cmd = Take lock_mode string | Drop string

record goroutine =
  gr_script :: "lock_cmd list"
  gr_held :: "(string \<times> lock_mode \<times> nat) list"
  gr_wait :: "(string \<times> lock_mode \<times> nat \<times> bool) option"
  gr_leaving :: "(string \<times> nat) option"

definition granted :: "goroutine \<Rightarrow> string \<Rightarrow> lock_mode \<Rightarrow> nat \<Rightarrow> goroutine" where
  "granted g k m p = g\<lparr>gr_wait := None, gr_held := (k, m, p) # gr_held g\<rparr>"

definition tryEnter :: "lifecycle \<Rightarrow> goroutine \<Rightarrow> string \<times> lock_mode \<times> nat \<times> bool \<Rightarrow> (lifecycle \<times> goroutine) option" where
  "tryEnter l g w = (case w of (k, m, p, announced) \<Rightarrow>
     (case m of
        Shared \<Rightarrow> map_option (\<lambda>e. (setEntry p e l, granted g k m p)) (RLock (lf_heap l ! p))
      | Exclusive \<Rightarrow>
          if announced then map_option (\<lambda>e. (setEntry p e l, granted g k m p)) (Lock (lf_heap l ! p))
          else map_option (\<lambda>e. (setEntry p e l, g\<lparr>gr_wait := Some (k, m, p, True)\<rparr>)) (Announce (lf_heap l ! p))))"

definition dropHeld :: "string \<Rightarrow> lifecycle \<Rightarrow> goroutine \<Rightarrow> lifecycle \<times> goroutine" where
  "dropHeld k l g = (case find (\<lambda>h. fst h = k) (gr_held g) of
     None \<Rightarrow> (l, g)
   | Some (_, m, p) \<Rightarrow> (setEntry p (Unlock m (lf_heap l ! p)) l, g\<lparr>gr_held := remove1 (k, m, p) (gr_held g), gr_leaving := Some (k, p)\<rparr>))"

text \<open>One step of a goroutine, or \<open>None\<close> when it is blocked or has finished.\<close>

definition stepGoroutine :: "lifecycle \<Rightarrow> goroutine \<Rightarrow> (lifecycle \<times> goroutine) option" where
  "stepGoroutine l g = (case gr_wait g of
     Some w \<Rightarrow> tryEnter l g w
   | None \<Rightarrow> (case gr_leaving g of
       Some (k, p) \<Rightarrow> Some (releaseLock k p l, g\<lparr>gr_leaving := None\<rparr>)
     | None \<Rightarrow> (case gr_script g of
         [] \<Rightarrow> None
       | Take m k # s \<Rightarrow> (let (p, l') = retainLock k l in Some (l', g\<lparr>gr_script := s, gr_wait := Some (k, m, p, False)\<rparr>))
       | Drop k # s \<Rightarrow> Some (dropHeld k l (g\<lparr>gr_script := s\<rparr>)))))"

type_synonym lock_system = "lifecycle \<times> goroutine list"

inductive lock_step :: "lock_system \<Rightarrow> lock_system \<Rightarrow> bool" where
  Step: "i < length gs \<Longrightarrow> stepGoroutine l (gs ! i) = Some (l', g') \<Longrightarrow> lock_step (l, gs) (l', gs[i := g'])"

definition starting :: "lock_cmd list \<Rightarrow> goroutine" where
  "starting s = \<lparr>gr_script = s, gr_held = [], gr_wait = None, gr_leaving = None\<rparr>"

definition noLocks :: lifecycle where
  "noLocks = \<lparr>lf_heap = [], lf_locks = Map.empty\<rparr>"

definition startSystem :: "lock_cmd list list \<Rightarrow> lock_system" where
  "startSystem ss = (noLocks, map starting ss)"

definition gr_done :: "goroutine \<Rightarrow> bool" where
  "gr_done g \<longleftrightarrow> gr_script g = [] \<and> gr_wait g = None \<and> gr_leaving g = None"

section \<open>The requests of the operations\<close>

definition ReadLock :: "string \<Rightarrow> lock_cmd" where "ReadLock k = Take Shared k"

definition WriteLock :: "string \<Rightarrow> lock_cmd" where "WriteLock k = Take Exclusive k"

definition uniqueLifecycleIDs :: "string list \<Rightarrow> string list" where
  "uniqueLifecycleIDs ids = sort (remdups (filter (\<lambda>i. i \<noteq> []) ids))"

definition ReadLocks :: "string list \<Rightarrow> lock_cmd list" where
  "ReadLocks ids = map ReadLock (uniqueLifecycleIDs ids)"

definition fileLockKey :: "nat \<Rightarrow> string" where "fileLockKey i = ''file:'' @ digits i"

definition poolLockKey :: "nat \<Rightarrow> string" where "poolLockKey i = ''pool:'' @ digits i"

definition FileReadLock :: "nat \<Rightarrow> lock_cmd" where "FileReadLock i = ReadLock (fileLockKey i)"

definition FileWriteLock :: "nat \<Rightarrow> lock_cmd" where "FileWriteLock i = WriteLock (fileLockKey i)"

definition PoolWriteLock :: "nat \<Rightarrow> lock_cmd" where "PoolWriteLock i = WriteLock (poolLockKey i)"

definition FileReadLocks :: "nat list \<Rightarrow> lock_cmd list" where
  "FileReadLocks is = ReadLocks (map fileLockKey (filter (\<lambda>i. 0 < i) is))"

definition PoolReadLocks :: "nat list \<Rightarrow> lock_cmd list" where
  "PoolReadLocks is = ReadLocks (map poolLockKey (filter (\<lambda>i. 0 < i) is))"

fun lockedKey :: "lock_cmd \<Rightarrow> string" where
  "lockedKey (Take m k) = k"
| "lockedKey (Drop k) = k"

text \<open>Locks taken for a body and given back in the opposite order.\<close>

definition holding :: "lock_cmd list \<Rightarrow> lock_cmd list \<Rightarrow> lock_cmd list" where
  "holding locks body = locks @ body @ map (\<lambda>c. Drop (lockedKey c)) (rev locks)"

text \<open>Starting a migration: its pools, then all its mounts, then its files.\<close>

definition startLocks :: "nat list \<Rightarrow> string list \<Rightarrow> nat list \<Rightarrow> lock_cmd list" where
  "startLocks pools mounts files = holding (PoolReadLocks pools) (holding (ReadLocks mounts) (holding (FileReadLocks files) []))"

text \<open>An operation that returns early gives the locks it has taken back sooner and asks for no others. Copying
  a video and cutting it over; deleting a video; an operation under the write or the read
  lock of a file and the read lock of a mount; one under the write lock of a file alone.\<close>

definition migrateLocks :: "nat \<Rightarrow> string \<Rightarrow> string \<Rightarrow> lock_cmd list" where
  "migrateLocks i source destination =
     holding [FileReadLock i] (holding (ReadLocks [source, destination]) []) @
     holding [FileWriteLock i] (holding (ReadLocks [source, destination]) [])"

definition deleterLocks :: "nat \<Rightarrow> string list \<Rightarrow> lock_cmd list" where
  "deleterLocks i mounts = holding [FileWriteLock i] (holding (ReadLocks mounts) [])"

definition fileThenMount :: "lock_cmd \<Rightarrow> string \<Rightarrow> lock_cmd list" where
  "fileThenMount c mount = holding [c] (holding [ReadLock mount] [])"

definition keepLocks :: "nat \<Rightarrow> lock_cmd list" where
  "keepLocks i = holding [FileWriteLock i] []"

text \<open>An upload tries one mount after another; an administrator checks or changes a mount or a pool.\<close>

definition placementLocks :: "string list \<Rightarrow> lock_cmd list" where
  "placementLocks mounts = concat (map (\<lambda>m. holding [ReadLock m] []) mounts)"

definition mountChange :: "string \<Rightarrow> lock_cmd list" where
  "mountChange m = holding [WriteLock m] []"

definition poolChange :: "nat \<Rightarrow> lock_cmd list" where
  "poolChange i = holding [PoolWriteLock i] []"

end
