(* ===== verification/LkInv.thy ===== *)
theory LkInv
  imports LkState
begin

text \<open>What the locks keep: every user of a key has the entry the map holds, and an entry counts its
  users, its readers and its writer. The users are tokens, which a step of a goroutine exchanges. Then the
  goroutines as a system, and what follows when each of them takes its locks in an order.\<close>

section \<open>Tokens\<close>

datatype role = Standing | Announcing | Reading | Writing | Leaving

type_synonym token = "string \<times> nat \<times> role"

definition roleOf :: "lock_mode \<Rightarrow> role" where
  "roleOf m = (case m of Shared \<Rightarrow> Reading | Exclusive \<Rightarrow> Writing)"

definition heldToken :: "string \<times> lock_mode \<times> nat \<Rightarrow> token" where
  "heldToken h = (case h of (k, m, p) \<Rightarrow> (k, p, roleOf m))"

definition tokens :: "goroutine \<Rightarrow> token multiset" where
  "tokens g = mset (map heldToken (gr_held g)) +
     (case gr_wait g of None \<Rightarrow> {#} | Some (k, m, p, a) \<Rightarrow> {#(k, p, if a then Announcing else Standing)#}) +
     (case gr_leaving g of None \<Rightarrow> {#} | Some (k, p) \<Rightarrow> {#(k, p, Leaving)#})"

definition allTokens :: "goroutine list \<Rightarrow> token multiset" where
  "allTokens gs = sum_list (map tokens gs)"

definition inRole :: "nat \<Rightarrow> role \<Rightarrow> token multiset \<Rightarrow> nat" where
  "inRole p r G = size {#t \<in># G. fst (snd t) = p \<and> snd (snd t) = r#}"

definition users :: "nat \<Rightarrow> token multiset \<Rightarrow> nat" where
  "users p G = size {#t \<in># G. fst (snd t) = p#}"

lemma token_tally [simp]:
  "inRole p r {#} = 0" "inRole p r (add_mset t G) = inRole p r G + (if fst (snd t) = p \<and> snd (snd t) = r then 1 else 0)"
  "users p {#} = 0" "users p (add_mset t G) = users p G + (if fst (snd t) = p then 1 else 0)"
  by (simp_all add: inRole_def users_def)

lemma tokens_update:
  assumes "i < length gs"
  obtains R where "allTokens gs = R + tokens (gs ! i)" "\<And>g. allTokens (gs[i := g]) = R + tokens g"
proof
  have eq: "allTokens (gs[i := g]) = sum_list (map tokens (take i gs)) + sum_list (map tokens (drop (Suc i) gs)) + tokens g" for g
    using assms by (simp add: allTokens_def upd_conv_take_nth_drop ac_simps)
  from eq [of "gs ! i"] show "allTokens gs = sum_list (map tokens (take i gs)) + sum_list (map tokens (drop (Suc i) gs)) + tokens (gs ! i)"
    using assms by simp
  show "\<And>g. allTokens (gs[i := g]) = sum_list (map tokens (take i gs)) + sum_list (map tokens (drop (Suc i) gs)) + tokens g" by (rule eq)
qed

section \<open>The invariant\<close>

definition entryOK :: "lock_entry \<Rightarrow> nat \<Rightarrow> token multiset \<Rightarrow> bool" where
  "entryOK e p G \<longleftrightarrow> le_refs e = users p G \<and> le_readers e = inRole p Reading G \<and>
     inRole p Writing G = (if le_writer e then 1 else 0) \<and> inRole p Announcing G = (if le_announced e then 1 else 0) \<and>
     (le_writer e \<longrightarrow> le_readers e = 0 \<and> \<not> le_announced e)"

lemma entryOK_other: "q \<noteq> p \<Longrightarrow> entryOK e q (add_mset (k, p, r) G) = entryOK e q G"
  by (simp add: entryOK_def)

definition locksOK :: "lifecycle \<Rightarrow> token multiset \<Rightarrow> bool" where
  "locksOK l G \<longleftrightarrow> (\<forall>p < length (lf_heap l). entryOK (lf_heap l ! p) p G) \<and>
     (\<forall>t \<in># G. lf_locks l (fst t) = Some (fst (snd t))) \<and>
     (\<forall>k p. lf_locks l k = Some p \<longrightarrow> p < length (lf_heap l) \<and> 0 < users p G) \<and>
     (\<forall>k k' p. lf_locks l k = Some p \<longrightarrow> lf_locks l k' = Some p \<longrightarrow> k' = k)"

lemma locksOK_token:
  assumes "locksOK l G" "(k, p, r) \<in># G"
  shows "lf_locks l k = Some p" "p < length (lf_heap l)" "entryOK (lf_heap l ! p) p G"
proof -
  show k: "lf_locks l k = Some p" using assms by (auto simp: locksOK_def)
  with assms(1) show p: "p < length (lf_heap l)" by (simp add: locksOK_def)
  with assms(1) show "entryOK (lf_heap l ! p) p G" by (simp add: locksOK_def)
qed

lemma locksOK_key: "locksOK l G \<Longrightarrow> (k, p, r) \<in># G \<Longrightarrow> (k', p, r') \<in># G \<Longrightarrow> k' = k"
  using locksOK_token(1) [of l G k p r] locksOK_token(1) [of l G k' p r'] by (simp add: locksOK_def)

lemma users_pos: "(k, p, r) \<in># G \<Longrightarrow> 0 < users p G"
  by (auto dest!: multi_member_split)

text \<open>Exchanging the role of a token, the entry following.\<close>

lemma locksOK_exchange:
  assumes ok: "locksOK l (add_mset (k, p, r) R)"
    and e: "entryOK (lf_heap l ! p) p (add_mset (k, p, r) R) \<Longrightarrow> entryOK e p (add_mset (k, p, r') R)"
  shows "locksOK (setEntry p e l) (add_mset (k, p, r') R)"
proof -
  have p: "p < length (lf_heap l)" "entryOK (lf_heap l ! p) p (add_mset (k, p, r) R)" "lf_locks l k = Some p"
    using locksOK_token [OF ok, of k p r] by simp_all
  have "entryOK ((lf_heap l)[p := e] ! q) q (add_mset (k, p, r') R)" if "q < length (lf_heap l)" for q
  proof (cases "q = p")
    case True
    with p e show ?thesis by simp
  next
    case False
    have "entryOK (lf_heap l ! q) q (add_mset (k, p, r) R)" using ok that by (simp add: locksOK_def)
    with False show ?thesis by (simp add: entryOK_other)
  qed
  moreover have "users q (add_mset (k, p, r') R) = users q (add_mset (k, p, r) R)" for q by simp
  ultimately show ?thesis using ok by (simp add: locksOK_def setEntry_def del: token_tally)
qed

section \<open>The operations\<close>

lemma enter_OK:
  assumes "locksOK l (add_mset (k, p, Standing) R)"
  shows "RLock (lf_heap l ! p) = Some e \<Longrightarrow> locksOK (setEntry p e l) (add_mset (k, p, Reading) R)"
    and "Announce (lf_heap l ! p) = Some e \<Longrightarrow> locksOK (setEntry p e l) (add_mset (k, p, Announcing) R)"
  by (rule locksOK_exchange [OF assms]; auto simp: entryOK_def RLock_def Announce_def split: if_splits)+

lemma Lock_OK:
  assumes "locksOK l (add_mset (k, p, Announcing) R)" "Lock (lf_heap l ! p) = Some e"
  shows "locksOK (setEntry p e l) (add_mset (k, p, Writing) R)"
  by (rule locksOK_exchange [OF assms(1)]) (use assms(2) in \<open>auto simp: entryOK_def Lock_def split: if_splits\<close>)

lemma Unlock_OK:
  assumes "locksOK l (add_mset (k, p, roleOf m) R)"
  shows "locksOK (setEntry p (Unlock m (lf_heap l ! p)) l) (add_mset (k, p, Leaving) R)"
  by (rule locksOK_exchange [OF assms]) (auto simp: entryOK_def Unlock_def roleOf_def split: lock_mode.splits if_splits)

lemma users_0: "users p G = 0 \<longleftrightarrow> (\<forall>t \<in># G. fst (snd t) \<noteq> p)"
  by (induction G) auto

lemma inRole_users: "inRole p r G \<le> users p G"
  by (induction G) auto

lemma retainLock_OK:
  assumes ok: "locksOK l G" and r: "retainLock k l = (p, l')"
  shows "locksOK l' (add_mset (k, p, Standing) G)"
proof (cases "lf_locks l k")
  case (Some q)
  with r have eq: "p = q" "l' = setEntry q (addRef (lf_heap l ! q)) l" by (auto simp: retainLock_def)
  have q: "q < length (lf_heap l)" using ok Some by (simp add: locksOK_def)
  have "entryOK ((lf_heap l)[q := addRef (lf_heap l ! q)] ! j) j (add_mset (k, q, Standing) G)" if "j < length (lf_heap l)" for j
    using ok that q by (cases "j = q") (auto simp: locksOK_def entryOK_def addRef_def)
  with ok Some show ?thesis by (auto simp: eq locksOK_def setEntry_def)
next
  case None
  let ?n = "length (lf_heap l)"
  from None r have eq: "p = ?n" "l' = l\<lparr>lf_heap := lf_heap l @ [addRef newEntry], lf_locks := (lf_locks l)(k \<mapsto> ?n)\<rparr>"
    by (auto simp: retainLock_def)
  have below: "fst (snd t) < ?n \<and> fst t \<noteq> k" if "t \<in># G" for t
    using ok that None unfolding locksOK_def by (metis option.distinct(1))
  then have none: "users ?n G = 0" unfolding users_0 by (metis below less_irrefl)
  then have fresh: "users ?n G = 0" "inRole ?n r G = 0" for r using inRole_users [of ?n r G] by simp_all
  have "entryOK ((lf_heap l @ [addRef newEntry]) ! j) j (add_mset (k, ?n, Standing) G)" if "j < Suc ?n" for j
  proof (cases "j = ?n")
    case True
    with fresh show ?thesis by (simp add: entryOK_def addRef_def newEntry_def)
  next
    case False
    with ok that show ?thesis by (simp add: entryOK_other locksOK_def nth_append)
  qed
  moreover have "lf_locks l k' \<noteq> Some ?n" for k' using ok unfolding locksOK_def by (metis less_irrefl)
  ultimately show ?thesis using ok below by (auto simp: eq locksOK_def intro: less_SucI split: if_splits)
qed

lemma releaseLock_OK:
  assumes ok: "locksOK l (add_mset (k, p, Leaving) G)"
  shows "locksOK (releaseLock k p l) G"
proof -
  have p: "p < length (lf_heap l)" "entryOK (lf_heap l ! p) p (add_mset (k, p, Leaving) G)" "lf_locks l k = Some p"
    using locksOK_token [OF ok, of k p Leaving] by simp_all
  let ?e = "dropRef (lf_heap l ! p)"
  have e: "entryOK ((lf_heap l)[p := ?e] ! j) j G" if "j < length (lf_heap l)" for j
    using ok that p by (cases "j = p") (auto simp: locksOK_def entryOK_def dropRef_def)
  have refs: "le_refs ?e = users p G" using p by (simp add: entryOK_def dropRef_def)
  have inj: "k' = k" if "lf_locks l k' = Some p" for k' using ok p(3) that by (simp add: locksOK_def)
  have used: "0 < users q G" if "lf_locks l k' = Some q" "k' \<noteq> k \<or> 0 < users p G" for k' q
    using ok that inj [of k'] by (cases "q = p") (auto simp: locksOK_def split: if_splits)
  have bound: "q < length (lf_heap l)" if "lf_locks l k' = Some q" for k' q using ok that by (simp add: locksOK_def)
  have other: "fst t \<noteq> k" if "t \<in># G" "users p G = 0" for t
    using that ok p(3) by (auto simp: locksOK_def users_0)
  have tok: "lf_locks l (fst t) = Some (fst (snd t))" if "t \<in># G" for t using ok that by (simp add: locksOK_def)
  have "k1 = k2" if "lf_locks l k1 = Some q" "lf_locks l k2 = Some q" for k1 k2 q using ok that by (simp add: locksOK_def)
  with e refs used bound other tok p(3) show ?thesis
    by (auto simp: releaseLock_def Let_def locksOK_def setEntry_def)
qed

section \<open>A step of a goroutine\<close>

definition waitOK :: "goroutine \<Rightarrow> bool" where
  "waitOK g \<longleftrightarrow> (\<forall>k m p. gr_wait g = Some (k, m, p, True) \<longrightarrow> m = Exclusive)"

lemma tryEnter_OK:
  assumes ok: "locksOK l (tokens g + R)" and w: "gr_wait g = Some w" "waitOK g" and enter: "tryEnter l g w = Some (l', g')"
  shows "locksOK l' (tokens g' + R)"
proof -
  obtain k m p a where eq: "w = (k, m, p, a)" by (cases w)
  define S where "S = mset (map heldToken (gr_held g)) + (case gr_leaving g of None \<Rightarrow> {#} | Some (k, p) \<Rightarrow> {#(k, p, Leaving)#}) + R"
  have tok: "tokens g + R = add_mset (k, p, if a then Announcing else Standing) S"
    by (simp add: tokens_def w eq S_def)
  have in': "tokens (granted g k m p) + R = add_mset (k, p, roleOf m) S" for m
    by (simp add: tokens_def granted_def heldToken_def S_def)
  have an: "tokens (g\<lparr>gr_wait := Some (k, m, p, True)\<rparr>) + R = add_mset (k, p, Announcing) S" for m
    by (simp add: tokens_def S_def)
  show ?thesis
  proof (cases "m = Exclusive \<and> a")
    case True
    with ok Lock_OK [of l k p S] enter show ?thesis by (auto simp: tryEnter_def eq tok in' roleOf_def)
  next
    case False
    with w eq have a: "\<not> a" by (cases m) (auto simp: waitOK_def)
    with ok enter_OK [of l k p S] enter False show ?thesis
      by (cases m) (auto simp: tryEnter_def eq tok in' an roleOf_def)
  qed
qed

lemma heldToken_remove1: "h \<in> set hs \<Longrightarrow> mset (map heldToken hs) = add_mset (heldToken h) (mset (map heldToken (remove1 h hs)))"
  by (induction hs) auto

lemma find_key: "find (\<lambda>h. fst h = k) hs = Some h \<Longrightarrow> fst h = k \<and> h \<in> set hs"
  by (induction hs) (auto split: if_splits)

lemma dropHeld_OK:
  assumes ok: "locksOK l (tokens g + R)" and none: "gr_leaving g = None" and drop: "dropHeld k l g = (l', g')"
  shows "locksOK l' (tokens g' + R)"
proof (cases "find (\<lambda>h. fst h = k) (gr_held g)")
  case None
  with ok drop show ?thesis by (simp add: dropHeld_def)
next
  case (Some h)
  obtain m p where h: "h = (k, m, p)" "h \<in> set (gr_held g)" using find_key [OF Some] by (cases h) auto
  define S where "S = mset (map heldToken (remove1 h (gr_held g))) + (case gr_wait g of None \<Rightarrow> {#} | Some (k, m, p, a) \<Rightarrow> {#(k, p, if a then Announcing else Standing)#}) + R"
  have "tokens g + R = add_mset (k, p, roleOf m) S"
    using heldToken_remove1 [OF h(2)] by (simp add: tokens_def none S_def h(1) heldToken_def)
  moreover have "tokens g' + R = add_mset (k, p, Leaving) S"
    using drop Some by (auto simp: dropHeld_def h(1) tokens_def S_def)
  ultimately show ?thesis using ok Unlock_OK [of l k p m S] drop Some by (auto simp: dropHeld_def h(1))
qed

lemma stepGoroutine_OK:
  assumes ok: "locksOK l (tokens g + R)" "waitOK g" and step: "stepGoroutine l g = Some (l', g')"
  shows "locksOK l' (tokens g' + R)"
proof (cases "gr_wait g")
  case (Some w)
  with step tryEnter_OK [OF ok(1) Some ok(2)] show ?thesis by (simp add: stepGoroutine_def)
next
  case none: None
  show ?thesis
  proof (cases "gr_leaving g")
    case (Some x)
    then obtain k p where x: "x = (k, p)" by (cases x)
    have "tokens g + R = add_mset (k, p, Leaving) (tokens (g\<lparr>gr_leaving := None\<rparr>) + R)"
      using Some none by (simp add: tokens_def x)
    with step Some none x ok(1) releaseLock_OK [of l k p] show ?thesis by (auto simp: stepGoroutine_def)
  next
    case None
    show ?thesis
    proof (cases "gr_script g")
      case Nil
      with step none None show ?thesis by (simp add: stepGoroutine_def)
    next
      case (Cons c s)
      have same: "tokens (g\<lparr>gr_script := s\<rparr>) = tokens g" by (simp add: tokens_def)
      show ?thesis
      proof (cases c)
        case (Take m k)
        obtain p l1 where r: "retainLock k l = (p, l1)" by (cases "retainLock k l")
        with step none None Cons Take have "l' = l1" "g' = g\<lparr>gr_script := s, gr_wait := Some (k, m, p, False)\<rparr>"
          by (simp_all add: stepGoroutine_def)
        with retainLock_OK [OF ok(1) r] none show ?thesis by (simp add: tokens_def)
      next
        case (Drop k)
        with step none None Cons have "dropHeld k l (g\<lparr>gr_script := s\<rparr>) = (l', g')" by (simp add: stepGoroutine_def)
        with dropHeld_OK [of l "g\<lparr>gr_script := s\<rparr>" R k l' g'] ok(1) None same show ?thesis by simp
      qed
    qed
  qed
qed

lemma stepGoroutine_waitOK: "waitOK g \<Longrightarrow> stepGoroutine l g = Some (l', g') \<Longrightarrow> waitOK g'"
  by (auto simp: stepGoroutine_def waitOK_def tryEnter_def granted_def dropHeld_def
      split: option.splits list.splits lock_cmd.splits lock_mode.splits if_splits prod.splits)

section \<open>The system\<close>

definition lockInit :: "lock_system \<Rightarrow> bool" where
  "lockInit s \<longleftrightarrow> (\<exists>ss. s = startSystem ss)"

definition lockInv :: "lock_system \<Rightarrow> bool" where
  "lockInv s \<longleftrightarrow> locksOK (fst s) (allTokens (snd s)) \<and> (\<forall>g \<in> set (snd s). waitOK g)"

lemma lockInit_inv: "lockInit s \<Longrightarrow> lockInv s"
proof -
  assume "lockInit s"
  then obtain ss where s: "s = startSystem ss" by (auto simp: lockInit_def)
  have "allTokens (map starting ss) = {#}" by (induction ss) (simp_all add: allTokens_def tokens_def starting_def)
  then show ?thesis by (auto simp: s lockInv_def startSystem_def locksOK_def noLocks_def waitOK_def starting_def)
qed

lemma lockInv_step: "lockInv s \<Longrightarrow> lock_step s t \<Longrightarrow> lockInv t"
proof (erule lock_step.cases, goal_cases)
  case (1 i gs l l' g')
  obtain R where R: "allTokens gs = R + tokens (gs ! i)" "\<And>g. allTokens (gs[i := g]) = R + tokens g"
    using tokens_update [OF 1(4)] by blast
  have "waitOK (gs ! i)" "locksOK l (tokens (gs ! i) + R)" using 1 R(1) by (simp_all add: lockInv_def ac_simps)
  from stepGoroutine_OK [OF this(2,1) 1(5)] stepGoroutine_waitOK [OF this(1) 1(5)] 1 show ?case
    by (auto simp: lockInv_def R(2) ac_simps dest!: set_update_subset_insert [THEN subsetD])
qed

interpretation locks: invariant_system lockInit lock_step lockInv
  by unfold_locales (fact lockInit_inv lockInv_step)+

section \<open>Every run ends\<close>

definition remaining :: "goroutine \<Rightarrow> nat" where
  "remaining g = 4 * length (gr_script g) +
     (case gr_wait g of None \<Rightarrow> 0 | Some (k, m, p, a) \<Rightarrow> if a then 1 else 2) + (if gr_leaving g = None then 0 else 1)"

lemma stepGoroutine_remaining: "stepGoroutine l g = Some (l', g') \<Longrightarrow> gr_leaving g = None \<or> gr_wait g = None \<Longrightarrow> remaining g' < remaining g"
  by (auto simp: stepGoroutine_def remaining_def tryEnter_def granted_def dropHeld_def
      split: option.splits list.splits lock_cmd.splits lock_mode.splits if_splits prod.splits)

lemma sum_list_lower: "i < length ns \<Longrightarrow> n < ns ! i \<Longrightarrow> sum_list (ns[i := n]) < (sum_list ns :: nat)"
  by (induction ns arbitrary: i) (auto split: nat.splits)

definition apart :: "goroutine \<Rightarrow> bool" where
  "apart g \<longleftrightarrow> gr_leaving g = None \<or> gr_wait g = None"

lemma stepGoroutine_apart: "apart g \<Longrightarrow> stepGoroutine l g = Some (l', g') \<Longrightarrow> apart g'"
  by (auto simp: stepGoroutine_def apart_def tryEnter_def granted_def dropHeld_def
      split: option.splits list.splits lock_cmd.splits lock_mode.splits if_splits prod.splits)

lemma lock_step_remaining:
  assumes "lock_step s t" "\<forall>g \<in> set (snd s). apart g"
  shows "(\<forall>g \<in> set (snd t). apart g) \<and> sum_list (map remaining (snd t)) < sum_list (map remaining (snd s))"
  using assms
proof (cases rule: lock_step.cases)
  case (Step i gs l l' g')
  have a: "apart (gs ! i)" using assms(2) Step by simp
  have "sum_list (map remaining (gs[i := g'])) < sum_list (map remaining gs)"
    using sum_list_lower [of i "map remaining gs" "remaining g'"] stepGoroutine_remaining [OF Step(4)] a Step(3)
    by (simp add: map_update apart_def)
  with Step assms(2) stepGoroutine_apart [OF a Step(4)] show ?thesis
    by (auto dest!: set_update_subset_insert [THEN subsetD])
qed

lemma lock_runs_end:
  assumes "(lock_step ^^ n) s t" "\<forall>g \<in> set (snd s). apart g"
  shows "n + sum_list (map remaining (snd t)) \<le> sum_list (map remaining (snd s)) \<and> (\<forall>g \<in> set (snd t). apart g)"
  using assms(1)
proof (induction n arbitrary: t)
  case 0
  with assms(2) show ?case by simp
next
  case (Suc n)
  then obtain u where "(lock_step ^^ n) s u" "lock_step u t" by auto
  with Suc.IH [of u] lock_step_remaining [of u t] show ?case by fastforce
qed

end
