(* ===== verification/LkLive.thy ===== *)
theory LkLive
  imports LkInv
begin

text \<open>Goroutines that take their locks in one order never block each other for good; all operations
  but the start of a migration keep the order pools, files, mounts.\<close>

section \<open>An order on the keys\<close>

locale lock_order =
  fixes before :: "string \<Rightarrow> string \<Rightarrow> bool"
  assumes irreflexive: "\<not> before k k"
    and transitive: "before k k' \<Longrightarrow> before k' k'' \<Longrightarrow> before k k''"
begin

fun orderedFrom :: "string list \<Rightarrow> lock_cmd list \<Rightarrow> bool" where
  "orderedFrom H [] \<longleftrightarrow> H = []"
| "orderedFrom H (Take m k # s) \<longleftrightarrow> (\<forall>h \<in> set H. before h k) \<and> orderedFrom (k # H) s"
| "orderedFrom H (Drop k # s) \<longleftrightarrow> k \<in> set H \<and> orderedFrom (remove1 k H) s"

definition ordered :: "goroutine \<Rightarrow> bool" where
  "ordered g \<longleftrightarrow> (case gr_wait g of
     None \<Rightarrow> orderedFrom (map fst (gr_held g)) (gr_script g)
   | Some (k, m, p, a) \<Rightarrow> gr_leaving g = None \<and> (\<forall>h \<in> set (gr_held g). before (fst h) k) \<and>
       orderedFrom (k # map fst (gr_held g)) (gr_script g))"

lemma remove1_first: "find (\<lambda>h. fst h = k) hs = Some h \<Longrightarrow> map fst (remove1 h hs) = remove1 k (map fst hs)"
  by (induction hs) (auto dest: find_key split: if_splits)

lemma tryEnter_ordered:
  assumes "ordered g" "gr_wait g = Some w" "tryEnter l g w = Some (l', g')"
  shows "ordered g'"
  using assms by (auto simp: tryEnter_def ordered_def granted_def split: prod.splits lock_mode.splits if_splits)

lemma stepGoroutine_ordered:
  assumes g: "ordered g" and step: "stepGoroutine l g = Some (l', g')"
  shows "ordered g'"
proof (cases "gr_wait g")
  case (Some w)
  with step tryEnter_ordered [OF g Some] show ?thesis by (simp add: stepGoroutine_def)
next
  case none: None
  show ?thesis
  proof (cases "gr_script g")
    case Nil
    with step none g show ?thesis by (auto simp: stepGoroutine_def ordered_def split: option.splits)
  next
    case (Cons c s)
    show ?thesis
    proof (cases "gr_leaving g = None \<and> (\<exists>k. c = Drop k)")
      case True
      then obtain k where c: "c = Drop k" by blast
      with g none Cons have "k \<in> fst ` set (gr_held g)" by (simp add: ordered_def)
      then obtain h where h: "find (\<lambda>h. fst h = k) (gr_held g) = Some h"
        by (cases "find (\<lambda>h. fst h = k) (gr_held g)") (auto simp: find_None_iff)
      with find_key [OF h] obtain m p where "h = (k, m, p)" by (cases h) auto
      with True step none Cons c h g remove1_first [OF h] show ?thesis
        by (auto simp: stepGoroutine_def dropHeld_def ordered_def)
    next
      case False
      with step none Cons g show ?thesis
        by (cases c) (force simp: stepGoroutine_def ordered_def split: option.splits prod.splits)+
    qed
  qed
qed

section \<open>No deadlock\<close>

lemma idle_steps: "gr_wait g = None \<Longrightarrow> stepGoroutine l g = None \<Longrightarrow> gr_done g"
  by (auto simp: stepGoroutine_def gr_done_def split: option.splits list.splits lock_cmd.splits prod.splits)

lemma holder_goes_on: "ordered g \<Longrightarrow> gr_held g \<noteq> [] \<Longrightarrow> \<not> gr_done g"
  by (cases "gr_wait g") (auto simp: ordered_def gr_done_def)

lemma blocked_by:
  assumes "lockInv (l, gs)" "g \<in> set gs" "gr_wait g = Some (k, m, p, a)" "stepGoroutine l g = None"
  obtains g' r where "g' \<in> set gs" "(k, p, r) \<in># tokens g'" "r \<in> {Reading, Writing} \<or> r = Announcing \<and> \<not> a"
proof -
  have ok: "locksOK l (allTokens gs)" and w: "waitOK g" using assms(1,2) by (simp_all add: lockInv_def)
  have mem: "t \<in># allTokens gs \<longleftrightarrow> (\<exists>g \<in> set gs. t \<in># tokens g)" for t by (induction gs) (auto simp: allTokens_def)
  have "(k, p, if a then Announcing else Standing) \<in># tokens g" using assms(3) by (simp add: tokens_def)
  with assms(2) mem have tok: "(k, p, if a then Announcing else Standing) \<in># allTokens gs" by blast
  let ?e = "lf_heap l ! p"
  have e: "entryOK ?e p (allTokens gs)" using locksOK_token [OF ok tok] by simp
  have "le_writer ?e \<or> le_announced ?e \<and> \<not> a \<or> 0 < le_readers ?e"
    using assms(3,4) w by (cases m; cases a) (auto simp: stepGoroutine_def tryEnter_def RLock_def Announce_def Lock_def waitOK_def split: if_splits)
  then have "0 < inRole p Writing (allTokens gs) \<or> 0 < inRole p Announcing (allTokens gs) \<and> \<not> a \<or> 0 < inRole p Reading (allTokens gs)"
    using e by (auto simp: entryOK_def)
  then obtain r where r: "0 < inRole p r (allTokens gs)" "r \<in> {Reading, Writing} \<or> r = Announcing \<and> \<not> a" by blast
  then obtain t where t: "t \<in># allTokens gs" "fst (snd t) = p" "snd (snd t) = r"
    by (auto simp: inRole_def size_eq_Suc_imp_elem dest!: gr0_implies_Suc size_eq_Suc_imp_elem)
  obtain k' where "t = (k', p, r)" using t by (cases t) auto
  with locksOK_key [OF ok tok] t(1) have "(k, p, r) \<in># allTokens gs" by fastforce
  with mem r(2) that show ?thesis by blast
qed

lemma held_token: "(k, p, r) \<in># tokens g \<Longrightarrow> r \<in> {Reading, Writing} \<Longrightarrow> k \<in> fst ` set (gr_held g)"
  by (force simp: tokens_def heldToken_def split: option.splits if_splits prod.splits)

lemma announcing_token: "(k, p, Announcing) \<in># tokens g \<Longrightarrow> \<exists>m. gr_wait g = Some (k, m, p, True)"
  by (auto simp: tokens_def heldToken_def roleOf_def split: option.splits if_splits prod.splits lock_mode.splits)

lemma stuck_is_done:
  assumes inv: "lockInv (l, gs)" and ord: "\<forall>g \<in> set gs. ordered g" and stuck: "\<forall>g \<in> set gs. stepGoroutine l g = None"
  shows "\<forall>g \<in> set gs. gr_done g"
proof (rule ccontr)
  define B where "B = {k. \<exists>g \<in> set gs. \<exists>m p a. gr_wait g = Some (k, m, p, a)}"
  have held: "\<exists>k' \<in> B. before k k'" if g: "g \<in> set gs" "k \<in> fst ` set (gr_held g)" for g k
  proof -
    have "gr_held g \<noteq> []" using g(2) by auto
    then have "\<not> gr_done g" using holder_goes_on ord g(1) by blast
    then have "gr_wait g \<noteq> None" using idle_steps stuck g(1) by blast
    then obtain k' m p a where w: "gr_wait g = Some (k', m, p, a)" by auto
    with ord g have "before k k'" by (force simp: ordered_def)
    with w g(1) show ?thesis unfolding B_def by blast
  qed
  have next': "\<exists>k' \<in> B. before k k'" if k: "k \<in> B" for k
  proof -
    from k obtain g m p a where g: "g \<in> set gs" "gr_wait g = Some (k, m, p, a)" by (auto simp: B_def)
    from g stuck inv obtain g' r where b: "g' \<in> set gs" "(k, p, r) \<in># tokens g'" "r \<in> {Reading, Writing} \<or> r = Announcing \<and> \<not> a"
      by (metis blocked_by)
    show ?thesis
    proof (cases "r \<in> {Reading, Writing}")
      case True
      with held_token [OF b(2)] held [OF b(1)] show ?thesis by blast
    next
      case False
      with b announcing_token obtain m' where w: "gr_wait g' = Some (k, m', p, True)" by blast
      from w b(1) stuck inv obtain g'' r' where c: "g'' \<in> set gs" "(k, p, r') \<in># tokens g''" "r' \<in> {Reading, Writing}"
        by (metis (full_types) blocked_by)
      with held_token [OF c(2,3)] held [OF c(1)] show ?thesis by blast
    qed
  qed
  assume "\<not> (\<forall>g \<in> set gs. gr_done g)"
  then obtain g where g: "g \<in> set gs" "gr_wait g \<noteq> None" using idle_steps stuck by blast
  then obtain k m p a where "gr_wait g = Some (k, m, p, a)" by (cases "the (gr_wait g)") auto
  with g(1) have "k \<in> B" unfolding B_def by blast
  then have "B \<noteq> {}" by blast
  moreover have "finite B"
    by (rule finite_subset [of _ "(\<lambda>g. fst (the (gr_wait g))) ` set gs"]) (force simp: B_def)+
  moreover have "asymp_on B before" "transp_on B before"
    using irreflexive transitive by (auto intro!: asymp_onI transp_onI)
  ultimately obtain k where "k \<in> B" "\<forall>x \<in> B. x \<noteq> k \<longrightarrow> \<not> before k x" using Finite_Set.bex_max_element [of B before] by blast
  with next' irreflexive show False by metis
qed

lemma done_empties:
  assumes "lockInv (l, gs)" "\<forall>g \<in> set gs. ordered g" "\<forall>g \<in> set gs. gr_done g"
  shows "lf_locks l = Map.empty \<and> (\<forall>g \<in> set gs. gr_held g = [])"
proof -
  have none: "gr_held g = []" if "g \<in> set gs" for g using assms(2,3) that by (force simp: ordered_def gr_done_def)
  have "tokens g = {#}" if "g \<in> set gs" for g using assms(2,3) that by (force simp: ordered_def gr_done_def tokens_def)
  then have "allTokens gs = {#}" by (induction gs) (simp_all add: allTokens_def)
  with assms(1) have "lf_locks l k = None" for k by (cases "lf_locks l k") (auto simp: lockInv_def locksOK_def)
  with none show ?thesis by blast
qed

lemma lock_step_ordered: "lock_step s t \<Longrightarrow> \<forall>g \<in> set (snd s). ordered g \<Longrightarrow> \<forall>g \<in> set (snd t). ordered g"
  by (erule lock_step.cases) (auto dest!: set_update_subset_insert [THEN subsetD] intro: stepGoroutine_ordered)

theorem ordered_never_stuck:
  assumes "\<forall>s \<in> set ss. orderedFrom [] s" "lock_step\<^sup>*\<^sup>* (startSystem ss) (l, gs)" "\<forall>t. \<not> lock_step (l, gs) t"
  shows "(\<forall>g \<in> set gs. gr_done g \<and> gr_held g = []) \<and> lf_locks l = Map.empty"
proof -
  have inv: "lockInv (l, gs)" using locks.reachable_inv [OF _ assms(2)] by (auto simp: lockInit_def)
  have "\<forall>g \<in> set (snd (startSystem ss)). ordered g" using assms(1) by (simp add: startSystem_def starting_def ordered_def)
  with assms(2) have ord: "\<forall>g \<in> set gs. ordered g"
    by (induction "(l, gs)" arbitrary: l gs rule: rtranclp_induct) (metis lock_step_ordered snd_conv surj_pair)+
  have "stepGoroutine l g = None" if "g \<in> set gs" for g
  proof (cases "stepGoroutine l g")
    case (Some x)
    with that obtain i where "i < length gs" "gs ! i = g" by (auto simp: in_set_conv_nth)
    with Some lock_step.Step [of i gs l "fst x" "snd x"] assms(3) show ?thesis by auto
  qed simp
  with stuck_is_done [OF inv ord] done_empties [OF inv ord] show ?thesis by blast
qed

section \<open>Nested requests\<close>

lemma ordered_takes:
  assumes "sorted_wrt before ks" "\<forall>h \<in> set H. \<forall>k \<in> set ks. before h k"
  shows "orderedFrom H (map (Take m) ks @ s) = orderedFrom (rev ks @ H) s"
  using assms by (induction ks arbitrary: H) auto

lemma ordered_drops: "orderedFrom (ks @ H) (map Drop ks @ s) = orderedFrom H s"
  by (induction ks) auto

lemma ordered_append: "orderedFrom [] a \<Longrightarrow> orderedFrom [] b \<Longrightarrow> orderedFrom [] (a @ b)"
proof -
  have "orderedFrom H a \<Longrightarrow> orderedFrom [] b \<Longrightarrow> orderedFrom H (a @ b)" for H
    by (induction H a rule: orderedFrom.induct) auto
  then show "orderedFrom [] a \<Longrightarrow> orderedFrom [] b \<Longrightarrow> orderedFrom [] (a @ b)" by blast
qed

lemma ordered_holding:
  assumes "sorted_wrt before ks" "\<forall>h \<in> set H. \<forall>k \<in> set ks. before h k"
    "\<And>s'. orderedFrom (rev ks @ H) (body @ s') = orderedFrom (rev ks @ H) s'"
  shows "orderedFrom H (holding (map (Take m) ks) body @ s) = orderedFrom H s"
  using assms ordered_drops [of "rev ks" H s]
  by (simp add: holding_def ordered_takes rev_map comp_def map_map)

end

end
