(* ===== verification/LkClaims.thy ===== *)
theory LkClaims
  imports LkLive
begin

text \<open>The properties of the locks: holders exclude each other and unused entries disappear; every
  operation but the start of a migration keeps one order of locking, so that any number of them
  finish; the start of a migration does not, and can block them for good.\<close>

section \<open>The order of the program\<close>

text \<open>Pools come first, then files, then mounts; within a kind the order of the keys.\<close>

definition lockClass :: "string \<Rightarrow> nat" where
  "lockClass k = (if prefix ''pool:'' k then 0 else if prefix ''file:'' k then 1 else 2)"

definition lockBefore :: "string \<Rightarrow> string \<Rightarrow> bool" where
  "lockBefore k k' \<longleftrightarrow> lockClass k < lockClass k' \<or> (lockClass k = lockClass k' \<and> k < k')"

interpretation keys: lock_order lockBefore
  by unfold_locales (auto simp: lockBefore_def)

definition mountKey :: "string \<Rightarrow> bool" where
  "mountKey k \<longleftrightarrow> lockClass k = 2"

lemma classes: "lockClass (fileLockKey i) = 1" "lockClass (poolLockKey i) = 0"
  by (simp_all add: lockClass_def fileLockKey_def poolLockKey_def)

lemma unique_sorted: "sorted_wrt (<) (uniqueLifecycleIDs ids)"
  by (simp add: uniqueLifecycleIDs_def strict_sorted_iff)

lemma set_unique: "set (uniqueLifecycleIDs ids) = set ids - {[]}"
  by (auto simp: uniqueLifecycleIDs_def)

lemma mounts_ordered: "\<forall>m \<in> set ids. mountKey m \<Longrightarrow> sorted_wrt lockBefore (uniqueLifecycleIDs ids)"
  by (rule sorted_wrt_mono_rel [OF _ unique_sorted]) (auto simp: lockBefore_def mountKey_def set_unique)

lemma ordered_mounts:
  assumes "\<forall>m \<in> set ids. mountKey m" "\<forall>h \<in> set H. lockClass h < 2"
  shows "keys.orderedFrom H (holding (ReadLocks ids) [] @ s) = keys.orderedFrom H s"
proof -
  have "ReadLocks ids = map (Take Shared) (uniqueLifecycleIDs ids)" by (simp add: ReadLocks_def ReadLock_def)
  with keys.ordered_holding [of "uniqueLifecycleIDs ids" H "[]" Shared s] mounts_ordered [OF assms(1)] assms show ?thesis
    by (auto simp: set_unique lockBefore_def mountKey_def)
qed

lemma ordered_one:
  assumes "\<And>s'. keys.orderedFrom [k] (body @ s') = keys.orderedFrom [k] s'"
  shows "keys.orderedFrom [] (holding [Take m k] body @ s) = keys.orderedFrom [] s"
  using keys.ordered_holding [of "[k]" "[]" body m s] assms by simp

section \<open>The operations\<close>

text \<open>What a goroutine of the program asks for: one operation after another, all but the start of a
  migration.\<close>

inductive operation :: "lock_cmd list \<Rightarrow> bool" where
  Idle: "operation []"
| Migrate: "mountKey source \<Longrightarrow> mountKey destination \<Longrightarrow> operation s \<Longrightarrow> operation (migrateLocks i source destination @ s)"
| Deleter: "\<forall>m \<in> set mounts. mountKey m \<Longrightarrow> operation s \<Longrightarrow> operation (deleterLocks i mounts @ s)"
| ReadFile: "mountKey m \<Longrightarrow> operation s \<Longrightarrow> operation (fileThenMount (FileReadLock i) m @ s)"
| WriteFile: "mountKey m \<Longrightarrow> operation s \<Longrightarrow> operation (fileThenMount (FileWriteLock i) m @ s)"
| Keep: "operation s \<Longrightarrow> operation (keepLocks i @ s)"
| Placement: "operation s \<Longrightarrow> operation (placementLocks mounts @ s)"
| Mount: "operation s \<Longrightarrow> operation (mountChange m @ s)"
| Pool: "operation s \<Longrightarrow> operation (poolChange i @ s)"

lemma ordered_placement: "keys.orderedFrom [] (placementLocks mounts @ s) = keys.orderedFrom [] s"
proof (induction mounts)
  case (Cons m ms)
  have "placementLocks (m # ms) @ s = holding [Take Shared m] [] @ placementLocks ms @ s" by (simp add: placementLocks_def ReadLock_def)
  with ordered_one [of m "[]" Shared "placementLocks ms @ s"] Cons show ?case by simp
qed (simp add: placementLocks_def)

lemma ordered_file_mounts:
  assumes "\<forall>m \<in> set ids. mountKey m"
  shows "keys.orderedFrom [] (holding [Take mode (fileLockKey i)] (holding (ReadLocks ids) []) @ s) = keys.orderedFrom [] s"
  by (rule ordered_one, rule ordered_mounts [OF assms]) (simp add: classes)

lemma ordered_file_mount:
  assumes "mountKey m"
  shows "keys.orderedFrom [] (holding [Take mode (fileLockKey i)] (holding [ReadLock m] []) @ s) = keys.orderedFrom [] s"
proof (rule ordered_one)
  fix s'
  show "keys.orderedFrom [fileLockKey i] (holding [ReadLock m] [] @ s') = keys.orderedFrom [fileLockKey i] s'"
    using keys.ordered_holding [of "[m]" "[fileLockKey i]" "[]" Shared s'] assms
    by (simp add: ReadLock_def lockBefore_def classes mountKey_def)
qed

lemma operation_ordered: "operation s \<Longrightarrow> keys.orderedFrom [] s"
proof (induction rule: operation.induct)
  case (Migrate source destination s i)
  then have "keys.orderedFrom [] (holding [Take mode (fileLockKey i)] (holding (ReadLocks [source, destination]) []) @ s') = keys.orderedFrom [] s'" for mode s'
    by (intro ordered_file_mounts) simp
  with Migrate.IH show ?case by (simp add: migrateLocks_def FileReadLock_def FileWriteLock_def ReadLock_def WriteLock_def)
next
  case (Keep s i)
  with ordered_one [of "fileLockKey i" "[]" Exclusive s] show ?case by (simp add: keepLocks_def FileWriteLock_def WriteLock_def)
next
  case (Mount s m)
  with ordered_one [of m "[]" Exclusive s] show ?case by (simp add: mountChange_def WriteLock_def)
next
  case (Pool s i)
  with ordered_one [of "poolLockKey i" "[]" Exclusive s] show ?case by (simp add: poolChange_def PoolWriteLock_def WriteLock_def)
qed (simp_all add: deleterLocks_def fileThenMount_def FileReadLock_def FileWriteLock_def ordered_file_mounts ordered_file_mount
  ordered_placement flip: ReadLock_def WriteLock_def, simp_all add: WriteLock_def ReadLock_def ordered_file_mounts ordered_file_mount [unfolded ReadLock_def])

section \<open>Schedules\<close>

definition runOne :: "nat \<Rightarrow> lock_system \<Rightarrow> lock_system option" where
  "runOne i s = (if i < length (snd s) then map_option (\<lambda>(l, g). (l, (snd s)[i := g])) (stepGoroutine (fst s) (snd s ! i)) else None)"

fun runAll :: "nat list \<Rightarrow> lock_system \<Rightarrow> lock_system option" where
  "runAll [] s = Some s"
| "runAll (i # is) s = (case runOne i s of None \<Rightarrow> None | Some t \<Rightarrow> runAll is t)"

lemma runOne_step: "runOne i s = Some t \<Longrightarrow> lock_step s t"
  by (cases s) (auto simp: runOne_def split: if_splits intro: lock_step.Step)

lemma runAll_steps: "runAll is s = Some t \<Longrightarrow> (lock_step ^^ length is) s t"
proof (induction "is" arbitrary: s)
  case (Cons i "is")
  then obtain u where u: "runOne i s = Some u" "runAll is u = Some t" by (auto split: option.splits)
  with Cons.IH have "(lock_step ^^ length is) u t" by simp
  with relpowp_Suc_I2 [OF runOne_step [OF u(1)] this] show ?case by simp
qed simp

section \<open>Exclusion\<close>

lemma two_of_them:
  assumes "i < length gs" "j < length gs" "i \<noteq> j"
  obtains R where "allTokens gs = tokens (gs ! i) + tokens (gs ! j) + R"
proof
  have "allTokens gs = (\<Sum>n \<in> {0..<length gs}. tokens (gs ! n))" by (simp add: allTokens_def sum_list_sum_nth)
  also have "\<dots> = tokens (gs ! i) + (\<Sum>n \<in> {0..<length gs} - {i}. tokens (gs ! n))" using assms by (simp add: sum.remove)
  also have "(\<Sum>n \<in> {0..<length gs} - {i}. tokens (gs ! n)) = tokens (gs ! j) + (\<Sum>n \<in> {0..<length gs} - {i} - {j}. tokens (gs ! n))"
    using assms by (intro sum.remove) auto
  finally show "allTokens gs = tokens (gs ! i) + tokens (gs ! j) + (\<Sum>n \<in> {0..<length gs} - {i} - {j}. tokens (gs ! n))" by (simp add: ac_simps)
qed

lemma held_counts:
  assumes "(k, m, p) \<in> set (gr_held g)"
  shows "(k, p, roleOf m) \<in># tokens g" "0 < inRole p (roleOf m) (tokens g)"
proof -
  show t: "(k, p, roleOf m) \<in># tokens g" using assms by (force simp: tokens_def heldToken_def)
  then obtain T where "tokens g = add_mset (k, p, roleOf m) T" by (blast dest: multi_member_split)
  then show "0 < inRole p (roleOf m) (tokens g)" by simp
qed

lemma inRole_union: "inRole p r (A + B) = inRole p r A + inRole p r B"
  by (simp add: inRole_def)

lemma holders_share:
  assumes ok: "locksOK l (allTokens gs)" and ij: "i < length gs" "j < length gs" "i \<noteq> j"
    and held: "(k, m, p) \<in> set (gr_held (gs ! i))" "(k, m', p') \<in> set (gr_held (gs ! j))"
  shows "m = Shared \<and> p = p'"
proof -
  obtain R where R: "allTokens gs = tokens (gs ! i) + tokens (gs ! j) + R" using two_of_them [OF ij] .
  have tok: "(k, p, roleOf m) \<in># allTokens gs" "(k, p', roleOf m') \<in># allTokens gs" using held_counts(1) [OF held(1)] held_counts(1) [OF held(2)] by (simp_all add: R)
  then have p: "p' = p" using locksOK_token(1) [OF ok tok(1)] locksOK_token(1) [OF ok tok(2)] by simp
  have "entryOK (lf_heap l ! p) p (allTokens gs)" using locksOK_token(3) [OF ok tok(1)] .
  with held_counts(2) [OF held(1)] held_counts(2) [OF held(2)] have "m = Shared"
    by (cases m; cases m') (auto simp: entryOK_def R inRole_union roleOf_def p split: if_splits)
  with p show ?thesis by simp
qed

text \<open>C18: Whatever locks any number of goroutines take and drop in whatever order, two of them hold
  the lock of one key at a time only when both read, and then both use the same entry; the map
  has an entry for a key exactly as long as some goroutine uses it.\<close>

theorem locks_exclude:
  assumes "lock_step\<^sup>*\<^sup>* (startSystem ss) (l, gs)"
  shows "(\<forall>i j k m m' p p'. i < length gs \<and> j < length gs \<and> i \<noteq> j \<and> (k, m, p) \<in> set (gr_held (gs ! i)) \<and>
      (k, m', p') \<in> set (gr_held (gs ! j)) \<longrightarrow> m = Shared \<and> m' = Shared \<and> p = p') \<and>
    (\<forall>k. lf_locks l k = None \<longleftrightarrow> \<not> (\<exists>g p r. g \<in> set gs \<and> (k, p, r) \<in># tokens g))"
proof -
  have "lockInv (l, gs)" using locks.reachable_inv [OF _ assms] by (auto simp: lockInit_def)
  then have ok: "locksOK l (allTokens gs)" by (simp add: lockInv_def)
  have mem: "t \<in># allTokens gs \<longleftrightarrow> (\<exists>g \<in> set gs. t \<in># tokens g)" for t by (induction gs) (auto simp: allTokens_def)
  have unused: "lf_locks l k = None \<longleftrightarrow> \<not> (\<exists>p r. (k, p, r) \<in># allTokens gs)" for k
  proof (cases "lf_locks l k")
    case None
    then show ?thesis using locksOK_token(1) [OF ok] by fastforce
  next
    case (Some p)
    with ok have "0 < users p (allTokens gs)" by (simp add: locksOK_def)
    then obtain t where t: "t \<in># allTokens gs" "fst (snd t) = p" using users_0 [of p "allTokens gs"] by auto
    then obtain k' r where "(k', p, r) \<in># allTokens gs" by (cases t) auto
    moreover from locksOK_token(1) [OF ok this] ok Some have "k' = k" by (simp add: locksOK_def)
    ultimately show ?thesis using Some by auto
  qed
  have share: "m = Shared \<and> m' = Shared \<and> p = p'"
    if "i < length gs" "j < length gs" "i \<noteq> j" "(k, m, p) \<in> set (gr_held (gs ! i))" "(k, m', p') \<in> set (gr_held (gs ! j))" for i j k m m' p p'
    using holders_share [OF ok that] holders_share [OF ok that(2,1) that(3) [symmetric] that(5,4)] by simp
  have mem': "(\<exists>p r. (k, p, r) \<in># allTokens gs) \<longleftrightarrow> (\<exists>g p r. g \<in> set gs \<and> (k, p, r) \<in># tokens g)" for k
    unfolding mem by blast
  show ?thesis
  proof (rule conjI)
    show "\<forall>i j k m m' p p'. i < length gs \<and> j < length gs \<and> i \<noteq> j \<and> (k, m, p) \<in> set (gr_held (gs ! i)) \<and>
      (k, m', p') \<in> set (gr_held (gs ! j)) \<longrightarrow> m = Shared \<and> m' = Shared \<and> p = p'"
      by (intro allI impI) (elim conjE, rule share)
    show "\<forall>k. lf_locks l k = None \<longleftrightarrow> \<not> (\<exists>g p r. g \<in> set gs \<and> (k, p, r) \<in># tokens g)"
      by (simp only: unused mem' simp_thms)
  qed
qed

theorem locks_exclude_witness:
  "\<exists>l gs. lock_step\<^sup>*\<^sup>* (startSystem [mountChange ''a'', mountChange ''a'']) (l, gs) \<and> (\<exists>p. gr_held (gs ! 0) = [(''a'', Exclusive, p)]) \<and>
     (\<forall>m p. (''a'', m, p) \<notin> set (gr_held (gs ! 1)))"
proof -
  have "map_option (\<lambda>s. (length (snd s), map (\<lambda>h. (fst h, fst (snd h))) (gr_held (snd s ! 0)))) (runAll [0, 0, 0, 1] (startSystem [mountChange ''a'', mountChange ''a''])) =
    Some (2, [(''a'', Exclusive)])"
    by code_simp
  then obtain s where s: "runAll [0, 0, 0, 1] (startSystem [mountChange ''a'', mountChange ''a'']) = Some s" "length (snd s) = 2"
    "map (\<lambda>h. (fst h, fst (snd h))) (gr_held (snd s ! 0)) = [(''a'', Exclusive)]" by auto
  obtain l gs where eq: "s = (l, gs)" by (cases s)
  have run: "lock_step\<^sup>*\<^sup>* (startSystem [mountChange ''a'', mountChange ''a'']) (l, gs)"
    using relpowp_imp_rtranclp [OF runAll_steps [OF s(1)]] by (simp add: eq)
  from s(3) obtain p where h: "gr_held (gs ! 0) = [(''a'', Exclusive, p)]" by (auto simp: eq)
  have "0 < length gs" "1 < length gs" using s(2) by (simp_all add: eq)
  with h locks_exclude [OF run] have "(''a'', m, q) \<notin> set (gr_held (gs ! 1))" for m q
    by (metis list.set_intros(1) lock_mode.distinct(1) zero_neq_one)
  with run h show ?thesis by blast
qed

section \<open>Progress\<close>

text \<open>C19: Any number of migrations of videos, deletions, cleanups, uploads and changes of mounts
  and pools, started together, make only boundedly many steps, and they can stop nowhere but at
  the end: with every script done, no lock held and the map of locks empty.\<close>

theorem operations_finish:
  assumes "\<And>s. s \<in> set ss \<Longrightarrow> operation s" and "(lock_step ^^ n) (startSystem ss) (l, gs)"
  shows "n \<le> 4 * sum_list (map length ss) \<and>
    ((\<forall>t. \<not> lock_step (l, gs) t) \<longrightarrow> (\<forall>g. g \<in> set gs \<longrightarrow> gr_done g \<and> gr_held g = []) \<and> lf_locks l = Map.empty)"
proof -
  have "sum_list (map remaining (snd (startSystem ss))) = 4 * sum_list (map length ss)"
    by (induction ss) (simp_all add: startSystem_def starting_def remaining_def)
  moreover have "\<forall>g \<in> set (snd (startSystem ss)). apart g" by (simp add: startSystem_def starting_def apart_def)
  ultimately have "n \<le> 4 * sum_list (map length ss)" using lock_runs_end [OF assms(2)] by simp
  moreover have "\<forall>s \<in> set ss. keys.orderedFrom [] s" using assms(1) operation_ordered by blast
  ultimately show ?thesis using keys.ordered_never_stuck [OF _ relpowp_imp_rtranclp [OF assms(2)]] by blast
qed

text \<open>Two videos on one mount are migrated and deleted while the mount is edited.\<close>

definition lockDemo :: "lock_cmd list list" where
  "lockDemo = [migrateLocks 1 ''a'' ''b'', deleterLocks 2 [''a''], mountChange ''a'']"

lemma lockDemo_operations: "s \<in> set lockDemo \<Longrightarrow> operation s"
proof -
  have m: "mountKey ''a''" "mountKey ''b''" by (simp_all add: mountKey_def lockClass_def)
  have "operation (migrateLocks 1 ''a'' ''b'' @ [])" "operation (deleterLocks 2 [''a''] @ [])" "operation (mountChange ''a'' @ [])"
    by (rule operation.intros operation.Idle m | simp add: m)+
  then show "s \<in> set lockDemo \<Longrightarrow> operation s" by (auto simp: lockDemo_def)
qed

definition lockDemoRun :: "nat list" where
  "lockDemoRun = [2, 0, 0, 0, 1, 0, 0, 1] @ replicate 20 0 @ replicate 7 1 @ replicate 4 2"

lemma done_stuck: "list_all gr_done gs \<Longrightarrow> \<not> lock_step (l, gs) t"
  by (auto simp: list_all_length gr_done_def stepGoroutine_def elim!: lock_step.cases)

theorem operations_finish_witness:
  "\<exists>l gs. (lock_step ^^ 39) (startSystem lockDemo) (l, gs) \<and> list_all (\<lambda>g. gr_held g = []) gs \<and> lf_locks l = Map.empty"
proof -
  have "map_option (\<lambda>s. list_all gr_done (snd s)) (runAll lockDemoRun (startSystem lockDemo)) = Some True" by code_simp
  then obtain s where s: "runAll lockDemoRun (startSystem lockDemo) = Some s" "list_all gr_done (snd s)" by auto
  obtain l gs where eq: "s = (l, gs)" by (cases s)
  have "length lockDemoRun = 39" by (simp add: lockDemoRun_def)
  with runAll_steps [OF s(1)] have run: "(lock_step ^^ 39) (startSystem lockDemo) (l, gs)" by (simp only: eq)
  have "\<not> lock_step (l, gs) t" for t using done_stuck s(2) by (simp add: eq)
  with operations_finish [OF lockDemo_operations run]
  have "list_all (\<lambda>g. gr_held g = []) gs \<and> lf_locks l = Map.empty" by (auto simp: list_all_iff)
  with run show ?thesis by blast
qed

section \<open>The start of a migration\<close>

definition startDemo :: "lock_cmd list list" where
  "startDemo = [startLocks [1, 2] [''a'', ''b''] [7], deleterLocks 7 [''a''], mountChange ''a'']"

definition jammed :: "lock_system \<Rightarrow> bool" where
  "jammed s \<longleftrightarrow> length (snd s) = 3 \<and> list_all (\<lambda>g. Option.is_none (stepGoroutine (fst s) g) \<and> \<not> gr_done g) (snd s)"

lemma jammed_stuck: "jammed s \<Longrightarrow> \<not> lock_step s t"
  by (auto simp: jammed_def list_all_length Option.is_none_def elim!: lock_step.cases)

text \<open>C20: The start of a migration locks its mounts before its files, against the order of every
  other operation: starting a migration, deleting one of its videos and editing a mount can
  reach a state in which the three wait for each other for good.\<close>

theorem start_can_deadlock:
  "\<exists>l gs. lock_step\<^sup>*\<^sup>* (startSystem startDemo) (l, gs) \<and> (\<forall>t. \<not> lock_step (l, gs) t) \<and> length gs = 3 \<and>
     list_all (\<lambda>g. \<not> gr_done g) gs"
proof -
  let ?is = "[0, 0, 0, 0, 0, 0, 0, 0, 1, 1, 1, 0, 2, 2, 1]"
  have "map_option jammed (runAll ?is (startSystem startDemo)) = Some True" by code_simp
  then obtain s where s: "runAll ?is (startSystem startDemo) = Some s" "jammed s" by auto
  obtain l gs where eq: "s = (l, gs)" by (cases s)
  have "lock_step\<^sup>*\<^sup>* (startSystem startDemo) (l, gs)" using relpowp_imp_rtranclp [OF runAll_steps [OF s(1)]] by (simp add: eq)
  moreover have "\<not> lock_step (l, gs) t" for t using jammed_stuck [OF s(2)] by (simp add: eq)
  moreover have "length gs = 3" "list_all (\<lambda>g. \<not> gr_done g) gs" using s(2) by (auto simp: eq jammed_def list_all_iff)
  ultimately show ?thesis by blast
qed

end
