(* ===== verification/MgState.thy ===== *)
theory MgState
  imports StStore BgTypes
begin

text \<open>
  The migration of stored videos between mounts (\<^verbatim>\<open>services/StorageMigration.go\<close>): its tables, the
  statements over them, and the progress counters. The stores are those of the object-store
  contract; a statement, a call of a store and a check of the context may each fail.
\<close>

section \<open>Rows\<close>

datatype item_status =
    ItemPending | ItemCopying | ItemVerifying | ItemCutover | ItemCleanupPending | ItemCleaning
  | ItemCleaned | ItemOriginalKept | ItemOriginalPartial | ItemDeleted | ItemFailed | ItemCanceled

datatype migration_status =
    MigrationQueued | MigrationRunning | MigrationPaused | MigrationFailed | MigrationCanceled
  | MigrationRetainingOriginals | MigrationCleaningOriginals | MigrationCompleted | MigrationOriginalsRetained

record stored_file =
  sf_ID :: nat
  sf_UUID :: string
  sf_Size :: int
  sf_StorageID :: string
  sf_StoragePoolID :: "nat option"
  sf_CacheVersion :: "nat option"
  sf_Available :: bool
  sf_Deleted :: bool

text \<open>A quality, an audio track or a subtitle of a file.\<close>

record track_row =
  tr_FileID :: nat
  tr_Encoding :: bool

record file_link =
  fk_FileID :: nat
  fk_UserID :: nat
  fk_Deleted :: bool

text \<open>An account, a mount as a member of a pool, and a pool.\<close>

record account_row =
  ac_ID :: nat
  ac_Username :: string
  ac_StoragePoolID :: "nat option"
  ac_Deleted :: bool

record pool_member =
  pb_Mount :: string
  pb_Name :: string
  pb_Primary :: bool
  pb_Mounted :: bool
  pb_LastError :: string

record mig_pool =
  pw_ID :: nat
  pw_Name :: string
  pw_IsDefault :: bool
  pw_Members :: "pool_member list"

record migration_row =
  mg_ID :: nat
  mg_UUID :: string
  mg_RequestKey :: string
  mg_PlanFingerprint :: string
  mg_SourcePoolID :: nat
  mg_DestinationPoolID :: nat
  mg_SourcePoolName :: string
  mg_DestinationPoolName :: string
  mg_AllAccounts :: bool
  mg_AccountCount :: nat
  mg_SharedFileCount :: int
  mg_BackgroundJobID :: string
  mg_CleanupJobID :: string
  mg_Status :: migration_status
  mg_Phase :: string
  mg_FileCount :: int
  mg_PlannedBytes :: int
  mg_ActualBytes :: int
  mg_CopiedBytes :: int
  mg_CutoverCount :: int
  mg_CleanedCount :: int
  mg_DeletedCount :: int
  mg_CreatedByID :: nat
  mg_CreatedByName :: string
  mg_CancelGeneration :: int
  mg_KeepOriginals :: bool
  mg_CleanupAfter :: "time option"
  mg_StartedAt :: "time option"
  mg_CopyCompletedAt :: "time option"
  mg_CompletedAt :: "time option"
  mg_CanceledAt :: "time option"
  mg_ErrorCode :: string

text \<open>A background job whose subject is a migration, as this component sees it: its last error and when
  its queued tasks may run.\<close>

record job_view =
  jv_ID :: string
  jv_Kind :: string
  jv_SubjectID :: string
  jv_Status :: job_status
  jv_ErrorCode :: string
  jv_CreatedAt :: time
  jv_QueuedAt :: "time option list"

record item_row =
  mi_ID :: nat
  mi_MigrationID :: nat
  mi_FileID :: nat
  mi_FileUUID :: string
  mi_SourceMountID :: string
  mi_DestinationMountID :: string
  mi_Status :: item_status
  mi_ReservationKey :: string
  mi_DestinationOwned :: bool
  mi_PlannedBytes :: int
  mi_BytesTotal :: int
  mi_BytesCopied :: int
  mi_ObjectCount :: int
  mi_ObjectsVerified :: int
  mi_ProgressMessage :: string
  mi_ErrorCode :: string
  mi_CopyStartedAt :: "time option"
  mi_CutoverAt :: "time option"
  mi_CleanedAt :: "time option"

record checkpoint_row =
  co_ItemID :: nat
  co_ObjectKey :: string
  co_SourceRevision :: string
  co_SourceSize :: int
  co_DestinationETag :: string
  co_Checksum :: string

record mig_world = store_world +
  mw_files :: "stored_file list"
  mw_qualities :: "track_row list"
  mw_audios :: "track_row list"
  mw_subtitles :: "track_row list"
  mw_links :: "file_link list"
  mw_accounts :: "account_row list"
  mw_pools :: "mig_pool list"
  mw_jobs :: "job_view list"
  mw_migrations :: "migration_row list"
  mw_items :: "item_row list"
  mw_objects :: "checkpoint_row list"
  mw_connected :: "string list"

type_synonym 'a mig_tx = "(mig_world, media_error, 'a) tx"

text \<open>What is outside the program: the digest, what a provider does with the bytes it is given,
  the clock, and whether half a second has passed since the last write of the progress.\<close>

record mig_env =
  me_sha256 :: "string \<Rightarrow> string"
  me_provider :: "string \<Rightarrow> provider"
  me_now :: time
  me_default :: string
  me_due :: "nat \<Rightarrow> bool"

section \<open>Statements\<close>

definition itemById :: "nat \<Rightarrow> mig_world \<Rightarrow> item_row option" where
  "itemById i w = find (\<lambda>it. mi_ID it = i) (mw_items w)"

definition fileById :: "nat \<Rightarrow> mig_world \<Rightarrow> stored_file option" where
  "fileById i w = find (\<lambda>f. sf_ID f = i \<and> \<not> sf_Deleted f) (mw_files w)"

definition fileUnscoped :: "nat \<Rightarrow> mig_world \<Rightarrow> stored_file option" where
  "fileUnscoped i w = find (\<lambda>f. sf_ID f = i) (mw_files w)"

definition storeFor :: "string \<Rightarrow> unit mig_tx" where
  "storeFor i = tx_stmt (\<lambda>w. if i \<in> set (mw_connected w) then Inr ((), w) else Inl (App ErrNotConfigured))"

definition filePrefix :: "string \<Rightarrow> string mig_tx" where
  "filePrefix uuid = (case layoutFilePrefix uuid of Inl e \<Rightarrow> tx_fail (App (ErrKey e)) | Inr p \<Rightarrow> tx_return p)"

definition reservationKey :: "nat \<Rightarrow> string" where
  "reservationKey fileID = ''file:'' @ digits fileID"

definition setItems :: "(item_row \<Rightarrow> bool) \<Rightarrow> (item_row \<Rightarrow> item_row) \<Rightarrow> mig_world \<Rightarrow> mig_world" where
  "setItems p f w = w\<lparr>mw_items := update_where p f (mw_items w)\<rparr>"

text \<open>The unique index on non-empty reservation keys refuses an update that would reserve a file
  twice.\<close>

definition reservedOnce :: "item_row list \<Rightarrow> bool" where
  "reservedOnce items \<longleftrightarrow> distinct (filter (\<lambda>k. k \<noteq> []) (map mi_ReservationKey items))"

definition updateItems :: "(item_row \<Rightarrow> bool) \<Rightarrow> (item_row \<Rightarrow> item_row) \<Rightarrow> nat mig_tx" where
  "updateItems p f = tx_stmt (\<lambda>w.
     if reservedOnce (update_where p f (mw_items w)) then Inr (affected p (mw_items w), setItems p f w)
     else Inl DuplicatedKey)"

definition notDeleted :: "nat \<Rightarrow> item_row \<Rightarrow> bool" where
  "notDeleted i it \<longleftrightarrow> mi_ID it = i \<and> mi_Status it \<noteq> ItemDeleted"

definition updateActiveItem :: "nat \<Rightarrow> (item_row \<Rightarrow> item_row) \<Rightarrow> unit mig_tx" where
  "updateActiveItem i f =
     tx_bind (updateItems (notDeleted i) f) (\<lambda>n.
     if n = 0 then tx_bind (tx_first (itemById i)) (\<lambda>current.
       tx_reject (mi_Status current = ItemDeleted) ErrItemDeleted)
     else tx_return ())"

definition deletedRow :: "item_row \<Rightarrow> item_row" where
  "deletedRow it = it\<lparr>mi_Status := ItemDeleted, mi_ErrorCode := [], mi_ProgressMessage := ''Deleted during migration'',
     mi_BytesTotal := 0, mi_BytesCopied := 0, mi_ObjectsVerified := 0\<rparr>"

definition markItemDeleted :: "nat \<Rightarrow> unit mig_tx" where
  "markItemDeleted i = tx_bind (updateItems (\<lambda>it. mi_ID it = i) deletedRow) (\<lambda>_. tx_return ())"

definition dropObjects :: "(nat \<Rightarrow> bool) \<Rightarrow> mig_world \<Rightarrow> mig_world" where
  "dropObjects p w = w\<lparr>mw_objects := filter (\<lambda>c. \<not> p (co_ItemID c)) (mw_objects w)\<rparr>"

definition clearCheckpoints :: "nat \<Rightarrow> unit mig_tx" where
  "clearCheckpoints i = tx_update (dropObjects (\<lambda>j. j = i))"

definition loadCheckpoints :: "nat \<Rightarrow> (string \<rightharpoonup> checkpoint_row) mig_tx" where
  "loadCheckpoints i = tx_select (\<lambda>w. map_of (rev (map (\<lambda>c. (co_ObjectKey c, c)) (filter (\<lambda>c. co_ItemID c = i) (mw_objects w)))))"

text \<open>Deleting a prefix; the joined errors of its objects make one.\<close>

definition deletePrefix :: "string \<Rightarrow> string \<Rightarrow> unit mig_tx" where
  "deletePrefix i pre = tx_bind (DeletePrefix i pre) (\<lambda>errs.
     case errs of [] \<Rightarrow> tx_return () | e # _ \<Rightarrow> tx_fail e)"

section \<open>Progress\<close>

definition cutoverStatuses :: "item_status list" where
  "cutoverStatuses = [ItemCleanupPending, ItemCleaning, ItemCleaned, ItemOriginalKept, ItemOriginalPartial]"

definition plannedOf :: "item_row \<Rightarrow> int" where
  "plannedOf it = (if mi_Status it = ItemDeleted then 0 else if 0 < mi_BytesTotal it then mi_BytesTotal it else mi_PlannedBytes it)"

definition copiedOf :: "item_row \<Rightarrow> int" where
  "copiedOf it = (if mi_Status it = ItemDeleted then 0 else mi_BytesCopied it)"

definition progressRow :: "item_row list \<Rightarrow> migration_row \<Rightarrow> migration_row" where
  "progressRow items m = m\<lparr>
     mg_ActualBytes := sum_list (map plannedOf items),
     mg_CopiedBytes := sum_list (map copiedOf items),
     mg_CutoverCount := int (length (filter (\<lambda>it. mi_Status it \<in> set cutoverStatuses) items)),
     mg_CleanedCount := int (length (filter (\<lambda>it. mi_Status it = ItemCleaned) items)),
     mg_DeletedCount := int (length (filter (\<lambda>it. mi_Status it = ItemDeleted) items))\<rparr>"

definition refreshProgress :: "nat \<Rightarrow> unit mig_tx" where
  "refreshProgress i =
     tx_bind (tx_select (\<lambda>w. filter (\<lambda>it. mi_MigrationID it = i) (mw_items w))) (\<lambda>items.
     tx_update (\<lambda>w. w\<lparr>mw_migrations := update_where (\<lambda>m. mg_ID m = i) (progressRow items) (mw_migrations w)\<rparr>))"

section \<open>One object\<close>

definition timeText :: "time \<Rightarrow> string" where
  "timeText t = show_int t"

definition objectRevision :: "mig_env \<Rightarrow> object_info \<Rightarrow> string" where
  "objectRevision env o' = me_sha256 env (oi_Key o' @ [char_of (0::nat)] @ show_int (oi_Size o') @ [char_of (0::nat)] @
     timeText (oi_ModTime o') @ [char_of (0::nat)] @ oi_ETag o')"

definition checkpointMatches ::
  "mig_env \<Rightarrow> string \<Rightarrow> object_info \<Rightarrow> object_info option \<Rightarrow> checkpoint_row option \<Rightarrow> bool mig_tx" where
  "checkpointMatches env destination o' found checkpoint =
     (case (found, checkpoint) of
        (Some d, Some c) \<Rightarrow>
          if oi_Size d \<noteq> oi_Size o' \<or> co_ObjectKey c \<noteq> oi_Key o' \<or> co_SourceSize c \<noteq> oi_Size o' \<or>
            co_SourceRevision c \<noteq> objectRevision env o' then tx_return False
          else if co_DestinationETag c \<noteq> [] \<and> oi_ETag d \<noteq> [] then tx_return (co_DestinationETag c = oi_ETag d)
          else if co_Checksum c = [] then tx_return False
          else tx_bind (tx_try (storeOpen destination (oi_Key o'))) (\<lambda>r.
            case r of Inl _ \<Rightarrow> tx_return False
            | Inr (_, body) \<Rightarrow> tx_return (int (length body) = oi_Size o' \<and> me_sha256 env body = co_Checksum c))
      | _ \<Rightarrow> tx_return False)"

record object_result =
  or_source :: object_info
  or_destination :: object_info
  or_checkpoint :: "checkpoint_row option"

definition objectMaxAttempts :: nat where "objectMaxAttempts = 5"

definition copyAttempt :: "mig_env \<Rightarrow> string \<Rightarrow> string \<Rightarrow> nat \<Rightarrow> string \<Rightarrow> object_result mig_tx" where
  "copyAttempt env source destination item key =
     tx_bind (storeStat source key) (\<lambda>current.
     tx_bind (CopyObjectValidated (me_sha256 env) (me_provider env destination) source destination current) (\<lambda>copied.
     tx_bind (storeStat source key) (\<lambda>after.
     if objectRevision env after = objectRevision env (cr_SourceInfo copied)
     then tx_return \<lparr>or_source = after, or_destination = cr_Info copied,
       or_checkpoint = Some \<lparr>co_ItemID = item, co_ObjectKey = key, co_SourceRevision = objectRevision env after,
         co_SourceSize = oi_Size after, co_DestinationETag = oi_ETag (cr_Info copied), co_Checksum = cr_Checksum copied\<rparr>\<rparr>
     else tx_fail (App ErrSourceChanged))))"

fun copyAttempts :: "nat \<Rightarrow> mig_env \<Rightarrow> string \<Rightarrow> string \<Rightarrow> nat \<Rightarrow> string \<Rightarrow> media_error txerr \<Rightarrow> object_result mig_tx" where
  "copyAttempts 0 env source destination item key lastErr = tx_fail lastErr"
| "copyAttempts (Suc n) env source destination item key lastErr =
     tx_bind tx_check (\<lambda>_.
     tx_bind (tx_try (copyAttempt env source destination item key)) (\<lambda>r.
     case r of Inr res \<Rightarrow> tx_return res
     | Inl e \<Rightarrow> copyAttempts n env source destination item key e))"

definition copyObject ::
  "mig_env \<Rightarrow> string \<Rightarrow> string \<Rightarrow> nat \<Rightarrow> object_info \<Rightarrow> object_info option \<Rightarrow> checkpoint_row option \<Rightarrow> object_result mig_tx" where
  "copyObject env source destination item o' found checkpoint =
     tx_bind (checkpointMatches env destination o' found checkpoint) (\<lambda>ok.
     if ok then tx_return \<lparr>or_source = o', or_destination = the found, or_checkpoint = None\<rparr>
     else copyAttempts objectMaxAttempts env source destination item (oi_Key o') (App ErrSourceChanged))"

end
