(* ===== verification/MgOps.thy ===== *)
theory MgOps
  imports MgState
begin

text \<open>
  The operations on one video of a migration up to its cutover: copying its prefix with checkpoints,
  the final synchronization, and the transaction that moves the file to the destination.
\<close>

section \<open>Copying a prefix\<close>

record copy_progress =
  cq_total :: nat
  cq_verifiedObjects :: nat
  cq_verifiedBytes :: int
  cq_verifiedKeys :: "string \<rightharpoonup> object_info"
  cq_pending :: "checkpoint_row list"
  cq_persisted :: bool

definition checkpointBatchSize :: nat where "checkpointBatchSize = 64"

definition upsertObject :: "checkpoint_row \<Rightarrow> checkpoint_row list \<Rightarrow> checkpoint_row list" where
  "upsertObject c cs =
     (let p = (\<lambda>x. co_ItemID x = co_ItemID c \<and> co_ObjectKey x = co_ObjectKey c)
      in if list_ex p cs then update_where p (\<lambda>_. c) cs else cs @ [c])"

definition persistRows :: "item_row \<Rightarrow> copy_progress \<Rightarrow> unit mig_tx" where
  "persistRows item p = transaction
     (tx_bind (if cq_pending p = [] then tx_return ()
        else tx_update (\<lambda>w. w\<lparr>mw_objects := fold upsertObject (cq_pending p) (mw_objects w)\<rparr>)) (\<lambda>_.
      updateActiveItem (mi_ID item) (\<lambda>it. it\<lparr>mi_BytesCopied := cq_verifiedBytes p,
        mi_ObjectsVerified := int (cq_verifiedObjects p),
        mi_ProgressMessage := ''Verified '' @ digits (cq_verifiedObjects p) @ '' of '' @ digits (cq_total p) @ '' objects''\<rparr>)))"

text \<open>The error, if any, and the progress: the rows are pending until their transaction commits.\<close>

definition persistProgress :: "item_row \<Rightarrow> copy_progress \<Rightarrow> (media_error txerr option \<times> copy_progress) mig_tx" where
  "persistProgress item p =
     tx_bind (tx_try (persistRows item p)) (\<lambda>r. case r of
       Inl e \<Rightarrow> tx_return (Some e, p)
     | Inr _ \<Rightarrow> tx_bind (tx_try (refreshProgress (mi_MigrationID item))) (\<lambda>r.
         tx_return (case r of Inl e \<Rightarrow> Some e | Inr _ \<Rightarrow> None, p\<lparr>cq_pending := [], cq_persisted := True\<rparr>)))"

definition noteResult :: "object_result \<Rightarrow> copy_progress \<Rightarrow> copy_progress" where
  "noteResult r p = p\<lparr>
     cq_verifiedObjects := cq_verifiedObjects p + 1,
     cq_verifiedBytes := cq_verifiedBytes p + oi_Size (or_source r),
     cq_verifiedKeys := (cq_verifiedKeys p)(oi_Key (or_source r) \<mapsto> (or_destination r)\<lparr>oi_Size := oi_Size (or_source r)\<rparr>),
     cq_pending := cq_pending p @ (case or_checkpoint r of None \<Rightarrow> [] | Some c \<Rightarrow> [c])\<rparr>"

definition persistDue :: "mig_env \<Rightarrow> copy_progress \<Rightarrow> bool" where
  "persistDue env p \<longleftrightarrow> checkpointBatchSize \<le> length (cq_pending p) \<or> \<not> cq_persisted p \<or>
     me_due env (cq_verifiedObjects p) \<or> cq_verifiedObjects p = cq_total p"

text \<open>The objects of a batch one after another; the pool of workers only changes their order.\<close>

fun copyObjects ::
  "mig_env \<Rightarrow> item_row \<Rightarrow> (string \<rightharpoonup> object_info) \<Rightarrow> (string \<rightharpoonup> checkpoint_row) \<Rightarrow> object_info list \<Rightarrow> copy_progress \<Rightarrow>
    (media_error txerr option \<times> copy_progress) mig_tx" where
  "copyObjects env item inventory checkpoints [] p = tx_return (None, p)"
| "copyObjects env item inventory checkpoints (ob # obs) p =
     tx_bind (tx_try (tx_bind tx_check (\<lambda>_.
       copyObject env (mi_SourceMountID item) (mi_DestinationMountID item) (mi_ID item) ob (inventory (oi_Key ob)) (checkpoints (oi_Key ob))))) (\<lambda>r.
     case r of
       Inl e \<Rightarrow> tx_return (Some e, p)
     | Inr res \<Rightarrow>
         if persistDue env (noteResult res p)
         then tx_bind (persistProgress item (noteResult res p)) (\<lambda>(e, p).
           if e \<noteq> None then tx_return (e, p) else copyObjects env item inventory checkpoints obs p)
         else copyObjects env item inventory checkpoints obs (noteResult res p))"

definition copyObjectBatch ::
  "mig_env \<Rightarrow> item_row \<Rightarrow> (string \<rightharpoonup> object_info) \<Rightarrow> (string \<rightharpoonup> checkpoint_row) \<Rightarrow> object_info list \<Rightarrow> copy_progress \<Rightarrow> copy_progress mig_tx" where
  "copyObjectBatch env item inventory checkpoints obs p =
     (if obs = [] then tx_return p
      else tx_bind (copyObjects env item inventory checkpoints obs p) (\<lambda>(e, p).
        tx_bind (if cq_pending p = [] then tx_return (e, p)
          else tx_bind (persistProgress item p) (\<lambda>(e', p). tx_return (if e = None then e' else e, p))) (\<lambda>(e, p).
        case e of Some e \<Rightarrow> tx_fail e
        | None \<Rightarrow> tx_bind tx_check (\<lambda>_. tx_return p))))"

definition takeOwnership :: "item_row \<Rightarrow> object_info list \<Rightarrow> unit mig_tx" where
  "takeOwnership item inventory =
     (if mi_DestinationOwned item then tx_return ()
      else tx_bind (tx_reject (inventory \<noteq> []) ErrMigrationConflict) (\<lambda>_.
        tx_bind (clearCheckpoints (mi_ID item)) (\<lambda>_.
        updateActiveItem (mi_ID item) (\<lambda>it. it\<lparr>mi_DestinationOwned := True\<rparr>))))"

definition byKey :: "object_info list \<Rightarrow> string \<rightharpoonup> object_info" where
  "byKey obs = map_of (rev (map (\<lambda>ob. (oi_Key ob, ob)) obs))"

definition isPlaylist :: "object_info \<Rightarrow> bool" where
  "isPlaylist ob \<longleftrightarrow> suffix ''.m3u8'' (toLower (oi_Key ob))"

definition expectedObject :: "object_info \<Rightarrow> object_info \<Rightarrow> bool" where
  "expectedObject expected ob \<longleftrightarrow> oi_Size ob = oi_Size expected \<and>
     \<not> (oi_ETag expected \<noteq> [] \<and> oi_ETag ob \<noteq> [] \<and> oi_ETag expected \<noteq> oi_ETag ob)"

text \<open>The last look at the destination: stale objects are removed, every verified one must be
  there as it was verified.\<close>

definition finalInventory :: "item_row \<Rightarrow> string \<Rightarrow> object_info list \<Rightarrow> copy_progress \<Rightarrow> unit mig_tx" where
  "finalInventory item pre objects p =
     tx_bind (PrefixInventory (mi_DestinationMountID item) pre) (\<lambda>found.
     tx_bind (tx_foreach (\<lambda>ob. if cq_verifiedKeys p (oi_Key ob) = None then storeDelete (mi_DestinationMountID item) (oi_Key ob)
       else tx_return ()) found) (\<lambda>_.
     let final = byKey (filter (\<lambda>ob. cq_verifiedKeys p (oi_Key ob) \<noteq> None) found) in
     tx_foreach (\<lambda>ob. case (cq_verifiedKeys p (oi_Key ob), final (oi_Key ob)) of
         (Some expected, Some stored) \<Rightarrow> tx_reject (\<not> expectedObject expected stored) (ErrInventoryMismatch (oi_Key ob))
       | (Some _, None) \<Rightarrow> tx_fail (App (ErrInventoryMismatch (oi_Key ob)))
       | _ \<Rightarrow> tx_return ()) objects))"

definition copyPrefix :: "mig_env \<Rightarrow> item_row \<Rightarrow> stored_file \<Rightarrow> bool \<Rightarrow> unit mig_tx" where
  "copyPrefix env item file finalSync =
     tx_bind (storeFor (mi_SourceMountID item)) (\<lambda>_.
     tx_bind (storeFor (mi_DestinationMountID item)) (\<lambda>_.
     tx_bind (filePrefix (sf_UUID file)) (\<lambda>pre.
     tx_bind (PrefixInventory (mi_DestinationMountID item) pre) (\<lambda>inventory.
     tx_bind (takeOwnership item inventory) (\<lambda>_.
     tx_bind (PrefixInventory (mi_SourceMountID item) pre) (\<lambda>objects.
     tx_bind (tx_reject (objects = []) ErrSourceEmpty) (\<lambda>_.
     tx_bind (updateActiveItem (mi_ID item) (\<lambda>it. it\<lparr>mi_Status := (if finalSync then ItemVerifying else ItemCopying),
       mi_BytesTotal := sum_list (map oi_Size objects), mi_ObjectCount := int (length objects),
       mi_ProgressMessage := (if finalSync then ''Final synchronization and verification'' else ''Copying and verifying media'')\<rparr>)) (\<lambda>_.
     tx_bind (loadCheckpoints (mi_ID item)) (\<lambda>checkpoints.
     tx_bind (copyObjectBatch env item (byKey inventory) checkpoints (filter (\<lambda>ob. \<not> isPlaylist ob) objects)
       \<lparr>cq_total = length objects, cq_verifiedObjects = 0, cq_verifiedBytes = 0, cq_verifiedKeys = Map.empty,
        cq_pending = [], cq_persisted = False\<rparr>) (\<lambda>p.
     tx_bind (copyObjectBatch env item (byKey inventory) checkpoints (filter isPlaylist objects) p) (\<lambda>p.
     if finalSync then finalInventory item pre objects p else tx_return ())))))))))))"

section \<open>Moving a video\<close>

definition cleanupDeletedDestination :: "item_row \<Rightarrow> bool \<Rightarrow> unit mig_tx" where
  "cleanupDeletedDestination item workerWrote =
     tx_bind (tx_first (itemById (mi_ID item))) (\<lambda>current.
     if mi_Status current \<noteq> ItemDeleted \<or> (\<not> mi_DestinationOwned current \<and> \<not> (mi_DestinationOwned item \<or> workerWrote)) then tx_return ()
     else tx_bind (storeFor (mi_DestinationMountID current)) (\<lambda>_.
       tx_bind (filePrefix (mi_FileUUID current)) (\<lambda>pre.
       tx_bind (deletePrefix (mi_DestinationMountID current) pre) (\<lambda>_.
       transaction (tx_bind (clearCheckpoints (mi_ID current)) (\<lambda>_.
         tx_bind (updateItems (\<lambda>it. mi_ID it = mi_ID current \<and> mi_Status it = ItemDeleted)
           (\<lambda>it. it\<lparr>mi_DestinationOwned := False\<rparr>)) (\<lambda>_. tx_return ())))))))"

text \<open>The deferred note of an error: a canceled context leaves the video at a safe checkpoint. The text
  of an error, which a failed video also shows as its progress, is left out.\<close>

definition noteItemError :: "item_row \<Rightarrow> bool \<Rightarrow> 'a mig_tx \<Rightarrow> 'a mig_tx" where
  "noteItemError item canceled m = tx_onError m
     (tx_bind (updateItems (notDeleted (mi_ID item)) (\<lambda>it. if canceled
        then it\<lparr>mi_Status := ItemPending, mi_ErrorCode := [], mi_ProgressMessage := ''Paused at a safe checkpoint''\<rparr>
        else it\<lparr>mi_Status := ItemFailed, mi_ErrorCode := ''copy_failed''\<rparr>)) (\<lambda>_. tx_return ()))"

text \<open>A file that is gone: the video counts as deleted and its copy is removed.\<close>

definition fileOrDeleted :: "item_row \<Rightarrow> bool \<Rightarrow> stored_file option mig_tx" where
  "fileOrDeleted item workerWrote =
     tx_bind (tx_try (tx_first (fileById (mi_FileID item)))) (\<lambda>r. case r of
       Inr file \<Rightarrow> tx_return (Some file)
     | Inl RecordNotFound \<Rightarrow> tx_bind (markItemDeleted (mi_ID item)) (\<lambda>_.
         tx_bind (cleanupDeletedDestination item workerWrote) (\<lambda>_. tx_return None))
     | Inl e \<Rightarrow> tx_fail e)"

text \<open>\<open>skipDeleted m\<close>: the video was deleted meanwhile, which is no error.\<close>

definition skipDeleted :: "'a mig_tx \<Rightarrow> 'a \<Rightarrow> 'a mig_tx" where
  "skipDeleted m x = tx_catch m (\<lambda>e. if e = App ErrItemDeleted then tx_return x else tx_fail e)"

definition onDeleted :: "'a mig_tx \<Rightarrow> 'a mig_tx \<Rightarrow> 'a mig_tx" where
  "onDeleted m h = tx_catch m (\<lambda>e. if e = App ErrItemDeleted then h else tx_fail e)"

text \<open>The copy under the read lock of the file; whether the cutover is to follow.\<close>

definition copyStage :: "mig_env \<Rightarrow> item_row \<Rightarrow> bool mig_tx" where
  "copyStage env item =
     tx_bind (tx_first (itemById (mi_ID item))) (\<lambda>item.
     if mi_Status item = ItemDeleted then tx_return False
     else tx_bind (fileOrDeleted item False) (\<lambda>file. case file of
       None \<Rightarrow> tx_return False
     | Some file \<Rightarrow>
         skipDeleted (tx_bind (updateActiveItem (mi_ID item) (\<lambda>it. it\<lparr>mi_Status := ItemCopying,
             mi_CopyStartedAt := (case mi_CopyStartedAt it of None \<Rightarrow> Some (me_now env) | Some t \<Rightarrow> Some t),
             mi_ErrorCode := [], mi_ProgressMessage := ''Copying and verifying media''\<rparr>)) (\<lambda>_.
           tx_bind (tx_reject (sf_StorageID file \<noteq> mi_SourceMountID item \<or> \<not> sf_Available file) ErrMigrationConflict) (\<lambda>_.
           onDeleted (tx_bind (copyPrefix env item file False) (\<lambda>_. tx_bind tx_check (\<lambda>_. tx_return True)))
             (tx_bind (cleanupDeletedDestination item True) (\<lambda>_. tx_return False))))) False))"

definition cutoverFile :: "item_row \<Rightarrow> nat option \<Rightarrow> stored_file \<Rightarrow> stored_file" where
  "cutoverFile item pool f = f\<lparr>sf_StorageID := mi_DestinationMountID item, sf_StoragePoolID := pool,
     sf_CacheVersion := Some (case sf_CacheVersion f of None \<Rightarrow> 1 | Some v \<Rightarrow> v + 1)\<rparr>"

definition onSource :: "item_row \<Rightarrow> nat \<Rightarrow> stored_file \<Rightarrow> bool" where
  "onSource item fileID f \<longleftrightarrow> sf_ID f = fileID \<and> \<not> sf_Deleted f \<and> sf_StorageID f = mi_SourceMountID item \<and> sf_Available f"

definition cutoverBody :: "mig_env \<Rightarrow> item_row \<Rightarrow> nat option \<Rightarrow> nat \<Rightarrow> unit mig_tx" where
  "cutoverBody env item pool fileID =
     tx_bind (tx_stmt (\<lambda>w. Inr (affected (onSource item fileID) (mw_files w),
       w\<lparr>mw_files := update_where (onSource item fileID) (cutoverFile item pool) (mw_files w)\<rparr>))) (\<lambda>n.
     tx_bind (tx_reject (n \<noteq> 1) ErrMigrationConflict) (\<lambda>_.
     tx_bind (updateItems (notDeleted (mi_ID item)) (\<lambda>it. it\<lparr>mi_Status := ItemCleanupPending, mi_CutoverAt := Some (me_now env),
       mi_ProgressMessage := ''Destination active; original retained'', mi_ErrorCode := []\<rparr>)) (\<lambda>n.
     tx_bind (tx_reject (n \<noteq> 1) ErrItemDeleted) (\<lambda>_.
     clearCheckpoints (mi_ID item)))))"

definition bumpCacheVersion :: "nat \<Rightarrow> mig_world \<Rightarrow> mig_world" where
  "bumpCacheVersion i w = w\<lparr>mw_files := update_where (\<lambda>f. sf_ID f = i)
     (\<lambda>f. f\<lparr>sf_CacheVersion := Some (case sf_CacheVersion f of None \<Rightarrow> 1 | Some v \<Rightarrow> v + 1)\<rparr>) (mw_files w)\<rparr>"

definition cutover :: "mig_env \<Rightarrow> item_row \<Rightarrow> nat option \<Rightarrow> nat \<Rightarrow> unit mig_tx" where
  "cutover env item pool fileID =
     tx_catch (transaction (cutoverBody env item pool fileID)) (\<lambda>e.
       if e = App ErrItemDeleted then cleanupDeletedDestination item True
       else if e = App ErrMigrationConflict
       then tx_bind (tx_try (tx_first (fileUnscoped fileID))) (\<lambda>r.
         if (case r of Inl e' \<Rightarrow> e' = RecordNotFound | Inr current \<Rightarrow> sf_Deleted current)
         then tx_bind (markItemDeleted (mi_ID item)) (\<lambda>_. cleanupDeletedDestination item True)
         else case r of Inl e' \<Rightarrow> tx_fail e' | Inr _ \<Rightarrow> tx_fail e)
       else tx_fail e)"

text \<open>The final synchronization and the cutover under the write lock of the file.\<close>

definition finalStage :: "mig_env \<Rightarrow> item_row \<Rightarrow> nat option \<Rightarrow> unit mig_tx" where
  "finalStage env item pool =
     tx_bind (tx_first (itemById (mi_ID item))) (\<lambda>item.
     if mi_Status item = ItemDeleted then cleanupDeletedDestination item True
     else tx_bind (fileOrDeleted item True) (\<lambda>file. case file of
       None \<Rightarrow> tx_return ()
     | Some file \<Rightarrow>
         tx_bind (tx_reject (sf_StorageID file \<noteq> mi_SourceMountID item \<or> \<not> sf_Available file) ErrMigrationConflict) (\<lambda>_.
         onDeleted (tx_bind (copyPrefix env item file True) (\<lambda>_.
           tx_bind tx_check (\<lambda>_.
           tx_bind (tx_update (bumpCacheVersion (sf_ID file))) (\<lambda>_.
           cutover env item pool (sf_ID file)))))
           (cleanupDeletedDestination item True))))"

definition migrateItem :: "mig_env \<Rightarrow> bool \<Rightarrow> migration_row \<Rightarrow> item_row \<Rightarrow> unit mig_tx" where
  "migrateItem env canceled migration item =
     (if mi_Status item \<in> {ItemCleanupPending, ItemCleaned, ItemDeleted} then tx_return ()
      else noteItemError item canceled (tx_bind (copyStage env item) (\<lambda>go.
        if go then finalStage env item (Some (mg_DestinationPoolID migration)) else tx_return ())))"

end
