(* ===== verification/MgClean.thy ===== *)
theory MgClean
  imports MgOps
begin

text \<open>
  What follows the cutover, and what undoes a migration: removing the originals, cleaning a
  canceled copy, preparing a retry, keeping the originals; and the deleter of unreferenced videos.
\<close>

section \<open>Removing the originals\<close>

definition settledStatuses :: "item_status set" where
  "settledStatuses = {ItemCleaned, ItemOriginalKept, ItemOriginalPartial, ItemDeleted}"

definition fileEncodingActive :: "nat \<Rightarrow> bool mig_tx" where
  "fileEncodingActive i =
     tx_bind (tx_select (\<lambda>w. list_ex (\<lambda>t. tr_FileID t = i \<and> tr_Encoding t) (mw_qualities w))) (\<lambda>q.
     if q then tx_return True
     else tx_bind (tx_select (\<lambda>w. list_ex (\<lambda>t. tr_FileID t = i \<and> tr_Encoding t) (mw_audios w))) (\<lambda>a.
       if a then tx_return True
       else tx_select (\<lambda>w. list_ex (\<lambda>t. tr_FileID t = i \<and> tr_Encoding t) (mw_subtitles w))))"

definition unscopedOrNone :: "nat \<Rightarrow> stored_file option mig_tx" where
  "unscopedOrNone i = tx_catch (tx_bind (tx_first (fileUnscoped i)) (\<lambda>f. tx_return (Some f)))
     (\<lambda>e. if e = RecordNotFound then tx_return None else tx_fail e)"

definition checkOriginal :: "item_row \<Rightarrow> stored_file \<Rightarrow> unit mig_tx" where
  "checkOriginal item file =
     tx_bind (tx_reject (sf_StorageID file \<noteq> mi_DestinationMountID item) ErrMigrationConflict) (\<lambda>_.
     tx_bind (fileEncodingActive (mi_FileID item)) (\<lambda>encoding.
     if encoding
     then tx_bind (skipDeleted (updateActiveItem (mi_ID item) (\<lambda>it. it\<lparr>mi_Status := ItemCleanupPending,
         mi_ProgressMessage := ''Waiting for video encoding to finish''\<rparr>)) ()) (\<lambda>_. tx_fail (App ErrEncodingActive))
     else tx_return ()))"

definition removeOriginal :: "mig_env \<Rightarrow> item_row \<Rightarrow> unit mig_tx" where
  "removeOriginal env item =
     tx_bind (storeFor (mi_SourceMountID item)) (\<lambda>_.
     tx_bind (filePrefix (mi_FileUUID item)) (\<lambda>pre.
     tx_bind (updateActiveItem (mi_ID item) (\<lambda>it. it\<lparr>mi_Status := ItemCleaning, mi_ProgressMessage := ''Removing original copy''\<rparr>)) (\<lambda>_.
     tx_bind (deletePrefix (mi_SourceMountID item) pre) (\<lambda>_.
     updateActiveItem (mi_ID item) (\<lambda>it. it\<lparr>mi_Status := ItemCleaned, mi_CleanedAt := Some (me_now env), mi_ReservationKey := [],
       mi_ProgressMessage := ''Original removed'', mi_ErrorCode := []\<rparr>)))))"

definition cleanupItem :: "mig_env \<Rightarrow> item_row \<Rightarrow> unit mig_tx" where
  "cleanupItem env item =
     tx_bind tx_check (\<lambda>_.
     if mi_Status item \<in> settledStatuses then tx_return ()
     else tx_bind tx_check (\<lambda>_.
       tx_bind (tx_first (itemById (mi_ID item))) (\<lambda>item.
       if mi_Status item \<in> settledStatuses then tx_return ()
       else tx_bind (unscopedOrNone (mi_FileID item)) (\<lambda>file.
         tx_bind (case file of None \<Rightarrow> tx_return () | Some f \<Rightarrow> checkOriginal item f) (\<lambda>_.
         skipDeleted (removeOriginal env item) ())))))"

section \<open>Undoing a canceled copy\<close>

definition fileOrNone :: "nat \<Rightarrow> stored_file option mig_tx" where
  "fileOrNone i = tx_catch (tx_bind (tx_first (fileById i)) (\<lambda>f. tx_return (Some f)))
     (\<lambda>e. if e = RecordNotFound then tx_return None else tx_fail e)"

definition discardCopy :: "item_row \<Rightarrow> unit mig_tx" where
  "discardCopy item =
     tx_bind (if mi_DestinationOwned item
       then tx_bind (storeFor (mi_DestinationMountID item)) (\<lambda>_.
         tx_bind (filePrefix (mi_FileUUID item)) (\<lambda>pre. deletePrefix (mi_DestinationMountID item) pre))
       else tx_return ()) (\<lambda>_.
     skipDeleted (transaction (tx_bind (updateActiveItem (mi_ID item) (\<lambda>it. it\<lparr>mi_Status := ItemCanceled, mi_ReservationKey := [],
         mi_DestinationOwned := False, mi_BytesCopied := 0, mi_ObjectsVerified := 0, mi_ProgressMessage := ''Canceled before cutover''\<rparr>)) (\<lambda>_.
       clearCheckpoints (mi_ID item)))) ())"

definition cleanupCanceledItem :: "item_row \<Rightarrow> unit mig_tx" where
  "cleanupCanceledItem item =
     tx_bind tx_check (\<lambda>_.
     tx_bind tx_check (\<lambda>_.
     tx_bind (tx_first (itemById (mi_ID item))) (\<lambda>item.
     if mi_Status item = ItemDeleted then clearCheckpoints (mi_ID item)
     else tx_bind (fileOrNone (mi_FileID item)) (\<lambda>file. case file of
       None \<Rightarrow> discardCopy item
     | Some f \<Rightarrow>
         if sf_StorageID f = mi_DestinationMountID item \<and> mi_CutoverAt item \<noteq> None
         then skipDeleted (updateActiveItem (mi_ID item) (\<lambda>it. it\<lparr>mi_Status := ItemOriginalKept, mi_ReservationKey := [],
           mi_ProgressMessage := ''Destination remains active; original retained''\<rparr>)) ()
         else if sf_StorageID f \<noteq> mi_SourceMountID item then tx_fail (App ErrMigrationConflict)
         else discardCopy item))))"

section \<open>Preparing a retry\<close>

definition retryStatus :: "item_row \<Rightarrow> stored_file \<Rightarrow> item_status option" where
  "retryStatus item f =
     (if sf_StorageID f = mi_DestinationMountID item \<and> mi_CutoverAt item \<noteq> None then Some ItemCleanupPending
      else if sf_StorageID f \<noteq> mi_SourceMountID item then None
      else Some ItemPending)"

definition retriedRow :: "item_row \<Rightarrow> item_status \<Rightarrow> item_row \<Rightarrow> item_row" where
  "retriedRow item status it =
     (let it = it\<lparr>mi_ReservationKey := reservationKey (mi_FileID item), mi_Status := status, mi_ErrorCode := []\<rparr>
      in if status = ItemPending \<and> mi_Status item = ItemCanceled
         then it\<lparr>mi_DestinationOwned := False, mi_BytesCopied := 0, mi_ObjectsVerified := 0\<rparr> else it)"

definition prepareItem :: "item_row \<Rightarrow> unit mig_tx" where
  "prepareItem item =
     (if mi_Status item = ItemDeleted then tx_return ()
      else tx_bind (unscopedOrNone (mi_FileID item)) (\<lambda>file. case file of
        None \<Rightarrow> markItemDeleted (mi_ID item)
      | Some f \<Rightarrow>
          if sf_Deleted f then markItemDeleted (mi_ID item)
          else case retryStatus item f of
            None \<Rightarrow> tx_fail (App ErrMigrationConflict)
          | Some status \<Rightarrow>
              tx_bind (tx_catch (updateItems (notDeleted (mi_ID item)) (retriedRow item status))
                (\<lambda>e. if e = DuplicatedKey then tx_fail (App ErrMigrationConflict) else tx_fail e)) (\<lambda>_. tx_return ())))"

definition updateMigration :: "nat \<Rightarrow> (migration_row \<Rightarrow> migration_row) \<Rightarrow> unit mig_tx" where
  "updateMigration i f = tx_update (\<lambda>w. w\<lparr>mw_migrations := update_where (\<lambda>m. mg_ID m = i) f (mw_migrations w)\<rparr>)"

definition prepareRetry :: "nat \<Rightarrow> unit mig_tx" where
  "prepareRetry migrationID = transaction
     (tx_bind (tx_select (\<lambda>w. sort_key mi_ID (filter (\<lambda>it. mi_MigrationID it = migrationID) (mw_items w)))) (\<lambda>items.
      tx_bind (tx_foreach prepareItem items) (\<lambda>_.
      updateMigration migrationID (\<lambda>m. m\<lparr>mg_KeepOriginals := False, mg_CleanupJobID := [], mg_CleanupAfter := None, mg_CanceledAt := None\<rparr>))))"

section \<open>Keeping the originals\<close>

definition keptRow :: "item_status \<Rightarrow> item_row \<Rightarrow> item_row" where
  "keptRow status it = it\<lparr>mi_Status := (if status = ItemCleaning then ItemOriginalPartial else ItemOriginalKept),
     mi_ReservationKey := [],
     mi_ProgressMessage := (if status = ItemCleaning then ''Original cleanup was incomplete; remaining data retained''
       else ''Original retained by administrator'')\<rparr>"

definition keepItem :: "nat \<Rightarrow> unit mig_tx" where
  "keepItem i = transaction (tx_bind (tx_first (itemById i)) (\<lambda>item.
     if mi_Status item \<in> {ItemCleaned, ItemDeleted} then tx_return ()
     else tx_bind (updateItems (\<lambda>it. mi_ID it = i \<and> mi_Status it \<notin> {ItemCleaned, ItemDeleted}) (keptRow (mi_Status item))) (\<lambda>_.
       tx_return ())))"

definition countItems :: "nat \<Rightarrow> item_status \<Rightarrow> int mig_tx" where
  "countItems migrationID s =
     tx_select (\<lambda>w. int (length (filter (\<lambda>it. mi_MigrationID it = migrationID \<and> mi_Status it = s) (mw_items w))))"

definition retainedPhase :: "int \<Rightarrow> int \<Rightarrow> string" where
  "retainedPhase cleaned partial =
     (if 0 < partial then
        (if 0 < cleaned then ''Originals retained; '' @ show_int cleaned @ '' removed and '' @ show_int partial @ '' may be incomplete''
         else ''Originals retained; '' @ show_int partial @ '' may be incomplete after a storage error'')
      else if 0 < cleaned then ''Originals retained; '' @ show_int cleaned @ '' had already been removed''
      else ''Original copies retained'')"

definition finishKeeping :: "mig_env \<Rightarrow> nat \<Rightarrow> unit mig_tx" where
  "finishKeeping env migrationID = transaction
     (tx_bind (countItems migrationID ItemCleaned) (\<lambda>cleaned.
      tx_bind (countItems migrationID ItemOriginalPartial) (\<lambda>partial.
      tx_bind (countItems migrationID ItemDeleted) (\<lambda>deleted.
      updateMigration migrationID (\<lambda>m. m\<lparr>mg_Status := MigrationOriginalsRetained, mg_Phase := retainedPhase cleaned partial,
        mg_KeepOriginals := True, mg_CleanedCount := cleaned, mg_DeletedCount := deleted, mg_CompletedAt := Some (me_now env), mg_ErrorCode := []\<rparr>)))))"

text \<open>\<open>stopped\<close> stops the cleanup job of the loaded migration.\<close>

definition KeepOriginals :: "mig_env \<Rightarrow> unit mig_tx \<Rightarrow> migration_row \<Rightarrow> unit mig_tx" where
  "KeepOriginals env stopped m =
     tx_bind (tx_reject (mg_Status m \<notin> {MigrationRetainingOriginals, MigrationCleaningOriginals, MigrationPaused} \<or>
       (mg_Status m = MigrationPaused \<and> mg_CleanupJobID m = [])) ErrMigrationConflict) (\<lambda>_.
     tx_bind (if mg_CleanupJobID m = [] then tx_return () else stopped) (\<lambda>_.
     tx_bind (updateMigration (mg_ID m) (\<lambda>m. m\<lparr>mg_KeepOriginals := True, mg_Phase := ''Stopping original cleanup''\<rparr>)) (\<lambda>_.
     tx_bind (tx_select (\<lambda>w. map mi_ID (sort_key mi_FileID (filter (\<lambda>it. mi_MigrationID it = mg_ID m) (mw_items w))))) (\<lambda>ids.
     tx_bind (tx_foreach keepItem ids) (\<lambda>_.
     finishKeeping env (mg_ID m))))))"

section \<open>Deleting unreferenced videos\<close>

definition referenced :: "nat \<Rightarrow> mig_world \<Rightarrow> bool" where
  "referenced i w \<longleftrightarrow> list_ex (\<lambda>l. fk_FileID l = i \<and> \<not> fk_Deleted l) (mw_links w)"

definition deletionCandidates :: "mig_world \<Rightarrow> nat list" where
  "deletionCandidates w = sort (map sf_ID (filter (\<lambda>f. sf_Deleted f \<or> \<not> referenced (sf_ID f) w) (mw_files w)))"

definition deleteRow :: "nat \<Rightarrow> mig_world \<Rightarrow> mig_world" where
  "deleteRow i w = w\<lparr>mw_files := update_where (\<lambda>f. sf_ID f = i \<and> \<not> sf_Deleted f) (\<lambda>f. f\<lparr>sf_Deleted := True\<rparr>) (mw_files w)\<rparr>"

text \<open>The mounts that may hold a copy: the current one, the sources not yet cleaned and the owned
  destinations of the migrations of the file, each once.\<close>

definition copyMounts :: "stored_file \<Rightarrow> item_row list \<Rightarrow> string list" where
  "copyMounts file items = sf_StorageID file # concat (map (\<lambda>it.
     (if mi_CleanedAt it = None then [mi_SourceMountID it] else []) @
     (if mi_DestinationOwned it then [mi_DestinationMountID it] else [])) items)"

fun firstOccurrences :: "'a list \<Rightarrow> 'a list \<Rightarrow> 'a list" where
  "firstOccurrences seen [] = []"
| "firstOccurrences seen (x # xs) =
     (if x \<in> set seen then firstOccurrences seen xs else x # firstOccurrences (x # seen) xs)"

definition storeOrDefault :: "mig_env \<Rightarrow> string \<Rightarrow> string" where
  "storeOrDefault env m = (if m = [] then me_default env else m)"

definition deleteCopies :: "mig_env \<Rightarrow> stored_file \<Rightarrow> item_row list \<Rightarrow> unit mig_tx" where
  "deleteCopies env file items =
     tx_bind (filePrefix (sf_UUID file)) (\<lambda>pre.
     tx_foreach (\<lambda>m. tx_bind (storeFor (storeOrDefault env m)) (\<lambda>_. deletePrefix (storeOrDefault env m) pre))
       (firstOccurrences [] (copyMounts file items)))"

definition eraseFile :: "nat \<Rightarrow> nat list \<Rightarrow> unit mig_tx" where
  "eraseFile i itemIDs = transaction
     (tx_bind (updateItems (\<lambda>it. mi_FileID it = i) (\<lambda>it. (deletedRow it)\<lparr>mi_ReservationKey := [], mi_DestinationOwned := False\<rparr>)) (\<lambda>_.
      tx_bind (if itemIDs = [] then tx_return () else tx_update (dropObjects (\<lambda>j. j \<in> set itemIDs))) (\<lambda>_.
      tx_bind (tx_update (\<lambda>w. w\<lparr>mw_subtitles := filter (\<lambda>t. tr_FileID t \<noteq> i) (mw_subtitles w)\<rparr>)) (\<lambda>_.
      tx_bind (tx_update (\<lambda>w. w\<lparr>mw_audios := filter (\<lambda>t. tr_FileID t \<noteq> i) (mw_audios w)\<rparr>)) (\<lambda>_.
      tx_bind (tx_update (\<lambda>w. w\<lparr>mw_qualities := filter (\<lambda>t. tr_FileID t \<noteq> i) (mw_qualities w)\<rparr>)) (\<lambda>_.
      tx_update (\<lambda>w. w\<lparr>mw_files := filter (\<lambda>f. sf_ID f \<noteq> i) (mw_files w)\<rparr>)))))))"

text \<open>\<open>afterwards m h\<close>: \<open>h\<close> follows however \<open>m\<close> ends, and its errors are only noted.\<close>

definition afterwards :: "'a mig_tx \<Rightarrow> unit mig_tx \<Rightarrow> 'a mig_tx" where
  "afterwards m h = tx_bind (tx_try m) (\<lambda>r. tx_bind (tx_ignore h) (\<lambda>_.
     case r of Inl e \<Rightarrow> tx_fail e | Inr x \<Rightarrow> tx_return x))"

definition refreshMigrations :: "item_row list \<Rightarrow> unit mig_tx" where
  "refreshMigrations items = tx_foreach (\<lambda>m. tx_ignore (refreshProgress m)) (remdups (map mi_MigrationID items))"

text \<open>One candidate under the write lock of its file. \<open>busy\<close>: a download of it is being prepared or
  one of its tracks is being encoded. The result tells whether it was deleted.\<close>

definition purgeFile :: "mig_env \<Rightarrow> bool \<Rightarrow> nat \<Rightarrow> stored_file \<Rightarrow> bool mig_tx" where
  "purgeFile env busy i file =
     tx_bind (tx_select (\<lambda>w. sort_key mi_ID (filter (\<lambda>it. mi_FileID it = i) (mw_items w)))) (\<lambda>items.
     tx_bind (if items = [] then tx_return () else
       tx_bind (updateItems (\<lambda>it. mi_FileID it = i) deletedRow) (\<lambda>_. tx_return ())) (\<lambda>_.
     afterwards (if busy then tx_return False
       else tx_bind (tx_update (bumpCacheVersion i)) (\<lambda>_.
         tx_bind (deleteCopies env file items) (\<lambda>_.
         tx_bind (eraseFile i (map mi_ID items)) (\<lambda>_. tx_return True))))
       (refreshMigrations items)))"

definition trackEncoding :: "nat \<Rightarrow> mig_world \<Rightarrow> bool" where
  "trackEncoding i w \<longleftrightarrow> list_ex (\<lambda>t. tr_FileID t = i \<and> tr_Encoding t) (mw_qualities w @ mw_audios w @ mw_subtitles w)"

definition releaseReferences :: "nat \<Rightarrow> stored_file \<Rightarrow> bool mig_tx" where
  "releaseReferences i file =
     (if sf_Deleted file then tx_return True
      else tx_bind (tx_select (referenced i)) (\<lambda>used.
        if used then tx_return False
        else tx_bind (tx_update (deleteRow i)) (\<lambda>_. tx_return True)))"

definition deleteFile :: "mig_env \<Rightarrow> bool \<Rightarrow> nat \<Rightarrow> bool mig_tx" where
  "deleteFile env preparing i =
     tx_bind (unscopedOrNone i) (\<lambda>found. case found of None \<Rightarrow> tx_return False
     | Some file \<Rightarrow>
       tx_bind (tx_peek (trackEncoding i)) (\<lambda>encoding.
       tx_bind (releaseReferences i file) (\<lambda>go.
       if go then purgeFile env (preparing \<or> encoding) i file else tx_return False)))"

text \<open>All candidates; an error of one is noted and the next is tried.\<close>

definition runDeleter :: "mig_env \<Rightarrow> (nat \<Rightarrow> bool) \<Rightarrow> unit mig_tx" where
  "runDeleter env preparing =
     tx_bind (tx_select deletionCandidates) (\<lambda>ids.
     tx_foreach (\<lambda>i. tx_ignore (deleteFile env (preparing i) i)) ids)"

end
