(* ===== verification/MgPlan.thy ===== *)
theory MgPlan
  imports MgClean "HOL-Library.Product_Lexorder"
begin

text \<open>
  Planning a migration between two pools (\<^verbatim>\<open>logic/StorageMigration.go\<close>): which videos move, where
  each is placed, the fingerprint the administrator confirms, and the rows that start it.
\<close>

section \<open>Input and plan\<close>

record migration_input =
  in_SourcePoolID :: nat
  in_DestinationPoolID :: nat
  in_AccountIDs :: "nat list"
  in_PlanFingerprint :: string
  in_IdempotencyKey :: string

record mount_preview =
  mp_UUID :: string
  mp_Name :: string
  mp_UsedBytes :: int

record placement_preview =
  lp_MountID :: string
  lp_MountName :: string
  lp_FileCount :: int
  lp_PlannedBytes :: int

record migration_preview =
  pv_SourcePoolID :: nat
  pv_SourcePoolName :: string
  pv_DestinationPoolID :: nat
  pv_DestinationPoolName :: string
  pv_AllAccounts :: bool
  pv_Accounts :: "(nat \<times> string) list"
  pv_SharedFileCount :: int
  pv_FileCount :: int
  pv_PlannedBytes :: int
  pv_SourceMounts :: "mount_preview list"
  pv_DestinationMounts :: "mount_preview list"
  pv_Placements :: "placement_preview list"
  pv_Warnings :: "string list"
  pv_GraceHours :: int

record migration_plan =
  pl_preview :: migration_preview
  pl_files :: "stored_file list"
  pl_destination :: "(nat \<times> string) list"
  pl_accounts :: "(nat \<times> string) list"
  pl_fingerprint :: string

definition maxMigrationAccounts :: nat where "maxMigrationAccounts = 500"

section \<open>The accounts a migration is limited to\<close>

definition accountScope :: "nat list \<Rightarrow> (nat list \<times> (nat \<times> string) list) mig_tx" where
  "accountScope requested =
     (if requested = [] then tx_return ([], [])
      else if maxMigrationAccounts < length requested then tx_fail (App ErrMigrationAccounts)
      else if 0 \<in> set requested then tx_fail (App ErrMigrationAccounts)
      else (let ids = sort (firstOccurrences [] requested)
        in tx_bind (tx_select (\<lambda>w. sort_key ac_ID (filter (\<lambda>a. ac_ID a \<in> set ids \<and> \<not> ac_Deleted a) (mw_accounts w)))) (\<lambda>users.
           tx_bind (tx_reject (length users \<noteq> length ids) ErrMigrationAccounts) (\<lambda>_.
           tx_return (ids, map (\<lambda>a. (ac_ID a, ac_Username a)) users)))))"

definition inScope :: "nat list \<Rightarrow> mig_world \<Rightarrow> stored_file \<Rightarrow> bool" where
  "inScope ids w f \<longleftrightarrow> ids = [] \<or> list_ex (\<lambda>l. fk_FileID l = sf_ID f \<and> \<not> fk_Deleted l \<and> fk_UserID l \<in> set ids) (mw_links w)"

section \<open>The mounts of a pool\<close>

definition mountBytes :: "mig_world \<Rightarrow> string \<Rightarrow> int" where
  "mountBytes w m = sum_list (map sf_Size (filter (\<lambda>f. \<not> sf_Deleted f \<and> sf_StorageID f = m \<and> sf_Available f) (mw_files w)))"

fun checkMounts :: "pool_member list \<Rightarrow> mount_preview list mig_tx" where
  "checkMounts [] = tx_return []"
| "checkMounts (b # bs) =
     (if \<not> pb_Primary b then checkMounts bs
      else if \<not> pb_Mounted b \<or> trimSpace (pb_LastError b) \<noteq> [] then tx_fail (App ErrMigrationUnavailable)
      else tx_bind (tx_catch (storeFor (pb_Mount b)) (\<lambda>_. tx_fail (App ErrMigrationUnavailable))) (\<lambda>_.
        tx_bind (tx_select (\<lambda>w. mountBytes w (pb_Mount b))) (\<lambda>used.
        tx_bind (checkMounts bs) (\<lambda>ms.
        tx_return (\<lparr>mp_UUID = pb_Mount b, mp_Name = pb_Name b, mp_UsedBytes = used\<rparr> # ms)))))"

definition migrationMounts :: "mig_pool \<Rightarrow> mount_preview list mig_tx" where
  "migrationMounts pool =
     (if pw_Members pool = [] then tx_fail (App ErrMigrationUnavailable)
      else tx_bind (checkMounts (pw_Members pool)) (\<lambda>ms.
        tx_bind (tx_reject (ms = []) ErrMigrationUnavailable) (\<lambda>_.
        tx_return (sort_key mp_UUID ms))))"

section \<open>Placement\<close>

text \<open>Every file, largest first, goes to the mount with the least bytes so far.\<close>

definition leastUsed :: "(string \<Rightarrow> int) \<Rightarrow> string list \<Rightarrow> string" where
  "leastUsed usage ids = foldl (\<lambda>selected candidate.
     if usage candidate < usage selected \<or> (usage candidate = usage selected \<and> candidate < selected)
     then candidate else selected) (hd ids) (tl ids)"

fun placeFiles :: "string list \<Rightarrow> (string \<Rightarrow> int) \<Rightarrow> stored_file list \<Rightarrow> (nat \<times> string) list" where
  "placeFiles ids usage [] = []"
| "placeFiles ids usage (f # fs) =
     (let m = leastUsed usage ids in (sf_ID f, m) # placeFiles ids (usage(m := usage m + sf_Size f)) fs)"

definition placements :: "mount_preview list \<Rightarrow> stored_file list \<Rightarrow> (nat \<times> string) list \<Rightarrow> placement_preview list" where
  "placements mounts files destination = map (\<lambda>m.
     (let here = filter (\<lambda>f. map_of destination (sf_ID f) = Some (mp_UUID m)) files
      in \<lparr>lp_MountID = mp_UUID m, lp_MountName = mp_Name m, lp_FileCount = int (length here),
          lp_PlannedBytes = sum_list (map sf_Size here)\<rparr>)) mounts"

section \<open>The fingerprint\<close>

text \<open>\<^verbatim>\<open>%q\<close> on printable text: quotes and backslashes escaped, the named control characters as their
  escapes and the others in hexadecimal; bytes above 127 stand for printable characters.\<close>

definition hexDigit :: "nat \<Rightarrow> char" where
  "hexDigit n = (if n < 10 then char_of (48 + n) else char_of (87 + n))"

definition quoteChar :: "char \<Rightarrow> string" where
  "quoteChar c = (let n = of_char c :: nat in
     if n = 34 then [char_of (92::nat), c]
     else if n = 92 then [char_of (92::nat), char_of (92::nat)]
     else if n = 7 then [char_of (92::nat), CHR ''a'']
     else if n = 8 then [char_of (92::nat), CHR ''b'']
     else if n = 12 then [char_of (92::nat), CHR ''f'']
     else if n = 10 then [char_of (92::nat), CHR ''n'']
     else if n = 13 then [char_of (92::nat), CHR ''r'']
     else if n = 9 then [char_of (92::nat), CHR ''t'']
     else if n = 11 then [char_of (92::nat), CHR ''v'']
     else if n < 32 \<or> n = 127 then [char_of (92::nat), CHR ''x'', hexDigit (n div 16), hexDigit (n mod 16)]
     else [c])"

definition quote :: "string \<Rightarrow> string" where
  "quote s = [char_of (34::nat)] @ concat (map quoteChar s) @ [char_of (34::nat)]"

definition newline :: string where "newline = [char_of (10::nat)]"

definition fingerprintText :: "migration_plan \<Rightarrow> string" where
  "fingerprintText p = (let v = pl_preview p in
     ''source-pool:'' @ digits (pv_SourcePoolID v) @ newline @ ''destination-pool:'' @ digits (pv_DestinationPoolID v) @ newline @
     ''scope:'' @ (if pv_AllAccounts v then ''all'' else ''accounts'') @ newline @
     ''shared-files:'' @ show_int (pv_SharedFileCount v) @ newline @
     concat (map (\<lambda>(i, name). ''account:'' @ digits i @ '':'' @ quote name @ newline) (pl_accounts p)) @
     concat (map (\<lambda>m. ''source-mount:'' @ mp_UUID m @ newline) (pv_SourceMounts v)) @
     concat (map (\<lambda>m. ''destination-mount:'' @ mp_UUID m @ newline) (pv_DestinationMounts v)) @
     concat (map (\<lambda>f. ''file:'' @ digits (sf_ID f) @ '':'' @ sf_UUID f @ '':'' @ sf_StorageID f @ '':'' @ show_int (sf_Size f) @ '':'' @
       (case map_of (pl_destination p) (sf_ID f) of None \<Rightarrow> [] | Some m \<Rightarrow> m) @ newline) (sort_key sf_ID (pl_files p))))"

section \<open>The plan\<close>

definition hasShared :: "nat list \<Rightarrow> mig_world \<Rightarrow> stored_file \<Rightarrow> bool" where
  "hasShared ids w f \<longleftrightarrow> list_ex (\<lambda>l. fk_FileID l = sf_ID f \<and> \<not> fk_Deleted l \<and> fk_UserID l \<notin> set ids \<and>
     list_ex (\<lambda>a. ac_ID a = fk_UserID l \<and> \<not> ac_Deleted a) (mw_accounts w)) (mw_links w)"

definition planWarnings :: "mig_pool \<Rightarrow> nat list \<Rightarrow> int \<Rightarrow> int \<Rightarrow> string list" where
  "planWarnings source ids shared overrides =
     [''Videos uploaded after this snapshot will not be included.'', ''Upload routing is not changed automatically.''] @
     (if 0 < shared then [show_int shared @ '' selected '' @ (if shared = 1 then ''video is'' else ''videos are'') @
        '' also used by other accounts; shared physical files move once for everyone.''] else []) @
     (if pw_IsDefault source then [''The source is still the default upload pool.''] else []) @
     (if 0 < overrides then [show_int overrides @ '' '' @ (if ids = [] then ''accounts'' else ''selected accounts'') @
        '' still upload to the source pool.''] else [])"

definition poolById :: "nat \<Rightarrow> mig_world \<Rightarrow> mig_pool option" where
  "poolById i w = find (\<lambda>p. pw_ID p = i) (mw_pools w)"

definition countWhere :: "('a \<Rightarrow> bool) \<Rightarrow> 'a list \<Rightarrow> int" where
  "countWhere p xs = int (length (filter p xs))"

definition scopedFiles :: "string list \<Rightarrow> nat list \<Rightarrow> bool \<Rightarrow> mig_world \<Rightarrow> stored_file list" where
  "scopedFiles mounts ids available w = filter (\<lambda>f. \<not> sf_Deleted f \<and> sf_StorageID f \<in> set mounts \<and>
     sf_Available f = available \<and> inScope ids w f) (mw_files w)"

definition reservedCount :: "nat list \<Rightarrow> mig_world \<Rightarrow> int" where
  "reservedCount fileIDs w = countWhere (\<lambda>it. mi_ReservationKey it \<noteq> [] \<and> mi_FileID it \<in> set fileIDs) (mw_items w)"

definition buildPlan :: "mig_env \<Rightarrow> migration_input \<Rightarrow> migration_plan mig_tx" where
  "buildPlan env input =
     tx_bind (tx_reject (in_SourcePoolID input = 0 \<or> in_DestinationPoolID input = 0 \<or>
       in_SourcePoolID input = in_DestinationPoolID input) ErrMigrationConflict) (\<lambda>_.
     tx_bind (accountScope (in_AccountIDs input)) (\<lambda>(ids, accounts).
     tx_bind (tx_first (poolById (in_SourcePoolID input))) (\<lambda>source.
     tx_bind (tx_first (poolById (in_DestinationPoolID input))) (\<lambda>destination.
     tx_bind (migrationMounts source) (\<lambda>sourceMounts.
     tx_bind (migrationMounts destination) (\<lambda>destinationMounts.
     let sourceIDs = map mp_UUID sourceMounts; destinationIDs = map mp_UUID destinationMounts in
     tx_bind (tx_reject (list_ex (\<lambda>m. m \<in> set sourceIDs) destinationIDs) ErrMigrationConflict) (\<lambda>_.
     tx_bind (tx_select (\<lambda>w. length (scopedFiles sourceIDs ids False w))) (\<lambda>unavailable.
     tx_bind (tx_reject (0 < unavailable) ErrMigrationUnavailable) (\<lambda>_.
     tx_bind (tx_select (\<lambda>w. sort_key (\<lambda>f. (- sf_Size f, sf_ID f)) (scopedFiles sourceIDs ids True w))) (\<lambda>files.
     tx_bind (tx_reject (files = []) ErrMigrationEmpty) (\<lambda>_.
     tx_bind (tx_select (reservedCount (map sf_ID files))) (\<lambda>reserved.
     tx_bind (tx_reject (0 < reserved) ErrMigrationConflict) (\<lambda>_.
     tx_bind (if ids = [] then tx_return 0 else tx_select (\<lambda>w. countWhere (hasShared ids w) files)) (\<lambda>shared.
     tx_bind (tx_select mountBytes) (\<lambda>usage.
     tx_bind (tx_select (\<lambda>w. countWhere (\<lambda>a. \<not> ac_Deleted a \<and> ac_StoragePoolID a = Some (pw_ID source) \<and>
       (ids = [] \<or> ac_ID a \<in> set ids)) (mw_accounts w))) (\<lambda>overrides.
     let placed = placeFiles destinationIDs usage files;
         plan = \<lparr>pl_preview = \<lparr>pv_SourcePoolID = pw_ID source, pv_SourcePoolName = pw_Name source,
             pv_DestinationPoolID = pw_ID destination, pv_DestinationPoolName = pw_Name destination,
             pv_AllAccounts = (ids = []), pv_Accounts = accounts, pv_SharedFileCount = shared,
             pv_FileCount = int (length files), pv_PlannedBytes = sum_list (map sf_Size files),
             pv_SourceMounts = sourceMounts, pv_DestinationMounts = destinationMounts,
             pv_Placements = placements destinationMounts files placed,
             pv_Warnings = planWarnings source ids shared overrides, pv_GraceHours = 24\<rparr>,
           pl_files = files, pl_destination = placed, pl_accounts = accounts, pl_fingerprint = []\<rparr>
     in tx_return (plan\<lparr>pl_fingerprint := me_sha256 env (fingerprintText plan)\<rparr>)))))))))))))))))"

end
