(* ===== verification/MgStart.thy ===== *)
theory MgStart
  imports MgPlan
begin

text \<open>
  The jobs behind a migration and the operations that start one: the background runtime is a
  parameter here (its own model is in the theories of the background component), given by what it
  does to the jobs.
\<close>

section \<open>The runtime\<close>

record job_request =
  jr_Kind :: string
  jr_SubjectID :: string
  jr_IdempotencyKey :: string
  jr_Label :: string
  jr_TaskKind :: string
  jr_Phase :: string
  jr_MigrationID :: nat
  jr_DedupeKey :: string
  jr_Priority :: int
  jr_MaxAttempts :: int
  jr_RunAfter :: "time option"

record job_runtime =
  rt_Enqueue :: "job_request \<Rightarrow> job_view mig_tx"
  rt_PauseJob :: "string \<Rightarrow> unit mig_tx"
  rt_CancelJob :: "string \<Rightarrow> unit mig_tx"
  rt_RunJobNow :: "string \<Rightarrow> unit mig_tx"

text \<open>What the model relies on: these calls change the jobs only.\<close>

definition jobsOnly :: "mig_world \<Rightarrow> mig_world \<Rightarrow> bool" where
  "jobsOnly w w' \<longleftrightarrow> w' = w\<lparr>mw_jobs := mw_jobs w'\<rparr>"

definition runtimeOK :: "job_runtime \<Rightarrow> bool" where
  "runtimeOK rt \<longleftrightarrow> (\<forall>w0. (\<forall>s. always (jobsOnly w0) (rt_Enqueue rt s)) \<and> (\<forall>i. always (jobsOnly w0) (rt_PauseJob rt i)) \<and>
     (\<forall>i. always (jobsOnly w0) (rt_CancelJob rt i)) \<and> (\<forall>i. always (jobsOnly w0) (rt_RunJobNow rt i)))"

definition jobViewById :: "string \<Rightarrow> mig_world \<Rightarrow> job_view option" where
  "jobViewById i w = find (\<lambda>j. jv_ID j = i) (mw_jobs w)"

definition rt_Job :: "string \<Rightarrow> job_view mig_tx" where
  "rt_Job i = tx_first (jobViewById i)"

definition latestJob :: "string \<Rightarrow> string \<Rightarrow> mig_world \<Rightarrow> job_view option" where
  "latestJob kind subject w =
     (case sort_key (\<lambda>j. - jv_CreatedAt j) (filter (\<lambda>j. jv_Kind j = kind \<and> jv_SubjectID j = subject) (mw_jobs w)) of
        [] \<Rightarrow> None | j # _ \<Rightarrow> Some j)"

definition jobTerminal :: "job_status \<Rightarrow> bool" where
  "jobTerminal s \<longleftrightarrow> s \<in> {JobSucceeded, JobSucceededWithWarnings, JobFailed, JobCanceled}"

definition migrationById :: "nat \<Rightarrow> mig_world \<Rightarrow> migration_row option" where
  "migrationById i w = find (\<lambda>m. mg_ID m = i) (mw_migrations w)"

definition migrationByUUID :: "string \<Rightarrow> mig_world \<Rightarrow> migration_row option" where
  "migrationByUUID u w = find (\<lambda>m. mg_UUID m = u) (mw_migrations w)"

definition GetMigration :: "string \<Rightarrow> migration_row mig_tx" where
  "GetMigration uuid = tx_bind (tx_first (migrationByUUID (trimSpace uuid))) (\<lambda>m. tx_first (migrationById (mg_ID m)))"

section \<open>The job of a migration\<close>

definition migrationJob :: "migration_row \<Rightarrow> job_request" where
  "migrationJob m = \<lparr>jr_Kind = ''storage.migration'', jr_SubjectID = mg_UUID m,
     jr_IdempotencyKey = ''storage-migration:'' @ mg_UUID m,
     jr_Label = (if mg_AllAccounts m then ''Migrate '' @ mg_SourcePoolName m @ '' to '' @ mg_DestinationPoolName m
       else ''Migrate videos for '' @ digits (mg_AccountCount m) @ '' accounts from '' @ mg_SourcePoolName m @ '' to '' @ mg_DestinationPoolName m),
     jr_TaskKind = ''storage.migration.run'', jr_Phase = ''Migrating videos'', jr_MigrationID = mg_ID m,
     jr_DedupeKey = ''storage-migration:'' @ digits (mg_ID m), jr_Priority = 20, jr_MaxAttempts = 4, jr_RunAfter = None\<rparr>"

definition linkJob :: "nat \<Rightarrow> string \<Rightarrow> unit mig_tx" where
  "linkJob i j = tx_ignore (updateMigration i (\<lambda>m. m\<lparr>mg_BackgroundJobID := j\<rparr>))"

definition queueJob :: "job_runtime \<Rightarrow> migration_row \<Rightarrow> job_view mig_tx" where
  "queueJob rt m =
     tx_bind (tx_try (tx_first (latestJob ''storage.migration'' (mg_UUID m)))) (\<lambda>r. case r of
       Inr existing \<Rightarrow> tx_bind (linkJob (mg_ID m) (jv_ID existing)) (\<lambda>_. rt_Job (jv_ID existing))
     | Inl e \<Rightarrow> if e \<noteq> RecordNotFound then tx_fail e
         else tx_bind (rt_Enqueue rt (migrationJob m)) (\<lambda>job.
           tx_bind (linkJob (mg_ID m) (jv_ID job)) (\<lambda>_. tx_return job)))"

definition ensureJob :: "job_runtime \<Rightarrow> migration_row \<Rightarrow> job_view mig_tx" where
  "ensureJob rt m =
     (if mg_ID m = 0 then tx_fail (App ErrRuntimeMissing)
      else if mg_BackgroundJobID m = [] then queueJob rt m
      else tx_bind (tx_try (rt_Job (mg_BackgroundJobID m))) (\<lambda>r. case r of
          Inr job \<Rightarrow> tx_return job
        | Inl e \<Rightarrow> if e \<noteq> RecordNotFound then tx_fail e else queueJob rt m))"

definition EnsureJob :: "job_runtime \<Rightarrow> nat \<Rightarrow> job_view mig_tx" where
  "EnsureJob rt i = tx_bind (tx_first (migrationById i)) (ensureJob rt)"

section \<open>Starting\<close>

definition requestKey :: "mig_env \<Rightarrow> nat \<Rightarrow> string \<Rightarrow> string" where
  "requestKey env actor value = (let value = trimSpace value in
     if value = [] then [] else ''storage-migration-request:'' @ me_sha256 env (digits actor @ '':'' @ value))"

definition requeued :: "mig_env \<Rightarrow> string \<Rightarrow> migration_row \<Rightarrow> migration_row" where
  "requeued env job m = m\<lparr>mg_Status := MigrationQueued, mg_Phase := ''Waiting to start'', mg_StartedAt := Some (me_now env),
     mg_BackgroundJobID := job, mg_ErrorCode := []\<rparr>"

definition byRequest :: "mig_env \<Rightarrow> job_runtime \<Rightarrow> string \<Rightarrow> migration_input \<Rightarrow> (migration_row \<times> job_view) option mig_tx" where
  "byRequest env rt key input =
     tx_bind (tx_try (tx_first (\<lambda>w. find (\<lambda>m. mg_RequestKey m = key) (mw_migrations w)))) (\<lambda>r. case r of
       Inl e \<Rightarrow> if e = RecordNotFound then tx_return None else tx_fail e
     | Inr m \<Rightarrow>
         if mg_SourcePoolID m \<noteq> in_SourcePoolID input \<or> mg_DestinationPoolID m \<noteq> in_DestinationPoolID input \<or>
           mg_PlanFingerprint m \<noteq> trimSpace (in_PlanFingerprint input) then tx_fail (App ErrMigrationConflict)
         else tx_bind (ensureJob rt m) (\<lambda>job.
           if mg_Status m = MigrationFailed \<and> mg_ErrorCode m = ''queue_failed''
           then tx_bind (updateMigration (mg_ID m) (requeued env (jv_ID job))) (\<lambda>_. tx_return (Some (requeued env (jv_ID job) m, job)))
           else tx_return (Some (m, job))))"

definition sameFiles :: "stored_file list \<Rightarrow> stored_file list \<Rightarrow> bool" where
  "sameFiles old new \<longleftrightarrow> length old = length new \<and> (\<forall>f \<in> set new. sf_ID f \<in> sf_ID ` set old)"

definition nextID :: "nat list \<Rightarrow> nat" where
  "nextID ids = Suc (foldl max 0 ids)"

definition newMigration :: "nat \<Rightarrow> string \<Rightarrow> string \<Rightarrow> migration_input \<Rightarrow> migration_plan \<Rightarrow> nat \<Rightarrow> string \<Rightarrow> migration_row" where
  "newMigration i uuid key input plan actor name = (let v = pl_preview plan in
     \<lparr>mg_ID = i, mg_UUID = uuid, mg_RequestKey = key, mg_PlanFingerprint = pl_fingerprint plan,
      mg_SourcePoolID = in_SourcePoolID input, mg_DestinationPoolID = in_DestinationPoolID input,
      mg_SourcePoolName = pv_SourcePoolName v, mg_DestinationPoolName = pv_DestinationPoolName v,
      mg_AllAccounts = pv_AllAccounts v, mg_AccountCount = length (pl_accounts plan), mg_SharedFileCount = pv_SharedFileCount v,
      mg_BackgroundJobID = [], mg_CleanupJobID = [], mg_Status = MigrationQueued, mg_Phase = ''Waiting to start'',
      mg_FileCount = pv_FileCount v, mg_PlannedBytes = pv_PlannedBytes v, mg_ActualBytes = 0, mg_CopiedBytes = 0,
      mg_CutoverCount = 0, mg_CleanedCount = 0, mg_DeletedCount = 0, mg_CreatedByID = actor, mg_CreatedByName = trimSpace name,
      mg_CancelGeneration = 0, mg_KeepOriginals = False, mg_CleanupAfter = None, mg_StartedAt = None, mg_CopyCompletedAt = None,
      mg_CompletedAt = None, mg_CanceledAt = None, mg_ErrorCode = []\<rparr>)"

definition newItem :: "nat \<Rightarrow> nat \<Rightarrow> (nat \<times> string) list \<Rightarrow> stored_file \<Rightarrow> item_row" where
  "newItem migrationID i destination f =
     \<lparr>mi_ID = i, mi_MigrationID = migrationID, mi_FileID = sf_ID f, mi_FileUUID = sf_UUID f, mi_SourceMountID = sf_StorageID f,
      mi_DestinationMountID = (case map_of destination (sf_ID f) of None \<Rightarrow> [] | Some m \<Rightarrow> m), mi_Status = ItemPending,
      mi_ReservationKey = reservationKey (sf_ID f), mi_DestinationOwned = False, mi_PlannedBytes = sf_Size f, mi_BytesTotal = 0,
      mi_BytesCopied = 0, mi_ObjectCount = 0, mi_ObjectsVerified = 0, mi_ProgressMessage = ''Waiting to copy'', mi_ErrorCode = [],
      mi_CopyStartedAt = None, mi_CutoverAt = None, mi_CleanedAt = None\<rparr>"

definition newItems :: "nat \<Rightarrow> nat \<Rightarrow> (nat \<times> string) list \<Rightarrow> stored_file list \<Rightarrow> item_row list" where
  "newItems migrationID i destination files = map (\<lambda>j. newItem migrationID (i + j) destination (files ! j)) [0..<length files]"

text \<open>The rows of the migration and of its items; both tables number their rows upwards, and their
  unique indexes refuse a request key or a reservation that exists.\<close>

definition createRows :: "string \<Rightarrow> string \<Rightarrow> migration_input \<Rightarrow> migration_plan \<Rightarrow> nat \<Rightarrow> string \<Rightarrow> migration_row mig_tx" where
  "createRows uuid key input plan actor name = transaction
     (tx_bind (tx_stmt (\<lambda>w. let m = newMigration (nextID (map mg_ID (mw_migrations w))) uuid key input plan actor name in
        if list_ex (\<lambda>m'. mg_UUID m' = uuid \<or> (key \<noteq> [] \<and> mg_RequestKey m' = key)) (mw_migrations w) then Inl DuplicatedKey
        else Inr (m, w\<lparr>mw_migrations := mw_migrations w @ [m]\<rparr>))) (\<lambda>m.
      tx_bind (tx_catch (tx_stmt (\<lambda>w.
          let items = newItems (mg_ID m) (nextID (map mi_ID (mw_items w))) (pl_destination plan) (pl_files plan) in
          if reservedOnce (mw_items w @ items) then Inr ((), w\<lparr>mw_items := mw_items w @ items\<rparr>) else Inl DuplicatedKey))
        (\<lambda>e. tx_fail (if e = DuplicatedKey then App ErrMigrationConflict else e))) (\<lambda>_.
      tx_return m)))"

definition queueFailed :: "nat \<Rightarrow> unit mig_tx" where
  "queueFailed i = tx_ignore (transaction
     (tx_bind (updateItems (\<lambda>it. mi_MigrationID it = i) (\<lambda>it. it\<lparr>mi_ReservationKey := []\<rparr>)) (\<lambda>_.
      updateMigration i (\<lambda>m. m\<lparr>mg_Status := MigrationFailed, mg_Phase := ''Could not queue migration'', mg_ErrorCode := ''queue_failed''\<rparr>))))"

text \<open>\<open>between\<close> is what other operations did between the first plan and the moment the locks on the
  mounts and the files were held.\<close>

definition StartMigration ::
  "mig_env \<Rightarrow> job_runtime \<Rightarrow> unit mig_tx \<Rightarrow> string \<Rightarrow> migration_input \<Rightarrow> nat \<Rightarrow> string \<Rightarrow> (migration_row \<times> job_view) mig_tx" where
  "StartMigration env rt between uuid input actor name =
     (let key = requestKey env actor (in_IdempotencyKey input) in
      if key = [] then tx_fail (App ErrMigrationConflict)
      else tx_bind (byRequest env rt key input) (\<lambda>found. case found of
        Some r \<Rightarrow> tx_return r
      | None \<Rightarrow>
        tx_bind (buildPlan env input) (\<lambda>first.
        tx_bind between (\<lambda>_.
        tx_bind (buildPlan env input) (\<lambda>plan.
        tx_bind (tx_reject (\<not> sameFiles (pl_files first) (pl_files plan)) ErrMigrationConflict) (\<lambda>_.
        tx_bind (tx_reject (trimSpace (in_PlanFingerprint input) = [] \<or> trimSpace (in_PlanFingerprint input) \<noteq> pl_fingerprint plan)
          ErrMigrationConflict) (\<lambda>_.
        tx_bind (tx_try (createRows uuid key input plan actor name)) (\<lambda>created. case created of
          Inl e \<Rightarrow> if e = DuplicatedKey
            then tx_bind (byRequest env rt key input) (\<lambda>found. case found of Some r \<Rightarrow> tx_return r | None \<Rightarrow> tx_fail e)
            else tx_fail e
        | Inr m \<Rightarrow>
          tx_bind (tx_try (ensureJob rt m)) (\<lambda>queued. case queued of
            Inl e \<Rightarrow> tx_bind (queueFailed (mg_ID m)) (\<lambda>_. tx_fail e)
          | Inr job \<Rightarrow>
            tx_bind (tx_ignore (updateMigration (mg_ID m) (\<lambda>m. m\<lparr>mg_BackgroundJobID := jv_ID job, mg_Phase := ''Waiting to start'',
              mg_StartedAt := Some (me_now env)\<rparr>))) (\<lambda>_.
            tx_return (m\<lparr>mg_BackgroundJobID := jv_ID job, mg_StartedAt := Some (me_now env)\<rparr>, job)))))))))))"

end
