(* ===== verification/MgInv.thy ===== *)
theory MgInv
  imports MgClean StStoreClaims
begin

text \<open>
  What keeps the media safe: the invariant of the tables and stores, relative to the media
  \<open>orig\<close> each video was uploaded with, and the statements that keep it.
\<close>

section \<open>Prefixes\<close>

lemma layoutFilePrefix_ok: "layoutFilePrefix u = Inr p \<Longrightarrow> p = u \<and> CHR ''/'' \<notin> set u"
  by (auto simp: layoutFilePrefix_def JoinKey_def ParseKey_def split: if_splits)

definition validUUID :: "string \<Rightarrow> bool" where
  "validUUID u \<longleftrightarrow> layoutFilePrefix u = Inr u"

lemma below_disjoint:
  assumes "validUUID u" "validUUID v" "below u k" "below v k"
  shows "u = v"
proof -
  have s: "CHR ''/'' \<notin> set u" "CHR ''/'' \<notin> set v"
    using assms(1,2) layoutFilePrefix_ok by (auto simp: validUUID_def)
  have cases: "k = x \<or> (\<exists>y. k = x @ CHR ''/'' # y)" if "below x k" for x
    using that by (auto simp: below_def prefix_def)
  from cases [OF assms(3)] cases [OF assms(4)] s show ?thesis
    by (elim disjE exE) (auto simp: append_sep_inject)
qed

section \<open>The invariant\<close>

definition isFile :: "mig_world \<Rightarrow> stored_file \<Rightarrow> bool" where
  "isFile w f \<longleftrightarrow> f \<in> set (mw_files w) \<and> \<not> sf_Deleted f"

definition intact :: "(string \<Rightarrow> string \<rightharpoonup> string) \<Rightarrow> mig_world \<Rightarrow> string \<Rightarrow> string \<Rightarrow> bool" where
  "intact orig w u m \<longleftrightarrow> (\<forall>k. below u k \<longrightarrow> map_option ob_Body (map_of (sw_stores w m) k) = orig u k)"

definition copiesTrue :: "(string \<Rightarrow> string \<rightharpoonup> string) \<Rightarrow> mig_world \<Rightarrow> string \<Rightarrow> string \<Rightarrow> bool" where
  "copiesTrue orig w u m \<longleftrightarrow> (\<forall>k ob. below u k \<longrightarrow> map_of (sw_stores w m) k = Some ob \<longrightarrow> orig u k = Some (ob_Body ob))"

definition sameVideo :: "stored_file list \<Rightarrow> item_row \<Rightarrow> bool" where
  "sameVideo F it \<longleftrightarrow> (\<forall>f \<in> set F. sf_ID f = mi_FileID it \<longleftrightarrow> sf_UUID f = mi_FileUUID it)"

definition gone :: "stored_file list \<Rightarrow> nat \<Rightarrow> bool" where
  "gone F i \<longleftrightarrow> (\<forall>f \<in> set F. sf_ID f = i \<longrightarrow> sf_Deleted f)"

definition destinationTrue :: "(string \<Rightarrow> string \<rightharpoonup> string) \<Rightarrow> mig_world \<Rightarrow> item_row \<Rightarrow> bool" where
  "destinationTrue orig w it \<longleftrightarrow> (\<forall>f. isFile w f \<longrightarrow> sf_ID f = mi_FileID it \<longrightarrow> copiesTrue orig w (sf_UUID f) (mi_DestinationMountID it))"

definition itemOK :: "(string \<Rightarrow> string \<rightharpoonup> string) \<Rightarrow> mig_world \<Rightarrow> item_row \<Rightarrow> bool" where
  "itemOK orig w it \<longleftrightarrow> mi_SourceMountID it \<noteq> mi_DestinationMountID it \<and> sameVideo (mw_files w) it \<and>
     (mi_Status it = ItemDeleted \<longrightarrow> gone (mw_files w) (mi_FileID it)) \<and> (mi_DestinationOwned it \<longrightarrow> destinationTrue orig w it)"

definition filesOK :: "(string \<Rightarrow> string \<rightharpoonup> string) \<Rightarrow> mig_world \<Rightarrow> bool" where
  "filesOK orig w \<longleftrightarrow> distinct (map sf_ID (mw_files w)) \<and> distinct (map sf_UUID (mw_files w)) \<and>
     (\<forall>f \<in> set (mw_files w). validUUID (sf_UUID f)) \<and>
     (\<forall>f. isFile w f \<longrightarrow> intact orig w (sf_UUID f) (sf_StorageID f))"

definition mediaSafe :: "(string \<Rightarrow> string \<rightharpoonup> string) \<Rightarrow> mig_world \<Rightarrow> bool" where
  "mediaSafe orig w \<longleftrightarrow> filesOK orig w \<and> distinct (map mi_ID (mw_items w)) \<and> reservedOnce (mw_items w) \<and>
     (\<forall>it \<in> set (mw_items w). itemOK orig w it)"

lemma mediaSafe_cong:
  assumes "mw_files w' = mw_files w" "mw_items w' = mw_items w" "sw_stores w' = sw_stores w"
  shows "mediaSafe orig w' = mediaSafe orig w"
  using assms by (simp add: mediaSafe_def filesOK_def itemOK_def sameVideo_def gone_def destinationTrue_def
      intact_def copiesTrue_def isFile_def)

section \<open>Changes of the rows\<close>

lemma itemOK_stores:
  assumes "mw_files w' = mw_files w" "\<And>f. isFile w f \<Longrightarrow> sf_ID f = mi_FileID it \<Longrightarrow>
      copiesTrue orig w (sf_UUID f) (mi_DestinationMountID it) \<Longrightarrow> copiesTrue orig w' (sf_UUID f) (mi_DestinationMountID it)"
    "itemOK orig w it"
  shows "itemOK orig w' it"
  using assms by (auto simp: itemOK_def sameVideo_def gone_def destinationTrue_def isFile_def)

lemma itemOK_same: "mw_files w' = mw_files w \<Longrightarrow> sw_stores w' = sw_stores w \<Longrightarrow> itemOK orig w' it = itemOK orig w it"
  by (simp add: itemOK_def sameVideo_def gone_def destinationTrue_def copiesTrue_def isFile_def)

lemma filesOK_same: "mw_files w' = mw_files w \<Longrightarrow> sw_stores w' = sw_stores w \<Longrightarrow> filesOK orig w' = filesOK orig w"
  by (simp add: filesOK_def intact_def isFile_def)

text \<open>An update of the items that touches neither their identity nor claims more than they had.\<close>

definition ident :: "item_row \<Rightarrow> nat \<times> nat \<times> string \<times> string \<times> string" where
  "ident it = (mi_ID it, mi_FileID it, mi_FileUUID it, mi_SourceMountID it, mi_DestinationMountID it)"

definition keepsIdentity :: "(item_row \<Rightarrow> item_row) \<Rightarrow> bool" where
  "keepsIdentity f \<longleftrightarrow> (\<forall>it. ident (f it) = ident it)"

lemma mediaSafe_updateItems:
  assumes safe: "mediaSafe orig w" and f: "keepsIdentity f" and once: "reservedOnce (update_where p f (mw_items w))"
    and "\<And>it. it \<in> set (mw_items w) \<Longrightarrow> p it \<Longrightarrow> (mi_Status (f it) = ItemDeleted \<longrightarrow> gone (mw_files w) (mi_FileID it)) \<and>
      (mi_DestinationOwned (f it) \<longrightarrow> destinationTrue orig w it)"
  shows "mediaSafe orig (setItems p f w)"
proof -
  have "itemOK orig w (f it)" if "it \<in> set (mw_items w)" "p it" for it
    using assms(4) [OF that] f safe that(1)
    by (auto simp: mediaSafe_def itemOK_def keepsIdentity_def ident_def sameVideo_def destinationTrue_def)
  then have rows: "itemOK orig w it" if "it \<in> set (update_where p f (mw_items w))" for it
    using that safe by (auto simp: mediaSafe_def elim!: update_whereE)
  have "distinct (map mi_ID (update_where p f (mw_items w)))"
    using safe f by (simp add: mediaSafe_def map_update_where keepsIdentity_def ident_def)
  with safe once rows show ?thesis
    by (auto simp: mediaSafe_def setItems_def filesOK_same [of "w\<lparr>mw_items := _\<rparr>" w] itemOK_same [of "w\<lparr>mw_items := _\<rparr>" w])
qed

definition modest :: "(item_row \<Rightarrow> item_row) \<Rightarrow> bool" where
  "modest f \<longleftrightarrow> keepsIdentity f \<and> (\<forall>it. (mi_Status (f it) = ItemDeleted \<longrightarrow> mi_Status it = ItemDeleted) \<and>
     (mi_DestinationOwned (f it) \<longrightarrow> mi_DestinationOwned it))"

section \<open>Changes of the stores\<close>

lemma mediaSafe_stores:
  assumes safe: "mediaSafe orig w" and same: "mw_files w' = mw_files w" "mw_items w' = mw_items w"
    and active: "\<And>f k. isFile w f \<Longrightarrow> below (sf_UUID f) k \<Longrightarrow>
      map_of (sw_stores w' (sf_StorageID f)) k = map_of (sw_stores w (sf_StorageID f)) k"
    and copies: "\<And>f m k ob. isFile w f \<Longrightarrow> below (sf_UUID f) k \<Longrightarrow> map_of (sw_stores w' m) k = Some ob \<Longrightarrow>
      map_of (sw_stores w m) k = Some ob \<or> orig (sf_UUID f) k = Some (ob_Body ob)"
  shows "mediaSafe orig w'"
proof -
  have files: "isFile w' f = isFile w f" for f by (simp add: isFile_def same)
  have "itemOK orig w' it" if "it \<in> set (mw_items w)" for it
  proof (rule itemOK_stores [OF same(1)])
    show "itemOK orig w it" using that safe by (simp add: mediaSafe_def)
    show "copiesTrue orig w' (sf_UUID f) (mi_DestinationMountID it)"
      if "isFile w f" "copiesTrue orig w (sf_UUID f) (mi_DestinationMountID it)" for f
      using that copies by (fastforce simp: copiesTrue_def)
  qed
  moreover have "filesOK orig w'"
    using safe active by (auto simp: mediaSafe_def filesOK_def intact_def files same)
  ultimately show ?thesis using safe by (simp add: mediaSafe_def same)
qed

text \<open>Deleting below a prefix whose video, if it lives, is active elsewhere.\<close>

definition elsewhere :: "string \<Rightarrow> string \<Rightarrow> stored_file list \<Rightarrow> bool" where
  "elsewhere m u F \<longleftrightarrow> (\<forall>f \<in> set F. \<not> sf_Deleted f \<longrightarrow> sf_UUID f = u \<longrightarrow> sf_StorageID f \<noteq> m)"

text \<open>\<open>safeWith orig F I C\<close>: the media are safe, the files are \<open>F\<close>, the items have the identities \<open>I\<close>,
  and the destinations of the items \<open>C\<close> hold true copies only.\<close>

definition safeWith ::
  "(string \<Rightarrow> string \<rightharpoonup> string) \<Rightarrow> stored_file list \<Rightarrow> (nat \<times> nat \<times> string \<times> string \<times> string) list \<Rightarrow> item_row list \<Rightarrow> mig_world \<Rightarrow> bool" where
  "safeWith orig F I C w \<longleftrightarrow> mediaSafe orig w \<and> mw_files w = F \<and> map ident (mw_items w) = I \<and>
     (\<forall>it \<in> set C. destinationTrue orig w it)"

lemma safeWith_rows:
  assumes "safeWith orig F I C w" "mediaSafe orig w'" "mw_files w' = F" "map ident (mw_items w') = I" "sw_stores w' = sw_stores w"
  shows "safeWith orig F I C w'"
  using assms by (simp add: safeWith_def destinationTrue_def isFile_def copiesTrue_def)

lemma deleteAll_withoutKeys:
  assumes "DeletePrefix m u (w, fs) = (r, w', fs')"
  obtains E where "w' = withoutKeys m E w" "\<And>k. k \<in> E \<Longrightarrow> below u k"
proof -
  let ?ks = "map oi_Key (walkInfos u (sw_stores w m))"
  from assms consider "w' = w" | fs1 where "deleteAll m ?ks [] (withoutKeys m {} w, fs1) = (r, w', fs')"
    by (auto simp: DeletePrefix_def tx_bind_def storeWalk_def tx_select_def tx_stmt_def split: list.splits option.splits)
  then show ?thesis
  proof cases
    case 1
    then show ?thesis by (intro that [of "{}"]) simp_all
  next
    case 2
    from deleteAll_result [OF this] obtain E where "E \<subseteq> set ?ks" "w' = withoutKeys m E w" by auto
    with walk_keys [of u "sw_stores w m"] show ?thesis by (intro that [of E]) auto
  qed
qed

lemma safeWith_stores:
  assumes safe: "safeWith orig F I C w" and same: "mw_files w' = mw_files w" "mw_items w' = mw_items w"
    and active: "\<And>f k. isFile w f \<Longrightarrow> below (sf_UUID f) k \<Longrightarrow>
      map_of (sw_stores w' (sf_StorageID f)) k = map_of (sw_stores w (sf_StorageID f)) k"
    and copies: "\<And>f m k ob. isFile w f \<Longrightarrow> below (sf_UUID f) k \<Longrightarrow> map_of (sw_stores w' m) k = Some ob \<Longrightarrow>
      map_of (sw_stores w m) k = Some ob \<or> orig (sf_UUID f) k = Some (ob_Body ob)"
  shows "safeWith orig F I C w'"
proof -
  have "destinationTrue orig w' it" if "it \<in> set C" for it
    using that safe copies unfolding safeWith_def destinationTrue_def copiesTrue_def
    by (simp add: isFile_def same) blast
  with safe mediaSafe_stores [of orig w w'] assms(2-) show ?thesis by (simp add: safeWith_def)
qed

lemma always_deletePrefix:
  assumes "validUUID u" "elsewhere m u F"
  shows "always (safeWith orig F I C) (deletePrefix m u)"
proof -
  have "safeWith orig F I C (fst (snd (DeletePrefix m u (w, fs))))" if safe: "safeWith orig F I C w" for w fs
  proof -
    obtain r w' fs' where run: "DeletePrefix m u (w, fs) = (r, w', fs')" by (cases "DeletePrefix m u (w, fs)") auto
    from deleteAll_withoutKeys [OF run] obtain E where w': "w' = withoutKeys m E w" and E: "\<And>k. k \<in> E \<Longrightarrow> below u k" by blast
    have filt: "map_of (filter (\<lambda>e. fst e \<notin> E) b) k = (if k \<in> E then None else map_of b k)" for b :: bucket and k
      by (induction b) auto
    have "safeWith orig F I C w'"
    proof (rule safeWith_stores [OF safe])
      fix f k assume f: "isFile w f" "below (sf_UUID f) k"
      then have v: "validUUID (sf_UUID f)" using safe by (simp add: safeWith_def mediaSafe_def filesOK_def isFile_def)
      show "map_of (sw_stores w' (sf_StorageID f)) k = map_of (sw_stores w (sf_StorageID f)) k"
        using f E [of k] below_disjoint [OF assms(1) v, of k] assms(2) safe
        by (auto simp: w' withoutKeys_def filt elsewhere_def isFile_def safeWith_def)
    qed (simp_all add: w' withoutKeys_def updateStore_def filt split: if_splits)
    with run show ?thesis by simp
  qed
  then have del: "always (safeWith orig F I C) (DeletePrefix m u)" by (simp add: always_def)
  show ?thesis
    unfolding deletePrefix_def
    by (rule always_bind [OF del]) (auto split: list.split intro: always_return always_fail)
qed

text \<open>Statements that leave files and stores alone.\<close>

lemma safe_updateItems:
  assumes "keepsIdentity f" and "\<And>w it. safeWith orig F I C w \<Longrightarrow> it \<in> set (mw_items w) \<Longrightarrow> p it \<Longrightarrow>
      (mi_Status (f it) = ItemDeleted \<longrightarrow> gone F (mi_FileID it)) \<and> (mi_DestinationOwned (f it) \<longrightarrow> destinationTrue orig w it)"
  shows "always (safeWith orig F I C) (updateItems p f)"
  unfolding updateItems_def
proof (rule always_stmt)
  fix w x w'
  assume safe: "safeWith orig F I C w" and run: "(if reservedOnce (update_where p f (mw_items w))
      then Inr (affected p (mw_items w), setItems p f w) else Inl DuplicatedKey) = Inr (x, w')"
  then have once: "reservedOnce (update_where p f (mw_items w))" and w': "w' = setItems p f w" by (auto split: if_splits)
  have "mediaSafe orig w'"
    unfolding w' by (rule mediaSafe_updateItems [OF _ assms(1) once]) (use safe assms(2) [OF safe] in \<open>auto simp: safeWith_def\<close>)
  moreover have "map ident (mw_items w') = I"
    using safe assms(1) by (simp add: w' setItems_def safeWith_def keepsIdentity_def map_update_where)
  ultimately show "safeWith orig F I C w'"
    by (intro safeWith_rows [OF safe]) (use safe in \<open>simp_all add: w' setItems_def safeWith_def\<close>)
qed

lemma safe_updateModest: "modest f \<Longrightarrow> always (safeWith orig F I C) (updateItems p f)"
  by (rule safe_updateItems) (auto simp: modest_def safeWith_def mediaSafe_def itemOK_def)

lemma safe_updateActiveItem: "modest f \<Longrightarrow> always (safeWith orig F I C) (updateActiveItem i f)"
  unfolding updateActiveItem_def by (intro tx_always safe_updateModest)

lemma safe_update:
  assumes same: "\<And>w. mw_files (u w) = mw_files w \<and> mw_items (u w) = mw_items w \<and> sw_stores (u w) = sw_stores w"
  shows "always (safeWith orig F I C) (tx_update u)"
proof (rule always_update)
  fix w assume safe: "safeWith orig F I C w"
  then have "mediaSafe orig (u w)" using mediaSafe_cong [of "u w" w orig] same by (simp add: safeWith_def)
  then show "safeWith orig F I C (u w)"
    by (intro safeWith_rows [OF safe]) (use safe same in \<open>simp_all add: safeWith_def\<close>)
qed

lemma safe_clearCheckpoints: "always (safeWith orig F I C) (clearCheckpoints i)"
  unfolding clearCheckpoints_def by (rule safe_update) (simp add: dropObjects_def)

lemma safe_refreshProgress: "always (safeWith orig F I C) (refreshProgress i)"
  unfolding refreshProgress_def by (intro tx_always safe_update) simp

lemma safe_storeFor: "always J (storeFor m)"
  unfolding storeFor_def by (rule always_stmt) (auto split: if_splits)

lemma safe_filePrefix: "(validUUID u \<Longrightarrow> always J (f u)) \<Longrightarrow> always J (tx_bind (filePrefix u) f)"
  by (auto simp: filePrefix_def tx_bind_def tx_fail_def tx_return_def always_def validUUID_def dest: layoutFilePrefix_ok split: sum.split)

lemma safe_transaction: "always J m \<Longrightarrow> always J (transaction m)"
  by (rule always_transaction) (rule always_wp)

lemma always_ends: "(\<And>w. J w \<Longrightarrow> ends m (\<lambda>_. J) w) \<Longrightarrow> always J m"
  by (simp add: always_def ends_def)

lemmas safe_statements = tx_always safe_updateModest safe_updateActiveItem safe_clearCheckpoints safe_refreshProgress
  safe_storeFor safe_filePrefix safe_transaction

end
