(* ===== verification/MgSafe.thy ===== *)
theory MgSafe
  imports MgInv
begin

text \<open>The operations on one video keep the media safe.\<close>

section \<open>What a loaded item tells\<close>

definition known :: "stored_file list \<Rightarrow> (nat \<times> nat \<times> string \<times> string \<times> string) list \<Rightarrow> item_row \<Rightarrow> bool" where
  "known F I item \<longleftrightarrow> ident item \<in> set I \<and> distinct (map fst I) \<and>
     mi_SourceMountID item \<noteq> mi_DestinationMountID item \<and> sameVideo F item"

lemma itemById_Some: "itemById i w = Some item \<Longrightarrow> item \<in> set (mw_items w) \<and> mi_ID item = i"
  by (auto simp: itemById_def dest: find_key_SomeD)

lemma known_item:
  assumes "safeWith orig F I C w" "item \<in> set (mw_items w)"
  shows "known F I item" "mi_Status item = ItemDeleted \<Longrightarrow> gone F (mi_FileID item)"
    "mi_DestinationOwned item \<Longrightarrow> destinationTrue orig w item"
proof -
  have "map fst I = map mi_ID (mw_items w)"
    using assms(1) by (auto simp: safeWith_def ident_def)
  with assms show "known F I item" "mi_Status item = ItemDeleted \<Longrightarrow> gone F (mi_FileID item)"
    "mi_DestinationOwned item \<Longrightarrow> destinationTrue orig w item"
    by (auto simp: safeWith_def mediaSafe_def itemOK_def known_def)
qed

lemma known_row:
  assumes "known F I item" "safeWith orig F I C w" "it \<in> set (mw_items w)" "mi_ID it = mi_ID item"
  shows "ident it = ident item"
proof -
  from assms(2,3) have "ident it \<in> set I" by (auto simp: safeWith_def)
  moreover have "fst (ident it) = fst (ident item)" using assms(4) by (simp add: ident_def)
  ultimately show ?thesis using assms(1) by (auto simp: known_def distinct_map inj_on_def)
qed

lemma gone_elsewhere: "gone F (mi_FileID item) \<Longrightarrow> sameVideo F item \<Longrightarrow> elsewhere m (mi_FileUUID item) F"
  by (auto simp: gone_def sameVideo_def elsewhere_def)

lemma safe_bind_item:
  assumes "\<And>w item. safeWith orig F I C w \<Longrightarrow> item \<in> set (mw_items w) \<Longrightarrow> mi_ID item = i \<Longrightarrow> ends (f item) (\<lambda>_. safeWith orig F I C) w"
  shows "always (safeWith orig F I C) (tx_bind (tx_first (itemById i)) f)"
  by (rule always_ends) (auto intro!: ends_bind ends_first assms dest!: itemById_Some)

lemma safe_item:
  assumes "\<And>item. known F I item \<Longrightarrow> mi_ID item = i \<Longrightarrow> (mi_Status item = ItemDeleted \<Longrightarrow> gone F (mi_FileID item)) \<Longrightarrow>
    always (safeWith orig F I C) (f item)"
  shows "always (safeWith orig F I C) (tx_bind (tx_first (itemById i)) f)"
  by (rule safe_bind_item, rule ends_always, rule assms) (auto dest: known_item)

lemma ends_seq:
  assumes m: "always J m" "J w" and f: "\<And>x w'. J w' \<Longrightarrow> ends (f x) Q w'" and e: "\<And>e w'. J w' \<Longrightarrow> Q (Inl e) w'"
  shows "ends (tx_bind m f) Q w"
proof (rule ends_bind)
  have "ends m (\<lambda>_. J) w" using m by (rule ends_always)
  then show "ends m (\<lambda>r w'. (\<forall>e. r = Inl e \<longrightarrow> Q (Inl e) w') \<and> (\<forall>x. r = Inr x \<longrightarrow> ends (f x) Q w')) w"
    by (rule ends_mono) (use f e in blast)
qed

section \<open>Videos that are gone\<close>

lemma safe_cleanupDeletedDestination: "always (safeWith orig F I C) (cleanupDeletedDestination item wrote)"
  unfolding cleanupDeletedDestination_def
proof (rule safe_item)
  fix current assume k: "known F I current" and d: "mi_Status current = ItemDeleted \<Longrightarrow> gone F (mi_FileID current)"
  have del: "always (safeWith orig F I C) (deletePrefix (mi_DestinationMountID current) (mi_FileUUID current))"
    if "mi_Status current = ItemDeleted" "validUUID (mi_FileUUID current)"
    using that d k by (auto intro!: always_deletePrefix gone_elsewhere simp: known_def)
  have pre: "always (safeWith orig F I C) (tx_bind (filePrefix (mi_FileUUID current)) (\<lambda>pre.
      tx_bind (deletePrefix (mi_DestinationMountID current) pre) (\<lambda>_. g pre)))"
    if "mi_Status current = ItemDeleted" "\<And>pre. always (safeWith orig F I C) (g pre)" for g
    by (rule safe_filePrefix, rule always_bind [OF del [OF that(1)]]) (assumption, rule that(2))
  have m: "modest (\<lambda>it. it\<lparr>mi_DestinationOwned := False\<rparr>)"
    by (simp add: modest_def keepsIdentity_def ident_def)
  show "always (safeWith orig F I C) (if mi_Status current \<noteq> ItemDeleted \<or>
        (\<not> mi_DestinationOwned current \<and> \<not> (mi_DestinationOwned item \<or> wrote)) then tx_return ()
     else tx_bind (storeFor (mi_DestinationMountID current)) (\<lambda>_.
       tx_bind (filePrefix (mi_FileUUID current)) (\<lambda>pre.
       tx_bind (deletePrefix (mi_DestinationMountID current) pre) (\<lambda>_.
       transaction (tx_bind (clearCheckpoints (mi_ID current)) (\<lambda>_.
         tx_bind (updateItems (\<lambda>it. mi_ID it = mi_ID current \<and> mi_Status it = ItemDeleted)
           (\<lambda>it. it\<lparr>mi_DestinationOwned := False\<rparr>)) (\<lambda>_. tx_return ())))))))"
  proof (cases "mi_Status current = ItemDeleted")
    case True
    show ?thesis
      by (rule always_if, rule always_return, rule always_bind [OF safe_storeFor], rule pre [OF True],
          rule safe_transaction, rule always_bind [OF safe_clearCheckpoints], rule always_bind [OF safe_updateModest [OF m]],
          rule always_return)
  qed (simp add: always_return)
qed

lemma safe_markItemDeleted:
  assumes "known F I item" "gone F (mi_FileID item)"
  shows "always (safeWith orig F I C) (markItemDeleted (mi_ID item))"
  unfolding markItemDeleted_def
proof (intro always_bind always_return safe_updateItems)
  show "keepsIdentity deletedRow" by (simp add: keepsIdentity_def ident_def deletedRow_def)
  fix w it assume w: "safeWith orig F I C w" and it: "it \<in> set (mw_items w)" "mi_ID it = mi_ID item"
  from known_row [OF assms(1) w it] assms(2) known_item [OF w it(1)]
  show "(mi_Status (deletedRow it) = ItemDeleted \<longrightarrow> gone F (mi_FileID it)) \<and>
      (mi_DestinationOwned (deletedRow it) \<longrightarrow> destinationTrue orig w it)"
    by (simp add: ident_def deletedRow_def)
qed

lemma fileById_gone: "fileById i w = None \<Longrightarrow> gone (mw_files w) i"
  by (auto simp: fileById_def gone_def find_None_iff)

lemma fileById_Some: "fileById i w = Some f \<Longrightarrow> f \<in> set (mw_files w) \<and> sf_ID f = i \<and> \<not> sf_Deleted f"
  by (auto simp: fileById_def dest: find_key_SomeD)

lemma fileUnscoped_Some: "fileUnscoped i w = Some f \<Longrightarrow> f \<in> set (mw_files w) \<and> sf_ID f = i"
  by (auto simp: fileUnscoped_def dest: find_key_SomeD)

lemma fileUnscoped_gone: "fileUnscoped i w = None \<Longrightarrow> gone (mw_files w) i"
  by (auto simp: fileUnscoped_def gone_def find_None_iff)

definition isLiveFile :: "stored_file list \<Rightarrow> nat \<Rightarrow> stored_file \<Rightarrow> bool" where
  "isLiveFile F i f \<longleftrightarrow> f \<in> set F \<and> sf_ID f = i \<and> \<not> sf_Deleted f"

lemma fileOrDeleted_result:
  assumes k: "known F I item" and w: "safeWith orig F I C w"
  shows "ends (fileOrDeleted item wrote) (\<lambda>r w'. safeWith orig F I C w' \<and> (\<forall>f. r = Inr (Some f) \<longrightarrow> isLiveFile F (mi_FileID item) f \<and> w' = w)) w"
proof -
  have F: "mw_files w = F" using w by (simp add: safeWith_def)
  have mark: "ends (tx_bind (markItemDeleted (mi_ID item)) (\<lambda>_. tx_bind (cleanupDeletedDestination item wrote) (\<lambda>_. tx_return None)))
      (\<lambda>r w'. safeWith orig F I C w' \<and> (\<forall>f. r = Inr (Some f) \<longrightarrow> isLiveFile F (mi_FileID item) f \<and> w' = w)) w"
    if "gone F (mi_FileID item)"
  proof -
    have a: "always (safeWith orig F I C) (markItemDeleted (mi_ID item))" by (rule safe_markItemDeleted [OF k that])
    show ?thesis
      by (rule ends_seq [OF a w], rule ends_seq [OF safe_cleanupDeletedDestination], assumption)
        (auto intro!: ends_return)
  qed
  show ?thesis
  proof (cases "fileById (mi_FileID item) w")
    case None
    with F have "gone F (mi_FileID item)" using fileById_gone by blast
    from mark [OF this] w show ?thesis
      unfolding fileOrDeleted_def
      by (intro ends_bind ends_try ends_first) (auto intro!: ends_fail simp: None)
  next
    case (Some f)
    with F have "isLiveFile F (mi_FileID item) f" using fileById_Some by (auto simp: isLiveFile_def)
    with w Some show ?thesis
      unfolding fileOrDeleted_def by (intro ends_bind ends_try ends_first) (auto intro!: ends_fail ends_return)
  qed
qed

end
