(* ===== verification/MgCopySafe.thy ===== *)
theory MgCopySafe
  imports MgSafe
begin

text \<open>Copying a prefix keeps the media safe, and a final copy that succeeds is complete.\<close>

section \<open>Writing at the destination\<close>

definition honest :: "mig_env \<Rightarrow> bool" where
  "honest env \<longleftrightarrow> (\<forall>m body. pv_land (me_provider env m) body = body)"

definition fromSource :: "stored_file list \<Rightarrow> (nat \<times> nat \<times> string \<times> string \<times> string) list \<Rightarrow> item_row \<Rightarrow> bool" where
  "fromSource F I item \<longleftrightarrow> known F I item \<and> validUUID (mi_FileUUID item) \<and>
     (\<forall>f \<in> set F. sf_ID f = mi_FileID item \<longrightarrow> \<not> sf_Deleted f \<longrightarrow> sf_StorageID f = mi_SourceMountID item)"

lemma fromSource_file:
  assumes "fromSource F I item" "safeWith orig F I C w" "isFile w f" "below (sf_UUID f) key" "below (mi_FileUUID item) key"
  shows "sf_UUID f = mi_FileUUID item" "sf_StorageID f = mi_SourceMountID item" "sf_ID f = mi_FileID item"
proof -
  have v: "validUUID (sf_UUID f)" using assms(2,3) by (simp add: safeWith_def mediaSafe_def filesOK_def isFile_def)
  show u: "sf_UUID f = mi_FileUUID item"
    by (rule below_disjoint [OF v _ assms(4,5)]) (use assms(1) in \<open>simp add: fromSource_def\<close>)
  have f: "f \<in> set F" "\<not> sf_Deleted f" using assms(2,3) by (simp_all add: safeWith_def isFile_def)
  with u assms(1) show i: "sf_ID f = mi_FileID item" by (simp add: fromSource_def known_def sameVideo_def)
  with f assms(1) show "sf_StorageID f = mi_SourceMountID item" by (simp add: fromSource_def)
qed

lemma ends_storePut_safe:
  assumes item: "fromSource F I item" and w: "safeWith orig F I C w" and key: "below (mi_FileUUID item) key"
    and land: "pv_land pv body = body" and source: "map_of (sw_stores w (mi_SourceMountID item)) key = Some ob" "ob_Body ob = body"
  shows "ends (storePut pv (mi_DestinationMountID item) key body opts) (\<lambda>_. safeWith orig F I C) w"
proof -
  let ?w = "updateStore (mi_DestinationMountID item) (AList.update key (putObject pv opts body)) w"
  have "safeWith orig F I C ?w"
  proof (rule safeWith_stores [OF w])
    fix f k assume f: "isFile w f" "below (sf_UUID f) k"
    show "map_of (sw_stores ?w (sf_StorageID f)) k = map_of (sw_stores w (sf_StorageID f)) k"
    proof (cases "k = key")
      case True
      with fromSource_file [OF item w f(1) _ key] f have "sf_StorageID f = mi_SourceMountID item" by simp
      moreover have "mi_SourceMountID item \<noteq> mi_DestinationMountID item" using item by (simp add: fromSource_def known_def)
      ultimately show ?thesis by simp
    qed (simp add: update_conv')
  next
    fix f m k ob' assume f: "isFile w f" "below (sf_UUID f) k" and ob': "map_of (sw_stores ?w m) k = Some ob'"
    show "map_of (sw_stores w m) k = Some ob' \<or> orig (sf_UUID f) k = Some (ob_Body ob')"
    proof (cases "m = mi_DestinationMountID item \<and> k = key")
      case True
      with fromSource_file [OF item w f(1) _ key] f have "sf_StorageID f = mi_SourceMountID item" by simp
      moreover have "intact orig w (sf_UUID f) (sf_StorageID f)"
        using w f(1) by (simp add: safeWith_def mediaSafe_def filesOK_def)
      ultimately have "orig (sf_UUID f) key = Some body" using f(2) True source by (simp add: intact_def) (metis option.map(2))
      with True ob' land show ?thesis by (simp add: update_conv' putObject_def) (metis obj.select_convs(1))
    qed (use ob' in \<open>auto simp: update_conv' split: if_splits\<close>)
  qed (simp_all add: updateStore_def)
  with w show ?thesis
    unfolding storePut_def by (intro ends_stmt) (auto split: option.splits if_splits)
qed

lemma safe_CopyObjectValidated:
  assumes item: "fromSource F I item" and key: "below (mi_FileUUID item) (oi_Key info)" and env: "honest env"
  shows "always (safeWith orig F I C) (CopyObjectValidated sha (me_provider env (mi_DestinationMountID item))
    (mi_SourceMountID item) (mi_DestinationMountID item) info)"
proof (rule always_ends)
  fix w assume w: "safeWith orig F I C w"
  have put: "ends (storePut (me_provider env (mi_DestinationMountID item)) (mi_DestinationMountID item) (oi_Key info) (ob_Body ob) opts)
      (\<lambda>_. safeWith orig F I C) w" if "map_of (sw_stores w (mi_SourceMountID item)) (oi_Key info) = Some ob" for ob opts
    by (rule ends_storePut_safe [OF item w key]) (use env that in \<open>auto simp: honest_def\<close>)
  show "ends (CopyObjectValidated sha (me_provider env (mi_DestinationMountID item))
    (mi_SourceMountID item) (mi_DestinationMountID item) info) (\<lambda>_. safeWith orig F I C) w"
    unfolding CopyObjectValidated_def storeOpen_def
    by (intro ends_bind ends_stmt)
      (auto split: option.splits intro!: w ends_fail ends_bind ends_mono [OF put] ends_return)
qed

lemma safe_storeStat: "always J (storeStat m key)"
  unfolding storeStat_def by (rule always_stmt) (auto split: option.splits)

lemma safe_storeOpen: "always J (storeOpen m key)"
  unfolding storeOpen_def by (rule always_stmt) (auto split: option.splits)

lemma safe_storeWalk: "always J (storeWalk m pre)"
  unfolding storeWalk_def by (rule always_select)

lemma safe_PrefixInventory: "always J (PrefixInventory m pre)"
  unfolding PrefixInventory_def by (intro tx_always safe_storeWalk)

text \<open>The key of what \<open>Stat\<close> returns is the key asked for.\<close>

lemma safe_bind_stat:
  assumes "\<And>info. oi_Key info = key \<Longrightarrow> always J (f info)"
  shows "always J (tx_bind (storeStat m key) f)"
  by (rule always_ends, unfold storeStat_def, intro ends_bind ends_stmt)
    (auto split: option.splits simp: infoOf_def intro!: ends_always assms)

lemma safe_copyAttempt:
  assumes "fromSource F I item" "below (mi_FileUUID item) key" "honest env"
  shows "always (safeWith orig F I C) (copyAttempt env (mi_SourceMountID item) (mi_DestinationMountID item) i key)"
  unfolding copyAttempt_def
  by (rule safe_bind_stat, rule always_bind, rule safe_CopyObjectValidated [OF assms(1) _ assms(3)])
    (use assms(2) in \<open>auto intro!: tx_always safe_storeStat\<close>)

lemma safe_copyAttempts:
  assumes "fromSource F I item" "below (mi_FileUUID item) key" "honest env"
  shows "always (safeWith orig F I C) (copyAttempts n env (mi_SourceMountID item) (mi_DestinationMountID item) i key e)"
  by (induction n arbitrary: e)
    (auto intro!: always_fail always_bind always_check always_try safe_copyAttempt [OF assms] always_return split: sum.split)

lemma safe_checkpointMatches: "always J (checkpointMatches env m ob found c)"
  unfolding checkpointMatches_def
  by (auto split: option.split sum.split intro!: always_return always_bind always_try safe_storeOpen)

lemma safe_copyObject:
  assumes "fromSource F I item" "below (mi_FileUUID item) (oi_Key ob)" "honest env"
  shows "always (safeWith orig F I C) (copyObject env (mi_SourceMountID item) (mi_DestinationMountID item) i ob found c)"
  unfolding copyObject_def
  by (intro always_bind safe_checkpointMatches always_if always_return safe_copyAttempts [OF assms])

section \<open>Batches\<close>

lemma safe_persistProgress: "always (safeWith orig F I C) (persistProgress item p)"
proof -
  have m: "modest (\<lambda>it. it\<lparr>mi_BytesCopied := b, mi_ObjectsVerified := n, mi_ProgressMessage := s\<rparr>)" for b n s
    by (simp add: modest_def keepsIdentity_def ident_def)
  have up: "always (safeWith orig F I C) (tx_update (\<lambda>w. w\<lparr>mw_objects := g (mw_objects w)\<rparr>))" for g
    by (rule safe_update) simp
  show ?thesis
    unfolding persistProgress_def persistRows_def
    by (auto intro!: always_bind always_try safe_transaction always_return safe_updateActiveItem [OF m] up safe_refreshProgress split: sum.split)
qed

lemma safe_copyObjects:
  assumes "fromSource F I item" "honest env" "\<forall>ob \<in> set obs. below (mi_FileUUID item) (oi_Key ob)"
  shows "always (safeWith orig F I C) (copyObjects env item iv cps obs p)"
  using assms(3)
proof (induction obs arbitrary: p)
  case (Cons ob obs)
  have ob: "always (safeWith orig F I C) (copyObject env (mi_SourceMountID item) (mi_DestinationMountID item) (mi_ID item) ob
      (iv (oi_Key ob)) (cps (oi_Key ob)))"
    using Cons.prems by (intro safe_copyObject assms) simp
  show ?case
    using Cons by (auto intro!: always_bind always_try always_check ob always_return always_if safe_persistProgress split: sum.split prod.split)
qed (simp add: always_return)

lemma safe_copyObjectBatch:
  assumes "fromSource F I item" "honest env" "\<forall>ob \<in> set obs. below (mi_FileUUID item) (oi_Key ob)"
  shows "always (safeWith orig F I C) (copyObjectBatch env item iv cps obs p)"
  unfolding copyObjectBatch_def
  by (auto intro!: always_if always_return always_bind safe_copyObjects [OF assms] safe_persistProgress always_fail always_check
      split: prod.split option.split)

text \<open>Every object of a batch that succeeded is verified.\<close>

definition verifiedFor :: "copy_progress \<Rightarrow> object_info list \<Rightarrow> copy_progress \<Rightarrow> bool" where
  "verifiedFor p obs p' \<longleftrightarrow> dom (cq_verifiedKeys p) \<union> oi_Key ` set obs \<subseteq> dom (cq_verifiedKeys p')"

lemma verifiedFor_same: "verifiedFor p obs p' \<Longrightarrow> cq_verifiedKeys p'' = cq_verifiedKeys p' \<Longrightarrow> verifiedFor p obs p''"
  by (simp add: verifiedFor_def)

lemma verifiedFor_Cons: "verifiedFor p [ob] p' \<Longrightarrow> verifiedFor p' obs p'' \<Longrightarrow> verifiedFor p (ob # obs) p''"
  by (auto simp: verifiedFor_def)

lemma wp_skip: "(\<And>x w'. wp (f x) Q w') \<Longrightarrow> wp (tx_bind m f) Q w"
  by (rule wp_bind) (simp add: wp_def)

lemma wp_try_any: "(\<And>r w'. wp (f r) Q w') \<Longrightarrow> wp (tx_bind (tx_try m) f) Q w"
  by (rule wp_skip)

lemma copyAttempt_key: "wp (copyAttempt env s d i key) (\<lambda>r _. oi_Key (or_source r) = key) w"
  unfolding copyAttempt_def
  by (rule wp_skip, rule wp_skip, rule wp_bind, rule wp_storeStat) (auto intro!: wp_if wp_return wp_fail simp: infoOf_def)

lemma wp_tryD: "wp m Q w \<Longrightarrow> wp (tx_try m) (\<lambda>r w'. \<forall>x. r = Inr x \<longrightarrow> Q x w') w"
  by (auto simp: wp_def tx_try_def split: prod.splits)

lemma copyAttempts_key: "wp (copyAttempts n env s d i key e) (\<lambda>r _. oi_Key (or_source r) = key) w"
proof (induction n arbitrary: e w)
  case (Suc n)
  show ?case
    unfolding copyAttempts.simps
    by (rule wp_skip, rule wp_bind, rule wp_mono [OF wp_tryD [OF copyAttempt_key]])
      (auto split: sum.split intro!: wp_return Suc.IH)
qed (simp add: wp_fail)

lemma copyObject_key: "wp (copyObject env s d i ob found c) (\<lambda>r _. oi_Key (or_source r) = oi_Key ob) w"
  unfolding copyObject_def
  by (rule wp_skip) (auto intro!: wp_if wp_return copyAttempts_key)

lemma persistProgress_keys: "wp (persistProgress item p) (\<lambda>ep _. cq_verifiedKeys (snd ep) = cq_verifiedKeys p) w"
  unfolding persistProgress_def
  by (rule wp_skip) (auto split: sum.split intro!: wp_return wp_skip)

lemma copyObjects_verified:
  "wp (copyObjects env item iv cps obs p) (\<lambda>ep _. fst ep = None \<longrightarrow> verifiedFor p obs (snd ep)) w"
proof (induction obs arbitrary: p w)
  case Nil
  then show ?case by (simp add: wp_return verifiedFor_def)
next
  case (Cons ob obs p w)
  have key: "wp (tx_bind tx_check (\<lambda>_. copyObject env (mi_SourceMountID item) (mi_DestinationMountID item) (mi_ID item) ob
      (iv (oi_Key ob)) (cps (oi_Key ob)))) (\<lambda>r _. oi_Key (or_source r) = oi_Key ob) w"
    by (rule wp_skip) (rule copyObject_key)
  have go: "wp (copyObjects env item iv cps obs p') (\<lambda>ep _. fst ep = None \<longrightarrow> verifiedFor p (ob # obs) (snd ep)) w'"
    if "verifiedFor p [ob] p'" for p' w'
    by (rule wp_mono [OF Cons.IH]) (use that in \<open>auto intro: verifiedFor_Cons\<close>)
  have noted: "verifiedFor p [ob] (noteResult res p)" if "oi_Key (or_source res) = oi_Key ob" for res
    using that by (auto simp: noteResult_def verifiedFor_def)
  have due: "wp (tx_bind (persistProgress item (noteResult res p)) (\<lambda>(e, p).
           if e \<noteq> None then tx_return (e, p) else copyObjects env item iv cps obs p))
         (\<lambda>ep _. fst ep = None \<longrightarrow> verifiedFor p (ob # obs) (snd ep)) w'"
    if "oi_Key (or_source res) = oi_Key ob" for res w'
    by (rule wp_bind, rule wp_mono [OF persistProgress_keys])
      (use verifiedFor_same [OF noted [OF that]] in \<open>auto intro!: wp_return go split: if_splits\<close>)
  show ?case
    unfolding copyObjects.simps
    by (rule wp_bind, rule wp_mono [OF wp_tryD [OF key]])
      (auto split: sum.split intro!: wp_return go noted due simp del: not_None_eq)
qed

lemma copyObjectBatch_verified: "wp (copyObjectBatch env item iv cps obs p) (\<lambda>p' _. verifiedFor p obs p') w"
proof (cases "obs = []")
  case True
  then show ?thesis by (simp add: copyObjectBatch_def wp_return verifiedFor_def)
next
  case False
  have last: "wp (if cq_pending p' = [] then tx_return (e, p')
          else tx_bind (persistProgress item p') (\<lambda>(e', p). tx_return (if e = None then e' else e, p)))
      (\<lambda>ep _. (fst ep = None \<longrightarrow> e = None) \<and> cq_verifiedKeys (snd ep) = cq_verifiedKeys p') w'" for e p' w'
    by (auto intro!: wp_return wp_bind wp_mono [OF persistProgress_keys] split: if_splits)
  have go: "wp (tx_bind (if cq_pending p' = [] then tx_return (e, p')
          else tx_bind (persistProgress item p') (\<lambda>(e', p). tx_return (if e = None then e' else e, p))) (\<lambda>(e, p).
        case e of Some e \<Rightarrow> tx_fail e | None \<Rightarrow> tx_bind tx_check (\<lambda>_. tx_return p))) (\<lambda>p' _. verifiedFor p obs p') w'"
    if "e = None \<longrightarrow> verifiedFor p obs p'" for e p' w'
    by (rule wp_bind, rule wp_mono [OF last])
      (use that in \<open>auto intro!: wp_fail wp_skip wp_return intro: verifiedFor_same split: option.split\<close>)
  have "wp (tx_bind (copyObjects env item iv cps obs p) (\<lambda>(e, p).
        tx_bind (if cq_pending p = [] then tx_return (e, p)
          else tx_bind (persistProgress item p) (\<lambda>(e', p). tx_return (if e = None then e' else e, p))) (\<lambda>(e, p).
        case e of Some e \<Rightarrow> tx_fail e | None \<Rightarrow> tx_bind tx_check (\<lambda>_. tx_return p)))) (\<lambda>p' _. verifiedFor p obs p') w"
  proof (rule wp_bind, rule wp_mono [OF copyObjects_verified])
    fix x :: "media_error txerr option \<times> copy_progress" and w'
    assume "fst x = None \<longrightarrow> verifiedFor p obs (snd x)"
    then show "wp (case x of (e, p) \<Rightarrow> tx_bind (if cq_pending p = [] then tx_return (e, p)
          else tx_bind (persistProgress item p) (\<lambda>(e', p). tx_return (if e = None then e' else e, p))) (\<lambda>(e, p).
        case e of Some e \<Rightarrow> tx_fail e | None \<Rightarrow> tx_bind tx_check (\<lambda>_. tx_return p))) (\<lambda>p' _. verifiedFor p obs p') w'"
      using go by (cases x) simp
  qed
  with False show ?thesis by (simp add: copyObjectBatch_def)
qed

section \<open>The prefix\<close>

definition complete :: "(string \<Rightarrow> string \<rightharpoonup> string) \<Rightarrow> stored_file list \<Rightarrow> item_row \<Rightarrow> mig_world \<Rightarrow> bool" where
  "complete orig F item w \<longleftrightarrow> (\<forall>f. isLiveFile F (mi_FileID item) f \<longrightarrow> (\<forall>k. below (sf_UUID f) k \<longrightarrow> orig (sf_UUID f) k \<noteq> None \<longrightarrow>
     map_of (sw_stores w (mi_DestinationMountID item)) k \<noteq> None))"

lemma wp_foreach_all:
  assumes "\<And>x. x \<in> set xs \<Longrightarrow> wp (f x) (\<lambda>_ w'. w' = w \<and> P x) w"
  shows "wp (tx_foreach f xs) (\<lambda>_ w'. w' = w \<and> (\<forall>x \<in> set xs. P x)) w"
  using assms
proof (induction xs)
  case (Cons x xs)
  have x: "wp (f x) (\<lambda>_ w'. w' = w \<and> P x) w" using Cons.prems by simp
  have xs: "wp (tx_foreach f xs) (\<lambda>_ w'. w' = w \<and> (\<forall>x \<in> set xs. P x)) w" by (rule Cons.IH) (simp add: Cons.prems)
  show ?case
    by (simp, rule wp_bind, rule wp_mono [OF x]) (auto intro: wp_mono [OF xs])
qed (simp add: wp_return)

text \<open>Removing stale objects keeps the keys that are verified.\<close>

definition keepsKeys :: "string \<Rightarrow> (string \<Rightarrow> bool) \<Rightarrow> mig_world \<Rightarrow> mig_world \<Rightarrow> bool" where
  "keepsKeys m P w w' \<longleftrightarrow> (\<forall>k. P k \<longrightarrow> map_of (sw_stores w' m) k = map_of (sw_stores w m) k)"

lemma deleteStale_keeps:
  "wp (tx_foreach (\<lambda>ob. if v (oi_Key ob) = None then storeDelete m (oi_Key ob) else tx_return ()) found)
    (\<lambda>_. keepsKeys m (\<lambda>k. v k \<noteq> None) w) w"
  by (rule wp_foreach)
    (auto intro!: wp_if wp_storeDelete wp_return simp: keepsKeys_def delete_conv')

lemma finalInventory_complete:
  assumes p: "oi_Key ` set objects \<subseteq> dom (cq_verifiedKeys p)"
  shows "wp (finalInventory item pre objects p)
    (\<lambda>_ w'. \<forall>ob \<in> set objects. map_of (sw_stores w' (mi_DestinationMountID item)) (oi_Key ob) \<noteq> None) w"
proof -
  let ?m = "mi_DestinationMountID item"
  have there: "map_of (sw_stores w ?m) k \<noteq> None"
    if "byKey (filter (\<lambda>ob. cq_verifiedKeys p (oi_Key ob) \<noteq> None) found) k = Some stored"
      "set found = set (walkInfos pre (sw_stores w ?m))" for k stored found w
  proof -
    from that(1) have "k \<in> oi_Key ` set found" by (auto simp: byKey_def dest!: map_of_SomeD)
    with that(2) have "k \<in> oi_Key ` set (walkInfos pre (sw_stores w ?m))" by simp
    then show ?thesis by (auto simp: walk_keys map_of_eq_None_iff)
  qed
  have check: "wp (tx_foreach (\<lambda>ob. case (cq_verifiedKeys p (oi_Key ob), byKey (filter (\<lambda>ob. cq_verifiedKeys p (oi_Key ob) \<noteq> None) found) (oi_Key ob)) of
         (Some expected, Some stored) \<Rightarrow> tx_reject (\<not> expectedObject expected stored) (ErrInventoryMismatch (oi_Key ob))
       | (Some _, None) \<Rightarrow> tx_fail (App (ErrInventoryMismatch (oi_Key ob)))
       | _ \<Rightarrow> tx_return ()) objects)
      (\<lambda>_ w'. \<forall>ob \<in> set objects. map_of (sw_stores w' ?m) (oi_Key ob) \<noteq> None) w'"
    if "keepsKeys ?m (\<lambda>k. cq_verifiedKeys p k \<noteq> None) w w'" "set found = set (walkInfos pre (sw_stores w ?m))" for found w w'
  proof (rule wp_mono, rule wp_foreach_all [where P = "\<lambda>ob. map_of (sw_stores w' ?m) (oi_Key ob) \<noteq> None"])
    fix ob assume "ob \<in> set objects"
    with p have v: "cq_verifiedKeys p (oi_Key ob) \<noteq> None" by auto
    then have "map_of (sw_stores w' ?m) (oi_Key ob) \<noteq> None"
      if "byKey (filter (\<lambda>ob. cq_verifiedKeys p (oi_Key ob) \<noteq> None) found) (oi_Key ob) = Some stored" for stored
      using there [OF that \<open>set found = _\<close>] \<open>keepsKeys _ _ _ _\<close> by (auto simp: keepsKeys_def)
    with v show "wp (case (cq_verifiedKeys p (oi_Key ob), byKey (filter (\<lambda>ob. cq_verifiedKeys p (oi_Key ob) \<noteq> None) found) (oi_Key ob)) of
         (Some expected, Some stored) \<Rightarrow> tx_reject (\<not> expectedObject expected stored) (ErrInventoryMismatch (oi_Key ob))
       | (Some _, None) \<Rightarrow> tx_fail (App (ErrInventoryMismatch (oi_Key ob)))
       | _ \<Rightarrow> tx_return ()) (\<lambda>_ w''. w'' = w' \<and> map_of (sw_stores w' ?m) (oi_Key ob) \<noteq> None) w'"
      by (auto split: option.split intro!: wp_reject wp_fail)
  qed simp
  show ?thesis
    unfolding finalInventory_def PrefixInventory_def Let_def
    by (intro wp_bind wp_storeWalk wp_return wp_mono [OF deleteStale_keeps] check) simp_all
qed

end
