(* ===== verification/MgCopyDone.thy ===== *)
theory MgCopyDone
  imports MgCopySafe
begin

text \<open>Copying a whole prefix: safe however it ends, complete when the final copy succeeds.\<close>

definition copyRest :: "mig_env \<Rightarrow> item_row \<Rightarrow> string \<Rightarrow> object_info list \<Rightarrow> bool \<Rightarrow> unit mig_tx" where
  "copyRest env item pre inventory finalSync =
     tx_bind (PrefixInventory (mi_SourceMountID item) pre) (\<lambda>objects.
     tx_bind (tx_reject (objects = []) ErrSourceEmpty) (\<lambda>_.
     tx_bind (updateActiveItem (mi_ID item) (\<lambda>it. it\<lparr>mi_Status := (if finalSync then ItemVerifying else ItemCopying),
       mi_BytesTotal := sum_list (map oi_Size objects), mi_ObjectCount := int (length objects),
       mi_ProgressMessage := (if finalSync then ''Final synchronization and verification'' else ''Copying and verifying media'')\<rparr>)) (\<lambda>_.
     tx_bind (loadCheckpoints (mi_ID item)) (\<lambda>checkpoints.
     tx_bind (copyObjectBatch env item (byKey inventory) checkpoints (filter (\<lambda>ob. \<not> isPlaylist ob) objects)
       \<lparr>cq_total = length objects, cq_verifiedObjects = 0, cq_verifiedBytes = 0, cq_verifiedKeys = Map.empty,
        cq_pending = [], cq_persisted = False\<rparr>) (\<lambda>p.
     tx_bind (copyObjectBatch env item (byKey inventory) checkpoints (filter isPlaylist objects) p) (\<lambda>p.
     if finalSync then finalInventory item pre objects p else tx_return ()))))))"

lemma ends_PrefixInventory:
  "(\<And>e. Q (Inl e) w) \<Longrightarrow> (\<And>obs. set obs = set (walkInfos pre (sw_stores w m)) \<Longrightarrow> Q (Inr obs) w) \<Longrightarrow> ends (PrefixInventory m pre) Q w"
  unfolding PrefixInventory_def storeWalk_def by (auto intro!: ends_bind ends_select ends_return)

lemma ends_storeFor: "(\<And>e. Q (Inl e) w) \<Longrightarrow> Q (Inr ()) w \<Longrightarrow> ends (storeFor m) Q w"
  unfolding storeFor_def by (rule ends_stmt) (auto split: if_splits)

lemma ends_bind_inventory:
  assumes "\<And>e. Q (Inl e) w" "\<And>obs. set obs = set (walkInfos pre (sw_stores w m)) \<Longrightarrow> ends (f obs) Q w"
  shows "ends (tx_bind (PrefixInventory m pre) f) Q w"
  by (intro ends_bind ends_PrefixInventory) (use assms in auto)

lemma ends_bind_storeFor: "(\<And>e. Q (Inl e) w) \<Longrightarrow> ends (f ()) Q w \<Longrightarrow> ends (tx_bind (storeFor m) f) Q w"
  by (intro ends_bind ends_storeFor) auto

lemma safe_finalInventory:
  assumes item: "fromSource F I item" and below: "\<And>k. pre = mi_FileUUID item"
  shows "always (safeWith orig F I C) (finalInventory item pre objects p)"
proof -
  have del: "always (safeWith orig F I C) (storeDelete (mi_DestinationMountID item) key)" if "below (mi_FileUUID item) key" for key
    unfolding storeDelete_def
  proof (rule always_update)
    fix w assume w: "safeWith orig F I C w"
    show "safeWith orig F I C (updateStore (mi_DestinationMountID item) (AList.delete key) w)"
    proof (rule safeWith_stores [OF w])
      fix f k assume f: "isFile w f" "below (sf_UUID f) k"
      show "map_of (sw_stores (updateStore (mi_DestinationMountID item) (AList.delete key) w) (sf_StorageID f)) k =
          map_of (sw_stores w (sf_StorageID f)) k"
      proof (cases "k = key")
        case True
        with fromSource_file [OF item w f(1) _ that] f have "sf_StorageID f = mi_SourceMountID item" by simp
        moreover have "mi_SourceMountID item \<noteq> mi_DestinationMountID item" using item by (simp add: fromSource_def known_def)
        ultimately show ?thesis by simp
      qed (simp add: delete_conv')
    qed (auto simp: updateStore_def delete_conv' split: if_splits)
  qed
  have keys: "below (mi_FileUUID item) (oi_Key ob)" if "ob \<in> set (walkInfos pre b)" for ob b
    using that below by (auto simp: walkInfos_def infoOf_def)
  show ?thesis
  proof (rule always_ends)
    fix w assume w: "safeWith orig F I C w"
    show "ends (finalInventory item pre objects p) (\<lambda>_. safeWith orig F I C) w"
      unfolding finalInventory_def Let_def
      by (rule ends_bind, rule ends_PrefixInventory)
        (auto simp: w simp del: not_None_eq split: option.split intro!: ends_always [where I = "safeWith orig F I C", OF _ w]
          always_bind always_foreach always_if always_return always_fail always_reject del keys)
  qed
qed

lemma safe_copyRest:
  assumes "fromSource F I item" "honest env" "pre = mi_FileUUID item"
  shows "always (safeWith orig F I C) (copyRest env item pre inventory finalSync)"
proof (rule always_ends)
  fix w assume w: "safeWith orig F I C w"
  have keys: "below (mi_FileUUID item) (oi_Key ob)" if "ob \<in> set (walkInfos pre b)" for ob b
    using that assms(3) by (auto simp: walkInfos_def infoOf_def)
  have m: "modest (\<lambda>it. it\<lparr>mi_Status := (if finalSync then ItemVerifying else ItemCopying), mi_BytesTotal := t, mi_ObjectCount := n,
      mi_ProgressMessage := s\<rparr>)" for t n s
    by (simp add: modest_def keepsIdentity_def ident_def)
  have body: "always (safeWith orig F I C) (tx_bind (tx_reject (obs = []) ErrSourceEmpty) (\<lambda>_.
     tx_bind (updateActiveItem (mi_ID item) (\<lambda>it. it\<lparr>mi_Status := (if finalSync then ItemVerifying else ItemCopying),
       mi_BytesTotal := sum_list (map oi_Size obs), mi_ObjectCount := int (length obs),
       mi_ProgressMessage := (if finalSync then ''Final synchronization and verification'' else ''Copying and verifying media'')\<rparr>)) (\<lambda>_.
     tx_bind (loadCheckpoints (mi_ID item)) (\<lambda>checkpoints.
     tx_bind (copyObjectBatch env item (byKey inventory) checkpoints (filter (\<lambda>ob. \<not> isPlaylist ob) obs) p0) (\<lambda>p.
     tx_bind (copyObjectBatch env item (byKey inventory) checkpoints (filter isPlaylist obs) p) (\<lambda>p.
     if finalSync then finalInventory item pre obs p else tx_return ()))))))"
    if "\<And>ob. ob \<in> set obs \<Longrightarrow> below (mi_FileUUID item) (oi_Key ob)" for obs p0
    unfolding loadCheckpoints_def
    by (intro always_bind always_reject safe_updateActiveItem m always_select safe_copyObjectBatch [OF assms(1,2)]
        always_if safe_finalInventory [OF assms(1)] assms(3) always_return) (use that in simp_all)
  show "ends (copyRest env item pre inventory finalSync) (\<lambda>_. safeWith orig F I C) w"
    unfolding copyRest_def
    by (rule ends_bind_inventory, rule w, rule ends_always [OF body w]) (use keys in blast)
qed

lemma copyRest_complete:
  assumes item: "fromSource F I item" and pre: "pre = mi_FileUUID item" and w: "safeWith orig F I C w"
  shows "wp (copyRest env item pre inventory True) (\<lambda>_. complete orig F item) w"
proof -
  let ?s = "mi_SourceMountID item"
  have all: "complete orig F item w'"
    if obs: "set obs = set (walkInfos pre (sw_stores w ?s))"
      and there: "\<forall>ob \<in> set obs. map_of (sw_stores w' (mi_DestinationMountID item)) (oi_Key ob) \<noteq> None" for obs w'
    unfolding complete_def
  proof (intro allI impI)
    fix f k assume f: "isLiveFile F (mi_FileID item) f" and k: "below (sf_UUID f) k" "orig (sf_UUID f) k \<noteq> None"
    from f item have u: "sf_UUID f = mi_FileUUID item" "sf_StorageID f = ?s"
      by (auto simp: isLiveFile_def fromSource_def known_def sameVideo_def)
    have "isFile w f" using f w by (simp add: isLiveFile_def isFile_def safeWith_def)
    then have "intact orig w (sf_UUID f) ?s" using w u(2) by (auto simp: safeWith_def mediaSafe_def filesOK_def)
    with k have "map_of (sw_stores w ?s) k \<noteq> None" unfolding intact_def by (metis option.map_disc_iff)
    with k(1) u(1) pre have "k \<in> oi_Key ` set (walkInfos pre (sw_stores w ?s))"
      by (simp add: walk_keys map_of_eq_None_iff)
    with obs there show "map_of (sw_stores w' (mi_DestinationMountID item)) k \<noteq> None" by (metis imageE)
  qed
  have fin: "wp (if True then finalInventory item pre obs p else tx_return ()) (\<lambda>_. complete orig F item) w'"
    if "set obs = set (walkInfos pre (sw_stores w ?s))" "oi_Key ` set obs \<subseteq> dom (cq_verifiedKeys p)" for obs p w'
    unfolding if_True by (rule wp_mono [OF finalInventory_complete [OF that(2)]]) (rule all [OF that(1)])
  have two: "oi_Key ` set obs \<subseteq> dom (cq_verifiedKeys p')"
    if "verifiedFor p0 (filter (\<lambda>ob. \<not> isPlaylist ob) obs) p" "verifiedFor p (filter isPlaylist obs) p'" for obs p0 p p'
  proof
    fix k assume "k \<in> oi_Key ` set obs"
    then obtain ob where "ob \<in> set obs" "k = oi_Key ob" by blast
    with that show "k \<in> dom (cq_verifiedKeys p')" unfolding verifiedFor_def by (cases "isPlaylist ob") (simp_all, blast+)
  qed
  have batches: "wp (tx_bind (copyObjectBatch env item (byKey inventory) cps (filter (\<lambda>ob. \<not> isPlaylist ob) obs) p0) (\<lambda>p.
     tx_bind (copyObjectBatch env item (byKey inventory) cps (filter isPlaylist obs) p) (\<lambda>p.
     if True then finalInventory item pre obs p else tx_return ()))) (\<lambda>_. complete orig F item) w'"
    if "set obs = set (walkInfos pre (sw_stores w ?s))" for obs cps p0 w'
    by (rule wp_bind, rule wp_mono [OF copyObjectBatch_verified], rule wp_bind, rule wp_mono [OF copyObjectBatch_verified],
        rule fin [OF that], rule two)
  have inv: "wp (PrefixInventory ?s pre) (\<lambda>obs w'. set obs = set (walkInfos pre (sw_stores w ?s))) w"
    unfolding PrefixInventory_def by (intro wp_bind wp_storeWalk wp_return) simp
  show ?thesis
    unfolding copyRest_def
    by (rule wp_bind, rule wp_mono [OF inv], rule wp_skip, rule wp_skip, rule wp_skip, rule batches)
qed

text \<open>Taking the destination: only an empty one, or one already owned.\<close>

lemma takeOwnership_result:
  assumes item: "known F I item" and w: "safeWith orig F I [] w"
    and owned: "mi_DestinationOwned item \<Longrightarrow> destinationTrue orig w item"
    and obs: "set inventory = set (walkInfos (mi_FileUUID item) (sw_stores w (mi_DestinationMountID item)))"
  shows "ends (takeOwnership item inventory) (\<lambda>r w'. safeWith orig F I [] w' \<and> (r = Inr () \<longrightarrow> safeWith orig F I [item] w')) w"
proof -
  have F: "mw_files w = F" using w by (simp add: safeWith_def)
  have claim: "safeWith orig F I [item] w" if "destinationTrue orig w item"
    using that w by (simp add: safeWith_def)
  have weaken: "safeWith orig F I [item] w' \<Longrightarrow> safeWith orig F I [] w'" for w' by (simp add: safeWith_def)
  have empty: "destinationTrue orig w item" if "inventory = []"
  proof -
    have none: "below (mi_FileUUID item) k \<Longrightarrow> map_of (sw_stores w (mi_DestinationMountID item)) k = None" for k
      using obs that walk_keys [of "mi_FileUUID item" "sw_stores w (mi_DestinationMountID item)"]
      by (auto simp: map_of_eq_None_iff)
    show ?thesis
      using none item F by (auto simp: destinationTrue_def copiesTrue_def isFile_def known_def sameVideo_def)
  qed
  have own: "always (safeWith orig F I [item]) (updateActiveItem (mi_ID item) (\<lambda>it. it\<lparr>mi_DestinationOwned := True\<rparr>))"
    unfolding updateActiveItem_def
  proof (intro always_bind always_if always_first always_reject always_return safe_updateItems)
    show "keepsIdentity (\<lambda>it. it\<lparr>mi_DestinationOwned := True\<rparr>)" by (simp add: keepsIdentity_def ident_def)
    fix w it assume w: "safeWith orig F I [item] w" and it: "it \<in> set (mw_items w)" "notDeleted (mi_ID item) it"
    then have "ident it = ident item" using known_row [OF item w] by (simp add: notDeleted_def)
    with w it show "(mi_Status (it\<lparr>mi_DestinationOwned := True\<rparr>) = ItemDeleted \<longrightarrow> gone F (mi_FileID it)) \<and>
        (mi_DestinationOwned (it\<lparr>mi_DestinationOwned := True\<rparr>) \<longrightarrow> destinationTrue orig w it)"
      by (simp add: notDeleted_def safeWith_def ident_def destinationTrue_def)
  qed
  have take: "ends (tx_bind (clearCheckpoints (mi_ID item)) (\<lambda>_. updateActiveItem (mi_ID item) (\<lambda>it. it\<lparr>mi_DestinationOwned := True\<rparr>)))
      (\<lambda>r w'. safeWith orig F I [] w' \<and> (r = Inr () \<longrightarrow> safeWith orig F I [item] w')) w" if "inventory = []"
    by (rule ends_mono, rule ends_always [OF always_bind [OF safe_clearCheckpoints own] claim [OF empty [OF that]]])
      (auto intro: weaken)
  show ?thesis
    unfolding takeOwnership_def
    by (intro ends_if ends_return ends_bind ends_reject) (use take claim owned w in auto)
qed

lemma copyPrefix_rest:
  "copyPrefix env item file finalSync =
     tx_bind (storeFor (mi_SourceMountID item)) (\<lambda>_. tx_bind (storeFor (mi_DestinationMountID item)) (\<lambda>_.
     tx_bind (filePrefix (sf_UUID file)) (\<lambda>pre. tx_bind (PrefixInventory (mi_DestinationMountID item) pre) (\<lambda>inventory.
     tx_bind (takeOwnership item inventory) (\<lambda>_. copyRest env item pre inventory finalSync)))))"
  by (simp add: copyPrefix_def copyRest_def)

definition copied :: "(string \<Rightarrow> string \<rightharpoonup> string) \<Rightarrow> stored_file list \<Rightarrow> (nat \<times> nat \<times> string \<times> string \<times> string) list \<Rightarrow>
    item_row \<Rightarrow> bool \<Rightarrow> media_error txerr + unit \<Rightarrow> mig_world \<Rightarrow> bool" where
  "copied orig F I item finalSync r w \<longleftrightarrow> safeWith orig F I [] w \<and>
     (r = Inr () \<longrightarrow> safeWith orig F I [item] w \<and> (finalSync \<longrightarrow> complete orig F item w))"

lemma copyPrefix_result:
  assumes item: "known F I item" and w: "safeWith orig F I [] w" and env: "honest env"
    and owned: "mi_DestinationOwned item \<Longrightarrow> destinationTrue orig w item"
    and video: "isLiveFile F (mi_FileID item) file" "sf_StorageID file = mi_SourceMountID item"
  shows "ends (copyPrefix env item file finalSync) (copied orig F I item finalSync) w"
proof -
  have F: "mw_files w = F" using w by (simp add: safeWith_def)
  have u: "sf_UUID file = mi_FileUUID item" using video item by (auto simp: isLiveFile_def known_def sameVideo_def)
  have "validUUID (sf_UUID file)" using w video by (auto simp: safeWith_def mediaSafe_def filesOK_def isLiveFile_def)
  moreover have "f = file" if "f \<in> set F" "sf_ID f = mi_FileID item" for f
    using that video w by (auto simp: safeWith_def mediaSafe_def filesOK_def isLiveFile_def distinct_map inj_on_def)
  ultimately have src: "fromSource F I item" using item video(2) u by (auto simp: fromSource_def)
  have err: "copied orig F I item finalSync (Inl e) w" for e using w by (simp add: copied_def)
  have weaken: "safeWith orig F I [item] w' \<Longrightarrow> safeWith orig F I [] w'" for w' by (simp add: safeWith_def)
  have rest: "ends (copyRest env item (mi_FileUUID item) inventory finalSync) (copied orig F I item finalSync) w'"
    if s: "safeWith orig F I [item] w'" for inventory w'
  proof -
    have "ends (copyRest env item (mi_FileUUID item) inventory finalSync) (\<lambda>r w''. safeWith orig F I [item] w'' \<and>
        (finalSync \<longrightarrow> (\<forall>x. r = Inr x \<longrightarrow> complete orig F item w''))) w'"
    proof (cases finalSync)
      case True
      then have yes: "finalSync = True" by simp
      from ends_conj [OF ends_always [OF safe_copyRest [OF src env refl] s] iffD2 [OF ends_wp copyRest_complete [OF src refl s]]]
      have "ends (copyRest env item (mi_FileUUID item) inventory True) (\<lambda>r w''. safeWith orig F I [item] w'' \<and>
          (\<forall>x. r = Inr x \<longrightarrow> complete orig F item w'')) w'" .
      then show ?thesis unfolding yes by (rule ends_mono) simp
    qed (use ends_always [OF safe_copyRest [OF src env refl] s] in simp)
    then show ?thesis by (rule ends_mono) (auto simp: copied_def weaken)
  qed
  have own: "ends (tx_bind (takeOwnership item inventory) (\<lambda>_. copyRest env item (mi_FileUUID item) inventory finalSync))
      (copied orig F I item finalSync) w"
    if "set inventory = set (walkInfos (mi_FileUUID item) (sw_stores w (mi_DestinationMountID item)))" for inventory
    by (rule ends_bind, rule ends_mono [OF takeOwnership_result [OF item w owned that]])
      (auto simp: copied_def intro: rest)
  have pre: "ends (tx_bind (filePrefix (sf_UUID file)) g) (copied orig F I item finalSync) w"
    if "ends (g (mi_FileUUID item)) (copied orig F I item finalSync) w" for g
    using that u \<open>validUUID (sf_UUID file)\<close> by (simp add: filePrefix_def validUUID_def tx_bind_def tx_return_def ends_def)
  show ?thesis
    unfolding copyPrefix_rest
    by (rule ends_bind_storeFor, rule err, rule ends_bind_storeFor, rule err, rule pre, rule ends_bind_inventory, rule err, rule own)
qed

end
