(* ===== verification/MgStages.thy ===== *)
theory MgStages
  imports MgCopyDone
begin

text \<open>Every operation of the migration and the deleter keeps the media safe.\<close>

section \<open>From the files as they are\<close>

lemma mediaSafe_with: "mediaSafe orig w \<Longrightarrow> safeWith orig (mw_files w) (map ident (mw_items w)) [] w"
  by (simp add: safeWith_def)

lemma safeWith_media: "safeWith orig F I C w \<Longrightarrow> mediaSafe orig w"
  by (simp add: safeWith_def)

lemma always_media: "(\<And>F I. always (safeWith orig F I []) m) \<Longrightarrow> always (mediaSafe orig) m"
  unfolding always_def by (blast intro: mediaSafe_with safeWith_media)

lemma mediaSafe_files:
  assumes safe: "mediaSafe orig w" and same: "mw_items w' = mw_items w" "sw_stores w' = sw_stores w"
    and dist: "distinct (map sf_ID (mw_files w'))" "distinct (map sf_UUID (mw_files w'))"
    and rows: "\<And>f'. f' \<in> set (mw_files w') \<Longrightarrow> \<exists>f \<in> set (mw_files w). sf_ID f' = sf_ID f \<and> sf_UUID f' = sf_UUID f \<and>
      (\<not> sf_Deleted f' \<longrightarrow> \<not> sf_Deleted f \<and> intact orig w (sf_UUID f') (sf_StorageID f'))"
  shows "mediaSafe orig w'"
proof -
  have files: "filesOK orig w'"
    unfolding filesOK_def
  proof (intro conjI ballI allI impI dist)
    fix f assume "f \<in> set (mw_files w')"
    with rows safe show "validUUID (sf_UUID f)" by (force simp: mediaSafe_def filesOK_def)
  next
    fix f assume "isFile w' f"
    with rows show "intact orig w' (sf_UUID f) (sf_StorageID f)"
      by (fastforce simp: isFile_def intact_def same)
  qed
  have "itemOK orig w' it" if "it \<in> set (mw_items w)" for it
  proof -
    have it: "itemOK orig w it" using that safe by (simp add: mediaSafe_def)
    have "sameVideo (mw_files w') it" using it rows unfolding itemOK_def sameVideo_def by metis
    moreover have "gone (mw_files w') i" if "gone (mw_files w) i" for i using that rows unfolding gone_def by metis
    moreover have "destinationTrue orig w' it" if "destinationTrue orig w it"
      using that rows unfolding destinationTrue_def isFile_def copiesTrue_def same by metis
    ultimately show ?thesis using it by (simp add: itemOK_def)
  qed
  with safe files show ?thesis by (simp add: mediaSafe_def same)
qed

lemma mediaSafe_map_files:
  assumes safe: "mediaSafe orig w" and g: "\<And>f. sf_ID (g f) = sf_ID f \<and> sf_UUID (g f) = sf_UUID f \<and> (sf_Deleted f \<longrightarrow> sf_Deleted (g f))"
    and moved: "\<And>f. isFile w f \<Longrightarrow> \<not> sf_Deleted (g f) \<Longrightarrow> intact orig w (sf_UUID f) (sf_StorageID (g f))"
  shows "mediaSafe orig (w\<lparr>mw_files := map g (mw_files w)\<rparr>)"
proof (rule mediaSafe_files [OF safe])
  have "sf_ID \<circ> g = sf_ID" "sf_UUID \<circ> g = sf_UUID" using g by (simp_all add: fun_eq_iff)
  then show "distinct (map sf_ID (mw_files (w\<lparr>mw_files := map g (mw_files w)\<rparr>)))"
    "distinct (map sf_UUID (mw_files (w\<lparr>mw_files := map g (mw_files w)\<rparr>)))"
    using safe by (simp_all add: mediaSafe_def filesOK_def)
  fix f' assume "f' \<in> set (mw_files (w\<lparr>mw_files := map g (mw_files w)\<rparr>))"
  then obtain f where f: "f \<in> set (mw_files w)" "f' = g f" by auto
  with g [of f] moved [of f] show "\<exists>f \<in> set (mw_files w). sf_ID f' = sf_ID f \<and> sf_UUID f' = sf_UUID f \<and>
      (\<not> sf_Deleted f' \<longrightarrow> \<not> sf_Deleted f \<and> intact orig w (sf_UUID f') (sf_StorageID f'))"
    by (intro bexI [of _ f]) (auto simp: isFile_def)
qed simp_all

lemma mediaSafe_intact: "mediaSafe orig w \<Longrightarrow> isFile w f \<Longrightarrow> intact orig w (sf_UUID f) (sf_StorageID f)"
  by (simp add: mediaSafe_def filesOK_def)

section \<open>Copying\<close>

lemma ends_tx_check: "(\<And>e. Q (Inl e) w) \<Longrightarrow> Q (Inr ()) w \<Longrightarrow> ends tx_check Q w"
  by (rule ends_check)

lemma claims_of:
  assumes "safeWith orig F I [] w" "item \<in> set (mw_items w)"
  shows "safeWith orig F I (if mi_DestinationOwned item then [item] else []) w"
  using assms known_item(3) [OF assms] by (simp add: safeWith_def)

lemma copyPrefix_claimed:
  assumes "known F I item" "safeWith orig F I (if mi_DestinationOwned item then [item] else []) w" "honest env"
    "isLiveFile F (mi_FileID item) fl" "sf_StorageID fl = mi_SourceMountID item"
  shows "ends (copyPrefix env item fl finalSync) (copied orig F I item finalSync) w"
  by (rule copyPrefix_result [OF assms(1) _ assms(3) _ assms(4,5)]) (use assms(2) in \<open>auto simp: safeWith_def split: if_splits\<close>)

lemma safe_copyStage:
  assumes env: "honest env"
  shows "always (safeWith orig F I []) (copyStage env item)"
  unfolding copyStage_def
proof (rule safe_bind_item)
  fix w item assume w: "safeWith orig F I [] w" and item: "item \<in> set (mw_items w)"
  let ?S = "\<lambda>(_ :: media_error txerr + bool). safeWith orig F I []"
  let ?C = "if mi_DestinationOwned item then [item] else []"
  have k: "known F I item" by (rule known_item(1) [OF w item])
  have weaken: "safeWith orig F I ?C w' \<Longrightarrow> safeWith orig F I [] w'" for w' by (simp add: safeWith_def)
  have m: "modest (\<lambda>it. it\<lparr>mi_Status := ItemCopying,
             mi_CopyStartedAt := (case mi_CopyStartedAt it of None \<Rightarrow> Some (me_now env) | Some t \<Rightarrow> Some t),
             mi_ErrorCode := [], mi_ProgressMessage := ''Copying and verifying media''\<rparr>)"
    by (simp add: modest_def keepsIdentity_def ident_def)
  have clean: "always (safeWith orig F I []) (tx_bind (cleanupDeletedDestination item True) (\<lambda>_. tx_return False))"
    by (intro always_bind safe_cleanupDeletedDestination always_return)
  have copy: "ends (onDeleted (tx_bind (copyPrefix env item fl False) (\<lambda>_. tx_bind tx_check (\<lambda>_. tx_return True)))
       (tx_bind (cleanupDeletedDestination item True) (\<lambda>_. tx_return False))) ?S w'"
    if "safeWith orig F I ?C w'" "isLiveFile F (mi_FileID item) fl" "sf_StorageID fl = mi_SourceMountID item" for fl w'
    unfolding onDeleted_def
    by (rule ends_catch, rule ends_bind, rule ends_mono [OF copyPrefix_claimed [OF k that(1) env that(2,3)]])
      (auto simp: copied_def intro!: ends_bind ends_check ends_return ends_always [OF clean] ends_fail)
  have moving: "ends (skipDeleted (tx_bind (updateActiveItem (mi_ID item) (\<lambda>it. it\<lparr>mi_Status := ItemCopying,
             mi_CopyStartedAt := (case mi_CopyStartedAt it of None \<Rightarrow> Some (me_now env) | Some t \<Rightarrow> Some t),
             mi_ErrorCode := [], mi_ProgressMessage := ''Copying and verifying media''\<rparr>)) (\<lambda>_.
           tx_bind (tx_reject (sf_StorageID fl \<noteq> mi_SourceMountID item \<or> \<not> sf_Available fl) ErrMigrationConflict) (\<lambda>_.
           onDeleted (tx_bind (copyPrefix env item fl False) (\<lambda>_. tx_bind tx_check (\<lambda>_. tx_return True)))
             (tx_bind (cleanupDeletedDestination item True) (\<lambda>_. tx_return False))))) False) ?S w"
    if "isLiveFile F (mi_FileID item) fl" for fl
    unfolding skipDeleted_def
    by (rule ends_catch, rule ends_seq [OF safe_updateActiveItem [OF m] claims_of [OF w item]])
      (auto intro!: ends_bind ends_reject ends_mono [OF copy [OF _ that]] ends_return ends_fail intro: weaken)
  show "ends (if mi_Status item = ItemDeleted then tx_return False
     else tx_bind (fileOrDeleted item False) (\<lambda>file. case file of
       None \<Rightarrow> tx_return False
     | Some file \<Rightarrow>
         skipDeleted (tx_bind (updateActiveItem (mi_ID item) (\<lambda>it. it\<lparr>mi_Status := ItemCopying,
             mi_CopyStartedAt := (case mi_CopyStartedAt it of None \<Rightarrow> Some (me_now env) | Some t \<Rightarrow> Some t),
             mi_ErrorCode := [], mi_ProgressMessage := ''Copying and verifying media''\<rparr>)) (\<lambda>_.
           tx_bind (tx_reject (sf_StorageID file \<noteq> mi_SourceMountID item \<or> \<not> sf_Available file) ErrMigrationConflict) (\<lambda>_.
           onDeleted (tx_bind (copyPrefix env item file False) (\<lambda>_. tx_bind tx_check (\<lambda>_. tx_return True)))
             (tx_bind (cleanupDeletedDestination item True) (\<lambda>_. tx_return False))))) False)) ?S w"
  proof (rule ends_if)
    show "ends (tx_return False) ?S w" by (rule ends_return) (rule w)
    show "ends (tx_bind (fileOrDeleted item False) (\<lambda>file. case file of
       None \<Rightarrow> tx_return False
     | Some file \<Rightarrow>
         skipDeleted (tx_bind (updateActiveItem (mi_ID item) (\<lambda>it. it\<lparr>mi_Status := ItemCopying,
             mi_CopyStartedAt := (case mi_CopyStartedAt it of None \<Rightarrow> Some (me_now env) | Some t \<Rightarrow> Some t),
             mi_ErrorCode := [], mi_ProgressMessage := ''Copying and verifying media''\<rparr>)) (\<lambda>_.
           tx_bind (tx_reject (sf_StorageID file \<noteq> mi_SourceMountID item \<or> \<not> sf_Available file) ErrMigrationConflict) (\<lambda>_.
           onDeleted (tx_bind (copyPrefix env item file False) (\<lambda>_. tx_bind tx_check (\<lambda>_. tx_return True)))
             (tx_bind (cleanupDeletedDestination item True) (\<lambda>_. tx_return False))))) False)) ?S w"
      by (rule ends_bind, rule ends_mono [OF fileOrDeleted_result [OF k w]])
        (use moving in \<open>auto intro!: ends_return split: option.split\<close>)
  qed
qed

section \<open>The cutover\<close>

lemma ends_transaction:
  assumes "\<And>e. Q (Inl e) w" "wp m (\<lambda>x. Q (Inr x)) w"
  shows "ends (transaction m) Q w"
  unfolding ends_def
proof
  fix fs
  obtain r w' fs' where run: "transaction m (w, fs) = (r, w', fs')" by (cases "transaction m (w, fs)") auto
  from transaction_cases [OF this assms(2)] show "Q (fst (transaction m (w, fs))) (fst (snd (transaction m (w, fs))))"
    using assms(1) run by (metis fst_conv snd_conv)
qed

lemma always_media_modest: "modest f \<Longrightarrow> always (mediaSafe orig) (updateItems p f)"
  by (rule always_media) (rule safe_updateModest)

lemma cutoverBody_safe:
  assumes w: "safeWith orig F I [item] w" and done': "complete orig F item w"
  shows "wp (cutoverBody env item pool (mi_FileID item)) (\<lambda>_. mediaSafe orig) w"
proof -
  let ?g = "\<lambda>f. if onSource item (mi_FileID item) f then cutoverFile item pool f else f"
  have files: "mediaSafe orig (w\<lparr>mw_files := map ?g (mw_files w)\<rparr>)"
  proof (rule mediaSafe_map_files)
    show "mediaSafe orig w" using w by (rule safeWith_media)
    show "sf_ID (?g f) = sf_ID f \<and> sf_UUID (?g f) = sf_UUID f \<and> (sf_Deleted f \<longrightarrow> sf_Deleted (?g f))" for f
      by (simp add: cutoverFile_def)
    fix f assume f: "isFile w f"
    show "intact orig w (sf_UUID f) (sf_StorageID (?g f))"
    proof (cases "onSource item (mi_FileID item) f")
      case True
      then have i: "sf_ID f = mi_FileID item" by (simp add: onSource_def)
      have live: "isLiveFile F (mi_FileID item) f" using f w i by (simp add: isLiveFile_def isFile_def safeWith_def)
      have c: "copiesTrue orig w (sf_UUID f) (mi_DestinationMountID item)"
        using w f i by (simp add: safeWith_def destinationTrue_def)
      have "map_option ob_Body (map_of (sw_stores w (mi_DestinationMountID item)) k) = orig (sf_UUID f) k" if "below (sf_UUID f) k" for k
      proof (cases "map_of (sw_stores w (mi_DestinationMountID item)) k")
        case None
        with done' [unfolded complete_def, rule_format, OF live that] show ?thesis by (cases "orig (sf_UUID f) k") auto
      qed (use c that in \<open>simp add: copiesTrue_def\<close>)
      with True show ?thesis by (simp add: intact_def cutoverFile_def)
    qed (use f w mediaSafe_intact safeWith_media in auto)
  qed
  have m: "modest (\<lambda>it. it\<lparr>mi_Status := ItemCleanupPending, mi_CutoverAt := Some (me_now env),
       mi_ProgressMessage := ''Destination active; original retained'', mi_ErrorCode := []\<rparr>)"
    by (simp add: modest_def keepsIdentity_def ident_def)
  have rest: "always (mediaSafe orig) (tx_bind (tx_reject (n \<noteq> 1) ErrMigrationConflict) (\<lambda>_.
     tx_bind (updateItems (notDeleted (mi_ID item)) (\<lambda>it. it\<lparr>mi_Status := ItemCleanupPending, mi_CutoverAt := Some (me_now env),
       mi_ProgressMessage := ''Destination active; original retained'', mi_ErrorCode := []\<rparr>)) (\<lambda>n.
     tx_bind (tx_reject (n \<noteq> 1) ErrItemDeleted) (\<lambda>_. clearCheckpoints (mi_ID item)))))" for n
    by (intro always_bind always_reject always_media_modest m always_media safe_clearCheckpoints)
  show ?thesis
    unfolding cutoverBody_def
    by (rule wp_bind, rule wp_stmt) (use always_wp [OF rest files] in \<open>auto simp: update_where_def simp del: One_nat_def\<close>)
qed

lemma safe_cutover:
  assumes k: "known F I item" and w: "safeWith orig F I [item] w" and done': "complete orig F item w"
  shows "ends (cutover env item pool (mi_FileID item)) (\<lambda>_. mediaSafe orig) w"
proof -
  have safe: "mediaSafe orig w" and F: "mw_files w = F" using w by (simp_all add: safeWith_def)
  have clean: "ends (cleanupDeletedDestination item True) (\<lambda>_. mediaSafe orig) w"
    by (rule ends_always [OF always_media [OF safe_cleanupDeletedDestination] safe])
  have mark: "ends (tx_bind (markItemDeleted (mi_ID item)) (\<lambda>_. cleanupDeletedDestination item True)) (\<lambda>_. mediaSafe orig) w"
    if "gone F (mi_FileID item)"
    by (rule ends_mono [OF ends_always [OF always_bind [OF safe_markItemDeleted [OF k that] safe_cleanupDeletedDestination] w]])
      (rule safeWith_media)
  have g1: "gone F (mi_FileID item)" if "fileUnscoped (mi_FileID item) w = None"
    using fileUnscoped_gone [OF that] F by simp
  have g2: "gone F (mi_FileID item)" if "fileUnscoped (mi_FileID item) w = Some f" "sf_Deleted f" for f
    using fileUnscoped_Some [OF that(1)] that(2) safe F
    by (auto simp: gone_def mediaSafe_def filesOK_def distinct_map inj_on_def)
  have find: "ends (tx_try (tx_first (fileUnscoped (mi_FileID item)))) (\<lambda>r w'. \<exists>r'. r = Inr r' \<and> w' = w \<and>
      ((case r' of Inl e' \<Rightarrow> e' = RecordNotFound | Inr current \<Rightarrow> sf_Deleted current) \<longrightarrow> gone F (mi_FileID item))) w"
    by (rule ends_try, rule ends_first) (use g1 g2 in auto)
  show ?thesis
    unfolding cutover_def
  proof (rule ends_catch, rule ends_transaction)
    show "wp (cutoverBody env item pool (mi_FileID item)) (\<lambda>x w'. (\<forall>y. Inr x = Inr y \<longrightarrow> mediaSafe orig w') \<and>
        (\<forall>e. Inr x = Inl e \<longrightarrow> ends (if e = App ErrItemDeleted then cleanupDeletedDestination item True
       else if e = App ErrMigrationConflict
       then tx_bind (tx_try (tx_first (fileUnscoped (mi_FileID item)))) (\<lambda>r.
         if (case r of Inl e' \<Rightarrow> e' = RecordNotFound | Inr current \<Rightarrow> sf_Deleted current)
         then tx_bind (markItemDeleted (mi_ID item)) (\<lambda>_. cleanupDeletedDestination item True)
         else case r of Inl e' \<Rightarrow> tx_fail e' | Inr _ \<Rightarrow> tx_fail e)
       else tx_fail e) (\<lambda>_. mediaSafe orig) w')) w"
      by (rule wp_mono [OF cutoverBody_safe [OF w done']]) simp
  next
    fix e
    have "ends (tx_bind (tx_try (tx_first (fileUnscoped (mi_FileID item)))) (\<lambda>r.
         if (case r of Inl e' \<Rightarrow> e' = RecordNotFound | Inr current \<Rightarrow> sf_Deleted current)
         then tx_bind (markItemDeleted (mi_ID item)) (\<lambda>_. cleanupDeletedDestination item True)
         else case r of Inl e' \<Rightarrow> tx_fail e' | Inr _ \<Rightarrow> tx_fail e)) (\<lambda>_. mediaSafe orig) w"
      by (rule ends_bind, rule ends_mono [OF find]) (auto intro!: mark ends_fail safe split: sum.split)
    with clean safe show "(\<forall>y. Inl e = Inr y \<longrightarrow> mediaSafe orig w) \<and>
        (\<forall>e'. Inl e = Inl e' \<longrightarrow> ends (if e' = App ErrItemDeleted then cleanupDeletedDestination item True
       else if e' = App ErrMigrationConflict
       then tx_bind (tx_try (tx_first (fileUnscoped (mi_FileID item)))) (\<lambda>r.
         if (case r of Inl e' \<Rightarrow> e' = RecordNotFound | Inr current \<Rightarrow> sf_Deleted current)
         then tx_bind (markItemDeleted (mi_ID item)) (\<lambda>_. cleanupDeletedDestination item True)
         else case r of Inl e' \<Rightarrow> tx_fail e' | Inr _ \<Rightarrow> tx_fail e')
       else tx_fail e') (\<lambda>_. mediaSafe orig) w)"
      by (auto intro: ends_fail)
  qed
qed

text \<open>Advancing the cache generation changes neither where a video is nor what it is.\<close>

lemma bump_keeps:
  assumes w: "safeWith orig F I [item] w" and done': "complete orig F item w"
  shows "\<exists>F'. safeWith orig F' I [item] (bumpCacheVersion i w) \<and> complete orig F' item (bumpCacheVersion i w) \<and> (known F I item \<longrightarrow> known F' I item)"
proof -
  let ?b = "\<lambda>f. f\<lparr>sf_CacheVersion := Some (case sf_CacheVersion f of None \<Rightarrow> 1 | Some v \<Rightarrow> v + 1)\<rparr>"
  let ?g = "\<lambda>f. if sf_ID f = i then ?b f else f"
  have g: "sf_ID (?g f) = sf_ID f" "sf_UUID (?g f) = sf_UUID f" "sf_Deleted (?g f) = sf_Deleted f" "sf_StorageID (?g f) = sf_StorageID f" for f
    by simp_all
  have b: "bumpCacheVersion i w = w\<lparr>mw_files := map ?g (mw_files w)\<rparr>"
    by (simp add: bumpCacheVersion_def update_where_def)
  have safe: "mediaSafe orig w" and F: "mw_files w = F" using w by (simp_all add: safeWith_def)
  have "mediaSafe orig (bumpCacheVersion i w)"
    unfolding b by (rule mediaSafe_map_files [OF safe]) (use mediaSafe_intact [OF safe] in \<open>simp_all add: g\<close>)
  moreover have "destinationTrue orig (bumpCacheVersion i w) item"
    using w by (auto simp: b safeWith_def destinationTrue_def isFile_def copiesTrue_def)
  moreover have "complete orig (map ?g F) item (bumpCacheVersion i w)"
    using done' by (auto simp: b complete_def isLiveFile_def)
  moreover have "known (map ?g F) I item" if "known F I item"
    using that by (auto simp: known_def sameVideo_def)
  moreover have "map ident (mw_items (bumpCacheVersion i w)) = I" using w by (simp add: b safeWith_def)
  ultimately show ?thesis
    by (intro exI [of _ "map ?g F"]) (simp add: safeWith_def b F)
qed

lemma safe_finalStage:
  assumes env: "honest env"
  shows "always (mediaSafe orig) (finalStage env item pool)"
proof (rule always_ends)
  fix w assume safe: "mediaSafe orig w"
  define F I where "F = mw_files w" and "I = map ident (mw_items w)"
  have w: "safeWith orig F I [] w" using mediaSafe_with [OF safe] by (simp add: F_def I_def)
  have stage: "ends (if mi_Status item = ItemDeleted then cleanupDeletedDestination item True
     else tx_bind (fileOrDeleted item True) (\<lambda>file. case file of
       None \<Rightarrow> tx_return ()
     | Some file \<Rightarrow>
         tx_bind (tx_reject (sf_StorageID file \<noteq> mi_SourceMountID item \<or> \<not> sf_Available file) ErrMigrationConflict) (\<lambda>_.
         onDeleted (tx_bind (copyPrefix env item file True) (\<lambda>_. tx_bind tx_check (\<lambda>_.
           tx_bind (tx_update (bumpCacheVersion (sf_ID file))) (\<lambda>_. cutover env item pool (sf_ID file)))))
           (cleanupDeletedDestination item True)))) (\<lambda>_. mediaSafe orig) w"
    if item: "item \<in> set (mw_items w)" for item
  proof -
    have k: "known F I item" by (rule known_item(1) [OF w item])
    have clean: "ends (cleanupDeletedDestination item True) (\<lambda>_. mediaSafe orig) w'" if "mediaSafe orig w'" for w'
      by (rule ends_always [OF always_media [OF safe_cleanupDeletedDestination] that])
    have cut: "ends (tx_bind (tx_update (bumpCacheVersion i)) (\<lambda>_. cutover env item pool (mi_FileID item))) (\<lambda>_. mediaSafe orig) w'"
      if c: "safeWith orig F I [item] w'" "complete orig F item w'" for w' i
    proof -
      from bump_keeps [OF c] k obtain F' where F': "safeWith orig F' I [item] (bumpCacheVersion i w')"
        "complete orig F' item (bumpCacheVersion i w')" "known F' I item" by blast
      show ?thesis
        by (intro ends_bind ends_update) (use safe_cutover [OF F'(3,1,2)] safeWith_media [OF c(1)] in auto)
    qed
    have copy: "ends (tx_bind (copyPrefix env item fl True) (\<lambda>_. tx_bind tx_check (\<lambda>_.
           tx_bind (tx_update (bumpCacheVersion (sf_ID fl))) (\<lambda>_. cutover env item pool (sf_ID fl))))) (\<lambda>_. mediaSafe orig) w"
      if "isLiveFile F (mi_FileID item) fl" "sf_StorageID fl = mi_SourceMountID item" for fl
    proof -
      have "sf_ID fl = mi_FileID item" using that(1) by (simp add: isLiveFile_def)
      then show ?thesis
        by (simp only:, intro ends_bind ends_mono [OF copyPrefix_claimed [OF k claims_of [OF w item] env that]])
          (auto simp: copied_def intro!: ends_bind [OF ends_tx_check] cut dest: safeWith_media)
    qed
    have all: "ends (tx_bind (tx_reject (sf_StorageID fl \<noteq> mi_SourceMountID item \<or> \<not> sf_Available fl) ErrMigrationConflict) (\<lambda>_.
         onDeleted (tx_bind (copyPrefix env item fl True) (\<lambda>_. tx_bind tx_check (\<lambda>_.
           tx_bind (tx_update (bumpCacheVersion (sf_ID fl))) (\<lambda>_. cutover env item pool (sf_ID fl)))))
           (cleanupDeletedDestination item True))) (\<lambda>_. mediaSafe orig) w"
      if "isLiveFile F (mi_FileID item) fl" for fl
      unfolding onDeleted_def
      by (intro ends_bind ends_reject)
        (auto intro!: safe ends_catch ends_mono [OF copy [OF that]] clean ends_fail)
    show ?thesis
      by (rule ends_if, rule clean [OF safe], rule ends_bind, rule ends_mono [OF fileOrDeleted_result [OF k w]])
        (use all safeWith_media in \<open>auto intro!: ends_return split: option.split\<close>)
  qed
  show "ends (finalStage env item pool) (\<lambda>_. mediaSafe orig) w"
    unfolding finalStage_def
    by (rule ends_bind, rule ends_first) (use stage safe in \<open>auto dest!: itemById_Some split del: if_split\<close>)
qed

lemma safe_migrateItem:
  assumes env: "honest env"
  shows "always (mediaSafe orig) (migrateItem env canceled migration item)"
proof -
  have m: "modest (\<lambda>it. if canceled
        then it\<lparr>mi_Status := ItemPending, mi_ErrorCode := [], mi_ProgressMessage := ''Paused at a safe checkpoint''\<rparr>
        else it\<lparr>mi_Status := ItemFailed, mi_ErrorCode := ''copy_failed''\<rparr>)"
    by (simp add: modest_def keepsIdentity_def ident_def)
  show ?thesis
    unfolding migrateItem_def noteItemError_def
    by (intro always_if always_return always_onError always_bind always_media_modest [OF m] safe_finalStage [OF env]
        always_media [OF safe_copyStage [OF env]])
qed

section \<open>After the cutover\<close>

lemma skipDeleted_always: "always J m \<Longrightarrow> always J (skipDeleted m x)"
  unfolding skipDeleted_def by (intro always_catch always_if always_return always_fail)

lemma safe_removeOriginal:
  assumes "elsewhere (mi_SourceMountID item) (mi_FileUUID item) F"
  shows "always (safeWith orig F I C) (removeOriginal env item)"
proof -
  have m1: "modest (\<lambda>it. it\<lparr>mi_Status := ItemCleaning, mi_ProgressMessage := s\<rparr>)" for s
    by (simp add: modest_def keepsIdentity_def ident_def)
  have m2: "modest (\<lambda>it. it\<lparr>mi_Status := ItemCleaned, mi_CleanedAt := t, mi_ReservationKey := [], mi_ProgressMessage := s, mi_ErrorCode := []\<rparr>)" for t s
    by (simp add: modest_def keepsIdentity_def ident_def)
  have "always (safeWith orig F I C) (tx_bind (filePrefix (mi_FileUUID item)) (\<lambda>pre.
     tx_bind (updateActiveItem (mi_ID item) (\<lambda>it. it\<lparr>mi_Status := ItemCleaning, mi_ProgressMessage := ''Removing original copy''\<rparr>)) (\<lambda>_.
     tx_bind (deletePrefix (mi_SourceMountID item) pre) (\<lambda>_.
     updateActiveItem (mi_ID item) (\<lambda>it. it\<lparr>mi_Status := ItemCleaned, mi_CleanedAt := Some (me_now env), mi_ReservationKey := [],
       mi_ProgressMessage := ''Original removed'', mi_ErrorCode := []\<rparr>)))))"
  proof (rule safe_filePrefix)
    assume "validUUID (mi_FileUUID item)"
    then show "always (safeWith orig F I C) (tx_bind (updateActiveItem (mi_ID item) (\<lambda>it. it\<lparr>mi_Status := ItemCleaning,
       mi_ProgressMessage := ''Removing original copy''\<rparr>)) (\<lambda>_.
     tx_bind (deletePrefix (mi_SourceMountID item) (mi_FileUUID item)) (\<lambda>_.
     updateActiveItem (mi_ID item) (\<lambda>it. it\<lparr>mi_Status := ItemCleaned, mi_CleanedAt := Some (me_now env), mi_ReservationKey := [],
       mi_ProgressMessage := ''Original removed'', mi_ErrorCode := []\<rparr>))))"
      by (intro always_bind safe_updateActiveItem m1 m2 always_deletePrefix assms)
  qed
  then show ?thesis unfolding removeOriginal_def by (rule always_bind [OF safe_storeFor])
qed

end
