(* ===== verification/MgRest.thy ===== *)
theory MgRest
  imports MgStages
begin

text \<open>What follows the cutover, what undoes a migration, and the deleter keep the media safe.\<close>

section \<open>Where a loaded item's video is\<close>

lemma known_elsewhere:
  assumes k: "known F I item" and dist: "distinct (map sf_ID F)" and f: "f \<in> set F" "sf_ID f = mi_FileID item"
    and at: "\<not> sf_Deleted f \<Longrightarrow> sf_StorageID f \<noteq> m"
  shows "elsewhere m (mi_FileUUID item) F"
  unfolding elsewhere_def
proof (intro ballI impI)
  fix f' assume f': "f' \<in> set F" "\<not> sf_Deleted f'" "sf_UUID f' = mi_FileUUID item"
  with k have "sf_ID f' = mi_FileID item" by (simp add: known_def sameVideo_def)
  with dist f f'(1) have "f' = f" by (auto simp: distinct_map inj_on_def)
  with f'(2) at show "sf_StorageID f' \<noteq> m" by simp
qed

lemma unscopedOrNone_result:
  "ends (unscopedOrNone i) (\<lambda>r w'. w' = w \<and> (r = Inr None \<longrightarrow> gone (mw_files w) i) \<and>
     (\<forall>f. r = Inr (Some f) \<longrightarrow> f \<in> set (mw_files w) \<and> sf_ID f = i)) w"
  unfolding unscopedOrNone_def
  by (rule ends_catch, rule ends_bind, rule ends_first)
    (auto intro!: ends_return ends_fail simp: fileUnscoped_gone fileUnscoped_Some)

lemma fileOrNone_result:
  "ends (fileOrNone i) (\<lambda>r w'. w' = w \<and> (r = Inr None \<longrightarrow> gone (mw_files w) i) \<and>
     (\<forall>f. r = Inr (Some f) \<longrightarrow> f \<in> set (mw_files w) \<and> sf_ID f = i \<and> \<not> sf_Deleted f)) w"
  unfolding fileOrNone_def
  by (rule ends_catch, rule ends_bind, rule ends_first)
    (auto intro!: ends_return ends_fail simp: fileById_gone fileById_Some)

section \<open>Removing the originals\<close>

lemma safe_fileEncodingActive: "always J (fileEncodingActive i)"
  unfolding fileEncodingActive_def by (intro always_bind always_if tx_always)

lemma safe_checkOriginal:
  assumes w: "safeWith orig F I C w"
  shows "ends (checkOriginal item file) (\<lambda>r w'. safeWith orig F I C w' \<and> (r = Inr () \<longrightarrow> sf_StorageID file = mi_DestinationMountID item)) w"
proof -
  have m: "modest (\<lambda>it. it\<lparr>mi_Status := ItemCleanupPending, mi_ProgressMessage := s\<rparr>)" for s
    by (simp add: modest_def keepsIdentity_def ident_def)
  have rest: "always (safeWith orig F I C) (tx_bind (fileEncodingActive (mi_FileID item)) (\<lambda>encoding.
     if encoding
     then tx_bind (skipDeleted (updateActiveItem (mi_ID item) (\<lambda>it. it\<lparr>mi_Status := ItemCleanupPending,
         mi_ProgressMessage := ''Waiting for video encoding to finish''\<rparr>)) ()) (\<lambda>_. tx_fail (App ErrEncodingActive))
     else tx_return ()))"
    by (intro always_bind always_if safe_fileEncodingActive skipDeleted_always safe_updateActiveItem m always_return always_fail)
  show ?thesis
    unfolding checkOriginal_def
    by (rule ends_bind, rule ends_reject) (use w in \<open>auto intro: ends_mono [OF ends_always [OF rest w]]\<close>)
qed

lemma safe_cleanupItem: "always (safeWith orig F I C) (cleanupItem env item0)"
  unfolding cleanupItem_def
proof (intro always_bind [OF always_check] always_if always_return safe_bind_item)
  fix w item assume w: "safeWith orig F I C w" and item: "item \<in> set (mw_items w)"
  have k: "known F I item" by (rule known_item(1) [OF w item])
  have F: "mw_files w = F" and dist: "distinct (map sf_ID F)" using w by (auto simp: safeWith_def mediaSafe_def filesOK_def)
  have remove: "always (safeWith orig F I C) (skipDeleted (removeOriginal env item) ())"
    if "elsewhere (mi_SourceMountID item) (mi_FileUUID item) F"
    by (rule skipDeleted_always) (rule safe_removeOriginal [OF that])
  have none: "ends (tx_bind (case fo of None \<Rightarrow> tx_return () | Some f \<Rightarrow> checkOriginal item f) (\<lambda>_.
         skipDeleted (removeOriginal env item) ())) (\<lambda>_. safeWith orig F I C) w"
    if "fo = None \<Longrightarrow> gone F (mi_FileID item)" "\<And>f. fo = Some f \<Longrightarrow> f \<in> set F \<and> sf_ID f = mi_FileID item" for fo
  proof (cases fo)
    case None
    with that(1) k have "elsewhere (mi_SourceMountID item) (mi_FileUUID item) F" by (auto intro: gone_elsewhere simp: known_def)
    from ends_always [OF remove [OF this] w] None show ?thesis by (auto intro!: ends_bind ends_return)
  next
    case (Some f)
    have e: "elsewhere (mi_SourceMountID item) (mi_FileUUID item) F" if "sf_StorageID f = mi_DestinationMountID item"
      by (rule known_elsewhere [OF k dist, of f]) (use \<open>\<And>f. fo = Some f \<Longrightarrow> _\<close> [OF Some] that k in \<open>auto simp: known_def\<close>)
    show ?thesis
      unfolding Some option.case
      by (rule ends_bind, rule ends_mono [OF safe_checkOriginal [OF w]]) (auto intro!: ends_always [OF remove] e)
  qed
  show "ends (if mi_Status item \<in> settledStatuses then tx_return ()
       else tx_bind (unscopedOrNone (mi_FileID item)) (\<lambda>file.
         tx_bind (case file of None \<Rightarrow> tx_return () | Some f \<Rightarrow> checkOriginal item f) (\<lambda>_.
         skipDeleted (removeOriginal env item) ()))) (\<lambda>_. safeWith orig F I C) w"
    by (rule ends_if, rule ends_return, rule w, rule ends_bind, rule ends_mono [OF unscopedOrNone_result])
      (use none w F in auto)
qed

section \<open>Undoing a canceled copy\<close>

lemma safe_discardCopy:
  assumes "elsewhere (mi_DestinationMountID item) (mi_FileUUID item) F"
  shows "always (safeWith orig F I C) (discardCopy item)"
proof -
  have m: "modest (\<lambda>it. it\<lparr>mi_Status := ItemCanceled, mi_ReservationKey := [],
         mi_DestinationOwned := False, mi_BytesCopied := 0, mi_ObjectsVerified := 0, mi_ProgressMessage := s\<rparr>)" for s
    by (simp add: modest_def keepsIdentity_def ident_def)
  have del: "always (safeWith orig F I C) (tx_bind (filePrefix (mi_FileUUID item)) (\<lambda>pre. deletePrefix (mi_DestinationMountID item) pre))"
    by (rule safe_filePrefix) (rule always_deletePrefix [OF _ assms])
  show ?thesis
    unfolding discardCopy_def
    by (intro always_bind always_if safe_storeFor del always_return skipDeleted_always safe_transaction safe_updateActiveItem m safe_clearCheckpoints)
qed

lemma safe_cleanupCanceledItem: "always (safeWith orig F I C) (cleanupCanceledItem item0)"
  unfolding cleanupCanceledItem_def
proof (intro always_bind [OF always_check] safe_bind_item)
  fix w item assume w: "safeWith orig F I C w" and item: "item \<in> set (mw_items w)"
  have k: "known F I item" by (rule known_item(1) [OF w item])
  have F: "mw_files w = F" and dist: "distinct (map sf_ID F)" using w by (auto simp: safeWith_def mediaSafe_def filesOK_def)
  have m: "modest (\<lambda>it. it\<lparr>mi_Status := ItemOriginalKept, mi_ReservationKey := [], mi_ProgressMessage := s\<rparr>)" for s
    by (simp add: modest_def keepsIdentity_def ident_def)
  have keep: "always (safeWith orig F I C) (skipDeleted (updateActiveItem (mi_ID item) (\<lambda>it. it\<lparr>mi_Status := ItemOriginalKept, mi_ReservationKey := [],
           mi_ProgressMessage := ''Destination remains active; original retained''\<rparr>)) ())"
    by (intro skipDeleted_always safe_updateActiveItem m)
  have branch: "ends (case fo of
       None \<Rightarrow> discardCopy item
     | Some f \<Rightarrow>
         if sf_StorageID f = mi_DestinationMountID item \<and> mi_CutoverAt item \<noteq> None
         then skipDeleted (updateActiveItem (mi_ID item) (\<lambda>it. it\<lparr>mi_Status := ItemOriginalKept, mi_ReservationKey := [],
           mi_ProgressMessage := ''Destination remains active; original retained''\<rparr>)) ()
         else if sf_StorageID f \<noteq> mi_SourceMountID item then tx_fail (App ErrMigrationConflict)
         else discardCopy item) (\<lambda>_. safeWith orig F I C) w"
    if "fo = None \<Longrightarrow> gone F (mi_FileID item)" "\<And>f. fo = Some f \<Longrightarrow> f \<in> set F \<and> sf_ID f = mi_FileID item \<and> \<not> sf_Deleted f" for fo
  proof (cases fo)
    case None
    with that(1) k have "elsewhere (mi_DestinationMountID item) (mi_FileUUID item) F" by (auto intro: gone_elsewhere simp: known_def)
    from ends_always [OF safe_discardCopy [OF this] w] None show ?thesis by simp
  next
    case (Some f)
    have "elsewhere (mi_DestinationMountID item) (mi_FileUUID item) F" if "sf_StorageID f = mi_SourceMountID item"
      by (rule known_elsewhere [OF k dist, of f]) (use \<open>\<And>f. fo = Some f \<Longrightarrow> _\<close> [OF Some] that k in \<open>auto simp: known_def\<close>)
    then show ?thesis
      unfolding Some option.case
      by (intro ends_if ends_fail) (auto intro: w ends_always [OF keep w] ends_always [OF safe_discardCopy w])
  qed
  show "ends (if mi_Status item = ItemDeleted then clearCheckpoints (mi_ID item)
     else tx_bind (fileOrNone (mi_FileID item)) (\<lambda>file. case file of
       None \<Rightarrow> discardCopy item
     | Some f \<Rightarrow>
         if sf_StorageID f = mi_DestinationMountID item \<and> mi_CutoverAt item \<noteq> None
         then skipDeleted (updateActiveItem (mi_ID item) (\<lambda>it. it\<lparr>mi_Status := ItemOriginalKept, mi_ReservationKey := [],
           mi_ProgressMessage := ''Destination remains active; original retained''\<rparr>)) ()
         else if sf_StorageID f \<noteq> mi_SourceMountID item then tx_fail (App ErrMigrationConflict)
         else discardCopy item)) (\<lambda>_. safeWith orig F I C) w"
    by (rule ends_if, rule ends_always [OF safe_clearCheckpoints w], rule ends_bind, rule ends_mono [OF fileOrNone_result])
      (use branch w F in auto)
qed

section \<open>Preparing a retry and keeping the originals\<close>

lemma safe_tx_foreach: "(\<And>x. x \<in> set xs \<Longrightarrow> always J (f x)) \<Longrightarrow> always J (tx_foreach f xs)"
  by (induction xs) (auto intro: always_bind always_return)

lemma safe_prepareItem:
  assumes k: "known F I item"
  shows "always (safeWith orig F I C) (prepareItem item)"
proof (rule always_ends)
  fix w assume w: "safeWith orig F I C w"
  have F: "mw_files w = F" and dist: "distinct (map sf_ID F)" using w by (auto simp: safeWith_def mediaSafe_def filesOK_def)
  have m: "modest (retriedRow item s)" if "retryStatus item f = Some s" for s f
    using that by (auto simp: modest_def keepsIdentity_def ident_def retriedRow_def retryStatus_def Let_def split: if_splits)
  have row: "always (safeWith orig F I C) (tx_bind (tx_catch (updateItems (notDeleted (mi_ID item)) (retriedRow item s))
                (\<lambda>e. if e = DuplicatedKey then tx_fail (App ErrMigrationConflict) else tx_fail e)) (\<lambda>_. tx_return ()))"
    if "retryStatus item f = Some s" for s f
    by (intro always_bind always_catch always_if always_fail always_return safe_updateModest m [OF that])
  have mark: "ends (markItemDeleted (mi_ID item)) (\<lambda>_. safeWith orig F I C) w" if "gone F (mi_FileID item)"
    by (rule ends_always [OF safe_markItemDeleted [OF k that] w])
  have gone: "gone F (mi_FileID item)" if "f \<in> set F" "sf_ID f = mi_FileID item" "sf_Deleted f" for f
    using that dist by (auto simp: gone_def distinct_map inj_on_def)
  show "ends (prepareItem item) (\<lambda>_. safeWith orig F I C) w"
    unfolding prepareItem_def
    by (rule ends_if, rule ends_return, rule w, rule ends_bind, rule ends_mono [OF unscopedOrNone_result])
      (auto intro!: mark ends_fail ends_always [OF row w] w split: option.split simp: F intro: gone)
qed

lemma safe_updateMigration: "always (safeWith orig F I C) (updateMigration i f)"
  unfolding updateMigration_def by (rule safe_update) simp

lemma always_select_rows:
  assumes "\<And>w. J w \<Longrightarrow> always J (f (g w))"
  shows "always J (tx_bind (tx_select g) f)"
  by (rule always_ends) (auto intro!: ends_bind ends_select ends_always [OF assms])

lemma safe_prepareRetry: "always (safeWith orig F I C) (prepareRetry i)"
  unfolding prepareRetry_def
  by (intro safe_transaction always_select_rows always_bind safe_tx_foreach safe_prepareItem safe_updateMigration)
    (auto dest: known_item(1))

lemma safe_keepItem: "always (safeWith orig F I C) (keepItem i)"
proof -
  have m: "modest (keptRow s)" for s
    by (simp add: modest_def keepsIdentity_def ident_def keptRow_def)
  show ?thesis unfolding keepItem_def by (intro safe_transaction safe_item always_if always_bind always_return safe_updateModest m)
qed

lemma always_first_any: "(\<And>x. always J (f x)) \<Longrightarrow> always J (tx_bind (tx_first g) f)"
  by (rule always_bind [OF always_first])

lemma safe_KeepOriginals:
  assumes "always (safeWith orig F I C) stopped"
  shows "always (safeWith orig F I C) (KeepOriginals env stopped m)"
  unfolding KeepOriginals_def finishKeeping_def countItems_def
  by (intro always_bind always_first always_reject always_if assms always_return safe_updateMigration always_select
      always_foreach safe_keepItem safe_transaction)

end
