(* ===== verification/MgDelete.thy ===== *)
theory MgDelete
  imports MgRest
begin

text \<open>The deleter keeps the media safe, never touches a referenced video, and drops the rows of a
  video only when no copy of it is left.\<close>

section \<open>A video being deleted\<close>

text \<open>Neither the rows of the file nor those that share its prefix are live.\<close>

definition dying :: "nat \<Rightarrow> string \<Rightarrow> mig_world \<Rightarrow> bool" where
  "dying i u w \<longleftrightarrow> (\<forall>f \<in> set (mw_files w). sf_ID f = i \<or> sf_UUID f = u \<longrightarrow> sf_Deleted f)"

definition deleting :: "(string \<Rightarrow> string \<rightharpoonup> string) \<Rightarrow> nat \<Rightarrow> string \<Rightarrow> mig_world \<Rightarrow> bool" where
  "deleting orig i u w \<longleftrightarrow> mediaSafe orig w \<and> dying i u w"

lemma deleting_always:
  assumes "\<And>F I. (\<forall>f \<in> set F. sf_ID f = i \<or> sf_UUID f = u \<longrightarrow> sf_Deleted f) \<Longrightarrow> always (safeWith orig F I []) m"
  shows "always (deleting orig i u) m"
  unfolding always_def
proof (intro allI impI)
  fix w fs assume w: "deleting orig i u w"
  then have d: "\<forall>f \<in> set (mw_files w). sf_ID f = i \<or> sf_UUID f = u \<longrightarrow> sf_Deleted f" by (simp add: deleting_def dying_def)
  from w have "safeWith orig (mw_files w) (map ident (mw_items w)) [] w" by (simp add: deleting_def mediaSafe_with)
  with assms [OF d] have "safeWith orig (mw_files w) (map ident (mw_items w)) [] (fst (snd (m (w, fs))))" by (simp add: always_def)
  with d show "deleting orig i u (fst (snd (m (w, fs))))" by (simp add: deleting_def dying_def safeWith_def)
qed

lemma dying_file:
  assumes "mediaSafe orig w" "f \<in> set (mw_files w)" "sf_ID f = i" "sf_UUID f = u" "sf_Deleted f"
  shows "deleting orig i u w"
  using assms by (auto simp: deleting_def dying_def mediaSafe_def filesOK_def distinct_map inj_on_def)

lemma dying_deleteRow:
  assumes safe: "mediaSafe orig w" and f: "f \<in> set (mw_files w)" "sf_ID f = i" "sf_UUID f = u"
  shows "deleting orig i u (deleteRow i w)"
proof -
  let ?g = "\<lambda>f. if sf_ID f = i \<and> \<not> sf_Deleted f then f\<lparr>sf_Deleted := True\<rparr> else f"
  have w': "deleteRow i w = w\<lparr>mw_files := map ?g (mw_files w)\<rparr>" by (simp add: deleteRow_def update_where_def)
  have safe': "mediaSafe orig (deleteRow i w)"
    unfolding w' by (rule mediaSafe_map_files [OF safe]) (use mediaSafe_intact [OF safe] in auto)
  show ?thesis
    by (rule dying_file [OF safe', of "?g f"]) (use f in \<open>auto simp: w'\<close>)
qed

lemma deleting_bump: "deleting orig i u w \<Longrightarrow> deleting orig i u (bumpCacheVersion j w)"
proof -
  let ?g = "\<lambda>f. if sf_ID f = j then f\<lparr>sf_CacheVersion := Some (case sf_CacheVersion f of None \<Rightarrow> 1 | Some v \<Rightarrow> v + 1)\<rparr> else f"
  have b: "bumpCacheVersion j w = w\<lparr>mw_files := map ?g (mw_files w)\<rparr>" by (simp add: bumpCacheVersion_def update_where_def)
  assume w: "deleting orig i u w"
  then have safe: "mediaSafe orig w" by (simp add: deleting_def)
  have "mediaSafe orig (bumpCacheVersion j w)"
    unfolding b by (rule mediaSafe_map_files [OF safe]) (use mediaSafe_intact [OF safe] in auto)
  with w show ?thesis by (auto simp: deleting_def dying_def b)
qed

lemma deleting_drop: "deleting orig i u w \<Longrightarrow> deleting orig i u (w\<lparr>mw_files := filter p (mw_files w)\<rparr>)"
proof -
  assume w: "deleting orig i u w"
  then have safe: "mediaSafe orig w" by (simp add: deleting_def)
  have "mediaSafe orig (w\<lparr>mw_files := filter p (mw_files w)\<rparr>)"
    by (rule mediaSafe_files [OF safe])
      (use safe in \<open>auto simp: mediaSafe_def filesOK_def isFile_def intro!: distinct_map_filter\<close>)
  with w show ?thesis by (auto simp: deleting_def dying_def)
qed

lemma deleting_items:
  assumes "keepsIdentity f" "\<And>it. mi_DestinationOwned (f it) \<Longrightarrow> mi_DestinationOwned it"
  shows "always (deleting orig i u) (updateItems (\<lambda>it. mi_FileID it = i) f)"
proof (rule deleting_always, rule safe_updateItems [OF assms(1)])
  fix F I w it
  assume d: "\<forall>f \<in> set F. sf_ID f = i \<or> sf_UUID f = u \<longrightarrow> sf_Deleted f"
    and it: "safeWith orig F I [] w" "it \<in> set (mw_items w)" "mi_FileID it = i"
  from d it(3) have "gone F (mi_FileID it)" by (simp add: gone_def)
  with known_item(3) [OF it(1,2)] assms(2) [of it]
  show "(mi_Status (f it) = ItemDeleted \<longrightarrow> gone F (mi_FileID it)) \<and> (mi_DestinationOwned (f it) \<longrightarrow> destinationTrue orig w it)"
    by blast
qed

lemma deleting_copies:
  assumes "sf_UUID fl = u"
  shows "always (deleting orig i u) (deleteCopies env fl items)"
proof (rule deleting_always)
  fix F :: "stored_file list" and I assume d: "\<forall>f \<in> set F. sf_ID f = i \<or> sf_UUID f = u \<longrightarrow> sf_Deleted f"
  then have e: "elsewhere m u F" for m by (auto simp: elsewhere_def)
  show "always (safeWith orig F I []) (deleteCopies env fl items)"
    unfolding deleteCopies_def assms
    by (rule safe_filePrefix) (intro safe_tx_foreach always_bind safe_storeFor always_deletePrefix e)
qed

lemma deleting_tables:
  assumes "deleting orig i u w" "mw_files w' = mw_files w" "mw_items w' = mw_items w" "sw_stores w' = sw_stores w"
  shows "deleting orig i u w'"
  using assms mediaSafe_cong [OF assms(2-4), of orig] by (simp add: deleting_def dying_def)

lemma deleting_erase: "always (deleting orig i u) (eraseFile i ids)"
proof -
  have k: "keepsIdentity (\<lambda>it. (deletedRow it)\<lparr>mi_ReservationKey := [], mi_DestinationOwned := False\<rparr>)"
    by (simp add: keepsIdentity_def ident_def deletedRow_def)
  have t: "always (deleting orig i u) (tx_update (dropObjects p))"
    "always (deleting orig i u) (tx_update (\<lambda>w. w\<lparr>mw_subtitles := g1 w\<rparr>))"
    "always (deleting orig i u) (tx_update (\<lambda>w. w\<lparr>mw_audios := g2 w\<rparr>))"
    "always (deleting orig i u) (tx_update (\<lambda>w. w\<lparr>mw_qualities := g3 w\<rparr>))" for p g1 g2 g3
    by (rule always_update, erule deleting_tables, simp_all add: dropObjects_def)+
  have f: "always (deleting orig i u) (tx_update (\<lambda>w. w\<lparr>mw_files := filter p (mw_files w)\<rparr>))" for p
    by (rule always_update) (rule deleting_drop)
  show ?thesis
    unfolding eraseFile_def
    by (rule safe_transaction, rule always_bind [OF deleting_items [OF k]], simp)
      (intro always_bind always_if always_return t f)
qed

section \<open>The deleter\<close>

lemma always_afterwards: "always J m \<Longrightarrow> always J h \<Longrightarrow> always J (afterwards m h)"
  unfolding afterwards_def
  by (intro always_bind always_try always_ignore) (auto intro: always_fail always_return split: sum.split)

lemma deleting_refresh: "always (deleting orig i u) (refreshMigrations items)"
  unfolding refreshMigrations_def
  by (intro always_foreach always_ignore deleting_always safe_refreshProgress)

lemma deleting_purge: "sf_UUID fl = u \<Longrightarrow> always (deleting orig i u) (purgeFile env busy i fl)"
  unfolding purgeFile_def
  by (intro always_bind always_select always_if always_return deleting_items always_update deleting_bump
      deleting_copies deleting_erase always_afterwards deleting_refresh)
    (simp_all add: keepsIdentity_def ident_def deletedRow_def)

lemma releaseReferences_result:
  assumes safe: "mediaSafe orig w" and fl: "fl \<in> set (mw_files w)" "sf_ID fl = i"
  shows "ends (releaseReferences i fl)
    (\<lambda>r w'. mediaSafe orig w' \<and> (r = Inr True \<longrightarrow> deleting orig i (sf_UUID fl) w')) w"
proof (cases "sf_Deleted fl")
  case True
  show ?thesis
    unfolding releaseReferences_def using dying_file [OF safe fl refl True] True safe by (auto intro!: ends_return)
next
  case False
  show ?thesis
    unfolding releaseReferences_def
    by (rule ends_if, simp_all add: False, rule ends_bind, rule ends_select)
      (auto intro!: ends_return ends_bind ends_update safe dying_deleteRow [OF safe fl refl]
        simp: dying_deleteRow [OF safe fl refl, unfolded deleting_def])
qed

lemma safe_deleteFile: "always (mediaSafe orig) (deleteFile env preparing i)"
proof (rule always_ends)
  fix w assume safe: "mediaSafe orig w"
  have go: "ends (tx_bind (releaseReferences i fl) (\<lambda>go. if go then purgeFile env busy i fl else tx_return False)) (\<lambda>_. mediaSafe orig) w"
    if "fl \<in> set (mw_files w)" "sf_ID fl = i" for fl busy
    by (rule ends_bind, rule ends_mono [OF releaseReferences_result [OF safe that]])
      (auto intro!: ends_return ends_mono [OF ends_always [OF deleting_purge [OF refl]]] simp: deleting_def)
  show "ends (deleteFile env preparing i) (\<lambda>_. mediaSafe orig) w"
    unfolding deleteFile_def
    by (rule ends_bind, rule ends_mono [OF unscopedOrNone_result])
      (auto intro!: ends_return ends_bind [OF ends_peek] go safe split: option.split)
qed

lemma safe_runDeleter: "always (mediaSafe orig) (runDeleter env preparing)"
  unfolding runDeleter_def
  by (intro always_bind always_select always_foreach always_ignore safe_deleteFile)

end
