(* ===== verification/MgPlanOK.thy ===== *)
theory MgPlanOK
  imports MgStart MgDelete
begin

text \<open>What a plan promises, and that the rows made from it keep the media safe.\<close>

section \<open>Reading only\<close>

definition reads :: "'a mig_tx \<Rightarrow> bool" where
  "reads m \<longleftrightarrow> (\<forall>w. always (\<lambda>w'. w' = w) m)"

lemma reads_bind: "reads m \<Longrightarrow> (\<And>x. reads (f x)) \<Longrightarrow> reads (tx_bind m f)"
  unfolding reads_def by (intro allI always_bind) simp_all

lemma reads_basic: "reads (tx_return x)" "reads (tx_fail e)" "reads (tx_reject c e')" "reads (tx_select g)" "reads (tx_first h)"
  "reads tx_check" "reads (tx_peek g)" "reads (storeFor m)"
  by (simp_all add: reads_def tx_always safe_storeFor)

lemma reads_if: "reads m \<Longrightarrow> reads n \<Longrightarrow> reads (if c then m else n)"
  by simp

lemma reads_catch: "reads m \<Longrightarrow> (\<And>e. reads (h e)) \<Longrightarrow> reads (tx_catch m h)"
  unfolding reads_def by (intro allI always_catch) simp_all

lemma reads_try: "reads m \<Longrightarrow> reads (tx_try m)"
  unfolding reads_def by (intro allI always_try) simp

lemmas reads_intros = reads_bind reads_basic reads_if reads_catch reads_try

lemma reads_ends: "reads m \<Longrightarrow> ends m (\<lambda>_ w'. w' = w) w"
  unfolding reads_def by (rule ends_always) auto

lemma reads_always: "reads m \<Longrightarrow> always J m"
  by (rule always_ends, rule ends_mono, rule reads_ends) auto

section \<open>Placement\<close>

lemma leastUsed_fold:
  assumes "\<And>s c. f s c \<in> {s, c} \<and> (u :: string \<Rightarrow> int) (f s c) \<le> u s \<and> u (f s c) \<le> u c"
  shows "foldl f a xs \<in> insert a (set xs) \<and> (\<forall>m \<in> insert a (set xs). u (foldl f a xs) \<le> u m)"
proof (induction xs arbitrary: a)
  case (Cons x xs)
  from Cons.IH [of "f a x"] assms [of a x] show ?case by (auto intro: order_trans)
qed simp

lemma leastUsed_min:
  assumes "ids \<noteq> []"
  shows "leastUsed u ids \<in> set ids" "m \<in> set ids \<Longrightarrow> u (leastUsed u ids) \<le> u m"
proof -
  let ?f = "\<lambda>s c. if u c < u s \<or> (u c = u s \<and> c < s) then c else s"
  have "foldl ?f (hd ids) (tl ids) \<in> insert (hd ids) (set (tl ids)) \<and>
      (\<forall>m \<in> insert (hd ids) (set (tl ids)). u (foldl ?f (hd ids) (tl ids)) \<le> u m)"
    by (rule leastUsed_fold) auto
  moreover have "insert (hd ids) (set (tl ids)) = set ids" using assms by (cases ids) auto
  ultimately show "leastUsed u ids \<in> set ids" "m \<in> set ids \<Longrightarrow> u (leastUsed u ids) \<le> u m"
    by (simp_all add: leastUsed_def)
qed

lemma placeFiles_keys: "map fst (placeFiles ids u files) = map sf_ID files"
  by (induction files arbitrary: u) (simp_all add: Let_def)

lemma placeFiles_mounts: "ids \<noteq> [] \<Longrightarrow> (i, m) \<in> set (placeFiles ids u files) \<Longrightarrow> m \<in> set ids"
  by (induction files arbitrary: u) (auto simp: Let_def leastUsed_min(1))

lemma placed_Some:
  assumes "ids \<noteq> []" "f \<in> set files"
  shows "\<exists>m \<in> set ids. map_of (placeFiles ids u files) (sf_ID f) = Some m"
proof -
  have "sf_ID f \<in> set (map fst (placeFiles ids u files))" using assms(2) by (simp add: placeFiles_keys)
  then obtain m where "map_of (placeFiles ids u files) (sf_ID f) = Some m"
    by (metis dom_map_of_conv_image_fst domD image_set)
  with placeFiles_mounts [OF assms(1)] show ?thesis by (metis map_of_SomeD)
qed

text \<open>The bytes a mount holds after the placement.\<close>

definition usageAfter :: "(string \<Rightarrow> int) \<Rightarrow> stored_file list \<Rightarrow> (nat \<times> string) list \<Rightarrow> string \<Rightarrow> int" where
  "usageAfter u files placed m = u m + sum_list (map (\<lambda>(f, p). if snd p = m then sf_Size f else 0) (zip files placed))"

lemma usageAfter_Cons: "usageAfter u (f # fs) ((i, m) # ps) = usageAfter (u(m := u m + sf_Size f)) fs ps"
  by (auto simp: usageAfter_def)

lemma usageAfter_mono:
  assumes "\<And>f. f \<in> set files \<Longrightarrow> 0 \<le> sf_Size f"
  shows "u m \<le> usageAfter u files placed m"
proof -
  have "0 \<le> sum_list (map (\<lambda>(f, p). if snd p = m then sf_Size f else 0) (zip files placed))"
    by (rule sum_list_nonneg) (use assms in \<open>fastforce dest: set_zip_leftD\<close>)
  then show ?thesis by (simp add: usageAfter_def)
qed

lemma placeFiles_balanced:
  assumes "ids \<noteq> []" "\<And>f. f \<in> set files \<Longrightarrow> 0 \<le> sf_Size f" "(i, m) \<in> set (placeFiles ids u files)" "m' \<in> set ids"
  shows "\<exists>f \<in> set files. usageAfter u files (placeFiles ids u files) m - sf_Size f \<le> usageAfter u files (placeFiles ids u files) m'"
  using assms(2,3)
proof (induction files arbitrary: u i)
  case (Cons f fs u i)
  define k where "k = leastUsed u ids"
  define u' where "u' = u(k := u k + sf_Size f)"
  have after: "usageAfter u (f # fs) (placeFiles ids u (f # fs)) = usageAfter u' fs (placeFiles ids u' fs)"
    by (simp add: Let_def usageAfter_Cons k_def u'_def)
  show ?case
  proof (cases "\<exists>i. (i, m) \<in> set (placeFiles ids u' fs)")
    case True
    then obtain j where "(j, m) \<in> set (placeFiles ids u' fs)" by blast
    with Cons.IH [of j u'] Cons.prems(1) show ?thesis unfolding after by auto
  next
    case False
    with Cons.prems(2) have k: "k = m" by (auto simp: Let_def k_def u'_def)
    have "usageAfter u' fs (placeFiles ids u' fs) m = u' m"
    proof -
      have "(case x of (f, p) \<Rightarrow> if snd p = m then sf_Size f else 0) = 0" if "x \<in> set (zip fs (placeFiles ids u' fs))" for x
      proof -
        obtain f j k where x: "x = (f, j, k)" by (cases x) auto
        with that have "(j, k) \<in> set (placeFiles ids u' fs)" by (auto dest: set_zip_rightD)
        with False x show ?thesis by auto
      qed
      then have "map (\<lambda>(f, p). if snd p = m then sf_Size f else 0) (zip fs (placeFiles ids u' fs)) =
          map (\<lambda>_. 0) (zip fs (placeFiles ids u' fs))" by (intro map_cong refl)
      then show ?thesis by (simp add: usageAfter_def map_replicate_const sum_list_replicate)
    qed
    moreover have "u m \<le> u m'" using leastUsed_min(2) [OF assms(1,4), of u] k by (simp add: k_def)
    moreover have "u m' \<le> usageAfter u' fs (placeFiles ids u' fs) m'"
    proof -
      have "u m' \<le> u' m'" using Cons.prems(1) by (simp add: u'_def)
      also have "\<dots> \<le> usageAfter u' fs (placeFiles ids u' fs) m'" by (rule usageAfter_mono) (use Cons.prems(1) in simp)
      finally show ?thesis .
    qed
    ultimately show ?thesis unfolding after by (intro bexI [of _ f]) (simp_all add: u'_def k)
  qed
qed simp

section \<open>The plan\<close>

lemma reads_checkMounts: "reads (checkMounts bs)"
  by (induction bs) (auto intro!: reads_intros)

lemma reads_migrationMounts: "reads (migrationMounts p)"
  unfolding migrationMounts_def by (intro reads_intros reads_checkMounts)

lemma reads_accountScope: "reads (accountScope ids)"
  unfolding accountScope_def Let_def by (intro reads_intros)

lemma reads_buildPlan: "reads (buildPlan env input)"
  unfolding buildPlan_def Let_def case_prod_unfold
  by (intro reads_intros reads_accountScope reads_migrationMounts)

definition scopeOf :: "migration_input \<Rightarrow> nat list" where
  "scopeOf input = sort (firstOccurrences [] (in_AccountIDs input))"

definition usableMount :: "mig_world \<Rightarrow> mig_pool \<Rightarrow> mount_preview \<Rightarrow> bool" where
  "usableMount w pool m \<longleftrightarrow> mp_UUID m \<in> set (mw_connected w) \<and>
     (\<exists>b \<in> set (pw_Members pool). pb_Mount b = mp_UUID m \<and> pb_Primary b \<and> pb_Mounted b \<and> trimSpace (pb_LastError b) = [])"

definition planOK :: "mig_world \<Rightarrow> migration_input \<Rightarrow> migration_plan \<Rightarrow> bool" where
  "planOK w input plan \<longleftrightarrow> (let source = map mp_UUID (pv_SourceMounts (pl_preview plan));
       destination = map mp_UUID (pv_DestinationMounts (pl_preview plan)) in
     set source \<inter> set destination = {} \<and> destination \<noteq> [] \<and> pl_files plan \<noteq> [] \<and>
     pl_files plan = sort_key (\<lambda>f. (- sf_Size f, sf_ID f)) (scopedFiles source (scopeOf input) True w) \<and>
     pl_destination plan = placeFiles destination (mountBytes w) (pl_files plan) \<and>
     reservedCount (map sf_ID (pl_files plan)) w = 0 \<and>
     (\<exists>s d. poolById (in_SourcePoolID input) w = Some s \<and> poolById (in_DestinationPoolID input) w = Some d \<and>
        (\<forall>m \<in> set (pv_SourceMounts (pl_preview plan)). usableMount w s m) \<and>
        (\<forall>m \<in> set (pv_DestinationMounts (pl_preview plan)). usableMount w d m)))"

lemma ends_reads_bind: "reads m \<Longrightarrow> ends m (\<lambda>r _. \<forall>x. r = Inr x \<longrightarrow> R x) w \<Longrightarrow> (\<And>e. Q (Inl e) w) \<Longrightarrow>
  (\<And>x. R x \<Longrightarrow> ends (f x) Q w) \<Longrightarrow> ends (tx_bind m f) Q w"
  by (rule ends_bind, rule ends_mono, rule ends_conj, erule reads_ends, assumption, auto)

lemma ends_bind_first: "(\<And>e. Q (Inl e) w) \<Longrightarrow> (\<And>x. g w = Some x \<Longrightarrow> ends (f x) Q w) \<Longrightarrow> ends (tx_bind (tx_first g) f) Q w"
  by (rule ends_bind, rule ends_first) auto

lemma ends_bind_select: "(\<And>e. Q (Inl e) w) \<Longrightarrow> ends (f (g w)) Q w \<Longrightarrow> ends (tx_bind (tx_select g) f) Q w"
  by (rule ends_bind, rule ends_select) auto

lemma ends_bind_reject: "(\<And>e. Q (Inl e) w) \<Longrightarrow> (\<not> c \<Longrightarrow> ends (f ()) Q w) \<Longrightarrow> ends (tx_bind (tx_reject c e) f) Q w"
  by (rule ends_bind, rule ends_reject) auto

lemma ends_reads_any: "reads m \<Longrightarrow> (\<And>e. Q (Inl e) w) \<Longrightarrow> (\<And>x. ends (f x) Q w) \<Longrightarrow> ends (tx_bind m f) Q w"
  by (rule ends_reads_bind [where R = "\<lambda>_. True"]) (auto simp: ends_def)

lemma accountScope_result:
  "ends (accountScope requested) (\<lambda>r _. \<forall>x. r = Inr x \<longrightarrow> fst x = sort (firstOccurrences [] requested)) w"
proof (cases "requested = []")
  case False
  have main: "ends (tx_bind (tx_select g) (\<lambda>users. tx_bind (tx_reject (length users \<noteq> length ids) ErrMigrationAccounts) (\<lambda>_.
           tx_return (ids, h users)))) (\<lambda>r _. \<forall>x. r = Inr x \<longrightarrow> fst x = ids) w" for g :: "mig_world \<Rightarrow> account_row list" and ids :: "nat list" and h
    by (rule ends_bind_select, simp, rule ends_bind_reject, simp, rule ends_return, simp)
  show ?thesis unfolding accountScope_def Let_def by (intro ends_if ends_return ends_fail main) (use False in simp_all)
qed (simp add: accountScope_def ends_return)

lemma checkMounts_result:
  "set bs \<subseteq> set (pw_Members p) \<Longrightarrow> ends (checkMounts bs) (\<lambda>r _. \<forall>ms. r = Inr ms \<longrightarrow> (\<forall>m \<in> set ms. usableMount w p m)) w"
proof (induction bs)
  case (Cons b bs)
  let ?Q = "\<lambda>r _. \<forall>ms. r = Inr ms \<longrightarrow> (\<forall>m \<in> set ms. usableMount w p m)"
  have tail: "ends (checkMounts bs) (?Q :: _ \<Rightarrow> mig_world \<Rightarrow> bool) w" by (rule Cons.IH) (use Cons.prems in simp)
  have "ends (tx_bind (tx_catch (storeFor (pb_Mount b)) (\<lambda>_. tx_fail (App ErrMigrationUnavailable))) (\<lambda>_.
        tx_bind (tx_select (\<lambda>w. mountBytes w (pb_Mount b))) (\<lambda>used.
        tx_bind (checkMounts bs) (\<lambda>ms.
        tx_return (\<lparr>mp_UUID = pb_Mount b, mp_Name = pb_Name b, mp_UsedBytes = used\<rparr> # ms))))) (?Q :: _ \<Rightarrow> mig_world \<Rightarrow> bool) w"
    if "pb_Primary b" "pb_Mounted b" "trimSpace (pb_LastError b) = []"
  proof -
    have new: "usableMount w p \<lparr>mp_UUID = pb_Mount b, mp_Name = pb_Name b, mp_UsedBytes = used\<rparr>"
      if "pb_Mount b \<in> set (mw_connected w)" for used
      using that Cons.prems \<open>pb_Primary b\<close> \<open>pb_Mounted b\<close> \<open>trimSpace (pb_LastError b) = []\<close>
      by (auto simp: usableMount_def)
    have rest: "ends (tx_bind (tx_select (\<lambda>w. mountBytes w (pb_Mount b))) (\<lambda>used. tx_bind (checkMounts bs) (\<lambda>ms.
        tx_return (\<lparr>mp_UUID = pb_Mount b, mp_Name = pb_Name b, mp_UsedBytes = used\<rparr> # ms)))) (?Q :: _ \<Rightarrow> mig_world \<Rightarrow> bool) w"
      if "pb_Mount b \<in> set (mw_connected w)"
      by (rule ends_bind_select, simp, rule ends_reads_bind [OF reads_checkMounts tail], simp, rule ends_return)
        (use new [OF that] in auto)
    show ?thesis
      unfolding storeFor_def
      by (rule ends_bind, rule ends_catch, rule ends_stmt) (auto split: if_splits intro!: ends_fail rest)
  qed
  with tail show ?case by (auto intro!: ends_fail)
qed (simp add: ends_return)

lemma migrationMounts_result:
  "ends (migrationMounts p) (\<lambda>r _. \<forall>ms. r = Inr ms \<longrightarrow> ms \<noteq> [] \<and> (\<forall>m \<in> set ms. usableMount w p m)) w"
proof -
  have "ends (tx_bind (checkMounts (pw_Members p)) (\<lambda>ms. tx_bind (tx_reject (ms = []) ErrMigrationUnavailable) (\<lambda>_. tx_return (sort_key mp_UUID ms))))
      (\<lambda>r _. \<forall>ms. r = Inr ms \<longrightarrow> ms \<noteq> [] \<and> (\<forall>m \<in> set ms. usableMount w p m)) w"
    by (rule ends_reads_bind [OF reads_checkMounts checkMounts_result [OF subset_refl]], simp, rule ends_bind_reject, simp, rule ends_return)
      (auto dest: arg_cong [where f = set])
  then show ?thesis by (auto simp: migrationMounts_def intro!: ends_fail)
qed

lemma buildPlan_result: "ends (buildPlan env input) (\<lambda>r w'. w' = w \<and> (\<forall>plan. r = Inr plan \<longrightarrow> planOK w input plan)) w"
proof (rule ends_conj [OF reads_ends [OF reads_buildPlan]], goal_cases)
  case 1
  show ?case
    unfolding buildPlan_def Let_def case_prod_unfold
    apply (rule ends_bind_reject, simp)
    apply (rule ends_reads_bind [OF reads_accountScope accountScope_result], simp)
    apply (rule ends_bind_first, simp)+
    apply (rule ends_reads_bind [OF reads_migrationMounts migrationMounts_result], simp)+
    apply (rule ends_bind_reject, simp)
    apply (rule ends_bind_select, simp, rule ends_bind_reject, simp)+
    apply (rule ends_reads_any, intro reads_intros, simp)
    apply (rule ends_bind_select, simp)+
    apply (rule ends_return)
    apply (auto simp: planOK_def Let_def scopeOf_def reservedCount_def countWhere_def list_ex_iff)
    apply (metis image_eqI)
    done
qed

section \<open>The rows of a start\<close>

lemma foldl_max_ge: "x \<in> set xs \<or> x \<le> a \<Longrightarrow> x \<le> foldl max a (xs :: nat list)"
  by (induction xs arbitrary: a) (auto simp: le_max_iff_disj)

lemma nextID_fresh: "x \<in> set xs \<Longrightarrow> x < nextID xs"
  using foldl_max_ge [of x xs 0] by (simp add: nextID_def less_Suc_eq_le)

lemma newItems_ids: "map mi_ID (newItems g i dest files) = map (\<lambda>j. i + j) [0..<length files]"
  by (simp add: newItems_def newItem_def comp_def)

definition planSafe :: "mig_world \<Rightarrow> migration_plan \<Rightarrow> bool" where
  "planSafe w plan \<longleftrightarrow> (\<forall>f \<in> set (pl_files plan). isFile w f \<and>
     (\<exists>m. map_of (pl_destination plan) (sf_ID f) = Some m \<and> m \<noteq> sf_StorageID f))"

lemma planOK_safe:
  assumes "planOK w input plan"
  shows "planSafe w plan"
  unfolding planSafe_def
proof
  fix f assume f: "f \<in> set (pl_files plan)"
  have ok: "f \<in> set (mw_files w)" "\<not> sf_Deleted f" "sf_StorageID f \<in> set (map mp_UUID (pv_SourceMounts (pl_preview plan)))"
    using f assms by (auto simp: planOK_def Let_def scopedFiles_def)
  obtain m where m: "m \<in> set (map mp_UUID (pv_DestinationMounts (pl_preview plan)))" "map_of (pl_destination plan) (sf_ID f) = Some m"
    using placed_Some [of "map mp_UUID (pv_DestinationMounts (pl_preview plan))" f "pl_files plan" "mountBytes w"] f assms
    unfolding planOK_def Let_def by metis
  have "set (map mp_UUID (pv_SourceMounts (pl_preview plan))) \<inter> set (map mp_UUID (pv_DestinationMounts (pl_preview plan))) = {}"
    using assms unfolding planOK_def Let_def by blast
  with ok(3) m(1) have "m \<noteq> sf_StorageID f" by blast
  with ok m(2) show "isFile w f \<and> (\<exists>m. map_of (pl_destination plan) (sf_ID f) = Some m \<and> m \<noteq> sf_StorageID f)"
    by (simp add: isFile_def)
qed

lemma newItem_ok:
  assumes safe: "mediaSafe orig w" and plan: "planSafe w plan" and it: "it \<in> set (newItems g i (pl_destination plan) (pl_files plan))"
  shows "itemOK orig w it"
proof -
  from it obtain j f where f: "f \<in> set (pl_files plan)" "it = newItem g (i + j) (pl_destination plan) f"
    by (force simp: newItems_def intro: nth_mem)
  with plan obtain m where m: "isFile w f" "map_of (pl_destination plan) (sf_ID f) = Some m" "m \<noteq> sf_StorageID f"
    by (auto simp: planSafe_def)
  moreover have "sf_ID f' = sf_ID f \<longleftrightarrow> sf_UUID f' = sf_UUID f" if "f' \<in> set (mw_files w)" for f'
    using that m(1) safe by (auto simp: isFile_def mediaSafe_def filesOK_def distinct_map inj_on_def)
  ultimately show ?thesis by (simp add: itemOK_def f(2) newItem_def sameVideo_def)
qed

lemma mediaSafe_newItems:
  assumes safe: "mediaSafe orig w" and plan: "planSafe w plan"
    and once: "reservedOnce (mw_items w @ newItems g (nextID (map mi_ID (mw_items w))) (pl_destination plan) (pl_files plan))"
  shows "mediaSafe orig (w\<lparr>mw_items := mw_items w @ newItems g (nextID (map mi_ID (mw_items w))) (pl_destination plan) (pl_files plan)\<rparr>)"
proof -
  let ?new = "newItems g (nextID (map mi_ID (mw_items w))) (pl_destination plan) (pl_files plan)"
  let ?w = "w\<lparr>mw_items := mw_items w @ ?new\<rparr>"
  have "distinct (map mi_ID (mw_items w @ ?new))"
    using safe nextID_fresh [of _ "map mi_ID (mw_items w)"]
    by (fastforce simp: newItems_ids mediaSafe_def distinct_map inj_on_def)
  moreover have "itemOK orig ?w it" if "it \<in> set (mw_items w @ ?new)" for it
    using that newItem_ok [OF safe plan] safe itemOK_same [of ?w w] by (auto simp: mediaSafe_def)
  moreover have "filesOK orig ?w" using safe filesOK_same [of ?w w] by (simp add: mediaSafe_def)
  ultimately show ?thesis using once by (simp add: mediaSafe_def)
qed

lemma ends_wpI: "ends m (\<lambda>_. Q) w \<Longrightarrow> wp m (\<lambda>_. Q) w"
  unfolding ends_def wp_def by (metis fst_conv snd_conv)

lemma createRows_safe:
  assumes "planSafe w plan" "mediaSafe orig w"
  shows "ends (createRows uuid key input plan actor name) (\<lambda>_. mediaSafe orig) w"
  unfolding createRows_def
proof (rule ends_transaction, rule assms(2), rule wp_bind, rule wp_stmt)
  fix m w1
  assume run: "(let m = newMigration (nextID (map mg_ID (mw_migrations w))) uuid key input plan actor name in
        if list_ex (\<lambda>m'. mg_UUID m' = uuid \<or> (key \<noteq> [] \<and> mg_RequestKey m' = key)) (mw_migrations w) then Inl DuplicatedKey
        else Inr (m, w\<lparr>mw_migrations := mw_migrations w @ [m]\<rparr>)) = Inr (m, w1)"
  then have w1: "w1 = w\<lparr>mw_migrations := mw_migrations w @ [m]\<rparr>" by (auto simp: Let_def split: if_splits)
  have safe: "mediaSafe orig w1" "planSafe w1 plan"
    using assms mediaSafe_cong [of w1 w orig] by (simp_all add: w1 planSafe_def isFile_def)
  have items: "ends (tx_stmt (\<lambda>w.
          let items = newItems (mg_ID m) (nextID (map mi_ID (mw_items w))) (pl_destination plan) (pl_files plan) in
          if reservedOnce (mw_items w @ items) then Inr ((), w\<lparr>mw_items := mw_items w @ items\<rparr>) else Inl DuplicatedKey)) (\<lambda>_. mediaSafe orig) w1"
    by (rule ends_stmt) (use safe(1) mediaSafe_newItems [OF safe] in \<open>auto simp: Let_def split: if_splits\<close>)
  have "ends (tx_bind (tx_catch (tx_stmt (\<lambda>w.
          let items = newItems (mg_ID m) (nextID (map mi_ID (mw_items w))) (pl_destination plan) (pl_files plan) in
          if reservedOnce (mw_items w @ items) then Inr ((), w\<lparr>mw_items := mw_items w @ items\<rparr>) else Inl DuplicatedKey))
        (\<lambda>e. tx_fail (if e = DuplicatedKey then App ErrMigrationConflict else e))) (\<lambda>_.
      tx_return m)) (\<lambda>_. mediaSafe orig) w1"
    by (rule ends_bind, rule ends_catch, rule ends_mono [OF items]) (auto intro!: ends_return ends_fail)
  then show "wp (tx_bind (tx_catch (tx_stmt (\<lambda>w.
          let items = newItems (mg_ID m) (nextID (map mi_ID (mw_items w))) (pl_destination plan) (pl_files plan) in
          if reservedOnce (mw_items w @ items) then Inr ((), w\<lparr>mw_items := mw_items w @ items\<rparr>) else Inl DuplicatedKey))
        (\<lambda>e. tx_fail (if e = DuplicatedKey then App ErrMigrationConflict else e))) (\<lambda>_.
      tx_return m)) (\<lambda>_. mediaSafe orig) w1"
    by (rule ends_wpI)
qed

end
