(* ===== verification/MgControl.thy ===== *)
theory MgControl
  imports MgStart
begin

text \<open>
  The task handlers of a migration, of the cleanup of its originals and of the cleanup after a
  cancellation, the controls an administrator has, and the guards on mounts and pools.
\<close>

section \<open>How a task ends\<close>

datatype handler_end =
    HandlerDone string
  | HandlerPermanent string
  | HandlerTransient string
  | HandlerRetry string time
  | HandlerDeferred string time
  | HandlerStopped

definition orEnd :: "'a mig_tx \<Rightarrow> handler_end \<Rightarrow> ('a \<Rightarrow> handler_end mig_tx) \<Rightarrow> handler_end mig_tx" where
  "orEnd m stop f = tx_bind (tx_try m) (\<lambda>r. case r of Inl _ \<Rightarrow> tx_return stop | Inr x \<Rightarrow> f x)"

definition cleanupGrace :: time where "cleanupGrace = 24 * hour"

definition cancellationGrace :: time where "cancellationGrace = 24 * hour"

definition encodingRetry :: time where "encodingRetry = 5 * minute"

definition setStatus :: "nat \<Rightarrow> migration_status \<Rightarrow> string \<Rightarrow> unit mig_tx" where
  "setStatus i s p = updateMigration i (\<lambda>m. m\<lparr>mg_Status := s, mg_Phase := p\<rparr>)"

definition afterNow :: "mig_env \<Rightarrow> time option \<Rightarrow> bool" where
  "afterNow env t = (case t of None \<Rightarrow> False | Some t \<Rightarrow> me_now env < t)"

section \<open>Queueing the cleanups\<close>

definition cleanupJob :: "migration_row \<Rightarrow> time \<Rightarrow> job_request" where
  "cleanupJob m t = \<lparr>jr_Kind = ''storage.migration.cleanup'', jr_SubjectID = mg_UUID m,
     jr_IdempotencyKey = ''storage-migration-cleanup:'' @ mg_UUID m, jr_Label = ''Clean originals from '' @ mg_SourcePoolName m,
     jr_TaskKind = ''storage.migration.cleanup'', jr_Phase = ''Retaining originals'', jr_MigrationID = mg_ID m,
     jr_DedupeKey = ''storage-cleanup:'' @ digits (mg_ID m), jr_Priority = 5, jr_MaxAttempts = 4, jr_RunAfter = Some t\<rparr>"

definition scheduleCleanup :: "mig_env \<Rightarrow> job_runtime \<Rightarrow> nat \<Rightarrow> string mig_tx" where
  "scheduleCleanup env rt i =
     tx_bind (tx_first (migrationById i)) (\<lambda>m.
     if 0 < mg_FileCount m \<and> mg_FileCount m \<le> mg_DeletedCount m
     then tx_bind (updateMigration i (\<lambda>m. m\<lparr>mg_Status := MigrationCompleted, mg_Phase := ''Migration complete; all videos were deleted'',
         mg_CopyCompletedAt := Some (me_now env), mg_CompletedAt := Some (me_now env), mg_CleanupAfter := None\<rparr>)) (\<lambda>_.
       tx_return (mg_CleanupJobID m))
     else if mg_CleanupJobID m \<noteq> [] then tx_return (mg_CleanupJobID m)
     else (let t = (case mg_CleanupAfter m of None \<Rightarrow> me_now env + cleanupGrace | Some t \<Rightarrow> t)
       in tx_bind (rt_Enqueue rt (cleanupJob m t)) (\<lambda>job.
          tx_bind (updateMigration i (\<lambda>m. m\<lparr>mg_Status := MigrationRetainingOriginals, mg_Phase := ''Retaining originals for 24 hours'',
            mg_CleanupJobID := jv_ID job, mg_CleanupAfter := Some t, mg_CopyCompletedAt := Some (me_now env), mg_ErrorCode := []\<rparr>)) (\<lambda>_.
          tx_return (jv_ID job)))))"

definition abortJob :: "migration_row \<Rightarrow> int \<Rightarrow> job_request" where
  "abortJob m n = \<lparr>jr_Kind = ''storage.migration.abort_cleanup'', jr_SubjectID = mg_UUID m,
     jr_IdempotencyKey = ''storage-migration-abort:'' @ mg_UUID m @ '':'' @ show_int n,
     jr_Label = ''Clean canceled migration to '' @ mg_DestinationPoolName m,
     jr_TaskKind = ''storage.migration.abort_cleanup'', jr_Phase = ''Cleaning canceled migration'', jr_MigrationID = mg_ID m,
     jr_DedupeKey = ''storage-abort:'' @ digits (mg_ID m), jr_Priority = 15, jr_MaxAttempts = 8, jr_RunAfter = None\<rparr>"

definition queueAbort :: "mig_env \<Rightarrow> job_runtime \<Rightarrow> migration_row \<Rightarrow> unit mig_tx" where
  "queueAbort env rt m = (let n = mg_CancelGeneration m + 1 in
     tx_bind (rt_Enqueue rt (abortJob m n)) (\<lambda>job.
     updateMigration (mg_ID m) (\<lambda>m. m\<lparr>mg_Status := MigrationCanceled, mg_Phase := ''Canceled; cleaning incomplete destination data'',
       mg_CleanupJobID := jv_ID job, mg_CleanupAfter := Some (me_now env + cancellationGrace), mg_CanceledAt := Some (me_now env),
       mg_KeepOriginals := True, mg_CancelGeneration := n\<rparr>)))"

definition cancelOrConflict :: "job_runtime \<Rightarrow> string \<Rightarrow> unit mig_tx" where
  "cancelOrConflict rt j = tx_catch (rt_CancelJob rt j) (\<lambda>e. if e = App ErrJobConflict then tx_return () else tx_fail e)"

definition pauseOrConflict :: "job_runtime \<Rightarrow> string \<Rightarrow> unit mig_tx" where
  "pauseOrConflict rt j = tx_catch (rt_PauseJob rt j) (\<lambda>e. if e = App ErrJobConflict then tx_return () else tx_fail e)"

definition EnsureAbortCleanup :: "mig_env \<Rightarrow> job_runtime \<Rightarrow> nat \<Rightarrow> unit mig_tx" where
  "EnsureAbortCleanup env rt i =
     tx_bind (tx_first (migrationById i)) (\<lambda>m.
     if mg_CleanupJobID m = [] then queueAbort env rt m
     else tx_bind (tx_try (rt_Job (mg_CleanupJobID m))) (\<lambda>r. case r of
         Inl _ \<Rightarrow> queueAbort env rt m
       | Inr d \<Rightarrow>
           if jv_Kind d = ''storage.migration.abort_cleanup'' then tx_return ()
           else if jv_Kind d = ''storage.migration.cleanup'' \<and> \<not> jobTerminal (jv_Status d)
           then tx_bind (cancelOrConflict rt (jv_ID d)) (\<lambda>_. queueAbort env rt m)
           else queueAbort env rt m))"

section \<open>The migration task\<close>

definition abortRunning :: "migration_row \<Rightarrow> bool mig_tx" where
  "abortRunning m =
     (if mg_CanceledAt m = None \<or> mg_CleanupJobID m = [] then tx_return False
      else tx_bind (tx_try (rt_Job (mg_CleanupJobID m))) (\<lambda>r. case r of
          Inl _ \<Rightarrow> tx_return False | Inr d \<Rightarrow> tx_return (\<not> jobTerminal (jv_Status d))))"

definition runItems :: "mig_env \<Rightarrow> (nat \<Rightarrow> bool) \<Rightarrow> migration_row \<Rightarrow> item_row list \<Rightarrow> unit mig_tx" where
  "runItems env canceled m items =
     (if items = [] then tx_return ()
      else tx_bind (tx_try (tx_foreach (\<lambda>item. tx_bind tx_check (\<lambda>_.
          tx_bind (migrateItem env (canceled (mi_ID item)) m item) (\<lambda>_. tx_ignore (refreshProgress (mg_ID m))))) items)) (\<lambda>r.
        tx_bind tx_check (\<lambda>_. case r of Inl e \<Rightarrow> tx_fail e | Inr _ \<Rightarrow> tx_return ())))"

definition failedStatus :: "bool \<Rightarrow> bool \<Rightarrow> bool \<Rightarrow> bool \<Rightarrow> migration_status \<times> string" where
  "failedStatus stopped paused permanent lastAttempt =
     (if stopped then (if paused then (MigrationPaused, ''Migration paused'') else (MigrationCanceled, ''Migration canceled''))
      else if permanent \<or> lastAttempt then (MigrationFailed, ''Migration needs attention'')
      else (MigrationRunning, ''A copy failed; retry will be scheduled''))"

definition failedRow :: "mig_env \<Rightarrow> migration_status \<times> string \<Rightarrow> migration_row \<Rightarrow> migration_row" where
  "failedRow env sp m = (let m = m\<lparr>mg_Status := fst sp, mg_Phase := snd sp\<rparr> in
     if fst sp \<in> {MigrationFailed, MigrationRunning} then m\<lparr>mg_ErrorCode := ''video_migration_failed''\<rparr>
     else if fst sp = MigrationCanceled then m\<lparr>mg_CanceledAt := Some (me_now env)\<rparr> else m)"

definition runFailed :: "mig_env \<Rightarrow> job_runtime \<Rightarrow> bool \<Rightarrow> bool \<Rightarrow> nat \<Rightarrow> media_error txerr \<Rightarrow> handler_end mig_tx" where
  "runFailed env rt paused lastAttempt i e =
     tx_bind (tx_try tx_check) (\<lambda>ctx.
     let sp = failedStatus (isl ctx) paused (e = App ErrMigrationConflict) lastAttempt in
     tx_bind (tx_ignore (updateMigration i (failedRow env sp))) (\<lambda>_.
     tx_bind (if fst sp = MigrationCanceled
       then tx_catch (EnsureAbortCleanup env rt i) (\<lambda>_. tx_ignore (updateMigration i (\<lambda>m. m\<lparr>
         mg_Phase := ''Canceled; cleanup will be reconciled automatically'', mg_ErrorCode := ''abort_cleanup_pending''\<rparr>)))
       else tx_return ()) (\<lambda>_.
     if isl ctx then tx_return HandlerStopped
     else orEnd tx_check HandlerStopped (\<lambda>_.
       tx_return (if e = App ErrMigrationConflict then HandlerPermanent ''migration_conflict'' else HandlerTransient ''storage_copy_failed'')))))"

definition finishRun :: "mig_env \<Rightarrow> job_runtime \<Rightarrow> nat \<Rightarrow> handler_end mig_tx" where
  "finishRun env rt i =
     orEnd (refreshProgress i) (HandlerTransient ''migration_progress_failed'') (\<lambda>_.
     orEnd tx_check HandlerStopped (\<lambda>_.
     orEnd (scheduleCleanup env rt i) (HandlerTransient ''cleanup_queue_failed'') (\<lambda>_.
     tx_return (HandlerDone ''Migration complete''))))"

definition migrationHandler :: "mig_env \<Rightarrow> job_runtime \<Rightarrow> bool \<Rightarrow> (nat \<Rightarrow> bool) \<Rightarrow> bool \<Rightarrow> string \<Rightarrow> nat \<Rightarrow> handler_end mig_tx" where
  "migrationHandler env rt paused canceled lastAttempt jobID i =
     orEnd (tx_first (migrationById i)) (HandlerPermanent ''migration_missing'') (\<lambda>m.
     tx_bind (abortRunning m) (\<lambda>running.
     if running then tx_return (HandlerRetry ''abort_cleanup_running'' (5 * second))
     else if mg_Status m \<in> {MigrationRetainingOriginals, MigrationCompleted, MigrationOriginalsRetained}
     then (if mg_CleanupJobID m = [] \<and> mg_Status m = MigrationRetainingOriginals
       then orEnd (scheduleCleanup env rt i) (HandlerTransient ''cleanup_queue_failed'') (\<lambda>_. tx_return (HandlerDone ''Migration complete''))
       else tx_return (HandlerDone ''Migration complete''))
     else tx_bind (tx_try (prepareRetry i)) (\<lambda>r. case r of
         Inl e \<Rightarrow> tx_return (if e = App ErrMigrationConflict then HandlerPermanent ''migration_conflict''
           else HandlerTransient ''migration_reservation_failed'')
       | Inr _ \<Rightarrow>
         orEnd (updateMigration i (\<lambda>m. m\<lparr>mg_Status := MigrationRunning, mg_Phase := ''Migrating videos'',
             mg_StartedAt := (case mg_StartedAt m of None \<Rightarrow> Some (me_now env) | Some t \<Rightarrow> Some t),
             mg_BackgroundJobID := jobID, mg_ErrorCode := []\<rparr>)) (HandlerTransient ''migration_state_failed'') (\<lambda>_.
         orEnd (tx_select (\<lambda>w. sort_key mi_ID (filter (\<lambda>it. mi_MigrationID it = i \<and>
             mi_Status it \<notin> {ItemCleanupPending, ItemCleaned, ItemDeleted}) (mw_items w)))) (HandlerTransient ''migration_items_failed'') (\<lambda>items.
         tx_bind (tx_try (runItems env canceled m items)) (\<lambda>r. case r of
             Inl e \<Rightarrow> runFailed env rt paused lastAttempt i e
           | Inr _ \<Rightarrow> finishRun env rt i))))))"

section \<open>The cleanup task\<close>

definition cleanupStopped :: "bool \<Rightarrow> nat \<Rightarrow> handler_end mig_tx" where
  "cleanupStopped paused i =
     tx_bind (tx_ignore (if paused then setStatus i MigrationPaused ''Cleanup paused''
       else setStatus i MigrationCanceled ''Cleanup canceled; remaining originals retained'')) (\<lambda>_.
     tx_return HandlerStopped)"

definition keptInstead :: "nat \<Rightarrow> bool mig_tx" where
  "keptInstead i = tx_bind (tx_try (tx_first (migrationById i))) (\<lambda>r.
     tx_return (case r of Inl _ \<Rightarrow> False | Inr m \<Rightarrow> mg_KeepOriginals m))"

definition cleanupFailed :: "bool \<Rightarrow> nat \<Rightarrow> media_error txerr \<Rightarrow> handler_end mig_tx" where
  "cleanupFailed paused i e =
     (if e = App ErrEncodingActive
      then tx_bind (tx_ignore (setStatus i MigrationCleaningOriginals ''Waiting for video encoding to finish'')) (\<lambda>_.
        tx_return (HandlerDeferred ''encoding_active'' encodingRetry))
      else tx_bind (tx_try tx_check) (\<lambda>ctx.
        if isl ctx then tx_bind (keptInstead i) (\<lambda>kept. if kept then tx_return HandlerStopped else cleanupStopped paused i)
        else tx_return (HandlerTransient ''cleanup_failed'')))"

fun cleanupItems :: "mig_env \<Rightarrow> bool \<Rightarrow> nat \<Rightarrow> item_row list \<Rightarrow> handler_end option mig_tx" where
  "cleanupItems env paused i [] = tx_return None"
| "cleanupItems env paused i (item # items) =
     tx_bind (tx_try (cleanupItem env item)) (\<lambda>r. case r of
       Inl e \<Rightarrow> tx_bind (cleanupFailed paused i e) (\<lambda>stop. tx_return (Some stop))
     | Inr _ \<Rightarrow> tx_bind (tx_try (refreshProgress i)) (\<lambda>r.
         if isl r then tx_return (Some (HandlerTransient ''cleanup_progress_failed''))
         else tx_bind (tx_try tx_check) (\<lambda>ctx.
           if isl ctx then tx_bind (cleanupStopped paused i) (\<lambda>stop. tx_return (Some stop))
           else cleanupItems env paused i items)))"

definition cleanupHandler :: "mig_env \<Rightarrow> bool \<Rightarrow> nat \<Rightarrow> handler_end mig_tx" where
  "cleanupHandler env paused i =
     orEnd (tx_first (migrationById i)) (HandlerPermanent ''migration_missing'') (\<lambda>m.
     if mg_KeepOriginals m \<or> mg_Status m = MigrationOriginalsRetained then tx_return (HandlerDone ''Originals retained'')
     else orEnd (setStatus i MigrationCleaningOriginals ''Cleaning original copies'') (HandlerTransient ''cleanup_state_failed'') (\<lambda>_.
       orEnd (tx_select (\<lambda>w. sort_key mi_ID (filter (\<lambda>it. mi_MigrationID it = i \<and> mi_Status it \<notin> {ItemCleaned, ItemDeleted}) (mw_items w))))
         (HandlerTransient ''cleanup_items_failed'') (\<lambda>items.
       tx_bind (cleanupItems env paused i items) (\<lambda>stop. case stop of
         Some r \<Rightarrow> tx_return r
       | None \<Rightarrow> tx_bind (keptInstead i) (\<lambda>kept.
           if kept then tx_return (HandlerDone ''Originals retained'')
           else orEnd (refreshProgress i) (HandlerTransient ''cleanup_progress_failed'') (\<lambda>_.
             orEnd (updateMigration i (\<lambda>m. m\<lparr>mg_Status := MigrationCompleted, mg_Phase := ''Migration and cleanup complete'',
               mg_CompletedAt := Some (me_now env)\<rparr>)) (HandlerTransient ''cleanup_state_failed'') (\<lambda>_.
             tx_return (HandlerDone ''Cleanup complete''))))))))"

section \<open>The task after a cancellation\<close>

fun abortItems :: "bool \<Rightarrow> nat \<Rightarrow> item_row list \<Rightarrow> handler_end option mig_tx" where
  "abortItems paused i [] = tx_return None"
| "abortItems paused i (item # items) =
     tx_bind (tx_try (cleanupCanceledItem item)) (\<lambda>r.
     tx_bind (tx_try tx_check) (\<lambda>ctx. case r of
       Inl e \<Rightarrow> tx_return (Some (if isl ctx then HandlerStopped else HandlerTransient ''abort_cleanup_failed''))
     | Inr _ \<Rightarrow>
         if isl ctx
         then tx_bind (tx_ignore (updateMigration i (\<lambda>m. m\<lparr>mg_Phase :=
             (if paused then ''Canceled; incomplete destination cleanup paused'' else ''Canceled; incomplete destination cleanup stopped'')\<rparr>))) (\<lambda>_.
           tx_return (Some HandlerStopped))
         else abortItems paused i items))"

definition mainRunning :: "migration_row \<Rightarrow> bool mig_tx" where
  "mainRunning m =
     (if mg_BackgroundJobID m = [] then tx_return False
      else tx_bind (tx_try (rt_Job (mg_BackgroundJobID m))) (\<lambda>r. case r of
          Inl _ \<Rightarrow> tx_return False | Inr d \<Rightarrow> tx_return (\<not> jobTerminal (jv_Status d))))"

definition abortHandler :: "bool \<Rightarrow> nat \<Rightarrow> handler_end mig_tx" where
  "abortHandler paused i =
     orEnd (tx_first (migrationById i)) (HandlerPermanent ''migration_missing'') (\<lambda>m.
     tx_bind (mainRunning m) (\<lambda>running.
     if running then tx_return (HandlerRetry ''migration_still_stopping'' (5 * second))
     else orEnd (tx_select (\<lambda>w. sort_key mi_ID (filter (\<lambda>it. mi_MigrationID it = i) (mw_items w))))
         (HandlerTransient ''abort_items_failed'') (\<lambda>items.
       tx_bind (abortItems paused i items) (\<lambda>stop. case stop of
         Some r \<Rightarrow> tx_return r
       | None \<Rightarrow> orEnd (refreshProgress i) (HandlerTransient ''abort_progress_failed'') (\<lambda>_.
           orEnd (updateMigration i (\<lambda>m. m\<lparr>mg_Status := MigrationCanceled,
             mg_Phase := ''Canceled; incomplete destination data cleaned and originals retained'', mg_ErrorCode := []\<rparr>))
             (HandlerTransient ''abort_state_failed'') (\<lambda>_.
           tx_return (HandlerDone ''Canceled migration cleaned'')))))))"

section \<open>Controls\<close>

definition stopCleanup :: "job_runtime \<Rightarrow> migration_row \<Rightarrow> unit mig_tx" where
  "stopCleanup rt m = tx_bind (tx_try (rt_Job (mg_CleanupJobID m))) (\<lambda>r. case r of
     Inl _ \<Rightarrow> tx_return ()
   | Inr d \<Rightarrow>
       if jv_Status d \<in> {JobSucceeded, JobSucceededWithWarnings} then tx_fail (App ErrMigrationConflict)
       else if jobTerminal (jv_Status d) then tx_return ()
       else cancelOrConflict rt (jv_ID d))"

definition KeepStorageMigrationOriginals :: "mig_env \<Rightarrow> job_runtime \<Rightarrow> string \<Rightarrow> migration_row mig_tx" where
  "KeepStorageMigrationOriginals env rt uuid =
     tx_bind (GetMigration uuid) (\<lambda>m.
     tx_bind (KeepOriginals env (stopCleanup rt m) m) (\<lambda>_.
     tx_first (migrationById (mg_ID m))))"

definition CancelFailedStorageMigration :: "mig_env \<Rightarrow> job_runtime \<Rightarrow> string \<Rightarrow> migration_row mig_tx" where
  "CancelFailedStorageMigration env rt uuid =
     tx_bind (GetMigration uuid) (\<lambda>m.
     tx_bind (tx_reject (mg_Status m \<noteq> MigrationFailed) ErrMigrationConflict) (\<lambda>_.
     tx_bind (if mg_BackgroundJobID m = [] then tx_return ()
       else tx_bind (rt_Job (mg_BackgroundJobID m)) (\<lambda>job. tx_reject (jv_Status job \<noteq> JobFailed) ErrMigrationConflict)) (\<lambda>_.
     tx_bind (EnsureAbortCleanup env rt (mg_ID m)) (\<lambda>_.
     tx_first (migrationById (mg_ID m))))))"

definition isRunningOrDue :: "mig_env \<Rightarrow> job_view \<Rightarrow> bool" where
  "isRunningOrDue env j \<longleftrightarrow> jv_Kind j = ''storage.migration.cleanup'' \<and>
     (jv_Status j \<in> {JobRunning, JobSucceeded, JobSucceededWithWarnings} \<or>
      (jv_Status j = JobQueued \<and> list_ex (\<lambda>t. \<not> afterNow env t) (jv_QueuedAt j)))"

definition waitingForCleanup :: "mig_env \<Rightarrow> migration_row \<Rightarrow> bool" where
  "waitingForCleanup env m \<longleftrightarrow> mg_Status m = MigrationRetainingOriginals \<and> \<not> mg_KeepOriginals m \<and> mg_CleanupJobID m \<noteq> [] \<and>
     afterNow env (mg_CleanupAfter m) \<and> mg_FileCount m \<noteq> 0 \<and> mg_FileCount m \<le> mg_CutoverCount m + mg_DeletedCount m"

definition stillWaiting :: "migration_row \<Rightarrow> migration_row \<Rightarrow> bool" where
  "stillWaiting m r \<longleftrightarrow> mg_ID r = mg_ID m \<and> mg_Status r = MigrationRetainingOriginals \<and> \<not> mg_KeepOriginals r \<and>
     mg_CleanupJobID r = mg_CleanupJobID m"

definition updateMigrations :: "(migration_row \<Rightarrow> bool) \<Rightarrow> (migration_row \<Rightarrow> migration_row) \<Rightarrow> nat mig_tx" where
  "updateMigrations p f = tx_stmt (\<lambda>w. Inr (affected p (mw_migrations w), w\<lparr>mw_migrations := update_where p f (mw_migrations w)\<rparr>))"

definition alreadyDue :: "mig_env \<Rightarrow> migration_row \<Rightarrow> media_error txerr \<Rightarrow> bool mig_tx" where
  "alreadyDue env m e =
     (if e \<noteq> App ErrJobConflict then tx_return False
      else tx_bind (tx_try (rt_Job (mg_CleanupJobID m))) (\<lambda>r. tx_return (case r of Inl _ \<Rightarrow> False | Inr j \<Rightarrow> isRunningOrDue env j)))"

definition StartCleanupNow :: "mig_env \<Rightarrow> job_runtime \<Rightarrow> string \<Rightarrow> migration_row mig_tx" where
  "StartCleanupNow env rt uuid =
     tx_bind (GetMigration uuid) (\<lambda>m.
     tx_bind (tx_reject (\<not> waitingForCleanup env m) ErrMigrationConflict) (\<lambda>_.
     tx_bind (rt_Job (mg_CleanupJobID m)) (\<lambda>job.
     tx_bind (tx_reject (jv_Kind job \<noteq> ''storage.migration.cleanup'' \<or> jv_Status job \<noteq> JobQueued) ErrMigrationConflict) (\<lambda>_.
     tx_bind (updateMigrations (stillWaiting m) (\<lambda>r. r\<lparr>mg_CleanupAfter := Some (me_now env), mg_Phase := ''Original cleanup starting''\<rparr>)) (\<lambda>n.
     tx_bind (tx_reject (n = 0) ErrMigrationConflict) (\<lambda>_.
     tx_bind (tx_try (rt_RunJobNow rt (mg_CleanupJobID m))) (\<lambda>r. case r of
       Inr _ \<Rightarrow> tx_first (migrationById (mg_ID m))
     | Inl e \<Rightarrow> tx_bind (alreadyDue env m e) (\<lambda>due.
         if due then tx_first (migrationById (mg_ID m))
         else tx_bind (tx_ignore (updateMigrations (\<lambda>r. stillWaiting m r \<and> mg_Phase r = ''Original cleanup starting'')
             (\<lambda>r. r\<lparr>mg_CleanupAfter := mg_CleanupAfter m, mg_Phase := mg_Phase m\<rparr>))) (\<lambda>_.
           tx_fail (if e = App ErrJobConflict then App ErrMigrationConflict else e))))))))))"

datatype job_control = ControlPause | ControlResume | ControlCancel | ControlRetry

definition reflectPause :: "string \<Rightarrow> nat \<Rightarrow> unit mig_tx" where
  "reflectPause kind i =
     (if kind = ''storage.migration.abort_cleanup'' then setStatus i MigrationCanceled ''Canceled; incomplete destination cleanup paused''
      else setStatus i MigrationPaused (if kind = ''storage.migration.cleanup'' then ''Original cleanup paused'' else ''Migration paused''))"

definition reflectResume :: "mig_env \<Rightarrow> string \<Rightarrow> migration_row \<Rightarrow> unit mig_tx" where
  "reflectResume env kind m =
     (if kind = ''storage.migration.abort_cleanup''
      then setStatus (mg_ID m) MigrationCanceled ''Canceled; cleaning incomplete destination data''
      else if kind = ''storage.migration.cleanup''
      then (if afterNow env (mg_CleanupAfter m)
        then setStatus (mg_ID m) MigrationRetainingOriginals ''Retaining originals until cleanup begins''
        else setStatus (mg_ID m) MigrationCleaningOriginals ''Cleaning original copies'')
      else setStatus (mg_ID m) MigrationRunning ''Migrating videos'')"

definition reflectCancel :: "mig_env \<Rightarrow> job_runtime \<Rightarrow> string \<Rightarrow> migration_row \<Rightarrow> unit mig_tx" where
  "reflectCancel env rt kind m =
     (if kind = ''storage.migration.cleanup''
      then tx_bind (KeepStorageMigrationOriginals env rt (mg_UUID m)) (\<lambda>_. tx_return ())
      else if kind = ''storage.migration'' then EnsureAbortCleanup env rt (mg_ID m)
      else if kind = ''storage.migration.abort_cleanup''
      then updateMigration (mg_ID m) (\<lambda>m. m\<lparr>mg_Phase := ''Canceled; incomplete destination cleanup stopped''\<rparr>)
      else tx_return ())"

definition reflectRetry :: "string \<Rightarrow> nat \<Rightarrow> unit mig_tx" where
  "reflectRetry kind i =
     (if kind = ''storage.migration''
      then updateMigration i (\<lambda>m. m\<lparr>mg_Status := MigrationQueued, mg_Phase := ''Waiting to resume migration'', mg_CleanupJobID := [],
        mg_CleanupAfter := None, mg_CanceledAt := None, mg_KeepOriginals := False, mg_ErrorCode := []\<rparr>)
      else if kind = ''storage.migration.abort_cleanup''
      then setStatus i MigrationCanceled ''Canceled; retrying incomplete destination cleanup''
      else tx_return ())"

definition ReflectJobControl :: "mig_env \<Rightarrow> job_runtime \<Rightarrow> job_view \<Rightarrow> job_control \<Rightarrow> unit mig_tx" where
  "ReflectJobControl env rt job action =
     (if jv_SubjectID job = [] then tx_return ()
      else tx_bind (GetMigration (jv_SubjectID job)) (\<lambda>m. case action of
          ControlPause \<Rightarrow> reflectPause (jv_Kind job) (mg_ID m)
        | ControlResume \<Rightarrow> reflectResume env (jv_Kind job) m
        | ControlCancel \<Rightarrow> reflectCancel env rt (jv_Kind job) m
        | ControlRetry \<Rightarrow> reflectRetry (jv_Kind job) (mg_ID m)))"

section \<open>Guards on mounts and pools\<close>

definition mountReserved :: "mig_env \<Rightarrow> string \<Rightarrow> mig_world \<Rightarrow> bool" where
  "mountReserved env m w \<longleftrightarrow> list_ex (\<lambda>it. (mi_SourceMountID it = m \<or> mi_DestinationMountID it = m) \<and>
     list_ex (\<lambda>g. mg_ID g = mi_MigrationID it \<and> (mi_ReservationKey it \<noteq> [] \<or>
       (mg_Status g \<in> {MigrationCanceled, MigrationOriginalsRetained} \<and> afterNow env (mg_CleanupAfter g)))) (mw_migrations w)) (mw_items w)"

definition ensureMountNotMigrating :: "mig_env \<Rightarrow> string \<Rightarrow> unit mig_tx" where
  "ensureMountNotMigrating env m = tx_bind (tx_select (mountReserved env m)) (\<lambda>b. tx_reject b ErrMigrationConflict)"

definition poolMigrating :: "nat \<Rightarrow> mig_world \<Rightarrow> bool" where
  "poolMigrating p w \<longleftrightarrow> list_ex (\<lambda>g. (mg_SourcePoolID g = p \<or> mg_DestinationPoolID g = p) \<and>
     mg_Status g \<notin> {MigrationCompleted, MigrationCanceled, MigrationOriginalsRetained}) (mw_migrations w)"

definition ensurePoolNotMigrating :: "nat \<Rightarrow> unit mig_tx" where
  "ensurePoolNotMigrating p = tx_bind (tx_select (poolMigrating p)) (\<lambda>b. tx_reject b ErrMigrationConflict)"

end
