(* ===== verification/MgReconcile.thy ===== *)
theory MgReconcile
  imports MgControl
begin

text \<open>The periodic reconciliation of the migrations with their jobs. Its result is how the task ends,
  or the number of migrations it repaired.\<close>

type_synonym 'a reconcile = "(handler_end + 'a) mig_tx"

definition orStop :: "'a mig_tx \<Rightarrow> string \<Rightarrow> ('a \<Rightarrow> 'b reconcile) \<Rightarrow> 'b reconcile" where
  "orStop m code f = tx_bind (tx_try m) (\<lambda>r. case r of Inl _ \<Rightarrow> tx_return (Inl (HandlerTransient code)) | Inr x \<Rightarrow> f x)"

definition repaired :: "nat reconcile" where "repaired = tx_return (Inr 1)"

definition unchanged :: "nat reconcile" where "unchanged = tx_return (Inr 0)"

definition repairStatus :: "bool \<Rightarrow> nat \<Rightarrow> migration_status \<Rightarrow> string \<Rightarrow> nat reconcile" where
  "repairStatus needed i s p =
     (if needed then orStop (setStatus i s p) ''migration_reconcile_state_failed'' (\<lambda>_. repaired) else unchanged)"

section \<open>A migration whose cleanup job is linked\<close>

definition restorePaused :: "job_runtime \<Rightarrow> nat \<Rightarrow> string \<Rightarrow> nat reconcile" where
  "restorePaused rt i job =
     orStop (pauseOrConflict rt job) ''migration_reconcile_pause_failed'' (\<lambda>_.
     orStop (setStatus i MigrationPaused ''Original cleanup paused'') ''migration_reconcile_state_failed'' (\<lambda>_. repaired))"

definition cleanupLost :: "mig_env \<Rightarrow> job_runtime \<Rightarrow> migration_row \<Rightarrow> nat reconcile" where
  "cleanupLost env rt m =
     (if mg_Status m = MigrationCanceled
      then orStop (EnsureAbortCleanup env rt (mg_ID m)) ''migration_reconcile_abort_failed'' (\<lambda>_. repaired)
      else orStop (updateMigration (mg_ID m) (\<lambda>m. m\<lparr>mg_CleanupJobID := []\<rparr>)) ''migration_reconcile_link_failed'' (\<lambda>_.
        orStop (scheduleCleanup env rt (mg_ID m)) ''migration_reconcile_cleanup_failed'' (\<lambda>job.
        if mg_Status m = MigrationPaused then restorePaused rt (mg_ID m) job else repaired)))"

definition cleanupDone :: "mig_env \<Rightarrow> nat \<Rightarrow> nat reconcile" where
  "cleanupDone env i =
     orStop (refreshProgress i) ''migration_reconcile_progress_failed'' (\<lambda>_.
     orStop (updateMigration i (\<lambda>m. m\<lparr>mg_Status := MigrationCompleted, mg_Phase := ''Migration and cleanup complete'',
       mg_CompletedAt := Some (me_now env)\<rparr>)) ''migration_reconcile_state_failed'' (\<lambda>_. repaired))"

definition cleanupWaiting :: "mig_env \<Rightarrow> migration_row \<Rightarrow> job_view \<Rightarrow> migration_status \<times> string" where
  "cleanupWaiting env m job =
     (if jv_Status job \<noteq> JobRunning \<and> afterNow env (mg_CleanupAfter m)
      then (MigrationRetainingOriginals, ''Retaining originals until cleanup begins'')
      else (MigrationCleaningOriginals, ''Cleaning original copies''))"

definition followCleanup :: "mig_env \<Rightarrow> job_runtime \<Rightarrow> migration_row \<Rightarrow> job_view \<Rightarrow> nat reconcile" where
  "followCleanup env rt m job = (case jv_Status job of
       JobCanceled \<Rightarrow> orStop (KeepStorageMigrationOriginals env rt (mg_UUID m)) ''migration_reconcile_retention_failed'' (\<lambda>_. repaired)
     | JobPauseRequested \<Rightarrow> repairStatus (mg_Status m \<noteq> MigrationPaused) (mg_ID m) MigrationPaused ''Original cleanup paused''
     | JobPaused \<Rightarrow> repairStatus (mg_Status m \<noteq> MigrationPaused) (mg_ID m) MigrationPaused ''Original cleanup paused''
     | JobSucceeded \<Rightarrow> cleanupDone env (mg_ID m)
     | JobSucceededWithWarnings \<Rightarrow> cleanupDone env (mg_ID m)
     | JobFailed \<Rightarrow>
         if mg_Phase m = ''Original cleanup needs attention'' then unchanged
         else orStop (updateMigration (mg_ID m) (\<lambda>m. m\<lparr>mg_Phase := ''Original cleanup needs attention'', mg_ErrorCode := jv_ErrorCode job\<rparr>))
           ''migration_reconcile_state_failed'' (\<lambda>_. repaired)
     | JobCancelRequested \<Rightarrow> unchanged
     | _ \<Rightarrow> (let sp = cleanupWaiting env m job
         in repairStatus ((mg_Status m, mg_Phase m) \<noteq> sp) (mg_ID m) (fst sp) (snd sp)))"

definition abortPhase :: "job_status \<Rightarrow> string" where
  "abortPhase s =
     (if s \<in> {JobPauseRequested, JobPaused} then ''Canceled; incomplete destination cleanup paused''
      else if s = JobCanceled then ''Canceled; incomplete destination cleanup stopped''
      else if s = JobFailed then ''Canceled; incomplete destination cleanup needs attention''
      else if s \<in> {JobSucceeded, JobSucceededWithWarnings} then ''Canceled; incomplete destination data cleaned and originals retained''
      else ''Canceled; cleaning incomplete destination data'')"

definition followAbort :: "migration_row \<Rightarrow> job_view \<Rightarrow> nat reconcile" where
  "followAbort m job = repairStatus (mg_Status m \<noteq> MigrationCanceled \<or> mg_Phase m \<noteq> abortPhase (jv_Status job)) (mg_ID m)
     MigrationCanceled (abortPhase (jv_Status job))"

definition reconcileLinked :: "mig_env \<Rightarrow> job_runtime \<Rightarrow> migration_row \<Rightarrow> nat reconcile" where
  "reconcileLinked env rt m =
     tx_bind (tx_try (rt_Job (mg_CleanupJobID m))) (\<lambda>r. case r of
       Inl e \<Rightarrow> if e = RecordNotFound then cleanupLost env rt m
         else tx_return (Inl (HandlerTransient ''migration_reconcile_job_failed''))
     | Inr job \<Rightarrow>
         if jv_Kind job = ''storage.migration.cleanup'' then followCleanup env rt m job
         else if jv_Kind job = ''storage.migration.abort_cleanup'' then followAbort m job
         else unchanged)"

section \<open>A migration that still copies\<close>

definition mainMissing :: "migration_row \<Rightarrow> bool reconcile" where
  "mainMissing m =
     tx_bind (tx_try (tx_first (\<lambda>w. if mg_BackgroundJobID m \<noteq> [] then jobViewById (mg_BackgroundJobID m) w
       else latestJob ''storage.migration'' (mg_UUID m) w))) (\<lambda>r. case r of
       Inl e \<Rightarrow> tx_return (if e = RecordNotFound then Inr True else Inl (HandlerTransient ''migration_reconcile_main_failed''))
     | Inr _ \<Rightarrow> tx_return (Inr False))"

definition orLeave :: "'a reconcile \<Rightarrow> ('a \<Rightarrow> 'b reconcile) \<Rightarrow> 'b reconcile" where
  "orLeave m f = tx_bind m (\<lambda>r. case r of Inl stop \<Rightarrow> tx_return (Inl stop) | Inr x \<Rightarrow> f x)"

definition pausedMain :: "job_runtime \<Rightarrow> bool \<Rightarrow> migration_row \<Rightarrow> job_view \<Rightarrow> (job_view \<Rightarrow> nat reconcile) \<Rightarrow> nat reconcile" where
  "pausedMain rt missing m job f =
     (if missing \<and> mg_Status m = MigrationPaused \<and> jv_Status job \<notin> {JobPaused, JobPauseRequested}
      then orStop (pauseOrConflict rt (jv_ID job)) ''migration_reconcile_pause_failed'' (\<lambda>_.
        orStop (EnsureJob rt (mg_ID m)) ''migration_reconcile_main_failed'' f)
      else f job)"

definition followMain :: "mig_env \<Rightarrow> job_runtime \<Rightarrow> migration_row \<Rightarrow> job_view \<Rightarrow> nat reconcile" where
  "followMain env rt m job = (case jv_Status job of
       JobCanceled \<Rightarrow> orStop (EnsureAbortCleanup env rt (mg_ID m)) ''migration_reconcile_abort_failed'' (\<lambda>_. repaired)
     | JobPauseRequested \<Rightarrow> repairStatus (mg_Status m \<noteq> MigrationPaused) (mg_ID m) MigrationPaused ''Migration paused''
     | JobPaused \<Rightarrow> repairStatus (mg_Status m \<noteq> MigrationPaused) (mg_ID m) MigrationPaused ''Migration paused''
     | JobQueued \<Rightarrow> repairStatus (mg_Status m \<noteq> MigrationQueued) (mg_ID m) MigrationQueued ''Waiting to resume migration''
     | JobRetryWait \<Rightarrow> repairStatus (mg_Status m \<noteq> MigrationQueued) (mg_ID m) MigrationQueued ''Waiting to resume migration''
     | JobRunning \<Rightarrow> repairStatus (mg_Status m \<noteq> MigrationRunning) (mg_ID m) MigrationRunning ''Migrating videos''
     | JobSucceeded \<Rightarrow> orStop (scheduleCleanup env rt (mg_ID m)) ''migration_reconcile_cleanup_failed'' (\<lambda>_. repaired)
     | JobSucceededWithWarnings \<Rightarrow> orStop (scheduleCleanup env rt (mg_ID m)) ''migration_reconcile_cleanup_failed'' (\<lambda>_. repaired)
     | JobFailed \<Rightarrow>
         if mg_Status m = MigrationFailed then unchanged
         else orStop (updateMigration (mg_ID m) (\<lambda>m. m\<lparr>mg_Status := MigrationFailed, mg_Phase := ''Migration needs attention'',
           mg_ErrorCode := jv_ErrorCode job\<rparr>)) ''migration_reconcile_state_failed'' (\<lambda>_. repaired)
     | JobCancelRequested \<Rightarrow> unchanged)"

definition reconcileMain :: "mig_env \<Rightarrow> job_runtime \<Rightarrow> migration_row \<Rightarrow> nat reconcile" where
  "reconcileMain env rt m =
     orLeave (mainMissing m) (\<lambda>missing.
     orStop (EnsureJob rt (mg_ID m)) ''migration_reconcile_main_failed'' (\<lambda>job.
     orLeave (pausedMain rt missing m job (followMain env rt m)) (\<lambda>n.
     tx_return (Inr (n + (if mg_BackgroundJobID m \<noteq> jv_ID job then 1 else 0))))))"

section \<open>All migrations\<close>

definition reconcileMigration :: "mig_env \<Rightarrow> job_runtime \<Rightarrow> migration_row \<Rightarrow> nat reconcile" where
  "reconcileMigration env rt m =
     (if mg_CleanupJobID m \<noteq> [] then reconcileLinked env rt m
      else if mg_Status m = MigrationCanceled
      then orStop (EnsureAbortCleanup env rt (mg_ID m)) ''migration_reconcile_abort_failed'' (\<lambda>_. repaired)
      else if mg_Status m \<in> {MigrationRetainingOriginals, MigrationCleaningOriginals}
      then orStop (scheduleCleanup env rt (mg_ID m)) ''migration_reconcile_cleanup_failed'' (\<lambda>_. repaired)
      else reconcileMain env rt m)"

fun reconcileAll :: "mig_env \<Rightarrow> job_runtime \<Rightarrow> nat \<Rightarrow> migration_row list \<Rightarrow> nat reconcile" where
  "reconcileAll env rt n [] = tx_return (Inr n)"
| "reconcileAll env rt n (m # ms) =
     tx_bind (tx_try tx_check) (\<lambda>ctx.
     if isl ctx then tx_return (Inl HandlerStopped)
     else tx_bind (reconcileMigration env rt m) (\<lambda>r. case r of
         Inl stop \<Rightarrow> tx_return (Inl stop)
       | Inr k \<Rightarrow> reconcileAll env rt (n + k) ms))"

definition reconcilable :: "migration_status set" where
  "reconcilable = {MigrationQueued, MigrationRunning, MigrationPaused, MigrationCanceled, MigrationRetainingOriginals, MigrationCleaningOriginals}"

definition reconcileHandler :: "mig_env \<Rightarrow> job_runtime \<Rightarrow> nat reconcile" where
  "reconcileHandler env rt =
     orStop (tx_select (\<lambda>w. sort_key mg_ID (filter (\<lambda>m. mg_Status m \<in> reconcilable) (mw_migrations w))))
       ''migration_reconcile_load_failed'' (reconcileAll env rt 0)"

end
