(* ===== verification/MgHandlersSafe.thy ===== *)
theory MgHandlersSafe
  imports MgPlanOK MgReconcile
begin

text \<open>The start, the handlers, the controls and the reconciliation keep the media safe.\<close>

section \<open>Calls of the runtime and of the migrations\<close>

lemma jobsOnly_same:
  assumes "jobsOnly w w'"
  shows "mw_files w' = mw_files w" "mw_items w' = mw_items w" "sw_stores w' = sw_stores w"
proof -
  have w': "w' = w\<lparr>mw_jobs := mw_jobs w'\<rparr>" using assms by (simp add: jobsOnly_def)
  show "mw_files w' = mw_files w" using arg_cong [OF w', of mw_files] by simp
  show "mw_items w' = mw_items w" using arg_cong [OF w', of mw_items] by simp
  show "sw_stores w' = sw_stores w" using arg_cong [OF w', of sw_stores] by simp
qed

lemma always_jobs: "(\<And>w0. always (jobsOnly w0) m) \<Longrightarrow> always (mediaSafe orig) m"
  unfolding always_def
proof (intro allI impI)
  fix w fs assume m: "\<And>w0. \<forall>d fs. jobsOnly w0 d \<longrightarrow> jobsOnly w0 (fst (snd (m (d, fs))))" and safe: "mediaSafe orig w"
  have "jobsOnly w (fst (snd (m (w, fs))))" using m [of w] by (simp add: jobsOnly_def)
  from mediaSafe_cong [OF jobsOnly_same [OF this], of orig] safe show "mediaSafe orig (fst (snd (m (w, fs))))" by simp
qed

lemma always_runtime:
  assumes "runtimeOK rt"
  shows "always (mediaSafe orig) (rt_Enqueue rt s)" "always (mediaSafe orig) (rt_PauseJob rt i)"
    "always (mediaSafe orig) (rt_CancelJob rt i)" "always (mediaSafe orig) (rt_RunJobNow rt i)"
  using assms by (auto intro!: always_jobs simp: runtimeOK_def)

lemma always_migrations:
  "always (mediaSafe orig) (updateMigration i f)" "always (mediaSafe orig) (updateMigrations p f)"
  "always (mediaSafe orig) (setStatus i s t)" "always (mediaSafe orig) (refreshProgress i)"
proof -
  show u: "always (mediaSafe orig) (updateMigration i f)" for i f by (rule always_media) (rule safe_updateMigration)
  then show "always (mediaSafe orig) (setStatus i s t)" by (simp add: setStatus_def)
  show "always (mediaSafe orig) (refreshProgress i)" by (rule always_media) (rule safe_refreshProgress)
  show "always (mediaSafe orig) (updateMigrations p f)"
    unfolding updateMigrations_def
    by (rule always_stmt) (auto simp: mediaSafe_def filesOK_def itemOK_def sameVideo_def gone_def destinationTrue_def
      intact_def copiesTrue_def isFile_def)
qed

lemma always_Job: "always J (rt_Job i)"
  unfolding rt_Job_def by (rule always_first)

lemma always_case_sum: "(\<And>e. always J (f e)) \<Longrightarrow> (\<And>x. always J (g x)) \<Longrightarrow> always J (case_sum f g r)"
  by (cases r) simp_all

lemma always_case_option: "always J n \<Longrightarrow> (\<And>x. always J (g x)) \<Longrightarrow> always J (case_option n g r)"
  by (cases r) simp_all

lemma always_orEnd: "always J m \<Longrightarrow> (\<And>x. always J (f x)) \<Longrightarrow> always J (orEnd m s f)"
  unfolding orEnd_def by (intro always_bind always_try always_case_sum always_return)

lemma always_orStop: "always J m \<Longrightarrow> (\<And>x. always J (f x)) \<Longrightarrow> always J (orStop m s f)"
  unfolding orStop_def by (intro always_bind always_try always_case_sum always_return)

lemma always_orLeave: "always J m \<Longrightarrow> (\<And>x. always J (f x)) \<Longrightarrow> always J (orLeave m f)"
  unfolding orLeave_def by (intro always_bind always_case_sum always_return)

lemmas always_walk = always_return always_fail always_bind always_catch always_reject always_select always_first always_if
  always_try always_ignore always_check always_migrations always_Job always_case_sum always_case_option always_orEnd
  always_orStop always_orLeave always_foreach

section \<open>Jobs\<close>

lemma always_ensureJob:
  assumes "runtimeOK rt"
  shows "always (mediaSafe orig) (ensureJob rt m)" "always (mediaSafe orig) (EnsureJob rt i)"
proof -
  show e: "always (mediaSafe orig) (ensureJob rt m)" for m
    unfolding ensureJob_def queueJob_def linkJob_def
    by (intro always_walk always_runtime [OF assms])
  show "always (mediaSafe orig) (EnsureJob rt i)"
    unfolding EnsureJob_def by (intro always_walk e)
qed

lemma always_scheduleCleanup: "runtimeOK rt \<Longrightarrow> always (mediaSafe orig) (scheduleCleanup env rt i)"
  unfolding scheduleCleanup_def Let_def by (intro always_walk always_runtime)

lemma always_abort:
  assumes "runtimeOK rt"
  shows "always (mediaSafe orig) (EnsureAbortCleanup env rt i)"
  unfolding EnsureAbortCleanup_def queueAbort_def cancelOrConflict_def Let_def
  by (intro always_walk always_runtime [OF assms])

section \<open>Starting\<close>

lemma always_byRequest: "runtimeOK rt \<Longrightarrow> always (mediaSafe orig) (byRequest env rt key input)"
  unfolding byRequest_def by (intro always_walk always_ensureJob)

lemma always_queueFailed: "always (mediaSafe orig) (queueFailed i)"
proof -
  have m: "modest (\<lambda>it. it\<lparr>mi_ReservationKey := []\<rparr>)" by (simp add: modest_def keepsIdentity_def ident_def)
  show ?thesis
    unfolding queueFailed_def
    by (intro always_ignore always_transaction [OF always_wp] always_bind always_media_modest [OF m] always_migrations)
qed

lemma always_StartMigration:
  assumes rt: "runtimeOK rt" and between: "always (mediaSafe orig) between"
  shows "always (mediaSafe orig) (StartMigration env rt between uuid input actor name)"
proof -
  let ?created = "\<lambda>plan. tx_bind (tx_try (createRows uuid (requestKey env actor (in_IdempotencyKey input)) input plan actor name)) (\<lambda>created. case created of
          Inl e \<Rightarrow> if e = DuplicatedKey
            then tx_bind (byRequest env rt (requestKey env actor (in_IdempotencyKey input)) input) (\<lambda>found. case found of Some r \<Rightarrow> tx_return r | None \<Rightarrow> tx_fail e)
            else tx_fail e
        | Inr m \<Rightarrow>
          tx_bind (tx_try (ensureJob rt m)) (\<lambda>queued. case queued of
            Inl e \<Rightarrow> tx_bind (queueFailed (mg_ID m)) (\<lambda>_. tx_fail e)
          | Inr job \<Rightarrow>
            tx_bind (tx_ignore (updateMigration (mg_ID m) (\<lambda>m. m\<lparr>mg_BackgroundJobID := jv_ID job, mg_Phase := ''Waiting to start'',
              mg_StartedAt := Some (me_now env)\<rparr>))) (\<lambda>_.
            tx_return (m\<lparr>mg_BackgroundJobID := jv_ID job, mg_StartedAt := Some (me_now env)\<rparr>, job))))"
  have rest: "ends (?created plan) (\<lambda>_. mediaSafe orig) w" if "planSafe w plan" "mediaSafe orig w" for plan w
  proof (rule ends_bind, rule ends_try, rule ends_mono [OF createRows_safe [OF that]])
    fix r w' assume w': "mediaSafe orig w'"
    have "always (mediaSafe orig) (case created of
          Inl e \<Rightarrow> if e = DuplicatedKey
            then tx_bind (byRequest env rt (requestKey env actor (in_IdempotencyKey input)) input) (\<lambda>found. case found of Some r \<Rightarrow> tx_return r | None \<Rightarrow> tx_fail e)
            else tx_fail e
        | Inr m \<Rightarrow>
          tx_bind (tx_try (ensureJob rt m)) (\<lambda>queued. case queued of
            Inl e \<Rightarrow> tx_bind (queueFailed (mg_ID m)) (\<lambda>_. tx_fail e)
          | Inr job \<Rightarrow>
            tx_bind (tx_ignore (updateMigration (mg_ID m) (\<lambda>m. m\<lparr>mg_BackgroundJobID := jv_ID job, mg_Phase := ''Waiting to start'',
              mg_StartedAt := Some (me_now env)\<rparr>))) (\<lambda>_.
            tx_return (m\<lparr>mg_BackgroundJobID := jv_ID job, mg_StartedAt := Some (me_now env)\<rparr>, job))))" for created
      by (intro always_walk always_byRequest [OF rt] always_ensureJob [OF rt] always_queueFailed)
    from ends_always [OF this w']
    show "(\<forall>e. Inr r = Inl e \<longrightarrow> mediaSafe orig w') \<and> (\<forall>x. Inr r = Inr x \<longrightarrow> ends (case x of
          Inl e \<Rightarrow> if e = DuplicatedKey
            then tx_bind (byRequest env rt (requestKey env actor (in_IdempotencyKey input)) input) (\<lambda>found. case found of Some r \<Rightarrow> tx_return r | None \<Rightarrow> tx_fail e)
            else tx_fail e
        | Inr m \<Rightarrow>
          tx_bind (tx_try (ensureJob rt m)) (\<lambda>queued. case queued of
            Inl e \<Rightarrow> tx_bind (queueFailed (mg_ID m)) (\<lambda>_. tx_fail e)
          | Inr job \<Rightarrow>
            tx_bind (tx_ignore (updateMigration (mg_ID m) (\<lambda>m. m\<lparr>mg_BackgroundJobID := jv_ID job, mg_Phase := ''Waiting to start'',
              mg_StartedAt := Some (me_now env)\<rparr>))) (\<lambda>_.
            tx_return (m\<lparr>mg_BackgroundJobID := jv_ID job, mg_StartedAt := Some (me_now env)\<rparr>, job)))) (\<lambda>_. mediaSafe orig) w')"
      by simp
  qed
  have plan: "always (mediaSafe orig) (tx_bind (buildPlan env input) (\<lambda>plan.
        tx_bind (tx_reject (\<not> sameFiles (pl_files first) (pl_files plan)) ErrMigrationConflict) (\<lambda>_.
        tx_bind (tx_reject (trimSpace (in_PlanFingerprint input) = [] \<or> trimSpace (in_PlanFingerprint input) \<noteq> pl_fingerprint plan)
          ErrMigrationConflict) (\<lambda>_. ?created plan))))" for first
    by (rule always_ends, rule ends_bind, rule ends_mono [OF buildPlan_result])
      (auto intro!: ends_bind_reject rest dest: planOK_safe)
  show ?thesis
    unfolding StartMigration_def Let_def
    by (intro always_if always_fail always_bind always_byRequest [OF rt] always_case_option always_return between plan)
      (rule reads_always [OF reads_buildPlan])
qed

section \<open>The tasks\<close>

lemma always_handler_parts:
  "always (mediaSafe orig) (abortRunning m)" "always (mediaSafe orig) (mainRunning m)" "always (mediaSafe orig) (keptInstead i)"
  "always (mediaSafe orig) (cleanupStopped paused i)" "always (mediaSafe orig) (cleanupFailed paused i e)"
proof -
  show k: "always (mediaSafe orig) (keptInstead i)" unfolding keptInstead_def by (intro always_walk)
  show s: "always (mediaSafe orig) (cleanupStopped paused i)" unfolding cleanupStopped_def by (intro always_walk)
  show "always (mediaSafe orig) (cleanupFailed paused i e)" unfolding cleanupFailed_def by (intro always_walk k s)
  show "always (mediaSafe orig) (abortRunning m)" unfolding abortRunning_def by (intro always_walk)
  show "always (mediaSafe orig) (mainRunning m)" unfolding mainRunning_def by (intro always_walk)
qed

lemma always_runItems: "honest env \<Longrightarrow> always (mediaSafe orig) (runItems env canceled m items)"
  unfolding runItems_def by (intro always_walk safe_migrateItem)

lemma always_migrationHandler:
  assumes "honest env" "runtimeOK rt"
  shows "always (mediaSafe orig) (migrationHandler env rt paused canceled lastAttempt jobID i)"
proof -
  have r: "always (mediaSafe orig) (runFailed env rt paused lastAttempt i e)" for e
    unfolding runFailed_def Let_def by (intro always_walk always_abort [OF assms(2)])
  have f: "always (mediaSafe orig) (finishRun env rt i)"
    unfolding finishRun_def by (intro always_walk always_scheduleCleanup [OF assms(2)])
  show ?thesis
    unfolding migrationHandler_def
    by (intro always_walk always_handler_parts always_scheduleCleanup [OF assms(2)] always_media [OF safe_prepareRetry]
      always_runItems [OF assms(1)] r f)
qed

lemma always_cleanupHandler: "always (mediaSafe orig) (cleanupHandler env paused i)"
proof -
  have c: "always (mediaSafe orig) (cleanupItems env paused i items)" for items
    by (induction items) (auto intro!: always_walk always_handler_parts always_media [OF safe_cleanupItem])
  show ?thesis unfolding cleanupHandler_def by (intro always_walk always_handler_parts c)
qed

lemma always_abortHandler: "always (mediaSafe orig) (abortHandler paused i)"
proof -
  have c: "always (mediaSafe orig) (abortItems paused i items)" for items
    by (induction items) (auto intro!: always_walk always_media [OF safe_cleanupCanceledItem])
  show ?thesis unfolding abortHandler_def by (intro always_walk always_handler_parts c)
qed

section \<open>The controls and the reconciliation\<close>

lemma always_Keep:
  assumes "runtimeOK rt"
  shows "always (mediaSafe orig) (KeepStorageMigrationOriginals env rt uuid)"
proof -
  have s: "always (mediaSafe orig) (stopCleanup rt m)" for m
    unfolding stopCleanup_def cancelOrConflict_def by (intro always_walk always_runtime [OF assms])
  have k: "always (mediaSafe orig) (keepItem i)" for i by (rule always_media) (rule safe_keepItem)
  show ?thesis
    unfolding KeepStorageMigrationOriginals_def GetMigration_def KeepOriginals_def finishKeeping_def countItems_def
    by (intro always_walk s k always_transaction [OF always_wp])
qed

lemma always_controls:
  assumes "runtimeOK rt"
  shows "always (mediaSafe orig) (CancelFailedStorageMigration env rt uuid)" "always (mediaSafe orig) (StartCleanupNow env rt uuid)"
    "always (mediaSafe orig) (ReflectJobControl env rt job action)"
proof -
  show "always (mediaSafe orig) (CancelFailedStorageMigration env rt uuid)"
    unfolding CancelFailedStorageMigration_def GetMigration_def by (intro always_walk always_abort [OF assms])
  show "always (mediaSafe orig) (StartCleanupNow env rt uuid)"
    unfolding StartCleanupNow_def GetMigration_def alreadyDue_def by (intro always_walk always_runtime [OF assms])
  show "always (mediaSafe orig) (ReflectJobControl env rt job action)"
    unfolding ReflectJobControl_def GetMigration_def reflectPause_def reflectResume_def reflectCancel_def reflectRetry_def
    by (cases action) (auto intro!: always_walk always_abort [OF assms] always_Keep [OF assms])
qed

lemma always_reconcileHandler:
  assumes "runtimeOK rt"
  shows "always (mediaSafe orig) (reconcileHandler env rt)"
proof -
  have p: "always (mediaSafe orig) (pauseOrConflict rt j)" for j
    unfolding pauseOrConflict_def by (intro always_walk always_runtime [OF assms])
  have s: "always (mediaSafe orig) (repairStatus b i s t)" "always (mediaSafe orig) repaired" "always (mediaSafe orig) unchanged" for b i s t
    unfolding repairStatus_def repaired_def unchanged_def by (intro always_walk)+
  have l: "always (mediaSafe orig) (cleanupLost env rt m)" for m
    unfolding cleanupLost_def restorePaused_def by (intro always_walk s p always_abort [OF assms] always_scheduleCleanup [OF assms])
  have d: "always (mediaSafe orig) (cleanupDone env i)" for i
    unfolding cleanupDone_def by (intro always_walk s)
  have c: "always (mediaSafe orig) (followCleanup env rt m job)" for m job
    unfolding followCleanup_def Let_def by (cases "jv_Status job") (auto intro!: always_walk s d always_Keep [OF assms])
  have a: "always (mediaSafe orig) (followAbort m job)" for m job
    unfolding followAbort_def by (rule s)
  have f: "always (mediaSafe orig) (followMain env rt m job)" for m job
    unfolding followMain_def by (cases "jv_Status job") (auto intro!: always_walk s always_abort [OF assms] always_scheduleCleanup [OF assms])
  have m: "always (mediaSafe orig) (reconcileMain env rt m)" for m
    unfolding reconcileMain_def mainMissing_def pausedMain_def by (intro always_walk p f always_ensureJob [OF assms])
  have one: "always (mediaSafe orig) (reconcileMigration env rt m)" for m
    unfolding reconcileMigration_def reconcileLinked_def
    by (intro always_walk s l c a m always_abort [OF assms] always_scheduleCleanup [OF assms])
  have "always (mediaSafe orig) (reconcileAll env rt n ms)" for n ms
    by (induction ms arbitrary: n) (auto intro!: always_walk one)
  then show ?thesis unfolding reconcileHandler_def by (intro always_walk)
qed

end
