(* ===== verification/MgSystem.thy ===== *)
theory MgSystem
  imports MgHandlersSafe
begin

text \<open>The migrations as a system: the stages, tasks, controls and the deleter in any order, between
  uploads, encodings and changes of the other tables.\<close>

section \<open>Operations\<close>

inductive mig_op :: "unit mig_tx \<Rightarrow> bool" where
  Copy: "honest env \<Longrightarrow> mig_op (tx_ignore (copyStage env item))"
| Final: "honest env \<Longrightarrow> mig_op (tx_ignore (finalStage env item pool))"
| Migrate: "honest env \<Longrightarrow> mig_op (tx_ignore (migrateItem env canceled m item))"
| Cleanup: "mig_op (tx_ignore (cleanupItem env item))"
| Abort: "mig_op (tx_ignore (cleanupCanceledItem item))"
| Retry: "mig_op (tx_ignore (prepareRetry i))"
| Start: "runtimeOK rt \<Longrightarrow> mig_op between \<Longrightarrow> mig_op (tx_ignore (StartMigration env rt between uuid input actor name))"
| MigrationTask: "honest env \<Longrightarrow> runtimeOK rt \<Longrightarrow> mig_op (tx_ignore (migrationHandler env rt paused canceledBy lastAttempt jobID i))"
| CleanupTask: "mig_op (tx_ignore (cleanupHandler env paused i))"
| AbortTask: "mig_op (tx_ignore (abortHandler paused i))"
| Keep: "runtimeOK rt \<Longrightarrow> mig_op (tx_ignore (KeepStorageMigrationOriginals env rt uuid))"
| CancelFailed: "runtimeOK rt \<Longrightarrow> mig_op (tx_ignore (CancelFailedStorageMigration env rt uuid))"
| CleanupNow: "runtimeOK rt \<Longrightarrow> mig_op (tx_ignore (StartCleanupNow env rt uuid))"
| Reflect: "runtimeOK rt \<Longrightarrow> mig_op (tx_ignore (ReflectJobControl env rt job action))"
| Reconcile: "runtimeOK rt \<Longrightarrow> mig_op (tx_ignore (reconcileHandler env rt))"
| Delete: "mig_op (tx_ignore (deleteFile env busy i))"
| Deleter: "mig_op (tx_ignore (runDeleter env preparing))"
| Nothing: "mig_op (tx_return ())"
| Then: "mig_op a \<Longrightarrow> mig_op b \<Longrightarrow> mig_op (tx_bind a (\<lambda>_. b))"

lemma mig_op_safe: "mig_op m \<Longrightarrow> always (mediaSafe orig) m"
  by (induction rule: mig_op.induct)
    (intro always_ignore always_bind always_return always_media [OF safe_copyStage] safe_finalStage safe_migrateItem
      always_media [OF safe_cleanupItem] always_media [OF safe_cleanupCanceledItem] always_media [OF safe_prepareRetry]
      always_StartMigration always_migrationHandler always_cleanupHandler always_abortHandler always_Keep always_controls
      always_reconcileHandler safe_deleteFile safe_runDeleter; assumption)+

section \<open>Steps\<close>

text \<open>A video not yet known: neither its row nor its identifiers exist.\<close>

definition freshVideo :: "mig_world \<Rightarrow> stored_file \<Rightarrow> bool" where
  "freshVideo w f \<longleftrightarrow> \<not> sf_Deleted f \<and> validUUID (sf_UUID f) \<and> sf_ID f \<notin> sf_ID ` set (mw_files w) \<and> sf_UUID f \<notin> sf_UUID ` set (mw_files w) \<and>
     sf_ID f \<notin> mi_FileID ` set (mw_items w) \<and> sf_UUID f \<notin> mi_FileUUID ` set (mw_items w)"

definition mediaAt :: "mig_world \<Rightarrow> string \<Rightarrow> string \<Rightarrow> string \<Rightarrow> string option" where
  "mediaAt w m u k = (if below u k then map_option ob_Body (map_of (sw_stores w m) k) else None)"

definition addFile :: "stored_file \<Rightarrow> mig_world \<Rightarrow> mig_world" where
  "addFile f w = w\<lparr>mw_files := mw_files w @ [f]\<rparr>"

definition addObject :: "string \<Rightarrow> string \<Rightarrow> obj \<Rightarrow> mig_world \<Rightarrow> mig_world" where
  "addObject m k ob = updateStore m (AList.update k ob)"

definition otherTables :: "mig_world \<Rightarrow> mig_world \<Rightarrow> bool" where
  "otherTables w w' \<longleftrightarrow> mw_files w' = mw_files w \<and> mw_items w' = mw_items w \<and> sw_stores w' = sw_stores w"

definition setAvailable :: "nat \<Rightarrow> bool \<Rightarrow> int \<Rightarrow> mig_world \<Rightarrow> mig_world" where
  "setAvailable i b n w = w\<lparr>mw_files := map (\<lambda>f. if sf_ID f = i then f\<lparr>sf_Available := b, sf_Size := n\<rparr> else f) (mw_files w)\<rparr>"

type_synonym mig_system = "(string \<Rightarrow> string \<rightharpoonup> string) \<times> mig_world"

inductive mig_step :: "mig_system \<Rightarrow> mig_system \<Rightarrow> bool" where
  Run: "mig_op m \<Longrightarrow> m (w, fs) = (r, w', fs') \<Longrightarrow> mig_step (orig, w) (orig, w')"
| Upload: "freshVideo w f \<Longrightarrow> mig_step (orig, w) (orig(sf_UUID f := mediaAt w (sf_StorageID f) (sf_UUID f)), addFile f w)"
| Encode: "isFile w f \<Longrightarrow> below (sf_UUID f) k \<Longrightarrow> orig (sf_UUID f) k = None \<Longrightarrow>
    mig_step (orig, w) (orig(sf_UUID f := (orig (sf_UUID f))(k \<mapsto> ob_Body ob)), addObject (sf_StorageID f) k ob w)"
| Others: "otherTables w w' \<Longrightarrow> mig_step (orig, w) (orig, w')"
| Availability: "mig_step (orig, w) (orig, setAvailable i b n w)"

definition migInit :: "mig_system \<Rightarrow> bool" where
  "migInit s \<longleftrightarrow> mw_items (snd s) = [] \<and> filesOK (fst s) (snd s)"

definition migInv :: "mig_system \<Rightarrow> bool" where
  "migInv s \<longleftrightarrow> mediaSafe (fst s) (snd s)"

section \<open>The media stay safe\<close>

lemma upload_safe:
  assumes safe: "mediaSafe orig w" and f: "freshVideo w f"
  shows "mediaSafe (orig(sf_UUID f := mediaAt w (sf_StorageID f) (sf_UUID f))) (addFile f w)"
proof -
  let ?orig = "orig(sf_UUID f := mediaAt w (sf_StorageID f) (sf_UUID f))" and ?w = "addFile f w"
  have files: "isFile ?w g \<longleftrightarrow> isFile w g \<or> g = f" for g using f by (auto simp: isFile_def addFile_def freshVideo_def)
  have other: "sf_UUID g \<noteq> sf_UUID f" "sf_ID g \<noteq> sf_ID f" if "isFile w g" for g
    using that f unfolding isFile_def freshVideo_def by (metis imageI)+
  have same: "intact ?orig ?w u m = intact orig w u m" "copiesTrue ?orig ?w u m = copiesTrue orig w u m" if "u \<noteq> sf_UUID f" for u m
    using that by (auto simp: intact_def copiesTrue_def addFile_def)
  have new: "intact ?orig ?w (sf_UUID f) (sf_StorageID f)" by (simp add: intact_def mediaAt_def addFile_def)
  have rows: "mw_files ?w = mw_files w @ [f]" by (simp add: addFile_def)
  have "intact ?orig ?w (sf_UUID g) (sf_StorageID g)" if "isFile ?w g" for g
    using that new same(1) [OF other(1)] mediaSafe_intact [OF safe] by (auto simp: files)
  with safe f have "filesOK ?orig ?w"
    by (auto simp: mediaSafe_def filesOK_def freshVideo_def rows)
  moreover have "itemOK ?orig ?w it" if it: "it \<in> set (mw_items w)" for it
  proof -
    have old: "itemOK orig w it" using safe it by (simp add: mediaSafe_def)
    have fresh: "sf_ID f \<noteq> mi_FileID it" "sf_UUID f \<noteq> mi_FileUUID it" using f it by (auto simp: freshVideo_def)
    then have "sameVideo (mw_files ?w) it" "gone (mw_files w) (mi_FileID it) \<longrightarrow> gone (mw_files ?w) (mi_FileID it)"
      using old by (auto simp: itemOK_def sameVideo_def gone_def addFile_def)
    moreover have "destinationTrue ?orig ?w it" if "destinationTrue orig w it"
      using that fresh other same(2) unfolding destinationTrue_def files by auto
    ultimately show ?thesis using old by (auto simp: itemOK_def)
  qed
  ultimately show ?thesis using safe by (simp add: mediaSafe_def addFile_def)
qed

lemma encode_safe:
  assumes safe: "mediaSafe orig w" and f: "isFile w f" "below (sf_UUID f) k" and new: "orig (sf_UUID f) k = None"
  shows "mediaSafe (orig(sf_UUID f := (orig (sf_UUID f))(k \<mapsto> ob_Body ob))) (addObject (sf_StorageID f) k ob w)"
proof -
  let ?orig = "orig(sf_UUID f := (orig (sf_UUID f))(k \<mapsto> ob_Body ob))" and ?w = "addObject (sf_StorageID f) k ob w"
  have files: "isFile ?w g = isFile w g" "mw_files ?w = mw_files w" "mw_items ?w = mw_items w" for g by (simp_all add: isFile_def addObject_def updateStore_def update_conv')
  have same: "g = f" if "isFile w g" "sf_UUID g = sf_UUID f" for g
    using that f(1) safe by (auto simp: isFile_def mediaSafe_def filesOK_def distinct_map inj_on_def)
  have apart: "k' \<noteq> k" if "isFile w g" "sf_UUID g \<noteq> sf_UUID f" "below (sf_UUID g) k'" for g k'
    using that f safe below_disjoint [of "sf_UUID g" "sf_UUID f" k] by (auto simp: isFile_def mediaSafe_def filesOK_def)
  have int: "intact ?orig ?w (sf_UUID g) (sf_StorageID g)" if g: "isFile w g" for g
    using mediaSafe_intact [OF safe g] same [OF g] apart [OF g] by (auto simp: intact_def addObject_def updateStore_def update_conv')
  have cop: "copiesTrue ?orig ?w (sf_UUID g) m" if g: "isFile w g" "copiesTrue orig w (sf_UUID g) m" for g m
    using g(2) same [OF g(1)] apart [OF g(1)] new by (fastforce simp: copiesTrue_def addObject_def updateStore_def update_conv' split: if_splits)
  have "filesOK ?orig ?w" using safe int by (simp add: mediaSafe_def filesOK_def files)
  moreover have "itemOK ?orig ?w it" if "it \<in> set (mw_items w)" for it
    using that safe cop by (auto simp: mediaSafe_def itemOK_def files destinationTrue_def)
  ultimately show ?thesis using safe by (simp add: mediaSafe_def files)
qed

lemma mig_step_inv: "migInv s \<Longrightarrow> mig_step s t \<Longrightarrow> migInv t"
proof (erule mig_step.cases, goal_cases)
  case (1 m w fs r w' fs' orig)
  from mig_op_safe [OF 1(4), of orig] 1 show ?case by (auto simp: migInv_def always_def) (metis fst_conv snd_conv)
next
  case (2 w f orig)
  then show ?case by (simp add: migInv_def upload_safe)
next
  case (3 w f k orig ob)
  then show ?case by (simp add: migInv_def encode_safe)
next
  case (4 w w' orig)
  then show ?case using mediaSafe_cong [of w' w orig] by (simp add: migInv_def otherTables_def)
next
  case (5 orig w i b n)
  then show ?case
    using mediaSafe_map_files [of orig w "\<lambda>f. if sf_ID f = i then f\<lparr>sf_Available := b, sf_Size := n\<rparr> else f"] mediaSafe_intact [of orig w]
    by (simp add: migInv_def setAvailable_def)
qed

lemma migInit_inv: "migInit s \<Longrightarrow> migInv s"
  by (simp add: migInit_def migInv_def mediaSafe_def reservedOnce_def)

interpretation migrations: invariant_system migInit mig_step migInv
  by unfold_locales (fact migInit_inv mig_step_inv)+

end
