(* ===== verification/MgEffects.thy ===== *)
theory MgEffects
  imports MgSystem
begin

text \<open>What the deletion of a video and the removal of an original leave behind.\<close>

section \<open>Deleting a prefix\<close>

definition cleared :: "string \<Rightarrow> string \<Rightarrow> mig_world \<Rightarrow> bool" where
  "cleared m u w \<longleftrightarrow> (\<forall>k. below u k \<longrightarrow> map_of (sw_stores w m) k = None)"

lemma deleteAll_faults:
  "deleteAll m ks errs (w, fs) = (Inr es, w', fs') \<Longrightarrow> e \<in> set es \<Longrightarrow> e \<in> set errs \<or> (\<exists>t. e = DbFault t)"
proof (induction ks arbitrary: errs w fs)
  case Nil
  then show ?case by (simp add: tx_return_def)
next
  case (Cons k ks errs w fs)
  obtain d w1 fs1 where d: "storeDelete m k (w, fs) = (d, w1, fs1)" by (cases "storeDelete m k (w, fs)") auto
  have fault: "\<exists>t. x = DbFault t" if "d = Inl x" for x
    using d that by (auto simp: storeDelete_def tx_update_def tx_stmt_def split: list.splits option.splits)
  show ?case
  proof (cases d)
    case (Inl x)
    with d Cons.prems(1) have "deleteAll m ks (errs @ [x]) (w1, fs1) = (Inr es, w', fs')"
      by (simp add: tx_bind_def tx_catch_def tx_return_def)
    from Cons.IH [OF this Cons.prems(2)] fault [OF Inl] show ?thesis by auto
  next
    case (Inr x)
    with d Cons.prems(1) have "deleteAll m ks errs (w1, fs1) = (Inr es, w', fs')"
      by (simp add: tx_bind_def tx_catch_def tx_return_def)
    from Cons.IH [OF this Cons.prems(2)] show ?thesis .
  qed
qed

lemma withoutKeys_get: "map_of (sw_stores (withoutKeys m E w) n) k = (if n = m \<and> k \<in> E then None else map_of (sw_stores w n) k)"
proof -
  have "map_of (filter (\<lambda>e. fst e \<notin> E) b) k = (if k \<in> E then None else map_of b k)" for b :: bucket
    by (induction b) auto
  then show ?thesis by (simp add: withoutKeys_def updateStore_def)
qed

lemma deletePrefix_outcome:
  "ends (deletePrefix m u) (\<lambda>r w'. (\<exists>E. w' = withoutKeys m E w) \<and> (r = Inr () \<longrightarrow> cleared m u w') \<and> (\<forall>e. r \<noteq> Inl (App e))) w"
proof -
  let ?ks = "map oi_Key (walkInfos u (sw_stores w m))"
  have all: "ends (deleteAll m ?ks []) (\<lambda>r w'. (\<exists>E. w' = withoutKeys m E w) \<and> (r = Inr [] \<longrightarrow> cleared m u w') \<and>
      (\<exists>es. r = Inr es \<and> (\<forall>e \<in> set es. \<exists>t. e = DbFault t))) w"
  proof (rule endsI)
    fix fs r w' fs' assume "deleteAll m ?ks [] (w, fs) = (r, w', fs')"
    then have run: "deleteAll m ?ks [] (withoutKeys m {} w, fs) = (r, w', fs')" by simp
    from deleteAll_result [OF run] obtain E es where E: "r = Inr es" "es = [] \<longrightarrow> E = set ?ks" "w' = withoutKeys m E w" by auto
    have "k \<in> set ?ks \<or> map_of (sw_stores w m) k = None" if "below u k" for k
      using that walk_keys [of u "sw_stores w m"] by (auto simp: map_of_eq_None_iff)
    with E have "r = Inr [] \<longrightarrow> cleared m u w'" by (auto simp: cleared_def withoutKeys_get)
    with E deleteAll_faults [OF run [unfolded E(1)]]
    show "(\<exists>E. w' = withoutKeys m E w) \<and> (r = Inr [] \<longrightarrow> cleared m u w') \<and> (\<exists>es. r = Inr es \<and> (\<forall>e \<in> set es. \<exists>t. e = DbFault t))"
      by auto
  qed
  have same: "\<exists>E. w = withoutKeys m E w" by (rule exI [of _ "{}"]) simp
  show ?thesis
    unfolding deletePrefix_def DeletePrefix_def storeWalk_def
    by (rule ends_bind, rule ends_bind, rule ends_select)
      (auto intro!: same ends_mono [OF all] ends_return ends_fail split: list.split)
qed

lemma always_cleared: "always (cleared m u) (deletePrefix n v)"
  by (rule always_ends, rule ends_mono [OF deletePrefix_outcome]) (auto simp: cleared_def withoutKeys_get)

section \<open>Loops\<close>

lemma ends_foreach_all:
  assumes keep: "\<And>x y. always (P x) (f y)" and step: "\<And>x w. K w \<Longrightarrow> ends (f x) (\<lambda>r w'. K w' \<and> (r = Inr () \<longrightarrow> P x w')) w" and "K w"
  shows "ends (tx_foreach f xs) (\<lambda>r w'. K w' \<and> (r = Inr () \<longrightarrow> (\<forall>x \<in> set xs. P x w'))) w"
  using assms(3)
proof (induction xs arbitrary: w)
  case (Cons x xs w)
  have "ends (tx_foreach f xs) (\<lambda>r w'. K w' \<and> (r = Inr () \<longrightarrow> (\<forall>y \<in> set (x # xs). P y w'))) w'" if "K w'" "P x w'" for w'
  proof -
    have "ends (tx_foreach f xs) (\<lambda>_. P x) w'" by (rule ends_always [OF always_foreach [OF keep] that(2)])
    from ends_conj [OF Cons.IH [OF that(1)] this] show ?thesis by (rule ends_mono) auto
  qed
  then show ?case by (auto intro!: ends_bind ends_mono [OF step [OF Cons.prems]])
qed (simp add: ends_return)

section \<open>Deleting a video\<close>

definition fileKey :: "stored_file \<Rightarrow> nat \<times> string \<times> string" where
  "fileKey f = (sf_ID f, sf_UUID f, sf_StorageID f)"

definition keepsFiles :: "mig_world \<Rightarrow> mig_world \<Rightarrow> bool" where
  "keepsFiles w w' \<longleftrightarrow> map fileKey (mw_files w') = map fileKey (mw_files w)"

definition forgotten :: "nat \<Rightarrow> mig_world \<Rightarrow> bool" where
  "forgotten i w \<longleftrightarrow> i \<notin> sf_ID ` set (mw_files w) \<and> i \<notin> tr_FileID ` set (mw_qualities w @ mw_audios w @ mw_subtitles w) \<and>
     (\<forall>it \<in> set (mw_items w). mi_FileID it = i \<longrightarrow> mi_Status it = ItemDeleted \<and> mi_ReservationKey it = [] \<and> \<not> mi_DestinationOwned it)"

definition copiesCleared :: "mig_env \<Rightarrow> stored_file \<Rightarrow> item_row list \<Rightarrow> mig_world \<Rightarrow> bool" where
  "copiesCleared env file items w \<longleftrightarrow> (\<forall>m \<in> set (copyMounts file items). cleared (storeOrDefault env m) (sf_UUID file) w)"

lemma set_firstOccurrences: "set (firstOccurrences seen xs) = set xs - set seen"
  by (induction seen xs rule: firstOccurrences.induct) auto

lemma deleteCopies_outcome:
  "ends (deleteCopies env file items) (\<lambda>r w'. keepsFiles w w' \<and> (r = Inr () \<longrightarrow> copiesCleared env file items w')) w"
proof -
  have K: "keepsFiles w (withoutKeys m E w') = keepsFiles w w'" for m E w'
    by (simp add: keepsFiles_def withoutKeys_def updateStore_def)
  have one: "ends (tx_bind (storeFor (storeOrDefault env m)) (\<lambda>_. deletePrefix (storeOrDefault env m) u))
      (\<lambda>r w''. keepsFiles w w'' \<and> (r = Inr () \<longrightarrow> cleared (storeOrDefault env m) u w'')) w'" if "keepsFiles w w'" for m u w'
    by (rule ends_bind_storeFor) (use that in \<open>auto intro!: ends_mono [OF deletePrefix_outcome] simp: K\<close>)
  have all: "ends (tx_foreach (\<lambda>m. tx_bind (storeFor (storeOrDefault env m)) (\<lambda>_. deletePrefix (storeOrDefault env m) u)) ms)
      (\<lambda>r w'. keepsFiles w w' \<and> (r = Inr () \<longrightarrow> (\<forall>m \<in> set ms. cleared (storeOrDefault env m) u w'))) w" for u ms
    by (rule ends_foreach_all [OF _ one]) (simp_all add: keepsFiles_def always_bind [OF safe_storeFor always_cleared])
  show ?thesis
    unfolding deleteCopies_def filePrefix_def
    by (rule ends_bind, cases "layoutFilePrefix (sf_UUID file)")
      (auto intro!: ends_fail ends_return ends_mono [OF all] dest: layoutFilePrefix_ok
        simp: keepsFiles_def copiesCleared_def set_firstOccurrences)
qed

definition erased :: "nat \<Rightarrow> nat list \<Rightarrow> mig_world \<Rightarrow> mig_world" where
  "erased i ids w = (let w1 = setItems (\<lambda>it. mi_FileID it = i) (\<lambda>it. (deletedRow it)\<lparr>mi_ReservationKey := [], mi_DestinationOwned := False\<rparr>) w;
       w2 = (if ids = [] then w1 else dropObjects (\<lambda>j. j \<in> set ids) w1)
     in w2\<lparr>mw_subtitles := filter (\<lambda>t. tr_FileID t \<noteq> i) (mw_subtitles w2), mw_audios := filter (\<lambda>t. tr_FileID t \<noteq> i) (mw_audios w2),
       mw_qualities := filter (\<lambda>t. tr_FileID t \<noteq> i) (mw_qualities w2), mw_files := filter (\<lambda>f. sf_ID f \<noteq> i) (mw_files w2)\<rparr>)"

lemma erased_tables:
  "mw_files (erased i ids w) = filter (\<lambda>f. sf_ID f \<noteq> i) (mw_files w)"
  "mw_qualities (erased i ids w) = filter (\<lambda>t. tr_FileID t \<noteq> i) (mw_qualities w)"
  "mw_audios (erased i ids w) = filter (\<lambda>t. tr_FileID t \<noteq> i) (mw_audios w)"
  "mw_subtitles (erased i ids w) = filter (\<lambda>t. tr_FileID t \<noteq> i) (mw_subtitles w)"
  "mw_items (erased i ids w) = update_where (\<lambda>it. mi_FileID it = i)
     (\<lambda>it. (deletedRow it)\<lparr>mi_ReservationKey := [], mi_DestinationOwned := False\<rparr>) (mw_items w)"
  "sw_stores (erased i ids w) = sw_stores w"
  by (cases "ids = []"; simp add: erased_def setItems_def dropObjects_def)+

lemma erased_forgotten: "forgotten i (erased i ids w)"
proof -
  have "mi_Status it = ItemDeleted \<and> mi_ReservationKey it = [] \<and> \<not> mi_DestinationOwned it"
    if "it \<in> set (mw_items (erased i ids w))" "mi_FileID it = i" for it
  proof -
    from that(1) obtain r where "it = (if mi_FileID r = i then (deletedRow r)\<lparr>mi_ReservationKey := [], mi_DestinationOwned := False\<rparr> else r)"
      unfolding erased_tables(5) set_update_where by blast
    with that(2) show ?thesis by (cases "mi_FileID r = i") (simp_all add: deletedRow_def)
  qed
  moreover have "i \<notin> sf_ID ` set (mw_files (erased i ids w))" by (auto simp: erased_tables(1))
  moreover have "i \<notin> tr_FileID ` set (mw_qualities (erased i ids w) @ mw_audios (erased i ids w) @ mw_subtitles (erased i ids w))"
    by (auto simp: erased_tables(2-4))
  ultimately show ?thesis unfolding forgotten_def by blast
qed

lemma eraseFile_outcome: "ends (eraseFile i ids) (\<lambda>r w'. (r = Inr () \<and> w' = erased i ids w) \<or> ((\<exists>e. r = Inl e) \<and> w' = w)) w"
proof -
  have "wp (tx_bind (updateItems (\<lambda>it. mi_FileID it = i) (\<lambda>it. (deletedRow it)\<lparr>mi_ReservationKey := [], mi_DestinationOwned := False\<rparr>)) (\<lambda>_.
      tx_bind (if ids = [] then tx_return () else tx_update (dropObjects (\<lambda>j. j \<in> set ids))) (\<lambda>_.
      tx_bind (tx_update (\<lambda>w. w\<lparr>mw_subtitles := filter (\<lambda>t. tr_FileID t \<noteq> i) (mw_subtitles w)\<rparr>)) (\<lambda>_.
      tx_bind (tx_update (\<lambda>w. w\<lparr>mw_audios := filter (\<lambda>t. tr_FileID t \<noteq> i) (mw_audios w)\<rparr>)) (\<lambda>_.
      tx_bind (tx_update (\<lambda>w. w\<lparr>mw_qualities := filter (\<lambda>t. tr_FileID t \<noteq> i) (mw_qualities w)\<rparr>)) (\<lambda>_.
      tx_update (\<lambda>w. w\<lparr>mw_files := filter (\<lambda>f. sf_ID f \<noteq> i) (mw_files w)\<rparr>))))))) (\<lambda>_ w'. w' = erased i ids w) w"
    by (rule wp_bind, simp only: updateItems_def, rule wp_stmt, clarsimp split: if_splits, intro conjI impI wp_bind wp_return wp_update)
      (simp_all add: erased_def Let_def)
  then show ?thesis unfolding eraseFile_def by (intro ends_transaction) (auto elim: wp_mono)
qed

definition rowsOf :: "nat \<Rightarrow> mig_world \<Rightarrow> item_row list" where
  "rowsOf i w = sort_key mi_ID (filter (\<lambda>it. mi_FileID it = i) (mw_items w))"

lemma copiesCleared_stores: "sw_stores w' = sw_stores w \<Longrightarrow> copiesCleared env file items w' = copiesCleared env file items w"
  by (simp add: copiesCleared_def cleared_def)

lemma keepsFiles_trans: "keepsFiles w w' \<Longrightarrow> keepsFiles w' w'' \<Longrightarrow> keepsFiles w w''"
  by (simp add: keepsFiles_def)

lemma keepsFiles_bump: "keepsFiles w (bumpCacheVersion i w)"
  by (simp add: keepsFiles_def bumpCacheVersion_def map_update_where fileKey_def)

definition purgeEnd :: "mig_env \<Rightarrow> bool \<Rightarrow> nat \<Rightarrow> stored_file \<Rightarrow> mig_world \<Rightarrow> media_error txerr + bool \<Rightarrow> mig_world \<Rightarrow> bool" where
  "purgeEnd env busy i file w r w' \<longleftrightarrow> (if r = Inr True then \<not> busy \<and> copiesCleared env file (rowsOf i w) w' \<and> forgotten i w'
     else keepsFiles w w')"

lemma ends_afterwards: "ends m (\<lambda>r w'. ends h (\<lambda>_. Q r) w') w \<Longrightarrow> ends (afterwards m h) Q w"
  unfolding afterwards_def
  by (rule ends_bind, rule ends_try, erule ends_mono)
    (auto intro!: ends_bind ends_ignore ends_fail ends_return elim!: ends_mono split: sum.split)

lemma purgeEnd_refresh: "purgeEnd env busy i file w r w' \<Longrightarrow> ends (refreshMigrations items) (\<lambda>_. purgeEnd env busy i file w r) w'"
proof (rule ends_always)
  have "purgeEnd env busy i file w r (v\<lparr>mw_migrations := ms\<rparr>)" if "purgeEnd env busy i file w r v" for v ms
    using that by (simp add: purgeEnd_def keepsFiles_def forgotten_def copiesCleared_def cleared_def split: if_splits)
  then show "always (purgeEnd env busy i file w r) (refreshMigrations items)"
    unfolding refreshMigrations_def refreshProgress_def
    by (intro always_foreach always_ignore always_bind always_select always_update)
qed

lemma eraseFile_end:
  assumes "keepsFiles w w'" "copiesCleared env file (rowsOf i w) w'" "\<not> busy"
  shows "ends (tx_bind (eraseFile i ids) (\<lambda>_. tx_return True)) (purgeEnd env busy i file w) w'"
  by (rule ends_bind, rule ends_mono [OF eraseFile_outcome])
    (use assms in \<open>auto intro!: ends_return simp: purgeEnd_def erased_forgotten copiesCleared_stores [OF erased_tables(6)]\<close>)

lemma purgeCopies_end:
  assumes "keepsFiles w w'" "\<not> busy"
  shows "ends (tx_bind (deleteCopies env file (rowsOf i w)) (\<lambda>_. tx_bind (eraseFile i ids) (\<lambda>_. tx_return True))) (purgeEnd env busy i file w) w'"
  by (rule ends_bind, rule ends_mono [OF deleteCopies_outcome])
    (use assms(2) keepsFiles_trans [OF assms(1)] in \<open>auto intro!: eraseFile_end simp: purgeEnd_def\<close>)

lemma purgeFile_outcome: "ends (purgeFile env busy i file) (purgeEnd env busy i file w) w"
proof -
  have rest: "ends (afterwards (if busy then tx_return False
     else tx_bind (tx_update (bumpCacheVersion i)) (\<lambda>_.
       tx_bind (deleteCopies env file (rowsOf i w)) (\<lambda>_.
       tx_bind (eraseFile i (map mi_ID (rowsOf i w))) (\<lambda>_. tx_return True)))) (refreshMigrations items)) (purgeEnd env busy i file w) w'"
    if "keepsFiles w w'" for w' items
  proof (rule ends_afterwards, rule ends_mono [OF _ purgeEnd_refresh], cases busy)
    case False
    have *: "ends (tx_bind (tx_update (bumpCacheVersion i)) (\<lambda>_. tx_bind (deleteCopies env file (rowsOf i w)) (\<lambda>_.
        tx_bind (eraseFile i (map mi_ID (rowsOf i w))) (\<lambda>_. tx_return True)))) (purgeEnd env busy i file w) w'"
      by (rule ends_bind, rule ends_update)
        (use that False purgeCopies_end [OF keepsFiles_trans [OF that keepsFiles_bump]] in \<open>simp_all, simp add: purgeEnd_def\<close>)
    with False show "ends (if busy then tx_return False
     else tx_bind (tx_update (bumpCacheVersion i)) (\<lambda>_.
       tx_bind (deleteCopies env file (rowsOf i w)) (\<lambda>_.
       tx_bind (eraseFile i (map mi_ID (rowsOf i w))) (\<lambda>_. tx_return True)))) (purgeEnd env busy i file w) w'" by simp
  qed (use that in \<open>auto intro!: ends_return simp: purgeEnd_def\<close>)
  have mark: "ends (if rowsOf i w = [] then tx_return () else
       tx_bind (updateItems (\<lambda>it. mi_FileID it = i) deletedRow) (\<lambda>_. tx_return ())) (\<lambda>_. keepsFiles w) w"
    by (rule ends_always) (auto intro!: always_if always_return always_bind always_stmt
      simp: updateItems_def keepsFiles_def setItems_def split: if_splits)
  have tail: "ends (tx_bind (if rowsOf i w = [] then tx_return () else
       tx_bind (updateItems (\<lambda>it. mi_FileID it = i) deletedRow) (\<lambda>_. tx_return ())) (\<lambda>_.
     afterwards (if busy then tx_return False
     else tx_bind (tx_update (bumpCacheVersion i)) (\<lambda>_.
       tx_bind (deleteCopies env file (rowsOf i w)) (\<lambda>_.
       tx_bind (eraseFile i (map mi_ID (rowsOf i w))) (\<lambda>_. tx_return True)))) (refreshMigrations (rowsOf i w)))) (purgeEnd env busy i file w) w"
    by (rule ends_bind, rule ends_mono [OF mark]) (use rest in \<open>auto simp: purgeEnd_def\<close>)
  show ?thesis
    unfolding purgeFile_def
    by (rule ends_bind_select, simp add: purgeEnd_def keepsFiles_def) (rule tail [unfolded rowsOf_def])
qed

definition deleteEnd :: "mig_env \<Rightarrow> bool \<Rightarrow> nat \<Rightarrow> mig_world \<Rightarrow> media_error txerr + bool \<Rightarrow> mig_world \<Rightarrow> bool" where
  "deleteEnd env preparing i w r w' \<longleftrightarrow> (if r = Inr True
     then (\<exists>file. fileUnscoped i w = Some file \<and> (sf_Deleted file \<or> \<not> referenced i w) \<and> \<not> preparing \<and> \<not> trackEncoding i w \<and>
        copiesCleared env file (rowsOf i w) w') \<and> forgotten i w'
     else keepsFiles w w' \<and> (\<forall>file. fileUnscoped i w = Some file \<longrightarrow> \<not> sf_Deleted file \<longrightarrow> referenced i w \<longrightarrow> w' = w))"

lemma deleteFile_outcome: "ends (deleteFile env preparing i) (deleteEnd env preparing i w) w"
proof -
  have same: "keepsFiles w w" by (simp add: keepsFiles_def)
  define R where "R fl r w' \<longleftrightarrow> keepsFiles w w' \<and> mw_items w' = mw_items w \<and> (r = Inr True \<longrightarrow> sf_Deleted fl \<or> \<not> referenced i w) \<and>
      (\<not> sf_Deleted fl \<longrightarrow> referenced i w \<longrightarrow> w' = w \<and> r \<noteq> Inr True)" for fl :: stored_file and r :: "media_error txerr + bool" and w'
  have rel: "ends (releaseReferences i fl) (R fl) w" for fl
    unfolding releaseReferences_def
    by (intro ends_if ends_return ends_bind_select)
      (auto intro!: ends_bind [OF ends_update] ends_return simp: R_def same deleteRow_def keepsFiles_def map_update_where fileKey_def)
  have purge: "ends (tx_bind (releaseReferences i fl) (\<lambda>go. if go then purgeFile env (preparing \<or> trackEncoding i w) i fl else tx_return False))
      (deleteEnd env preparing i w) w" if fl: "fileUnscoped i w = Some fl" for fl
  proof (rule ends_bind, rule ends_mono [OF rel [of fl]], intro conjI allI impI)
    show "deleteEnd env preparing i w (Inl e) w'" if "R fl r w'" "r = Inl e" for r w' e
      using that fl by (auto simp: R_def deleteEnd_def)
    show "ends (if go then purgeFile env (preparing \<or> trackEncoding i w) i fl else tx_return False) (deleteEnd env preparing i w) w'"
      if "R fl r w'" "r = Inr go" for r w' go
    proof (cases go)
      case True
      with that have rows: "rowsOf i w' = rowsOf i w" and k: "keepsFiles w w'" and ok: "sf_Deleted fl \<or> \<not> referenced i w"
        by (auto simp: R_def rowsOf_def)
      have "deleteEnd env preparing i w r'' w''" if "purgeEnd env (preparing \<or> trackEncoding i w) i fl w' r'' w''" for r'' w''
        using that rows ok fl keepsFiles_trans [OF k] by (auto simp: purgeEnd_def deleteEnd_def split: if_splits)
      with True ends_mono [OF purgeFile_outcome] show ?thesis by auto
    next
      case False
      with that fl show ?thesis by (auto intro!: ends_return simp: R_def deleteEnd_def)
    qed
  qed
  show ?thesis
    unfolding deleteFile_def unscopedOrNone_def
    by (rule ends_bind, rule ends_catch, rule ends_bind, rule ends_first)
      (auto intro!: ends_fail ends_return ends_bind [OF ends_peek] purge simp: same deleteEnd_def)
qed

end
