(* ===== verification/MgSettled.thy ===== *)
theory MgSettled
  imports MgEffects
begin

text \<open>A cleanup that reports success has settled its items.\<close>

section \<open>Rows by their key\<close>

definition itemIDs :: "mig_world \<Rightarrow> bool" where
  "itemIDs w \<longleftrightarrow> distinct (map mi_ID (mw_items w))"

definition statusAt :: "item_status set \<Rightarrow> nat \<Rightarrow> mig_world \<Rightarrow> bool" where
  "statusAt S i w \<longleftrightarrow> (\<exists>it. itemById i w = Some it \<and> mi_Status it \<in> S)"

lemma itemById_setItems:
  "itemIDs w \<Longrightarrow> (\<And>it. mi_ID (f it) = mi_ID it) \<Longrightarrow>
   itemById i (setItems p f w) = map_option (\<lambda>it. if p it then f it else it) (itemById i w)"
  by (simp add: itemById_def setItems_def find_update_where [where k = mi_ID])

lemma itemIDs_setItems: "(\<And>it. mi_ID (f it) = mi_ID it) \<Longrightarrow> itemIDs (setItems p f w) = itemIDs w"
  by (simp add: itemIDs_def setItems_def map_update_where)

lemma setItems_stores: "sw_stores (setItems p f w) = sw_stores w"
  by (simp add: setItems_def)

lemma itemIDs_row: "itemIDs w \<Longrightarrow> it \<in> set (mw_items w) \<Longrightarrow> itemById (mi_ID it) w = Some it"
proof -
  have "find (\<lambda>x. mi_ID x = mi_ID it) items = Some it" if "distinct (map mi_ID items)" "it \<in> set items" for items
    using that by (induction items) auto
  then show "itemIDs w \<Longrightarrow> it \<in> set (mw_items w) \<Longrightarrow> itemById (mi_ID it) w = Some it"
    by (simp add: itemIDs_def itemById_def)
qed

lemma updateActiveItem_outcome:
  assumes ids: "itemIDs w" and f: "\<And>it. mi_ID (f it) = mi_ID it"
  shows "ends (updateActiveItem i f) (\<lambda>r w'. itemIDs w' \<and> sw_stores w' = sw_stores w \<and>
     (r = Inr () \<longrightarrow> (\<exists>it. itemById i w' = Some (f it))) \<and> (r = Inl (App ErrItemDeleted) \<longrightarrow> statusAt {ItemDeleted} i w')) w"
proof -
  have upd: "ends (updateItems (notDeleted i) f) (\<lambda>r w'. (\<exists>e. r = Inl e \<and> e \<noteq> App ErrItemDeleted \<and> w' = w) \<or>
      (r = Inr (affected (notDeleted i) (mw_items w)) \<and> w' = setItems (notDeleted i) f w)) w"
    unfolding updateItems_def by (rule ends_stmt) (auto split: if_splits)
  have none: "it \<notin> set (mw_items w) \<or> mi_Status it = ItemDeleted" if "affected (notDeleted i) (mw_items w) = 0" "mi_ID it = i" for it
    using that by (auto simp: affected_def notDeleted_def filter_empty_conv)
  have some: "\<exists>it. itemById i (setItems (notDeleted i) f w) = Some (f it)" if "affected (notDeleted i) (mw_items w) \<noteq> 0"
  proof -
    from that obtain it where it: "it \<in> set (mw_items w)" "notDeleted i it" by (auto simp: affected_def filter_empty_conv)
    then have "itemById i w = Some it" using itemIDs_row [OF ids] by (auto simp: notDeleted_def)
    with it show ?thesis by (simp add: itemById_setItems [OF ids f]) blast
  qed
  have zero: "setItems (notDeleted i) f w = w" if "affected (notDeleted i) (mw_items w) = 0"
  proof -
    have "update_where (notDeleted i) f (mw_items w) = mw_items w"
      unfolding update_where_def by (rule map_idI) (use none [OF that] in \<open>auto simp: notDeleted_def\<close>)
    then show ?thesis by (simp add: setItems_def)
  qed
  have gone: "mi_Status it = ItemDeleted" if "itemById i w = Some it" "affected (notDeleted i) (mw_items w) = 0" for it
    using none [OF that(2), of it] itemById_Some [OF that(1)] by blast
  show ?thesis
    unfolding updateActiveItem_def
    by (rule ends_bind, rule ends_mono [OF upd])
      (auto intro!: ends_return ends_bind [OF ends_first] ends_reject some
        simp: itemIDs_setItems f ids zero statusAt_def setItems_stores dest: gone split: if_splits)
qed

section \<open>One original\<close>

definition removed :: "item_row \<Rightarrow> mig_world \<Rightarrow> bool" where
  "removed item w \<longleftrightarrow> statusAt {ItemCleaned} (mi_ID item) w \<and> cleared (mi_SourceMountID item) (mi_FileUUID item) w"

lemma itemIDs_withoutKeys: "itemIDs (withoutKeys m E w) = itemIDs w"
  by (simp add: itemIDs_def withoutKeys_def updateStore_def)

lemma removeOriginal_outcome:
  assumes ids: "itemIDs w"
  shows "ends (removeOriginal env item) (\<lambda>r w'. itemIDs w' \<and> (r = Inr () \<longrightarrow> removed item w') \<and>
     (r = Inl (App ErrItemDeleted) \<longrightarrow> statusAt {ItemDeleted} (mi_ID item) w')) w"
proof -
  let ?Q = "\<lambda>r w'. itemIDs w' \<and> (r = Inr () \<longrightarrow> removed item w') \<and> (r = Inl (App ErrItemDeleted) \<longrightarrow> statusAt {ItemDeleted} (mi_ID item) w')"
  let ?last = "updateActiveItem (mi_ID item) (\<lambda>it. it\<lparr>mi_Status := ItemCleaned, mi_CleanedAt := Some (me_now env), mi_ReservationKey := [],
       mi_ProgressMessage := ''Original removed'', mi_ErrorCode := []\<rparr>)"
  have last: "ends ?last ?Q w'" if "itemIDs w'" "cleared (mi_SourceMountID item) (mi_FileUUID item) w'" for w'
    by (rule ends_mono [OF updateActiveItem_outcome [OF that(1)]])
      (use that(2) in \<open>auto simp: removed_def statusAt_def cleared_def\<close>)
  have del: "ends (tx_bind (deletePrefix (mi_SourceMountID item) (mi_FileUUID item)) (\<lambda>_. ?last)) ?Q w'" if "itemIDs w'" for w'
    by (rule ends_bind, rule ends_mono [OF deletePrefix_outcome])
      (use that in \<open>auto intro!: last simp: itemIDs_withoutKeys\<close>)
  have first: "ends (tx_bind (updateActiveItem (mi_ID item) (\<lambda>it. it\<lparr>mi_Status := ItemCleaning, mi_ProgressMessage := ''Removing original copy''\<rparr>)) (\<lambda>_.
      tx_bind (deletePrefix (mi_SourceMountID item) (mi_FileUUID item)) (\<lambda>_. ?last))) ?Q w"
    by (rule ends_bind, rule ends_mono [OF updateActiveItem_outcome [OF ids]]) (auto intro!: del)
  show ?thesis
    unfolding removeOriginal_def filePrefix_def storeFor_def
    by (rule ends_bind, rule ends_stmt, use ids in \<open>auto split: if_splits\<close>, rule ends_bind, cases "layoutFilePrefix (mi_FileUUID item)")
      (use ids first in \<open>auto intro!: ends_fail ends_return dest!: layoutFilePrefix_ok\<close>)
qed

lemma ends_then_fail: "(\<And>e w. Q (Inl e) w) \<Longrightarrow> ends (tx_bind m (\<lambda>_. tx_fail e)) Q w"
  by (auto simp: ends_def tx_bind_def tx_fail_def split: sum.splits prod.splits)

lemma reads_fileEncodingActive: "reads (fileEncodingActive i)"
  unfolding fileEncodingActive_def by (intro reads_intros)

lemma checkOriginal_outcome:
  "ends (checkOriginal item fl) (\<lambda>r w'. r = Inr () \<longrightarrow> w' = w \<and> sf_StorageID fl = mi_DestinationMountID item) w"
  unfolding checkOriginal_def
proof (rule ends_bind_reject, simp, rule ends_reads_any [OF reads_fileEncodingActive], simp)
  fix active assume "\<not> sf_StorageID fl \<noteq> mi_DestinationMountID item"
  then show "ends (if active
     then tx_bind (skipDeleted (updateActiveItem (mi_ID item) (\<lambda>it. it\<lparr>mi_Status := ItemCleanupPending,
         mi_ProgressMessage := ''Waiting for video encoding to finish''\<rparr>)) ()) (\<lambda>_. tx_fail (App ErrEncodingActive))
     else tx_return ()) (\<lambda>r w'. r = Inr () \<longrightarrow> w' = w \<and> sf_StorageID fl = mi_DestinationMountID item) w"
    by (intro ends_if ends_then_fail ends_return) simp_all
qed

text \<open>A successful cleanup of an item that was not settled.\<close>

definition wasActive :: "item_row \<Rightarrow> mig_world \<Rightarrow> bool" where
  "wasActive item w \<longleftrightarrow> (\<forall>f. fileUnscoped (mi_FileID item) w = Some f \<longrightarrow> sf_StorageID f = mi_DestinationMountID item)"

lemma ends_unscoped: "(\<And>e. Q (Inl e) w) \<Longrightarrow> ends (f (fileUnscoped i w)) Q w \<Longrightarrow> ends (tx_bind (unscopedOrNone i) f) Q w"
  unfolding unscopedOrNone_def
  by (rule ends_bind, rule ends_catch, rule ends_bind, rule ends_first) (auto intro!: ends_return ends_fail)

lemma cleanupItem_outcome:
  assumes ids: "itemIDs w" and item: "itemById (mi_ID item0) w = Some item" "mi_Status item \<notin> settledStatuses" "mi_Status item0 \<notin> settledStatuses"
  shows "ends (cleanupItem env item0) (\<lambda>r w'. r = Inr () \<longrightarrow>
     wasActive item w \<and> (removed item w' \<or> statusAt {ItemDeleted} (mi_ID item) w')) w"
proof -
  let ?Q = "\<lambda>r w'. r = Inr () \<longrightarrow> wasActive item w \<and> (removed item w' \<or> statusAt {ItemDeleted} (mi_ID item) w')"
  have remove: "ends (skipDeleted (removeOriginal env item) ()) ?Q w" if "wasActive item w"
    unfolding skipDeleted_def
    by (rule ends_catch, rule ends_mono [OF removeOriginal_outcome [OF ids]]) (use that in \<open>auto intro!: ends_return ends_fail\<close>)
  have go: "ends (tx_bind (case found of None \<Rightarrow> tx_return () | Some f \<Rightarrow> checkOriginal item f) (\<lambda>_. skipDeleted (removeOriginal env item) ())) ?Q w"
    if "found = fileUnscoped (mi_FileID item) w" for found
  proof (cases found)
    case None
    with that have "wasActive item w" by (simp add: wasActive_def)
    from remove [OF this] None show ?thesis by (simp add: ends_bind [OF ends_return])
  next
    case (Some f)
    with that have "wasActive item w" if "sf_StorageID f = mi_DestinationMountID item" using that by (auto simp: wasActive_def)
    with remove Some show ?thesis
      by (simp, intro ends_bind ends_mono [OF checkOriginal_outcome]) (auto simp: wasActive_def)
  qed
  have load: "ends (tx_bind (unscopedOrNone (mi_FileID item)) (\<lambda>found.
         tx_bind (case found of None \<Rightarrow> tx_return () | Some f \<Rightarrow> checkOriginal item f) (\<lambda>_. skipDeleted (removeOriginal env item) ()))) ?Q w"
    by (rule ends_unscoped, simp) (rule go, simp)
  show ?thesis
    unfolding cleanupItem_def
    using item load by (auto intro!: ends_bind [OF ends_check] ends_bind_first)
qed

lemma cleanupItem_settled: "mi_Status item0 \<in> settledStatuses \<Longrightarrow> ends (cleanupItem env item0) (\<lambda>r w'. w' = w) w"
  unfolding cleanupItem_def by (auto intro!: ends_bind [OF ends_check] ends_return)

section \<open>The other rows\<close>

definition rowAt :: "nat \<Rightarrow> item_row option \<Rightarrow> mig_world \<Rightarrow> bool" where
  "rowAt j x w \<longleftrightarrow> itemIDs w \<and> itemById j w = x"

lemma rowAt_tables: "mw_items w' = mw_items w \<Longrightarrow> rowAt j x w' = rowAt j x w"
  by (simp add: rowAt_def itemIDs_def itemById_def)

lemma rowAt_updateActiveItem:
  assumes "i \<noteq> j" "\<And>it. mi_ID (f it) = mi_ID it"
  shows "always (rowAt j x) (updateActiveItem i f)"
proof -
  have "always (rowAt j x) (updateItems (notDeleted i) f)"
    unfolding updateItems_def
  proof (rule always_stmt)
    fix w n w' assume w: "rowAt j x w" and run: "(if reservedOnce (update_where (notDeleted i) f (mw_items w))
      then Inr (affected (notDeleted i) (mw_items w), setItems (notDeleted i) f w) else Inl DuplicatedKey) = Inr (n, w')"
    then have w': "w' = setItems (notDeleted i) f w" by (auto split: if_splits)
    have "\<not> notDeleted i it" if "itemById j w = Some it" for it
      using itemById_Some [OF that] assms(1) by (simp add: notDeleted_def)
    moreover have ids: "itemIDs w" using w by (simp add: rowAt_def)
    ultimately have "itemById j w' = itemById j w"
      by (cases "itemById j w") (simp_all add: w' itemById_setItems [OF ids assms(2)])
    with w show "rowAt j x w'" by (simp add: rowAt_def w' itemIDs_setItems [OF assms(2)])
  qed
  then show ?thesis unfolding updateActiveItem_def by (intro tx_always)
qed

lemma rowAt_deletePrefix: "always (rowAt j x) (deletePrefix m u)"
  by (rule always_ends, rule ends_mono [OF deletePrefix_outcome])
    (auto simp: rowAt_def itemIDs_def itemById_def withoutKeys_def updateStore_def)

lemma rowAt_refreshProgress: "always (rowAt j x) (refreshProgress i)" "always (rowAt j x) (updateMigration i f)"
  unfolding refreshProgress_def updateMigration_def
  by (intro always_bind always_select always_update; erule rowAt_tables [THEN iffD2, rotated]; simp)+

lemma always_filePrefix: "always J (filePrefix u)"
  unfolding filePrefix_def by (auto intro: always_return always_fail split: sum.split)

lemma rowAt_cleanupItem:
  assumes "mi_ID item0 \<noteq> j"
  shows "always (rowAt j x) (cleanupItem env item0)"
proof -
  have "always (rowAt j x) (tx_bind (unscopedOrNone (mi_FileID item)) (\<lambda>found.
         tx_bind (case found of None \<Rightarrow> tx_return () | Some f \<Rightarrow> checkOriginal item f) (\<lambda>_. skipDeleted (removeOriginal env item) ())))"
    if "mi_ID item = mi_ID item0" for item
  proof -
    have ne: "mi_ID item \<noteq> j" using that assms by simp
    have u: "always (rowAt j x) (updateActiveItem (mi_ID item) f)" if "\<And>it. mi_ID (f it) = mi_ID it" for f
      using rowAt_updateActiveItem [OF ne that] .
    have "always (rowAt j x) (checkOriginal item fl)" for fl
      unfolding checkOriginal_def
      by (intro always_bind always_reject safe_fileEncodingActive always_if skipDeleted_always u always_fail always_return) simp
    moreover have "always (rowAt j x) (removeOriginal env item)"
      unfolding removeOriginal_def
      by (intro always_bind safe_storeFor always_filePrefix u rowAt_deletePrefix) simp_all
    ultimately show ?thesis
      unfolding unscopedOrNone_def
      by (intro always_bind always_catch always_first always_return always_if always_fail always_case_option skipDeleted_always)
  qed
  then have "always (rowAt j x) (tx_bind (tx_first (itemById (mi_ID item0))) (\<lambda>item.
       if mi_Status item \<in> settledStatuses then tx_return ()
       else tx_bind (unscopedOrNone (mi_FileID item)) (\<lambda>found.
         tx_bind (case found of None \<Rightarrow> tx_return () | Some f \<Rightarrow> checkOriginal item f) (\<lambda>_. skipDeleted (removeOriginal env item) ()))))"
    by (intro always_ends ends_bind_first) (auto intro: ends_return ends_always dest: itemById_Some)
  then show ?thesis
    unfolding cleanupItem_def
    by (intro always_bind [OF always_check] always_if [OF always_return])
qed

section \<open>The whole cleanup\<close>

lemma settled_deleted: "ItemDeleted \<in> settledStatuses" "ItemCleaned \<in> settledStatuses"
  by (simp_all add: settledStatuses_def)

lemma rowAt_statusAt: "rowAt j (Some it) w \<Longrightarrow> mi_Status it \<in> S \<Longrightarrow> statusAt S j w"
  by (simp add: rowAt_def statusAt_def)

lemma cleanupItem_settles:
  assumes "rowAt (mi_ID item) (Some item) w"
  shows "ends (cleanupItem env item) (\<lambda>r w'. r = Inr () \<longrightarrow> statusAt settledStatuses (mi_ID item) w') w"
proof (cases "mi_Status item \<in> settledStatuses")
  case True
  show ?thesis by (rule ends_mono [OF cleanupItem_settled [OF True]]) (use rowAt_statusAt [OF assms True] in simp)
next
  case False
  have ids: "itemIDs w" "itemById (mi_ID item) w = Some item" using assms by (simp_all add: rowAt_def)
  show ?thesis
    by (rule ends_mono [OF cleanupItem_outcome [OF ids False False]])
      (use settled_deleted in \<open>auto simp: removed_def statusAt_def\<close>)
qed

lemma always_statusAt:
  assumes "\<And>x. always (rowAt j x) m"
  shows "always (\<lambda>w. itemIDs w \<and> statusAt S j w) m"
proof (rule always_ends)
  fix w assume w: "itemIDs w \<and> statusAt S j w"
  then obtain it where it: "rowAt j (Some it) w" "mi_Status it \<in> S" by (auto simp: rowAt_def statusAt_def)
  show "ends m (\<lambda>_ w. itemIDs w \<and> statusAt S j w) w"
    by (rule ends_mono [OF ends_always [OF assms it(1)]]) (use it(2) in \<open>auto simp: rowAt_def statusAt_def\<close>)
qed

definition selected :: "mig_world \<Rightarrow> item_row list \<Rightarrow> bool" where
  "selected w items \<longleftrightarrow> distinct (map mi_ID items) \<and> (\<forall>it \<in> set items. rowAt (mi_ID it) (Some it) w)"

definition settledAfter :: "nat set \<Rightarrow> mig_world \<Rightarrow> mig_world \<Rightarrow> bool" where
  "settledAfter ids w w' \<longleftrightarrow> (\<forall>j. j \<in> ids \<or> statusAt settledStatuses j w \<longrightarrow> statusAt settledStatuses j w')"

lemma settledAfter_refl: "settledAfter {} w w"
  by (simp add: settledAfter_def)

lemma settled_step:
  assumes w: "rowAt (mi_ID item) (Some item) w"
  shows "ends (cleanupItem env item) (\<lambda>r w'. itemIDs w' \<and> (r = Inr () \<longrightarrow> settledAfter {mi_ID item} w w') \<and>
     (\<forall>j x. j \<noteq> mi_ID item \<longrightarrow> rowAt j x w \<longrightarrow> rowAt j x w')) w"
proof -
  have ids: "itemIDs w" using w by (simp add: rowAt_def)
  have keep: "ends (cleanupItem env item) (\<lambda>_ w'. \<forall>j x. j \<noteq> mi_ID item \<longrightarrow> rowAt j x w \<longrightarrow> rowAt j x w') w"
    using rowAt_cleanupItem [of item _ _ env] by (auto simp: ends_def always_def)
  have "ends (cleanupItem env item) (\<lambda>_ w'. itemIDs w') w"
  proof -
    obtain j where "j \<noteq> mi_ID item" by (metis n_not_Suc_n)
    from ends_always [OF rowAt_cleanupItem [of item j "itemById j w"], of w env] this ids show ?thesis
      by (auto simp: rowAt_def elim: ends_mono)
  qed
  from ends_conj [OF this ends_conj [OF cleanupItem_settles [OF w, of env] keep]] show ?thesis
  proof (rule ends_mono, elim conjE, intro conjI impI)
    fix r w' assume r: "itemIDs w'" "r = Inr () \<longrightarrow> statusAt settledStatuses (mi_ID item) w'" "r = Inr ()"
      "\<forall>j x. j \<noteq> mi_ID item \<longrightarrow> rowAt j x w \<longrightarrow> rowAt j x w'"
    have "statusAt settledStatuses j w'" if st: "statusAt settledStatuses j w" for j
    proof (cases "j = mi_ID item")
      case False
      with st r(4) ids have "rowAt j (itemById j w) w'" by (simp add: rowAt_def)
      with st show ?thesis by (simp add: rowAt_def statusAt_def)
    qed (use r in simp)
    with r show "settledAfter {mi_ID item} w w'" by (auto simp: settledAfter_def)
  qed simp_all
qed

lemma settledAfter_tables: "mw_items w'' = mw_items w' \<Longrightarrow> settledAfter ids w w'' = settledAfter ids w w'"
  by (simp add: settledAfter_def statusAt_def itemById_def)

lemma items_same: "always (\<lambda>w'. mw_items w' = mw_items w) (refreshProgress i)" "always (\<lambda>w'. mw_items w' = mw_items w) (updateMigration i f)"
  unfolding refreshProgress_def updateMigration_def by (intro always_bind always_select always_update; simp)+

lemma items_same_status: "always (\<lambda>w'. mw_items w' = mw_items w) (setStatus i s p)"
  unfolding setStatus_def by (rule items_same(2))

lemma ends_orEnd:
  "ends m (\<lambda>r w'. (\<forall>e. r = Inl e \<longrightarrow> Q (Inr stop) w') \<and> (\<forall>x. r = Inr x \<longrightarrow> ends (f x) Q w')) w \<Longrightarrow> ends (orEnd m stop f) Q w"
  unfolding orEnd_def by (rule ends_bind, rule ends_try, erule ends_mono) (auto split: sum.split intro: ends_return)

lemma ends_orEnd_select: "Q (Inr stop) w \<Longrightarrow> ends (f (g w)) Q w \<Longrightarrow> ends (orEnd (tx_select g) stop f) Q w"
  by (rule ends_orEnd, rule ends_select) auto

lemma ends_orEnd_first: "Q (Inr stop) w \<Longrightarrow> (\<And>x. g w = Some x \<Longrightarrow> ends (f x) Q w) \<Longrightarrow> ends (orEnd (tx_first g) stop f) Q w"
  by (rule ends_orEnd, rule ends_first) auto

lemma ends_orEnd_always:
  assumes "always J m" "J w" "\<And>w'. J w' \<Longrightarrow> Q (Inr stop) w'" "\<And>x w'. J w' \<Longrightarrow> ends (f x) Q w'"
  shows "ends (orEnd m stop f) Q w"
  by (rule ends_orEnd, rule ends_mono [OF ends_always [OF assms(1,2)]]) (auto intro: assms(3,4))

lemma cleanupItems_settle:
  assumes "selected w items"
  shows "ends (cleanupItems env paused i items) (\<lambda>r w'. r = Inr None \<longrightarrow> settledAfter (mi_ID ` set items) w w') w"
  using assms
proof (induction items arbitrary: w)
  case Nil
  show ?case by (simp add: ends_return settledAfter_refl)
next
  case (Cons item items w)
  have rows: "rowAt (mi_ID item) (Some item) w" "mi_ID item \<notin> mi_ID ` set items" "distinct (map mi_ID items)"
    "\<And>it. it \<in> set items \<Longrightarrow> rowAt (mi_ID it) (Some it) w"
    using Cons.prems by (auto simp: selected_def)
  have rest: "ends (cleanupItems env paused i items) (\<lambda>r w''. r = Inr None \<longrightarrow> settledAfter (mi_ID ` set (item # items)) w w'') w'"
    if "settledAfter {mi_ID item} w w1" "\<forall>j x. j \<noteq> mi_ID item \<longrightarrow> rowAt j x w \<longrightarrow> rowAt j x w1" "mw_items w' = mw_items w1" for w1 w'
  proof -
    have "rowAt (mi_ID it) (Some it) w1" if it: "it \<in> set items" for it
    proof -
      have "mi_ID it \<noteq> mi_ID item" using it rows(2) by (metis imageI)
      with rows(4) [OF it] \<open>\<forall>j x. j \<noteq> mi_ID item \<longrightarrow> rowAt j x w \<longrightarrow> rowAt j x w1\<close> show ?thesis by blast
    qed
    with rows(3) have "selected w' items" by (simp add: selected_def rowAt_tables [OF that(3)])
    from Cons.IH [OF this] show ?thesis
      by (rule ends_mono) (use that(1,3) in \<open>auto simp: settledAfter_def statusAt_def itemById_def\<close>)
  qed
  have fin: "ends (tx_bind m (\<lambda>e. tx_return (Some e))) (\<lambda>r w'. r = Inr None \<longrightarrow> R w') w'" for R w' and m :: "handler_end mig_tx"
    by (auto simp: ends_def tx_bind_def tx_return_def split: sum.splits prod.splits)
  have next_step: "ends (tx_bind (tx_try (refreshProgress i)) (\<lambda>r.
         if isl r then tx_return (Some (HandlerTransient ''cleanup_progress_failed''))
         else tx_bind (tx_try tx_check) (\<lambda>ctx.
           if isl ctx then tx_bind (cleanupStopped paused i) (\<lambda>stop. tx_return (Some stop))
           else cleanupItems env paused i items))) (\<lambda>r w''. r = Inr None \<longrightarrow> settledAfter (mi_ID ` set (item # items)) w w'') w1"
    if "settledAfter {mi_ID item} w w1" "\<forall>j x. j \<noteq> mi_ID item \<longrightarrow> rowAt j x w \<longrightarrow> rowAt j x w1" for w1
    by (rule ends_bind, rule ends_try, rule ends_mono [OF ends_always [OF items_same(1) refl]])
      (auto simp del: set_simps intro!: ends_return ends_bind [OF ends_try] ends_check fin rest [OF that])
  show ?case
    by (simp del: set_simps, rule ends_bind, rule ends_try, rule ends_mono [OF settled_step [OF rows(1)]])
      (auto simp del: set_simps split: sum.split intro!: fin next_step)
qed

lemma ends_any: "(\<And>r w'. Q r w') \<Longrightarrow> ends m Q w"
  by (simp add: ends_def)

lemma ends_skip: "(\<And>e w'. Q (Inl e) w') \<Longrightarrow> (\<And>x w'. ends (f x) Q w') \<Longrightarrow> ends (tx_bind m f) Q w"
  by (rule ends_bind, rule ends_any) simp

lemma cleanup_stops:
  "ends (cleanupStopped paused i) (\<lambda>r _. r = Inr HandlerStopped \<or> (\<exists>e. r = Inl e)) w"
  "ends (cleanupFailed paused i e) (\<lambda>r _. \<forall>p. r \<noteq> Inr (HandlerDone p)) w"
proof -
  show s: "ends (cleanupStopped paused i) (\<lambda>r _. r = Inr HandlerStopped \<or> (\<exists>e. r = Inl e)) w" for w
    unfolding cleanupStopped_def by (rule ends_skip) (auto intro: ends_return)
  show "ends (cleanupFailed paused i e) (\<lambda>r _. \<forall>p. r \<noteq> Inr (HandlerDone p)) w"
    unfolding cleanupFailed_def by (intro ends_if ends_skip ends_return ends_mono [OF s]) auto
qed

lemma cleanupItems_stop: "ends (cleanupItems env paused i items) (\<lambda>r _. \<forall>p. r \<noteq> Inr (Some (HandlerDone p))) w"
proof (induction items arbitrary: w)
  case Nil
  show ?case by (simp add: ends_return)
next
  case (Cons item items w)
  have stopped: "ends (tx_bind (cleanupStopped paused i) (\<lambda>s. tx_return (Some s))) (\<lambda>r _. \<forall>p. r \<noteq> Inr (Some (HandlerDone p))) w'" for w'
    by (rule ends_bind, rule ends_mono [OF cleanup_stops(1)]) (auto intro: ends_return)
  have failed: "ends (tx_bind (cleanupFailed paused i e) (\<lambda>s. tx_return (Some s))) (\<lambda>r _. \<forall>p. r \<noteq> Inr (Some (HandlerDone p))) w'" for e w'
    by (rule ends_bind, rule ends_mono [OF cleanup_stops(2)]) (auto intro: ends_return)
  show ?case
    by (simp, rule ends_skip, simp, simp split: sum.split, intro conjI allI impI failed, rule ends_skip, simp,
        rule ends_if, rule ends_return, simp, rule ends_skip, simp, rule ends_if, rule stopped, rule Cons.IH)
qed

lemma cleanupHandler_settles:
  assumes ids: "itemIDs w" and it: "it \<in> set (mw_items w)" "mi_MigrationID it = i"
  shows "ends (cleanupHandler env paused i) (\<lambda>r w'. r = Inr (HandlerDone ''Cleanup complete'') \<longrightarrow> statusAt settledStatuses (mi_ID it) w') w"
proof -
  let ?items = "\<lambda>w. sort_key mi_ID (filter (\<lambda>it. mi_MigrationID it = i \<and> mi_Status it \<notin> {ItemCleaned, ItemDeleted}) (mw_items w))"
  let ?Q = "\<lambda>r w'. r = Inr (HandlerDone ''Cleanup complete'') \<longrightarrow> statusAt settledStatuses (mi_ID it) w'"
  have tail: "ends (tx_bind (keptInstead i) (\<lambda>kept.
           if kept then tx_return (HandlerDone ''Originals retained'')
           else orEnd (refreshProgress i) (HandlerTransient ''cleanup_progress_failed'') (\<lambda>_.
             orEnd (updateMigration i (\<lambda>m. m\<lparr>mg_Status := MigrationCompleted, mg_Phase := ''Migration and cleanup complete'',
               mg_CompletedAt := Some (me_now env)\<rparr>)) (HandlerTransient ''cleanup_state_failed'') (\<lambda>_.
             tx_return (HandlerDone ''Cleanup complete''))))) ?Q w1"
    if "statusAt settledStatuses (mi_ID it) w1" for w1
  proof -
    have "always (\<lambda>w'. mw_items w' = mw_items w1) (tx_bind (keptInstead i) (\<lambda>kept.
           if kept then tx_return (HandlerDone ''Originals retained'')
           else orEnd (refreshProgress i) (HandlerTransient ''cleanup_progress_failed'') (\<lambda>_.
             orEnd (updateMigration i (\<lambda>m. m\<lparr>mg_Status := MigrationCompleted, mg_Phase := ''Migration and cleanup complete'',
               mg_CompletedAt := Some (me_now env)\<rparr>)) (HandlerTransient ''cleanup_state_failed'') (\<lambda>_.
             tx_return (HandlerDone ''Cleanup complete'')))))"
      unfolding keptInstead_def
      by (intro always_bind always_try always_first always_return always_if always_orEnd items_same)
    from ends_always [OF this refl] show ?thesis
      by (rule ends_mono) (use that in \<open>auto simp: statusAt_def itemById_def\<close>)
  qed
  have run: "ends (tx_bind (cleanupItems env paused i (?items w1)) (\<lambda>stop. case stop of
         Some r \<Rightarrow> tx_return r
       | None \<Rightarrow> tx_bind (keptInstead i) (\<lambda>kept.
           if kept then tx_return (HandlerDone ''Originals retained'')
           else orEnd (refreshProgress i) (HandlerTransient ''cleanup_progress_failed'') (\<lambda>_.
             orEnd (updateMigration i (\<lambda>m. m\<lparr>mg_Status := MigrationCompleted, mg_Phase := ''Migration and cleanup complete'',
               mg_CompletedAt := Some (me_now env)\<rparr>)) (HandlerTransient ''cleanup_state_failed'') (\<lambda>_.
             tx_return (HandlerDone ''Cleanup complete'')))))) ?Q w1"
    if same: "mw_items w1 = mw_items w" for w1
  proof -
    have ids1: "itemIDs w1" using ids same by (simp add: itemIDs_def)
    have sel: "selected w1 (?items w1)"
      using ids1 itemIDs_row [OF ids1] by (auto simp: selected_def rowAt_def itemIDs_def distinct_map inj_on_def)
    have "mi_ID it \<in> mi_ID ` set (?items w1) \<or> statusAt settledStatuses (mi_ID it) w1"
    proof (cases "mi_Status it \<in> {ItemCleaned, ItemDeleted}")
      case True
      with it(1) itemIDs_row [OF ids1, of it] show ?thesis by (auto simp: same statusAt_def settledStatuses_def)
    next
      case False
      with it show ?thesis by (auto simp: same)
    qed
    then have settled: "statusAt settledStatuses (mi_ID it) w2" if "settledAfter (mi_ID ` set (?items w1)) w1 w2" for w2
      using that unfolding settledAfter_def by blast
    show ?thesis
      by (rule ends_bind, rule ends_mono [OF ends_conj [OF cleanupItems_settle cleanupItems_stop]], rule sel)
        (auto simp del: set_sort split: option.split intro!: tail settled ends_return)
  qed
  have done_not: "HandlerDone ''Originals retained'' \<noteq> HandlerDone ''Cleanup complete''" by simp
  have status: "ends (orEnd (setStatus i MigrationCleaningOriginals ''Cleaning original copies'') (HandlerTransient ''cleanup_state_failed'') (\<lambda>_.
       orEnd (tx_select ?items) (HandlerTransient ''cleanup_items_failed'') (\<lambda>items.
       tx_bind (cleanupItems env paused i items) (\<lambda>stop. case stop of
         Some r \<Rightarrow> tx_return r
       | None \<Rightarrow> tx_bind (keptInstead i) (\<lambda>kept.
           if kept then tx_return (HandlerDone ''Originals retained'')
           else orEnd (refreshProgress i) (HandlerTransient ''cleanup_progress_failed'') (\<lambda>_.
             orEnd (updateMigration i (\<lambda>m. m\<lparr>mg_Status := MigrationCompleted, mg_Phase := ''Migration and cleanup complete'',
               mg_CompletedAt := Some (me_now env)\<rparr>)) (HandlerTransient ''cleanup_state_failed'') (\<lambda>_.
             tx_return (HandlerDone ''Cleanup complete'')))))))) ?Q w"
    by (rule ends_orEnd_always [OF items_same_status refl], simp, rule ends_orEnd_select, simp, rule run)
  show ?thesis
    unfolding cleanupHandler_def
    by (rule ends_orEnd_first, simp, rule ends_if, rule ends_return, simp, rule status)
qed

end
