(* ===== verification/MgDemo.thy ===== *)
theory MgDemo
  imports MgSettled
begin

text \<open>An example: two mounts, two pools, one video, and its migration.\<close>

definition demoEnv :: mig_env where
  "demoEnv = \<lparr>me_sha256 = (\<lambda>s. s @ ''#''), me_provider = (\<lambda>_. \<lparr>pv_land = (\<lambda>s. s), pv_size = (\<lambda>s. int (length s)), pv_etag = (\<lambda>s. s), pv_now = 5\<rparr>),
     me_now = 10, me_default = ''a'', me_due = (\<lambda>_. False)\<rparr>"

definition demoRuntime :: job_runtime where
  "demoRuntime = \<lparr>rt_Enqueue = (\<lambda>s. tx_stmt (\<lambda>w.
       let j = \<lparr>jv_ID = jr_IdempotencyKey s, jv_Kind = jr_Kind s, jv_SubjectID = jr_SubjectID s, jv_Status = JobQueued,
         jv_ErrorCode = [], jv_CreatedAt = 10, jv_QueuedAt = [jr_RunAfter s]\<rparr>
       in Inr (j, w\<lparr>mw_jobs := mw_jobs w @ [j]\<rparr>))),
     rt_PauseJob = (\<lambda>_. tx_return ()), rt_CancelJob = (\<lambda>_. tx_return ()), rt_RunJobNow = (\<lambda>_. tx_return ())\<rparr>"

definition demoFile :: stored_file where
  "demoFile = \<lparr>sf_ID = 1, sf_UUID = ''u'', sf_Size = 3, sf_StorageID = ''a'', sf_StoragePoolID = Some 1, sf_CacheVersion = None,
     sf_Available = True, sf_Deleted = False\<rparr>"

definition demoMember :: "string \<Rightarrow> pool_member" where
  "demoMember m = \<lparr>pb_Mount = m, pb_Name = m, pb_Primary = True, pb_Mounted = True, pb_LastError = []\<rparr>"

definition demoObject :: obj where
  "demoObject = putObject (me_provider demoEnv ''a'') \<lparr>po_ContentType = [], po_CacheControl = [], po_ExpectedSize = None\<rparr> ''xyz''"

definition demoWorld :: mig_world where
  "demoWorld = \<lparr>sw_stores = (\<lambda>m. if m = ''a'' then [(''u/v'', demoObject)] else []), mw_files = [demoFile], mw_qualities = [], mw_audios = [],
     mw_subtitles = [], mw_links = [\<lparr>fk_FileID = 1, fk_UserID = 4, fk_Deleted = False\<rparr>], mw_accounts = [],
     mw_pools = [\<lparr>pw_ID = 1, pw_Name = ''old'', pw_IsDefault = True, pw_Members = [demoMember ''a'']\<rparr>,
                 \<lparr>pw_ID = 2, pw_Name = ''new'', pw_IsDefault = False, pw_Members = [demoMember ''b'']\<rparr>],
     mw_jobs = [], mw_migrations = [], mw_items = [], mw_objects = [], mw_connected = [''a'', ''b'']\<rparr>"

definition demoOrig :: "string \<Rightarrow> string \<rightharpoonup> string" where
  "demoOrig u k = (if u = ''u'' \<and> k = ''u/v'' then Some ''xyz'' else None)"

definition demoInput :: migration_input where
  "demoInput = \<lparr>in_SourcePoolID = 1, in_DestinationPoolID = 2, in_AccountIDs = [],
     in_PlanFingerprint = (case buildPlan demoEnv \<lparr>in_SourcePoolID = 1, in_DestinationPoolID = 2, in_AccountIDs = [],
       in_PlanFingerprint = [], in_IdempotencyKey = ''k''\<rparr> (demoWorld, []) of (Inr p, _) \<Rightarrow> trimSpace (pl_fingerprint p) | _ \<Rightarrow> []),
     in_IdempotencyKey = ''k''\<rparr>"

definition demoStarted :: mig_world where
  "demoStarted = fst (snd (StartMigration demoEnv demoRuntime (tx_return ()) ''m1'' demoInput 7 ''admin'' (demoWorld, [])))"

definition demoMigrated :: mig_world where
  "demoMigrated = fst (snd (migrationHandler demoEnv demoRuntime False (\<lambda>_. False) False ''j'' 1 (demoStarted, [])))"

definition demoCleaned :: mig_world where
  "demoCleaned = fst (snd (cleanupHandler demoEnv False 1 (demoMigrated, [])))"

lemma demo_start: "map mi_Status (mw_items demoStarted) = [ItemPending]" "map mg_ID (mw_migrations demoStarted) = [1]"
  by code_simp+

lemma demo_migrated: "map mi_Status (mw_items demoMigrated) = [ItemCleanupPending]" "map sf_StorageID (mw_files demoMigrated) = [''b'']"
  by code_simp+

lemma demo_cleaned: "map mi_Status (mw_items demoCleaned) = [ItemCleaned]" "sw_stores demoCleaned ''a'' = []"
  by code_simp+

end
