(* ===== verification/MgClaims.thy ===== *)
theory MgClaims
  imports MgDemo MgReconcile MgPlanOK MgSystem
begin

text \<open>The properties of storage migration and of the deletion of videos, on the example world.\<close>

section \<open>The example is reachable\<close>

lemma step_run: "mig_op (tx_ignore m) \<Longrightarrow> mig_step (orig, w) (orig, fst (snd (m (w, fs))))"
proof (erule mig_step.Run)
  show "tx_ignore m (w, fs) = (Inr (), fst (snd (m (w, fs))), snd (snd (m (w, fs))))"
    by (cases "m (w, fs)") (simp add: tx_ignore_def tx_bind_def tx_try_def tx_return_def)
qed

lemma jobsOnly_enqueue: "jobsOnly w0 w \<Longrightarrow> jobsOnly w0 (w\<lparr>mw_jobs := js\<rparr>)"
  unfolding jobsOnly_def by (drule arg_cong [where f = "\<lambda>w. w\<lparr>mw_jobs := js\<rparr>"]) simp

lemma demoEnv_honest: "honest demoEnv"
  by (simp add: honest_def demoEnv_def)

lemma demoRuntime_ok: "runtimeOK demoRuntime"
  unfolding runtimeOK_def demoRuntime_def
  by (auto intro!: always_stmt always_return simp: jobsOnly_enqueue Let_def)

lemma migDemo_init: "migInit (demoOrig, demoWorld)"
proof -
  have "validUUID ''u''" by code_simp
  then show ?thesis
    by (auto simp: migInit_def filesOK_def isFile_def intact_def demoOrig_def demoWorld_def demoFile_def demoObject_def putObject_def demoEnv_def)
qed

lemma demo_reachable:
  "mig_step\<^sup>*\<^sup>* (demoOrig, demoWorld) (demoOrig, demoStarted)" "mig_step\<^sup>*\<^sup>* (demoOrig, demoWorld) (demoOrig, demoMigrated)"
  "mig_step\<^sup>*\<^sup>* (demoOrig, demoWorld) (demoOrig, demoCleaned)"
proof -
  show s: "mig_step\<^sup>*\<^sup>* (demoOrig, demoWorld) (demoOrig, demoStarted)"
    unfolding demoStarted_def by (rule r_into_rtranclp, rule step_run, rule mig_op.Start [OF demoRuntime_ok mig_op.Nothing])
  show m: "mig_step\<^sup>*\<^sup>* (demoOrig, demoWorld) (demoOrig, demoMigrated)"
    unfolding demoMigrated_def by (rule rtranclp.rtrancl_into_rtrancl [OF s], rule step_run, rule mig_op.MigrationTask [OF demoEnv_honest demoRuntime_ok])
  show "mig_step\<^sup>*\<^sup>* (demoOrig, demoWorld) (demoOrig, demoCleaned)"
    unfolding demoCleaned_def by (rule rtranclp.rtrancl_into_rtrancl [OF m], rule step_run, rule mig_op.CleanupTask)
qed

section \<open>The media\<close>

text \<open>C2: Whatever sequence of starts, copies, cutovers, cleanups, cancellations, retries,
  retentions, reconciliations and deletions runs, with any statement or store call failing
  anywhere and any uploads and encodings in between, every live video has, on the mount its row
  names, exactly the objects with exactly the contents it was uploaded and encoded with. The
  providers store the bytes they acknowledge (honest) and the background runtime changes its own
  tables only (runtimeOK).\<close>

theorem media_stay_intact:
  assumes "migInit s0" and "mig_step\<^sup>*\<^sup>* s0 (orig, w)" and "isFile w f" and "below (sf_UUID f) k"
  shows "map_option ob_Body (map_of (sw_stores w (sf_StorageID f)) k) = orig (sf_UUID f) k"
proof -
  have "mediaSafe orig w" using migrations.reachable_inv [OF assms(1,2)] by (simp add: migInv_def)
  from mediaSafe_intact [OF this assms(3)] assms(4) show ?thesis by (simp add: intact_def)
qed

theorem media_stay_intact_witness:
  "map sf_StorageID (mw_files demoCleaned) = [''b''] \<and> sw_stores demoCleaned ''a'' = [] \<and>
   map_option ob_Body (map_of (sw_stores demoCleaned ''b'') ''u/v'') = Some ''xyz''"
proof -
  have row: "map (\<lambda>f. (sf_UUID f, sf_StorageID f, sf_Deleted f)) (mw_files demoCleaned) = [(''u'', ''b'', False)]" by code_simp
  then obtain f where f: "mw_files demoCleaned = [f]" "sf_UUID f = ''u''" "sf_StorageID f = ''b''" "\<not> sf_Deleted f"
    by (cases "mw_files demoCleaned") auto
  have "isFile demoCleaned f" "below (sf_UUID f) ''u/v''" using f by (simp_all add: isFile_def below_def)
  from media_stay_intact [OF migDemo_init demo_reachable(3) this] f demo_cleaned show ?thesis
    by (simp add: demoOrig_def)
qed

section \<open>The cutover\<close>

lemma filter_one: "length (filter p xs) = 1 \<Longrightarrow> \<exists>x. filter p xs = [x]"
  by (cases "filter p xs") auto

text \<open>C7: The cutover transaction either fails and changes nothing, or exactly one file row,
  available on the source, moved to the destination, exactly one undeleted item row became
  cleanup-pending, its checkpoints are gone and the stores are untouched.\<close>

theorem cutover_all_or_nothing:
  assumes "transaction (cutoverBody env item pool i) (w, fs) = (r, w', fs')"
  shows "if r = Inr () then
      (\<exists>f it. filter (onSource item i) (mw_files w) = [f] \<and> filter (notDeleted (mi_ID item)) (mw_items w) = [it]) \<and>
      map sf_StorageID (mw_files w') = map (\<lambda>f. if onSource item i f then mi_DestinationMountID item else sf_StorageID f) (mw_files w) \<and>
      map mi_Status (mw_items w') = map (\<lambda>it. if notDeleted (mi_ID item) it then ItemCleanupPending else mi_Status it) (mw_items w) \<and>
      (\<forall>c. c \<in> set (mw_objects w') \<longleftrightarrow> c \<in> set (mw_objects w) \<and> co_ItemID c \<noteq> mi_ID item) \<and> sw_stores w' = sw_stores w
    else w' = w"
proof -
  let ?Q = "\<lambda>_ w'. (\<exists>f it. filter (onSource item i) (mw_files w) = [f] \<and> filter (notDeleted (mi_ID item)) (mw_items w) = [it]) \<and>
      map sf_StorageID (mw_files w') = map (\<lambda>f. if onSource item i f then mi_DestinationMountID item else sf_StorageID f) (mw_files w) \<and>
      map mi_Status (mw_items w') = map (\<lambda>it. if notDeleted (mi_ID item) it then ItemCleanupPending else mi_Status it) (mw_items w) \<and>
      (\<forall>c. c \<in> set (mw_objects w') \<longleftrightarrow> c \<in> set (mw_objects w) \<and> co_ItemID c \<noteq> mi_ID item) \<and> sw_stores w' = sw_stores w"
  have "wp (cutoverBody env item pool i) ?Q w"
    unfolding cutoverBody_def updateItems_def clearCheckpoints_def
    by (intro wp_bind wp_stmt wp_reject wp_update)
      (auto simp: setItems_def dropObjects_def affected_def update_where_def cutoverFile_def length_Suc_conv comp_def split: if_splits)
  with assms show ?thesis by (rule transaction_cases) auto
qed

theorem cutover_all_or_nothing_witness:
  "let w' = fst (snd (transaction (cutoverBody demoEnv (hd (mw_items demoStarted)) (Some 2) 1) (demoStarted, [])))
   in map sf_StorageID (mw_files w') = [''b''] \<and> map mi_Status (mw_items w') = [ItemCleanupPending]"
proof -
  let ?item = "hd (mw_items demoStarted)"
  obtain r w' fs' where run: "transaction (cutoverBody demoEnv ?item (Some 2) 1) (demoStarted, []) = (r, w', fs')"
    by (cases "transaction (cutoverBody demoEnv ?item (Some 2) 1) (demoStarted, [])") auto
  have "fst (transaction (cutoverBody demoEnv ?item (Some 2) 1) (demoStarted, [])) = Inr ()" by code_simp
  with run have r: "r = Inr ()" by simp
  have rows: "map (\<lambda>f. if onSource ?item 1 f then mi_DestinationMountID ?item else sf_StorageID f) (mw_files demoStarted) = [''b'']"
    "map (\<lambda>it. if notDeleted (mi_ID ?item) it then ItemCleanupPending else mi_Status it) (mw_items demoStarted) = [ItemCleanupPending]"
    by code_simp+
  from cutover_all_or_nothing [OF run] r rows run show ?thesis by (simp add: Let_def)
qed

section \<open>Removing the originals\<close>

lemma reachable_rows:
  assumes "migInit s0" "mig_step\<^sup>*\<^sup>* s0 (orig, w)"
  shows "itemIDs w" and "item \<in> set (mw_items w) \<Longrightarrow> itemById (mi_ID item) w = Some item"
proof -
  show i: "itemIDs w" using migrations.reachable_inv [OF assms] by (simp add: migInv_def mediaSafe_def itemIDs_def)
  show "itemById (mi_ID item) w = Some item" if "item \<in> set (mw_items w)"
    using i that by (simp add: itemIDs_def itemById_def find_distinct_key)
qed

text \<open>C6: When the cleanup of an unsettled video of a reachable state succeeds, its file was active
  on the destination (or is gone) before anything was removed, and afterwards the video counts
  as deleted or it is cleaned and the source mount has no object below its prefix.\<close>

theorem cleanup_removes_original:
  assumes "migInit s0" and "mig_step\<^sup>*\<^sup>* s0 (orig, w)" and "item \<in> set (mw_items w)" and "mi_Status item \<notin> settledStatuses"
    and "cleanupItem env item (w, fs) = (Inr (), w', fs')"
  shows "(\<forall>f. fileUnscoped (mi_FileID item) w = Some f \<longrightarrow> sf_StorageID f = mi_DestinationMountID item) \<and>
    (\<exists>it. itemById (mi_ID item) w' = Some it \<and> (mi_Status it = ItemDeleted \<or> mi_Status it = ItemCleaned \<and>
       (\<forall>k. below (mi_FileUUID item) k \<longrightarrow> map_of (sw_stores w' (mi_SourceMountID item)) k = None)))"
proof -
  have "itemIDs w" "itemById (mi_ID item) w = Some item" using reachable_rows [OF assms(1,2)] assms(3) by simp_all
  from endsD [OF cleanupItem_outcome [OF this assms(4,4)] assms(5)] show ?thesis
    by (auto simp: wasActive_def removed_def statusAt_def cleared_def)
qed

theorem cleanup_removes_original_witness:
  "let item = hd (mw_items demoMigrated); w' = fst (snd (cleanupItem demoEnv item (demoMigrated, [])))
   in \<exists>it. itemById 1 w' = Some it \<and> (mi_Status it = ItemDeleted \<or> mi_Status it = ItemCleaned \<and> map_of (sw_stores w' ''a'') ''u/v'' = None)"
proof -
  let ?item = "hd (mw_items demoMigrated)"
  obtain r w' fs' where run: "cleanupItem demoEnv ?item (demoMigrated, []) = (r, w', fs')"
    by (cases "cleanupItem demoEnv ?item (demoMigrated, [])") auto
  have "fst (cleanupItem demoEnv ?item (demoMigrated, [])) = Inr ()" by code_simp
  with run have run': "cleanupItem demoEnv ?item (demoMigrated, []) = (Inr (), w', fs')" by simp
  have "mw_items demoMigrated \<noteq> []" using demo_migrated by auto
  then have item: "?item \<in> set (mw_items demoMigrated)" by simp
  have "mi_Status ?item \<notin> settledStatuses \<and> mi_ID ?item = 1 \<and> below (mi_FileUUID ?item) ''u/v'' \<and> mi_SourceMountID ?item = ''a''" by code_simp
  with cleanup_removes_original [OF migDemo_init demo_reachable(2) item _ run'] run show ?thesis by (auto simp: Let_def)
qed

text \<open>C16: When the cleanup task of a reachable state reports completion, every video of the
  migration is cleaned, kept, partially kept or deleted.\<close>

theorem cleanup_settles:
  assumes "migInit s0" and "mig_step\<^sup>*\<^sup>* s0 (orig, w)" and "it \<in> set (mw_items w)" and "mi_MigrationID it = i"
    and "cleanupHandler env paused i (w, fs) = (Inr (HandlerDone ''Cleanup complete''), w', fs')"
  shows "\<exists>it'. itemById (mi_ID it) w' = Some it' \<and> mi_Status it' \<in> {ItemCleaned, ItemOriginalKept, ItemOriginalPartial, ItemDeleted}"
  using endsD [OF cleanupHandler_settles [OF reachable_rows(1) [OF assms(1,2)] assms(3,4)] assms(5)]
  by (auto simp: statusAt_def settledStatuses_def)

theorem cleanup_settles_witness:
  "\<exists>it. itemById 1 demoCleaned = Some it \<and> mi_Status it \<in> {ItemCleaned, ItemOriginalKept, ItemOriginalPartial, ItemDeleted}"
proof -
  obtain r w' fs' where run: "cleanupHandler demoEnv False 1 (demoMigrated, []) = (r, w', fs')"
    by (cases "cleanupHandler demoEnv False 1 (demoMigrated, [])") auto
  have "fst (cleanupHandler demoEnv False 1 (demoMigrated, [])) = Inr (HandlerDone ''Cleanup complete'')" by code_simp
  with run have run': "cleanupHandler demoEnv False 1 (demoMigrated, []) = (Inr (HandlerDone ''Cleanup complete''), w', fs')" by simp
  have "map (\<lambda>it. (mi_ID it, mi_MigrationID it)) (mw_items demoMigrated) = [(1, 1)]" by code_simp
  then obtain it where it: "mw_items demoMigrated = [it]" "mi_ID it = 1" "mi_MigrationID it = 1" by (cases "mw_items demoMigrated") auto
  have w': "w' = demoCleaned" using run' by (simp add: demoCleaned_def)
  from cleanup_settles [OF migDemo_init demo_reachable(2) _ it(3) run'] it show ?thesis unfolding w' by simp
qed

end
