(* ===== verification/MgPromises.thy ===== *)
theory MgPromises
  imports MgDemo MgPlanOK
begin

text \<open>The properties of planning a migration and of deleting a video, on the example world.\<close>

section \<open>Deleting a video\<close>

text \<open>C3: When the deleter reports a video as deleted, it was unreferenced or already deleted,
  nothing was being encoded or prepared from it, no mount that may hold a copy has an object of
  it left, and its rows and reservations are gone; otherwise the rows of the files keep their
  identity and storage, and a referenced live video is left as it was.\<close>

theorem deletion_complete:
  assumes "deleteFile env preparing i (w, fs) = (r, w', fs')"
  shows "if r = Inr True
    then (\<exists>file. fileUnscoped i w = Some file \<and> (sf_Deleted file \<or> \<not> referenced i w) \<and> \<not> preparing \<and> \<not> trackEncoding i w \<and>
        (\<forall>m k. m \<in> set (copyMounts file (rowsOf i w)) \<and> below (sf_UUID file) k \<longrightarrow>
           map_of (sw_stores w' (storeOrDefault env m)) k = None)) \<and>
      i \<notin> sf_ID ` set (mw_files w') \<and> i \<notin> tr_FileID ` set (mw_qualities w' @ mw_audios w' @ mw_subtitles w') \<and>
      (\<forall>it. it \<in> set (mw_items w') \<and> mi_FileID it = i \<longrightarrow> mi_Status it = ItemDeleted \<and> mi_ReservationKey it = [] \<and> \<not> mi_DestinationOwned it)
    else map fileKey (mw_files w') = map fileKey (mw_files w) \<and>
      (\<forall>file. fileUnscoped i w = Some file \<and> \<not> sf_Deleted file \<and> referenced i w \<longrightarrow> w' = w)"
  using endsD [OF deleteFile_outcome assms]
  by (auto simp: deleteEnd_def copiesCleared_def cleared_def forgotten_def keepsFiles_def)

text \<open>The example without the link of the video.\<close>

definition demoUnlinked :: mig_world where
  "demoUnlinked = demoMigrated\<lparr>mw_links := []\<rparr>"

theorem deletion_complete_witness:
  "let w' = fst (snd (deleteFile demoEnv False 1 (demoUnlinked, [])))
   in map_of (sw_stores w' ''a'') ''u/v'' = None \<and> map_of (sw_stores w' ''b'') ''u/v'' = None \<and> 1 \<notin> sf_ID ` set (mw_files w')"
proof -
  obtain r w' fs' where run: "deleteFile demoEnv False 1 (demoUnlinked, []) = (r, w', fs')"
    by (cases "deleteFile demoEnv False 1 (demoUnlinked, [])") auto
  have "fst (deleteFile demoEnv False 1 (demoUnlinked, [])) = Inr True" by code_simp
  with run have r: "r = Inr True" by simp
  have "(case fileUnscoped 1 demoUnlinked of None \<Rightarrow> False | Some f \<Rightarrow> sf_UUID f = ''u'' \<and> copyMounts f (rowsOf 1 demoUnlinked) = [''b'', ''a'', ''b''])"
    by code_simp
  then obtain f where f: "fileUnscoped 1 demoUnlinked = Some f" "sf_UUID f = ''u''" "copyMounts f (rowsOf 1 demoUnlinked) = [''b'', ''a'', ''b'']"
    by (auto split: option.splits)
  have all: "\<forall>m k. m \<in> set [''b'', ''a'', ''b''] \<and> below ''u'' k \<longrightarrow> map_of (sw_stores w' (storeOrDefault demoEnv m)) k = None"
    "1 \<notin> sf_ID ` set (mw_files w')"
    using deletion_complete [OF run] unfolding r f(1) by (simp_all only: if_True option.inject f(2,3) refl simp_thms ex_simps) (metis f(2,3))+
  have "storeOrDefault demoEnv ''a'' = ''a''" "storeOrDefault demoEnv ''b'' = ''b''" "below ''u'' ''u/v''"
    by (simp_all add: storeOrDefault_def below_def)
  with all(1) [rule_format, of "''a''" "''u/v''"] all(1) [rule_format, of "''b''" "''u/v''"] all(2) run show ?thesis by (simp add: Let_def)
qed

section \<open>Planning\<close>

lemma planOK_files:
  assumes "planOK w input plan"
  shows "f \<in> set (pl_files plan) \<longleftrightarrow> f \<in> set (mw_files w) \<and> \<not> sf_Deleted f \<and> sf_Available f \<and> inScope (scopeOf input) w f \<and>
    sf_StorageID f \<in> mp_UUID ` set (pv_SourceMounts (pl_preview plan))"
proof -
  have "set (pl_files plan) = set (scopedFiles (map mp_UUID (pv_SourceMounts (pl_preview plan))) (scopeOf input) True w)"
    using assms unfolding planOK_def Let_def by (metis set_sort)
  then show ?thesis by (auto simp: scopedFiles_def)
qed

text \<open>C17: A plan lists exactly the live available videos on the source mounts within the account
  scope; none of them is reserved by another migration, and each is placed on a connected,
  mounted, healthy primary mount of the destination pool other than its current one; planning
  changes nothing.\<close>

theorem plan_sound:
  assumes "buildPlan env input (w, fs) = (Inr plan, w', fs')"
  shows "w' = w \<and> pl_files plan \<noteq> [] \<and>
    (\<forall>f. f \<in> set (pl_files plan) \<longleftrightarrow> f \<in> set (mw_files w) \<and> \<not> sf_Deleted f \<and> sf_Available f \<and> inScope (scopeOf input) w f \<and>
       sf_StorageID f \<in> mp_UUID ` set (pv_SourceMounts (pl_preview plan))) \<and>
    (\<forall>f. f \<in> set (pl_files plan) \<longrightarrow> (\<forall>it. it \<in> set (mw_items w) \<and> mi_FileID it = sf_ID f \<longrightarrow> mi_ReservationKey it = []) \<and>
       (\<exists>m d b. map_of (pl_destination plan) (sf_ID f) = Some m \<and> m \<noteq> sf_StorageID f \<and> m \<in> set (mw_connected w) \<and>
          poolById (in_DestinationPoolID input) w = Some d \<and> b \<in> set (pw_Members d) \<and> pb_Mount b = m \<and>
          pb_Primary b \<and> pb_Mounted b \<and> trimSpace (pb_LastError b) = []))"
proof -
  have w: "w' = w" and ok: "planOK w input plan" using endsD [OF buildPlan_result assms] by simp_all
  let ?d = "map mp_UUID (pv_DestinationMounts (pl_preview plan))"
  have free: "mi_ReservationKey it = []" if "f \<in> set (pl_files plan)" "it \<in> set (mw_items w)" "mi_FileID it = sf_ID f" for f it
    using ok that by (force simp: planOK_def Let_def reservedCount_def countWhere_def filter_empty_conv)
  have dest: "\<exists>m d b. map_of (pl_destination plan) (sf_ID f) = Some m \<and> m \<noteq> sf_StorageID f \<and> m \<in> set (mw_connected w) \<and>
          poolById (in_DestinationPoolID input) w = Some d \<and> b \<in> set (pw_Members d) \<and> pb_Mount b = m \<and>
          pb_Primary b \<and> pb_Mounted b \<and> trimSpace (pb_LastError b) = []" if f: "f \<in> set (pl_files plan)" for f
  proof -
    obtain m where m: "m \<in> set ?d" "map_of (pl_destination plan) (sf_ID f) = Some m"
      using placed_Some [of ?d f "pl_files plan" "mountBytes w"] f ok unfolding planOK_def Let_def by metis
    moreover have "m \<noteq> sf_StorageID f" using planOK_safe [OF ok] f m(2) by (auto simp: planSafe_def)
    ultimately show ?thesis using ok by (fastforce simp: planOK_def Let_def usableMount_def)
  qed
  have "pl_files plan \<noteq> []" using ok unfolding planOK_def Let_def by blast
  with w planOK_files [OF ok] free dest show ?thesis by blast
qed

theorem plan_sound_witness:
  "case fst (buildPlan demoEnv demoInput (demoWorld, [])) of Inl _ \<Rightarrow> False
   | Inr plan \<Rightarrow> (\<exists>m. map_of (pl_destination plan) 1 = Some m \<and> m \<noteq> ''a'')"
proof -
  have ok: "(case fst (buildPlan demoEnv demoInput (demoWorld, [])) of Inl _ \<Rightarrow> False
     | Inr plan \<Rightarrow> map mp_UUID (pv_SourceMounts (pl_preview plan)) = [''a''])"
    by code_simp
  then obtain plan w' fs' where run: "buildPlan demoEnv demoInput (demoWorld, []) = (Inr plan, w', fs')"
    by (cases "buildPlan demoEnv demoInput (demoWorld, [])") (auto split: sum.splits)
  have src: "map mp_UUID (pv_SourceMounts (pl_preview plan)) = [''a'']" using ok run by simp
  then have "''a'' \<in> mp_UUID ` set (pv_SourceMounts (pl_preview plan))" by (metis list.set_map list.set_intros(1))
  moreover have "inScope (scopeOf demoInput) demoWorld demoFile" by code_simp
  ultimately have "demoFile \<in> set (pl_files plan)" using plan_sound [OF run] by (simp add: demoWorld_def demoFile_def)
  with plan_sound [OF run] run show ?thesis by (force simp: demoFile_def)
qed

text \<open>After the planned placement of files of non-negative sizes, a destination mount that
  received a file exceeds any other destination mount by at most the size of one planned file.\<close>

theorem placement_balanced:
  assumes "buildPlan env input (w, fs) = (Inr plan, w', fs')" and "\<And>f. f \<in> set (mw_files w) \<Longrightarrow> 0 \<le> sf_Size f"
    and "(i, m) \<in> set (pl_destination plan)" and "m' \<in> mp_UUID ` set (pv_DestinationMounts (pl_preview plan))"
  shows "\<exists>f. f \<in> set (pl_files plan) \<and>
    usageAfter (mountBytes w) (pl_files plan) (pl_destination plan) m - sf_Size f \<le> usageAfter (mountBytes w) (pl_files plan) (pl_destination plan) m'"
proof -
  have ok: "planOK w input plan" using endsD [OF buildPlan_result assms(1)] by simp
  let ?d = "map mp_UUID (pv_DestinationMounts (pl_preview plan))"
  have placed: "?d \<noteq> []" "pl_destination plan = placeFiles ?d (mountBytes w) (pl_files plan)"
    using ok unfolding planOK_def Let_def by simp_all
  have "\<And>f. f \<in> set (pl_files plan) \<Longrightarrow> 0 \<le> sf_Size f" using assms(2) planOK_files [OF ok] by blast
  from placeFiles_balanced [OF placed(1) this, where u = "mountBytes w" and m = m and m' = m' and i = i] placed(2) assms(3,4)
  show ?thesis by (metis list.set_map)
qed

theorem placement_balanced_witness:
  "case fst (buildPlan demoEnv demoInput (demoWorld, [])) of Inl _ \<Rightarrow> False
   | Inr plan \<Rightarrow> (\<exists>f. f \<in> set (pl_files plan) \<and> usageAfter (mountBytes demoWorld) (pl_files plan) (pl_destination plan) ''b'' - sf_Size f
       \<le> usageAfter (mountBytes demoWorld) (pl_files plan) (pl_destination plan) ''b'')"
proof -
  have ok: "(case fst (buildPlan demoEnv demoInput (demoWorld, [])) of Inl _ \<Rightarrow> False
     | Inr plan \<Rightarrow> map mp_UUID (pv_DestinationMounts (pl_preview plan)) = [''b''] \<and> pl_destination plan = [(1, ''b'')])"
    by code_simp
  then obtain plan w' fs' where run: "buildPlan demoEnv demoInput (demoWorld, []) = (Inr plan, w', fs')"
    by (cases "buildPlan demoEnv demoInput (demoWorld, [])") (auto split: sum.splits)
  have d: "map mp_UUID (pv_DestinationMounts (pl_preview plan)) = [''b'']" "(1, ''b'') \<in> set (pl_destination plan)" using ok run by simp_all
  then have "''b'' \<in> mp_UUID ` set (pv_DestinationMounts (pl_preview plan))" by (metis list.set_map list.set_intros(1))
  from placement_balanced [OF run _ d(2) this] run show ?thesis by (simp add: demoWorld_def demoFile_def)
qed

end
