(* ===== verification/UpState.thy ===== *)
theory UpState
  imports LibShare
begin

text \<open>
  The sessions of resumable uploads (\<^verbatim>\<open>services/tusupload\<close>): the tables, files and stores an upload
  touches, the events of the protocol handler, the quotas, and the expiry of sessions. The handler
  itself is a third-party package; what it tells the service are arguments.
\<close>

section \<open>Rows\<close>

datatype upload_kind = KindSingle | KindPartial | KindFinal

text \<open>\<open>upload_row\<close> has the columns the capacity of a share reads; these are the others.\<close>

record session_row = upload_row +
  us_SessionID :: nat
  us_TusID :: string
  us_Kind :: upload_kind
  us_Name :: string
  us_Size :: int
  us_Offset :: int
  us_FolderShareID :: nat
  us_FolderShareVersion :: string
  us_StoragePath :: string
  us_InfoPath :: string
  us_FileID :: nat
  us_LinkID :: nat
  us_BackgroundJobID :: string

record part_row =
  pa_UploadSessionID :: nat
  pa_PartialUploadSessionID :: nat
  pa_Index :: nat
  pa_TusID :: string

record upload_log =
  ul_UserID :: nat
  ul_FileID :: nat
  ul_UploadSessionID :: nat
  ul_Bytes :: int

record uploader = user_row +
  ua_Storage :: int
  ua_UploadSessionsMax :: int

record guest_share = share_row +
  gs_ID :: nat
  gs_AllowRead :: bool
  gs_AllowUpload :: bool
  gs_MaxVideoSize :: int
  gs_ReturnUploadLink :: "bool option"
  gs_Locked :: bool
  gs_AccessVersion :: string

text \<open>A file of the library with the columns an import writes, and the rows of its tracks: what is
  to be encoded from it.\<close>

record video_file = media_file +
  vf_UUID :: string
  vf_Hash :: string
  vf_StorageID :: string
  vf_SourceKey :: string
  vf_Available :: bool
  vf_UserID :: nat
  vf_Path :: string

datatype track_kind = SubtitleTrack | AudioTrack | QualityTrack

record media_track =
  tk_Kind :: track_kind
  tk_FileID :: nat
  tk_Index :: nat
  tk_Type :: string

section \<open>The world of an upload\<close>

text \<open>The folders, links and shares are those of the library; \<open>uw_disk\<close> is the local file system,
  \<open>uw_media\<close> the objects on the mounts.\<close>

record upload_world =
  uw_lib :: library
  uw_users :: "uploader list"
  uw_shares :: "guest_share list"
  uw_files :: "video_file list"
  uw_sessions :: "session_row list"
  uw_parts :: "part_row list"
  uw_logs :: "upload_log list"
  uw_tracks :: "media_track list"
  uw_disk :: "string \<rightharpoonup> string"
  uw_media :: "string \<times> string \<rightharpoonup> string"
  uw_nextSession :: nat
  uw_nextFile :: nat

text \<open>An error with its HTTP status; \<open>NotFinished\<close> is an error the caller does not look at.\<close>

datatype upload_error = UploadRejected nat string | NotFinished

type_synonym 'a upload_tx = "(upload_world, upload_error, 'a) tx"

text \<open>What the operations of the library see, and their effect: of the library's tables only the
  links are changed by an upload.\<close>

definition libraryOf :: "upload_world \<Rightarrow> library" where
  "libraryOf w = (uw_lib w)\<lparr>lb_users := map user_row.truncate (uw_users w), lb_files := map media_file.truncate (uw_files w),
     lb_shares := map share_row.truncate (uw_shares w), lb_uploads := map upload_row.truncate (uw_sessions w)\<rparr>"

definition putLibrary :: "library \<Rightarrow> upload_world \<Rightarrow> upload_world" where
  "putLibrary l w = w\<lparr>uw_lib := (uw_lib w)\<lparr>lb_links := lb_links l, lb_nextLink := lb_nextLink l\<rparr>\<rparr>"

definition inLibrary :: "(lib_error txerr \<Rightarrow> upload_error txerr) \<Rightarrow> 'a lib_tx \<Rightarrow> 'a upload_tx" where
  "inLibrary err m s = (case m (libraryOf (fst s), snd s) of
     (Inl e, l, fs) \<Rightarrow> (Inl (err e), putLibrary l (fst s), fs)
   | (Inr x, l, fs) \<Rightarrow> (Inr x, putLibrary l (fst s), fs))"

text \<open>An error of the library keeps its status.\<close>

definition statusError :: "lib_error txerr \<Rightarrow> upload_error txerr" where
  "statusError e = App (UploadRejected (httpStatus e) '''')"

definition answered :: "nat \<Rightarrow> 'e txerr \<Rightarrow> upload_error txerr" where
  "answered code e = App (UploadRejected code '''')"

text \<open>A statement whose error becomes a status.\<close>

definition orStatus :: "nat \<Rightarrow> 'a upload_tx \<Rightarrow> 'a upload_tx" where
  "orStatus code m = tx_catch m (\<lambda>e. tx_fail (answered code e))"

definition refuse :: "bool \<Rightarrow> nat \<Rightarrow> string \<Rightarrow> unit upload_tx" where
  "refuse c code name = tx_reject c (UploadRejected code name)"

definition liveSessions :: "upload_world \<Rightarrow> session_row list" where
  "liveSessions w = filter (\<lambda>u. \<not> up_Deleted u) (uw_sessions w)"

definition activeStatuses :: "upload_status list" where
  "activeStatuses = [UploadCreated, UploadUploading, UploadUploaded, UploadImporting, UploadFailed]"

definition activeUpload :: "nat \<Rightarrow> session_row \<Rightarrow> bool" where
  "activeUpload userID u \<longleftrightarrow> up_UserID u = userID \<and> up_Status u \<in> set activeStatuses"

definition inGroup :: "string \<Rightarrow> nat \<Rightarrow> session_row \<Rightarrow> bool" where
  "inGroup g userID u \<longleftrightarrow> up_ClientUploadUUID u = g \<and> up_UserID u = userID"

text \<open>\<^verbatim>\<open>db.Where("tus_id = ?", ...).First\<close> and \<^verbatim>\<open>db.Model(&session).Updates\<close>, which leaves deleted rows alone.\<close>

definition sessionByTusID :: "string \<Rightarrow> upload_world \<Rightarrow> session_row option" where
  "sessionByTusID i w = find (\<lambda>u. us_TusID u = i) (liveSessions w)"

definition updateSessions :: "(session_row \<Rightarrow> bool) \<Rightarrow> (session_row \<Rightarrow> session_row) \<Rightarrow> upload_world \<Rightarrow> upload_world" where
  "updateSessions p f w = w\<lparr>uw_sessions := update_where p f (uw_sessions w)\<rparr>"

definition updateSession :: "session_row \<Rightarrow> (session_row \<Rightarrow> session_row) \<Rightarrow> unit upload_tx" where
  "updateSession s f = tx_update (updateSessions (\<lambda>u. us_SessionID u = us_SessionID s \<and> \<not> up_Deleted u) f)"

definition deleteSession :: "session_row \<Rightarrow> unit upload_tx" where
  "deleteSession s = updateSession s (\<lambda>u. u\<lparr>up_Deleted := True\<rparr>)"

section \<open>Events of the handler\<close>

definition trackUpload :: "nat \<Rightarrow> nat \<Rightarrow> nat \<Rightarrow> int \<Rightarrow> unit upload_tx" where
  "trackUpload userID fileID sessionID bytes = (if bytes = 0 then tx_return ()
     else tx_ignore (tx_update (\<lambda>w. w\<lparr>uw_logs := uw_logs w @
       [\<lparr>ul_UserID = userID, ul_FileID = fileID, ul_UploadSessionID = sessionID, ul_Bytes = bytes\<rparr>]\<rparr>)))"

record tus_event =
  te_ID :: string
  te_Offset :: int
  te_Path :: string
  te_InfoPath :: string

definition updateSessionFromEvent :: "tus_event \<Rightarrow> bool \<Rightarrow> unit upload_tx" where
  "updateSessionFromEvent ev trackBytes =
     tx_bind (tx_first (sessionByTusID (te_ID ev))) (\<lambda>s.
     tx_bind (if trackBytes \<and> us_Kind s \<noteq> KindFinal \<and> us_Offset s < te_Offset ev
       then trackUpload (up_UserID s) 0 (us_SessionID s) (te_Offset ev - us_Offset s) else tx_return ()) (\<lambda>_.
     tx_ignore (updateSession s (\<lambda>u. u\<lparr>us_Offset := te_Offset ev, us_StoragePath := te_Path ev, us_InfoPath := te_InfoPath ev,
       up_Status := (if 0 < te_Offset ev then UploadUploading else up_Status u)\<rparr>))))"

definition completeSessionFromEvent :: "tus_event \<Rightarrow> unit upload_tx" where
  "completeSessionFromEvent ev =
     tx_bind (tx_first (sessionByTusID (te_ID ev))) (\<lambda>s.
     tx_bind (if us_Kind s \<noteq> KindFinal \<and> us_Offset s < te_Offset ev
       then trackUpload (up_UserID s) 0 (us_SessionID s) (te_Offset ev - us_Offset s) else tx_return ()) (\<lambda>_.
     tx_ignore (updateSession s (\<lambda>u. u\<lparr>up_Status := UploadUploaded, us_Offset := te_Offset ev,
       us_StoragePath := te_Path ev, us_InfoPath := te_InfoPath ev\<rparr>))))"

definition terminateSession :: "time \<Rightarrow> string \<Rightarrow> unit upload_tx" where
  "terminateSession now i =
     tx_bind (tx_first (sessionByTusID i)) (\<lambda>s.
     tx_bind (tx_ignore (updateSession s (\<lambda>u. u\<lparr>up_Status := UploadCanceled, up_ExpiresAt := Some now\<rparr>))) (\<lambda>_.
     tx_ignore (deleteSession s)))"

section \<open>Expiry\<close>

definition isExpired :: "time \<Rightarrow> session_row \<Rightarrow> bool" where
  "isExpired now s \<longleftrightarrow> (case up_ExpiresAt s of None \<Rightarrow> False
     | Some t \<Rightarrow> up_Status s \<notin> {UploadDone, UploadCanceled, UploadExpired} \<and> t < now)"

text \<open>\<^verbatim>\<open>os.Remove\<close> where a missing file is no error.\<close>

definition removeLocal :: "string \<Rightarrow> unit upload_tx" where
  "removeLocal path = (if path = [] then tx_return () else tx_update (\<lambda>w. w\<lparr>uw_disk := (uw_disk w)(path := None)\<rparr>))"

text \<open>Both files are tried before an error is returned.\<close>

definition expireSession :: "time \<Rightarrow> session_row \<Rightarrow> unit upload_tx" where
  "expireSession now s =
     tx_bind (tx_try (removeLocal (us_StoragePath s))) (\<lambda>r1.
     tx_bind (tx_try (removeLocal (us_InfoPath s))) (\<lambda>r2.
     tx_bind (tx_reject (r1 \<noteq> Inr () \<or> r2 \<noteq> Inr ()) NotFinished) (\<lambda>_.
     tx_bind (updateSession s (\<lambda>u. u\<lparr>up_Status := UploadExpired, up_ExpiresAt := Some now\<rparr>)) (\<lambda>_.
     deleteSession s))))"

fun expireAll :: "time \<Rightarrow> session_row list \<Rightarrow> bool \<Rightarrow> unit upload_tx" where
  "expireAll now [] failed = tx_reject failed NotFinished"
| "expireAll now (s # ss) failed =
     tx_bind (tx_try (expireSession now s)) (\<lambda>r. expireAll now ss (failed \<or> r \<noteq> Inr ()))"

text \<open>The sessions of the former table layout are left out.\<close>

definition CleanupExpiredOnce :: "time \<Rightarrow> unit upload_tx" where
  "CleanupExpiredOnce now =
     tx_bind (tx_select (\<lambda>w. filter (\<lambda>u. (case up_ExpiresAt u of None \<Rightarrow> False | Some t \<Rightarrow> t < now) \<and>
       up_Status u \<in> set activeStatuses) (liveSessions w))) (\<lambda>ss. expireAll now ss False)"

section \<open>Quotas\<close>

record upload_config =
  cf_UploadEnabled :: bool
  cf_MaxUploadFilesize :: int
  cf_MaxUploadSessions :: int

definition userById :: "nat \<Rightarrow> upload_world \<Rightarrow> uploader option" where
  "userById i w = find (\<lambda>u. us_ID u = i \<and> \<not> us_Deleted u) (uw_users w)"

text \<open>Bytes of the files a user's live links name, deleted files included, once per link.\<close>

definition usedStorage :: "nat \<Rightarrow> upload_world \<Rightarrow> int" where
  "usedStorage userID w = sum_list (map (\<lambda>l. sum_list (map mf_Size (filter (\<lambda>f. mf_ID f = ln_FileID l) (uw_files w))))
     (filter (\<lambda>l. ln_UserID l = userID) (liveLinks (uw_lib w))))"

definition pendingStorage :: "nat \<Rightarrow> string \<Rightarrow> upload_world \<Rightarrow> int" where
  "pendingStorage userID excludeGroup w = sum_list (map up_QuotaBytes
     (filter (\<lambda>u. activeUpload userID u \<and> (excludeGroup = [] \<or> up_ClientUploadUUID u \<noteq> excludeGroup)) (liveSessions w)))"

text \<open>The same check is written twice, for the creation of a session and for an import.\<close>

definition CheckStorageQuota :: "nat \<Rightarrow> int \<Rightarrow> string \<Rightarrow> unit upload_tx" where
  "CheckStorageQuota userID additionalSize excludeGroup =
     tx_bind (orStatus 500 (tx_first (userById userID))) (\<lambda>user.
     if ua_Storage user = 0 then tx_return () else
     tx_bind (orStatus 500 (tx_sum (usedStorage userID))) (\<lambda>used.
     tx_bind (orStatus 500 (tx_sum (pendingStorage userID excludeGroup))) (\<lambda>pending.
     refuse (ua_Storage user < wrap64 (used + pending + additionalSize)) 403 ''storage quota exceeded'')))"

definition checkStorageQuota :: "nat \<Rightarrow> int \<Rightarrow> string \<Rightarrow> unit upload_tx" where
  "checkStorageQuota = CheckStorageQuota"

definition enforceMaxUploadFileSize :: "upload_config \<Rightarrow> nat \<Rightarrow> string \<Rightarrow> upload_kind \<Rightarrow> int \<Rightarrow> unit upload_tx" where
  "enforceMaxUploadFileSize cfg userID grp kind uploadSize =
     (if cf_MaxUploadFilesize cfg \<le> 0 \<or> kind \<noteq> KindPartial then tx_return ()
      else tx_bind (orStatus 500 (tx_sum (\<lambda>w. sum_list (map us_Size
          (filter (\<lambda>u. activeUpload userID u \<and> up_ClientUploadUUID u = grp \<and> us_Kind u = KindPartial) (liveSessions w)))))) (\<lambda>current.
        refuse (cf_MaxUploadFilesize cfg < wrap64 (current + uploadSize)) 413 ''maximum upload size exceeded''))"

definition enforceActiveSessionLimit :: "upload_config \<Rightarrow> nat \<Rightarrow> string \<Rightarrow> unit upload_tx" where
  "enforceActiveSessionLimit cfg userID grp =
     tx_bind (orStatus 500 (tx_first (userById userID))) (\<lambda>user.
     tx_bind (orStatus 500 (tx_select (\<lambda>w. length (remdups (map up_ClientUploadUUID
       (filter (\<lambda>u. activeUpload userID u \<and> up_ClientUploadUUID u \<noteq> grp) (liveSessions w))))))) (\<lambda>active.
     refuse (cf_MaxUploadSessions cfg \<le> int active \<and> ua_UploadSessionsMax user \<le> int active) 400 ''exceeded max upload sessions''))"

end
