(* ===== verification/UpCreate.thy ===== *)
theory UpCreate
  imports UpState
begin

text \<open>
  Opening a session of a resumable upload, by the owner of an account or by a guest of a folder share
  (\<^verbatim>\<open>services/tusupload/service.go, shared.go\<close>). The caller holds a mutex, so that one session is
  opened at a time.
\<close>

section \<open>What a request carries\<close>

definition EXTENSIONS :: "string list" where
  "EXTENSIONS = [''mp4'', ''mkv'', ''webm'', ''avi'', ''mov'', ''ts'', ''m4v'', ''3gp'', ''3g2'', ''wmv'', ''mpg'', ''mpeg'',
     ''asf'', ''flv'', ''f4v'', ''m2ts'', ''mts'', ''vob'', ''mxf'', ''divx'', ''ogv'', ''rm'', ''rmvb'', ''dv'']"

text \<open>\<^verbatim>\<open>filepath.Ext\<close>: from the last dot of the last component on.\<close>

definition pathExt :: "string \<Rightarrow> string" where
  "pathExt path = (let tail = rev (takeWhile (\<lambda>c. c \<noteq> CHR ''/'') (rev path)) in
     if CHR ''.'' \<in> set tail then CHR ''.'' # rev (takeWhile (\<lambda>c. c \<noteq> CHR ''.'') (rev tail)) else [])"

definition validSharedFilename :: "string \<Rightarrow> bool" where
  "validSharedFilename name \<longleftrightarrow> toLower (case pathExt name of CHR ''.'' # e \<Rightarrow> e | e \<Rightarrow> e) \<in> set EXTENSIONS"

text \<open>\<^verbatim>\<open>strconv.ParseUint(s, 10, 64)\<close> and \<^verbatim>\<open>strconv.ParseInt(s, 10, 64)\<close>.\<close>

definition decimalText :: "string \<Rightarrow> bool" where
  "decimalText s \<longleftrightarrow> s \<noteq> [] \<and> list_all (\<lambda>c. 48 \<le> (of_char c :: nat) \<and> (of_char c :: nat) \<le> 57) s"

definition parseUint64 :: "string \<Rightarrow> nat option" where
  "parseUint64 s = (if decimalText s \<and> int (undigits s) < 2 ^ 64 then Some (undigits s) else None)"

definition parseInt64 :: "string \<Rightarrow> int option" where
  "parseInt64 s = (case s of
     CHR ''-'' # t \<Rightarrow> if decimalText t \<and> int (undigits t) \<le> 2 ^ 63 then Some (- int (undigits t)) else None
   | CHR ''+'' # t \<Rightarrow> if decimalText t \<and> int (undigits t) < 2 ^ 63 then Some (int (undigits t)) else None
   | _ \<Rightarrow> if decimalText s \<and> int (undigits s) < 2 ^ 63 then Some (int (undigits s)) else None)"

definition parseOptionalUint :: "string \<Rightarrow> nat option" where
  "parseOptionalUint value = (if trimSpace value = [] then Some 0 else parseUint64 (trimSpace value))"

text \<open>\<^verbatim>\<open>tusd.FileInfo\<close> and who asks: the account of the request and the share it came through.\<close>

record upload_info =
  ui_Size :: int
  ui_MetaData :: "string \<rightharpoonup> string"
  ui_IsPartial :: bool
  ui_IsFinal :: bool
  ui_PartialUploads :: "string list"

record upload_caller =
  uc_UserID :: "nat option"
  uc_Share :: "guest_share option"

text \<open>The clock, the identifiers generated and \<^verbatim>\<open>uuid.Parse\<close>.\<close>

record create_env =
  ce_now :: time
  ce_newGroup :: string
  ce_newTusID :: string
  ce_validUUID :: "string \<Rightarrow> bool"

definition metaOf :: "upload_info \<Rightarrow> string \<Rightarrow> string" where
  "metaOf info k = (case ui_MetaData info k of None \<Rightarrow> [] | Some v \<Rightarrow> v)"

definition uploadName :: "upload_info \<Rightarrow> string" where
  "uploadName info = (let n = trimSpace (metaOf info ''filename'') in if n = [] then trimSpace (metaOf info ''name'') else n)"

definition uploadGroup :: "create_env \<Rightarrow> upload_info \<Rightarrow> string" where
  "uploadGroup env info = (let g = trimSpace (metaOf info ''client_upload_uuid'') in if g = [] then ce_newGroup env else g)"

definition uploadKind :: "upload_info \<Rightarrow> upload_kind" where
  "uploadKind info = (if ui_IsFinal info then KindFinal else if ui_IsPartial info then KindPartial else KindSingle)"

section \<open>Guests\<close>

text \<open>\<open>unlocked\<close>: the request carries the token of a share that asks for a password or a captcha.\<close>

definition sharedUploadContext :: "time \<Rightarrow> upload_config \<Rightarrow> bool \<Rightarrow> string \<Rightarrow> upload_caller upload_tx" where
  "sharedUploadContext now cfg unlocked token =
     tx_bind (inLibrary (\<lambda>e. if e = App ErrUnavailable \<or> e = RecordNotFound then answered 404 e else answered 500 e) (Resolve now token)) (\<lambda>_.
     tx_bind (tx_peek (\<lambda>w. find (\<lambda>s. sh_Token s = token \<and> \<not> sh_Deleted s) (uw_shares w))) (\<lambda>found.
     case found of None \<Rightarrow> tx_fail (App (UploadRejected 404 ''''))
     | Some share \<Rightarrow>
       tx_bind (refuse (\<not> gs_AllowUpload share) 403 ''this link does not allow uploads'') (\<lambda>_.
       tx_bind (refuse (gs_Locked share \<and> \<not> unlocked) 401 ''unlock this share first'') (\<lambda>_.
       tx_bind (refuse (\<not> cf_UploadEnabled cfg) 403 ''uploads are disabled'') (\<lambda>_.
       tx_return \<lparr>uc_UserID = Some (sh_UserID share), uc_Share = Some share\<rparr>)))))"

definition validateSharedDestination :: "guest_share \<Rightarrow> nat \<Rightarrow> unit upload_tx" where
  "validateSharedDestination share folderID =
     tx_bind (refuse (\<not> gs_AllowRead share \<and> folderID \<noteq> sh_FolderID share) 403 ''upload to the shared destination only'') (\<lambda>_.
     inLibrary (answered 403) (ContainsFolder (share_row.truncate share) folderID))"

definition sharesSession :: "guest_share option \<Rightarrow> session_row \<Rightarrow> bool" where
  "sharesSession share s \<longleftrightarrow> (case share of None \<Rightarrow> us_FolderShareID s = 0 \<and> us_FolderShareVersion s = []
     | Some sh \<Rightarrow> us_FolderShareID s = gs_ID sh \<and> us_FolderShareVersion s = gs_AccessVersion sh)"

definition authorizeSharedSession :: "upload_caller \<Rightarrow> session_row \<Rightarrow> unit upload_tx" where
  "authorizeSharedSession c s = (case uc_Share c of None \<Rightarrow> tx_return ()
     | Some share \<Rightarrow> tx_bind (refuse (\<not> sharesSession (Some share) s) 403 ''upload is not available through this share'')
         (\<lambda>_. validateSharedDestination share (up_ParentFolderID s)))"

text \<open>A group belongs to one share, and a guest's group to one folder and one name.\<close>

fun checkGroup :: "guest_share option \<Rightarrow> nat \<Rightarrow> string \<Rightarrow> session_row list \<Rightarrow> unit upload_tx" where
  "checkGroup share folderID name [] = tx_return ()"
| "checkGroup share folderID name (s # ss) =
     (let guest = (case share of None \<Rightarrow> False | Some sh \<Rightarrow> gs_ID sh \<noteq> 0) in
      if \<not> sharesSession share s \<or> (guest \<and> (up_ParentFolderID s \<noteq> folderID \<or> us_Name s \<noteq> name))
      then tx_fail (App (UploadRejected 403 ''upload group belongs to another destination or share''))
      else if guest \<and> up_Status s = UploadDone then tx_fail (App (UploadRejected 409 ''this video has already been received''))
      else checkGroup share folderID name ss)"

definition validateUploadGroup :: "upload_caller \<Rightarrow> nat \<Rightarrow> string \<Rightarrow> nat \<Rightarrow> string \<Rightarrow> unit upload_tx" where
  "validateUploadGroup c userID grp folderID name =
     tx_bind (orStatus 500 (tx_select (\<lambda>w. filter (inGroup grp userID) (uw_sessions w))))
       (checkGroup (uc_Share c) folderID name)"

definition validateSharedCapacity :: "time \<Rightarrow> upload_config \<Rightarrow> guest_share \<Rightarrow> int \<Rightarrow> string \<Rightarrow> unit upload_tx" where
  "validateSharedCapacity now cfg share bytes excludeGroup =
     tx_bind (refuse ((0 < gs_MaxVideoSize share \<and> gs_MaxVideoSize share < bytes) \<or>
       (0 < cf_MaxUploadFilesize cfg \<and> cf_MaxUploadFilesize cfg < bytes)) 413 ''video exceeds the maximum file size for this share'') (\<lambda>_.
     if sh_MaxFolderSize share \<le> 0 then tx_return ()
     else tx_bind (inLibrary (answered 500) (UploadCapacity now (share_row.truncate share) excludeGroup)) (\<lambda>capacity.
       refuse (cap_Remaining capacity < bytes) 507 ''folder size limit reached''))"

text \<open>The size a guest declares for the whole video.\<close>

definition declaredSize :: "session_row \<Rightarrow> string \<Rightarrow> int upload_tx" where
  "declaredSize s text =
     (if text \<noteq> [] then (case parseInt64 text of
          Some n \<Rightarrow> if n \<le> 0 then tx_fail (App (UploadRejected 400 ''file_size must be a positive integer'')) else tx_return n
        | None \<Rightarrow> tx_fail (App (UploadRejected 400 ''file_size must be a positive integer'')))
      else if us_Kind s = KindPartial then tx_fail (App (UploadRejected 400 ''file_size is required for chunked video uploads''))
      else tx_return (us_Size s))"

text \<open>The loop over the group: the bytes of its chunks.\<close>

fun sumChunks :: "session_row \<Rightarrow> int \<Rightarrow> session_row list \<Rightarrow> int \<Rightarrow> int upload_tx" where
  "sumChunks s expected [] partialBytes = tx_return partialBytes"
| "sumChunks s expected (part # parts) partialBytes =
     (if us_Kind s = KindSingle \<or> (us_Kind s = KindPartial \<and> us_Kind part \<noteq> KindPartial)
      then tx_fail (App (UploadRejected 409 ''this upload group already has a complete video resource''))
      else if up_ExpectedSize part \<noteq> expected then tx_fail (App (UploadRejected 400 ''video size changed within this upload''))
      else if us_Kind part = KindPartial then
        if expected - partialBytes < us_Size part then tx_fail (App (UploadRejected 400 ''chunks exceed the declared video size''))
        else sumChunks s expected parts (partialBytes + us_Size part)
      else sumChunks s expected parts partialBytes)"

definition validateSharedCreate :: "time \<Rightarrow> upload_config \<Rightarrow> guest_share \<Rightarrow> session_row \<Rightarrow> string \<Rightarrow> int upload_tx" where
  "validateSharedCreate now cfg share s text =
     tx_bind (declaredSize s text) (\<lambda>expected.
     tx_bind (refuse ((us_Kind s \<noteq> KindPartial \<and> expected \<noteq> us_Size s) \<or> expected < us_Size s) 400 ''video size does not match file_size'') (\<lambda>_.
     tx_bind (orStatus 500 (tx_select (\<lambda>w. filter (\<lambda>u. activeUpload (up_UserID s) u \<and> up_ClientUploadUUID u = up_ClientUploadUUID s) (liveSessions w)))) (\<lambda>grp.
     tx_bind (sumChunks s expected grp 0) (\<lambda>partialBytes.
     tx_bind (refuse (us_Kind s = KindPartial \<and> expected - partialBytes < us_Size s) 400 ''chunks exceed the declared video size'') (\<lambda>_.
     tx_bind (refuse (us_Kind s = KindFinal \<and> partialBytes \<noteq> expected) 400 ''chunks do not match the declared video size'') (\<lambda>_.
     tx_bind (validateSharedCapacity now cfg share expected (up_ClientUploadUUID s)) (\<lambda>_. tx_return expected)))))))"

section \<open>Opening a session\<close>

definition retentionPeriod :: time where "retentionPeriod = 24 * hour"

definition newSession :: "create_env \<Rightarrow> upload_caller \<Rightarrow> nat \<Rightarrow> upload_info \<Rightarrow> nat \<Rightarrow> session_row" where
  "newSession env c userID info folderID =
     \<lparr>up_UserID = userID, up_ParentFolderID = folderID, up_ClientUploadUUID = uploadGroup env info, up_ExpectedSize = 0,
      up_QuotaBytes = (if uploadKind info = KindFinal then 0 else ui_Size info), up_Status = UploadCreated,
      up_ExpiresAt = Some (ce_now env + retentionPeriod), up_Deleted = False,
      us_SessionID = 0, us_TusID = ce_newTusID env, us_Kind = uploadKind info, us_Name = uploadName info, us_Size = ui_Size info,
      us_Offset = 0, us_FolderShareID = (case uc_Share c of None \<Rightarrow> 0 | Some sh \<Rightarrow> gs_ID sh),
      us_FolderShareVersion = (case uc_Share c of None \<Rightarrow> [] | Some sh \<Rightarrow> gs_AccessVersion sh),
      us_StoragePath = [], us_InfoPath = [], us_FileID = 0, us_LinkID = 0, us_BackgroundJobID = []\<rparr>"

definition insertSession :: "session_row \<Rightarrow> nat upload_tx" where
  "insertSession s = tx_stmt (\<lambda>w. Inr (uw_nextSession w, w\<lparr>uw_sessions := uw_sessions w @ [s\<lparr>us_SessionID := uw_nextSession w\<rparr>],
     uw_nextSession := uw_nextSession w + 1\<rparr>))"

text \<open>The chunks of a final upload must be live chunks of the same user, group and share.\<close>

fun checkPartials :: "upload_caller \<Rightarrow> session_row \<Rightarrow> session_row list \<Rightarrow> unit upload_tx" where
  "checkPartials c s [] = tx_return ()"
| "checkPartials c s (p # ps) =
     (if up_UserID p \<noteq> up_UserID s \<or> up_ClientUploadUUID p \<noteq> up_ClientUploadUUID s \<or>
        us_FolderShareID p \<noteq> us_FolderShareID s \<or> us_FolderShareVersion p \<noteq> us_FolderShareVersion s \<or>
        (uc_Share c \<noteq> None \<and> (up_ParentFolderID p \<noteq> up_ParentFolderID s \<or> us_Name p \<noteq> us_Name s))
      then tx_fail (App (UploadRejected 400 ''partial upload belongs to another user or upload group''))
      else if us_Kind p \<noteq> KindPartial then tx_fail (App (UploadRejected 400 ''not a partial upload''))
      else checkPartials c s ps)"

fun insertParts :: "nat \<Rightarrow> session_row list \<Rightarrow> nat \<Rightarrow> string list \<Rightarrow> unit upload_tx" where
  "insertParts sessionID partials index [] = tx_return ()"
| "insertParts sessionID partials index (i # is) =
     tx_bind (tx_update (\<lambda>w. w\<lparr>uw_parts := uw_parts w @ [\<lparr>pa_UploadSessionID = sessionID,
         pa_PartialUploadSessionID = (case find (\<lambda>p. us_TusID p = i) partials of None \<Rightarrow> 0 | Some p \<Rightarrow> us_SessionID p),
         pa_Index = index, pa_TusID = i\<rparr>]\<rparr>))
       (\<lambda>_. insertParts sessionID partials (index + 1) is)"

definition createBody :: "create_env \<Rightarrow> upload_config \<Rightarrow> upload_caller \<Rightarrow> upload_info \<Rightarrow> session_row \<Rightarrow> session_row upload_tx" where
  "createBody env cfg c info s =
     tx_bind (inLibrary statusError (ValidateFolderDestination (up_ParentFolderID s) (up_UserID s))) (\<lambda>_.
     tx_bind (case uc_Share c of None \<Rightarrow> tx_return s
       | Some share \<Rightarrow> tx_bind (validateSharedCreate (ce_now env) cfg share s (metaOf info ''file_size'')) (\<lambda>expected.
           tx_return (s\<lparr>up_ExpectedSize := expected\<rparr>))) (\<lambda>s.
     tx_bind (insertSession s) (\<lambda>sessionID.
     if us_Kind s \<noteq> KindFinal then tx_return s else
     tx_bind (tx_select (\<lambda>w. filter (\<lambda>u. us_TusID u \<in> set (ui_PartialUploads info)) (liveSessions w))) (\<lambda>partials.
     tx_bind (refuse (length partials \<noteq> length (ui_PartialUploads info)) 400 ''one or more partial uploads were not found'') (\<lambda>_.
     tx_bind (checkPartials c s partials) (\<lambda>_.
     tx_bind (insertParts sessionID partials 0 (ui_PartialUploads info)) (\<lambda>_. tx_return s)))))))"

definition preUploadCreate :: "create_env \<Rightarrow> upload_config \<Rightarrow> upload_caller \<Rightarrow> upload_info \<Rightarrow> session_row upload_tx" where
  "preUploadCreate env cfg c info =
     (case uc_UserID c of None \<Rightarrow> tx_fail (App (UploadRejected 403 ''ERR_AUTH_REQUIRED''))
      | Some userID \<Rightarrow>
        tx_bind (refuse (\<not> cf_UploadEnabled cfg) 403 ''ERR_UPLOAD_DISABLED'') (\<lambda>_.
        tx_bind (refuse (ui_Size info \<le> 0) 400 ''ERR_INVALID_UPLOAD_LENGTH'') (\<lambda>_.
        tx_bind (refuse (0 < cf_MaxUploadFilesize cfg \<and> cf_MaxUploadFilesize cfg < ui_Size info) 413 ''ERR_MAX_SIZE_EXCEEDED'') (\<lambda>_.
        tx_bind (refuse (uploadName info = [] \<or> 128 < length (uploadName info)) 400 ''ERR_INVALID_METADATA'') (\<lambda>_.
        case parseOptionalUint (metaOf info ''parent_folder_id'') of None \<Rightarrow> tx_fail (App (UploadRejected 400 ''ERR_INVALID_METADATA''))
        | Some folderID \<Rightarrow>
          tx_bind (inLibrary statusError (ValidateFolderDestination folderID userID)) (\<lambda>_.
          tx_bind (case uc_Share c of None \<Rightarrow> tx_return ()
            | Some share \<Rightarrow> tx_bind (validateSharedDestination share folderID) (\<lambda>_.
                refuse (\<not> validSharedFilename (uploadName info)) 400 ''ERR_INVALID_METADATA'')) (\<lambda>_.
          let grp = uploadGroup env info; s = newSession env c userID info folderID in
          tx_bind (refuse (\<not> ce_validUUID env grp) 400 ''ERR_INVALID_METADATA'') (\<lambda>_.
          tx_bind (validateUploadGroup c userID grp folderID (uploadName info)) (\<lambda>_.
          tx_bind (enforceMaxUploadFileSize cfg userID grp (us_Kind s) (ui_Size info)) (\<lambda>_.
          tx_bind (if 0 < up_QuotaBytes s then checkStorageQuota userID (up_QuotaBytes s) [] else tx_return ()) (\<lambda>_.
          tx_bind (enforceActiveSessionLimit cfg userID grp) (\<lambda>_.
          tx_catch (transaction (createBody env cfg c info s))
            (\<lambda>e. case e of App _ \<Rightarrow> tx_fail e | _ \<Rightarrow> tx_fail (answered 400 e))))))))))))))"

end
