(* ===== verification/UpImport.thy ===== *)
theory UpImport
  imports UpCreate StKey Complex_Main
begin

text \<open>
  Turning a finished upload into a video: creating the file and its link (\<^verbatim>\<open>logic/CreateFile.go,
  HashCloneFile.go\<close>), and the finalization of a session around it, which a task may resume
  (\<^verbatim>\<open>services/tusupload/service.go\<close>).
\<close>

section \<open>Creating the video\<close>

text \<open>What \<^verbatim>\<open>ffprobe\<close> says of a file. The quotient of the frame rate is given, zero when the text is
  not one.\<close>

record probe_stream =
  ps_CodecType :: string
  ps_Width :: int
  ps_Height :: int
  ps_FrameRate :: rat

record probe_data =
  pd_Duration :: int
  pd_Streams :: "probe_stream list"

record quality_option =
  qo_Name :: string
  qo_Type :: string
  qo_Width :: int
  qo_Height :: int
  qo_Enabled :: bool

text \<open>The environment of an import: the hash of bytes, name-based UUIDs, the probe, which stores are
  registered, the mount the placement selects, the qualities configured, a fresh identifier, and
  whether the task may begin its commit.\<close>

record import_env =
  ie_now :: time
  ie_sha :: "string \<Rightarrow> string"
  ie_uuid5 :: "string \<Rightarrow> string"
  ie_probe :: "string \<Rightarrow> probe_data option"
  ie_storeKnown :: "string \<Rightarrow> bool"
  ie_placed :: string
  ie_qualities :: "quality_option list"
  ie_linkUUID :: string
  ie_uploadDir :: string
  ie_commit :: bool

definition availableByHash :: "string \<Rightarrow> upload_world \<Rightarrow> video_file list" where
  "availableByHash h w = filter (\<lambda>f. vf_Hash f = h \<and> vf_Available f \<and> \<not> mf_Deleted f) (uw_files w)"

fun usableCandidate :: "import_env \<Rightarrow> video_file list \<Rightarrow> video_file option upload_tx" where
  "usableCandidate env [] = tx_return None"
| "usableCandidate env (c # cs) =
     tx_bind (tx_try (tx_first (\<lambda>w. find (\<lambda>f. mf_ID f = mf_ID c \<and> vf_Available f \<and> \<not> mf_Deleted f) (uw_files w)))) (\<lambda>r.
     case r of
       Inl e \<Rightarrow> if e = RecordNotFound then usableCandidate env cs else tx_fail (answered 500 e)
     | Inr f \<Rightarrow> if ie_storeKnown env (vf_StorageID f) then tx_return (Some f) else usableCandidate env cs)"

definition newLink :: "import_env \<Rightarrow> nat \<Rightarrow> string \<Rightarrow> nat \<Rightarrow> string \<Rightarrow> nat \<Rightarrow> link_row" where
  "newLink env toFolder fileName userID grp fileID =
     \<lparr>ln_ID = 0, ln_UUID = ie_linkUUID env, ln_CreationKey = uploadKey userID grp, ln_Name = fileName,
      ln_FileID = fileID, ln_UserID = userID, ln_ParentFolderID = toFolder, ln_Deleted = False\<rparr>"

text \<open>Inserting a link gives it the next identifier.\<close>

definition insertNewLink :: "link_row \<Rightarrow> link_row upload_tx" where
  "insertNewLink l = tx_bind (tx_peek (\<lambda>w. lb_nextLink (uw_lib w))) (\<lambda>i.
     tx_bind (inLibrary (answered 500) (createLink l)) (\<lambda>_. tx_return (l\<lparr>ln_ID := i\<rparr>)))"

definition CloneFileByHash :: "import_env \<Rightarrow> string \<Rightarrow> nat \<Rightarrow> string \<Rightarrow> nat \<Rightarrow> string \<Rightarrow> link_row upload_tx" where
  "CloneFileByHash env fromHash toFolder fileName userID grp =
     tx_bind (inLibrary statusError (ValidateFolderDestination toFolder userID)) (\<lambda>_.
     tx_bind (orStatus 500 (tx_select (availableByHash fromHash))) (\<lambda>candidates.
     tx_bind (refuse (candidates = []) 404 ''requested hash doesnt match any file'') (\<lambda>_.
     tx_bind (usableCandidate env candidates) (\<lambda>found.
     case found of None \<Rightarrow> tx_fail (App (UploadRejected 404 ''requested hash doesnt match any available file''))
     | Some f \<Rightarrow>
       tx_bind (CheckStorageQuota userID (mf_Size f) grp) (\<lambda>_.
       tx_catch (transaction (tx_bind (inLibrary statusError (ValidateFolderDestination toFolder userID))
           (\<lambda>_. insertNewLink (newLink env toFolder fileName userID grp (mf_ID f)))))
         (\<lambda>e. case e of App _ \<Rightarrow> tx_fail e | _ \<Rightarrow> tx_fail (answered 500 e)))))))"

text \<open>An earlier run of the same upload may have made the link already.\<close>

definition existingResult :: "nat \<Rightarrow> string \<Rightarrow> link_row option upload_tx" where
  "existingResult userID grp =
     (if uploadKey userID grp = [] then tx_return None
      else tx_catch (transaction (
          tx_bind (tx_first (\<lambda>w. find (\<lambda>l. ln_CreationKey l = uploadKey userID grp) (liveLinks (uw_lib w)))) (\<lambda>l.
          tx_bind (refuse (ln_UserID l \<noteq> userID) 403 ''upload result belongs to another user'') (\<lambda>_.
          tx_bind (inLibrary statusError (ValidateFolderDestination (ln_ParentFolderID l) (ln_UserID l))) (\<lambda>_.
          tx_return (Some l))))))
        (\<lambda>e. case e of RecordNotFound \<Rightarrow> tx_return None | App _ \<Rightarrow> tx_fail e | _ \<Rightarrow> tx_fail (answered 500 e)))"

definition streamsOf :: "string \<Rightarrow> probe_data \<Rightarrow> probe_stream list" where
  "streamsOf kind d = filter (\<lambda>s. ps_CodecType s = kind) (pd_Streams d)"

text \<open>The checks on what was probed; the last video stream counts.\<close>

definition checkProbe :: "probe_data \<Rightarrow> probe_stream upload_tx" where
  "checkProbe d =
     tx_bind (refuse (pd_Duration d = 0 \<or> 36000 * second < pd_Duration d) 400 ''invalid video duration'') (\<lambda>_.
     tx_bind (refuse (streamsOf ''video'' d = []) 400 ''uploaded file doesn't contain any video stream'') (\<lambda>_.
     let v = last (streamsOf ''video'' d) in
     tx_bind (refuse (120 < ps_FrameRate v \<or> ps_FrameRate v < 0) 400 ''invalid video framerate'') (\<lambda>_.
     tx_bind (refuse (ps_Height v = 0 \<or> ps_Width v = 0) 500 '''') (\<lambda>_.
     tx_bind (refuse (8000 < ps_Height v \<or> 8000 < ps_Width v) 400 ''video resolution is too high'') (\<lambda>_.
     tx_bind (refuse (ps_Height v < 50 \<or> ps_Width v < 50) 400 ''video resolution is too low'') (\<lambda>_. tx_return v))))))"

text \<open>The rows of what is to be encoded: the formats of every subtitle and audio stream, and the
  enabled qualities no larger than the video, compared by width when the video is at least twice as wide
  as high (the quotient of two integers), by height otherwise.\<close>

definition selectedQuality :: "probe_stream \<Rightarrow> quality_option \<Rightarrow> bool" where
  "selectedQuality v q \<longleftrightarrow> qo_Enabled q \<and>
     (if 1 < ps_Width v div ps_Height v then qo_Width q \<le> ps_Width v else qo_Height q \<le> ps_Height v)"

definition plannedTracks :: "import_env \<Rightarrow> probe_data \<Rightarrow> probe_stream \<Rightarrow> nat \<Rightarrow> media_track list" where
  "plannedTracks env d v fileID =
     concat (map (\<lambda>i. [\<lparr>tk_Kind = SubtitleTrack, tk_FileID = fileID, tk_Index = i, tk_Type = ''ass''\<rparr>,
         \<lparr>tk_Kind = SubtitleTrack, tk_FileID = fileID, tk_Index = i, tk_Type = ''vtt''\<rparr>]) [0..<length (streamsOf ''subtitle'' d)]) @
     map (\<lambda>i. \<lparr>tk_Kind = AudioTrack, tk_FileID = fileID, tk_Index = i, tk_Type = ''hls''\<rparr>) [0..<length (streamsOf ''audio'' d)] @
     map (\<lambda>q. \<lparr>tk_Kind = QualityTrack, tk_FileID = fileID, tk_Index = 0, tk_Type = qo_Name q\<rparr>) (filter (selectedQuality v) (ie_qualities env))"

definition addTrack :: "media_track \<Rightarrow> unit upload_tx" where
  "addTrack t = orStatus 500 (tx_update (\<lambda>w. w\<lparr>uw_tracks := uw_tracks w @ [t]\<rparr>))"

definition putSource :: "string \<times> string \<Rightarrow> string option \<Rightarrow> unit upload_tx" where
  "putSource k body = tx_update (\<lambda>w. w\<lparr>uw_media := (uw_media w)(k := body)\<rparr>)"

definition insertVideo :: "video_file \<Rightarrow> nat upload_tx" where
  "insertVideo f = tx_stmt (\<lambda>w. Inr (uw_nextFile w, w\<lparr>uw_files := uw_files w @ [f\<lparr>mf_ID := uw_nextFile w\<rparr>],
     uw_nextFile := uw_nextFile w + 1\<rparr>))"

text \<open>The file and its link in one transaction.\<close>

definition insertFileAndLink :: "import_env \<Rightarrow> nat \<Rightarrow> string \<Rightarrow> nat \<Rightarrow> string \<Rightarrow> video_file \<Rightarrow> link_row upload_tx" where
  "insertFileAndLink env toFolder fileName userID grp f =
     tx_catch (transaction (
       tx_bind (inLibrary statusError (ValidateFolderDestination toFolder userID)) (\<lambda>_.
       tx_bind (insertVideo f) (\<lambda>fileID. insertNewLink (newLink env toFolder fileName userID grp fileID)))))
     (\<lambda>e. case e of App _ \<Rightarrow> tx_fail e | _ \<Rightarrow> tx_fail (answered 500 e))"

text \<open>The extension after the last dot of the name; the local file is renamed to carry it.\<close>

definition nameExt :: "string \<Rightarrow> string" where
  "nameExt n = rev (takeWhile (\<lambda>c. c \<noteq> CHR ''.'') (rev n))"

definition moveLocal :: "string \<Rightarrow> string \<Rightarrow> unit upload_tx" where
  "moveLocal p q = tx_stmt (\<lambda>w. case uw_disk w p of None \<Rightarrow> Inl RecordNotFound
     | Some body \<Rightarrow> Inr ((), w\<lparr>uw_disk := (uw_disk w)(p := None, q := Some body)\<rparr>))"

definition renameLocal :: "string \<Rightarrow> string \<Rightarrow> string upload_tx" where
  "renameLocal path ext = (if toLower (pathExt path) = toLower (CHR ''.'' # ext) then tx_return path
     else tx_bind (orStatus 500 (moveLocal path (path @ CHR ''.'' # ext))) (\<lambda>_. tx_return (path @ CHR ''.'' # ext)))"

text \<open>The last step: the local file goes, or its path is kept with the file row.\<close>

definition removeImported :: "string \<Rightarrow> nat \<Rightarrow> unit upload_tx" where
  "removeImported path fileID = tx_catch (removeLocal path)
     (\<lambda>_. tx_ignore (tx_update (\<lambda>w. w\<lparr>uw_files := update_where (\<lambda>f. mf_ID f = fileID \<and> \<not> mf_Deleted f) (\<lambda>f. f\<lparr>vf_Path := path\<rparr>) (uw_files w)\<rparr>)))"

definition storeNewVideo ::
  "import_env \<Rightarrow> string \<Rightarrow> nat \<Rightarrow> string \<Rightarrow> string \<Rightarrow> int \<Rightarrow> nat \<Rightarrow> string \<Rightarrow> string \<Rightarrow> link_row upload_tx" where
  "storeNewVideo env fromFile toFolder fileName fileUUID fileSize userID grp body =
     (case ie_probe env body of None \<Rightarrow> tx_fail (App (UploadRejected 400 ''Invalid data found when processing video''))
      | Some d \<Rightarrow>
        tx_bind (checkProbe d) (\<lambda>v.
        case layoutSource fileUUID (''original.'' @ toLower (nameExt fileName)) of Inl _ \<Rightarrow> tx_fail (App (UploadRejected 500 ''''))
        | Inr sourceKey \<Rightarrow>
          tx_bind (orStatus 500 (putSource (ie_placed env, sourceKey) (Some body))) (\<lambda>_.
          tx_bind (tx_onError (insertFileAndLink env toFolder fileName userID grp
              \<lparr>mf_ID = 0, mf_Size = fileSize, mf_Deleted = False, vf_UUID = fileUUID, vf_Hash = ie_sha env body,
               vf_StorageID = ie_placed env, vf_SourceKey = sourceKey, vf_Available = True, vf_UserID = userID, vf_Path = []\<rparr>)
            (putSource (ie_placed env, sourceKey) None)) (\<lambda>link.
          tx_bind (tx_foreach addTrack (plannedTracks env d v (ln_FileID link))) (\<lambda>_.
          tx_bind (removeImported fromFile (ln_FileID link)) (\<lambda>_. tx_return link))))))"

text \<open>The result is the link and whether it names a file that was there before: then the caller still
  has the local file.\<close>

definition CreateFileContext ::
  "import_env \<Rightarrow> string \<Rightarrow> nat \<Rightarrow> string \<Rightarrow> string \<Rightarrow> int \<Rightarrow> nat \<Rightarrow> string \<Rightarrow> (link_row \<times> bool) upload_tx" where
  "CreateFileContext env fromFile toFolder fileName fileUUID fileSize userID grp =
     tx_bind (existingResult userID grp) (\<lambda>existing.
     case existing of Some l \<Rightarrow> tx_return (l, True)
     | None \<Rightarrow>
       tx_bind (inLibrary statusError (ValidateFolderDestination toFolder userID)) (\<lambda>_.
       tx_bind (orStatus 500 (tx_first (\<lambda>w. uw_disk w fromFile))) (\<lambda>body.
       tx_bind (tx_try (CloneFileByHash env (ie_sha env body) toFolder fileName userID grp)) (\<lambda>r.
       case r of Inr l \<Rightarrow> tx_return (l, True)
       | Inl e \<Rightarrow> (case e of
           App (UploadRejected code _) \<Rightarrow> if code \<noteq> 404 then tx_fail e else
             tx_bind (CheckStorageQuota userID fileSize grp) (\<lambda>_.
             tx_bind (refuse (toLower (nameExt fileName) \<notin> set EXTENSIONS) 400 ''Video extension is not supported'') (\<lambda>_.
             tx_bind (renameLocal fromFile (nameExt fileName)) (\<lambda>path.
             tx_bind (storeNewVideo env path toFolder fileName fileUUID fileSize userID grp body) (\<lambda>l. tx_return (l, False)))))
         | _ \<Rightarrow> tx_fail e)))))"

section \<open>Finalization\<close>

definition findFinalizedUpload :: "string \<Rightarrow> nat \<Rightarrow> link_row option upload_tx" where
  "findFinalizedUpload fileUUID userID =
     tx_bind (tx_try (tx_first (\<lambda>w. find (\<lambda>f. vf_UUID f = fileUUID \<and> \<not> mf_Deleted f) (uw_files w)))) (\<lambda>r.
     case r of Inl e \<Rightarrow> if e = RecordNotFound then tx_return None else tx_fail (answered 500 e)
     | Inr f \<Rightarrow>
       tx_bind (tx_try (tx_first (\<lambda>w. find (\<lambda>l. ln_FileID l = mf_ID f \<and> ln_UserID l = userID) (liveLinks (uw_lib w))))) (\<lambda>r.
       case r of Inl e \<Rightarrow> if e = RecordNotFound then tx_return None else tx_fail (answered 500 e) | Inr l \<Rightarrow> tx_return (Some l)))"

definition finishedRow :: "link_row \<Rightarrow> session_row \<Rightarrow> session_row" where
  "finishedRow l u = u\<lparr>up_Status := UploadDone, us_FileID := ln_FileID l, us_LinkID := ln_ID l\<rparr>"

definition groupIDs :: "string \<Rightarrow> nat \<Rightarrow> upload_world \<Rightarrow> nat list" where
  "groupIDs grp userID w = map us_SessionID (filter (inGroup grp userID) (uw_sessions w))"

fun removeGroupFiles :: "session_row list \<Rightarrow> unit upload_tx" where
  "removeGroupFiles [] = tx_return ()"
| "removeGroupFiles (s # ss) =
     tx_bind (tx_ignore (removeLocal (us_StoragePath s))) (\<lambda>_.
     tx_bind (tx_ignore (removeLocal (us_InfoPath s))) (\<lambda>_. removeGroupFiles ss))"

definition removeTusFilesForGroup :: "string \<Rightarrow> nat \<Rightarrow> unit upload_tx" where
  "removeTusFilesForGroup grp userID =
     tx_ignore (tx_bind (tx_select (\<lambda>w. filter (inGroup grp userID) (uw_sessions w))) removeGroupFiles)"

definition completeFinalize :: "session_row \<Rightarrow> link_row \<Rightarrow> unit upload_tx" where
  "completeFinalize s l = (let grp = up_ClientUploadUUID s; userID = up_UserID s in
     tx_bind (transaction (
       tx_bind (tx_update (\<lambda>w. w\<lparr>uw_logs := update_where (\<lambda>r. ul_UploadSessionID r \<in> set (groupIDs grp userID w))
         (\<lambda>r. r\<lparr>ul_FileID := ln_FileID l\<rparr>) (uw_logs w)\<rparr>)) (\<lambda>_.
       tx_bind (tx_update (updateSessions (inGroup grp userID) (finishedRow l))) (\<lambda>_.
       tx_update (updateSessions (\<lambda>u. inGroup grp userID u \<and> \<not> up_Deleted u) (\<lambda>u. u\<lparr>up_Deleted := True\<rparr>)))))) (\<lambda>_.
     removeTusFilesForGroup grp userID))"

definition failFinalize :: "session_row \<Rightarrow> unit upload_tx" where
  "failFinalize s = tx_ignore (updateSession s (\<lambda>u. u\<lparr>up_Status := UploadFailed\<rparr>))"

text \<open>Only one of several requests moves a session to importing.\<close>

definition transitionToImporting :: "session_row \<Rightarrow> unit upload_tx" where
  "transitionToImporting s =
     (let p = (\<lambda>u. us_SessionID u = us_SessionID s \<and> \<not> up_Deleted u \<and> up_Status u \<in> {UploadUploaded, UploadFailed}) in
      tx_bind (refuse (up_Status s = UploadImporting) 409 ''upload is already importing'') (\<lambda>_.
      tx_bind (refuse (up_Status s \<noteq> UploadUploaded \<and> up_Status s \<noteq> UploadFailed) 409 ''upload is not complete'') (\<lambda>_.
      tx_bind (orStatus 409 (tx_stmt (\<lambda>w. Inr (affected p (uw_sessions w),
         updateSessions p (\<lambda>u. u\<lparr>up_Status := UploadImporting\<rparr>) w)))) (\<lambda>n.
      refuse (n \<noteq> 1) 409 ''upload is already importing''))))"

text \<open>A session in another state is put into the uploaded state first; one that is importing is
  resumed by a task and refused otherwise.\<close>

definition acquireSession :: "bool \<Rightarrow> session_row \<Rightarrow> unit upload_tx" where
  "acquireSession allowResume s =
     (if up_Status s = UploadUploaded \<or> up_Status s = UploadFailed then transitionToImporting s
      else if up_Status s = UploadImporting
      then (if allowResume then tx_return () else tx_fail (App (UploadRejected 409 ''upload is already importing'')))
      else tx_bind (orStatus 500 (updateSession s (\<lambda>u. u\<lparr>up_Status := UploadUploaded, us_Offset := us_Size s\<rparr>)))
        (\<lambda>_. transitionToImporting (s\<lparr>up_Status := UploadUploaded\<rparr>)))"

definition finalFileUUID :: "import_env \<Rightarrow> session_row \<Rightarrow> string" where
  "finalFileUUID env s = ie_uuid5 env (''videocms:upload:'' @ digits (up_UserID s) @ '':'' @ digits (us_SessionID s) @ '':'' @ up_ClientUploadUUID s)"

definition importPath :: "import_env \<Rightarrow> session_row \<Rightarrow> string" where
  "importPath env s = ie_uploadDir env @ ''/import-'' @ finalFileUUID env s @ toLower (pathExt (us_Name s))"

definition uploadedPath :: "import_env \<Rightarrow> session_row \<Rightarrow> string" where
  "uploadedPath env s = (if us_StoragePath s = [] then ie_uploadDir env @ ''/tus/'' @ us_TusID s else us_StoragePath s)"

definition withFail :: "session_row \<Rightarrow> 'a upload_tx \<Rightarrow> 'a upload_tx" where
  "withFail s m = tx_onError m (failFinalize s)"

text \<open>From the acquired session to the link.\<close>

definition importFile :: "import_env \<Rightarrow> session_row \<Rightarrow> string \<Rightarrow> link_row upload_tx" where
  "importFile env s path = (let dest = importPath env s in
     tx_bind (if path = dest then tx_return () else withFail s (orStatus 500 (moveLocal path dest))) (\<lambda>_.
     tx_bind (orStatus 500 (tx_update (updateSessions (\<lambda>u. us_SessionID u = us_SessionID s) (\<lambda>u. u\<lparr>us_StoragePath := dest\<rparr>)))) (\<lambda>_.
     tx_bind (refuse (\<not> ie_commit env) 409 ''context canceled'') (\<lambda>_.
     tx_bind (withFail s (CreateFileContext env dest (up_ParentFolderID s) (us_Name s) (finalFileUUID env s) (us_Size s) (up_UserID s)
        (up_ClientUploadUUID s))) (\<lambda>r.
     case r of (l, cloned) \<Rightarrow>
     tx_bind (if cloned then tx_ignore (removeLocal dest) else tx_return ()) (\<lambda>_.
     tx_bind (orStatus 500 (completeFinalize s l)) (\<lambda>_. tx_return l)))))))"

definition importUpload :: "import_env \<Rightarrow> bool \<Rightarrow> session_row \<Rightarrow> link_row upload_tx" where
  "importUpload env allowResume s =
     tx_bind (tx_try (tx_first (\<lambda>w. uw_disk w (importPath env s)))) (\<lambda>moved.
     let path = (case moved of Inr _ \<Rightarrow> importPath env s | Inl _ \<Rightarrow> uploadedPath env s) in
     tx_bind (withFail s (orStatus 404 (tx_first (\<lambda>w. uw_disk w path)))) (\<lambda>body.
     tx_bind (withFail s (refuse (int (length body) \<noteq> us_Size s) 409 ''uploaded file size mismatch'')) (\<lambda>_.
     tx_bind (acquireSession allowResume s) (\<lambda>_. importFile env s path))))"

definition finalizeContext :: "import_env \<Rightarrow> bool \<Rightarrow> string \<Rightarrow> nat \<Rightarrow> link_row upload_tx" where
  "finalizeContext env allowResume uploadID userID =
     tx_bind (tx_catch (tx_first (\<lambda>w. find (\<lambda>u. us_TusID u = uploadID) (uw_sessions w)))
        (\<lambda>e. if e = RecordNotFound then tx_fail (answered 404 e) else tx_fail (answered 500 e))) (\<lambda>s.
     tx_bind (refuse (up_UserID s \<noteq> userID) 403 '''') (\<lambda>_.
     tx_bind (refuse (us_Kind s = KindPartial) 400 ''partial uploads cannot be finalized'') (\<lambda>_.
     if 0 < us_LinkID s then orStatus 500 (tx_first (\<lambda>w. linkById (us_LinkID s) (uw_lib w)))
     else tx_bind (orStatus 500 (findFinalizedUpload (finalFileUUID env s) userID)) (\<lambda>found.
       case found of
         Some l \<Rightarrow> tx_bind (orStatus 500 (completeFinalize s l)) (\<lambda>_. tx_return l)
       | None \<Rightarrow>
           if isExpired (ie_now env) s
           then tx_bind (tx_ignore (expireSession (ie_now env) s)) (\<lambda>_. tx_fail (App (UploadRejected 410 ''upload expired'')))
           else importUpload env allowResume s))))"

definition Finalize :: "import_env \<Rightarrow> string \<Rightarrow> nat \<Rightarrow> link_row upload_tx" where
  "Finalize env = finalizeContext env False"

definition ResumeFinalize :: "import_env \<Rightarrow> string \<Rightarrow> nat \<Rightarrow> link_row upload_tx" where
  "ResumeFinalize env = finalizeContext env True"

section \<open>The task\<close>

text \<open>Queueing the task: \<open>enqueue\<close> is the background runtime, which answers an idempotency key with
  the identifier of a job.\<close>

definition EnqueueFinalize ::
  "time \<Rightarrow> upload_config \<Rightarrow> (string \<Rightarrow> string) \<Rightarrow> upload_caller \<Rightarrow> string \<Rightarrow> nat \<Rightarrow> string upload_tx" where
  "EnqueueFinalize now cfg enqueue c uploadID userID =
     tx_bind (tx_catch (tx_first (\<lambda>w. find (\<lambda>u. us_TusID u = uploadID) (uw_sessions w)))
        (\<lambda>e. if e = RecordNotFound then tx_fail (answered 404 e) else tx_fail (answered 500 e))) (\<lambda>s.
     tx_bind (refuse (up_UserID s \<noteq> userID) 403 ''upload not found'') (\<lambda>_.
     tx_bind (authorizeSharedSession c s) (\<lambda>_.
     tx_bind (refuse (us_Kind s = KindPartial) 400 ''partial uploads cannot be finalized'') (\<lambda>_.
     if isExpired now s
     then tx_bind (tx_ignore (expireSession now s)) (\<lambda>_. tx_fail (App (UploadRejected 410 ''upload expired'')))
     else tx_bind (refuse (up_Status s \<notin> {UploadUploaded, UploadFailed, UploadImporting, UploadDone}) 409 ''upload is not complete'') (\<lambda>_.
     tx_bind (case uc_Share c of Some share \<Rightarrow> if us_BackgroundJobID s = [] then
         validateSharedCapacity now cfg share (us_Size s) (up_ClientUploadUUID s) else tx_return () | None \<Rightarrow> tx_return ()) (\<lambda>_.
     tx_bind (orStatus 500 (tx_select (\<lambda>_. enqueue (uploadKey userID (up_ClientUploadUUID s))))) (\<lambda>job.
     tx_bind (orStatus 500 (tx_update (updateSessions (inGroup (up_ClientUploadUUID s) userID) (\<lambda>u. u\<lparr>us_BackgroundJobID := job\<rparr>)))) (\<lambda>_.
     tx_return job))))))))"

section \<open>Guests\<close>

text \<open>A guest's finalization, and what a guest is told of it.\<close>

definition EnqueueSharedFinalize ::
  "time \<Rightarrow> upload_config \<Rightarrow> (string \<Rightarrow> string) \<Rightarrow> bool \<Rightarrow> string \<Rightarrow> string \<Rightarrow> string upload_tx" where
  "EnqueueSharedFinalize now cfg enqueue unlocked token uploadID =
     tx_bind (sharedUploadContext now cfg unlocked token) (\<lambda>c.
     EnqueueFinalize now cfg enqueue c uploadID (case uc_UserID c of None \<Rightarrow> 0 | Some u \<Rightarrow> u))"

datatype shared_result = SharedFailed | SharedProcessing | SharedReady string

definition ReturnsUploadLink :: "guest_share \<Rightarrow> bool" where
  "ReturnsUploadLink share \<longleftrightarrow> (case gs_ReturnUploadLink share of None \<Rightarrow> True | Some b \<Rightarrow> b)"

text \<open>The link of a finished upload, which must still be live and inside the share.\<close>

definition sharedLink :: "guest_share \<Rightarrow> session_row \<Rightarrow> shared_result upload_tx" where
  "sharedLink share s =
     tx_bind (orStatus 404 (tx_first (\<lambda>w. find (\<lambda>l. ln_ID l = us_LinkID s \<and> ln_UserID l = sh_UserID share) (liveLinks (uw_lib w))))) (\<lambda>l.
     tx_bind (inLibrary (answered 403) (ContainsFolder (share_row.truncate share) (ln_ParentFolderID l))) (\<lambda>_.
     tx_return (SharedReady (''/v/'' @ ln_UUID l))))"

text \<open>A context of \<open>sharedUploadContext\<close> has a share; the code would panic without one.\<close>

definition SharedUploadStatus :: "time \<Rightarrow> upload_config \<Rightarrow> bool \<Rightarrow> string \<Rightarrow> string \<Rightarrow> shared_result upload_tx" where
  "SharedUploadStatus now cfg unlocked token uploadID =
     tx_bind (sharedUploadContext now cfg unlocked token) (\<lambda>c.
     case uc_Share c of None \<Rightarrow> tx_fail (App (UploadRejected 500 ''panic''))
     | Some share \<Rightarrow>
       tx_bind (refuse (\<not> ReturnsUploadLink share) 403 ''this share does not return public video links'') (\<lambda>_.
       tx_bind (tx_catch (tx_first (\<lambda>w. find (\<lambda>u. us_TusID u = uploadID \<and> up_UserID u = sh_UserID share) (uw_sessions w)))
          (\<lambda>e. if e = RecordNotFound then tx_fail (answered 404 e) else tx_fail (answered 500 e))) (\<lambda>s.
       tx_bind (authorizeSharedSession c s) (\<lambda>_.
       tx_bind (refuse (us_Kind s = KindPartial) 400 ''partial uploads have no public link'') (\<lambda>_.
       tx_bind (refuse (isExpired now s \<or> up_Status s = UploadCanceled \<or> up_Status s = UploadExpired) 410 ''upload is no longer available'') (\<lambda>_.
       if up_Status s = UploadFailed then tx_return SharedFailed
       else if up_Status s \<noteq> UploadDone then tx_return SharedProcessing
       else sharedLink share s))))))"

end
