(* ===== verification/UpInv.thy ===== *)
theory UpInv
  imports UpImport
begin

text \<open>What the operations on uploads keep, whichever of their statements fail: lifting the operations of the
  library, the checks, which change nothing, and the locale of properties that imports keep; then the invariant
  (the forest of folders and links, and the sizes of sessions that the quotas count) and uploads as a system.\<close>

section \<open>Operations of the library\<close>

lemma putLibrary_same [simp]: "putLibrary (libraryOf w) w = w"
  by (simp add: putLibrary_def libraryOf_def)

lemma ends_inLibrary:
  assumes "ends m (\<lambda>r l. case r of Inl e \<Rightarrow> Q (Inl (err e)) (putLibrary l w) | Inr x \<Rightarrow> Q (Inr x) (putLibrary l w)) (libraryOf w)"
  shows "ends (inLibrary err m) Q w"
proof (rule endsI)
  fix fs r w' fs' assume run: "inLibrary err m (w, fs) = (r, w', fs')"
  obtain r1 l fs1 where m: "m (libraryOf w, fs) = (r1, l, fs1)" by (cases "m (libraryOf w, fs)") auto
  with endsD [OF assms m] run show "Q r w'" by (cases r1) (auto simp: inLibrary_def)
qed

definition readsOnly :: "('a \<Rightarrow> bool) \<Rightarrow> 'a lib_tx \<Rightarrow> library \<Rightarrow> bool" where
  "readsOnly P m l \<longleftrightarrow> ends m (\<lambda>r l'. l' = l \<and> (\<forall>x. r = Inr x \<longrightarrow> P x)) l"

lemma ends_inLibrary_reads:
  assumes "readsOnly P m (libraryOf w)" "\<And>x. P x \<Longrightarrow> Q (Inr x) w" "\<And>e. Q (Inl (err e)) w"
  shows "ends (inLibrary err m) Q w"
  by (rule ends_inLibrary, rule ends_mono [OF assms(1) [unfolded readsOnly_def]]) (auto simp: assms(2,3) split: sum.splits)

lemma wp_inLibrary_reads: "readsOnly P m (libraryOf w) \<Longrightarrow> (\<And>x. P x \<Longrightarrow> Q x w) \<Longrightarrow> wp (inLibrary err m) Q w"
  unfolding ends_wp [symmetric] by (rule ends_inLibrary_reads [where P = P]) auto

lemma always_inLibrary:
  assumes "\<And>w. I w \<Longrightarrow> ends m (\<lambda>r l. I (putLibrary l w)) (libraryOf w)"
  shows "always I (inLibrary err m)"
  unfolding always_def
proof (intro allI impI)
  fix w fs assume "I w"
  then have "ends (inLibrary err m) (\<lambda>_. I) w" by (intro ends_inLibrary ends_mono [OF assms]) (auto split: sum.splits)
  then show "I (fst (snd (inLibrary err m (w, fs))))" by (simp add: ends_def)
qed

lemma always_reads: "(\<And>l. readsOnly P m l) \<Longrightarrow> always I (inLibrary err m)"
  unfolding readsOnly_def by (rule always_inLibrary, rule ends_mono, assumption) simp

lemma libraryOf_parentOK [simp]: "parentOK (libraryOf w) parent owner = parentOK (uw_lib w) parent owner"
  by (simp add: parentOK_def isFolder_def libraryOf_def)

lemma reads_ValidateFolderDestination:
  "readsOnly (\<lambda>_. parentOK l parent owner) (ValidateFolderDestination parent owner) l"
  unfolding readsOnly_def by (rule ends_mono [OF ValidateFolderDestination_result]) auto

lemma reads_ContainsFolder: "readsOnly (\<lambda>_. True) (ContainsFolder share i) l"
  unfolding readsOnly_def ContainsFolder_def by (rule ends_mono [OF shareWalk_sound]) auto

lemma reads_UploadCapacity: "readsOnly (\<lambda>c. c = capacityOf now share g l) (UploadCapacity now share g) l"
  unfolding readsOnly_def UploadCapacity_def Let_def by (rule ends_stmt) (auto split: if_splits)

lemma reads_Resolve:
  "readsOnly (\<lambda>s. find (\<lambda>s. sh_Token s = token \<and> \<not> sh_Deleted s) (lb_shares l) = Some s \<and>
     (\<forall>t. sh_ExpiresAt s = Some t \<longrightarrow> now < t)) (Resolve now token) l"
  unfolding readsOnly_def Resolve_def
  by (rule ends_if, rule ends_fail, simp, intro ends_bind ends_first)
    (auto intro!: ends_fail ends_bind ends_first ends_return)

lemma reads_True: "readsOnly P m l \<Longrightarrow> readsOnly (\<lambda>_. True) m l"
  unfolding readsOnly_def by (erule ends_mono) simp

lemmas always_library [tx_always] = always_reads [OF reads_True [OF reads_ValidateFolderDestination]] always_reads [OF reads_ContainsFolder]
  always_reads [OF reads_True [OF reads_UploadCapacity]] always_reads [OF reads_True [OF reads_Resolve]]

section \<open>Combinators\<close>

lemma always_orStatus [tx_always]: "always I m \<Longrightarrow> always I (orStatus c m)"
  unfolding orStatus_def by (intro tx_always)

lemma always_refuse [tx_always]: "always I (refuse c code name)"
  unfolding refuse_def by (intro tx_always)

lemma wp_orStatus [tx_wp]: "wp m Q d \<Longrightarrow> wp (orStatus c m) Q d"
  by (auto simp: orStatus_def wp_def tx_catch_def tx_fail_def split: sum.splits prod.splits)

lemma wp_refuse [tx_wp]: "(\<not> c \<Longrightarrow> Q () d) \<Longrightarrow> wp (refuse c code name) Q d"
  unfolding refuse_def by (rule wp_reject)

lemma wp_answer [tx_wp]: "wp m Q d \<Longrightarrow> wp (tx_catch m (\<lambda>e. case e of App _ \<Rightarrow> tx_fail e | _ \<Rightarrow> tx_fail (answered c e))) Q d"
  by (auto simp: wp_def tx_catch_def tx_fail_def split: sum.splits prod.splits txerr.splits)

lemma wp_transaction [tx_wp]: "wp m Q d \<Longrightarrow> wp (transaction m) Q d"
  by (auto simp: wp_def elim!: transaction_cases)

lemma always_trans [tx_always]: "always I m \<Longrightarrow> always I (transaction m)"
  by (rule always_transaction) (rule always_wp)

lemma always_answer [tx_always]: "always I m \<Longrightarrow> always I (tx_catch m (\<lambda>e. case e of App _ \<Rightarrow> tx_fail e | _ \<Rightarrow> tx_fail (answered c e)))"
  by (intro tx_always) (auto intro!: tx_always split: txerr.splits)

lemma always_sharedUploadContext [tx_always]: "always I (sharedUploadContext now cfg b token)"
  unfolding sharedUploadContext_def by (intro tx_always) (auto intro!: tx_always split: option.split)

lemma always_withFail [tx_always]: "always I m \<Longrightarrow> always I (failFinalize s) \<Longrightarrow> always I (withFail s m)"
  unfolding withFail_def by (intro tx_always)

section \<open>The checks\<close>

lemma always_CheckStorageQuota [tx_always]: "always I (CheckStorageQuota u n g)" "always I (checkStorageQuota u n g)"
  unfolding checkStorageQuota_def CheckStorageQuota_def by (intro tx_always)+

lemma always_enforce [tx_always]: "always I (enforceMaxUploadFileSize cfg u g k n)" "always I (enforceActiveSessionLimit cfg u g)"
  unfolding enforceMaxUploadFileSize_def enforceActiveSessionLimit_def by (intro tx_always)+

lemma always_checkGroup [tx_always]: "always I (checkGroup share i name ss)"
  by (induction ss) (auto intro!: tx_always simp: Let_def)

lemma always_validateUploadGroup [tx_always]: "always I (validateUploadGroup c u g i name)"
  unfolding validateUploadGroup_def by (intro tx_always)

lemma always_validateShared [tx_always]:
  "always I (validateSharedDestination share i)" "always I (validateSharedCapacity now cfg share n g)"
  unfolding validateSharedDestination_def validateSharedCapacity_def by (intro tx_always)+

lemma always_sumChunks [tx_always]: "always I (sumChunks s n ps b)"
  by (induction ps arbitrary: b) (auto intro!: tx_always)

lemma always_declaredSize [tx_always]: "always I (declaredSize s t)"
  unfolding declaredSize_def by (intro tx_always) (auto intro!: tx_always split: option.split)

lemma always_validateSharedCreate [tx_always]: "always I (validateSharedCreate now cfg share s t)"
  unfolding validateSharedCreate_def by (intro tx_always)

lemma always_checkPartials [tx_always]: "always I (checkPartials c s ps)"
  by (induction ps) (auto intro!: tx_always)

lemma always_usableCandidate [tx_always]: "always I (usableCandidate env cs)"
  by (induction cs) (auto intro!: tx_always split: sum.split)

lemma newLink_parent [simp]: "ln_ParentFolderID (newLink env f n u g i) = f" "ln_UserID (newLink env f n u g i) = u"
  by (simp_all add: newLink_def)

lemma always_existingResult [tx_always]: "always I (existingResult u g)"
  unfolding existingResult_def by (auto intro!: tx_always split: txerr.split)

lemma always_checkProbe [tx_always]: "always I (checkProbe d)"
  unfolding checkProbe_def Let_def by (intro tx_always)

lemma always_findFinalizedUpload [tx_always]: "always I (findFinalizedUpload i u)"
  unfolding findFinalizedUpload_def by (auto intro!: tx_always split: sum.split)

section \<open>What is kept\<close>

text \<open>The columns no update of a session changes.\<close>

definition sessionIdentity :: "session_row \<Rightarrow> nat \<times> string \<times> upload_kind \<times> nat \<times> string \<times> int \<times> int" where
  "sessionIdentity u = (us_SessionID u, us_TusID u, us_Kind u, up_UserID u, up_ClientUploadUUID u, us_Size u, up_QuotaBytes u)"

text \<open>A property that survives changes elsewhere, updates of sessions and a new link in a folder of its owner is kept by
  every operation on an open session.\<close>

locale kept_by_import =
  fixes I :: "upload_world \<Rightarrow> bool"
  assumes other: "I w \<Longrightarrow> uw_lib w' = uw_lib w \<Longrightarrow> uw_sessions w' = uw_sessions w \<Longrightarrow> I w'"
    and sessions: "I w \<Longrightarrow> (\<And>u. sessionIdentity (f u) = sessionIdentity u) \<Longrightarrow> I (updateSessions p f w)"
    and link: "I w \<Longrightarrow> parentOK (uw_lib w) (ln_ParentFolderID l) (ln_UserID l) \<Longrightarrow> I (putLibrary (insertLink l (libraryOf w)) w)"
begin

lemma others [simp]:
  "I (w\<lparr>uw_parts := a\<rparr>) = I w" "I (w\<lparr>uw_logs := b\<rparr>) = I w" "I (w\<lparr>uw_tracks := c\<rparr>) = I w"
  "I (w\<lparr>uw_disk := d\<rparr>) = I w" "I (w\<lparr>uw_media := e\<rparr>) = I w" "I (w\<lparr>uw_files := f\<rparr>) = I w"
  "I (w\<lparr>uw_files := f, uw_nextFile := n\<rparr>) = I w"
  by (auto elim: other)

lemma always_updateSession [tx_always]: "(\<And>u. sessionIdentity (f u) = sessionIdentity u) \<Longrightarrow> always I (updateSession s f)"
  unfolding updateSession_def by (intro tx_always sessions)

lemma always_deleteSession [tx_always]: "always I (deleteSession s)"
  unfolding deleteSession_def by (intro tx_always) (simp add: sessionIdentity_def)

lemma always_failFinalize [tx_always]: "always I (failFinalize s)"
  unfolding failFinalize_def by (intro tx_always) (simp add: sessionIdentity_def)

lemma always_trackUpload [tx_always]: "always I (trackUpload u f s n)"
  unfolding trackUpload_def by (intro tx_always) simp

lemma always_updateSessionFromEvent: "always I (updateSessionFromEvent ev t)"
  unfolding updateSessionFromEvent_def by (intro tx_always) (simp_all add: sessionIdentity_def)

lemma always_completeSessionFromEvent: "always I (completeSessionFromEvent ev)"
  unfolding completeSessionFromEvent_def by (intro tx_always) (simp_all add: sessionIdentity_def)

lemma always_terminateSession: "always I (terminateSession now i)"
  unfolding terminateSession_def by (intro tx_always) (simp_all add: sessionIdentity_def)

lemma always_removeLocal [tx_always]: "always I (removeLocal p)"
  unfolding removeLocal_def by (intro tx_always) simp

lemma always_expireSession [tx_always]: "always I (expireSession now s)"
  unfolding expireSession_def by (intro tx_always) (simp_all add: sessionIdentity_def)

lemma always_expireAll [tx_always]: "always I (expireAll now ss f)"
  by (induction ss arbitrary: f) (auto intro!: tx_always)

lemma always_CleanupExpiredOnce: "always I (CleanupExpiredOnce now)"
  unfolding CleanupExpiredOnce_def by (intro tx_always)

text \<open>Importing.\<close>

lemma wp_insertNewLink:
  assumes "I w" "parentOK (uw_lib w) (ln_ParentFolderID l) (ln_UserID l)"
  shows "wp (insertNewLink l) (\<lambda>_. I) w"
proof -
  have "ends (createLink l) (\<lambda>r lib. \<forall>x. r = Inr x \<longrightarrow> I (putLibrary lib w)) (libraryOf w)"
    unfolding createLink_def by (rule ends_stmt) (use link [OF assms] in \<open>auto split: if_splits\<close>)
  then have "wp (inLibrary (answered 500) (createLink l)) (\<lambda>_. I) w"
    unfolding ends_wp [symmetric] by (intro ends_inLibrary) (auto elim!: ends_mono split: sum.splits)
  then show ?thesis unfolding insertNewLink_def by (auto intro!: wp_bind wp_return simp: tx_peek_def wp_def tx_bind_def tx_return_def split: sum.splits prod.splits)
qed

lemma always_CloneFileByHash [tx_always]: "always I (CloneFileByHash env h f n u g)"
proof -
  have "wp (tx_bind (inLibrary statusError (ValidateFolderDestination f u)) (\<lambda>_. insertNewLink (newLink env f n u g i))) (\<lambda>_. I) w"
    if "I w" for i w
    by (rule wp_bind, rule wp_inLibrary_reads [OF reads_ValidateFolderDestination]) (simp add: wp_insertNewLink that)
  then show ?thesis unfolding CloneFileByHash_def
    by (auto intro!: tx_always always_transaction split: option.split)
qed

lemma always_imports [tx_always]:
  "always I (addTrack t)" "always I (putSource k b)" "always I (moveLocal p q)" "always I (removeImported p i)"
  unfolding addTrack_def putSource_def moveLocal_def removeImported_def
  by (auto intro!: tx_always always_stmt split: option.splits)

lemma always_renameLocal [tx_always]: "always I (renameLocal p e)"
  unfolding renameLocal_def by (intro tx_always)

lemma always_insertFileAndLink [tx_always]: "always I (insertFileAndLink env f n u g v)"
proof -
  have "wp (insertVideo v) (\<lambda>i w'. I w' \<and> uw_lib w' = uw_lib w) w" if "I w" for w
    unfolding insertVideo_def by (rule wp_stmt) (use that in auto)
  note insert = this
  have "wp (tx_bind (inLibrary statusError (ValidateFolderDestination f u)) (\<lambda>_.
       tx_bind (insertVideo v) (\<lambda>i. insertNewLink (newLink env f n u g i)))) (\<lambda>_. I) w" if "I w" for w
    by (intro wp_bind wp_inLibrary_reads [OF reads_ValidateFolderDestination], rule wp_mono, rule insert [OF that])
      (use that in \<open>auto intro: wp_insertNewLink\<close>)
  then show ?thesis unfolding insertFileAndLink_def by (intro tx_always always_transaction) (auto intro!: tx_always split: txerr.split)
qed

lemma always_storeNewVideo [tx_always]: "always I (storeNewVideo env p f n i s u g b)"
  unfolding storeNewVideo_def by (auto intro!: tx_always always_foreach split: option.split sum.split)

lemma always_CreateFileContext [tx_always]: "always I (CreateFileContext env p f n i s u g)"
  unfolding CreateFileContext_def
  by (auto intro!: tx_always split: option.split sum.split txerr.split upload_error.split)

text \<open>Finalizing.\<close>

lemma always_removeTusFilesForGroup [tx_always]: "always I (removeTusFilesForGroup g u)"
proof -
  have "always I (removeGroupFiles ss)" for ss by (induction ss) (auto intro!: tx_always)
  then show ?thesis unfolding removeTusFilesForGroup_def by (intro tx_always)
qed

lemma always_completeFinalize [tx_always]: "always I (completeFinalize s l)"
  unfolding completeFinalize_def Let_def
  by (auto intro!: tx_always sessions simp: finishedRow_def sessionIdentity_def)

lemma always_acquireSession [tx_always]: "always I (acquireSession r s)"
  unfolding acquireSession_def transitionToImporting_def Let_def
  by (auto intro!: tx_always always_stmt sessions simp: sessionIdentity_def)

lemma always_importFile [tx_always]: "always I (importFile env s p)"
  unfolding importFile_def Let_def
  by (auto intro!: tx_always sessions simp: sessionIdentity_def split: prod.split)

lemma always_finalizeContext: "always I (finalizeContext env r i u)"
  unfolding finalizeContext_def importUpload_def Let_def
  by (auto intro!: tx_always split: option.split sum.split)

lemma always_EnqueueFinalize: "always I (EnqueueFinalize now cfg enq c i u)"
  unfolding EnqueueFinalize_def authorizeSharedSession_def
  by (auto intro!: tx_always sessions simp: sessionIdentity_def split: option.split)

lemma always_EnqueueSharedFinalize: "always I (EnqueueSharedFinalize now cfg enq b token i)"
  unfolding EnqueueSharedFinalize_def by (intro tx_always always_EnqueueFinalize)

end

lemma always_step: "always I m \<Longrightarrow> I w \<Longrightarrow> m (w, fs) = (r, w', fs') \<Longrightarrow> I w'"
  unfolding always_def by (metis fst_conv snd_conv)

section \<open>The invariant\<close>

text \<open>A session reserves its size, but the final upload that joins the chunks reserves nothing.\<close>

definition sessionOK :: "session_row \<Rightarrow> bool" where
  "sessionOK u \<longleftrightarrow> 0 < us_Size u \<and> up_QuotaBytes u = (if us_Kind u = KindFinal then 0 else us_Size u)"

definition upInv :: "upload_world \<Rightarrow> bool" where
  "upInv w \<longleftrightarrow> libInv (uw_lib w) \<and> (\<forall>u \<in> set (uw_sessions w). sessionOK u)"

lemma libInv_links:
  assumes "libInv w" "lb_folders w' = lb_folders w" "lb_nextFolder w' = lb_nextFolder w" "lb_links w' = lb_links w" "lb_nextLink w' = lb_nextLink w"
  shows "libInv w'"
  using assms by (intro libInv_same_folders [of w w']) (auto simp: libInv_def isLink_def)

lemma upInv_putLink:
  assumes "upInv w" "parentOK (uw_lib w) (ln_ParentFolderID l) (ln_UserID l)"
  shows "upInv (putLibrary (insertLink l (libraryOf w)) w)"
proof -
  have "libInv (insertLink l (uw_lib w))" using libInv_insertLink assms by (simp add: upInv_def)
  then have "libInv (uw_lib (putLibrary (insertLink l (libraryOf w)) w))"
    by (rule libInv_links) (simp_all add: putLibrary_def insertLink_def libraryOf_def)
  with assms(1) show ?thesis by (simp add: upInv_def putLibrary_def)
qed

interpretation importing: kept_by_import upInv
proof
  show "upInv w'" if "upInv w" "uw_lib w' = uw_lib w" "uw_sessions w' = uw_sessions w" for w w'
    using that by (simp add: upInv_def)
  show "upInv (updateSessions p f w)" if "upInv w" "\<And>u. sessionIdentity (f u) = sessionIdentity u" for w f p
  proof -
    have "sessionOK (f u) = sessionOK u" for u using that(2) [of u] by (simp add: sessionIdentity_def sessionOK_def)
    with that(1) show ?thesis by (auto simp: upInv_def updateSessions_def elim!: update_whereE)
  qed
qed (rule upInv_putLink)

section \<open>Opening a session\<close>

lemma always_insertParts [tx_always]: "always upInv (insertParts i ps n is)"
  by (induction "is" arbitrary: n) (auto intro!: tx_always)

lemma always_insertSession [tx_always]: "sessionOK s \<Longrightarrow> always upInv (insertSession s)"
  unfolding insertSession_def by (rule always_stmt) (auto simp: upInv_def sessionOK_def)

lemma sessionOK_expected [simp]: "sessionOK (s\<lparr>up_ExpectedSize := n\<rparr>) = sessionOK s"
  by (simp add: sessionOK_def)

lemma wp_createBody:
  assumes "upInv w" "sessionOK s"
  shows "wp (createBody env cfg c info s) (\<lambda>_. upInv) w"
proof -
  let ?expect = "case uc_Share c of None \<Rightarrow> tx_return s
     | Some share \<Rightarrow> tx_bind (validateSharedCreate (ce_now env) cfg share s (metaOf info ''file_size'')) (\<lambda>n. tx_return (s\<lparr>up_ExpectedSize := n\<rparr>))"
  have expect: "wp ?expect (\<lambda>s' w'. sessionOK s' \<and> upInv w') w"
    using assms by (auto intro!: tx_wp wp_mono [OF always_wp [OF always_validateSharedCreate [of upInv]]] split: option.split)
  have rest: "always upInv (tx_bind (insertSession s') (\<lambda>i. if us_Kind s' \<noteq> KindFinal then tx_return s' else k s' i))"
    if "sessionOK s'" "\<And>i. always upInv (k s' i)" for s' k
    using that by (intro tx_always)
  show ?thesis unfolding createBody_def
    by (intro wp_bind wp_inLibrary_reads [OF reads_ValidateFolderDestination] wp_mono [OF expect] always_wp [OF rest])
      (auto intro!: tx_always)
qed

lemma newSession_OK: "0 < ui_Size info \<Longrightarrow> sessionOK (newSession env c u info i)"
  by (simp add: newSession_def sessionOK_def)

lemma always_preUploadCreate: "always upInv (preUploadCreate env cfg c info)"
proof (cases "0 < ui_Size info")
  case True
  then have new: "sessionOK (newSession env c u info i)" for u i by (rule newSession_OK)
  show ?thesis unfolding preUploadCreate_def Let_def
    by (auto intro!: tx_always always_transaction wp_createBody new split: option.split)
next
  case False
  then have "ends (preUploadCreate env cfg c info) (\<lambda>_ w'. w' = w) w" for w
    unfolding preUploadCreate_def refuse_def by (auto intro!: tx_ends split: option.split)
  then show ?thesis by (simp add: always_def ends_def)
qed

section \<open>The system\<close>

text \<open>The operations in any order, between the operations of the library, which moves and deletes folders and
  links meanwhile.\<close>

inductive up_step :: "upload_world \<Rightarrow> upload_world \<Rightarrow> bool" where
  Open: "preUploadCreate env cfg c info (w, fs) = (r, w', fs') \<Longrightarrow> up_step w w'"
| Progress: "updateSessionFromEvent ev t (w, fs) = (r, w', fs') \<Longrightarrow> up_step w w'"
| Complete: "completeSessionFromEvent ev (w, fs) = (r, w', fs') \<Longrightarrow> up_step w w'"
| Terminate: "terminateSession now i (w, fs) = (r, w', fs') \<Longrightarrow> up_step w w'"
| Expire: "expireSession now s (w, fs) = (r, w', fs') \<Longrightarrow> up_step w w'"
| Cleanup: "CleanupExpiredOnce now (w, fs) = (r, w', fs') \<Longrightarrow> up_step w w'"
| Enqueue: "EnqueueFinalize now cfg enq c i u (w, fs) = (r, w', fs') \<Longrightarrow> up_step w w'"
| GuestEnqueue: "EnqueueSharedFinalize now cfg enq b token i (w, fs) = (r, w', fs') \<Longrightarrow> up_step w w'"
| Finish: "finalizeContext ienv resume i u (w, fs) = (r, w', fs') \<Longrightarrow> up_step w w'"
| Library: "lib_step (uw_lib w) l \<Longrightarrow> up_step w (w\<lparr>uw_lib := l\<rparr>)"
| Elsewhere: "uw_lib w' = uw_lib w \<Longrightarrow> uw_sessions w' = uw_sessions w \<Longrightarrow> up_step w w'"

definition upInit :: "upload_world \<Rightarrow> bool" where
  "upInit w \<longleftrightarrow> libInit (uw_lib w) \<and> uw_sessions w = []"

lemmas up_always = always_preUploadCreate importing.always_updateSessionFromEvent importing.always_completeSessionFromEvent
  importing.always_terminateSession importing.always_expireSession importing.always_CleanupExpiredOnce importing.always_EnqueueFinalize importing.always_EnqueueSharedFinalize
  importing.always_finalizeContext

interpretation uploads: invariant_system upInit up_step upInv
proof
  show "upInv w" if "upInit w" for w using that library.init_inv by (simp add: upInit_def upInv_def)
  show "upInv w'" if "upInv w" "up_step w w'" for w w'
    using that(2,1)
  proof (induction rule: up_step.induct)
    case (Library w l)
    then show ?case using libInv_step by (simp add: upInv_def)
  next
    case (Elsewhere w' w)
    then show ?case by (simp add: upInv_def)
  qed (rule always_step, rule up_always, assumption, assumption)+
qed

end
