(* ===== verification/UpQuota.thy ===== *)
theory UpQuota
  imports UpInv
begin

text \<open>What the creation of a session has checked when it succeeds, and what the tables say with the new session
  counted in: the quota of the account, and for a guest the folder, the sizes declared, what the group reserves and
  the capacity of the share.\<close>

section \<open>The checks\<close>

lemma unchanged: "(\<And>I. always I m) \<Longrightarrow> wp m (\<lambda>_ w'. w' = w) w"
  by (rule always_wp [where I = "\<lambda>w'. w' = w"]) auto

lemma wp_unchanged: "(\<And>I. always I m) \<Longrightarrow> wp m (\<lambda>x _. P x) w \<Longrightarrow> wp m (\<lambda>x w'. w' = w \<and> P x) w"
  using unchanged [of m w] by (auto simp: wp_def)

text \<open>What a check on a sum of 64 bits is worth: the limit holds unless the sum has wrapped around.\<close>

definition withinLimit :: "int \<Rightarrow> int \<Rightarrow> bool" where
  "withinLimit n limit \<longleftrightarrow> (n < 2 ^ 63 \<longrightarrow> n \<le> limit)"

lemma withinLimit_wrap64: "wrap64 n \<le> limit \<Longrightarrow> withinLimit n limit"
  unfolding withinLimit_def by (blast intro: order_trans wrap64_ge)

definition withinQuota :: "nat \<Rightarrow> int \<Rightarrow> string \<Rightarrow> upload_world \<Rightarrow> bool" where
  "withinQuota u n g w \<longleftrightarrow> (\<exists>user. userById u w = Some user \<and>
     (ua_Storage user = 0 \<or> withinLimit (usedStorage u w + pendingStorage u g w + n) (ua_Storage user)))"

lemma wp_CheckStorageQuota: "(withinQuota u n g w \<Longrightarrow> Q () w) \<Longrightarrow> wp (CheckStorageQuota u n g) Q w"
  unfolding CheckStorageQuota_def
  by (rule wp_bind, rule wp_orStatus, rule wp_first, rule wp_if, rule wp_return)
    (auto intro!: tx_wp dest!: withinLimit_wrap64 simp: withinQuota_def not_less)

definition activeGroup :: "nat \<Rightarrow> string \<Rightarrow> upload_world \<Rightarrow> session_row list" where
  "activeGroup u g w = filter (\<lambda>s. activeUpload u s \<and> up_ClientUploadUUID s = g) (liveSessions w)"

definition chunkBytes :: "session_row list \<Rightarrow> int" where
  "chunkBytes ss = sum_list (map us_Size (filter (\<lambda>s. us_Kind s = KindPartial) ss))"

lemma wp_enforceMaxUploadFileSize:
  "(0 < cf_MaxUploadFilesize cfg \<longrightarrow> k = KindPartial \<longrightarrow> withinLimit (chunkBytes (activeGroup u g w) + n) (cf_MaxUploadFilesize cfg) \<Longrightarrow> Q () w) \<Longrightarrow>
   wp (enforceMaxUploadFileSize cfg u g k n) Q w"
proof -
  assume Q: "0 < cf_MaxUploadFilesize cfg \<longrightarrow> k = KindPartial \<longrightarrow> withinLimit (chunkBytes (activeGroup u g w) + n) (cf_MaxUploadFilesize cfg) \<Longrightarrow> Q () w"
  have "sum_list (map us_Size (filter (\<lambda>s. activeUpload u s \<and> up_ClientUploadUUID s = g \<and> us_Kind s = KindPartial) (liveSessions w))) =
      chunkBytes (activeGroup u g w)"
    by (simp add: chunkBytes_def activeGroup_def conj_ac)
  with Q show ?thesis unfolding enforceMaxUploadFileSize_def
    by (intro wp_if wp_return wp_bind wp_orStatus wp_sum wp_refuse) (auto dest!: withinLimit_wrap64 simp: not_less)
qed

lemma wp_sumChunks:
  "wp (sumChunks s n ps b) (\<lambda>b' w'. w' = w \<and> b' = b + chunkBytes ps \<and> (\<forall>p \<in> set ps. up_ExpectedSize p = n \<and>
     us_Kind s \<noteq> KindSingle \<and> (us_Kind s = KindPartial \<longrightarrow> us_Kind p = KindPartial))) w"
proof (induction ps arbitrary: b)
  case Nil
  then show ?case by (simp add: wp_return chunkBytes_def)
next
  case (Cons p ps)
  have "chunkBytes (p # ps) = (if us_Kind p = KindPartial then us_Size p else 0) + chunkBytes ps" by (simp add: chunkBytes_def)
  then show ?case unfolding sumChunks.simps
    by (intro wp_if wp_fail; intro wp_mono [OF Cons]) auto
qed

lemma wp_declaredSize:
  "wp (declaredSize s t) (\<lambda>n w'. w' = w \<and> (0 < us_Size s \<longrightarrow> 0 < n)) w"
  unfolding declaredSize_def by (auto intro!: tx_wp split: option.split)

text \<open>What a guest's session has been checked against.\<close>

definition fitsShare :: "time \<Rightarrow> upload_config \<Rightarrow> guest_share \<Rightarrow> session_row \<Rightarrow> int \<Rightarrow> upload_world \<Rightarrow> bool" where
  "fitsShare now cfg share s n w \<longleftrightarrow> us_Size s \<le> n \<and> (us_Kind s \<noteq> KindPartial \<longrightarrow> n = us_Size s) \<and>
     (let ps = activeGroup (up_UserID s) (up_ClientUploadUUID s) w in
       (\<forall>p \<in> set ps. up_ExpectedSize p = n \<and> us_Kind s \<noteq> KindSingle \<and> (us_Kind s = KindPartial \<longrightarrow> us_Kind p = KindPartial)) \<and>
       (us_Kind s = KindPartial \<longrightarrow> chunkBytes ps + us_Size s \<le> n) \<and> (us_Kind s = KindFinal \<longrightarrow> chunkBytes ps = n)) \<and>
     (0 < gs_MaxVideoSize share \<longrightarrow> n \<le> gs_MaxVideoSize share) \<and>
     (0 < sh_MaxFolderSize share \<longrightarrow>
       n \<le> cap_Remaining (capacityOf now (share_row.truncate share) (up_ClientUploadUUID s) (libraryOf w)))"

lemma wp_validateSharedCapacity:
  "wp (validateSharedCapacity now cfg share n g) (\<lambda>_ w'. w' = w \<and> (0 < gs_MaxVideoSize share \<longrightarrow> n \<le> gs_MaxVideoSize share) \<and>
     (0 < sh_MaxFolderSize share \<longrightarrow> n \<le> cap_Remaining (capacityOf now (share_row.truncate share) g (libraryOf w)))) w"
  unfolding validateSharedCapacity_def
  by (intro wp_bind wp_refuse wp_if wp_return wp_inLibrary_reads [OF reads_UploadCapacity]) auto

lemma wp_validateSharedCreate:
  "wp (validateSharedCreate now cfg share s t) (\<lambda>n w'. w' = w \<and> fitsShare now cfg share s n w) w"
  unfolding validateSharedCreate_def activeGroup_def [symmetric]
  by (intro wp_bind wp_refuse wp_orStatus wp_select wp_mono [OF wp_declaredSize] wp_mono [OF wp_sumChunks] wp_return
      wp_mono [OF wp_validateSharedCapacity]; (elim conjE)?; (hypsubst)?)
    (auto intro!: wp_bind wp_refuse wp_orStatus wp_select wp_return wp_mono [OF wp_sumChunks] wp_mono [OF wp_validateSharedCapacity] simp: fitsShare_def Let_def)

section \<open>What a created session satisfies\<close>

definition added :: "session_row \<Rightarrow> upload_world \<Rightarrow> upload_world \<Rightarrow> bool" where
  "added s w w' \<longleftrightarrow> uw_sessions w' = uw_sessions w @ [s\<lparr>us_SessionID := uw_nextSession w\<rparr>] \<and> uw_lib w' = uw_lib w \<and>
     uw_users w' = uw_users w \<and> uw_files w' = uw_files w \<and> uw_shares w' = uw_shares w"

lemma wp_insertParts: "added s w w1 \<Longrightarrow> wp (insertParts i ps n is) (\<lambda>_. added s w) w1"
  by (induction "is" arbitrary: n w1) (auto intro!: tx_wp simp: added_def)

lemma wp_joinParts:
  assumes "added s w w1"
  shows "wp (tx_bind (checkPartials c s ps) (\<lambda>_. tx_bind (insertParts i ps 0 is) (\<lambda>_. tx_return s))) (\<lambda>s' w'. s' = s \<and> added s w w') w1"
proof -
  have "wp (checkPartials c s ps) (\<lambda>_ w'. w' = w1) w1" by (rule unchanged) (rule always_checkPartials)
  then have "wp (checkPartials c s ps) (\<lambda>_. added s w) w1" by (rule wp_mono) (simp add: assms)
  then show ?thesis by (intro wp_bind) (auto elim!: wp_mono intro!: wp_bind wp_mono [OF wp_insertParts] wp_return)
qed

lemma wp_createBody_result:
  "wp (createBody env cfg c info s) (\<lambda>s' w'. \<exists>n. s' = s\<lparr>up_ExpectedSize := n\<rparr> \<and> added s' w w' \<and>
     (\<forall>share. uc_Share c = Some share \<longrightarrow> fitsShare (ce_now env) cfg share s n w)) w"
proof -
  let ?expect = "case uc_Share c of None \<Rightarrow> tx_return s
     | Some share \<Rightarrow> tx_bind (validateSharedCreate (ce_now env) cfg share s (metaOf info ''file_size'')) (\<lambda>n. tx_return (s\<lparr>up_ExpectedSize := n\<rparr>))"
  have expect: "wp ?expect (\<lambda>s' w'. w' = w \<and> (\<exists>n. s' = s\<lparr>up_ExpectedSize := n\<rparr> \<and>
      (\<forall>share. uc_Share c = Some share \<longrightarrow> fitsShare (ce_now env) cfg share s n w))) w"
  proof (cases "uc_Share c")
    case None
    then show ?thesis by (auto intro!: wp_return exI [of _ "up_ExpectedSize s"])
  next
    case (Some share)
    then show ?thesis by (auto intro!: wp_return wp_bind wp_mono [OF wp_validateSharedCreate])
  qed
  have new: "wp (insertSession s') (\<lambda>_. added s' w1) w1" for s' w1
    unfolding insertSession_def by (rule wp_stmt) (auto simp: added_def)
  show ?thesis unfolding createBody_def
  proof (intro wp_bind wp_inLibrary_reads [OF reads_ValidateFolderDestination] wp_mono [OF expect] wp_mono [OF new])
    fix s' w1 i w2
    assume "w1 = w \<and> (\<exists>n. s' = s\<lparr>up_ExpectedSize := n\<rparr> \<and> (\<forall>share. uc_Share c = Some share \<longrightarrow> fitsShare (ce_now env) cfg share s n w))"
      and "added s' w1 w2"
    then have r: "added s' w w2 \<and> (\<exists>n. s' = s\<lparr>up_ExpectedSize := n\<rparr> \<and> (\<forall>share. uc_Share c = Some share \<longrightarrow> fitsShare (ce_now env) cfg share s n w))"
      by auto
    show "wp (if us_Kind s' \<noteq> KindFinal then tx_return s' else
        tx_bind (tx_select (\<lambda>w. filter (\<lambda>u. us_TusID u \<in> set (ui_PartialUploads info)) (liveSessions w))) (\<lambda>partials.
        tx_bind (refuse (length partials \<noteq> length (ui_PartialUploads info)) 400 ''one or more partial uploads were not found'') (\<lambda>_.
        tx_bind (checkPartials c s' partials) (\<lambda>_.
        tx_bind (insertParts i partials 0 (ui_PartialUploads info)) (\<lambda>_. tx_return s')))))
      (\<lambda>s' w'. \<exists>n. s' = s\<lparr>up_ExpectedSize := n\<rparr> \<and> added s' w w' \<and> (\<forall>share. uc_Share c = Some share \<longrightarrow> fitsShare (ce_now env) cfg share s n w)) w2"
      using r by (intro wp_if wp_return wp_bind [of "tx_select f" for f] wp_select wp_bind [of "refuse a b c" for a b c] wp_refuse
          wp_mono [OF wp_joinParts [of s' w w2]]) auto
  qed
qed

text \<open>Everything a successful creation has checked of the state it started from.\<close>

definition insideShare :: "guest_share \<Rightarrow> upload_world \<Rightarrow> nat \<Rightarrow> bool" where
  "insideShare share w i \<longleftrightarrow> (\<not> gs_AllowRead share \<longrightarrow> i = sh_FolderID share) \<and> (\<exists>m<256. levelsBelow (libraryOf w) (sh_FolderID share) m i)"

definition guestOK :: "time \<Rightarrow> upload_config \<Rightarrow> upload_caller \<Rightarrow> session_row \<Rightarrow> upload_world \<Rightarrow> bool" where
  "guestOK now cfg c s w \<longleftrightarrow> (\<forall>share. uc_Share c = Some share \<longrightarrow> fitsShare now cfg share s (up_ExpectedSize s) w \<and>
     insideShare share w (up_ParentFolderID s) \<and> validSharedFilename (us_Name s))"

definition sizesOK :: "upload_config \<Rightarrow> session_row \<Rightarrow> upload_world \<Rightarrow> bool" where
  "sizesOK cfg s w \<longleftrightarrow> 0 < us_Size s \<and> (0 < cf_MaxUploadFilesize cfg \<longrightarrow> us_Size s \<le> cf_MaxUploadFilesize cfg \<and>
     (us_Kind s = KindPartial \<longrightarrow> withinLimit (chunkBytes (activeGroup (up_UserID s) (up_ClientUploadUUID s) w) + us_Size s) (cf_MaxUploadFilesize cfg))) \<and>
     (us_Kind s \<noteq> KindFinal \<longrightarrow> withinQuota (up_UserID s) (us_Size s) [] w)"

text \<open>One check after another.\<close>

lemma wp_check: "wp m (\<lambda>_ w'. w' = w \<and> P) w \<Longrightarrow> (P \<Longrightarrow> wp k Q w) \<Longrightarrow> wp (tx_bind m (\<lambda>_. k)) Q w"
  by (rule wp_bind, erule wp_mono) auto

lemma wp_refused: "(\<not> b \<Longrightarrow> wp k Q w) \<Longrightarrow> wp (tx_bind (refuse b code name) (\<lambda>_. k)) Q w"
  by (intro wp_bind wp_refuse)

lemma reads_inside:
  "readsOnly (\<lambda>_. \<exists>m<256. levelsBelow (libraryOf w) (sh_FolderID share) m i) (ContainsFolder (share_row.truncate share) i) (libraryOf w)"
  unfolding readsOnly_def ContainsFolder_def
  by (rule ends_mono [OF shareWalk_sound]) (auto simp: share_row.defs)

lemma wp_validateSharedDestination:
  "wp (validateSharedDestination share i) (\<lambda>_ w'. w' = w \<and> insideShare share w i) w"
  unfolding validateSharedDestination_def
  by (rule wp_refused, rule wp_inLibrary_reads [OF reads_inside]) (auto simp: insideShare_def)

lemma newSession_columns [simp]:
  "up_UserID (newSession env c u info i) = u" "up_ClientUploadUUID (newSession env c u info i) = uploadGroup env info"
  "us_Size (newSession env c u info i) = ui_Size info" "us_Kind (newSession env c u info i) = uploadKind info"
  "us_Name (newSession env c u info i) = uploadName info" "up_ParentFolderID (newSession env c u info i) = i"
  "up_QuotaBytes (newSession env c u info i) = (if uploadKind info = KindFinal then 0 else ui_Size info)"
  "up_Status (newSession env c u info i) = UploadCreated" "up_Deleted (newSession env c u info i) = False"
  by (simp_all add: newSession_def)

lemma wp_guest:
  "wp (case uc_Share c of None \<Rightarrow> tx_return () | Some share \<Rightarrow> tx_bind (validateSharedDestination share i) (\<lambda>_. refuse (\<not> validSharedFilename n) a b))
     (\<lambda>_ w'. w' = w \<and> (\<forall>share. uc_Share c = Some share \<longrightarrow> insideShare share w i \<and> validSharedFilename n)) w"
  by (cases "uc_Share c") (auto intro!: wp_return wp_bind wp_mono [OF wp_validateSharedDestination] wp_refuse)

lemma wp_checked:
  "wp (enforceMaxUploadFileSize cfg u g k n) (\<lambda>_ w'. w' = w \<and> (0 < cf_MaxUploadFilesize cfg \<longrightarrow> k = KindPartial \<longrightarrow>
     withinLimit (chunkBytes (activeGroup u g w) + n) (cf_MaxUploadFilesize cfg))) w"
  "wp (if 0 < b then checkStorageQuota u b [] else tx_return ()) (\<lambda>_ w'. w' = w \<and> (0 < b \<longrightarrow> withinQuota u b [] w)) w"
  "wp (validateUploadGroup c u g i name) (\<lambda>_ w'. w' = w \<and> True) w"
  "wp (enforceActiveSessionLimit cfg u g) (\<lambda>_ w'. w' = w \<and> True) w"
  "wp (inLibrary err (ValidateFolderDestination i u)) (\<lambda>_ w'. w' = w \<and> True) w"
proof -
  show "wp (enforceMaxUploadFileSize cfg u g k n) (\<lambda>_ w'. w' = w \<and> (0 < cf_MaxUploadFilesize cfg \<longrightarrow> k = KindPartial \<longrightarrow>
     withinLimit (chunkBytes (activeGroup u g w) + n) (cf_MaxUploadFilesize cfg))) w"
    by (rule wp_enforceMaxUploadFileSize) simp
  show "wp (if 0 < b then checkStorageQuota u b [] else tx_return ()) (\<lambda>_ w'. w' = w \<and> (0 < b \<longrightarrow> withinQuota u b [] w)) w"
    unfolding checkStorageQuota_def by (intro wp_if wp_CheckStorageQuota wp_return) auto
  show "wp (validateUploadGroup c u g i name) (\<lambda>_ w'. w' = w \<and> True) w" "wp (enforceActiveSessionLimit cfg u g) (\<lambda>_ w'. w' = w \<and> True) w"
    "wp (inLibrary err (ValidateFolderDestination i u)) (\<lambda>_ w'. w' = w \<and> True) w"
    by (simp_all, rule unchanged, intro tx_always, rule unchanged, intro tx_always, rule unchanged, intro tx_always)
qed

definition createdOK :: "create_env \<Rightarrow> upload_config \<Rightarrow> upload_caller \<Rightarrow> nat \<Rightarrow> upload_world \<Rightarrow> session_row \<Rightarrow> upload_world \<Rightarrow> bool" where
  "createdOK env cfg c u w s w' \<longleftrightarrow> added s w w' \<and> sizesOK cfg s w \<and> guestOK (ce_now env) cfg c s w \<and>
     up_UserID s = u \<and> up_Status s = UploadCreated \<and> \<not> up_Deleted s \<and> sessionOK s"

lemma wp_created:
  assumes "0 < ui_Size info" "sizesOK cfg (newSession env c u info i) w"
    "\<forall>share. uc_Share c = Some share \<longrightarrow> insideShare share w i \<and> validSharedFilename (uploadName info)"
  shows "wp (createBody env cfg c info (newSession env c u info i)) (createdOK env cfg c u w) w"
  by (rule wp_mono [OF wp_createBody_result])
    (use assms newSession_OK [OF assms(1), of env c u i] in \<open>auto simp: createdOK_def guestOK_def sizesOK_def fitsShare_def\<close>)

lemma wp_preUploadCreate:
  assumes "uc_UserID c = Some u"
  shows "wp (preUploadCreate env cfg c info) (createdOK env cfg c u w) w"
  unfolding preUploadCreate_def assms option.case Let_def newSession_columns
  apply (rule wp_refused)+
  apply (split option.split, intro conjI allI impI, rule wp_fail)
  apply (rule wp_check [OF wp_checked(5)], rule wp_check [OF wp_guest], rule wp_refused, rule wp_check [OF wp_checked(3)],
      rule wp_check [OF wp_checked(1)], rule wp_check [OF wp_checked(2)], rule wp_check [OF wp_checked(4)],
      rule wp_answer, rule wp_transaction, rule wp_created)
  apply (auto simp: sizesOK_def)
  done

section \<open>The quota\<close>

lemma liveSessions_added:
  "added s w w' \<Longrightarrow> \<not> up_Deleted s \<Longrightarrow> liveSessions w' = liveSessions w @ [s\<lparr>us_SessionID := uw_nextSession w\<rparr>]"
  by (simp add: liveSessions_def added_def)

lemma activeUpload_id [simp]: "activeUpload u (s\<lparr>us_SessionID := i\<rparr>) = activeUpload u s"
  by (simp add: activeUpload_def)

lemma pendingStorage_added:
  assumes "added s w w'" "\<not> up_Deleted s" "up_UserID s = u" "up_Status s = UploadCreated"
  shows "pendingStorage u [] w' = pendingStorage u [] w + up_QuotaBytes s"
  using assms by (simp add: pendingStorage_def liveSessions_added activeUpload_def activeStatuses_def)

lemma activeGroup_added:
  assumes "added s w w'" "\<not> up_Deleted s" "up_UserID s = u" "up_Status s = UploadCreated"
  shows "activeGroup u (up_ClientUploadUUID s) w' = activeGroup u (up_ClientUploadUUID s) w @ [s\<lparr>us_SessionID := uw_nextSession w\<rparr>]"
  using assms by (simp add: activeGroup_def liveSessions_added activeUpload_def activeStatuses_def)

lemma used_added: "added s w w' \<Longrightarrow> usedStorage u w' = usedStorage u w" "added s w w' \<Longrightarrow> userById u w' = userById u w"
  by (simp_all add: usedStorage_def userById_def added_def)

section \<open>The capacity of a share\<close>

lemma growSubtree_uploads [simp]: "growSubtree n share (l\<lparr>lb_uploads := us\<rparr>) ids = growSubtree n share l ids"
  by (induction n arbitrary: ids) (simp_all add: liveFolders_def)

lemma shareSubtree_uploads [simp]: "shareSubtree share (l\<lparr>lb_uploads := us\<rparr>) = shareSubtree share l"
  by (simp add: shareSubtree_def liveFolders_def)

definition pendingIn :: "time \<Rightarrow> share_row \<Rightarrow> library \<Rightarrow> upload_row \<Rightarrow> bool" where
  "pendingIn now share l u \<longleftrightarrow>
     up_UserID u = sh_UserID share \<and> up_ParentFolderID u \<in> set (shareSubtree share l) \<and> \<not> up_Deleted u \<and>
     up_Status u \<in> {UploadCreated, UploadUploading, UploadUploaded, UploadImporting, UploadFailed} \<and>
     (case up_ExpiresAt u of None \<Rightarrow> True | Some t \<Rightarrow> now < t) \<and>
     \<not> list_ex (\<lambda>k. ln_UserID k = up_UserID u \<and>
        ln_CreationKey k = ''upload:'' @ digits (up_UserID u) @ '':'' @ up_ClientUploadUUID u) (liveLinks l)"

lemma pendingUpload_eq: "pendingUpload now share x l u \<longleftrightarrow> pendingIn now share l u \<and> up_ClientUploadUUID u \<noteq> x"
  by (auto simp: pendingUpload_def pendingIn_def)

lemma pendingIn_uploads [simp]: "pendingIn now share (l\<lparr>lb_uploads := us\<rparr>) u = pendingIn now share l u"
  by (simp add: pendingIn_def liveLinks_def)

definition reservedBy :: "(upload_row \<Rightarrow> bool) \<Rightarrow> upload_row list \<Rightarrow> string \<Rightarrow> int" where
  "reservedBy P us x = (let vs = filter (\<lambda>u. P u \<and> up_ClientUploadUUID u \<noteq> x) us
     in sum (groupReserved vs) (up_ClientUploadUUID ` set vs))"

lemma cap_Reserved_eq: "cap_Reserved (capacityOf now share x l) = reservedBy (pendingIn now share l) (lb_uploads l) x"
proof -
  have "pendingUpload now share x l = (\<lambda>u. pendingIn now share l u \<and> up_ClientUploadUUID u \<noteq> x)"
    by (simp add: fun_eq_iff pendingUpload_eq)
  then show ?thesis by (simp add: capacityOf_def Let_def reservedBy_def flip: sum.set_conv_list)
qed

lemma groupReserved_nonneg: "(\<And>u. u \<in> set us \<Longrightarrow> 0 \<le> up_QuotaBytes u) \<Longrightarrow> 0 \<le> groupReserved us g"
  by (auto simp: groupReserved_def Let_def le_max_iff_disj intro!: disjI2 sum_list_nonneg)

lemma groupReserved_le:
  assumes "us \<noteq> []" "\<And>u. u \<in> set us \<Longrightarrow> up_ClientUploadUUID u = g \<and> up_ExpectedSize u = n" "sum_list (map up_QuotaBytes us) \<le> n"
  shows "groupReserved us g \<le> n"
proof -
  have "fold max (map up_ExpectedSize vs) n = n" if "set vs \<subseteq> set us" for vs
    using that assms(2) by (induction vs) auto
  moreover have "filter (\<lambda>u. up_ClientUploadUUID u = g) us = us" using assms(2) by (simp add: filter_id_conv)
  moreover have "up_ExpectedSize (hd us) = n" using assms(1,2) by simp
  moreover have "set (tl us) \<subseteq> set us" using assms(1) by (cases us) auto
  ultimately show ?thesis using assms(3) by (simp add: groupReserved_def)
qed

text \<open>A new row of a group: the other groups reserve what they did, the group at most \<open>n\<close>.\<close>

lemma reservedBy_added:
  assumes own: "\<And>vs. vs = filter (\<lambda>u. P u \<and> up_ClientUploadUUID u = up_ClientUploadUUID a) (us @ [a]) \<Longrightarrow> vs \<noteq> [] \<Longrightarrow>
      groupReserved vs (up_ClientUploadUUID a) \<le> n"
    and pos: "0 \<le> n" "\<And>u. u \<in> set us \<Longrightarrow> 0 \<le> up_QuotaBytes u"
  shows "reservedBy P (us @ [a]) [] \<le> reservedBy P us (up_ClientUploadUUID a) + n"
proof -
  let ?g = "up_ClientUploadUUID a"
  let ?vs = "filter (\<lambda>u. P u \<and> up_ClientUploadUUID u \<noteq> []) (us @ [a])" and ?ws = "filter (\<lambda>u. P u \<and> up_ClientUploadUUID u \<noteq> ?g) us"
  let ?A = "up_ClientUploadUUID ` set ?vs" and ?B = "up_ClientUploadUUID ` set ?ws"
  have gr: "groupReserved xs h = groupReserved ys h" if "filter (\<lambda>u. up_ClientUploadUUID u = h) xs = filter (\<lambda>u. up_ClientUploadUUID u = h) ys" for xs ys h
    using that by (simp add: groupReserved_def)
  have same: "groupReserved ?vs h = groupReserved ?ws h" if "h \<in> ?A - {?g}" for h
  proof -
    from that have h: "h \<noteq> []" "h \<noteq> ?g" by (auto simp del: filter_append)
    have "(P u \<and> up_ClientUploadUUID u \<noteq> []) \<and> up_ClientUploadUUID u = h \<longleftrightarrow> (P u \<and> up_ClientUploadUUID u \<noteq> ?g) \<and> up_ClientUploadUUID u = h" for u
      using h by blast
    with h show ?thesis by (intro gr) simp
  qed
  have "sum (groupReserved ?vs) (?A - {?g}) = sum (groupReserved ?ws) (?A - {?g})" by (rule sum.cong [OF refl], rule same)
  also have "\<dots> \<le> sum (groupReserved ?ws) ?B"
    by (rule sum_mono2) (auto simp del: filter_append intro!: groupReserved_nonneg pos(2))
  finally have rest: "sum (groupReserved ?vs) (?A - {?g}) \<le> sum (groupReserved ?ws) ?B" .
  have mine: "groupReserved ?vs ?g \<le> n" if "?g \<in> ?A"
  proof -
    let ?us = "filter (\<lambda>u. P u \<and> up_ClientUploadUUID u = ?g) (us @ [a])"
    from that have ne: "?g \<noteq> []" by (auto simp del: filter_append)
    then have "(P u \<and> up_ClientUploadUUID u \<noteq> []) \<and> up_ClientUploadUUID u = ?g \<longleftrightarrow> (P u \<and> up_ClientUploadUUID u = ?g) \<and> up_ClientUploadUUID u = ?g" for u
      by auto
    with ne have "groupReserved ?vs ?g = groupReserved ?us ?g" by (intro gr) simp
    moreover from that have "?us \<noteq> []" by (auto simp: filter_empty_conv simp del: filter_append)
    ultimately show ?thesis using own [OF refl] by simp
  qed
  have "sum (groupReserved ?vs) ?A \<le> sum (groupReserved ?vs) (?A - {?g}) + n"
  proof (cases "?g \<in> ?A")
    case True
    then have "sum (groupReserved ?vs) ?A = groupReserved ?vs ?g + sum (groupReserved ?vs) (?A - {?g})"
      by (intro sum.remove) simp_all
    then show ?thesis using mine [OF True] by linarith
  next
    case False
    then have "?A - {?g} = ?A" by blast
    then show ?thesis using pos(1) by simp
  qed
  with rest show ?thesis unfolding reservedBy_def Let_def by linarith
qed

section \<open>Guests\<close>

lemma truncates [simp]:
  "sh_MaxFolderSize (share_row.truncate share) = sh_MaxFolderSize share" "sh_UserID (share_row.truncate share) = sh_UserID share"
  "sh_FolderID (share_row.truncate share) = sh_FolderID share"
  "up_UserID (upload_row.truncate s) = up_UserID s" "up_ClientUploadUUID (upload_row.truncate s) = up_ClientUploadUUID s"
  "up_QuotaBytes (upload_row.truncate s) = up_QuotaBytes s" "up_ExpectedSize (upload_row.truncate s) = up_ExpectedSize s"
  "up_Status (upload_row.truncate s) = up_Status s" "up_Deleted (upload_row.truncate s) = up_Deleted s"
  "upload_row.truncate (s\<lparr>us_SessionID := i\<rparr>) = upload_row.truncate s"
  by (simp_all add: share_row.defs upload_row.defs)

lemma libraryOf_added:
  "added s w w' \<Longrightarrow> libraryOf w' = (libraryOf w)\<lparr>lb_uploads := lb_uploads (libraryOf w) @ [upload_row.truncate s]\<rparr>"
  by (simp add: added_def libraryOf_def)

lemma quota_chunks:
  assumes "\<And>x. x \<in> set xs \<Longrightarrow> Q (upload_row.truncate x) \<Longrightarrow> A x \<and> up_QuotaBytes x = (if us_Kind x = KindPartial then us_Size x else 0)"
    and "\<And>x. x \<in> set xs \<Longrightarrow> 0 < us_Size x"
  shows "sum_list (map up_QuotaBytes (filter Q (map upload_row.truncate xs))) \<le> chunkBytes (filter A xs)"
  using assms
proof (induction xs)
  case (Cons x xs)
  then have "sum_list (map up_QuotaBytes (filter Q (map upload_row.truncate xs))) \<le> chunkBytes (filter A xs)" by simp
  then show ?case using Cons.prems(1) [of x] Cons.prems(2) [of x] by (auto simp: chunkBytes_def)
qed (simp add: chunkBytes_def)

lemma activeGroup_filter: "filter (\<lambda>x. x \<in> set (activeGroup u g w)) (uw_sessions w) = activeGroup u g w"
  by (auto simp: activeGroup_def liveSessions_def intro!: filter_cong)

text \<open>The rows of the group that count are of the same video, and only its chunks reserve anything, unless a single upload
  is joined by the final one of another.\<close>

definition joinsChunks :: "session_row \<Rightarrow> upload_world \<Rightarrow> bool" where
  "joinsChunks s w \<longleftrightarrow> (us_Kind s = KindFinal \<longrightarrow>
     (\<forall>p \<in> set (activeGroup (up_UserID s) (up_ClientUploadUUID s) w). us_Kind p \<noteq> KindSingle))"

lemma guest_chunk:
  assumes fits: "fitsShare now cfg share s n w" and user: "up_UserID s = sh_UserID share" and kind: "joinsChunks s w"
    and inv: "upInv w" and x: "x \<in> set (uw_sessions w)" "pendingIn now (share_row.truncate share) (libraryOf w) (upload_row.truncate x)"
      "up_ClientUploadUUID x = up_ClientUploadUUID s"
  shows "x \<in> set (activeGroup (up_UserID s) (up_ClientUploadUUID s) w) \<and> up_ExpectedSize x = n \<and> us_Kind s \<noteq> KindSingle \<and>
    up_QuotaBytes x = (if us_Kind x = KindPartial then us_Size x else 0)"
proof -
  have x': "x \<in> set (activeGroup (up_UserID s) (up_ClientUploadUUID s) w)"
    using x user by (auto simp: activeGroup_def activeUpload_def activeStatuses_def liveSessions_def pendingIn_def)
  have "sessionOK x" using inv x(1) by (simp add: upInv_def)
  with x' fits kind show ?thesis
    by (cases "us_Kind s"; cases "us_Kind x") (auto simp: fitsShare_def Let_def sessionOK_def joinsChunks_def)
qed

lemma guest_group:
  assumes fits: "fitsShare now cfg share s n w" and user: "up_UserID s = sh_UserID share" and kind: "joinsChunks s w"
    and inv: "upInv w" and s: "sessionOK s" and n: "up_ExpectedSize s = n"
    and vs: "vs = filter (\<lambda>u. pendingIn now (share_row.truncate share) (libraryOf w) u \<and> up_ClientUploadUUID u = up_ClientUploadUUID s)
      (lb_uploads (libraryOf w) @ [upload_row.truncate s])" "vs \<noteq> []"
  shows "groupReserved vs (up_ClientUploadUUID s) \<le> n"
proof (rule groupReserved_le [OF vs(2)])
  let ?Q = "\<lambda>u. pendingIn now (share_row.truncate share) (libraryOf w) u \<and> up_ClientUploadUUID u = up_ClientUploadUUID s"
  note chunk = guest_chunk [OF fits user kind inv]
  show "up_ClientUploadUUID u = up_ClientUploadUUID s \<and> up_ExpectedSize u = n" if "u \<in> set vs" for u
  proof -
    from that have "?Q u" "u \<in> set (lb_uploads (libraryOf w)) \<or> u = upload_row.truncate s" by (auto simp: vs(1) simp del: filter_append)
    then show ?thesis using chunk n by (auto simp: libraryOf_def)
  qed
  have pos: "0 < us_Size x" if "x \<in> set (uw_sessions w)" for x using inv that by (simp add: upInv_def sessionOK_def)
  have "sum_list (map up_QuotaBytes (filter ?Q (map upload_row.truncate (uw_sessions w)))) \<le>
      chunkBytes (filter (\<lambda>x. x \<in> set (activeGroup (up_UserID s) (up_ClientUploadUUID s) w)) (uw_sessions w))"
    by (rule quota_chunks) (use chunk pos in auto)
  then have old: "sum_list (map up_QuotaBytes (filter ?Q (lb_uploads (libraryOf w)))) \<le> chunkBytes (activeGroup (up_UserID s) (up_ClientUploadUUID s) w)"
    unfolding activeGroup_filter by (simp add: libraryOf_def)
  have new: "sum_list (map up_QuotaBytes vs) \<le> sum_list (map up_QuotaBytes (filter ?Q (lb_uploads (libraryOf w)))) + up_QuotaBytes s"
    using s by (auto simp: vs(1) sessionOK_def)
  show "sum_list (map up_QuotaBytes vs) \<le> n"
  proof (cases "us_Kind s = KindSingle")
    case True
    have "filter ?Q (lb_uploads (libraryOf w)) = []"
    proof (rule filter_False, rule ballI)
      fix u assume "u \<in> set (lb_uploads (libraryOf w))"
      then obtain x where "x \<in> set (uw_sessions w)" "u = upload_row.truncate x" by (auto simp: libraryOf_def)
      with chunk [of x] True show "\<not> ?Q u" by auto
    qed
    with new fits s True show ?thesis by (simp add: fitsShare_def sessionOK_def)
  next
    case False
    then have "chunkBytes (activeGroup (up_UserID s) (up_ClientUploadUUID s) w) + up_QuotaBytes s \<le> n"
      using fits s by (cases "us_Kind s") (simp_all add: fitsShare_def Let_def sessionOK_def)
    with old new show ?thesis by linarith
  qed
qed

text \<open>What the service has looked at: the capacity without the group of the session, whose sums must not wrap around.\<close>

definition countable :: "time \<Rightarrow> guest_share \<Rightarrow> string \<Rightarrow> upload_world \<Rightarrow> bool" where
  "countable now share g w \<longleftrightarrow> (let c = capacityOf now (share_row.truncate share) g (libraryOf w) in cap_Used c + cap_Reserved c \<le> 2 ^ 63)"

lemma remaining: "cap_Remaining (capacityOf now share x l) =
    max 0 (wrap64 (sh_MaxFolderSize share - cap_Used (capacityOf now share x l) - cap_Reserved (capacityOf now share x l)))"
  by (simp add: capacityOf_def Let_def)

lemma guest_capacity:
  assumes created: "createdOK env cfg c (sh_UserID share) w s w'" and share: "uc_Share c = Some share" and inv: "upInv w"
    and kind: "joinsChunks s w" and limit: "0 < sh_MaxFolderSize share"
    and sums: "countable (ce_now env) share (up_ClientUploadUUID s) w"
  shows "cap_Used (capacityOf (ce_now env) (share_row.truncate share) [] (libraryOf w')) +
    cap_Reserved (capacityOf (ce_now env) (share_row.truncate share) [] (libraryOf w')) \<le> sh_MaxFolderSize share"
proof -
  let ?sh = "share_row.truncate share" and ?l = "libraryOf w" and ?g = "up_ClientUploadUUID s" and ?n = "up_ExpectedSize s"
  let ?P = "pendingIn (ce_now env) ?sh ?l" and ?a = "upload_row.truncate s"
  let ?C = "capacityOf (ce_now env) ?sh ?g ?l"
  from created have fits: "fitsShare (ce_now env) cfg share s ?n w" and new: "added s w w'" and user: "up_UserID s = sh_UserID share"
    and size: "0 < us_Size s" and s: "sessionOK s"
    by (auto simp: createdOK_def guestOK_def share sizesOK_def)
  from fits size have n: "0 < ?n" by (simp add: fitsShare_def)
  have pos: "0 \<le> up_QuotaBytes u" if "u \<in> set (lb_uploads ?l)" for u
    using that inv by (auto simp: libraryOf_def upInv_def sessionOK_def)
  have "reservedBy ?P (lb_uploads ?l @ [?a]) [] \<le> reservedBy ?P (lb_uploads ?l) (up_ClientUploadUUID ?a) + ?n"
    by (rule reservedBy_added) (use guest_group [OF fits user kind inv s refl] n pos in auto)
  moreover have "cap_Used ?C + cap_Reserved ?C + ?n \<le> sh_MaxFolderSize share"
  proof -
    have "?n \<le> wrap64 (sh_MaxFolderSize share - cap_Used ?C - cap_Reserved ?C)"
      using fits limit n by (simp add: fitsShare_def remaining le_max_iff_disj)
    moreover have "- (2 ^ 63) \<le> sh_MaxFolderSize share - cap_Used ?C - cap_Reserved ?C"
      using sums limit by (simp add: countable_def Let_def)
    ultimately show ?thesis using wrap64_le by fastforce
  qed
  moreover have "cap_Used (capacityOf (ce_now env) ?sh [] (libraryOf w')) = cap_Used ?C"
    by (simp add: libraryOf_added [OF new] capacityOf_def Let_def liveLinks_def)
  moreover have "cap_Reserved (capacityOf (ce_now env) ?sh [] (libraryOf w')) = reservedBy ?P (lb_uploads ?l @ [?a]) []"
    unfolding cap_Reserved_eq libraryOf_added [OF new] by (simp add: pendingIn_uploads [abs_def])
  ultimately show ?thesis by (simp add: cap_Reserved_eq)
qed

section \<open>What a guest is told\<close>

lemma find_map_truncate: "find p (map share_row.truncate xs) = map_option share_row.truncate (find (\<lambda>x. p (share_row.truncate x)) xs)"
  by (induction xs) auto

text \<open>A live share with the token that lets this guest in.\<close>

definition opensTo :: "time \<Rightarrow> bool \<Rightarrow> string \<Rightarrow> guest_share \<Rightarrow> upload_world \<Rightarrow> bool" where
  "opensTo now unlocked token share w \<longleftrightarrow> share \<in> set (uw_shares w) \<and> sh_Token share = token \<and> \<not> sh_Deleted share \<and>
     (\<forall>t. sh_ExpiresAt share = Some t \<longrightarrow> now < t) \<and> gs_AllowUpload share \<and> (gs_Locked share \<longrightarrow> unlocked)"

lemma wp_catch_any: "wp m Q d \<Longrightarrow> (\<And>e d. wp (h e) Q d) \<Longrightarrow> wp (tx_catch m h) Q d"
  by (fastforce simp: wp_def tx_catch_def split: sum.splits prod.splits)

lemma wp_peek [tx_wp]: "Q (f d) d \<Longrightarrow> wp (tx_peek f) Q d"
  by (simp add: wp_def tx_peek_def)

lemma wp_sharedUploadContext:
  "wp (sharedUploadContext now cfg b token) (\<lambda>c w'. w' = w \<and>
     (\<exists>share. opensTo now b token share w \<and> c = \<lparr>uc_UserID = Some (sh_UserID share), uc_Share = Some share\<rparr>)) w"
  unfolding sharedUploadContext_def
  by (rule wp_bind, rule wp_inLibrary_reads [OF reads_Resolve], rule wp_bind, rule wp_peek)
    (auto intro!: wp_bind wp_refuse wp_return wp_fail split: option.split simp: opensTo_def libraryOf_def find_map_truncate
       share_row.defs dest: find_key_SomeD)

definition toldLink :: "guest_share \<Rightarrow> session_row \<Rightarrow> upload_world \<Rightarrow> string \<Rightarrow> bool" where
  "toldLink share s w url \<longleftrightarrow> (\<exists>l \<in> set (liveLinks (uw_lib w)). ln_ID l = us_LinkID s \<and> ln_UserID l = sh_UserID share \<and>
     url = ''/v/'' @ ln_UUID l \<and> (\<exists>m<256. levelsBelow (libraryOf w) (sh_FolderID share) m (ln_ParentFolderID l)))"

lemma wp_sharedLink: "wp (sharedLink share s) (\<lambda>r w'. w' = w \<and> (\<exists>url. r = SharedReady url \<and> toldLink share s w url)) w"
  unfolding sharedLink_def
  by (rule wp_bind, rule wp_orStatus, rule wp_first, rule wp_bind, rule wp_inLibrary_reads [OF reads_inside], rule wp_return)
    (auto simp: toldLink_def dest!: find_key_SomeD)

definition told :: "time \<Rightarrow> bool \<Rightarrow> string \<Rightarrow> string \<Rightarrow> upload_world \<Rightarrow> shared_result \<Rightarrow> bool" where
  "told now b token i w r \<longleftrightarrow> (\<exists>share s. opensTo now b token share w \<and> ReturnsUploadLink share \<and>
     s \<in> set (uw_sessions w) \<and> us_TusID s = i \<and> up_UserID s = sh_UserID share \<and> us_FolderShareID s = gs_ID share \<and>
     us_FolderShareVersion s = gs_AccessVersion share \<and> us_Kind s \<noteq> KindPartial \<and>
     (case r of SharedFailed \<Rightarrow> up_Status s = UploadFailed | SharedProcessing \<Rightarrow> up_Status s \<notin> {UploadFailed, UploadDone, UploadCanceled, UploadExpired}
      | SharedReady url \<Rightarrow> up_Status s = UploadDone \<and> toldLink share s w url))"

lemma wp_authorized:
  "wp (authorizeSharedSession c s) (\<lambda>_ w'. w' = w \<and> (\<forall>share. uc_Share c = Some share \<longrightarrow> sharesSession (Some share) s)) w"
  unfolding authorizeSharedSession_def
  by (cases "uc_Share c") (auto intro!: wp_return wp_refused wp_mono [OF wp_validateSharedDestination])

lemma wp_told:
  "wp (SharedUploadStatus now cfg b token i) (\<lambda>r w'. w' = w \<and> told now b token i w r) w"
proof -
  have rest: "wp (tx_bind (authorizeSharedSession c s) (\<lambda>_. tx_bind (refuse (us_Kind s = KindPartial) c1 n1) (\<lambda>_.
       tx_bind (refuse (isExpired now s \<or> up_Status s = UploadCanceled \<or> up_Status s = UploadExpired) c2 n2) (\<lambda>_.
       if up_Status s = UploadFailed then tx_return SharedFailed
       else if up_Status s \<noteq> UploadDone then tx_return SharedProcessing
       else sharedLink share s)))) (\<lambda>r w'. w' = w \<and> told now b token i w r) w"
    if "opensTo now b token share w" "ReturnsUploadLink share" "s \<in> set (uw_sessions w)" "us_TusID s = i" "up_UserID s = sh_UserID share"
      "uc_Share c = Some share" for share s c c1 n1 c2 n2
    by (rule wp_check [OF wp_authorized], rule wp_refused, rule wp_refused, rule wp_if, rule wp_return)
      (use that in \<open>auto intro!: wp_if wp_return wp_mono [OF wp_sharedLink] simp: told_def sharesSession_def split: shared_result.splits\<close>)
  show ?thesis unfolding SharedUploadStatus_def
    by (rule wp_bind, rule wp_mono [OF wp_sharedUploadContext], clarsimp, rule wp_refused, rule wp_bind, rule wp_catch_any,
        rule wp_first, rule rest)
      (auto intro!: wp_fail wp_if dest: find_key_SomeD)
qed

end
