(* ===== verification/UpFinish.thy ===== *)
theory UpFinish
  imports UpQuota
begin

text \<open>What a finalization leaves behind when it succeeds: a live link, and the whole group of the upload done
  and pointing to it.\<close>

section \<open>The link\<close>

lemma liveLinks_put: "set (liveLinks (uw_lib w)) \<subseteq> set (liveLinks (uw_lib (putLibrary (insertLink l (libraryOf w)) w)))"
  by (auto simp: liveLinks_def putLibrary_def insertLink_def libraryOf_def)

interpretation living: kept_by_import "\<lambda>w. l \<in> set (liveLinks (uw_lib w))" for l
proof
  show "l \<in> set (liveLinks (uw_lib (putLibrary (insertLink k (libraryOf w)) w)))" if "l \<in> set (liveLinks (uw_lib w))" for w k
    using that liveLinks_put by blast
qed (simp_all add: updateSessions_def)

interpretation identities: kept_by_import "\<lambda>w. map sessionIdentity (uw_sessions w) = K" for K
proof
  show "map sessionIdentity (uw_sessions (updateSessions p f w)) = K"
    if "map sessionIdentity (uw_sessions w) = K" "\<And>u. sessionIdentity (f u) = sessionIdentity u" for w f p
    using that by (simp add: updateSessions_def map_update_where)
qed (simp_all add: putLibrary_def)

lemma wp_insertNewLink_live:
  assumes "\<not> ln_Deleted l"
  shows "wp (insertNewLink l) (\<lambda>l' w'. l' \<in> set (liveLinks (uw_lib w'))) w"
proof -
  let ?i = "lb_nextLink (uw_lib w)"
  have "ends (createLink l) (\<lambda>r lib. \<forall>x. r = Inr x \<longrightarrow> l\<lparr>ln_ID := ?i\<rparr> \<in> set (liveLinks (uw_lib (putLibrary lib w)))) (libraryOf w)"
    unfolding createLink_def
    by (rule ends_stmt) (use assms in \<open>auto simp: insertLink_def putLibrary_def libraryOf_def liveLinks_def split: if_splits\<close>)
  then have "wp (inLibrary (answered 500) (createLink l)) (\<lambda>_ w'. l\<lparr>ln_ID := ?i\<rparr> \<in> set (liveLinks (uw_lib w'))) w"
    unfolding ends_wp [symmetric] by (intro ends_inLibrary) (auto elim!: ends_mono split: sum.splits)
  then show ?thesis unfolding insertNewLink_def
    by (auto intro!: wp_bind wp_return simp: tx_peek_def wp_def tx_bind_def tx_return_def split: sum.splits prod.splits)
qed

lemma wp_both: "wp m P d \<Longrightarrow> wp m Q d \<Longrightarrow> wp m (\<lambda>x d'. P x d' \<and> Q x d') d"
  by (auto simp: wp_def)

lemma wp_any: "(\<And>w. wp m Q w) \<Longrightarrow> wp (tx_bind k (\<lambda>_. m)) Q w"
  by (rule wp_bind) (simp add: wp_def)

lemma wp_anyx: "(\<And>x w. wp (m x) Q w) \<Longrightarrow> wp (tx_bind k m) Q w"
  by (rule wp_bind) (simp add: wp_def)

lemma wp_onError [tx_wp]: "wp m Q d \<Longrightarrow> wp (tx_onError m h) Q d"
  by (auto simp: wp_def tx_onError_def tx_catch_def tx_bind_def tx_fail_def split: sum.splits prod.splits)

lemma wp_try_result: "wp m Q w \<Longrightarrow> wp (tx_try m) (\<lambda>r w'. \<forall>x. r = Inr x \<longrightarrow> Q x w') w"
  by (auto simp: wp_def tx_try_def split: prod.splits)

lemma newLink_live [simp]: "\<not> ln_Deleted (newLink env f n u g i)"
  by (simp add: newLink_def)

lemma wp_CloneFileByHash_live: "wp (CloneFileByHash env h f n u g) (\<lambda>l w'. l \<in> set (liveLinks (uw_lib w'))) w"
  unfolding CloneFileByHash_def
  by (rule wp_any, rule wp_anyx, rule wp_any, rule wp_anyx, split option.split, intro conjI allI impI wp_fail,
      rule wp_any, rule wp_answer, rule wp_transaction, rule wp_any, rule wp_insertNewLink_live, simp)

lemma wp_insertFileAndLink_live: "wp (insertFileAndLink env f n u g v) (\<lambda>l w'. l \<in> set (liveLinks (uw_lib w'))) w"
  unfolding insertFileAndLink_def
  by (rule wp_answer, rule wp_transaction, rule wp_any, rule wp_anyx, rule wp_insertNewLink_live, simp)

lemma wp_storeNewVideo_live: "wp (storeNewVideo env p f n i s u g b) (\<lambda>l w'. l \<in> set (liveLinks (uw_lib w'))) w"
  unfolding storeNewVideo_def
  by (split option.split, intro conjI allI impI wp_fail, rule wp_anyx, split sum.split, intro conjI allI impI wp_fail, rule wp_any,
      rule wp_bind, rule wp_onError, rule wp_mono [OF wp_insertFileAndLink_live], rule wp_bind, rule wp_mono,
      rule always_wp [OF always_foreach], rule living.always_imports(1), assumption, rule wp_bind, rule wp_mono,
      rule always_wp [OF living.always_imports(4)], assumption, rule wp_return)

lemma wp_existingResult_live: "wp (existingResult u g) (\<lambda>r w'. \<forall>l. r = Some l \<longrightarrow> l \<in> set (liveLinks (uw_lib w'))) w"
  unfolding existingResult_def
  by (rule wp_if, rule wp_return, simp, rule wp_catch_any, rule wp_transaction, rule wp_bind, rule wp_first, rule wp_refused,
      rule wp_check [OF wp_checked(5)], rule wp_return, force dest: find_key_SomeD,
      auto intro!: wp_fail wp_return split: txerr.split)

lemma wp_CreateFileContext_live: "wp (CreateFileContext env p f n i s u g) (\<lambda>r w'. fst r \<in> set (liveLinks (uw_lib w'))) w"
proof -
  have store: "wp (tx_bind (storeNewVideo env q f n i s u g b) (\<lambda>l. tx_return (l, False))) (\<lambda>r w'. fst r \<in> set (liveLinks (uw_lib w'))) w1" for q b w1
    by (rule wp_bind, rule wp_mono [OF wp_storeNewVideo_live], rule wp_return, simp)
  have clone: "wp (tx_try (CloneFileByHash env h f n u g)) (\<lambda>r w'. \<forall>x. r = Inr x \<longrightarrow> x \<in> set (liveLinks (uw_lib w'))) w1" for h w1
    by (rule wp_try_result, rule wp_CloneFileByHash_live)
  show ?thesis unfolding CreateFileContext_def
    by (rule wp_bind, rule wp_mono [OF wp_existingResult_live], split option.split, intro conjI allI impI, rule wp_any, rule wp_anyx,
        rule wp_bind, rule wp_mono [OF clone], split sum.split, intro conjI allI impI)
      (auto intro!: wp_return wp_fail wp_if wp_any wp_anyx store split: txerr.split upload_error.split)
qed

section \<open>The group\<close>

definition finished :: "session_row \<Rightarrow> link_row \<Rightarrow> upload_world \<Rightarrow> bool" where
  "finished s l w \<longleftrightarrow> (\<forall>u \<in> set (uw_sessions w). inGroup (up_ClientUploadUUID s) (up_UserID s) u \<longrightarrow>
     up_Status u = UploadDone \<and> up_Deleted u \<and> us_LinkID u = ln_ID l \<and> us_FileID u = ln_FileID l)"

lemma always_removeGroup: "always (finished s l) (removeTusFilesForGroup g u)"
proof -
  have local: "always (finished s l) (removeLocal p)" for p
    unfolding removeLocal_def by (intro tx_always) (simp add: finished_def)
  have "always (finished s l) (removeGroupFiles ss)" for ss
    by (induction ss) (auto intro!: tx_always local)
  then show ?thesis unfolding removeTusFilesForGroup_def by (intro tx_always)
qed

lemma wp_completeFinalize: "wp (completeFinalize s l) (\<lambda>_. finished s l) w"
proof -
  let ?p = "inGroup (up_ClientUploadUUID s) (up_UserID s)"
  have "finished s l (updateSessions (\<lambda>u. ?p u \<and> \<not> up_Deleted u) (\<lambda>u. u\<lparr>up_Deleted := True\<rparr>) (updateSessions ?p (finishedRow l) w1))" for w1
    by (auto simp: finished_def updateSessions_def set_update_where finishedRow_def inGroup_def)
  then show ?thesis unfolding completeFinalize_def Let_def
    by (intro wp_bind wp_transaction wp_update) (auto intro: always_wp [OF always_removeGroup])
qed

lemma wp_complete:
  assumes "l \<in> set (liveLinks (uw_lib w))"
  shows "wp (tx_bind (orStatus 500 (completeFinalize s l)) (\<lambda>_. tx_return l)) (\<lambda>l w'. l \<in> set (liveLinks (uw_lib w')) \<and> finished s l w') w"
  by (rule wp_bind, rule wp_orStatus, rule wp_mono [OF wp_both [OF always_wp [OF living.always_completeFinalize assms] wp_completeFinalize]],
      rule wp_return)

lemma wp_importFile: "wp (importFile env s p) (\<lambda>l w'. l \<in> set (liveLinks (uw_lib w')) \<and> finished s l w') w"
proof -
  have rest: "wp (tx_bind (if cloned then tx_ignore (removeLocal q) else tx_return ()) (\<lambda>_. tx_bind (orStatus 500 (completeFinalize s l)) (\<lambda>_. tx_return l)))
      (\<lambda>l w'. l \<in> set (liveLinks (uw_lib w')) \<and> finished s l w') w1" if "l \<in> set (liveLinks (uw_lib w1))" for l q cloned w1
  proof -
    have "always (\<lambda>w. l \<in> set (liveLinks (uw_lib w))) (if cloned then tx_ignore (removeLocal q) else tx_return ())"
      by (intro tx_always living.always_removeLocal)
    from always_wp [OF this that] show ?thesis
      by (intro wp_bind, elim wp_mono) (rule wp_complete)
  qed
  show ?thesis unfolding importFile_def Let_def withFail_def
    by (rule wp_any, rule wp_any, rule wp_any, rule wp_bind, rule wp_onError, rule wp_mono [OF wp_CreateFileContext_live], split prod.split,
        intro allI impI, rule rest, simp)
qed

lemma wp_findFinalizedUpload: "wp (findFinalizedUpload i u) (\<lambda>r w'. w' = w \<and> (\<forall>l. r = Some l \<longrightarrow> l \<in> set (liveLinks (uw_lib w)))) w"
proof -
  have same: "wp (findFinalizedUpload i u) (\<lambda>_ w'. w' = w) w" by (rule unchanged) (rule always_findFinalizedUpload)
  have "wp (findFinalizedUpload i u) (\<lambda>r w'. \<forall>l. r = Some l \<longrightarrow> l \<in> set (liveLinks (uw_lib w'))) w"
    unfolding findFinalizedUpload_def
    by (rule wp_anyx, split sum.split, intro conjI allI impI)
      (auto intro!: wp_if wp_return wp_fail wp_bind wp_mono [OF wp_try_result [OF wp_first]] split: sum.split dest!: find_key_SomeD)
  then show ?thesis by (rule wp_mono [OF wp_both [OF same]]) auto
qed

lemma find_identity:
  assumes "map sessionIdentity xs = map sessionIdentity ys" "find (\<lambda>v. us_TusID v = i) ys = Some s"
  shows "\<exists>v. find (\<lambda>v. us_TusID v = i) xs = Some v \<and> sessionIdentity v = sessionIdentity s"
  using assms
proof (induction ys arbitrary: xs)
  case (Cons y ys)
  then obtain x xs' where xs: "xs = x # xs'" "sessionIdentity x = sessionIdentity y" "map sessionIdentity xs' = map sessionIdentity ys" by (cases xs) auto
  with Cons show ?case by (auto simp: sessionIdentity_def split: if_splits)
qed simp

section \<open>The result\<close>

text \<open>Either the session had its link before, or its group is finished with the link.\<close>

definition finalized :: "string \<Rightarrow> nat \<Rightarrow> upload_world \<Rightarrow> link_row \<Rightarrow> upload_world \<Rightarrow> bool" where
  "finalized i u w l w' \<longleftrightarrow> (\<exists>s. find (\<lambda>v. us_TusID v = i) (uw_sessions w) = Some s \<and> up_UserID s = u \<and> us_Kind s \<noteq> KindPartial \<and>
     (if 0 < us_LinkID s then w' = w \<and> linkById (us_LinkID s) (uw_lib w) = Some l
      else l \<in> set (liveLinks (uw_lib w')) \<and> finished s l w'))"

lemma wp_finalizeContext: "wp (finalizeContext env r i u) (finalized i u w) w"
proof -
  have import': "wp (importUpload env r s) (\<lambda>l w'. l \<in> set (liveLinks (uw_lib w')) \<and> finished s l w') w" for s
    unfolding importUpload_def Let_def by (rule wp_anyx, rule wp_anyx, rule wp_any, rule wp_any, rule wp_importFile)
  have main: "wp (if 0 < us_LinkID s then orStatus 500 (tx_first (\<lambda>w. linkById (us_LinkID s) (uw_lib w)))
     else tx_bind (orStatus 500 (findFinalizedUpload (finalFileUUID env s) u)) (\<lambda>found.
       case found of Some l \<Rightarrow> tx_bind (orStatus 500 (completeFinalize s l)) (\<lambda>_. tx_return l)
       | None \<Rightarrow> if isExpired (ie_now env) s
           then tx_bind (tx_ignore (expireSession (ie_now env) s)) (\<lambda>_. tx_fail (App (UploadRejected 410 ''upload expired'')))
           else importUpload env r s)) (finalized i u w) w"
    if s: "find (\<lambda>v. us_TusID v = i) (uw_sessions w) = Some s" "up_UserID s = u" "us_Kind s \<noteq> KindPartial" for s
  proof (cases "0 < us_LinkID s")
    case True
    then show ?thesis using s by (auto intro!: wp_orStatus wp_first simp: finalized_def)
  next
    case False
    have found: "finalized i u w l w'" if "l \<in> set (liveLinks (uw_lib w')) \<and> finished s l w'" for l w'
      using that s False by (simp add: finalized_def)
    show ?thesis unfolding if_not_P [OF False]
      by (rule wp_bind, rule wp_orStatus, rule wp_mono [OF wp_findFinalizedUpload], split option.split,
          intro conjI allI impI)
        (auto intro!: wp_mono [OF wp_complete found] wp_mono [OF import' found] wp_if wp_any [of "tx_fail e" for e] wp_fail)
  qed
  show ?thesis unfolding finalizeContext_def
    by (rule wp_bind, rule wp_catch_any, rule wp_first, rule wp_refused, rule wp_refused, rule main) (auto intro!: wp_fail wp_if)
qed

end
