(* ===== verification/UpClaims.thy ===== *)
theory UpClaims
  imports UpQuota UpFinish
begin

text \<open>The properties of resumable uploads, on an installation: one account with a folder that a share opens to
  guests, and a video that was uploaded before. A guest opens the first of two chunks; the owner uploads the same
  video again.\<close>

definition emptyLibrary :: library where
  "emptyLibrary = \<lparr>lb_users = [], lb_files = [], lb_folders = [], lb_links = [], lb_shares = [], lb_uploads = [],
     lb_nextFolder = 1, lb_nextLink = 1, lb_active = [], lb_block = False\<rparr>"

definition uploadDemo0 :: upload_world where
  "uploadDemo0 = \<lparr>uw_lib = emptyLibrary, uw_users = [\<lparr>us_ID = 1, us_Deleted = False, ua_Storage = 100, ua_UploadSessionsMax = 5\<rparr>],
     uw_shares = [], uw_files = [\<lparr>mf_ID = 1, mf_Size = 4, mf_Deleted = False, vf_UUID = ''old'', vf_Hash = ''film'', vf_StorageID = ''m'',
       vf_SourceKey = ''old'', vf_Available = True, vf_UserID = 2, vf_Path = []\<rparr>],
     uw_sessions = [], uw_parts = [], uw_logs = [], uw_tracks = [], uw_disk = Map.empty, uw_media = Map.empty,
     uw_nextSession = 1, uw_nextFile = 2\<rparr>"

definition demoLibrary :: library where
  "demoLibrary = fst (snd (CreateFolder ''inbox'' 0 1 (emptyLibrary, [])))"

definition uploadDemo1 :: upload_world where
  "uploadDemo1 = uploadDemo0\<lparr>uw_lib := demoLibrary\<rparr>"

definition uploadDemoConfig :: upload_config where
  "uploadDemoConfig = \<lparr>cf_UploadEnabled = True, cf_MaxUploadFilesize = 50, cf_MaxUploadSessions = 5\<rparr>"

definition uploadDemoEnv :: create_env where
  "uploadDemoEnv = \<lparr>ce_now = 0, ce_newGroup = ''g'', ce_newTusID = ''t'', ce_validUUID = (\<lambda>g. g \<noteq> [])\<rparr>"

definition upDemoShare :: guest_share where
  "upDemoShare = \<lparr>sh_Token = ''token'', sh_UserID = 1, sh_FolderID = 1, sh_MaxFolderSize = 20, sh_ExpiresAt = None, sh_Deleted = False,
     gs_ID = 3, gs_AllowRead = False, gs_AllowUpload = True, gs_MaxVideoSize = 10, gs_ReturnUploadLink = None, gs_Locked = False, gs_AccessVersion = ''v''\<rparr>"

definition demoGuest :: upload_caller where
  "demoGuest = \<lparr>uc_UserID = Some 1, uc_Share = Some upDemoShare\<rparr>"

definition demoChunk :: upload_info where
  "demoChunk = \<lparr>ui_Size = 6, ui_MetaData = [''filename'' \<mapsto> ''a.mp4'', ''parent_folder_id'' \<mapsto> ''1'', ''file_size'' \<mapsto> ''10''],
     ui_IsPartial = True, ui_IsFinal = False, ui_PartialUploads = []\<rparr>"

lemma demo1_reached: "upInit uploadDemo0" "up_step\<^sup>*\<^sup>* uploadDemo0 uploadDemo1"
proof -
  show "upInit uploadDemo0" by (simp add: upInit_def libInit_def uploadDemo0_def emptyLibrary_def)
  obtain r fs where "CreateFolder ''inbox'' 0 1 (emptyLibrary, []) = (r, demoLibrary, fs)"
    by (cases "CreateFolder ''inbox'' 0 1 (emptyLibrary, [])") (auto simp: demoLibrary_def)
  then have "lib_step emptyLibrary demoLibrary" by (rule lib_step.Create)
  then have "up_step uploadDemo0 uploadDemo1"
    unfolding uploadDemo1_def by (intro up_step.Library) (simp add: uploadDemo0_def)
  then show "up_step\<^sup>*\<^sup>* uploadDemo0 uploadDemo1" by blast
qed

lemma demoChunk_created:
  obtains s w' fs' where "preUploadCreate uploadDemoEnv uploadDemoConfig demoGuest demoChunk (uploadDemo1, []) = (Inr s, w', fs')"
    "us_Kind s = KindPartial" "up_UserID s = 1" "up_ExpectedSize s = 10" "up_ClientUploadUUID s = ''g''"
    "usedStorage 1 w' + pendingStorage 1 [] w' = 6"
proof -
  have "(case preUploadCreate uploadDemoEnv uploadDemoConfig demoGuest demoChunk (uploadDemo1, []) of
      (Inr s, w', _) \<Rightarrow> us_Kind s = KindPartial \<and> up_UserID s = 1 \<and> up_ExpectedSize s = 10 \<and> up_ClientUploadUUID s = ''g'' \<and>
        usedStorage 1 w' + pendingStorage 1 [] w' = 6 | _ \<Rightarrow> False)"
    by code_simp
  then show thesis using that by (auto split: prod.splits sum.splits)
qed

text \<open>The owner's upload of the same bytes, complete on the local disk.\<close>

definition demoOwner :: upload_caller where
  "demoOwner = \<lparr>uc_UserID = Some 1, uc_Share = None\<rparr>"

definition upDemoFile :: upload_info where
  "upDemoFile = demoChunk\<lparr>ui_Size := 4, ui_IsPartial := False\<rparr>"

definition uploadDemo2 :: upload_world where
  "uploadDemo2 = fst (snd (preUploadCreate uploadDemoEnv uploadDemoConfig demoOwner upDemoFile (uploadDemo1, [])))"

definition uploadDemo3 :: upload_world where
  "uploadDemo3 = uploadDemo2\<lparr>uw_disk := [''up/tus/t'' \<mapsto> ''film'']\<rparr>"

definition upDemoEvent :: tus_event where
  "upDemoEvent = \<lparr>te_ID = ''t'', te_Offset = 4, te_Path = ''up/tus/t'', te_InfoPath = ''up/tus/t.info''\<rparr>"

definition uploadDemo4 :: upload_world where
  "uploadDemo4 = fst (snd (completeSessionFromEvent upDemoEvent (uploadDemo3, [])))"

lemma demo4_reached: "up_step\<^sup>*\<^sup>* uploadDemo0 uploadDemo4"
proof -
  obtain r fs where "preUploadCreate uploadDemoEnv uploadDemoConfig demoOwner upDemoFile (uploadDemo1, []) = (r, uploadDemo2, fs)"
    by (cases "preUploadCreate uploadDemoEnv uploadDemoConfig demoOwner upDemoFile (uploadDemo1, [])") (auto simp: uploadDemo2_def)
  then have "up_step uploadDemo1 uploadDemo2" by (rule up_step.Open)
  moreover have "up_step uploadDemo2 uploadDemo3" by (rule up_step.Elsewhere) (simp_all add: uploadDemo3_def)
  moreover obtain r fs where "completeSessionFromEvent upDemoEvent (uploadDemo3, []) = (r, uploadDemo4, fs)"
    by (cases "completeSessionFromEvent upDemoEvent (uploadDemo3, [])") (auto simp: uploadDemo4_def)
  then have "up_step uploadDemo3 uploadDemo4" by (rule up_step.Complete)
  ultimately show ?thesis using demo1_reached(2) by (meson rtranclp.rtrancl_into_rtrancl)
qed

definition demoImport :: import_env where
  "demoImport = \<lparr>ie_now = 1, ie_sha = (\<lambda>b. b), ie_uuid5 = (\<lambda>n. ''f-'' @ n),
     ie_probe = (\<lambda>b. Some \<lparr>pd_Duration = second, pd_Streams = [\<lparr>ps_CodecType = ''video'', ps_Width = 100, ps_Height = 100, ps_FrameRate = 25\<rparr>]\<rparr>),
     ie_storeKnown = (\<lambda>m. True), ie_placed = ''m'', ie_qualities = [\<lparr>qo_Name = ''low'', qo_Type = ''hls'', qo_Width = 64, qo_Height = 64, qo_Enabled = True\<rparr>],
     ie_linkUUID = ''link'', ie_uploadDir = ''up'', ie_commit = True\<rparr>"

definition importAnew :: import_env where
  "importAnew = demoImport\<lparr>ie_storeKnown := (\<lambda>_. False)\<rparr>"

lemma splitSlash_code [code]:
  "splitSlash [] = [[]]"
  "splitSlash (c # s) = (case splitSlash s of [] \<Rightarrow> [[]] | x # xs \<Rightarrow> if c = CHR ''/'' then [] # x # xs else (c # x) # xs)"
proof -
  have "splitSlash s \<noteq> []" by (induction s) auto
  then show "splitSlash (c # s) = (case splitSlash s of [] \<Rightarrow> [[]] | x # xs \<Rightarrow> if c = CHR ''/'' then [] # x # xs else (c # x) # xs)"
    by (cases "splitSlash s") auto
qed simp

section \<open>Opening a session\<close>

text \<open>C13: After any sequence of uploads, expiries, finalizations and changes of the library, a
  session a guest of a share opens, the opening taken as one step, lies in the shared subtree
  (in the shared folder itself when the share may not be read), has a supported video name and
  no more than the declared size, which the share allows; a final upload is exactly as long as
  the chunks of its group. If the share limits the folder, then with the session counted in the
  videos in the subtree and the uploads under way do not exceed that limit, under two
  conditions: a final upload joins a group in which no single upload is under way, and the bytes
  the check counted before (used and reserved, without the group) do not exceed 2^63, where the
  64-bit subtraction of the code would wrap around.\<close>

theorem guest_upload_fits:
  assumes "upInit w0" and "up_step\<^sup>*\<^sup>* w0 w" and "uc_Share c = Some share" and "uc_UserID c = Some (sh_UserID share)"
    and "preUploadCreate env cfg c info (w, fs) = (Inr s, w', fs')"
  shows "(\<exists>m. m < 256 \<and> levelsBelow (libraryOf w') (sh_FolderID share) m (up_ParentFolderID s)) \<and>
    (gs_AllowRead share \<or> up_ParentFolderID s = sh_FolderID share) \<and> validSharedFilename (us_Name s) \<and>
    us_Size s \<le> up_ExpectedSize s \<and> (0 < gs_MaxVideoSize share \<longrightarrow> up_ExpectedSize s \<le> gs_MaxVideoSize share) \<and>
    (us_Kind s = KindFinal \<longrightarrow> up_ExpectedSize s = us_Size s \<and>
       chunkBytes (activeGroup (sh_UserID share) (up_ClientUploadUUID s) w) = us_Size s) \<and>
    (0 < sh_MaxFolderSize share \<and> joinsChunks s w \<and> countable (ce_now env) share (up_ClientUploadUUID s) w \<longrightarrow>
       cap_Used (capacityOf (ce_now env) (share_row.truncate share) [] (libraryOf w')) +
       cap_Reserved (capacityOf (ce_now env) (share_row.truncate share) [] (libraryOf w')) \<le> sh_MaxFolderSize share)"
proof -
  have created: "createdOK env cfg c (sh_UserID share) w s w'" using wpD [OF wp_preUploadCreate [OF assms(4)] assms(5)] .
  then have guest: "fitsShare (ce_now env) cfg share s (up_ExpectedSize s) w" "insideShare share w (up_ParentFolderID s)"
    "validSharedFilename (us_Name s)" "added s w w'" "up_UserID s = sh_UserID share"
    by (simp_all add: createdOK_def guestOK_def assms(3))
  have same: "levelsBelow (libraryOf w') a m i = levelsBelow (libraryOf w) a m i" for a m i
    unfolding libraryOf_added [OF guest(4)] by (induction m arbitrary: i) (simp_all add: isFolder_def)
  show ?thesis
    using guest guest_capacity [OF created assms(3) uploads.reachable_inv [OF assms(1,2)]]
    by (auto simp: same insideShare_def fitsShare_def Let_def)
qed

theorem guest_upload_fits_witness:
  "\<exists>s w' fs'. preUploadCreate uploadDemoEnv uploadDemoConfig demoGuest demoChunk (uploadDemo1, []) = (Inr s, w', fs') \<and>
     cap_Used (capacityOf 0 (share_row.truncate upDemoShare) [] (libraryOf w')) +
     cap_Reserved (capacityOf 0 (share_row.truncate upDemoShare) [] (libraryOf w')) \<le> 20"
proof -
  obtain s w' fs' where run: "preUploadCreate uploadDemoEnv uploadDemoConfig demoGuest demoChunk (uploadDemo1, []) = (Inr s, w', fs')"
    and s: "us_Kind s = KindPartial" "up_UserID s = 1" "up_ExpectedSize s = 10" "up_ClientUploadUUID s = ''g''" by (rule demoChunk_created)
  have "countable (ce_now uploadDemoEnv) upDemoShare ''g'' uploadDemo1" by code_simp
  moreover have "joinsChunks s uploadDemo1" by (simp add: joinsChunks_def s)
  moreover have "ce_now uploadDemoEnv = 0" "sh_MaxFolderSize upDemoShare = 20" by (simp_all add: uploadDemoEnv_def upDemoShare_def)
  moreover have guest: "uc_Share demoGuest = Some upDemoShare" "uc_UserID demoGuest = Some (sh_UserID upDemoShare)"
    by (simp_all add: demoGuest_def upDemoShare_def)
  ultimately show ?thesis using guest_upload_fits [OF demo1_reached guest run] s run by auto
qed

text \<open>C12: When a session of a resumable upload is opened, the opening taken as one step and
  whatever statements fail on the way, its size is positive and within the configured limit.
  Unless it is a final upload, which only joins chunks and reserves nothing, the account exists,
  and if it has a limit, the files it links to and all its sessions under way, the new one
  included, fit its storage as long as their true sum is below 2^63; the chunks of a group
  together stay within the configured limit under the same condition. Beyond it the sums of the
  code wrap around (see the findings).\<close>

theorem upload_within_quota:
  assumes "uc_UserID c = Some u" and "preUploadCreate env cfg c info (w, fs) = (Inr s, w', fs')"
  shows "up_UserID s = u \<and> 0 < us_Size s \<and>
    (us_Kind s \<noteq> KindFinal \<longrightarrow> (\<exists>user. userById u w' = Some user \<and>
       (ua_Storage user \<noteq> 0 \<and> usedStorage u w' + pendingStorage u [] w' < 2 ^ 63 \<longrightarrow>
          usedStorage u w' + pendingStorage u [] w' \<le> ua_Storage user))) \<and>
    (0 < cf_MaxUploadFilesize cfg \<longrightarrow> us_Size s \<le> cf_MaxUploadFilesize cfg \<and>
       (us_Kind s = KindPartial \<and> chunkBytes (activeGroup u (up_ClientUploadUUID s) w') < 2 ^ 63 \<longrightarrow>
          chunkBytes (activeGroup u (up_ClientUploadUUID s) w') \<le> cf_MaxUploadFilesize cfg))"
proof -
  have "createdOK env cfg c u w s w'" using wpD [OF wp_preUploadCreate [OF assms(1)] assms(2)] .
  then have s: "added s w w'" "sizesOK cfg s w" "up_UserID s = u" "\<not> up_Deleted s" "up_Status s = UploadCreated" "sessionOK s"
    by (simp_all add: createdOK_def)
  have "pendingStorage u [] w' = pendingStorage u [] w + up_QuotaBytes s" by (rule pendingStorage_added) fact+
  moreover have "chunkBytes (activeGroup u (up_ClientUploadUUID s) w') =
      chunkBytes (activeGroup u (up_ClientUploadUUID s) w) + (if us_Kind s = KindPartial then us_Size s else 0)"
    using activeGroup_added [OF s(1,4,3,5)] by (simp add: chunkBytes_def)
  moreover have "usedStorage u w' = usedStorage u w" "userById u w' = userById u w" by (rule used_added [OF s(1)])+
  ultimately show ?thesis using s(2,3,6) by (auto simp: sizesOK_def withinQuota_def withinLimit_def sessionOK_def)
qed

theorem upload_within_quota_witness:
  "\<exists>s w' fs' user. preUploadCreate uploadDemoEnv uploadDemoConfig demoGuest demoChunk (uploadDemo1, []) = (Inr s, w', fs') \<and>
     userById 1 w' = Some user \<and> (ua_Storage user \<noteq> 0 \<longrightarrow> usedStorage 1 w' + pendingStorage 1 [] w' \<le> ua_Storage user)"
proof -
  obtain s w' fs' where run: "preUploadCreate uploadDemoEnv uploadDemoConfig demoGuest demoChunk (uploadDemo1, []) = (Inr s, w', fs')"
    and s: "us_Kind s = KindPartial" "usedStorage 1 w' + pendingStorage 1 [] w' = 6" by (rule demoChunk_created)
  have "uc_UserID demoGuest = Some 1" by (simp add: demoGuest_def)
  from upload_within_quota [OF this run] s run show ?thesis by auto
qed

text \<open>Beyond 64 bits the check is passed: a video of four bytes and an upload of \<open>2 ^ 63 - 1\<close> fit a storage of 100.\<close>

definition hugeUpload :: upload_info where
  "hugeUpload = demoChunk\<lparr>ui_Size := 2 ^ 63 - 1, ui_IsPartial := False\<rparr>"

definition linkedWorld :: upload_world where
  "linkedWorld = uploadDemo1\<lparr>uw_lib := demoLibrary\<lparr>lb_links := [\<lparr>ln_ID = 7, ln_UUID = ''u'', ln_CreationKey = [], ln_Name = ''a.mp4'',
     ln_FileID = 1, ln_UserID = 1, ln_ParentFolderID = 1, ln_Deleted = False\<rparr>]\<rparr>\<rparr>"

theorem quota_sum_wraps:
  "\<exists>s w' fs'. preUploadCreate uploadDemoEnv (uploadDemoConfig\<lparr>cf_MaxUploadFilesize := 0\<rparr>) \<lparr>uc_UserID = Some 1, uc_Share = None\<rparr> hugeUpload
       (linkedWorld, []) = (Inr s, w', fs') \<and> map_option ua_Storage (userById 1 w') = Some 100 \<and>
     usedStorage 1 w' + pendingStorage 1 [] w' = 2 ^ 63 + 3"
proof -
  have "(case preUploadCreate uploadDemoEnv (uploadDemoConfig\<lparr>cf_MaxUploadFilesize := 0\<rparr>) \<lparr>uc_UserID = Some 1, uc_Share = None\<rparr> hugeUpload
      (linkedWorld, []) of (Inr s, w', _) \<Rightarrow> map_option ua_Storage (userById 1 w') = Some 100 \<and>
        usedStorage 1 w' + pendingStorage 1 [] w' = 2 ^ 63 + 3 | _ \<Rightarrow> False)"
    by code_simp
  then show ?thesis by (fastforce split: prod.splits sum.splits)
qed

section \<open>Finalizing\<close>



section \<open>What a guest is told\<close>

text \<open>C35: What a guest is told of an upload changes nothing and concerns only a session opened
  through the live, unexpired and unlocked share of the token, in its present version; a public
  link is told only when the share returns links, the upload is done, and the link is live,
  belongs to the owner of the share and lies in the shared subtree.\<close>

theorem guest_told_truth:
  assumes "SharedUploadStatus now cfg unlocked token i (w, fs) = (Inr r, w', fs')"
  shows "w' = w \<and> told now unlocked token i w r"
  using wpD [OF wp_told assms] .

definition guestToken :: string where
  "guestToken = replicate 43 CHR ''k''"

definition guestWorld :: upload_world where
  "guestWorld = uploadDemo1\<lparr>uw_shares := [upDemoShare\<lparr>sh_Token := guestToken\<rparr>],
     uw_sessions := [(newSession uploadDemoEnv demoGuest 1 demoChunk 1)\<lparr>up_Status := UploadDone, us_Kind := KindFinal, us_LinkID := 7\<rparr>],
     uw_lib := demoLibrary\<lparr>lb_links := [(newLink demoImport 1 ''a.mp4'' 1 ''g'' 1)\<lparr>ln_ID := 7\<rparr>]\<rparr>\<rparr>"

theorem guest_told_truth_witness:
  "told 0 False guestToken ''t'' guestWorld (SharedReady ''/v/link'')"
proof -
  have "(case SharedUploadStatus 0 uploadDemoConfig False guestToken ''t'' (guestWorld, []) of (r, _) \<Rightarrow> r = Inr (SharedReady ''/v/link''))"
    by code_simp
  then obtain w' fs' where "SharedUploadStatus 0 uploadDemoConfig False guestToken ''t'' (guestWorld, []) = (Inr (SharedReady ''/v/link''), w', fs')"
    by (auto split: prod.splits)
  from guest_told_truth [OF this] show ?thesis ..
qed

section \<open>What a repeated attempt misses\<close>

text \<open>The file identifier that makes a finalization resumable is that of a new file; a video that was linked to
  a file already there cannot be found by it.\<close>

theorem clone_not_resumable:
  "\<exists>w0 w fs w1 fs1 w2. upInit w0 \<and> up_step\<^sup>*\<^sup>* w0 w \<and>
     finalizeContext demoImport True ''t'' 1 (w, fs) = (Inl (App (UploadRejected 500 [])), w1, fs1) \<and>
     finalizeContext demoImport True ''t'' 1 (w1, []) = (Inl (App (UploadRejected 404 [])), w2, []) \<and>
     list_ex (\<lambda>l. ln_CreationKey l = uploadKey 1 ''g'' \<and> ln_UserID l = 1) (liveLinks (uw_lib w2)) \<and>
     list_all (\<lambda>s. up_Status s = UploadFailed \<and> us_LinkID s = 0) (uw_sessions w2)"
proof -
  let ?fs = "replicate 20 None @ [Some ''database is locked'']"
  have "(case finalizeContext demoImport True ''t'' 1 (uploadDemo4, ?fs) of (r1, w1, _) \<Rightarrow> r1 = Inl (App (UploadRejected 500 [])) \<and>
      (case finalizeContext demoImport True ''t'' 1 (w1, []) of (r2, w2, fs2) \<Rightarrow> r2 = Inl (App (UploadRejected 404 [])) \<and> fs2 = [] \<and>
        list_ex (\<lambda>l. ln_CreationKey l = uploadKey 1 ''g'' \<and> ln_UserID l = 1) (liveLinks (uw_lib w2)) \<and>
        list_all (\<lambda>s. up_Status s = UploadFailed \<and> us_LinkID s = 0) (uw_sessions w2)))"
    by code_simp
  then show ?thesis using demo1_reached(1) demo4_reached by (fastforce split: prod.splits)
qed

text \<open>A failure while the rows of the tracks are written leaves the file and its link; the next attempt finds them and
  reports success, and nothing will be encoded.\<close>

theorem interrupted_import_loses_tracks:
  "\<exists>w fs w1 fs1 l w2 l' w3. up_step\<^sup>*\<^sup>* uploadDemo0 w \<and>
     finalizeContext importAnew True ''t'' 1 (w, fs) = (Inl (App (UploadRejected 500 [])), w1, fs1) \<and>
     finalizeContext importAnew True ''t'' 1 (w1, []) = (Inr l, w2, []) \<and> uw_tracks w2 = [] \<and>
     finalizeContext importAnew True ''t'' 1 (w, []) = (Inr l', w3, []) \<and> uw_tracks w3 \<noteq> []"
proof -
  let ?fs = "replicate 21 None @ [Some ''database is locked'']"
  have "(case finalizeContext importAnew True ''t'' 1 (uploadDemo4, ?fs) of (r1, w1, _) \<Rightarrow> r1 = Inl (App (UploadRejected 500 [])) \<and>
      (case finalizeContext importAnew True ''t'' 1 (w1, []) of (r2, w2, fs2) \<Rightarrow> (case r2 of Inl e \<Rightarrow> False | Inr l \<Rightarrow> True) \<and> fs2 = [] \<and> uw_tracks w2 = []))"
    "(case finalizeContext importAnew True ''t'' 1 (uploadDemo4, []) of (r3, w3, fs3) \<Rightarrow> (case r3 of Inl e \<Rightarrow> False | Inr l \<Rightarrow> True) \<and> fs3 = [] \<and> uw_tracks w3 \<noteq> [])"
    by code_simp+
  then show ?thesis using demo4_reached by (fastforce split: prod.splits sum.splits)
qed

text \<open>Progress and completion are handled by goroutines of their own. A progress event handled after the completion
  puts the session back, and the video cannot be queued any more.\<close>

theorem late_progress_undoes_completion:
  "\<exists>w1 w2. up_step\<^sup>*\<^sup>* uploadDemo0 uploadDemo4 \<and> updateSessionFromEvent upDemoEvent True (uploadDemo4, []) = (Inr (), w1, []) \<and>
     EnqueueFinalize 1 uploadDemoConfig (\<lambda>k. ''job'') demoOwner ''t'' 1 (w1, []) =
       (Inl (App (UploadRejected 409 ''upload is not complete'')), w2, [])"
proof -
  have "(case updateSessionFromEvent upDemoEvent True (uploadDemo4, []) of (r1, w1, fs1) \<Rightarrow> r1 = Inr () \<and> fs1 = [] \<and>
      (case EnqueueFinalize 1 uploadDemoConfig (\<lambda>k. ''job'') demoOwner ''t'' 1 (w1, []) of
        (r2, w2, fs2) \<Rightarrow> r2 = Inl (App (UploadRejected 409 ''upload is not complete'')) \<and> fs2 = []))"
    by code_simp
  then show ?thesis using demo4_reached by (auto split: prod.splits)
qed

end
