(* ===== verification/Spec2Isabelle.thy ===== *)
theory Spec2Isabelle
  imports BgRestart BgPolicy BgAccess BgProgress TrafficClaims StRegistry StStoreClaims McCapture McClaims LibClaims LkClaims MgClaims MgPromises UpClaims
begin

text \<open>
  A verification library of VideoCMS, the Go server in this repository: the services that keep its
  videos, folders and background work consistent. Sources are named relative to \<^verbatim>\<open>src/\<close>.

  \<^bold>\<open>How the program is put together.\<close> HTTP controllers call \<^verbatim>\<open>logic\<close> (folders, links, storage
  administration, storage migration). Long work becomes a job of tasks in SQLite, run by the
  workers of \<^verbatim>\<open>background\<close>, whose handlers are in \<^verbatim>\<open>services\<close> (encoding, deletion, migration).
  Media bytes live on mounts behind the store contract of \<^verbatim>\<open>storage\<close>; \<^verbatim>\<open>mediacache\<close> keeps copies of
  played objects on faster mounts; \<^verbatim>\<open>traffic\<close> counts what is played; \<^verbatim>\<open>sharing\<close> opens a folder to
  others; \<^verbatim>\<open>app\<close> holds the locks and the request gate the others share.

  \<^bold>\<open>How the model reads.\<close> A table is a list of rows, a row a record with the columns the operations
  read or write. A database transaction is a function on the tables and a list of pending faults
  (\<open>Prelude\<close>, type \<open>tx\<close>): every statement, store call or call of another component consumes one
  entry of the list and fails when the entry says so. A theorem for every list of faults therefore
  covers every way in which the database or a provider may fail. \<open>tx_transaction\<close> rolls back on an
  error; operations without it leave behind what they did, as in the code. Errors are values of a sum;
  an early return or a rejected guard is a branch. Clock readings, generated identifiers, SHA-256,
  redaction and what a handler or a provider returns are arguments. A component that is entered by
  many goroutines is a step relation on its state, and its invariant is an interpretation of the
  locale \<open>invariant_system\<close>.

  \<^bold>\<open>Background work\<close> (\<^verbatim>\<open>background/types.go, errors.go, store.go, runtime.go\<close>): \<open>BgTypes\<close> (rows,
  statuses, specs), \<open>BgErrors\<close> (error classes), \<open>BgStore\<close> (enqueueing, views), \<open>BgReduce\<close>
  (\<^verbatim>\<open>recomputeJob\<close>), \<open>BgRuntime\<close> (claim, launch, progress, the commit fence, finish), \<open>BgControl\<close>
  (pause, cancel, retry, recovery, retention), \<open>BgSchedule\<close> (queues, schedules, start and stop).
  \<open>BgInvariant\<close>, \<open>BgOps\<close>, \<open>BgEnqueue\<close>, \<open>BgRecover\<close> prove that every transaction keeps
  the table invariant, \<open>BgSystem\<close> that every operation of a runtime keeps it together with the table of
  running workers. \<open>BgClaims\<close>, \<open>BgFence\<close>, \<open>BgPolicy\<close>, \<open>BgAccess\<close>, \<open>BgProgress\<close>, \<open>BgRestart\<close> hold
  the properties, on a history that \<open>BgClaims\<close> defines. A handler is an entry of the table of running workers,
  and what it returns is an argument. The redaction of diagnostics is a parameter.

  \<^bold>\<open>Storage\<close> (\<^verbatim>\<open>storage/key.go, layout.go, store.go, copy.go, tree.go, transfer.go, service.go,
  managed_store.go\<close>): \<open>StKey\<close> (keys and layout), \<open>StStore\<close> (an explicit store, verified copies,
  prefix deletion, publication), \<open>StStoreClaims\<close>, \<open>StRegistry\<close> (replacing and draining providers).
  A provider may store other bytes than it was given; the copies are verified against that.

  \<^bold>\<open>Storage locks\<close> (\<^verbatim>\<open>app/storage_lifecycle.go\<close>): \<open>LkState\<close> (the keyed reader-writer locks with
  their reference counts, over Go's mutex with announced writers, and what the operations ask for),
  \<open>LkInv\<close> (each user of a key is a token; entries count their tokens; the goroutines as a system), \<open>LkLive\<close> (goroutines
  that keep an order of locking never block each other for good; locale \<open>lock_order\<close>), \<open>LkClaims\<close>.
  Go hands a mutex on in some order; the model allows every order.

  \<^bold>\<open>Storage migration and deletion\<close> (\<^verbatim>\<open>logic/StorageMigration.go, services/StorageMigration.go,
  services/Deleter.go\<close>): \<open>MgState\<close> (rows, one world of tables, stores and jobs, checkpoints, the copy of
  one object), \<open>MgOps\<close> (copying a video, cutover), \<open>MgClean\<close> (removing originals, discarding copies,
  retry, keeping originals, the deleter), \<open>MgPlan\<close>, \<open>MgStart\<close> (plan, fingerprint, start, job links),
  \<open>MgControl\<close> (task handlers, administrator controls, guards), \<open>MgReconcile\<close>. The invariant
  \<open>mediaSafe\<close> (\<open>MgInv\<close>) is relative to the media \<open>orig\<close> that were uploaded and encoded; \<open>MgSafe\<close>,
  \<open>MgCopySafe\<close>, \<open>MgCopyDone\<close>, \<open>MgStages\<close>, \<open>MgRest\<close>, \<open>MgDelete\<close>, \<open>MgPlanOK\<close>, \<open>MgHandlersSafe\<close> show that each
  operation keeps it however it ends, \<open>MgSystem\<close> puts them together with uploads and encodings in any
  order. \<open>MgEffects\<close> and \<open>MgSettled\<close> say what a deletion and a finished cleanup leave; \<open>MgClaims\<close> and
  \<open>MgPromises\<close> hold the properties, on the world of \<open>MgDemo\<close>. Each stage runs under the lock of its
  file (see the storage locks), so a stage is one step here. The background runtime is a parameter
  that changes only its own tables (\<open>runtimeOK\<close>; \<open>background\<close> itself is modelled above), providers
  store what they acknowledge (\<open>honest\<close>), the pool of object workers runs one object after the other,
  and encodings only add objects below the prefix of their file.

  \<^bold>\<open>Media cache\<close> (\<^verbatim>\<open>mediacache/service.go, capture.go\<close>): \<open>McState\<close>, \<open>McFill\<close> (targets, eviction,
  promotion, invalidation, pruning), \<open>McOpen\<close> (lookups and captures), \<open>McCapture\<close> (the copying
  response body). \<open>McInv\<close> has the locales \<open>kept_by_cache\<close> and \<open>kept_by_fill\<close>: a property kept by the
  primitive changes is kept by every operation, whichever statement fails. Their interpretations give the
  step relation (\<open>McInv\<close>, \<open>McInvalid\<close>), what is served and published (\<open>McServe\<close>, \<open>McPublish\<close>), room
  (\<open>McRoom\<close>) and the claims in memory; \<open>McClaims\<close> holds the properties, on \<open>McDemo\<close>. Watermarks and
  fill ratios are exact fractions where the code has \<^verbatim>\<open>float64\<close>.

  \<^bold>\<open>Traffic\<close> (\<^verbatim>\<open>traffic/recorder.go\<close>): \<open>Traffic\<close>, \<open>TrafficSystem\<close>, \<open>TrafficClaims\<close>. Counters are
  64-bit words and wrap; an event may arrive while a flush is under way.

  \<^bold>\<open>Library and shares\<close> (\<^verbatim>\<open>logic/CreateFolder.go, FolderDestination.go, MoveItems.go,
  DeleteFolders.go, DeleteFiles.go, HashCloneFile.go, sharing\<close>, and the request gate of
  \<^verbatim>\<open>app/runtime.go\<close>): \<open>LibTree\<close>, then \<open>LibInv\<close> (the folders are a forest), \<open>LibMove\<close>, \<open>LibDelete\<close>,
  \<open>LibSystem\<close>, \<open>LibShare\<close>, \<open>LibLive\<close>, \<open>LibClaims\<close>.

  \<^bold>\<open>Resumable uploads\<close> (\<^verbatim>\<open>services/tusupload/service.go, shared.go\<close>, and of \<^verbatim>\<open>logic\<close> the files
  \<^verbatim>\<open>CreateFile.go, HashCloneFile.go, User.go\<close>): \<open>UpState\<close> (sessions, events of the protocol handler,
  expiry, quotas), \<open>UpCreate\<close> (opening a session, guests of a share), \<open>UpImport\<close> (creating the file and its
  link, or linking a file already there; finalization; what a guest is told). The folders, links and
  shares are the tables of the library, whose operations \<open>inLibrary\<close> runs on what they see of the larger
  world. \<open>UpInv\<close> has the locale \<open>kept_by_import\<close>, one lemma per operation, and the system of uploads in any
  order with the operations of the library; \<open>UpQuota\<close> says what a successful opening has checked, \<open>UpFinish\<close>
  what a finalization leaves; \<open>UpClaims\<close> holds the properties on a small installation. The protocol
  handler, \<^verbatim>\<open>ffprobe\<close>, UUIDs, the hash, the mount the placement selects and the runtime that queues the task
  are parameters. Of the rows to be encoded labels, bitrates and dimensions are left out; a frame rate is
  given as a quotient; lower case is that of ASCII. Not modelled are the sessions of the former table
  layout, the rewriting of URLs, authentication, and the health of the event consumers.

  \<^bold>\<open>Loops and their bounds.\<close> A loop over the folder tree has fuel two more than the number of
  folders (\<open>containsWalk\<close>, \<open>collectTree\<close>) or one more (\<open>growSubtree\<close>); running out of
  the first is the error \<open>Unbounded\<close>, and \<open>library_walks_terminate\<close> shows that it never occurs. \<open>shareWalk\<close> has
  the 256 levels, \<open>copyAttempts\<close> the five attempts of the code. \<open>Flush\<close> returns \<open>None\<close> when its rounds run
  out, and \<open>shutdown_drains\<close> gives the number that is enough. Goroutines take boundedly many steps by
  \<open>operations_finish\<close>. All other recursion is structural.

  \<^bold>\<open>Integers.\<close> The sums that quotas and the capacity of a share compare are signed integers of 64 bits:
  \<open>wrap64\<close> is Go's arithmetic, and \<open>tx_sum\<close> fails where \<^verbatim>\<open>SUM\<close> of SQLite overflows; \<open>quota_sum_wraps\<close> shows an
  upload that passes the check by wrapping around. Identifiers, times and all other sizes are natural
  numbers or integers without a bound. The traffic counters wrap modulo \<open>2 ^ 64\<close> in memory and, by the
  same addition, in the table, where SQLite would leave the integers beyond \<open>2 ^ 63\<close>.

  \<^bold>\<open>Steps.\<close> A transaction is one step, as SQLite serializes writers. An operation is one step too, but for
  the playback cache, whose statements interleave, and the locks, whose goroutines do; so the
  properties speak of histories of whole operations, and these are coarser than the code: a creation of an
  upload checks and inserts (a mutex keeps other creations out, not a finalization), a worker commits
  its result and leaves the table of workers (\<open>completeTask\<close>), \<open>Retain\<close> selects and deletes, the deleter
  counts the references of a file and removes them (\<open>releaseReferences\<close>), a miss of the cache opens the
  origin and then reads the generation. Where the code misbehaves between such statements the findings of the
  manifest say so. The settings are read anew in every round of the dispatcher: the environment of a
  history of the runtime bounds the capacities its rounds read (\<open>bg_step\<close>).

  \<^bold>\<open>Abstractions.\<close> Error texts that no code inspects, log lines, \<^verbatim>\<open>UpdatedAt\<close> columns and progress texts
  are left out. \<^verbatim>\<open>%q\<close> is modelled on printable text. Iterations over Go maps are over a list whose order
  is an argument or quantified. The removal of sources after encoding (\<^verbatim>\<open>services/EncoderCleanup.go\<close>) is not a
  step of the migration model, in which encodings only add objects.

  \<^bold>\<open>Not modelled.\<close> The one-time backfill of legacy rows (\<^verbatim>\<open>background/migration.go\<close>); the assembly
  of downloads, which is one ffmpeg command; the clients of the file system, S3 and SFTP and the
  workspace (\<^verbatim>\<open>storage/local.go, s3.go, sftp.go, workspace.go\<close>), which appear through the store
  contract only; storage administration and placement beyond its locks; encoding,
  downloading and thumbnails, which are ffmpeg and network I/O; signed tokens and captchas; reading
  the configuration; the small helpers; controllers, middlewares, routes, templates, start-up and
  scripts, which are wiring; the tables' schema beyond the rows above.
\<close>

end
